(* ===== verification/DevFlow_Prelude.thy ===== *)
theory DevFlow_Prelude
  imports Main "HOL-Library.List_Lexorder" "HOL-Library.Char_ord" "HOL-Library.Sublist"
begin

text \<open>
  Shared vocabulary of the DevFlow development.

  \<^item> Python exceptions are values: \<open>exn\<close> has one constructor per exception class that the
    modelled code raises, carrying the fixed part of its message, and a fallible operation
    returns \<open>'a res\<close>, a sum with the exception on the left.
  \<^item> Python strings are \<open>string\<close>; the helpers below model the \<open>str\<close> methods the source uses
    (\<open>strip\<close>, \<open>startswith\<close>, \<open>split\<close>). Characters are code points below 256.
  \<^item> UUIDs are opaque numbers, database times are whole microseconds.
  \<^item> The locale \<open>transition_system\<close> is the interface every state machine of the
    development implements: an invariant that holds at the start and is kept by each
    step holds in every reachable state.
\<close>

section \<open>Types\<close>

type_synonym uuid = nat
type_synonym task_id = string
type_synonym timestamp = int

datatype tool_error_code = INVALID_ARGUMENTS | PATH_DENIED | NOT_FOUND | AMBIGUOUS_PATCH | IO_ERROR | UNKNOWN_TOOL

datatype exn =
    ValueError string
  | KeyError string
  | RuntimeError string
  | PersistenceConflictError string
  | PersistenceCorruptionError string
  | TaskLeaseConflictError string
  | TaskLeaseExpiredError string
  | StaleRunTokenError string
  | MergeQueueError string
  | RunBudgetExhaustedError string
  | PlanningTokenBudgetReservationError string
  | TaskDispatchRejectedError string
  | TaskDispatchBrokerError string
  | WorkPackagePlanError string
  | IntegrityError string
  | NoResultFound string
  | AssertionError string
  | WorkspaceGitError string
  | TaskWorktreeError string
  | TaskWorktreeCollisionError string
  | StaleTaskWorktreeError string
  | RepositoryToolError tool_error_code string
  | OSError string
  | UnicodeDecodeError string

type_synonym 'a res = "exn + 'a"

section \<open>Named collections\<close>

text \<open>
  \<open>exec_defs\<close> collects the defining equations a witness unfolds; \<open>inv_rules\<close> collects the
  lemmas that an operation keeps its component's invariant.
\<close>

named_theorems exec_defs
named_theorems inv_rules

section \<open>Results\<close>

definition bind_res :: "'a res \<Rightarrow> ('a \<Rightarrow> 'b res) \<Rightarrow> 'b res" where
  "bind_res m f = (case m of Inl e \<Rightarrow> Inl e | Inr x \<Rightarrow> f x)"

fun map_res :: "('a \<Rightarrow> 'b res) \<Rightarrow> 'a list \<Rightarrow> 'b list res" where
  "map_res f [] = Inr []"
| "map_res f (x # xs) =
     bind_res (f x) (\<lambda>y. bind_res (map_res f xs) (\<lambda>ys. Inr (y # ys)))"

fun fold_res :: "('a \<Rightarrow> 's \<Rightarrow> 's res) \<Rightarrow> 'a list \<Rightarrow> 's \<Rightarrow> 's res" where
  "fold_res f [] s = Inr s"
| "fold_res f (x # xs) s = bind_res (f x s) (fold_res f xs)"

definition is_ok :: "'a res \<Rightarrow> bool" where
  "is_ok m = (case m of Inl _ \<Rightarrow> False | Inr _ \<Rightarrow> True)"

lemma bind_res_Inl [simp]: "bind_res (Inl e) f = Inl e"
  by (simp add: bind_res_def)

lemma bind_res_Inr [simp]: "bind_res (Inr x) f = f x"
  by (simp add: bind_res_def)

lemma is_ok_simps [simp]: "is_ok (Inr x)" "\<not> is_ok (Inl e)"
  by (simp_all add: is_ok_def)

lemma is_ok_iff: "is_ok m \<longleftrightarrow> (\<exists>x. m = Inr x)"
  by (cases m) auto

lemma bind_res_eq_Inr: "bind_res m f = Inr y \<longleftrightarrow> (\<exists>x. m = Inr x \<and> f x = Inr y)"
  by (cases m) auto

lemma bind_res_eq_Inl:
  "bind_res m f = Inl e \<longleftrightarrow> m = Inl e \<or> (\<exists>x. m = Inr x \<and> f x = Inl e)"
  by (cases m) auto

lemma map_res_Inr_iff: "map_res f xs = Inr ys \<longleftrightarrow> list_all2 (\<lambda>x y. f x = Inr y) xs ys"
  by (induction xs arbitrary: ys)
     (auto simp: bind_res_eq_Inr list_all2_Cons1)

lemma map_res_length: "map_res f xs = Inr ys \<Longrightarrow> length ys = length xs"
  by (auto simp: map_res_Inr_iff dest: list_all2_lengthD)

lemma map_res_pure: "map_res (\<lambda>x. Inr (f x)) xs = Inr (map f xs)"
  by (induction xs) auto

lemma fold_res_append:
  "fold_res f (xs @ ys) s = bind_res (fold_res f xs s) (fold_res f ys)"
  by (induction xs arbitrary: s) (auto simp: bind_res_def split: sum.splits)

lemma fold_res_invariant:
  assumes "fold_res f xs s = Inr s'" and "P s"
    and "\<And>x s s'. x \<in> set xs \<Longrightarrow> P s \<Longrightarrow> f x s = Inr s' \<Longrightarrow> P s'"
  shows "P s'"
  using assms
proof (induction xs arbitrary: s)
  case Nil
  then show ?case by simp
next
  case (Cons x xs)
  then obtain t where t: "f x s = Inr t" "fold_res f xs t = Inr s'"
    by (auto simp: bind_res_eq_Inr)
  with Cons.prems have "P t" by auto
  with t(2) show ?case by (rule Cons.IH) (use Cons.prems(3) in auto)
qed

section \<open>Strings\<close>

text \<open>\<open>str.isspace\<close> on one character, as \<open>str.strip\<close> and \<open>str.split\<close> use it.\<close>

definition is_space :: "char \<Rightarrow> bool" where
  "is_space c = (let n = (of_char c :: nat) in
     9 \<le> n \<and> n \<le> 13 \<or> 28 \<le> n \<and> n \<le> 32 \<or> n = 133 \<or> n = 160)"

definition strip :: "string \<Rightarrow> string" where
  "strip s = rev (dropWhile is_space (rev (dropWhile is_space s)))"

text \<open>\<open>str.split(sep)\<close> for a one-character separator.\<close>

fun split_on :: "char \<Rightarrow> string \<Rightarrow> string list" where
  "split_on c [] = [[]]"
| "split_on c (x # xs) =
     (if x = c then [] # split_on c xs
      else (case split_on c xs of [] \<Rightarrow> [[x]] | p # ps \<Rightarrow> (x # p) # ps))"

lemma split_on_not_Nil [simp]: "split_on c s \<noteq> []"
  by (cases s) (auto split: list.splits)

lemma split_on_no_sep: "c \<notin> set s \<Longrightarrow> split_on c s = [s]"
  by (induction s) auto

lemma split_on_append_sep: "split_on c (s @ c # t) = split_on c s @ split_on c t"
  by (induction s) (auto split: list.splits)

lemma length_split_on: "length (split_on c s) = Suc (count_list s c)"
  by (induction s) (auto split: list.splits)

text \<open>\<open>str.startswith\<close> is \<^const>\<open>prefix\<close> of the library.\<close>

lemma dropWhile_hd: "dropWhile P xs = y # ys \<Longrightarrow> \<not> P y"
  by (metis hd_dropWhile list.distinct(1) list.sel(1))

lemma strip_ends: "strip s \<noteq> [] \<Longrightarrow> \<not> is_space (hd (strip s)) \<and> \<not> is_space (last (strip s))"
proof -
  assume ne: "strip s \<noteq> []"
  define t where "t = dropWhile is_space s"
  define u where "u = dropWhile is_space (rev t)"
  have s: "strip s = rev u" by (simp add: strip_def t_def u_def)
  with ne have une: "u \<noteq> []" by simp
  then have last: "\<not> is_space (hd u)" unfolding u_def by (rule hd_dropWhile)
  obtain v where "rev t = v @ u" unfolding u_def by (metis takeWhile_dropWhile_id)
  then have t: "t = rev u @ rev v" by (metis rev_append rev_rev_ident)
  with une have "t \<noteq> []" "hd t = last u" by (auto simp: hd_append hd_rev)
  moreover from \<open>t \<noteq> []\<close> have "\<not> is_space (hd t)" unfolding t_def by (rule hd_dropWhile)
  ultimately show ?thesis using last s une by (simp add: hd_rev last_rev)
qed

lemma strip_id: "s = [] \<or> (\<not> is_space (hd s) \<and> \<not> is_space (last s)) \<Longrightarrow> strip s = s"
proof -
  assume *: "s = [] \<or> (\<not> is_space (hd s) \<and> \<not> is_space (last s))"
  then have "dropWhile is_space s = s" by (cases s) auto
  moreover from * have "dropWhile is_space (rev s) = rev s"
    by (cases s rule: rev_cases) auto
  ultimately show ?thesis by (simp add: strip_def)
qed

lemma strip_idem [simp]: "strip (strip s) = strip s"
  using strip_ends [of s] by (intro strip_id) auto

lemma set_strip: "set (strip s) \<subseteq> set s"
  unfolding strip_def by (auto dest!: set_dropWhileD)

lemma length_strip: "length (strip s) \<le> length s"
  unfolding strip_def using length_dropWhile_le [of is_space "rev (dropWhile is_space s)"]
    length_dropWhile_le [of is_space s]
  by simp

text \<open>\<open>str.splitlines()\<close>.\<close>

definition is_line_break :: "char \<Rightarrow> bool" where
  "is_line_break c = (let n = (of_char c :: nat) in 10 \<le> n \<and> n \<le> 13 \<or> 28 \<le> n \<and> n \<le> 30 \<or> n = 133)"

definition drop_line_feed :: "string \<Rightarrow> string" where
  "drop_line_feed s = (case s of [] \<Rightarrow> [] | c # r \<Rightarrow> if c = CHR 0x0A then r else s)"

function lines_from :: "string \<Rightarrow> string \<Rightarrow> string list" where
  "lines_from [] l = (if l = [] then [] else [l])"
| "lines_from (c # s) l =
     (if is_line_break c then l # lines_from (if c = CHR 0x0D then drop_line_feed s else s) []
      else lines_from s (l @ [c]))"
  by pat_completeness auto
termination
  by (relation "measure (\<lambda>(s, _). length s)") (auto simp: drop_line_feed_def split: list.splits)

definition splitlines :: "string \<Rightarrow> string list" where
  "splitlines s = lines_from s []"

text \<open>\<open>str.splitlines(keepends=True)\<close>.\<close>

function kept_lines_from :: "string \<Rightarrow> string \<Rightarrow> string list" where
  "kept_lines_from [] l = (if l = [] then [] else [l])"
| "kept_lines_from (c # s) l =
     (if is_line_break c
      then (if c = CHR 0x0D \<and> s \<noteq> [] \<and> hd s = CHR 0x0A then (l @ [c, CHR 0x0A]) # kept_lines_from (tl s) []
            else (l @ [c]) # kept_lines_from s [])
      else kept_lines_from s (l @ [c]))"
  by pat_completeness auto
termination
  by (relation "measure (\<lambda>(s, _). length s)") auto

definition splitlines_keepends :: "string \<Rightarrow> string list" where
  "splitlines_keepends s = kept_lines_from s []"

lemma concat_kept_lines: "concat (kept_lines_from s l) = l @ s"
proof (induction s l rule: kept_lines_from.induct)
  case (2 c s l)
  then show ?case by (cases s) auto
qed simp

text \<open>The newlines of a file opened in text mode: \<open>\r\n\<close> and \<open>\r\<close> are read as \<open>\n\<close>.\<close>

function universal_newlines :: "string \<Rightarrow> string" where
  "universal_newlines [] = []"
| "universal_newlines (c # s) =
     (if c = CHR 0x0D then CHR 0x0A # universal_newlines (drop_line_feed s) else c # universal_newlines s)"
  by pat_completeness auto
termination
  by (relation "measure length") (auto simp: drop_line_feed_def split: list.splits)

lemma universal_newlines_id: "CHR 0x0D \<notin> set s \<Longrightarrow> universal_newlines s = s"
  by (induction s) auto

lemma universal_newlines_no_return: "CHR 0x0D \<notin> set (universal_newlines s)"
  by (induction s rule: universal_newlines.induct) auto

section \<open>Ordered lists\<close>

text \<open>The index of an element in a distinct list, as \<open>enumerate\<close> and \<open>list.index\<close> give it.\<close>

fun index_of :: "'a list \<Rightarrow> 'a \<Rightarrow> nat" where
  "index_of [] y = 0"
| "index_of (x # xs) y = (if x = y then 0 else Suc (index_of xs y))"

lemma index_of_less: "x \<in> set xs \<Longrightarrow> index_of xs x < length xs"
  by (induction xs) auto

lemma nth_index_of: "x \<in> set xs \<Longrightarrow> xs ! index_of xs x = x"
  by (induction xs) auto

lemma index_of_nth: "distinct xs \<Longrightarrow> i < length xs \<Longrightarrow> index_of xs (xs ! i) = i"
proof (induction xs arbitrary: i)
  case (Cons x xs)
  then show ?case by (cases i) auto
qed simp

lemma index_of_inj:
  "x \<in> set xs \<Longrightarrow> y \<in> set xs \<Longrightarrow> index_of xs x = index_of xs y \<Longrightarrow> x = y"
  by (metis nth_index_of)

lemma in_set_take_index:
  "x \<in> set xs \<Longrightarrow> distinct xs \<Longrightarrow> x \<in> set (take n xs) \<longleftrightarrow> index_of xs x < n"
proof (induction xs arbitrary: n)
  case (Cons y ys)
  then show ?case by (cases n) (auto dest: in_set_takeD)
qed simp

lemma sorted_Cons_Min: "sorted (x # xs) \<Longrightarrow> Min (set (x # xs)) = x"
  for x :: "'a :: linorder"
  by (intro Min_eqI) auto

section \<open>Transition systems\<close>

text \<open>
  The reachable states of a machine given by its initial states and its step relation,
  and the induction principle its clients use.
\<close>

inductive reachable :: "('s \<Rightarrow> bool) \<Rightarrow> ('s \<Rightarrow> 's \<Rightarrow> bool) \<Rightarrow> 's \<Rightarrow> bool"
  for init :: "'s \<Rightarrow> bool" and step :: "'s \<Rightarrow> 's \<Rightarrow> bool" where
  reach_init: "init s \<Longrightarrow> reachable init step s"
| reach_step: "reachable init step s \<Longrightarrow> step s t \<Longrightarrow> reachable init step t"

lemma reachable_closure:
  "reachable init step s \<Longrightarrow> step\<^sup>*\<^sup>* s t \<Longrightarrow> reachable init step t"
  by (rotate_tac, induction rule: rtranclp_induct) (auto intro: reach_step)

locale transition_system =
  fixes init :: "'s \<Rightarrow> bool"
    and step :: "'s \<Rightarrow> 's \<Rightarrow> bool"
    and inv :: "'s \<Rightarrow> bool"
  assumes inv_init: "init s \<Longrightarrow> inv s"
    and inv_step: "inv s \<Longrightarrow> step s t \<Longrightarrow> inv t"
begin

lemma reach_inv: "reachable init step s \<Longrightarrow> inv s"
  by (induction rule: reachable.induct) (auto intro: inv_init inv_step)

lemma steps_inv: "inv s \<Longrightarrow> step\<^sup>*\<^sup>* s t \<Longrightarrow> inv t"
  by (rotate_tac, induction rule: rtranclp_induct) (auto intro: inv_step)

text \<open>A monotone quantity only grows along runs.\<close>

lemma steps_mono:
  assumes "inv s" and "step\<^sup>*\<^sup>* s t"
    and "\<And>u v. inv u \<Longrightarrow> step u v \<Longrightarrow> (f u :: 'n :: preorder) \<le> f v"
  shows "f s \<le> f t"
proof -
  from assms(2) have "inv t \<and> f s \<le> f t"
  proof (induction rule: rtranclp_induct)
    case base
    with assms(1) show ?case by simp
  next
    case (step u v)
    with assms(3) show ?case by (blast intro: inv_step order_trans)
  qed
  then show ?thesis by simp
qed

end

end
