(* ===== verification/Task_Contract.thy ===== *)
theory Task_Contract
  imports DevFlow_Prelude
begin

text \<open>
  The task contract (\<open>models/task.py\<close>) and the write-scope gate (\<open>workspace/scope.py\<close>).

  A \<open>task_contract\<close> is built only through \<open>TaskContract\<close>, which runs the pydantic field
  constraints and validators in field order and raises at the first one that fails
  (pydantic raises one \<open>ValidationError\<close>, a \<open>ValueError\<close>, for all of them).
  \<open>ScopeEnforcer_check\<close> translates each glob of the contract into a regular
  expression and matches the changed paths against it: \<open>glob_regex\<close> is the
  translation loop, with one \<open>rx\<close> token per fragment the source appends, and \<open>fullmatch\<close>
  is \<open>re.fullmatch\<close> on such a token list (\<open>.\<close> does not match a newline, \<open>[^/]\<close> does).
  The lemmas give the language a glob denotes, that a pattern without \<open>**\<close> never
  crosses a directory, and that a passed scope check leaves no change outside the
  writable patterns or inside the read-only ones.
\<close>

section \<open>Scope patterns\<close>

definition normalize_scope_pattern :: "string \<Rightarrow> string res" where
  "normalize_scope_pattern value =
     (let pattern = strip value in
      if pattern = [] then Inl (ValueError ''scope patterns must not be empty'')
      else if hd pattern = CHR ''/'' \<or> hd pattern = CHR 0x5C then
        Inl (ValueError ''scope patterns must be repository-relative'')
      else if CHR 0x5C \<in> set pattern then
        Inl (ValueError ''scope patterns must use POSIX-style '/' separators'')
      else if length pattern \<ge> 2 \<and> pattern ! 1 = CHR '':'' then
        Inl (ValueError ''scope patterns must not contain Windows drive prefixes'')
      else if ''..'' \<in> set (split_on (CHR ''/'') pattern) then
        Inl (ValueError ''scope patterns must not traverse outside the repository'')
      else if pattern = ''.'' then
        Inl (ValueError ''scope patterns must identify files or subdirectories'')
      else Inr pattern)"

definition normalize_non_empty_text :: "string \<Rightarrow> string res" where
  "normalize_non_empty_text value =
     (let normalized = strip value in
      if normalized = [] then Inl (ValueError ''value must not be empty'') else Inr normalized)"

section \<open>The contract\<close>

record task_contract =
  tc_task_id :: task_id
  objective :: string
  readable_files :: "string list"
  writable_files :: "string list"
  readonly_files :: "string list"
  acceptance_criteria :: "string list"
  verification_commands :: "string list"
  max_retries :: int

text \<open>The content-free state a resumed task starts from: paths and hashes of the files read and changed, and bounded summaries.\<close>

record file_digest =
  fd_path :: string
  fd_sha256 :: string

record continuation_state =
  cn_summary_version :: string
  cn_repository_head :: string
  cn_read_files :: "file_digest list"
  cn_changed_files :: "string list"
  cn_changed_file_hashes :: "file_digest list"
  cn_completed_summary :: string
  cn_remaining_summary :: string
  cn_verification_summary :: string
  cn_failure_summary :: string

definition ascii_alnum :: "char \<Rightarrow> bool" where
  "ascii_alnum c = (let n = (of_char c :: nat) in
     65 \<le> n \<and> n \<le> 90 \<or> 97 \<le> n \<and> n \<le> 122 \<or> 48 \<le> n \<and> n \<le> 57)"

text \<open>The pattern \<open>^[A-Za-z0-9][A-Za-z0-9._-]*$\<close> of task identifiers.\<close>

definition task_id_pattern :: "string \<Rightarrow> bool" where
  "task_id_pattern s = (s \<noteq> [] \<and> ascii_alnum (hd s) \<and>
     list_all (\<lambda>c. ascii_alnum c \<or> c \<in> set ''._-'') (tl s))"

definition validate_scope_patterns :: "string list \<Rightarrow> string list res" where
  "validate_scope_patterns values =
     bind_res (map_res normalize_scope_pattern values) (\<lambda>normalized.
       if \<not> distinct normalized
       then Inl (ValueError ''scope patterns must not contain duplicates'')
       else Inr normalized)"

definition validate_non_empty_items :: "string list \<Rightarrow> string list res" where
  "validate_non_empty_items values =
     bind_res (map_res normalize_non_empty_text values) (\<lambda>normalized.
       if \<not> distinct normalized
       then Inl (ValueError ''list items must not contain duplicates'')
       else Inr normalized)"

definition validate_scope_boundaries :: "task_contract \<Rightarrow> task_contract res" where
  "validate_scope_boundaries t =
     (if set (writable_files t) \<inter> set (readonly_files t) \<noteq> {}
      then Inl (ValueError ''writable_files and readonly_files overlap'')
      else Inr t)"

definition TaskContract :: "task_contract \<Rightarrow> task_contract res" where
  "TaskContract raw =
     (if \<not> (1 \<le> length (tc_task_id raw) \<and> length (tc_task_id raw) \<le> 128
          \<and> task_id_pattern (tc_task_id raw)) then Inl (ValueError ''task_id'')
      else if \<not> (1 \<le> length (objective raw) \<and> length (objective raw) \<le> 4000)
        then Inl (ValueError ''objective'')
      else bind_res (normalize_non_empty_text (objective raw)) (\<lambda>obj.
        bind_res (validate_scope_patterns (readable_files raw)) (\<lambda>rd.
        if writable_files raw = [] then Inl (ValueError ''writable_files'')
        else bind_res (validate_scope_patterns (writable_files raw)) (\<lambda>wr.
        bind_res (validate_scope_patterns (readonly_files raw)) (\<lambda>ro.
        if acceptance_criteria raw = [] then Inl (ValueError ''acceptance_criteria'')
        else bind_res (validate_non_empty_items (acceptance_criteria raw)) (\<lambda>ac.
        if verification_commands raw = [] then Inl (ValueError ''verification_commands'')
        else bind_res (validate_non_empty_items (verification_commands raw)) (\<lambda>vc.
        if \<not> (0 \<le> max_retries raw \<and> max_retries raw \<le> 5)
        then Inl (ValueError ''max_retries'')
        else validate_scope_boundaries
          \<lparr>tc_task_id = tc_task_id raw, objective = obj, readable_files = rd,
           writable_files = wr, readonly_files = ro, acceptance_criteria = ac,
           verification_commands = vc, max_retries = max_retries raw\<rparr>)))))))"

section \<open>Globs\<close>

text \<open>
  One token per fragment that \<open>_glob_regex\<close> appends: \<open>OptDirs\<close> is \<open>(?:.*/)?\<close>, \<open>AnyPath\<close> is
  \<open>.*\<close>, \<open>SegChars\<close> is \<open>[^/]*\<close>, \<open>SegChar\<close> is \<open>[^/]\<close> and \<open>Lit c\<close> is \<open>re.escape(c)\<close>.
\<close>

datatype rx = OptDirs | AnyPath | SegChars | SegChar | Lit char

fun glob_regex :: "string \<Rightarrow> rx list" where
  "glob_regex [] = []"
| "glob_regex (c # cs) =
     (if c = CHR ''*'' then
        (case cs of
           d # ds \<Rightarrow>
             (if d = CHR ''*'' then
                (case ds of
                   e # es \<Rightarrow> (if e = CHR ''/'' then OptDirs # glob_regex es
                              else AnyPath # glob_regex ds)
                 | [] \<Rightarrow> [AnyPath])
              else SegChars # glob_regex cs)
         | [] \<Rightarrow> [SegChars])
      else if c = CHR ''?'' then SegChar # glob_regex cs
      else Lit c # glob_regex cs)"

definition not_newline :: "char \<Rightarrow> bool" where
  "not_newline c = (c \<noteq> CHR 0x0A)"

definition not_slash :: "char \<Rightarrow> bool" where
  "not_slash c = (c \<noteq> CHR ''/'')"

text \<open>Greedy or not, a starred class succeeds when some prefix of class characters lets
  the rest of the expression match.\<close>

primrec match_star :: "(char \<Rightarrow> bool) \<Rightarrow> (string \<Rightarrow> bool) \<Rightarrow> string \<Rightarrow> bool" where
  "match_star P k [] = k []"
| "match_star P k (x # xs) = (k (x # xs) \<or> P x \<and> match_star P k xs)"

definition match_slash :: "(string \<Rightarrow> bool) \<Rightarrow> string \<Rightarrow> bool" where
  "match_slash k s = (case s of [] \<Rightarrow> False | c # cs \<Rightarrow> c = CHR ''/'' \<and> k cs)"

primrec fullmatch :: "rx list \<Rightarrow> string \<Rightarrow> bool" where
  "fullmatch [] s = (s = [])"
| "fullmatch (r # rs) s =
     (case r of
        OptDirs \<Rightarrow> match_star not_newline (match_slash (fullmatch rs)) s \<or> fullmatch rs s
      | AnyPath \<Rightarrow> match_star not_newline (fullmatch rs) s
      | SegChars \<Rightarrow> match_star not_slash (fullmatch rs) s
      | SegChar \<Rightarrow> (case s of [] \<Rightarrow> False | c # cs \<Rightarrow> not_slash c \<and> fullmatch rs cs)
      | Lit d \<Rightarrow> (case s of [] \<Rightarrow> False | c # cs \<Rightarrow> c = d \<and> fullmatch rs cs))"

definition matches :: "string \<Rightarrow> string \<Rightarrow> bool" where
  "matches path pattern = fullmatch (glob_regex pattern) path"

section \<open>The scope gate\<close>

datatype scope_violation_kind = READ_ONLY | OUT_OF_SCOPE

record scope_violation =
  sv_path :: string
  sv_kind :: scope_violation_kind
  matched_pattern :: "string option"

record scope_check_result =
  changed_files :: "string list"
  allowed_files :: "string list"
  violations :: "scope_violation list"

definition scope_passed :: "scope_check_result \<Rightarrow> bool" where
  "scope_passed r = (violations r = [])"

fun first_match :: "string \<Rightarrow> string list \<Rightarrow> string option" where
  "first_match path [] = None"
| "first_match path (p # ps) = (if matches path p then Some p else first_match path ps)"

definition normalize_changed_path :: "string \<Rightarrow> string res" where
  "normalize_changed_path path =
     (let normalized = strip path in
      if normalized = [] then Inl (ValueError ''changed path must not be empty'')
      else if hd normalized = CHR ''/'' \<or> hd normalized = CHR 0x5C \<or> CHR 0x5C \<in> set normalized
        then Inl (ValueError ''changed path must be repository-relative POSIX style'')
      else if ''..'' \<in> set (split_on (CHR ''/'') normalized)
        then Inl (ValueError ''changed path must not traverse outside the repository'')
      else Inr normalized)"

fun check_paths :: "task_contract \<Rightarrow> string list \<Rightarrow> string list \<times> scope_violation list" where
  "check_paths task [] = ([], [])"
| "check_paths task (path # paths) =
     (case first_match path (readonly_files task) of
        Some p \<Rightarrow> (fst (check_paths task paths),
          \<lparr>sv_path = path, sv_kind = READ_ONLY, matched_pattern = Some p\<rparr>
            # snd (check_paths task paths))
      | None \<Rightarrow>
          (case first_match path (writable_files task) of
             None \<Rightarrow> (fst (check_paths task paths),
               \<lparr>sv_path = path, sv_kind = OUT_OF_SCOPE, matched_pattern = None\<rparr>
                 # snd (check_paths task paths))
           | Some p \<Rightarrow> (path # fst (check_paths task paths), snd (check_paths task paths))))"

definition ScopeEnforcer_check :: "task_contract \<Rightarrow> string list \<Rightarrow> scope_check_result res" where
  "ScopeEnforcer_check task files =
     bind_res (map_res normalize_changed_path files) (\<lambda>normalized.
       let normalized_changed = sorted_list_of_set (set normalized);
           (allowed, viol) = check_paths task normalized_changed
       in Inr \<lparr>changed_files = normalized_changed, allowed_files = allowed, violations = viol\<rparr>)"

lemmas [exec_defs] = normalize_scope_pattern_def normalize_non_empty_text_def
  task_id_pattern_def ascii_alnum_def validate_scope_patterns_def validate_non_empty_items_def
  validate_scope_boundaries_def TaskContract_def not_newline_def not_slash_def match_slash_def
  matches_def scope_passed_def normalize_changed_path_def ScopeEnforcer_check_def
  is_space_def strip_def


section \<open>What a glob denotes\<close>

primrec rx_lang :: "rx \<Rightarrow> string set" where
  "rx_lang OptDirs = insert [] {u @ ''/'' | u. list_all not_newline u}"
| "rx_lang AnyPath = {u. list_all not_newline u}"
| "rx_lang SegChars = {u. list_all not_slash u}"
| "rx_lang SegChar = {[c] | c. not_slash c}"
| "rx_lang (Lit c) = {[c]}"

primrec glob_lang :: "rx list \<Rightarrow> string set" where
  "glob_lang [] = {[]}"
| "glob_lang (r # rs) = {u @ v | u v. u \<in> rx_lang r \<and> v \<in> glob_lang rs}"

lemma glob_lang_ConsI: "u \<in> rx_lang r \<Longrightarrow> v \<in> glob_lang rs \<Longrightarrow> u @ v \<in> glob_lang (r # rs)"
  by auto

lemma match_star_iff:
  "match_star P k s \<longleftrightarrow> (\<exists>u v. s = u @ v \<and> list_all P u \<and> k v)"
proof (induction s)
  case Nil
  then show ?case by simp
next
  case (Cons x xs)
  show ?case
  proof
    assume "match_star P k (x # xs)"
    then consider "k (x # xs)" | "P x" "match_star P k xs" by auto
    then show "\<exists>u v. x # xs = u @ v \<and> list_all P u \<and> k v"
    proof cases
      case 1
      then have "x # xs = [] @ (x # xs) \<and> list_all P [] \<and> k (x # xs)" by simp
      then show ?thesis by blast
    next
      case 2
      with Cons.IH obtain u v where "xs = u @ v" "list_all P u" "k v" by auto
      with \<open>P x\<close> have "x # xs = (x # u) @ v \<and> list_all P (x # u) \<and> k v" by simp
      then show ?thesis by blast
    qed
  qed (use Cons.IH in \<open>auto simp: Cons_eq_append_conv\<close>)
qed

lemma match_slash_iff: "match_slash k s \<longleftrightarrow> (\<exists>v. s = CHR ''/'' # v \<and> k v)"
  by (cases s) (auto simp: match_slash_def)

lemma fullmatch_iff_lang: "fullmatch rs s \<longleftrightarrow> s \<in> glob_lang rs"
proof (induction rs arbitrary: s)
  case Nil
  then show ?case by simp
next
  case (Cons r rs)
  show ?case
  proof (cases r)
    case OptDirs
    have "fullmatch (r # rs) s \<longleftrightarrow>
        (\<exists>u v. s = u @ CHR ''/'' # v \<and> list_all not_newline u \<and> v \<in> glob_lang rs)
        \<or> s \<in> glob_lang rs"
      using OptDirs Cons.IH by (auto simp: match_star_iff match_slash_iff)
    also have "\<dots> \<longleftrightarrow> s \<in> glob_lang (r # rs)"
    proof
      assume "(\<exists>u v. s = u @ CHR ''/'' # v \<and> list_all not_newline u \<and> v \<in> glob_lang rs)
        \<or> s \<in> glob_lang rs"
      then show "s \<in> glob_lang (r # rs)"
      proof (elim disjE exE conjE)
        fix u v assume *: "s = u @ CHR ''/'' # v" "list_all not_newline u" "v \<in> glob_lang rs"
        then have "u @ ''/'' \<in> rx_lang r" using OptDirs by auto
        from glob_lang_ConsI [OF this *(3)] *(1) show ?thesis by simp
      next
        assume "s \<in> glob_lang rs"
        with glob_lang_ConsI [of "[]" r s rs] OptDirs show ?thesis by simp
      qed
    qed (use OptDirs in \<open>auto; blast\<close>)
    finally show ?thesis .
  next
    case AnyPath
    with Cons.IH show ?thesis by (auto simp: match_star_iff)
  next
    case SegChars
    with Cons.IH show ?thesis by (auto simp: match_star_iff)
  next
    case SegChar
    have "s \<in> glob_lang (r # rs) \<longleftrightarrow> (\<exists>c v. s = [c] @ v \<and> not_slash c \<and> v \<in> glob_lang rs)"
      unfolding SegChar glob_lang.simps rx_lang.simps by blast
    with SegChar Cons.IH show ?thesis by (cases s) auto
  next
    case (Lit x5)
    with Cons.IH show ?thesis by (auto split: list.splits)
  qed
qed

lemma matches_iff_lang: "matches path pattern \<longleftrightarrow> path \<in> glob_lang (glob_regex pattern)"
  by (simp add: matches_def fullmatch_iff_lang)

text \<open>Tokens that stay inside one path segment.\<close>

definition segment_token :: "rx \<Rightarrow> bool" where
  "segment_token r = (r \<noteq> OptDirs \<and> r \<noteq> AnyPath)"

lemma glob_regex_literal:
  "CHR ''*'' \<notin> set p \<Longrightarrow> CHR ''?'' \<notin> set p \<Longrightarrow> glob_regex p = map Lit p"
  by (induction p) auto

lemma glob_lang_literal: "glob_lang (map Lit p) = {p}"
  by (induction p) auto

section \<open>What the gate decides\<close>

lemma first_match_None: "first_match path ps = None \<longleftrightarrow> (\<forall>p \<in> set ps. \<not> matches path p)"
  by (induction ps) auto

lemma first_match_Some: "first_match path ps = Some p \<Longrightarrow> p \<in> set ps \<and> matches path p"
  by (induction ps) (auto split: if_splits)

definition in_write_scope :: "task_contract \<Rightarrow> string \<Rightarrow> bool" where
  "in_write_scope task path \<longleftrightarrow>
     (\<exists>p \<in> set (writable_files task). matches path p) \<and>
     (\<forall>p \<in> set (readonly_files task). \<not> matches path p)"

lemma check_paths_allowed:
  "fst (check_paths task paths) = filter (in_write_scope task) paths"
proof (induction paths)
  case (Cons path paths)
  then show ?case
    by (auto simp: in_write_scope_def first_match_None dest: first_match_Some
        split: option.splits)
qed simp

lemma check_paths_violations:
  "map sv_path (snd (check_paths task paths)) = filter (\<lambda>p. \<not> in_write_scope task p) paths"
proof (induction paths)
  case (Cons path paths)
  then show ?case
    by (auto simp: in_write_scope_def first_match_None dest: first_match_Some
        split: option.splits)
qed simp

lemma check_paths_kinds:
  "v \<in> set (snd (check_paths task paths)) \<Longrightarrow>
   (sv_kind v = READ_ONLY \<longleftrightarrow> (\<exists>p \<in> set (readonly_files task). matches (sv_path v) p))"
proof (induction paths)
  case (Cons path paths)
  show ?case
  proof (cases "v \<in> set (snd (check_paths task paths))")
    case True
    then show ?thesis by (rule Cons.IH)
  next
    case False
    with Cons.prems show ?thesis
      by (auto simp: first_match_None split: option.splits dest!: first_match_Some
          intro: bexI)
  qed
qed simp

lemma normalize_changed_path_strip: "normalize_changed_path f = Inr p \<Longrightarrow> p = strip f"
  by (auto simp: normalize_changed_path_def Let_def split: if_splits)

lemma map_normalize_changed_path:
  assumes "map_res normalize_changed_path fs = Inr ps"
  shows "ps = map strip fs"
proof -
  from assms have "list_all2 (\<lambda>f p. p = strip f) fs ps"
    unfolding map_res_Inr_iff by (rule list_all2_mono) (rule normalize_changed_path_strip)
  then show ?thesis by (induction rule: list_all2_induct) auto
qed

lemma scope_check_cases:
  assumes "ScopeEnforcer_check task files = Inr r"
  shows "changed_files r = sorted_list_of_set (strip ` set files)"
    and "allowed_files r = filter (in_write_scope task) (changed_files r)"
    and "map sv_path (violations r) = filter (\<lambda>p. \<not> in_write_scope task p) (changed_files r)"
    and "v \<in> set (violations r) \<Longrightarrow>
      (sv_kind v = READ_ONLY \<longleftrightarrow> (\<exists>p \<in> set (readonly_files task). matches (sv_path v) p))"
proof -
  from assms obtain ps where ps: "map_res normalize_changed_path files = Inr ps"
    and r: "changed_files r = sorted_list_of_set (set ps)"
      "allowed_files r = fst (check_paths task (sorted_list_of_set (set ps)))"
      "violations r = snd (check_paths task (sorted_list_of_set (set ps)))"
    by (auto simp: ScopeEnforcer_check_def bind_res_eq_Inr Let_def case_prod_beta)
  from ps have "set ps = strip ` set files" by (auto dest: map_normalize_changed_path)
  with r show "changed_files r = sorted_list_of_set (strip ` set files)"
    "allowed_files r = filter (in_write_scope task) (changed_files r)"
    "map sv_path (violations r) = filter (\<lambda>p. \<not> in_write_scope task p) (changed_files r)"
    "v \<in> set (violations r) \<Longrightarrow>
      (sv_kind v = READ_ONLY \<longleftrightarrow> (\<exists>p \<in> set (readonly_files task). matches (sv_path v) p))"
    by (simp_all add: check_paths_allowed check_paths_violations check_paths_kinds)
qed

section \<open>Validated contracts\<close>

lemma normalize_scope_pattern_idem:
  "normalize_scope_pattern v = Inr p \<Longrightarrow> normalize_scope_pattern p = Inr p"
  by (auto simp: normalize_scope_pattern_def Let_def split: if_splits)

lemma normalize_non_empty_text_idem:
  "normalize_non_empty_text v = Inr p \<Longrightarrow> normalize_non_empty_text p = Inr p"
  by (auto simp: normalize_non_empty_text_def Let_def split: if_splits)

lemma normalize_scope_pattern_relative:
  assumes "normalize_scope_pattern v = Inr p"
  shows "p \<noteq> [] \<and> hd p \<noteq> CHR ''/'' \<and> ''..'' \<notin> set (split_on (CHR ''/'') p)"
  using assms by (auto simp: normalize_scope_pattern_def Let_def split: if_splits)

lemma map_res_idem:
  assumes "map_res f xs = Inr ys" and "\<And>x y. f x = Inr y \<Longrightarrow> f y = Inr y"
  shows "map_res f ys = Inr ys"
  using assms unfolding map_res_Inr_iff
  by (induction rule: list_all2_induct) auto

lemma validate_scope_patterns_idem:
  "validate_scope_patterns vs = Inr ps \<Longrightarrow> validate_scope_patterns ps = Inr ps"
  using map_res_idem [of normalize_scope_pattern vs ps] normalize_scope_pattern_idem
  by (auto simp: validate_scope_patterns_def bind_res_eq_Inr split: if_splits)

lemma validate_non_empty_items_idem:
  "validate_non_empty_items vs = Inr ps \<Longrightarrow> validate_non_empty_items ps = Inr ps"
  using map_res_idem [of normalize_non_empty_text vs ps] normalize_non_empty_text_idem
  by (auto simp: validate_non_empty_items_def bind_res_eq_Inr split: if_splits)

lemma validate_length:
  "validate_scope_patterns vs = Inr ps \<Longrightarrow> length ps = length vs"
  "validate_non_empty_items vs = Inr qs \<Longrightarrow> length qs = length vs"
  by (auto simp: validate_scope_patterns_def validate_non_empty_items_def bind_res_eq_Inr
      dest: map_res_length split: if_splits)

lemma validate_scope_patterns_each:
  "validate_scope_patterns vs = Inr ps \<Longrightarrow> p \<in> set ps \<Longrightarrow> normalize_scope_pattern p = Inr p"
  by (auto simp: validate_scope_patterns_def bind_res_eq_Inr map_res_Inr_iff in_set_conv_nth
      list_all2_conv_all_nth split: if_splits dest!: normalize_scope_pattern_idem)

lemma normalize_non_empty_text_length:
  "normalize_non_empty_text v = Inr p \<Longrightarrow> 1 \<le> length p \<and> length p \<le> length v"
  using length_strip [of v]
  by (auto simp: normalize_non_empty_text_def Let_def Suc_le_eq split: if_splits)

lemma TaskContract_cases:
  assumes "TaskContract raw = Inr t"
  shows "1 \<le> length (tc_task_id t)" "length (tc_task_id t) \<le> 128"
    and "task_id_pattern (tc_task_id t)" "tc_task_id t = tc_task_id raw"
    and "1 \<le> length (objective t)" "length (objective t) \<le> 4000"
    and "normalize_non_empty_text (objective t) = Inr (objective t)"
    and "validate_scope_patterns (readable_files t) = Inr (readable_files t)"
    and "validate_scope_patterns (writable_files t) = Inr (writable_files t)"
    and "validate_scope_patterns (readonly_files t) = Inr (readonly_files t)"
    and "validate_non_empty_items (acceptance_criteria t) = Inr (acceptance_criteria t)"
    and "validate_non_empty_items (verification_commands t) = Inr (verification_commands t)"
    and "writable_files t \<noteq> []" "acceptance_criteria t \<noteq> []" "verification_commands t \<noteq> []"
    and "0 \<le> max_retries t" "max_retries t \<le> 5"
    and "set (writable_files t) \<inter> set (readonly_files t) = {}"
proof -
  from assms obtain obj rd wr ro ac vc where
    parts: "normalize_non_empty_text (objective raw) = Inr obj"
      "validate_scope_patterns (readable_files raw) = Inr rd"
      "validate_scope_patterns (writable_files raw) = Inr wr"
      "validate_scope_patterns (readonly_files raw) = Inr ro"
      "validate_non_empty_items (acceptance_criteria raw) = Inr ac"
      "validate_non_empty_items (verification_commands raw) = Inr vc"
    and guards: "1 \<le> length (tc_task_id raw)" "length (tc_task_id raw) \<le> 128"
      "task_id_pattern (tc_task_id raw)" "length (objective raw) \<le> 4000"
      "writable_files raw \<noteq> []" "acceptance_criteria raw \<noteq> []"
      "verification_commands raw \<noteq> []" "0 \<le> max_retries raw" "max_retries raw \<le> 5"
      "set wr \<inter> set ro = {}"
    and t: "t = \<lparr>tc_task_id = tc_task_id raw, objective = obj, readable_files = rd,
       writable_files = wr, readonly_files = ro, acceptance_criteria = ac,
       verification_commands = vc, max_retries = max_retries raw\<rparr>"
    by (auto simp: TaskContract_def validate_scope_boundaries_def bind_res_eq_Inr
        split: if_splits)
  note idem = parts(1) [THEN normalize_non_empty_text_idem]
    parts(2-4) [THEN validate_scope_patterns_idem]
    parts(5,6) [THEN validate_non_empty_items_idem]
  have len: "length wr = length (writable_files raw)"
    "length ac = length (acceptance_criteria raw)"
    "length vc = length (verification_commands raw)"
    using parts by (auto dest: validate_length)
  have obj: "1 \<le> length obj" "length obj \<le> 4000"
    using normalize_non_empty_text_length [OF parts(1)] guards by auto
  show "1 \<le> length (tc_task_id t)" "length (tc_task_id t) \<le> 128"
    "task_id_pattern (tc_task_id t)" "tc_task_id t = tc_task_id raw"
    "1 \<le> length (objective t)" "length (objective t) \<le> 4000"
    "normalize_non_empty_text (objective t) = Inr (objective t)"
    "validate_scope_patterns (readable_files t) = Inr (readable_files t)"
    "validate_scope_patterns (writable_files t) = Inr (writable_files t)"
    "validate_scope_patterns (readonly_files t) = Inr (readonly_files t)"
    "validate_non_empty_items (acceptance_criteria t) = Inr (acceptance_criteria t)"
    "validate_non_empty_items (verification_commands t) = Inr (verification_commands t)"
    "0 \<le> max_retries t" "max_retries t \<le> 5"
    "set (writable_files t) \<inter> set (readonly_files t) = {}"
    using guards obj idem by (simp_all add: t)
  show "writable_files t \<noteq> []" "acceptance_criteria t \<noteq> []" "verification_commands t \<noteq> []"
    using guards len by (auto simp: t)
qed

lemma TaskContract_idem: "TaskContract raw = Inr t \<Longrightarrow> TaskContract t = Inr t"
  using TaskContract_cases [of raw t] by (simp add: TaskContract_def validate_scope_boundaries_def)

section \<open>Segment-wise matching\<close>

definition in_segment :: "rx \<Rightarrow> bool" where
  "in_segment r = (segment_token r \<and> r \<noteq> Lit (CHR ''/''))"

lemma in_segment_lang:
  assumes "list_all in_segment rs" and "s \<in> glob_lang rs"
  shows "CHR ''/'' \<notin> set s"
  using assms
proof (induction rs arbitrary: s)
  case (Cons r rs)
  then obtain u v where "s = u @ v" "u \<in> rx_lang r" "v \<in> glob_lang rs" by auto
  with Cons show ?case
    by (cases r) (auto simp: in_segment_def segment_token_def not_slash_def list_all_iff)
qed simp

lemma glob_lang_append: "glob_lang (rs @ qs) = {u @ v | u v. u \<in> glob_lang rs \<and> v \<in> glob_lang qs}"
proof (induction rs)
  case (Cons r rs)
  show ?case
  proof (intro set_eqI iffI)
    fix x assume "x \<in> glob_lang ((r # rs) @ qs)"
    then obtain u w v where "x = (u @ w) @ v" "u \<in> rx_lang r" "w \<in> glob_lang rs" "v \<in> glob_lang qs"
      using Cons.IH by auto
    then show "x \<in> {u @ v | u v. u \<in> glob_lang (r # rs) \<and> v \<in> glob_lang qs}"
      using glob_lang_ConsI by blast
  next
    fix x assume "x \<in> {u @ v | u v. u \<in> glob_lang (r # rs) \<and> v \<in> glob_lang qs}"
    then obtain u w v where x: "x = u @ (w @ v)" "u \<in> rx_lang r" and "w \<in> glob_lang rs" "v \<in> glob_lang qs"
      by auto
    then have "w @ v \<in> glob_lang (rs @ qs)" using Cons.IH by blast
    with x show "x \<in> glob_lang ((r # rs) @ qs)" using glob_lang_ConsI by simp
  qed
qed simp

lemma no_doublestar_append:
  assumes "\<not> sublist ''**'' (p @ q)"
  shows "\<not> sublist ''**'' p" and "\<not> sublist ''**'' q"
  using assms by (auto simp: sublist_append)

lemma no_doublestar_Cons:
  assumes "\<not> sublist ''**'' (c # d # p)"
  shows "\<not> (c = CHR ''*'' \<and> d = CHR ''*'')" and "\<not> sublist ''**'' (d # p)"
  using assms by (auto simp: sublist_Cons_right)

lemma glob_regex_single:
  assumes "\<not> sublist ''**'' (c # p)"
  shows "glob_regex (c # p) =
    (if c = CHR ''*'' then SegChars else if c = CHR ''?'' then SegChar else Lit c) # glob_regex p"
  using assms by (cases p) (auto dest: no_doublestar_Cons)

lemma glob_regex_append:
  "\<not> sublist ''**'' (p @ q) \<Longrightarrow> glob_regex (p @ q) = glob_regex p @ glob_regex q"
proof (induction p)
  case (Cons c p)
  have "\<not> sublist ''**'' (p @ q)" using Cons.prems by (simp add: sublist_Cons_right)
  moreover have "\<not> sublist ''**'' (c # p)"
    using no_doublestar_append(1) [of "c # p" q] Cons.prems by simp
  ultimately show ?case using Cons glob_regex_single [of c p] glob_regex_single [of c "p @ q"]
    by simp
qed simp

lemma glob_regex_in_segment:
  "\<not> sublist ''**'' p \<Longrightarrow> CHR ''/'' \<notin> set p \<Longrightarrow> list_all in_segment (glob_regex p)"
proof (induction p)
  case (Cons c p)
  have "\<not> sublist ''**'' p" using Cons.prems by (simp add: sublist_Cons_right)
  with Cons show ?case unfolding glob_regex_single [OF Cons.prems(1)]
    by (auto simp: in_segment_def segment_token_def)
qed simp

lemma matches_no_slash:
  assumes "\<not> sublist ''**'' p" and "CHR ''/'' \<notin> set p" and "matches s p"
  shows "CHR ''/'' \<notin> set s"
  using in_segment_lang [OF glob_regex_in_segment] assms by (simp add: matches_iff_lang)

lemma matches_split_first:
  assumes nd: "\<not> sublist ''**'' (p @ CHR ''/'' # q)" and p: "CHR ''/'' \<notin> set p"
  shows "matches s (p @ CHR ''/'' # q) \<longleftrightarrow>
    (\<exists>u v. s = u @ CHR ''/'' # v \<and> matches u p \<and> matches v q)"
proof -
  have "\<not> sublist ''**'' (CHR ''/'' # q)" by (rule no_doublestar_append(2) [OF nd])
  then have "glob_regex (p @ CHR ''/'' # q) = glob_regex p @ Lit (CHR ''/'') # glob_regex q"
    using glob_regex_append [OF nd] by simp
  then show ?thesis by (auto simp: matches_iff_lang glob_lang_append)
qed

lemma split_first: "(\<exists>u v. s = u @ c # v \<and> c \<notin> set u) \<or> c \<notin> set s"
  using split_list_first [of c s] by blast

lemma split_first_unique:
  "a @ c # b = a' @ c # b' \<Longrightarrow> c \<notin> set a \<Longrightarrow> c \<notin> set a' \<Longrightarrow> a = a' \<and> b = b'"
proof (induction a arbitrary: a')
  case Nil
  then show ?case by (cases a') auto
next
  case (Cons x a)
  then show ?case by (cases a') auto
qed

lemma split_on_first: "c \<notin> set u \<Longrightarrow> split_on c (u @ c # v) = u # split_on c v"
  by (simp add: split_on_append_sep split_on_no_sep)

lemma matches_segments:
  "\<not> sublist ''**'' p \<Longrightarrow>
   matches s p \<longleftrightarrow> list_all2 matches (split_on (CHR ''/'') s) (split_on (CHR ''/'') p)"
proof (induction "length p" arbitrary: p s rule: less_induct)
  case less
  consider u v where "p = u @ CHR ''/'' # v" "CHR ''/'' \<notin> set u" | "CHR ''/'' \<notin> set p"
    using split_first [of p "CHR ''/''"] by blast
  then show ?case
  proof cases
    case (1 u v)
    have "\<not> sublist ''**'' (CHR ''/'' # v)"
      using no_doublestar_append(2) less.prems 1(1) by blast
    then have v: "\<not> sublist ''**'' v" by (simp add: sublist_Cons_right)
    have u: "\<not> sublist ''**'' u" using no_doublestar_append(1) less.prems 1(1) by blast
    have IH: "matches t v \<longleftrightarrow> list_all2 matches (split_on (CHR ''/'') t) (split_on (CHR ''/'') v)"
      for t using less.hyps v 1 by simp
    have "matches s p \<longleftrightarrow> (\<exists>a b. s = a @ CHR ''/'' # b \<and> CHR ''/'' \<notin> set a \<and> matches a u \<and> matches b v)"
      unfolding 1(1) matches_split_first [OF less.prems [unfolded 1(1)] 1(2)]
      by (intro iff_exI) (auto dest: matches_no_slash [OF u 1(2)])
    also have "\<dots> \<longleftrightarrow> list_all2 matches (split_on (CHR ''/'') s) (split_on (CHR ''/'') p)"
    proof (cases "CHR ''/'' \<in> set s")
      case True
      then obtain a b where s: "s = a @ CHR ''/'' # b" "CHR ''/'' \<notin> set a"
        using split_list_first [of "CHR ''/''" s] by blast
      have "a' = a \<and> b' = b" if "s = a' @ CHR ''/'' # b'" "CHR ''/'' \<notin> set a'" for a' b'
        by (rule split_first_unique [OF _ that(2) s(2)]) (simp only: that(1) [symmetric] s(1) [symmetric])
      then have "(\<exists>a b. s = a @ CHR ''/'' # b \<and> CHR ''/'' \<notin> set a \<and> matches a u \<and> matches b v)
          \<longleftrightarrow> matches a u \<and> matches b v"
        using s by blast
      then show ?thesis using s 1 by (simp add: split_on_first IH)
    next
      case False
      then show ?thesis using 1 by (auto simp: split_on_first split_on_no_sep list_all2_Cons2)
    qed
    finally show ?thesis .
  next
    case 2
    then show ?thesis
      using split_first [of s "CHR ''/''"] matches_no_slash [OF less.prems 2]
      by (fastforce simp: split_on_first split_on_no_sep)
  qed
qed

section \<open>Properties\<close>

text \<open>C33. The scope gate decides exactly the contract's write scope. Whenever it returns a
  result, the changed files are the stripped input paths in lexicographic order without
  duplicates; the allowed ones are those that match a writable glob and no read-only
  glob, all the others are reported as violations in the same order, a violation is
  \<open>READ_ONLY\<close> exactly when a read-only glob matches, and the gate passes exactly when
  every input path is in the write scope.\<close>

theorem scope_gate_correct:
  assumes "ScopeEnforcer_check task files = Inr r"
  shows "changed_files r = sorted_list_of_set (strip ` set files) \<and>
    allowed_files r = filter (in_write_scope task) (changed_files r) \<and>
    map sv_path (violations r) = filter (\<lambda>p. \<not> in_write_scope task p) (changed_files r) \<and>
    (\<forall>v \<in> set (violations r).
      sv_kind v = READ_ONLY \<longleftrightarrow> (\<exists>p \<in> set (readonly_files task). matches (sv_path v) p)) \<and>
    (scope_passed r \<longleftrightarrow> (\<forall>f \<in> set files. in_write_scope task (strip f)))"
proof -
  note cases = scope_check_cases [OF assms]
  have "violations r = [] \<longleftrightarrow> filter (\<lambda>p. \<not> in_write_scope task p) (changed_files r) = []"
    using cases(3) by (metis map_is_Nil_conv)
  then have "scope_passed r \<longleftrightarrow> (\<forall>f \<in> set files. in_write_scope task (strip f))"
    by (simp add: scope_passed_def cases(1) filter_empty_conv)
  with cases show ?thesis by blast
qed

definition demo_contract :: task_contract where
  "demo_contract = \<lparr>tc_task_id = ''T1'', objective = ''fix'', readable_files = [],
     writable_files = [''src/**'', ''a?.py''], readonly_files = [''src/x''],
     acceptance_criteria = [''ok''], verification_commands = [''t''], max_retries = 2\<rparr>"

text \<open>The gate on a contract with one read-only and one foreign change.\<close>

theorem scope_gate_correct_witness:
  "ScopeEnforcer_check demo_contract [''src/x'', '' src/y/z'', ''b''] =
     Inr \<lparr>changed_files = [''b'', ''src/x'', ''src/y/z''], allowed_files = [''src/y/z''],
       violations = [\<lparr>sv_path = ''b'', sv_kind = OUT_OF_SCOPE, matched_pattern = None\<rparr>,
         \<lparr>sv_path = ''src/x'', sv_kind = READ_ONLY, matched_pattern = Some ''src/x''\<rparr>]\<rparr>
   \<and> \<not> (\<forall>f \<in> set [''src/x'', '' src/y/z'', ''b'']. in_write_scope demo_contract (strip f))"
proof -
  have check: "ScopeEnforcer_check demo_contract [''src/x'', '' src/y/z'', ''b''] =
     Inr \<lparr>changed_files = [''b'', ''src/x'', ''src/y/z''], allowed_files = [''src/y/z''],
       violations = [\<lparr>sv_path = ''b'', sv_kind = OUT_OF_SCOPE, matched_pattern = None\<rparr>,
         \<lparr>sv_path = ''src/x'', sv_kind = READ_ONLY, matched_pattern = Some ''src/x''\<rparr>]\<rparr>"
    by code_simp
  from scope_gate_correct [OF check]
  have "\<not> (\<forall>f \<in> set [''src/x'', '' src/y/z'', ''b'']. in_write_scope demo_contract (strip f))"
    unfolding scope_passed_def scope_check_result.simps by blast
  with check show ?thesis by (rule conjI)
qed

text \<open>C38. A glob without \<open>**\<close> never crosses a directory: it matches a path exactly when the
  two have the same number of \<open>/\<close>-separated segments and each path segment is matched by
  the pattern segment at its position. A pattern with no wildcard matches only itself.\<close>

theorem glob_matches_by_segment:
  assumes "\<not> sublist ''**'' pattern"
  shows "(matches path pattern \<longleftrightarrow>
      list_all2 matches (split_on (CHR ''/'') path) (split_on (CHR ''/'') pattern)) \<and>
    (CHR ''*'' \<notin> set pattern \<and> CHR ''?'' \<notin> set pattern \<longrightarrow>
      (matches path pattern \<longleftrightarrow> path = pattern))"
  using matches_segments [OF assms]
  by (simp add: matches_iff_lang glob_regex_literal glob_lang_literal)

theorem glob_matches_by_segment_witness:
  "matches ''src/ab.py'' ''src/*.py''
   \<and> list_all2 matches [''src'', ''ab.py''] [''src'', ''*.py'']
   \<and> \<not> matches ''src/a/b.py'' ''src/*.py''"
proof -
  have nd: "\<not> sublist ''**'' ''src/*.py''" by code_simp
  have m: "matches ''src/ab.py'' ''src/*.py''" "\<not> matches ''src/a/b.py'' ''src/*.py''" by code_simp+
  with glob_matches_by_segment [OF nd, of "''src/ab.py''"] show ?thesis by simp
qed

text \<open>A contract that passes validation is a fixed point of it, so a stored contract
  reloads unchanged; its globs are relative, do not climb out of the repository, are
  pairwise distinct, and no glob is both writable and read-only.\<close>

theorem validated_contract:
  assumes "TaskContract raw = Inr t"
  shows "TaskContract t = Inr t \<and>
    (\<forall>p \<in> set (readable_files t) \<union> set (writable_files t) \<union> set (readonly_files t).
      p \<noteq> [] \<and> hd p \<noteq> CHR ''/'' \<and> ''..'' \<notin> set (split_on (CHR ''/'') p)) \<and>
    set (writable_files t) \<inter> set (readonly_files t) = {} \<and>
    writable_files t \<noteq> [] \<and> 0 \<le> max_retries t \<and> max_retries t \<le> 5"
proof -
  note c = TaskContract_cases [OF assms]
  have "p \<noteq> [] \<and> hd p \<noteq> CHR ''/'' \<and> ''..'' \<notin> set (split_on (CHR ''/'') p)"
    if "p \<in> set (readable_files t) \<union> set (writable_files t) \<union> set (readonly_files t)" for p
    using that c(8-10) [THEN validate_scope_patterns_each, THEN normalize_scope_pattern_relative]
    by blast
  then show ?thesis using c TaskContract_idem [OF assms] by blast
qed

theorem validated_contract_witness:
  "\<exists>t. TaskContract (demo_contract\<lparr>objective := '' fix ''\<rparr>) = Inr t \<and> TaskContract t = Inr t
     \<and> objective t = ''fix''"
proof -
  have v: "TaskContract (demo_contract\<lparr>objective := '' fix ''\<rparr>) = Inr demo_contract" by code_simp
  from validated_contract [OF this] v show ?thesis by (simp add: demo_contract_def)
qed

end
