(* ===== verification/Task_Dag.thy ===== *)
theory Task_Dag
  imports Task_Contract
begin

text \<open>
  The task graph (\<open>models/dag.py\<close>): nodes, their validators, and the deterministic graph
  queries every scheduler, planner and merge queue of the program relies on.

  Dictionaries keep Python's insertion order as association lists. The binary heap of the
  topological sort is represented by the sorted list of its elements: \<open>heapify\<close> sorts,
  \<open>heappush\<close> inserts, \<open>heappop\<close> takes the head, which is what a heap of distinct strings
  returns. Sets that the source sorts before iterating are their sorted lists.

  The lemmas show that Kahn's loop returns exactly when the graph is acyclic, that its
  result is the greedy smallest-first order, and that the breadth-first search returns
  the transitive dependents. The locale \<open>dag_order\<close> is the contract its clients use.
\<close>

section \<open>Node metadata\<close>

datatype planning_complexity = LOW | MEDIUM | HIGH

datatype workflow_execution_mode = WORKFLOW | AGENT | HYBRID

record task_budget_allocation =
  tba_package_id :: task_id
  recommended_token_budget :: int

record planning_complexity_assessment =
  pca_package_id :: task_id
  pca_complexity :: planning_complexity
  score :: int
  reasons :: "string list"

datatype checkpoint_resume_strategy = CONTINUE_DEVELOPMENT | VERIFY_THEN_REPAIR

record task_resume_context =
  source_run_id :: uuid
  checkpoint_commit_sha :: string
  strategy :: checkpoint_resume_strategy
  context_state :: "continuation_state option"
  verification_summary :: string
  failure_summary :: string
  remaining_summary :: string

definition package_id_ok :: "task_id \<Rightarrow> bool" where
  "package_id_ok s = (length s \<le> 128 \<and> task_id_pattern s)"

definition TaskBudgetAllocation :: "task_budget_allocation \<Rightarrow> task_budget_allocation res" where
  "TaskBudgetAllocation a =
     (if \<not> package_id_ok (tba_package_id a) then Inl (ValueError ''package_id'')
      else if \<not> (1000 \<le> recommended_token_budget a \<and> recommended_token_budget a \<le> 20000)
        then Inl (ValueError ''recommended_token_budget'')
      else Inr a)"

definition PlanningComplexityAssessment ::
  "planning_complexity_assessment \<Rightarrow> planning_complexity_assessment res" where
  "PlanningComplexityAssessment a =
     (if \<not> package_id_ok (pca_package_id a) then Inl (ValueError ''package_id'')
      else if \<not> (0 \<le> score a \<and> score a \<le> 100) then Inl (ValueError ''score'')
      else if \<not> (1 \<le> length (reasons a) \<and> length (reasons a) \<le> 8)
        then Inl (ValueError ''reasons'')
      else Inr a)"

section \<open>Nodes\<close>

record task_node =
  task :: task_contract
  depends_on :: "task_id list"
  execution_mode :: workflow_execution_mode
  produces :: "string list"
  consumes :: "string list"
  complexity :: "planning_complexity option"
  budget_allocation :: "task_budget_allocation option"
  complexity_assessment :: "planning_complexity_assessment option"
  resume_context :: "task_resume_context option"

abbreviation node_id :: "task_node \<Rightarrow> task_id" where
  "node_id n \<equiv> tc_task_id (task n)"

definition validate_dependency :: "string \<Rightarrow> string res" where
  "validate_dependency value =
     (let dependency = strip value in
      if dependency = [] then Inl (ValueError ''dependency task ids must not be empty'')
      else if length dependency > 128 \<or> \<not> task_id_pattern dependency
        then Inl (ValueError ''dependency task ids must use the TaskContract task_id format'')
      else Inr dependency)"

definition validate_dependencies :: "string list \<Rightarrow> string list res" where
  "validate_dependencies values =
     bind_res (map_res validate_dependency values) (\<lambda>normalized.
       if \<not> distinct normalized
       then Inl (ValueError ''depends_on must not contain duplicate task ids'')
       else Inr normalized)"

definition reject_self_dependency :: "task_node \<Rightarrow> task_node res" where
  "reject_self_dependency n =
     (if node_id n \<in> set (depends_on n)
      then Inl (ValueError ''task must not depend on itself'') else Inr n)"

definition validate_work_package_metadata :: "task_node \<Rightarrow> task_node res" where
  "validate_work_package_metadata n =
     (if \<not> distinct (produces n)
      then Inl (ValueError ''produced interfaces must not contain duplicates'')
      else if \<not> distinct (consumes n)
      then Inl (ValueError ''consumed interfaces must not contain duplicates'')
      else if (case budget_allocation n of None \<Rightarrow> False
               | Some a \<Rightarrow> tba_package_id a \<noteq> node_id n)
      then Inl (ValueError ''task budget allocation must belong to this task'')
      else if (case complexity_assessment n of None \<Rightarrow> False
               | Some a \<Rightarrow> pca_package_id a \<noteq> node_id n)
      then Inl (ValueError ''task complexity assessment must belong to this task'')
      else if (case (complexity n, complexity_assessment n) of
                 (Some c, Some a) \<Rightarrow> c \<noteq> pca_complexity a | _ \<Rightarrow> False)
      then Inl (ValueError ''task complexity and assessment complexity must agree'')
      else Inr n)"

definition validate_optional :: "('a \<Rightarrow> 'a res) \<Rightarrow> 'a option \<Rightarrow> 'a option res" where
  "validate_optional f v =
     (case v of None \<Rightarrow> Inr None | Some x \<Rightarrow> bind_res (f x) (\<lambda>y. Inr (Some y)))"

definition TaskNode :: "task_node \<Rightarrow> task_node res" where
  "TaskNode raw =
     bind_res (TaskContract (task raw)) (\<lambda>t.
     bind_res (validate_dependencies (depends_on raw)) (\<lambda>deps.
     if length (produces raw) > 16 then Inl (ValueError ''produces'')
     else if length (consumes raw) > 16 then Inl (ValueError ''consumes'')
     else
     bind_res (validate_optional TaskBudgetAllocation (budget_allocation raw)) (\<lambda>ba.
     bind_res (validate_optional PlanningComplexityAssessment (complexity_assessment raw)) (\<lambda>ca.
     bind_res (reject_self_dependency
       (raw\<lparr>task := t, depends_on := deps, budget_allocation := ba,
            complexity_assessment := ca\<rparr>))
       validate_work_package_metadata))))"

section \<open>The graph\<close>

record task_dag =
  tasks :: "task_node list"

definition task_ids :: "task_dag \<Rightarrow> task_id list" where
  "task_ids dag = map node_id (tasks dag)"

text \<open>\<open>{node.task.task_id: node for node in self.tasks}\<close>: the last node of a repeated id wins,
  its key keeps the first position.\<close>

definition nodes_by_id :: "task_dag \<Rightarrow> (task_id \<times> task_node) list" where
  "nodes_by_id dag =
     (let look = map_of (rev (map (\<lambda>n. (node_id n, n)) (tasks dag))) in
      map (\<lambda>t. (t, the (look t))) (rev (remdups (rev (task_ids dag)))))"

definition dag_node :: "task_dag \<Rightarrow> task_id \<Rightarrow> task_node res" where
  "dag_node dag t =
     (case map_of (nodes_by_id dag) t of
        None \<Rightarrow> Inl (KeyError ''unknown task id'') | Some n \<Rightarrow> Inr n)"

type_synonym dependents_map = "(task_id \<times> task_id list) list"

text \<open>\<open>_dependents\<close>, with each set as its sorted list. An edge from an unknown task is the
  \<open>KeyError\<close> of \<open>dependents[dependency]\<close>.\<close>

definition dag_dependents :: "task_dag \<Rightarrow> dependents_map res" where
  "dag_dependents dag =
     (if \<exists>n \<in> set (tasks dag). \<exists>d \<in> set (depends_on n). d \<notin> set (task_ids dag)
      then Inl (KeyError ''dependency'')
      else Inr (map (\<lambda>t. (t, sorted_list_of_set
          (set (map node_id (filter (\<lambda>n. t \<in> set (depends_on n)) (tasks dag))))))
        (rev (remdups (rev (task_ids dag))))))"

definition dget :: "dependents_map \<Rightarrow> task_id \<Rightarrow> task_id list" where
  "dget ds t = (case map_of ds t of None \<Rightarrow> [] | Some xs \<Rightarrow> xs)"

subsection \<open>Topological order\<close>

type_synonym indegrees = "(task_id \<times> int) list"

definition decrement :: "task_id \<Rightarrow> indegrees \<Rightarrow> indegrees" where
  "decrement t indegree = map (\<lambda>(k, v). if k = t then (k, v - 1) else (k, v)) indegree"

text \<open>The inner \<open>for dependent in sorted(dependents[task_id])\<close> loop.\<close>

fun release :: "task_id list \<Rightarrow> indegrees \<Rightarrow> task_id list \<Rightarrow> indegrees \<times> task_id list" where
  "release [] indegree ready = (indegree, ready)"
| "release (d # ds) indegree ready =
     (let indegree' = decrement d indegree in
      release ds indegree'
        (if map_of indegree' d = Some 0 then insort d ready else ready))"

definition pending_count :: "indegrees \<Rightarrow> nat" where
  "pending_count indegree = length (filter (\<lambda>(k, v). v > 0) indegree)"

lemma map_of_decrement:
  "map_of (decrement t ind) k = map_option (\<lambda>v. if k = t then v - 1 else v) (map_of ind k)"
  unfolding decrement_def by (induction ind) (auto split: if_splits)

lemma pending_count_decrement_le: "pending_count (decrement t ind) \<le> pending_count ind"
  unfolding pending_count_def decrement_def by (induction ind) (auto split: if_splits)

lemma pending_count_decrement_less:
  "map_of ind t = Some v \<Longrightarrow> v > 0 \<Longrightarrow> v - 1 \<le> 0 \<Longrightarrow>
   pending_count (decrement t ind) < pending_count ind"
proof (induction ind)
  case (Cons p ind)
  then show ?case
    using pending_count_decrement_le [of t ind]
    by (cases p) (auto simp: pending_count_def decrement_def split: if_splits)
qed simp

lemma release_measure:
  "release ds ind ready = (ind', ready') \<Longrightarrow>
   pending_count ind' + length ready' \<le> pending_count ind + length ready"
proof (induction ds ind ready rule: release.induct)
  case (2 d ds ind ready)
  let ?ind = "decrement d ind"
  show ?case
  proof (cases "map_of ?ind d = Some 0")
    case True
    then have "map_of ind d = Some 1" by (auto simp: map_of_decrement)
    then have "pending_count ?ind < pending_count ind"
      by (rule pending_count_decrement_less) auto
    moreover have "pending_count ind' + length ready' \<le> pending_count ?ind + length (insort d ready)"
      using 2 True by simp
    ultimately show ?thesis by simp
  next
    case False
    then have "pending_count ind' + length ready' \<le> pending_count ?ind + length ready"
      using 2 by simp
    with pending_count_decrement_le [of d ind] show ?thesis by linarith
  qed
qed simp

text \<open>The \<open>while ready\<close> loop. Each turn pops one id, and an id is pushed only when its positive
  in-degree reaches zero.\<close>

function kahn ::
  "dependents_map \<Rightarrow> task_id list \<Rightarrow> indegrees \<Rightarrow> task_id list \<Rightarrow> task_id list \<times> indegrees" where
  "kahn ds [] indegree ordered = (ordered, indegree)"
| "kahn ds (t # ready) indegree ordered =
     (let (indegree', ready') = release (dget ds t) indegree ready in
      kahn ds ready' indegree' (ordered @ [t]))"
  by pat_completeness auto
termination
proof (relation "measure (\<lambda>(ds, ready, indegree, ordered). pending_count indegree + length ready)")
  fix ds :: dependents_map and t ready ind ordered ind' ready' x
  assume "x = release (dget ds t) ind ready" and "(ind', ready') = x"
  then have "release (dget ds t) ind ready = (ind', ready')" by simp
  from release_measure [OF this]
  show "((ds, ready', ind', ordered @ [t]), (ds, t # ready, ind, ordered))
    \<in> measure (\<lambda>(ds, ready, indegree, ordered). pending_count indegree + length ready)"
    by simp
qed simp

definition topological_order :: "task_dag \<Rightarrow> task_id list res" where
  "topological_order dag =
     (let nodes = nodes_by_id dag;
          indegree = map (\<lambda>(t, n). (t, int (length (depends_on n)))) nodes in
      bind_res (dag_dependents dag) (\<lambda>ds.
        let ready = sort (map fst (filter (\<lambda>(t, degree). degree = 0) indegree));
            (ordered, remaining) = kahn ds ready indegree [] in
        if length ordered \<noteq> length nodes
        then Inl (ValueError ''task DAG contains a dependency cycle involving: '')
        else Inr ordered))"

definition validate_graph :: "task_dag \<Rightarrow> task_dag res" where
  "validate_graph dag =
     (if \<not> distinct (task_ids dag)
      then Inl (ValueError ''task DAG must not contain duplicate task ids'')
      else if \<exists>n \<in> set (tasks dag). \<exists>d \<in> set (depends_on n). d \<notin> set (task_ids dag)
      then Inl (ValueError ''task DAG references unknown dependencies: '')
      else bind_res (topological_order dag) (\<lambda>_. Inr dag))"

definition TaskDAG :: "task_node list \<Rightarrow> task_dag res" where
  "TaskDAG raw =
     (if raw = [] then Inl (ValueError ''tasks'')
      else bind_res (map_res TaskNode raw) (\<lambda>ns. validate_graph \<lparr>tasks = ns\<rparr>))"

subsection \<open>Blocked and ready tasks\<close>

definition validate_runtime_ids :: "task_dag \<Rightarrow> task_id set \<Rightarrow> unit res" where
  "validate_runtime_ids dag ids =
     (if ids \<subseteq> set (task_ids dag) then Inr () else Inl (ValueError ''unknown task ids: ''))"

fun visit :: "task_id list \<Rightarrow> task_id set \<Rightarrow> task_id set \<Rightarrow> task_id list
    \<Rightarrow> task_id set \<times> task_id list" where
  "visit [] failed blocked queue = (blocked, queue)"
| "visit (d # ds) failed blocked queue =
     (if d \<in> failed \<or> d \<in> blocked then visit ds failed blocked queue
      else visit ds failed (insert d blocked) (queue @ [d]))"

definition all_dependents :: "dependents_map \<Rightarrow> task_id set" where
  "all_dependents ds = (\<Union>(t, xs) \<in> set ds. set xs)"

lemma finite_all_dependents [simp]: "finite (all_dependents ds)"
  by (auto simp: all_dependents_def)

lemma dget_subset: "set (dget ds t) \<subseteq> all_dependents ds"
  by (cases "map_of ds t") (auto simp: dget_def all_dependents_def dest!: map_of_SomeD)

lemma visit_measure:
  "visit xs failed blocked queue = (blocked', queue') \<Longrightarrow> set xs \<subseteq> U \<Longrightarrow> finite U \<Longrightarrow>
   length queue' + card (U - blocked') = length queue + card (U - blocked)"
proof (induction xs failed blocked queue rule: visit.induct)
  case (2 d ds failed blocked queue)
  show ?case
  proof (cases "d \<in> failed \<or> d \<in> blocked")
    case True
    with 2 show ?thesis by simp
  next
    case False
    have "U - insert d blocked = (U - blocked) - {d}" by auto
    moreover have "d \<in> U - blocked" using 2 False by auto
    ultimately have "Suc (card (U - insert d blocked)) = card (U - blocked)"
      using \<open>finite U\<close> by (metis card_Suc_Diff1 finite_Diff)
    with 2 False show ?thesis by simp
  qed
qed simp

function bfs :: "dependents_map \<Rightarrow> task_id set \<Rightarrow> task_id list \<Rightarrow> task_id set \<Rightarrow> task_id set" where
  "bfs ds failed [] blocked = blocked"
| "bfs ds failed (t # queue) blocked =
     (let (blocked', queue') = visit (dget ds t) failed blocked queue in
      bfs ds failed queue' blocked')"
  by pat_completeness auto
termination
proof (relation "measure (\<lambda>(ds, failed, queue, blocked).
    length queue + card (all_dependents ds - blocked))")
  fix ds :: dependents_map and t queue failed blocked blocked' queue' x
  assume "x = visit (dget ds t) failed blocked queue" and "(blocked', queue') = x"
  then have "visit (dget ds t) failed blocked queue = (blocked', queue')" by simp
  from visit_measure [OF this dget_subset]
  show "((ds, failed, queue', blocked'), (ds, failed, t # queue, blocked))
    \<in> measure (\<lambda>(ds, failed, queue, blocked). length queue + card (all_dependents ds - blocked))"
    by simp
qed simp

definition blocked_task_ids :: "task_dag \<Rightarrow> task_id set \<Rightarrow> task_id list res" where
  "blocked_task_ids dag failed =
     bind_res (validate_runtime_ids dag failed) (\<lambda>_.
     bind_res (dag_dependents dag) (\<lambda>ds.
       let blocked = bfs ds failed (sorted_list_of_set failed) {} in
       bind_res (topological_order dag) (\<lambda>order.
         Inr (filter (\<lambda>t. t \<in> blocked) order))))"

definition dag_ready_task_ids :: "task_dag \<Rightarrow> task_id set \<Rightarrow> task_id set \<Rightarrow> task_id list res" where
  "dag_ready_task_ids dag completed failed =
     bind_res (validate_runtime_ids dag completed) (\<lambda>_.
     bind_res (validate_runtime_ids dag failed) (\<lambda>_.
     if completed \<inter> failed \<noteq> {}
     then Inl (ValueError ''task ids cannot be both completed and failed: '')
     else bind_res (blocked_task_ids dag failed) (\<lambda>blocked.
     if completed \<inter> set blocked \<noteq> {}
     then Inl (ValueError ''completed tasks cannot be downstream of failed tasks: '')
     else bind_res (topological_order dag) (\<lambda>order.
       Inr (filter (\<lambda>t. t \<notin> completed \<and> t \<notin> failed \<and> t \<notin> set blocked \<and>
         set (depends_on (the (map_of (nodes_by_id dag) t))) \<subseteq> completed) order)))))"

lemmas [exec_defs] = package_id_ok_def TaskBudgetAllocation_def PlanningComplexityAssessment_def
  validate_dependency_def validate_dependencies_def reject_self_dependency_def
  validate_work_package_metadata_def validate_optional_def TaskNode_def task_ids_def
  nodes_by_id_def dag_node_def dag_dependents_def dget_def decrement_def topological_order_def
  validate_graph_def TaskDAG_def validate_runtime_ids_def blocked_task_ids_def
  dag_ready_task_ids_def

section \<open>Greedy orders of an abstract graph\<close>

text \<open>
  The specification of the topological sort, over a set of ids and a dependency function:
  an order is greedy when each position holds the smallest id whose dependencies are all
  placed before it.
\<close>

definition available :: "task_id set \<Rightarrow> (task_id \<Rightarrow> task_id set) \<Rightarrow> task_id set \<Rightarrow> task_id set" where
  "available N D done = {t \<in> N. t \<notin> done \<and> D t \<subseteq> done}"

definition greedy :: "task_id set \<Rightarrow> (task_id \<Rightarrow> task_id set) \<Rightarrow> task_id list \<Rightarrow> bool" where
  "greedy N D xs \<longleftrightarrow> (\<forall>i < length xs. available N D (set (take i xs)) \<noteq> {} \<and>
     xs ! i = Min (available N D (set (take i xs))))"

definition edges :: "task_id set \<Rightarrow> (task_id \<Rightarrow> task_id set) \<Rightarrow> (task_id \<times> task_id) set" where
  "edges N D = {(d, t). t \<in> N \<and> d \<in> D t}"

lemma finite_available [simp]: "finite N \<Longrightarrow> finite (available N D done)"
  by (simp add: available_def)

lemma greedy_nth:
  assumes "greedy N D xs" and "finite N" and "i < length xs"
  shows "xs ! i \<in> available N D (set (take i xs))"
  using assms Min_in [of "available N D (set (take i xs))"] by (auto simp: greedy_def)

lemma greedy_append:
  "greedy N D (xs @ [t]) \<longleftrightarrow> greedy N D xs \<and> available N D (set xs) \<noteq> {} \<and>
     t = Min (available N D (set xs))"
  unfolding greedy_def by (auto simp: nth_append less_Suc_eq)

lemma greedy_distinct: "greedy N D xs \<Longrightarrow> finite N \<Longrightarrow> distinct xs \<and> set xs \<subseteq> N"
proof (induction xs rule: rev_induct)
  case (snoc t xs)
  then have "t \<in> available N D (set xs)" by (metis Min_in finite_available greedy_append)
  with snoc show ?case by (auto simp: greedy_append available_def)
qed simp

lemma greedy_closed: "greedy N D xs \<Longrightarrow> finite N \<Longrightarrow> x \<in> set xs \<Longrightarrow> D x \<subseteq> set xs"
  using greedy_nth by (fastforce simp: in_set_conv_nth available_def dest: in_set_takeD)

lemma greedy_unique:
  "greedy N D xs \<Longrightarrow> greedy N D ys \<Longrightarrow> length xs = length ys \<Longrightarrow> xs = ys"
proof (induction xs arbitrary: ys rule: rev_induct)
  case (snoc t xs)
  then obtain u zs where ys: "ys = zs @ [u]" by (cases ys rule: rev_cases) auto
  with snoc have "xs = zs" by (auto simp: greedy_append)
  with snoc ys show ?case by (auto simp: greedy_append)
qed simp

text \<open>A greedy order that cannot be extended covers the graph exactly when it is acyclic.\<close>

lemma greedy_covers_acyclic:
  assumes "greedy N D xs" and "finite N" and "set xs = N"
  shows "acyclic (edges N D)"
proof -
  have "edges N D \<subseteq> measure (index_of xs)"
  proof
    fix e assume "e \<in> edges N D"
    then obtain d t where e: "e = (d, t)" and "t \<in> N" "d \<in> D t" by (auto simp: edges_def)
    define i where "i = index_of xs t"
    have i: "i < length xs" "xs ! i = t"
      using \<open>t \<in> N\<close> assms(3) unfolding i_def by (auto simp: index_of_less nth_index_of)
    then have "d \<in> set (take i xs)"
      using greedy_nth [OF assms(1,2)] \<open>d \<in> D t\<close> by (auto simp: available_def)
    moreover have "distinct xs" using greedy_distinct assms(1,2) by blast
    ultimately have "index_of xs d < i"
      using in_set_take_index by (metis in_set_takeD)
    then show "e \<in> measure (index_of xs)" by (simp add: e i_def)
  qed
  then show ?thesis by (metis acyclic_subset wf_acyclic wf_measure)
qed

lemma stuck_acyclic_covers:
  assumes "acyclic (edges N D)" and "finite N" and "\<And>t. t \<in> N \<Longrightarrow> D t \<subseteq> N"
    and "available N D done = {}"
  shows "N \<subseteq> done"
proof (rule ccontr)
  assume "\<not> N \<subseteq> done"
  then have ne: "N - done \<noteq> {}" by blast
  have "edges N D \<subseteq> N \<times> N" using assms(3) by (auto simp: edges_def)
  then have "finite (edges N D)" using assms(2) by (meson finite_SigmaI finite_subset)
  with assms(1) have "wf (edges N D)" by (simp add: finite_acyclic_wf)
  then obtain t where t: "t \<in> N - done" "\<And>d. (d, t) \<in> edges N D \<Longrightarrow> d \<notin> N - done"
    using ne by (metis wfE_min')
  then have "t \<in> available N D done"
    using assms(3) by (auto simp: available_def edges_def)
  with assms(4) show False by blast
qed

section \<open>Kahn's loop computes the greedy order\<close>

lemma release_Cons:
  "release (d # ds) ind ready = release ds (decrement d ind)
     (if map_of ind d = Some 1 then insort d ready else ready)"
  by (auto simp: map_of_decrement)

lemma map_of_decrement_other: "d \<noteq> k \<Longrightarrow> map_of (decrement d ind) k = map_of ind k"
  by (cases "map_of ind k") (auto simp: map_of_decrement)

lemma release_map:
  "release xs ind ready = (ind', ready') \<Longrightarrow> distinct xs \<Longrightarrow>
   map_of ind' k = map_option (\<lambda>v. if k \<in> set xs then v - 1 else v) (map_of ind k)"
proof (induction xs arbitrary: ind ready)
  case (Cons d xs)
  from Cons.IH [OF Cons.prems(1) [unfolded release_Cons]] Cons.prems(2)
  show ?case by (cases "map_of ind k") (auto simp: map_of_decrement)
qed (auto simp: option.map_ident)

lemma release_ready:
  "release xs ind ready = (ind', ready') \<Longrightarrow> distinct xs \<Longrightarrow>
   set ready' = set ready \<union> {k \<in> set xs. map_of ind k = Some 1} \<and>
   (sorted ready \<longrightarrow> sorted ready') \<and>
   (distinct ready \<and> (\<forall>k \<in> set xs. k \<notin> set ready) \<longrightarrow> distinct ready')"
proof (induction xs arbitrary: ind ready)
  case (Cons d xs)
  have "map_of (decrement d ind) k = map_of ind k" if "k \<in> set xs" for k
    using that Cons.prems(2) by (intro map_of_decrement_other) auto
  with Cons.IH [OF Cons.prems(1) [unfolded release_Cons]] Cons.prems(2)
  show ?case by (auto simp: set_insort_key sorted_insort distinct_insort)
qed auto

definition kahn_inv ::
  "task_id set \<Rightarrow> (task_id \<Rightarrow> task_id set) \<Rightarrow> task_id list \<Rightarrow> task_id list \<Rightarrow> indegrees \<Rightarrow> bool" where
  "kahn_inv N D ordered ready ind \<longleftrightarrow>
     greedy N D ordered \<and> sorted ready \<and> distinct ready \<and>
     set ready = available N D (set ordered) \<and>
     (\<forall>t \<in> N. map_of ind t = Some (int (card (D t - set ordered))))"

definition dependents_ok :: "task_id set \<Rightarrow> (task_id \<Rightarrow> task_id set) \<Rightarrow> dependents_map \<Rightarrow> bool" where
  "dependents_ok N D ds \<longleftrightarrow>
     (\<forall>t \<in> N. distinct (dget ds t) \<and> set (dget ds t) = {u \<in> N. t \<in> D u})"

lemma kahn_step:
  assumes inv: "kahn_inv N D ordered (t # ready) ind" and ds: "dependents_ok N D ds"
    and fin: "finite N" "\<And>u. u \<in> N \<Longrightarrow> finite (D u)"
    and rel: "release (dget ds t) ind ready = (ind', ready')"
  shows "kahn_inv N D (ordered @ [t]) ready' ind'"
proof -
  have av: "set (t # ready) = available N D (set ordered)" and srt: "sorted (t # ready)"
    and dst: "distinct (t # ready)" and gr: "greedy N D ordered"
    and deg: "\<And>u. u \<in> N \<Longrightarrow> map_of ind u = Some (int (card (D u - set ordered)))"
    using inv by (auto simp: kahn_inv_def)
  then have t: "t \<in> N" "t \<notin> set ordered" "D t \<subseteq> set ordered" by (auto simp: available_def)
  then have xs: "distinct (dget ds t)" "set (dget ds t) = {u \<in> N. t \<in> D u}"
    using ds by (auto simp: dependents_ok_def)
  note rmap = release_map [OF rel xs(1)]
  have spec: "set ready' = set ready \<union> {k \<in> set (dget ds t). map_of ind k = Some 1}"
    using release_ready [OF rel xs(1)] by simp
  have card: "card (D u - insert t (set ordered)) =
      (if t \<in> D u then card (D u - set ordered) - 1 else card (D u - set ordered))" if "u \<in> N" for u
  proof -
    have "D u - insert t (set ordered) = (D u - set ordered) - {t}" by auto
    then show ?thesis using t(2) by (auto simp: card_Diff_singleton_if)
  qed
  have pos: "card (D u - set ordered) > 0" if "u \<in> N" "t \<in> D u" for u
    using that t(2) fin(2) by (metis DiffI card_gt_0_iff empty_iff finite_Diff)
  have one: "map_of ind u = Some 1 \<longleftrightarrow> D u - set ordered = {t}" if "u \<in> N" "t \<in> D u" for u
  proof -
    have "t \<in> D u - set ordered" using that t(2) by simp
    then have "(\<exists>x. D u - set ordered = {x}) \<longleftrightarrow> D u - set ordered = {t}"
      by (metis singletonD)
    then show ?thesis using deg [OF that(1)] by (simp add: card_1_singleton_iff)
  qed
  have fresh: "u \<notin> set ready" if "u \<in> set (dget ds t)" for u
    using that xs(2) av t(2) by (auto simp: available_def)
  have "set ready' = available N D (set (ordered @ [t]))"
  proof (intro set_eqI iffI)
    fix u assume "u \<in> set ready'"
    then consider "u \<in> set ready" | "u \<in> N" "t \<in> D u" "D u - set ordered = {t}"
      unfolding spec xs(2) using one by blast
    then show "u \<in> available N D (set (ordered @ [t]))"
      using av dst t greedy_closed [OF gr fin(1), of u] by cases (auto simp: available_def)
  next
    fix u assume "u \<in> available N D (set (ordered @ [t]))"
    then have u: "u \<in> N" "u \<notin> set ordered" "u \<noteq> t" "D u \<subseteq> insert t (set ordered)"
      by (auto simp: available_def)
    show "u \<in> set ready'"
    proof (cases "t \<in> D u")
      case True
      then have "D u - set ordered = {t}" using u(4) t(2) by auto
      then show ?thesis unfolding spec xs(2) using True one u(1) by blast
    next
      case False
      then have "u \<in> set (t # ready)" using av u by (auto simp: available_def)
      then show ?thesis unfolding spec using u(3) by simp
    qed
  qed
  moreover have "\<forall>u \<in> N. map_of ind' u = Some (int (card (D u - set (ordered @ [t]))))"
    using deg card pos by (auto simp: rmap xs(2) Suc_le_eq of_nat_diff)
  moreover have "greedy N D (ordered @ [t])"
    using gr av sorted_Cons_Min [OF srt] by (auto simp: greedy_append)
  moreover have "sorted ready'" "distinct ready'"
    using release_ready [OF rel xs(1)] srt dst fresh by auto
  ultimately show ?thesis by (simp add: kahn_inv_def)
qed

lemma kahn_result:
  assumes "kahn_inv N D ordered ready ind" and "dependents_ok N D ds"
    and "finite N" and "\<And>u. u \<in> N \<Longrightarrow> finite (D u)"
  shows "greedy N D (fst (kahn ds ready ind ordered)) \<and>
    available N D (set (fst (kahn ds ready ind ordered))) = {}"
  using assms
proof (induction ds ready ind ordered rule: kahn.induct)
  case (1 ds ind ordered)
  then show ?case by (simp add: kahn_inv_def)
next
  case (2 ds t ready ind ordered)
  obtain ind' ready' where r: "release (dget ds t) ind ready = (ind', ready')"
    by (cases "release (dget ds t) ind ready")
  from kahn_step [OF 2(2-5) r] have "kahn_inv N D (ordered @ [t]) ready' ind'" .
  from "2.IH" [OF _ _ this] r 2 show ?case by simp
qed

section \<open>The order of a task graph\<close>

definition deps_of :: "task_dag \<Rightarrow> task_id \<Rightarrow> task_id set" where
  "deps_of dag t = (case map_of (nodes_by_id dag) t of None \<Rightarrow> {} | Some n \<Rightarrow> set (depends_on n))"

definition dag_wf :: "task_dag \<Rightarrow> bool" where
  "dag_wf dag \<longleftrightarrow> distinct (task_ids dag) \<and>
     (\<forall>n \<in> set (tasks dag). distinct (depends_on n) \<and> set (depends_on n) \<subseteq> set (task_ids dag))"

abbreviation id_set :: "task_dag \<Rightarrow> task_id set" where
  "id_set dag \<equiv> set (task_ids dag)"

lemma keys_distinct: "distinct xs \<Longrightarrow> rev (remdups (rev xs)) = xs"
  by (simp add: distinct_remdups_id)

lemma nodes_by_id_distinct:
  assumes "distinct (task_ids dag)"
  shows "nodes_by_id dag = map (\<lambda>n. (node_id n, n)) (tasks dag)"
proof -
  have "map_of (rev (map (\<lambda>n. (node_id n, n)) (tasks dag))) (node_id n) = Some n"
    if "n \<in> set (tasks dag)" for n
    using assms that by (intro map_of_is_SomeI) (auto simp: task_ids_def comp_def simp flip: rev_map)
  then show ?thesis using assms
    by (simp add: nodes_by_id_def keys_distinct) (simp add: task_ids_def)
qed

lemma dag_wf_node:
  assumes "dag_wf dag" and "n \<in> set (tasks dag)"
  shows "map_of (nodes_by_id dag) (node_id n) = Some n" and "deps_of dag (node_id n) = set (depends_on n)"
proof -
  show "map_of (nodes_by_id dag) (node_id n) = Some n"
    using assms by (auto simp: nodes_by_id_distinct dag_wf_def task_ids_def comp_def
        intro!: map_of_is_SomeI)
  then show "deps_of dag (node_id n) = set (depends_on n)" by (simp add: deps_of_def)
qed

lemma id_set_node: "t \<in> id_set dag \<longleftrightarrow> (\<exists>n \<in> set (tasks dag). node_id n = t)"
  by (auto simp: task_ids_def)

lemma deps_of_subset: "dag_wf dag \<Longrightarrow> deps_of dag t \<subseteq> id_set dag"
  by (auto simp: deps_of_def dag_wf_def nodes_by_id_distinct split: option.splits dest!: map_of_SomeD)

lemma finite_deps_of [simp]: "finite (deps_of dag t)"
  by (simp add: deps_of_def split: option.splits)

lemma deps_of_outside: "t \<notin> id_set dag \<Longrightarrow> deps_of dag t = {}"
  by (auto simp: deps_of_def nodes_by_id_def Let_def split: option.splits dest!: map_of_SomeD)

lemma dag_dependents_wf:
  assumes "dag_wf dag"
  obtains ds where "dag_dependents dag = Inr ds" and "dependents_ok (id_set dag) (deps_of dag) ds"
    and "\<And>t. t \<in> id_set dag \<Longrightarrow> sorted (dget ds t)" and "all_dependents ds \<subseteq> id_set dag"
proof -
  define g where "g = (\<lambda>t. sorted_list_of_set
    (set (map node_id (filter (\<lambda>n. t \<in> set (depends_on n)) (tasks dag)))))"
  define ds where "ds = map (\<lambda>t. (t, g t)) (task_ids dag)"
  have "dag_dependents dag = Inr ds"
    using assms by (auto simp: dag_dependents_def dag_wf_def keys_distinct ds_def g_def)
  moreover have get: "dget ds t = g t" if "t \<in> id_set dag" for t
    using that by (simp add: ds_def dget_def map_of_map_restrict)
  have "set (g t) = {u \<in> id_set dag. t \<in> deps_of dag u}" for t
    using dag_wf_node(2) [OF assms] by (auto simp: g_def id_set_node)
  then have "dependents_ok (id_set dag) (deps_of dag) ds" and "all_dependents ds \<subseteq> id_set dag"
    using get by (auto simp: dependents_ok_def all_dependents_def ds_def g_def)
  moreover have "sorted (dget ds t)" if "t \<in> id_set dag" for t
    using get that by (simp add: g_def)
  ultimately show thesis using that by blast
qed

lemma kahn_inv_init:
  assumes "dag_wf dag"
  defines "ind \<equiv> map (\<lambda>(t, n). (t, int (length (depends_on n)))) (nodes_by_id dag)"
  shows "kahn_inv (id_set dag) (deps_of dag) []
    (sort (map fst (filter (\<lambda>(t, degree). degree = 0) ind))) ind"
proof -
  have ind: "ind = map (\<lambda>n. (node_id n, int (length (depends_on n)))) (tasks dag)"
    using assms by (simp add: dag_wf_def nodes_by_id_distinct)
  have deg: "map_of ind (node_id n) = Some (int (card (deps_of dag (node_id n))))"
    if "n \<in> set (tasks dag)" for n
  proof -
    have "map_of ind (node_id n) = Some (int (length (depends_on n)))"
      using assms(1) that unfolding ind dag_wf_def
      by (intro map_of_is_SomeI) (auto simp: task_ids_def comp_def)
    with assms(1) that show ?thesis
      by (auto simp: dag_wf_node dag_wf_def distinct_card)
  qed
  have ready: "map fst (filter (\<lambda>(t, degree). degree = 0) ind) =
      map node_id (filter (\<lambda>n. depends_on n = []) (tasks dag))"
    unfolding ind by (induction "tasks dag") (auto simp: filter_map comp_def)
  have "distinct (map node_id (filter P (tasks dag)))" for P
    using assms(1) by (auto simp: dag_wf_def task_ids_def intro: distinct_map_filter)
  moreover have "set (map node_id (filter (\<lambda>n. depends_on n = []) (tasks dag))) =
      available (id_set dag) (deps_of dag) {}"
    using dag_wf_node(2) [OF assms(1)] by (auto simp: available_def id_set_node)
  ultimately show ?thesis
    unfolding kahn_inv_def ready using deg by (auto simp: greedy_def id_set_node)
qed

lemma topological_order_cases:
  assumes "dag_wf dag"
  obtains xs where "greedy (id_set dag) (deps_of dag) xs"
    and "available (id_set dag) (deps_of dag) (set xs) = {}"
    and "topological_order dag =
      (if set xs = id_set dag then Inr xs
       else Inl (ValueError ''task DAG contains a dependency cycle involving: ''))"
proof -
  obtain ds where ds: "dag_dependents dag = Inr ds" "dependents_ok (id_set dag) (deps_of dag) ds"
    by (rule dag_dependents_wf [OF assms])
  define ind where "ind = map (\<lambda>(t, n). (t, int (length (depends_on n)))) (nodes_by_id dag)"
  define ready where "ready = sort (map fst (filter (\<lambda>(t, degree). degree = 0) ind))"
  define xs where "xs = fst (kahn ds ready ind [])"
  have "greedy (id_set dag) (deps_of dag) xs \<and> available (id_set dag) (deps_of dag) (set xs) = {}"
    unfolding xs_def ready_def ind_def
    by (rule kahn_result [OF kahn_inv_init [OF assms] ds(2) finite_set finite_deps_of])
  then have gr: "greedy (id_set dag) (deps_of dag) xs"
    and av: "available (id_set dag) (deps_of dag) (set xs) = {}" by blast+
  have "length (nodes_by_id dag) = card (id_set dag)"
    using assms distinct_card [of "task_ids dag"]
    by (simp add: dag_wf_def nodes_by_id_distinct) (simp add: task_ids_def)
  moreover have "distinct xs" "set xs \<subseteq> id_set dag" using greedy_distinct [OF gr] by auto
  ultimately have "length xs = length (nodes_by_id dag) \<longleftrightarrow> set xs = id_set dag"
    by (metis List.finite_set card_subset_eq distinct_card)
  then have "topological_order dag = (if set xs = id_set dag then Inr xs
       else Inl (ValueError ''task DAG contains a dependency cycle involving: ''))"
    by (simp add: topological_order_def ds(1) Let_def case_prod_beta
        flip: xs_def ready_def ind_def)
  with gr av that show thesis by blast
qed

section \<open>Breadth-first search computes the transitive dependents\<close>

definition downstream :: "task_dag \<Rightarrow> task_id set \<Rightarrow> task_id set" where
  "downstream dag F = (edges (id_set dag) (deps_of dag))\<^sup>+ `` F"

lemma visit_spec:
  "visit xs failed blocked queue = (blocked', queue') \<Longrightarrow>
   blocked' = blocked \<union> (set xs - failed) \<and>
   set queue' = set queue \<union> (set xs - failed - blocked)"
  by (induction xs failed blocked queue rule: visit.induct) (auto split: if_splits)

definition bfs_inv ::
  "task_dag \<Rightarrow> dependents_map \<Rightarrow> task_id set \<Rightarrow> task_id list \<Rightarrow> task_id set \<Rightarrow> bool" where
  "bfs_inv dag ds failed queue blocked \<longleftrightarrow>
     blocked \<inter> failed = {} \<and> blocked \<subseteq> downstream dag failed \<and> blocked \<subseteq> id_set dag \<and>
     set queue \<subseteq> failed \<union> blocked \<and>
     (\<forall>x \<in> (failed \<union> blocked) - set queue. set (dget ds x) \<subseteq> failed \<union> blocked)"

lemma bfs_step:
  assumes inv: "bfs_inv dag ds failed (t # queue) blocked"
    and ds: "dependents_ok (id_set dag) (deps_of dag) ds" and failed: "failed \<subseteq> id_set dag"
    and v: "visit (dget ds t) failed blocked queue = (blocked', queue')"
  shows "bfs_inv dag ds failed queue' blocked'"
proof -
  let ?E = "edges (id_set dag) (deps_of dag)"
  from inv have t: "t \<in> failed \<union> blocked" and tN: "t \<in> id_set dag"
    using failed by (auto simp: bfs_inv_def)
  then have dep: "set (dget ds t) = {u \<in> id_set dag. t \<in> deps_of dag u}"
    using ds by (auto simp: dependents_ok_def)
  have down: "x \<in> downstream dag failed" if "x \<in> set (dget ds t)" for x
  proof -
    have e: "(t, x) \<in> ?E" using that dep by (auto simp: edges_def)
    show ?thesis
    proof (cases "t \<in> failed")
      case True
      with e show ?thesis by (auto simp: downstream_def)
    next
      case False
      with t inv obtain f where "f \<in> failed" "(f, t) \<in> ?E\<^sup>+"
        by (auto simp: bfs_inv_def downstream_def)
      with e show ?thesis by (auto simp: downstream_def intro: trancl_into_trancl)
    qed
  qed
  have b: "blocked' = blocked \<union> (set (dget ds t) - failed)"
    and q: "set queue' = set queue \<union> (set (dget ds t) - failed - blocked)"
    using visit_spec [OF v] by simp_all
  have "set (dget ds x) \<subseteq> failed \<union> blocked'" if "x \<in> (failed \<union> blocked') - set queue'" for x
  proof (cases "x = t")
    case True
    then show ?thesis by (auto simp: b)
  next
    case False
    with that have "x \<in> (failed \<union> blocked) - set (t # queue)" by (auto simp: b q)
    with inv have "set (dget ds x) \<subseteq> failed \<union> blocked" by (auto simp: bfs_inv_def)
    then show ?thesis by (auto simp: b)
  qed
  with inv down dep show ?thesis unfolding bfs_inv_def by (auto simp: b q)
qed

lemma bfs_result:
  assumes "bfs_inv dag ds failed queue blocked"
    and "dependents_ok (id_set dag) (deps_of dag) ds" and "failed \<subseteq> id_set dag"
  shows "bfs_inv dag ds failed [] (bfs ds failed queue blocked)"
  using assms
proof (induction ds failed queue blocked rule: bfs.induct)
  case (2 ds failed t queue blocked)
  obtain b q where v: "visit (dget ds t) failed blocked queue = (b, q)"
    by (cases "visit (dget ds t) failed blocked queue")
  from bfs_step [OF 2(2-4) v] have "bfs_inv dag ds failed q b" .
  from "2.IH" [OF _ _ this] v 2 show ?case by simp
qed simp

lemma bfs_downstream:
  assumes "dependents_ok (id_set dag) (deps_of dag) ds" and "failed \<subseteq> id_set dag"
    and "set queue = failed"
  shows "bfs ds failed queue {} = downstream dag failed - failed"
proof -
  let ?E = "edges (id_set dag) (deps_of dag)" and ?B = "bfs ds failed queue {}"
  have inv: "bfs_inv dag ds failed [] ?B"
    by (rule bfs_result) (use assms in \<open>auto simp: bfs_inv_def\<close>)
  have "x \<in> failed \<union> ?B" if "(f, x) \<in> ?E\<^sup>+" "f \<in> failed" for f x
    using that
  proof (induction rule: trancl_induct)
    case (base y)
    then have "y \<in> set (dget ds f)" using assms(1,2) by (auto simp: dependents_ok_def edges_def)
    then show ?case using inv base by (auto simp: bfs_inv_def)
  next
    case (step y z)
    then have y: "y \<in> failed \<union> ?B" by simp
    moreover have "y \<in> id_set dag" using y inv assms(2) by (auto simp: bfs_inv_def)
    ultimately have "z \<in> set (dget ds y)"
      using assms(1) step by (auto simp: dependents_ok_def edges_def)
    then show ?case using y inv by (auto simp: bfs_inv_def)
  qed
  then show ?thesis using inv by (auto simp: bfs_inv_def downstream_def)
qed

section \<open>Valid graphs\<close>

text \<open>A graph as \<open>TaskDAG\<close> returns it: its nodes passed their validators and the graph passed
  \<open>validate_graph\<close>.\<close>

definition dag_valid :: "task_dag \<Rightarrow> bool" where
  "dag_valid dag \<longleftrightarrow> tasks dag \<noteq> [] \<and>
     (\<forall>n \<in> set (tasks dag). TaskContract (task n) = Inr (task n) \<and>
        validate_dependencies (depends_on n) = Inr (depends_on n)) \<and>
     validate_graph dag = Inr dag"

definition topo :: "task_dag \<Rightarrow> task_id list" where
  "topo dag = (case topological_order dag of Inl _ \<Rightarrow> [] | Inr xs \<Rightarrow> xs)"

lemma validate_dependency_idem:
  "validate_dependency v = Inr d \<Longrightarrow> validate_dependency d = Inr d"
  by (auto simp: validate_dependency_def Let_def split: if_splits)

lemma validate_dependencies_idem:
  "validate_dependencies vs = Inr ds \<Longrightarrow> validate_dependencies ds = Inr ds"
  using map_res_idem [of validate_dependency vs ds] validate_dependency_idem
  by (auto simp: validate_dependencies_def bind_res_eq_Inr split: if_splits)

lemma validate_dependencies_distinct: "validate_dependencies vs = Inr ds \<Longrightarrow> distinct ds"
  by (auto simp: validate_dependencies_def bind_res_eq_Inr split: if_splits)

lemma TaskNode_parts:
  "TaskNode raw = Inr n \<Longrightarrow> TaskContract (task raw) = Inr (task n) \<and>
     validate_dependencies (depends_on raw) = Inr (depends_on n)"
  by (auto simp: TaskNode_def bind_res_eq_Inr reject_self_dependency_def
      validate_work_package_metadata_def split: if_splits)

lemma validate_graph_Inr: "validate_graph dag = Inr g \<Longrightarrow> g = dag"
  by (auto simp: validate_graph_def bind_res_eq_Inr split: if_splits)

lemma TaskDAG_valid:
  assumes "TaskDAG raw = Inr dag"
  shows "dag_valid dag"
proof -
  from assms obtain ns where raw: "raw \<noteq> []" and ns: "map_res TaskNode raw = Inr ns"
    and g: "validate_graph \<lparr>tasks = ns\<rparr> = Inr dag"
    by (auto simp: TaskDAG_def bind_res_eq_Inr split: if_splits)
  have dag: "dag = \<lparr>tasks = ns\<rparr>" by (rule validate_graph_Inr [OF g])
  have "ns \<noteq> []" using raw map_res_length [OF ns] by auto
  moreover have "TaskContract (task n) = Inr (task n) \<and>
      validate_dependencies (depends_on n) = Inr (depends_on n)" if "n \<in> set ns" for n
  proof -
    from ns that obtain m where "TaskNode m = Inr n"
      by (auto simp: map_res_Inr_iff list_all2_conv_all_nth in_set_conv_nth)
    then show ?thesis by (blast dest: TaskNode_parts validate_dependencies_idem TaskContract_idem)
  qed
  ultimately show ?thesis using g by (simp add: dag_valid_def dag)
qed

lemma dag_valid_wf: "dag_valid dag \<Longrightarrow> dag_wf dag"
  by (auto simp: dag_valid_def dag_wf_def validate_graph_def split: if_splits
      dest: validate_dependencies_distinct)

lemma dag_valid_topo:
  assumes "dag_valid dag"
  shows "topological_order dag = Inr (topo dag)"
    and "greedy (id_set dag) (deps_of dag) (topo dag)" and "set (topo dag) = id_set dag"
proof -
  from assms obtain xs where xs: "topological_order dag = Inr xs"
    by (auto simp: dag_valid_def validate_graph_def bind_res_eq_Inr split: if_splits)
  then have [simp]: "topo dag = xs" by (simp add: topo_def)
  show "topological_order dag = Inr (topo dag)" by (simp add: xs)
  from topological_order_cases [OF dag_valid_wf [OF assms]]
  have "greedy (id_set dag) (deps_of dag) xs \<and> set xs = id_set dag"
    by (metis (no_types, lifting) xs Inl_Inr_False sum.inject(2))
  then show "greedy (id_set dag) (deps_of dag) (topo dag)" "set (topo dag) = id_set dag"
    by auto
qed

lemma dag_valid_id_length:
  assumes "dag_valid dag" and "t \<in> id_set dag"
  shows "1 \<le> length t" and "length t \<le> 128"
  using assms TaskContract_cases(1,2) by (auto simp: dag_valid_def id_set_node)

section \<open>The contract of an ordered graph\<close>

text \<open>
  What the scheduler, the merge queue and the persistence layer rely on: an order that lists
  every id once, each after its dependencies. The derived facts are proved once here.
\<close>

locale dag_order =
  fixes valid :: "'g \<Rightarrow> bool" and ids :: "'g \<Rightarrow> 't set" and deps :: "'g \<Rightarrow> 't \<Rightarrow> 't set"
    and order :: "'g \<Rightarrow> 't list"
  assumes order_distinct: "valid g \<Longrightarrow> distinct (order g)"
    and order_set: "valid g \<Longrightarrow> set (order g) = ids g"
    and order_deps: "valid g \<Longrightarrow> i < length (order g) \<Longrightarrow> deps g (order g ! i) \<subseteq> set (take i (order g))"
    and deps_ids: "valid g \<Longrightarrow> deps g t \<subseteq> ids g"
begin

lemma order_index:
  assumes "valid g" and "t \<in> ids g" and "d \<in> deps g t"
  shows "index_of (order g) d < index_of (order g) t"
proof -
  let ?i = "index_of (order g) t"
  have t: "t \<in> set (order g)" using assms(1,2) by (simp add: order_set)
  then have "?i < length (order g)" "order g ! ?i = t"
    by (simp_all add: index_of_less nth_index_of)
  then have "d \<in> set (take ?i (order g))"
    using order_deps [OF assms(1), of ?i] assms(3) by auto
  then show ?thesis
    using in_set_take_index order_distinct [OF assms(1)] by (metis in_set_takeD)
qed

lemma deps_trancl_index:
  assumes "valid g" and "(d, t) \<in> {(d, t). t \<in> ids g \<and> d \<in> deps g t}\<^sup>+"
  shows "index_of (order g) d < index_of (order g) t"
  using assms(2)
  by (induction rule: trancl_induct) (auto dest: order_index [OF assms(1)])

lemma deps_acyclic: "valid g \<Longrightarrow> acyclic {(d, t). t \<in> ids g \<and> d \<in> deps g t}"
  unfolding acyclic_def using deps_trancl_index by blast

lemma dep_irrefl: "valid g \<Longrightarrow> t \<in> ids g \<Longrightarrow> t \<notin> deps g t"
  using order_index by blast

text \<open>Every non-empty set of tasks has one whose dependencies lie outside it.\<close>

lemma minimal_task:
  assumes "valid g" and "S \<subseteq> ids g" and "S \<noteq> {}"
  obtains t where "t \<in> S" and "deps g t \<inter> S = {}"
proof -
  from assms(3) obtain s where "s \<in> S" by blast
  then obtain t where t: "t \<in> S" "\<And>u. u \<in> S \<Longrightarrow> index_of (order g) t \<le> index_of (order g) u"
    using ex_has_least_nat [of "\<lambda>x. x \<in> S" s "index_of (order g)"] by blast
  then have "index_of (order g) d \<ge> index_of (order g) t" if "d \<in> deps g t \<inter> S" for d
    using that by blast
  then have "deps g t \<inter> S = {}"
    using order_index [OF assms(1), of t] assms(2) t(1) by (auto simp: not_less [symmetric])
  with t(1) that show thesis by blast
qed

end

interpretation dag: dag_order dag_valid id_set deps_of topo
proof unfold_locales
  fix g assume v: "dag_valid g"
  show "distinct (topo g)" using greedy_distinct [OF dag_valid_topo(2)] v by blast
  show "set (topo g) = id_set g" by (rule dag_valid_topo(3) [OF v])
  show "deps_of g t \<subseteq> id_set g" for t by (rule deps_of_subset [OF dag_valid_wf [OF v]])
  show "deps_of g (topo g ! i) \<subseteq> set (take i (topo g))" if "i < length (topo g)" for i
    using greedy_nth [OF dag_valid_topo(2) [OF v] _ that] by (simp add: available_def)
qed

section \<open>Queries on valid graphs\<close>

lemma topological_order_greedy:
  assumes "dag_wf dag"
  shows "topological_order dag = Inr xs \<longleftrightarrow>
    greedy (id_set dag) (deps_of dag) xs \<and> set xs = id_set dag"
proof -
  obtain ys where gr: "greedy (id_set dag) (deps_of dag) ys"
    and av: "available (id_set dag) (deps_of dag) (set ys) = {}"
    and res: "topological_order dag = (if set ys = id_set dag then Inr ys
      else Inl (ValueError ''task DAG contains a dependency cycle involving: ''))"
    by (rule topological_order_cases [OF assms])
  have "set ys = id_set dag \<and> xs = ys"
    if xs: "greedy (id_set dag) (deps_of dag) xs" "set xs = id_set dag"
  proof -
    have "acyclic (edges (id_set dag) (deps_of dag))"
      by (rule greedy_covers_acyclic [OF xs(1) _ xs(2)]) simp
    then have "id_set dag \<subseteq> set ys"
      by (rule stuck_acyclic_covers) (use av deps_of_subset [OF assms] in auto)
    with greedy_distinct [OF gr] have ys: "set ys = id_set dag" "distinct ys" by auto
    moreover have "distinct xs" using greedy_distinct xs by blast
    ultimately have "length xs = length ys" using xs(2) by (metis distinct_card)
    with greedy_unique [OF xs(1) gr] ys show ?thesis by blast
  qed
  with gr res show ?thesis by auto
qed

lemma topological_order_acyclic:
  assumes "dag_wf dag"
  shows "is_ok (topological_order dag) \<longleftrightarrow> acyclic (edges (id_set dag) (deps_of dag))"
proof -
  obtain ys where gr: "greedy (id_set dag) (deps_of dag) ys"
    and av: "available (id_set dag) (deps_of dag) (set ys) = {}"
    and res: "topological_order dag = (if set ys = id_set dag then Inr ys
      else Inl (ValueError ''task DAG contains a dependency cycle involving: ''))"
    by (rule topological_order_cases [OF assms])
  have sub: "set ys \<subseteq> id_set dag" using greedy_distinct [OF gr] by simp
  have "acyclic (edges (id_set dag) (deps_of dag)) \<Longrightarrow> id_set dag \<subseteq> set ys"
    by (rule stuck_acyclic_covers) (use av deps_of_subset [OF assms] in auto)
  moreover have "acyclic (edges (id_set dag) (deps_of dag))" if "set ys = id_set dag"
    by (rule greedy_covers_acyclic [OF gr]) (use that in auto)
  ultimately show ?thesis using res sub by auto
qed

lemma blocked_task_ids_valid:
  assumes "dag_valid dag" and "F \<subseteq> id_set dag"
  shows "blocked_task_ids dag F = Inr (filter (\<lambda>t. t \<in> downstream dag F - F) (topo dag))"
proof -
  obtain ds where ds: "dag_dependents dag = Inr ds" "dependents_ok (id_set dag) (deps_of dag) ds"
    by (rule dag_dependents_wf [OF dag_valid_wf [OF assms(1)]])
  have "finite F" using assms(2) finite_subset by blast
  then have "bfs ds F (sorted_list_of_set F) {} = downstream dag F - F"
    by (intro bfs_downstream [OF ds(2) assms(2)]) simp
  then show ?thesis
    using assms ds(1) dag_valid_topo(1) by (simp add: blocked_task_ids_def validate_runtime_ids_def)
qed

lemma downstream_subset: "downstream dag F \<subseteq> id_set dag"
  by (auto simp: downstream_def edges_def elim: trancl.cases)

lemma downstream_step:
  "t \<in> downstream dag F \<longleftrightarrow> t \<in> id_set dag \<and> deps_of dag t \<inter> (F \<union> downstream dag F) \<noteq> {}"
proof -
  let ?E = "edges (id_set dag) (deps_of dag)"
  have "t \<in> ?E\<^sup>+ `` F \<longleftrightarrow> (\<exists>d \<in> F \<union> ?E\<^sup>+ `` F. (d, t) \<in> ?E)"
    by (auto elim: tranclE intro: trancl_into_trancl)
  then show ?thesis by (auto simp: downstream_def edges_def)
qed

lemma deps_of_the: "t \<in> id_set dag \<Longrightarrow> dag_wf dag \<Longrightarrow>
  set (depends_on (the (map_of (nodes_by_id dag) t))) = deps_of dag t"
  by (auto simp: id_set_node dag_wf_node)

lemma dag_ready_task_ids_valid:
  assumes "dag_valid dag" and "C \<subseteq> id_set dag" and "F \<subseteq> id_set dag"
    and "C \<inter> F = {}" and "C \<inter> downstream dag F = {}"
  shows "dag_ready_task_ids dag C F = Inr (filter (\<lambda>t. t \<notin> C \<union> F \<and> deps_of dag t \<subseteq> C) (topo dag))"
proof -
  let ?B = "set (filter (\<lambda>t. t \<in> downstream dag F - F) (topo dag))"
  have B: "?B = downstream dag F - F"
    using downstream_subset dag_valid_topo(3) [OF assms(1)] by auto
  have "C \<inter> ?B = {}" using assms(5) unfolding B by blast
  then have "dag_ready_task_ids dag C F =
      Inr (filter (\<lambda>t. t \<notin> C \<and> t \<notin> F \<and> t \<notin> ?B \<and>
        set (depends_on (the (map_of (nodes_by_id dag) t))) \<subseteq> C) (topo dag))"
    using assms dag_valid_topo(1) blocked_task_ids_valid
    by (simp add: dag_ready_task_ids_def validate_runtime_ids_def)
  moreover have "t \<notin> ?B" if "t \<in> set (topo dag)" "deps_of dag t \<subseteq> C" for t
    using that downstream_step [of t dag F] assms(4,5) unfolding B by blast
  moreover have "set (depends_on (the (map_of (nodes_by_id dag) t))) = deps_of dag t"
    if "t \<in> set (topo dag)" for t
    using that deps_of_the dag_valid_wf [OF assms(1)] dag_valid_topo(3) [OF assms(1)] by blast
  ultimately show ?thesis by (auto intro!: filter_cong)
qed

section \<open>Properties\<close>

definition demo_node :: "task_id \<Rightarrow> task_id list \<Rightarrow> task_node" where
  "demo_node t ds = \<lparr>task = demo_contract\<lparr>tc_task_id := t\<rparr>, depends_on = ds,
     execution_mode = AGENT, produces = [], consumes = [], complexity = None,
     budget_allocation = None, complexity_assessment = None, resume_context = None\<rparr>"

definition demo_dag :: task_dag where
  "demo_dag = \<lparr>tasks = [demo_node ''d'' [''b'', ''c''], demo_node ''c'' [''a''],
     demo_node ''a'' [], demo_node ''b'' [''a''], demo_node ''e'' []]\<rparr>"

lemma demo_dag_TaskDAG: "TaskDAG (tasks demo_dag) = Inr demo_dag"
  by code_simp

lemma demo_dag_topo: "topological_order demo_dag = Inr [''a'', ''b'', ''c'', ''d'', ''e'']"
  by code_simp

lemma demo_dag_ids: "task_ids demo_dag = [''d'', ''c'', ''a'', ''b'', ''e'']"
  by code_simp

lemmas demo_dag_valid = TaskDAG_valid [OF demo_dag_TaskDAG]

text \<open>C1. Kahn's loop is a correct and complete topological sort. For a graph with unique task
  ids, known dependencies and no repeated dependency it returns an order exactly when the
  dependency relation is acyclic, and it returns \<open>xs\<close> exactly when \<open>xs\<close> lists every task
  and each position holds the smallest task id whose dependencies all come earlier.\<close>

theorem topological_order_correct:
  assumes "dag_wf dag"
  shows "(is_ok (topological_order dag) \<longleftrightarrow> acyclic (edges (id_set dag) (deps_of dag))) \<and>
    (topological_order dag = Inr xs \<longleftrightarrow>
      greedy (id_set dag) (deps_of dag) xs \<and> set xs = id_set dag)"
  using topological_order_acyclic [OF assms] topological_order_greedy [OF assms] by blast

theorem topological_order_correct_witness:
  "dag_wf demo_dag \<and> acyclic (edges (id_set demo_dag) (deps_of demo_dag)) \<and>
   greedy (id_set demo_dag) (deps_of demo_dag) [''a'', ''b'', ''c'', ''d'', ''e'']"
proof -
  have wf: "dag_wf demo_dag" by (rule dag_valid_wf [OF demo_dag_valid])
  from topological_order_correct [OF this, of "[''a'', ''b'', ''c'', ''d'', ''e'']"] demo_dag_topo wf
  show ?thesis by (simp add: is_ok_def)
qed

text \<open>Determinism: the order depends only on the graph, not on how the planner listed it.
  Two graphs with the same task ids and the same dependencies of each task, in whatever
  listing, have the same topological order or are both rejected with the same error.\<close>

theorem topological_order_deterministic:
  assumes "dag_wf g" and "dag_wf h" and "id_set g = id_set h" and "deps_of g = deps_of h"
  shows "topological_order g = topological_order h"
proof (cases "is_ok (topological_order g)")
  case True
  then obtain xs where xs: "topological_order g = Inr xs" by (auto simp: is_ok_iff)
  with assms show ?thesis using topological_order_greedy by metis
next
  case False
  with assms have "\<not> is_ok (topological_order h)" by (simp add: topological_order_acyclic)
  with False show ?thesis
    using topological_order_cases [OF assms(1)] topological_order_cases [OF assms(2)]
    by (metis is_ok_simps(1))
qed

definition demo_dag_relisted :: task_dag where
  "demo_dag_relisted = \<lparr>tasks = [demo_node ''a'' [], demo_node ''e'' [], demo_node ''b'' [''a''],
     demo_node ''d'' [''c'', ''b''], demo_node ''c'' [''a'']]\<rparr>"

theorem topological_order_deterministic_witness:
  "topological_order demo_dag_relisted = topological_order demo_dag"
proof (rule topological_order_deterministic)
  have r: "TaskDAG (tasks demo_dag_relisted) = Inr demo_dag_relisted" by code_simp
  show "dag_wf demo_dag_relisted" by (rule dag_valid_wf [OF TaskDAG_valid [OF r]])
  show "dag_wf demo_dag" by (rule dag_valid_wf [OF demo_dag_valid])
  show ids: "id_set demo_dag_relisted = id_set demo_dag" by code_simp
  have "\<forall>t \<in> id_set demo_dag. deps_of demo_dag_relisted t = deps_of demo_dag t" by code_simp
  then show "deps_of demo_dag_relisted = deps_of demo_dag"
    using deps_of_outside ids by (metis ext)
qed

text \<open>On a graph that \<open>TaskDAG\<close> accepted, the breadth-first search returns exactly the
  tasks that transitively depend on a failed task and are not failed themselves, in
  topological order; unknown failed ids are rejected.\<close>

theorem blocked_task_ids_correct:
  assumes "TaskDAG raw = Inr dag"
  shows "blocked_task_ids dag F =
    (if F \<subseteq> id_set dag then Inr (filter (\<lambda>t. t \<in> downstream dag F - F) (topo dag))
     else Inl (ValueError ''unknown task ids: ''))"
  using blocked_task_ids_valid [OF TaskDAG_valid [OF assms]]
  by (simp add: blocked_task_ids_def validate_runtime_ids_def)

theorem blocked_task_ids_correct_witness:
  "blocked_task_ids demo_dag {''b''} = Inr [''d''] \<and>
   filter (\<lambda>t. t \<in> downstream demo_dag {''b''} - {''b''}) (topo demo_dag) = [''d'']"
proof -
  have b: "blocked_task_ids demo_dag {''b''} = Inr [''d'']" by code_simp
  have "{''b''} \<subseteq> id_set demo_dag" by (simp add: demo_dag_ids)
  with blocked_task_ids_correct [OF demo_dag_TaskDAG, of "{''b''}"] b show ?thesis by simp
qed

text \<open>On an accepted graph, when the completed and failed sets are consistent (known, disjoint,
  nothing completed downstream of a failure) the ready tasks are exactly the untouched ones
  whose dependencies are all completed, in topological order; in particular no ready task
  is downstream of a failed one.\<close>

theorem ready_task_ids_correct:
  assumes "TaskDAG raw = Inr dag" and "C \<subseteq> id_set dag" and "F \<subseteq> id_set dag"
    and "C \<inter> F = {}" and "C \<inter> downstream dag F = {}"
  shows "dag_ready_task_ids dag C F =
      Inr (filter (\<lambda>t. t \<notin> C \<union> F \<and> deps_of dag t \<subseteq> C) (topo dag)) \<and>
    {t \<in> id_set dag. t \<notin> C \<union> F \<and> deps_of dag t \<subseteq> C} \<inter> downstream dag F = {}"
proof -
  have "{t \<in> id_set dag. t \<notin> C \<union> F \<and> deps_of dag t \<subseteq> C} \<inter> downstream dag F = {}"
    using downstream_step assms(4,5) by blast
  with dag_ready_task_ids_valid [OF TaskDAG_valid [OF assms(1)] assms(2-5)] show ?thesis by simp
qed

theorem ready_task_ids_correct_witness:
  "dag_ready_task_ids demo_dag {''a''} {''b''} = Inr [''c'', ''e''] \<and>
   filter (\<lambda>t. t \<notin> {''a''} \<union> {''b''} \<and> deps_of demo_dag t \<subseteq> {''a''}) (topo demo_dag)
     = [''c'', ''e'']"
proof -
  have r: "dag_ready_task_ids demo_dag {''a''} {''b''} = Inr [''c'', ''e'']" by code_simp
  have d: "deps_of demo_dag ''a'' = {}" by code_simp
  have "dag_ready_task_ids demo_dag {''a''} {''b''} =
      Inr (filter (\<lambda>t. t \<notin> {''a''} \<union> {''b''} \<and> deps_of demo_dag t \<subseteq> {''a''}) (topo demo_dag))"
    by (rule ready_task_ids_correct [OF demo_dag_TaskDAG, THEN conjunct1])
       (use d downstream_step [of "''a''" demo_dag "{''b''}"] in \<open>auto simp: demo_dag_ids\<close>)
  with r show ?thesis by simp
qed

end
