(* ===== verification/Dag_Scheduler.thy ===== *)
theory Dag_Scheduler
  imports Task_Dag
begin

text \<open>
  The in-memory scheduler of one task graph (\<open>runtime/scheduler.py\<close>, \<open>models/scheduler.py\<close>).

  The scheduler object is the record \<open>scheduler\<close>: its graph, its state dictionary (a map whose
  keys are the graph's ids) and its event list. Every method is a function that returns the
  updated scheduler or the exception. \<open>sched_step\<close> is the transition relation a caller can
  drive, and the lemmas show its invariant: a task runs only after its dependencies
  succeeded, the blocked tasks are exactly those downstream of a failed one, the internal
  assertions never fire, a scheduler that is not finished has work to start or to wait for,
  and the event list replays to the state.
\<close>

section \<open>Data\<close>

datatype task_schedule_state =
  PENDING | READY | RUNNING | SUCCEEDED | FAILED | BLOCKED

record task_schedule_record =
  tsr_task_id :: task_id
  tsr_state :: task_schedule_state

record scheduler_event =
  se_sequence :: nat
  se_task_id :: task_id
  from_state :: task_schedule_state
  to_state :: task_schedule_state
  se_detail :: string

record scheduler_snapshot =
  snap_tasks :: "task_schedule_record list"
  snap_events :: "scheduler_event list"

definition SchedulerEvent :: "scheduler_event \<Rightarrow> scheduler_event res" where
  "SchedulerEvent e =
     (if \<not> (1 \<le> length (se_task_id e) \<and> length (se_task_id e) \<le> 128)
      then Inl (ValueError ''task_id'')
      else if \<not> (1 \<le> length (se_detail e) \<and> length (se_detail e) \<le> 2000)
      then Inl (ValueError ''detail'')
      else if from_state e = to_state e
      then Inl (ValueError ''scheduler events must represent a real state transition'')
      else Inr e)"

definition TaskScheduleRecord :: "task_schedule_record \<Rightarrow> task_schedule_record res" where
  "TaskScheduleRecord r =
     (if \<not> (1 \<le> length (tsr_task_id r) \<and> length (tsr_task_id r) \<le> 128)
      then Inl (ValueError ''task_id'') else Inr r)"

definition SchedulerSnapshot :: "scheduler_snapshot \<Rightarrow> scheduler_snapshot res" where
  "SchedulerSnapshot s =
     (if \<not> distinct (map tsr_task_id (snap_tasks s))
      then Inl (ValueError ''scheduler snapshot must contain each task exactly once'')
      else Inr s)"

definition TERMINAL_STATES :: "task_schedule_state set" where
  "TERMINAL_STATES = {SUCCEEDED, FAILED, BLOCKED}"

fun ALLOWED_TRANSITIONS :: "task_schedule_state \<Rightarrow> task_schedule_state set" where
  "ALLOWED_TRANSITIONS PENDING = {READY, BLOCKED}"
| "ALLOWED_TRANSITIONS READY = {RUNNING}"
| "ALLOWED_TRANSITIONS RUNNING = {SUCCEEDED, FAILED}"
| "ALLOWED_TRANSITIONS SUCCEEDED = {}"
| "ALLOWED_TRANSITIONS FAILED = {}"
| "ALLOWED_TRANSITIONS BLOCKED = {}"

section \<open>The scheduler object\<close>

record scheduler =
  dag :: task_dag
  states :: "task_id \<rightharpoonup> task_schedule_state"
  events :: "scheduler_event list"

definition require_task :: "scheduler \<Rightarrow> task_id \<Rightarrow> task_schedule_state res" where
  "require_task s t =
     (case states s t of None \<Rightarrow> Inl (KeyError ''unknown task id'') | Some st \<Rightarrow> Inr st)"

definition require_state :: "scheduler \<Rightarrow> task_id \<Rightarrow> task_schedule_state \<Rightarrow> unit res" where
  "require_state s t expected =
     bind_res (require_task s t) (\<lambda>current.
       if current \<noteq> expected
       then Inl (ValueError ''task must be in another state before this transition'')
       else Inr ())"

definition task_ids_with_state :: "scheduler \<Rightarrow> task_schedule_state \<Rightarrow> task_id set" where
  "task_ids_with_state s st = set (filter (\<lambda>t. states s t = Some st) (task_ids (dag s)))"

definition transition :: "scheduler \<Rightarrow> task_id \<Rightarrow> task_schedule_state \<Rightarrow> string \<Rightarrow> scheduler res" where
  "transition s t next_state detail =
     bind_res (require_task s t) (\<lambda>current.
       if next_state \<notin> ALLOWED_TRANSITIONS current
       then Inl (ValueError ''invalid DAG scheduler transition'')
       else bind_res (SchedulerEvent
           \<lparr>se_sequence = length (events s), se_task_id = t, from_state = current,
            to_state = next_state, se_detail = detail\<rparr>)
         (\<lambda>e. Inr (s\<lparr>states := (states s)(t \<mapsto> next_state), events := events s @ [e]\<rparr>)))"

text \<open>The loop body of \<open>_refresh_ready\<close>: move a task that is in \<open>frm\<close> and skip any other.\<close>

definition move_from ::
  "task_schedule_state \<Rightarrow> task_schedule_state \<Rightarrow> string \<Rightarrow> task_id \<Rightarrow> scheduler \<Rightarrow> scheduler res" where
  "move_from frm next_state detail t s =
     (if states s t \<noteq> Some frm then Inr s else transition s t next_state detail)"

definition refresh_ready :: "string \<Rightarrow> scheduler \<Rightarrow> scheduler res" where
  "refresh_ready detail s =
     bind_res (dag_ready_task_ids (dag s) (task_ids_with_state s SUCCEEDED)
         (task_ids_with_state s FAILED))
       (\<lambda>ready. fold_res (move_from PENDING READY detail) ready s)"

definition DAGScheduler :: "task_dag \<Rightarrow> scheduler res" where
  "DAGScheduler g =
     refresh_ready ''All dependencies are satisfied at scheduler initialization.''
       \<lparr>dag = g, states = map_of (map (\<lambda>t. (t, PENDING)) (task_ids g)), events = []\<rparr>"

definition is_terminal :: "scheduler \<Rightarrow> bool" where
  "is_terminal s = list_all (\<lambda>t. the (states s t) \<in> TERMINAL_STATES) (task_ids (dag s))"

definition task_ids_in_state :: "scheduler \<Rightarrow> task_schedule_state \<Rightarrow> task_id list res" where
  "task_ids_in_state s st =
     bind_res (topological_order (dag s)) (\<lambda>order.
       Inr (filter (\<lambda>t. states s t = Some st) order))"

definition sched_ready_task_ids :: "scheduler \<Rightarrow> task_id list res" where
  "sched_ready_task_ids s = task_ids_in_state s READY"

definition sched_start :: "scheduler \<Rightarrow> task_id \<Rightarrow> scheduler res" where
  "sched_start s t =
     bind_res (require_state s t READY) (\<lambda>_. transition s t RUNNING ''Task execution started.'')"

definition sched_succeed :: "scheduler \<Rightarrow> task_id \<Rightarrow> scheduler res" where
  "sched_succeed s t =
     bind_res (require_state s t RUNNING) (\<lambda>_.
     bind_res (transition s t SUCCEEDED ''Task execution completed successfully.'')
       (refresh_ready (''Dependencies satisfied after '' @ t @ '' succeeded.'')))"

definition assert_blockable :: "scheduler \<Rightarrow> task_id set \<Rightarrow> unit res" where
  "assert_blockable s blocked =
     (if \<exists>t \<in> blocked. the (states s t) \<notin> {PENDING, BLOCKED}
      then Inl (RuntimeError ''scheduler invariant violation: failed dependency would block a ready/active/terminal task: '')
      else Inr ())"

definition block_task :: "task_id set \<Rightarrow> task_id \<Rightarrow> scheduler \<Rightarrow> scheduler res" where
  "block_task blocked t s =
     (if t \<notin> blocked then Inr s
      else if states s t = Some BLOCKED then Inr s
      else transition s t BLOCKED ''Blocked by a failed upstream dependency.'')"

definition sched_fail :: "scheduler \<Rightarrow> task_id \<Rightarrow> scheduler res" where
  "sched_fail s t =
     bind_res (require_state s t RUNNING) (\<lambda>_.
     bind_res (blocked_task_ids (dag s) (task_ids_with_state s FAILED \<union> {t})) (\<lambda>blocked.
     bind_res (assert_blockable s (set blocked)) (\<lambda>_.
     bind_res (transition s t FAILED ''Task execution failed.'') (\<lambda>s'.
     bind_res (topological_order (dag s')) (\<lambda>order.
       fold_res (block_task (set blocked)) order s')))))"

definition snapshot :: "scheduler \<Rightarrow> scheduler_snapshot res" where
  "snapshot s =
     bind_res (topological_order (dag s)) (\<lambda>order.
     bind_res (map_res (\<lambda>t. bind_res (require_task s t) (\<lambda>st.
         TaskScheduleRecord \<lparr>tsr_task_id = t, tsr_state = st\<rparr>)) order) (\<lambda>records.
       SchedulerSnapshot \<lparr>snap_tasks = records, snap_events = events s\<rparr>))"

lemmas [exec_defs] = SchedulerEvent_def TaskScheduleRecord_def SchedulerSnapshot_def
  TERMINAL_STATES_def require_task_def require_state_def task_ids_with_state_def transition_def
  move_from_def refresh_ready_def DAGScheduler_def is_terminal_def task_ids_in_state_def
  sched_start_def sched_succeed_def assert_blockable_def block_task_def sched_fail_def snapshot_def

section \<open>Runs\<close>

inductive sched_init :: "scheduler \<Rightarrow> bool" where
  "TaskDAG raw = Inr g \<Longrightarrow> DAGScheduler g = Inr s \<Longrightarrow> sched_init s"

inductive sched_step :: "scheduler \<Rightarrow> scheduler \<Rightarrow> bool" where
  step_start: "sched_start s t = Inr s' \<Longrightarrow> sched_step s s'"
| step_succeed: "sched_succeed s t = Inr s' \<Longrightarrow> sched_step s s'"
| step_fail: "sched_fail s t = Inr s' \<Longrightarrow> sched_step s s'"

inductive_cases sched_stepE: "sched_step s s'"

section \<open>Single transitions and loops\<close>

definition detail_ok :: "string \<Rightarrow> bool" where
  "detail_ok d \<longleftrightarrow> 1 \<le> length d \<and> length d \<le> 2000"

definition id_ok :: "task_id \<Rightarrow> bool" where
  "id_ok t \<longleftrightarrow> 1 \<le> length t \<and> length t \<le> 128"

lemma detail_ok_literals [simp]:
  "detail_ok ''Task execution started.''"
  "detail_ok ''Task execution completed successfully.''"
  "detail_ok ''Task execution failed.''"
  "detail_ok ''Blocked by a failed upstream dependency.''"
  "detail_ok ''All dependencies are satisfied at scheduler initialization.''"
  by (simp_all add: detail_ok_def)

lemma detail_ok_succeeded:
  "id_ok t \<Longrightarrow> detail_ok (''Dependencies satisfied after '' @ t @ '' succeeded.'')"
  by (simp add: detail_ok_def id_ok_def)

lemma allowed_distinct: "n \<in> ALLOWED_TRANSITIONS c \<Longrightarrow> n \<noteq> c"
  by (cases c) auto

lemma transition_ok:
  assumes "states s t = Some c" and "n \<in> ALLOWED_TRANSITIONS c" and "id_ok t" and "detail_ok d"
  shows "transition s t n d = Inr (s\<lparr>states := (states s)(t \<mapsto> n), events := events s @
    [\<lparr>se_sequence = length (events s), se_task_id = t, from_state = c, to_state = n, se_detail = d\<rparr>]\<rparr>)"
  using assms allowed_distinct [OF assms(2)]
  by (simp add: transition_def require_task_def SchedulerEvent_def id_ok_def detail_ok_def)

lemma transition_exists:
  assumes "states s t = Some c" and "n \<in> ALLOWED_TRANSITIONS c" and "id_ok t" and "detail_ok d"
  obtains s' where "transition s t n d = Inr s'" and "states s' = (states s)(t \<mapsto> n)" and "dag s' = dag s"
  using transition_ok [OF assms] by simp

lemma transition_Inr:
  assumes "transition s t n d = Inr s'"
  obtains c where "states s t = Some c" and "n \<in> ALLOWED_TRANSITIONS c" and "s' = s\<lparr>states := (states s)(t \<mapsto> n),
    events := events s @ [\<lparr>se_sequence = length (events s), se_task_id = t, from_state = c,
      to_state = n, se_detail = d\<rparr>]\<rparr>"
  using assms
  by (auto simp: transition_def require_task_def SchedulerEvent_def bind_res_eq_Inr
      split: option.splits if_splits)

lemma require_state_iff: "require_state s t st = Inr u \<longleftrightarrow> states s t = Some st"
  by (auto simp: require_state_def require_task_def bind_res_eq_Inr split: option.splits if_splits)

lemma fold_move:
  assumes "n \<in> ALLOWED_TRANSITIONS frm" and "detail_ok d" and "\<forall>t \<in> set xs. id_ok t"
  shows "\<exists>s'. fold_res (move_from frm n d) xs s = Inr s' \<and> dag s' = dag s \<and>
    states s' = (\<lambda>t. if t \<in> set xs \<and> states s t = Some frm then Some n else states s t)"
  using assms(3)
proof (induction xs arbitrary: s)
  case (Cons x xs)
  show ?case
  proof (cases "states s x = Some frm")
    case True
    obtain s1 where s1: "transition s x n d = Inr s1" "dag s1 = dag s"
        "states s1 = (states s)(x \<mapsto> n)"
      using transition_ok [of s x frm n d] True assms(1,2) Cons.prems by auto
    with True Cons.IH [of s1] Cons.prems allowed_distinct [OF assms(1)] show ?thesis
      by (auto simp: move_from_def fun_eq_iff)
  next
    case False
    then have "move_from frm n d x s = Inr s" by (simp add: move_from_def)
    with False Cons.IH [of s] Cons.prems show ?thesis by (auto simp: fun_eq_iff)
  qed
qed auto

lemma fold_block:
  assumes "\<forall>t \<in> set xs. id_ok t" and "\<forall>t \<in> B. states s t \<in> {Some PENDING, Some BLOCKED}"
  shows "\<exists>s'. fold_res (block_task B) xs s = Inr s' \<and> dag s' = dag s \<and>
    states s' = (\<lambda>t. if t \<in> set xs \<inter> B then Some BLOCKED else states s t)"
  using assms
proof (induction xs arbitrary: s)
  case (Cons x xs)
  show ?case
  proof (cases "x \<in> B \<and> states s x = Some PENDING")
    case True
    obtain s1 where s1: "block_task B x s = Inr s1" "dag s1 = dag s"
        "states s1 = (states s)(x \<mapsto> BLOCKED)"
      using transition_ok [of s x PENDING BLOCKED, OF _ _ _ detail_ok_literals(4)] True Cons.prems
      by (auto simp: block_task_def)
    moreover have "\<forall>t \<in> B. states s1 t \<in> {Some PENDING, Some BLOCKED}"
      using Cons.prems(2) s1(3) by auto
    ultimately show ?thesis using Cons.IH [of s1] Cons.prems True by (auto simp: fun_eq_iff)
  next
    case False
    then have "block_task B x s = Inr s" and "x \<in> B \<Longrightarrow> states s x = Some BLOCKED"
      using Cons.prems(2) by (auto simp: block_task_def)
    with Cons.IH [of s] Cons.prems show ?thesis by (auto simp: fun_eq_iff)
  qed
qed auto

section \<open>The event log\<close>

fun apply_event :: "scheduler_event \<Rightarrow> (task_id \<rightharpoonup> task_schedule_state) option
    \<Rightarrow> (task_id \<rightharpoonup> task_schedule_state) option" where
  "apply_event e None = None"
| "apply_event e (Some m) =
     (if m (se_task_id e) = Some (from_state e) \<and> to_state e \<in> ALLOWED_TRANSITIONS (from_state e)
      then Some (m(se_task_id e \<mapsto> to_state e)) else None)"

definition replay :: "task_dag \<Rightarrow> scheduler_event list \<Rightarrow> (task_id \<rightharpoonup> task_schedule_state) option" where
  "replay g es = fold apply_event es (Some (map_of (map (\<lambda>t. (t, PENDING)) (task_ids g))))"

definition log_inv :: "scheduler \<Rightarrow> bool" where
  "log_inv s \<longleftrightarrow> map se_sequence (events s) = [0..<length (events s)] \<and>
     replay (dag s) (events s) = Some (states s)"

lemma transition_log:
  assumes "transition s t n d = Inr s'"
  shows "log_inv s \<Longrightarrow> log_inv s'" and "dag s' = dag s"
    and "length (events s') = Suc (length (events s))"
proof -
  obtain c where "states s t = Some c" "n \<in> ALLOWED_TRANSITIONS c" "s' = s\<lparr>states := (states s)(t \<mapsto> n),
    events := events s @ [\<lparr>se_sequence = length (events s), se_task_id = t, from_state = c,
      to_state = n, se_detail = d\<rparr>]\<rparr>"
    by (rule transition_Inr [OF assms])
  then show "log_inv s \<Longrightarrow> log_inv s'" "dag s' = dag s"
    "length (events s') = Suc (length (events s))"
    by (auto simp: log_inv_def replay_def)
qed

definition extends :: "scheduler \<Rightarrow> scheduler \<Rightarrow> bool" where
  "extends s s' \<longleftrightarrow> (log_inv s \<longrightarrow> log_inv s') \<and> dag s' = dag s \<and>
     length (events s) \<le> length (events s')"

lemma extends_refl [simp]: "extends s s"
  by (simp add: extends_def)

lemma extends_trans: "extends s t \<Longrightarrow> extends t u \<Longrightarrow> extends s u"
  by (auto simp: extends_def)

lemma transition_extends: "transition s t n d = Inr s' \<Longrightarrow> extends s s'"
  using transition_log by (auto simp: extends_def)

lemma fold_extends:
  assumes "fold_res f xs s = Inr s'" and "\<And>x s s'. f x s = Inr s' \<Longrightarrow> extends s s'"
  shows "extends s s'"
  by (rule fold_res_invariant [OF assms(1), where P = "extends s"])
     (use assms(2) extends_trans in \<open>auto\<close>)

lemma refresh_extends: "refresh_ready d s = Inr s' \<Longrightarrow> extends s s'"
  by (auto simp: refresh_ready_def bind_res_eq_Inr move_from_def split: if_splits
      elim!: fold_extends dest: transition_extends)

lemma step_extends:
  assumes "sched_step s s'"
  shows "extends s s' \<and> length (events s) < length (events s')"
  using assms
proof (cases rule: sched_step.cases)
  case (step_start t)
  then show ?thesis
    using transition_log transition_extends by (fastforce simp: sched_start_def bind_res_eq_Inr)
next
  case (step_succeed t)
  then obtain s1 where "transition s t SUCCEEDED ''Task execution completed successfully.'' = Inr s1"
    "refresh_ready (''Dependencies satisfied after '' @ t @ '' succeeded.'') s1 = Inr s'"
    by (auto simp: sched_succeed_def bind_res_eq_Inr)
  then show ?thesis
    using transition_log(3) transition_extends refresh_extends extends_trans
    by (fastforce simp: extends_def)
next
  case (step_fail t)
  then obtain s1 B order where
    s1: "transition s t FAILED ''Task execution failed.'' = Inr s1" and
    f: "fold_res (block_task B) order s1 = Inr s'"
    by (auto simp: sched_fail_def bind_res_eq_Inr)
  have "extends s1 s'"
    by (rule fold_extends [OF f]) (auto simp: block_task_def split: if_splits dest: transition_extends)
  with s1 show ?thesis
    using transition_log(3) transition_extends extends_trans by (fastforce simp: extends_def)
qed

section \<open>The dependency invariant\<close>

abbreviation in_state :: "(task_id \<rightharpoonup> task_schedule_state) \<Rightarrow> task_schedule_state \<Rightarrow> task_id set" where
  "in_state m st \<equiv> {t. m t = Some st}"

definition core_inv :: "task_dag \<Rightarrow> (task_id \<rightharpoonup> task_schedule_state) \<Rightarrow> bool" where
  "core_inv g m \<longleftrightarrow> dom m = id_set g \<and>
     (\<forall>t. m t \<in> {Some READY, Some RUNNING, Some SUCCEEDED, Some FAILED} \<longrightarrow>
        deps_of g t \<subseteq> in_state m SUCCEEDED) \<and>
     in_state m BLOCKED = downstream g (in_state m FAILED)"

definition settled :: "task_dag \<Rightarrow> (task_id \<rightharpoonup> task_schedule_state) \<Rightarrow> bool" where
  "settled g m \<longleftrightarrow> (\<forall>t \<in> in_state m PENDING. \<not> deps_of g t \<subseteq> in_state m SUCCEEDED)"

definition sched_inv :: "scheduler \<Rightarrow> bool" where
  "sched_inv s \<longleftrightarrow> dag_valid (dag s) \<and> log_inv s \<and> core_inv (dag s) (states s) \<and>
     settled (dag s) (states s)"

lemma in_state_ids: "core_inv g m \<Longrightarrow> in_state m st \<subseteq> id_set g"
  by (auto simp: core_inv_def)

lemma core_inv_dom: "core_inv g m \<Longrightarrow> t \<in> id_set g \<longleftrightarrow> (\<exists>st. m t = Some st)"
  unfolding core_inv_def by (metis domD domI)

lemma core_invI:
  assumes "dom m = id_set g"
    and "\<And>t. m t \<in> {Some READY, Some RUNNING, Some SUCCEEDED, Some FAILED} \<Longrightarrow>
      deps_of g t \<subseteq> in_state m SUCCEEDED"
    and "in_state m BLOCKED = downstream g (in_state m FAILED)"
  shows "core_inv g m"
  using assms unfolding core_inv_def by blast

lemma core_inv_active:
  "core_inv g m \<Longrightarrow> m t \<in> {Some READY, Some RUNNING, Some SUCCEEDED, Some FAILED} \<Longrightarrow>
   deps_of g t \<subseteq> in_state m SUCCEEDED"
  unfolding core_inv_def by blast

lemma with_state_core:
  "core_inv (dag s) (states s) \<Longrightarrow> task_ids_with_state s st = in_state (states s) st"
  by (auto simp: task_ids_with_state_def core_inv_def)

lemma downstream_empty [simp]: "downstream g {} = {}"
  by (simp add: downstream_def)

lemma refresh_spec:
  assumes "dag_valid (dag s)" and core: "core_inv (dag s) (states s)" and "detail_ok d"
  obtains s' where "refresh_ready d s = Inr s'" and "dag s' = dag s"
    and "states s' = (\<lambda>t. if states s t = Some PENDING \<and> deps_of (dag s) t \<subseteq> in_state (states s) SUCCEEDED
      then Some READY else states s t)"
proof -
  let ?S = "in_state (states s) SUCCEEDED" and ?F = "in_state (states s) FAILED"
  let ?ready = "filter (\<lambda>t. t \<notin> ?S \<union> ?F \<and> deps_of (dag s) t \<subseteq> ?S) (topo (dag s))"
  have "downstream (dag s) ?F = in_state (states s) BLOCKED" using core by (simp add: core_inv_def)
  then have "?S \<inter> downstream (dag s) ?F = {}" by auto
  moreover have "?S \<inter> ?F = {}" by auto
  ultimately have "dag_ready_task_ids (dag s) ?S ?F = Inr ?ready"
    using in_state_ids [OF core] by (intro dag_ready_task_ids_valid assms(1))
  then have r: "refresh_ready d s = fold_res (move_from PENDING READY d) ?ready s"
    by (simp add: refresh_ready_def with_state_core [OF core])
  have ids: "set (topo (dag s)) = id_set (dag s)" by (rule dag_valid_topo(3) [OF assms(1)])
  have "\<forall>t \<in> set ?ready. id_ok t"
    using dag_valid_id_length [OF assms(1)] ids by (auto simp: id_ok_def)
  from fold_move [OF _ assms(3) this, of READY PENDING s] r
  obtain s' where s': "refresh_ready d s = Inr s'" "dag s' = dag s"
    "states s' = (\<lambda>t. if t \<in> set ?ready \<and> states s t = Some PENDING then Some READY else states s t)"
    by auto
  have "t \<in> set ?ready \<longleftrightarrow> deps_of (dag s) t \<subseteq> ?S" if "states s t = Some PENDING" for t
    using that ids core by (auto simp: core_inv_def)
  then have "states s' = (\<lambda>t. if states s t = Some PENDING \<and> deps_of (dag s) t \<subseteq> ?S
      then Some READY else states s t)"
    unfolding s'(3) by (auto simp: fun_eq_iff)
  with s' that show thesis by blast
qed

lemma promote_inv:
  assumes "core_inv g m"
  defines "m' \<equiv> \<lambda>t. if m t = Some PENDING \<and> deps_of g t \<subseteq> in_state m SUCCEEDED
    then Some READY else m t"
  shows "core_inv g m'" and "settled g m'"
proof -
  have same: "in_state m' SUCCEEDED = in_state m SUCCEEDED" "in_state m' FAILED = in_state m FAILED"
    "in_state m' BLOCKED = in_state m BLOCKED"
    by (auto simp: m'_def)
  have "dom m' = dom m" by (auto simp: m'_def split: if_splits)
  with assms(1) same show "core_inv g m'" unfolding core_inv_def by (auto simp: m'_def)
  show "settled g m'" using same by (auto simp: settled_def m'_def split: if_splits)
qed

lemma refresh_inv:
  assumes "dag_valid (dag s)" and "core_inv (dag s) (states s)" and "log_inv s" and "detail_ok d"
  shows "\<exists>s'. refresh_ready d s = Inr s' \<and> sched_inv s' \<and> dag s' = dag s"
proof -
  obtain s' where s': "refresh_ready d s = Inr s'" "dag s' = dag s"
    "states s' = (\<lambda>t. if states s t = Some PENDING \<and> deps_of (dag s) t \<subseteq> in_state (states s) SUCCEEDED
      then Some READY else states s t)"
    by (rule refresh_spec [OF assms(1,2,4)])
  moreover have "log_inv s'" using refresh_extends [OF s'(1)] assms(3) by (simp add: extends_def)
  ultimately show ?thesis
    using promote_inv [OF assms(2)] assms(1) by (auto simp: sched_inv_def)
qed

lemma DAGScheduler_inv:
  assumes "dag_valid g"
  shows "\<exists>s. DAGScheduler g = Inr s \<and> sched_inv s \<and> dag s = g"
proof -
  let ?m = "map_of (map (\<lambda>t. (t, PENDING)) (task_ids g))"
  let ?s = "\<lparr>dag = g, states = ?m, events = []\<rparr>"
  have m: "?m t = (if t \<in> id_set g then Some PENDING else None)" for t
    by (simp add: map_of_map_restrict)
  have "core_inv g ?m" unfolding core_inv_def by (auto simp: m split: if_splits)
  then show ?thesis
    using refresh_inv [of ?s] assms by (simp add: DAGScheduler_def log_inv_def replay_def)
qed

lemma start_inv:
  assumes inv: "sched_inv s" and "states s t = Some READY"
  shows "\<exists>s'. sched_start s t = Inr s' \<and> sched_inv s' \<and> dag s' = dag s"
proof -
  have t: "t \<in> id_set (dag s)" using assms by (auto simp: sched_inv_def core_inv_def)
  then have "id_ok t" using dag_valid_id_length inv by (auto simp: sched_inv_def id_ok_def)
  with assms(2) obtain s' where tr: "transition s t RUNNING ''Task execution started.'' = Inr s'"
      and st: "states s' = (states s)(t \<mapsto> RUNNING)" and dg: "dag s' = dag s"
    by (auto elim: transition_exists [where d = "''Task execution started.''" and n = RUNNING])
  have res: "sched_start s t = Inr s'"
    using tr assms(2) require_state_iff [of s t READY "()"] by (simp add: sched_start_def)
  have same: "in_state (states s') st = in_state (states s) st" if "st \<notin> {READY, RUNNING}" for st
    using that assms(2) st by auto
  have "core_inv (dag s) (states s')"
    using inv assms(2) t same unfolding sched_inv_def core_inv_def st by (auto split: if_splits)
  moreover have "settled (dag s) (states s')"
    using inv same by (auto simp: sched_inv_def settled_def)
  moreover have "log_inv s'" using transition_log(1) [OF tr] inv by (auto simp: sched_inv_def)
  ultimately show ?thesis using res dg inv by (auto simp: sched_inv_def)
qed

lemma sched_inv_id_ok: "sched_inv s \<Longrightarrow> states s t = Some st \<Longrightarrow> t \<in> id_set (dag s) \<and> id_ok t"
  using dag_valid_id_length [of "dag s" t] domI [of "states s" t st]
  by (simp add: sched_inv_def core_inv_def id_ok_def)

lemma succeed_inv:
  assumes inv: "sched_inv s" and run: "states s t = Some RUNNING"
  shows "\<exists>s'. sched_succeed s t = Inr s' \<and> sched_inv s' \<and> dag s' = dag s"
proof -
  have t: "t \<in> id_set (dag s)" "id_ok t" using sched_inv_id_ok [OF inv run] by auto
  with run obtain s1 where
      tr: "transition s t SUCCEEDED ''Task execution completed successfully.'' = Inr s1"
      and st: "states s1 = (states s)(t \<mapsto> SUCCEEDED)" and dg: "dag s1 = dag s"
    by (auto elim: transition_exists
        [where d = "''Task execution completed successfully.''" and n = SUCCEEDED])
  have same: "in_state (states s1) SUCCEEDED = insert t (in_state (states s) SUCCEEDED)"
    "in_state (states s1) FAILED = in_state (states s) FAILED"
    "in_state (states s1) BLOCKED = in_state (states s) BLOCKED"
    using run by (auto simp: st)
  have core: "core_inv (dag s) (states s)" using inv by (simp add: sched_inv_def)
  have "core_inv (dag s1) (states s1)"
  proof (rule core_invI)
    show "dom (states s1) = id_set (dag s1)" using core t(1) by (auto simp: core_inv_def st dg)
    show "in_state (states s1) BLOCKED = downstream (dag s1) (in_state (states s1) FAILED)"
      using core unfolding same dg by (simp add: core_inv_def)
    fix u assume "states s1 u \<in> {Some READY, Some RUNNING, Some SUCCEEDED, Some FAILED}"
    then have "states s u \<in> {Some READY, Some RUNNING, Some SUCCEEDED, Some FAILED}"
      using run by (cases "u = t") (auto simp: st)
    then show "deps_of (dag s1) u \<subseteq> in_state (states s1) SUCCEEDED"
      using core_inv_active [OF core] unfolding same dg by blast
  qed
  moreover have "log_inv s1" using transition_log(1) [OF tr] inv by (simp add: sched_inv_def)
  ultimately obtain s' where
      "refresh_ready (''Dependencies satisfied after '' @ t @ '' succeeded.'') s1 = Inr s'"
      "sched_inv s'" "dag s' = dag s"
    using refresh_inv [of s1, OF _ _ _ detail_ok_succeeded [OF t(2)]] inv dg
    by (auto simp: sched_inv_def)
  with tr run show ?thesis
    using require_state_iff [of s t RUNNING "()"] by (auto simp: sched_succeed_def)
qed

text \<open>Nothing downstream of a task that has not succeeded can be active.\<close>

lemma downstream_inactive:
  assumes core: "core_inv g m" and "F \<inter> in_state m SUCCEEDED = {}" and "u \<in> downstream g F"
  shows "m u \<in> {Some PENDING, Some BLOCKED}"
proof -
  have act: "m v \<in> {Some PENDING, Some BLOCKED}"
    if v: "v \<in> id_set g" "\<not> deps_of g v \<subseteq> in_state m SUCCEEDED" for v
  proof -
    obtain st where "m v = Some st" using v(1) core_inv_dom [OF core] by auto
    with v(2) core_inv_active [OF core, of v] show ?thesis by (cases st) auto
  qed
  from assms(3) obtain f where "f \<in> F" "(f, u) \<in> (edges (id_set g) (deps_of g))\<^sup>+"
    by (auto simp: downstream_def)
  from this(2) show ?thesis
  proof (induction rule: trancl_induct)
    case (base v)
    then show ?case using act [of v] assms(2) \<open>f \<in> F\<close> by (auto simp: edges_def)
  next
    case (step v w)
    then have "v \<notin> in_state m SUCCEEDED" by auto
    then show ?case using act [of w] step(2) by (auto simp: edges_def)
  qed
qed

lemma fail_inv:
  assumes inv: "sched_inv s" and run: "states s t = Some RUNNING"
  shows "\<exists>s'. sched_fail s t = Inr s' \<and> sched_inv s' \<and> dag s' = dag s \<and>
    states s' = (\<lambda>u. if u \<in> downstream (dag s) (insert t (in_state (states s) FAILED)) then Some BLOCKED
      else ((states s)(t \<mapsto> FAILED)) u)"
proof -
  let ?g = "dag s" and ?m = "states s"
  let ?F = "insert t (in_state ?m FAILED)"
  let ?D = "downstream ?g ?F"
  have valid: "dag_valid ?g" and core: "core_inv ?g ?m" and log: "log_inv s"
    and sett: "settled ?g ?m" using inv by (auto simp: sched_inv_def)
  have t: "t \<in> id_set ?g" "id_ok t" using sched_inv_id_ok [OF inv run] by auto
  have disj: "?F \<inter> in_state ?m SUCCEEDED = {}" using run by auto
  note inact = downstream_inactive [OF core disj]
  then have FD: "?F \<inter> ?D = {}" using run by fastforce
  have B: "blocked_task_ids ?g (task_ids_with_state s FAILED \<union> {t}) =
      Inr (filter (\<lambda>u. u \<in> ?D - ?F) (topo ?g))"
    using blocked_task_ids_valid [OF valid, of ?F] t(1) in_state_ids [OF core]
    by (simp add: with_state_core [OF core])
  define B where "B = set (filter (\<lambda>u. u \<in> ?D - ?F) (topo ?g))"
  have BD: "B = ?D"
    using FD downstream_subset dag_valid_topo(3) [OF valid] by (auto simp: B_def)
  have chk: "assert_blockable s B = Inr ()"
    using inact unfolding BD by (fastforce simp: assert_blockable_def)
  from run t(2) obtain s1 where tr: "transition s t FAILED ''Task execution failed.'' = Inr s1"
      and st: "states s1 = ?m(t \<mapsto> FAILED)" and dg: "dag s1 = ?g"
    by (auto elim: transition_exists [where d = "''Task execution failed.''" and n = FAILED])
  have "\<forall>u \<in> set (topo ?g). id_ok u"
    using dag_valid_id_length [OF valid] dag_valid_topo(3) [OF valid] by (auto simp: id_ok_def)
  moreover have "\<forall>u \<in> B. states s1 u \<in> {Some PENDING, Some BLOCKED}"
    using inact FD unfolding BD st by auto
  ultimately obtain s' where f: "fold_res (block_task B) (topo ?g) s1 = Inr s'" "dag s' = ?g"
      "states s' = (\<lambda>u. if u \<in> set (topo ?g) \<inter> B then Some BLOCKED else states s1 u)"
    using fold_block [of "topo ?g" B s1] dg by auto
  have m': "states s' = (\<lambda>u. if u \<in> ?D then Some BLOCKED else (?m(t \<mapsto> FAILED)) u)"
    unfolding f(3) st BD using downstream_subset dag_valid_topo(3) [OF valid] by (auto simp: fun_eq_iff)
  have res: "sched_fail s t = Inr s'"
    using run require_state_iff [of s t RUNNING "()"] B chk tr f(1) dag_valid_topo(1) [OF valid] dg
    by (simp add: sched_fail_def B_def)
  have "in_state (states s') FAILED = ?F - ?D" unfolding m' by auto
  then have F': "in_state (states s') FAILED = ?F" using FD by blast
  have "in_state ?m SUCCEEDED \<inter> ?D = {}" using inact by fastforce
  moreover have "in_state (states s') SUCCEEDED = in_state ?m SUCCEEDED - ?D"
    unfolding m' using run by auto
  ultimately have S': "in_state (states s') SUCCEEDED = in_state ?m SUCCEEDED" by blast
  note sets = F' S'
  have "in_state ?m BLOCKED \<subseteq> ?D"
    using core by (auto simp: core_inv_def downstream_def)
  then have blk: "in_state (states s') BLOCKED = ?D" using run unfolding m' by auto
  have "dom (states s') = insert t (dom ?m) \<union> ?D" unfolding m' by (auto split: if_splits)
  moreover have "dom ?m = id_set ?g" using core by (simp add: core_inv_def)
  ultimately have "dom (states s') = insert t (id_set ?g) \<union> ?D" by simp
  then have "dom (states s') = id_set ?g"
    using t(1) downstream_subset [of ?g ?F] by (simp add: insert_absorb Un_absorb2)
  moreover have "deps_of ?g u \<subseteq> in_state ?m SUCCEEDED"
    if "states s' u \<in> {Some READY, Some RUNNING, Some SUCCEEDED, Some FAILED}" for u
  proof (rule core_inv_active [OF core])
    show "?m u \<in> {Some READY, Some RUNNING, Some SUCCEEDED, Some FAILED}"
      using that run unfolding m' by (auto split: if_splits)
  qed
  ultimately have "core_inv ?g (states s')"
    using sets blk by (intro core_invI) auto
  moreover have "settled ?g (states s')"
    using sett sets unfolding settled_def m' by (auto split: if_splits)
  moreover have "log_inv s'"
    using step_extends [OF step_fail [OF res]] log by (simp add: extends_def)
  ultimately show ?thesis using res f(2) valid m' by (auto simp: sched_inv_def)
qed

lemma sched_step_inv:
  assumes "sched_inv s" and "sched_step s s'"
  shows "sched_inv s' \<and> dag s' = dag s"
  using assms(2)
proof (cases rule: sched_step.cases)
  case (step_start t)
  then have "states s t = Some READY" by (auto simp: sched_start_def bind_res_eq_Inr require_state_iff)
  with start_inv [OF assms(1)] step_start show ?thesis by fastforce
next
  case (step_succeed t)
  then have "states s t = Some RUNNING" by (auto simp: sched_succeed_def bind_res_eq_Inr require_state_iff)
  with succeed_inv [OF assms(1)] step_succeed show ?thesis by fastforce
next
  case (step_fail t)
  then have "states s t = Some RUNNING" by (auto simp: sched_fail_def bind_res_eq_Inr require_state_iff)
  with fail_inv [OF assms(1)] step_fail show ?thesis by fastforce
qed

interpretation sched: transition_system sched_init sched_step sched_inv
proof unfold_locales
  fix s assume "sched_init s"
  then show "sched_inv s"
    by (cases rule: sched_init.cases) (use DAGScheduler_inv TaskDAG_valid in fastforce)
next
  fix s t assume "sched_inv s" "sched_step s t"
  then show "sched_inv t" using sched_step_inv by blast
qed

lemmas [inv_rules] = DAGScheduler_inv start_inv succeed_inv fail_inv refresh_inv

section \<open>Progress and bounds\<close>

fun rank :: "task_schedule_state \<Rightarrow> nat" where
  "rank PENDING = 0"
| "rank READY = 1"
| "rank RUNNING = 2"
| "rank SUCCEEDED = 3"
| "rank FAILED = 3"
| "rank BLOCKED = 3"

lemma rank_le: "rank st \<le> 3"
  by (cases st) auto

lemma rank_allowed: "n \<in> ALLOWED_TRANSITIONS c \<Longrightarrow> rank c < rank n"
  by (cases c) auto

definition total_rank :: "task_id list \<Rightarrow> (task_id \<rightharpoonup> task_schedule_state) \<Rightarrow> nat" where
  "total_rank ids m = (\<Sum>t \<leftarrow> ids. rank (the (m t)))"

lemma total_rank_update:
  assumes "t \<in> set ids" and "distinct ids"
  shows "total_rank ids (m(t \<mapsto> n)) + rank (the (m t)) = total_rank ids m + rank n"
  using assms
proof (induction ids)
  case (Cons x ids)
  show ?case
  proof (cases "x = t")
    case True
    then have "map (\<lambda>u. rank (the ((m(t \<mapsto> n)) u))) ids = map (\<lambda>u. rank (the (m u))) ids"
      using Cons.prems by auto
    then have "total_rank ids (m(t \<mapsto> n)) = total_rank ids m"
      unfolding total_rank_def by (rule arg_cong)
    with True show ?thesis by (simp add: total_rank_def)
  next
    case False
    with Cons show ?thesis by (simp add: total_rank_def)
  qed
qed simp

lemma fold_apply_None: "fold apply_event es None = None"
  by (induction es) auto

lemma replay_rank:
  "fold apply_event es (Some m) = Some m' \<Longrightarrow> distinct ids \<Longrightarrow> dom m = set ids \<Longrightarrow>
   dom m' = set ids \<and> length es + total_rank ids m \<le> total_rank ids m'"
proof (induction es arbitrary: m)
  case (Cons e es)
  let ?t = "se_task_id e" and ?n = "to_state e"
  from Cons.prems(1) have e: "m ?t = Some (from_state e)" "?n \<in> ALLOWED_TRANSITIONS (from_state e)"
    and rest: "fold apply_event es (Some (m(?t \<mapsto> ?n))) = Some m'"
    by (auto simp: fold_apply_None split: if_splits)
  have t: "?t \<in> set ids" using e(1) Cons.prems(3) by auto
  then have "dom (m(?t \<mapsto> ?n)) = set ids" using Cons.prems(3) by auto
  from Cons.IH [OF rest Cons.prems(2) this] total_rank_update [OF t Cons.prems(2), of m ?n]
    rank_allowed [OF e(2)] e(1)
  show ?case by (simp del: fun_upd_apply)
qed simp

lemma events_bound:
  assumes "dag_wf (dag s)" and "log_inv s"
  shows "length (events s) \<le> 3 * length (task_ids (dag s))"
proof -
  let ?ids = "task_ids (dag s)" and ?m = "map_of (map (\<lambda>t. (t, PENDING)) (task_ids (dag s)))"
  have "fold apply_event (events s) (Some ?m) = Some (states s)"
    using assms(2) by (simp add: log_inv_def replay_def)
  moreover have "dom ?m = set ?ids" by (auto simp: map_of_map_restrict split: if_splits)
  ultimately have "length (events s) \<le> total_rank ?ids (states s)"
    using replay_rank [of "events s" ?m "states s" ?ids] assms(1) by (simp add: dag_wf_def)
  also have "\<dots> \<le> (\<Sum>t \<leftarrow> ?ids. 3)"
    unfolding total_rank_def by (rule sum_list_mono) (rule rank_le)
  finally show ?thesis by (simp add: sum_list_triv)
qed

lemma work_available:
  assumes inv: "sched_inv s" and "\<not> is_terminal s"
  shows "\<exists>t. states s t = Some READY \<or> states s t = Some RUNNING"
proof (rule ccontr)
  let ?P = "in_state (states s) PENDING"
  assume none: "\<nexists>t. states s t = Some READY \<or> states s t = Some RUNNING"
  have valid: "dag_valid (dag s)" and core: "core_inv (dag s) (states s)"
    and sett: "settled (dag s) (states s)" using inv by (auto simp: sched_inv_def)
  from assms(2) obtain t st where t: "states s t = Some st" "st \<notin> TERMINAL_STATES"
    using core_inv_dom [OF core] by (fastforce simp: is_terminal_def list_all_iff)
  then have "t \<in> ?P" using none by (cases st) (auto simp: TERMINAL_STATES_def)
  then obtain p where p: "p \<in> ?P" "deps_of (dag s) p \<inter> ?P = {}"
    using dag.minimal_task [OF valid, of ?P] in_state_ids [OF core] by blast
  from p(1) sett obtain d where d: "d \<in> deps_of (dag s) p" "states s d \<noteq> Some SUCCEEDED"
    by (auto simp: settled_def)
  have "d \<in> id_set (dag s)" using d(1) dag.deps_ids [OF valid] by blast
  then obtain sd where sd: "states s d = Some sd" using core_inv_dom [OF core] by blast
  with d p(2) none have "sd \<in> {FAILED, BLOCKED}" by (cases sd) auto
  then have "d \<in> in_state (states s) FAILED \<union> downstream (dag s) (in_state (states s) FAILED)"
    using sd core by (auto simp: core_inv_def)
  moreover have "p \<in> id_set (dag s)" using p(1) in_state_ids [OF core] by blast
  ultimately have "p \<in> downstream (dag s) (in_state (states s) FAILED)"
    using d(1) downstream_step by blast
  then have "states s p = Some BLOCKED" using core by (auto simp: core_inv_def)
  with p(1) show False by simp
qed

lemma steps_bound:
  assumes "sched_inv s" and "(sched_step ^^ k) s s'"
  shows "length (events s) + k \<le> length (events s') \<and> sched_inv s' \<and> dag s' = dag s"
  using assms(2)
proof (induction k arbitrary: s')
  case 0
  then show ?case using assms(1) by simp
next
  case (Suc k)
  then obtain u where "(sched_step ^^ k) s u" "sched_step u s'" by auto
  with Suc.IH step_extends sched_step_inv show ?case by fastforce
qed

lemma snapshot_ok:
  assumes "sched_inv s"
  shows "snapshot s = Inr \<lparr>snap_tasks = map (\<lambda>t. \<lparr>tsr_task_id = t, tsr_state = the (states s t)\<rparr>)
    (topo (dag s)), snap_events = events s\<rparr>"
proof -
  have valid: "dag_valid (dag s)" and core: "core_inv (dag s) (states s)"
    using assms by (auto simp: sched_inv_def)
  have "map_res (\<lambda>t. bind_res (require_task s t) (\<lambda>st.
      TaskScheduleRecord \<lparr>tsr_task_id = t, tsr_state = st\<rparr>)) xs =
      Inr (map (\<lambda>t. \<lparr>tsr_task_id = t, tsr_state = the (states s t)\<rparr>) xs)"
    if "set xs \<subseteq> id_set (dag s)" for xs
    using that
  proof (induction xs)
    case (Cons x xs)
    then obtain st where "states s x = Some st" using core_inv_dom [OF core] by auto
    with Cons dag_valid_id_length [OF valid, of x] show ?case
      by (simp add: require_task_def TaskScheduleRecord_def)
  qed simp
  with dag_valid_topo(1,3) [OF valid] dag.order_distinct [OF valid] show ?thesis
    by (simp add: snapshot_def SchedulerSnapshot_def comp_def)
qed

section \<open>Properties\<close>

text \<open>A run on the sample graph: \<open>a\<close> succeeds, \<open>b\<close> fails, \<open>d\<close> is blocked.\<close>

definition demo_run :: "scheduler res" where
  "demo_run =
     bind_res (DAGScheduler demo_dag) (\<lambda>s0. bind_res (sched_start s0 ''a'') (\<lambda>s1.
     bind_res (sched_succeed s1 ''a'') (\<lambda>s2. bind_res (sched_start s2 ''b'') (\<lambda>s3.
     sched_fail s3 ''b''))))"

lemma demo_run_reachable:
  "demo_run = Inr s \<Longrightarrow> reachable sched_init sched_step s"
  unfolding demo_run_def
  by (auto simp: bind_res_eq_Inr)
     (meson demo_dag_TaskDAG reach_init reach_step sched_init.intros sched_step.intros)

lemma demo_run_states: "is_ok demo_run"
  by code_simp

lemma demo_run_ok:
  obtains s where "demo_run = Inr s" and "reachable sched_init sched_step s"
  using demo_run_states demo_run_reachable by (auto simp: is_ok_iff)

text \<open>C3. Dependency safety of the scheduler, in every reachable state: a task is ready, running
  or finished only if all its dependencies succeeded; the blocked tasks are exactly those
  that transitively depend on a failed task; and a pending task always waits for a
  dependency that has not succeeded.\<close>

theorem scheduler_dependency_safety:
  assumes "reachable sched_init sched_step s"
  shows "(\<forall>t. states s t \<in> {Some READY, Some RUNNING, Some SUCCEEDED, Some FAILED} \<longrightarrow>
      deps_of (dag s) t \<subseteq> in_state (states s) SUCCEEDED) \<and>
    in_state (states s) BLOCKED = downstream (dag s) (in_state (states s) FAILED) \<and>
    (\<forall>t. states s t = Some PENDING \<longrightarrow> \<not> deps_of (dag s) t \<subseteq> in_state (states s) SUCCEEDED)"
  using sched.reach_inv [OF assms] unfolding sched_inv_def core_inv_def settled_def by blast

theorem scheduler_dependency_safety_witness:
  "\<exists>s. demo_run = Inr s \<and> states s ''d'' = Some BLOCKED \<and>
     ''d'' \<in> downstream (dag s) (in_state (states s) FAILED)"
proof -
  obtain s where s: "demo_run = Inr s" "reachable sched_init sched_step s"
    by (rule demo_run_ok)
  have "(case demo_run of Inl _ \<Rightarrow> None | Inr s \<Rightarrow> states s ''d'') = Some BLOCKED" by code_simp
  then have "states s ''d'' = Some BLOCKED" unfolding s(1) by simp
  with scheduler_dependency_safety [OF s(2)] s(1) show ?thesis by blast
qed

text \<open>The operations never fail internally: in every reachable state, \<open>start\<close> succeeds
  exactly on ready tasks, \<open>succeed\<close> and \<open>fail\<close> succeed exactly on running ones, so neither
  the transition table nor the blockability assertion nor the graph queries can raise,
  and a snapshot can always be taken, listing every task once in topological order.\<close>

theorem scheduler_operations_total:
  assumes "reachable sched_init sched_step s"
  shows "(is_ok (sched_start s t) \<longleftrightarrow> states s t = Some READY) \<and>
    (is_ok (sched_succeed s t) \<longleftrightarrow> states s t = Some RUNNING) \<and>
    (is_ok (sched_fail s t) \<longleftrightarrow> states s t = Some RUNNING) \<and>
    snapshot s = Inr \<lparr>snap_tasks = map (\<lambda>t. \<lparr>tsr_task_id = t, tsr_state = the (states s t)\<rparr>)
      (topo (dag s)), snap_events = events s\<rparr>"
proof -
  have inv: "sched_inv s" by (rule sched.reach_inv [OF assms])
  have "is_ok (sched_start s t) \<longleftrightarrow> states s t = Some READY"
    using start_inv [OF inv, of t]
    by (auto simp: is_ok_iff sched_start_def bind_res_eq_Inr require_state_iff)
  moreover have "is_ok (sched_succeed s t) \<longleftrightarrow> states s t = Some RUNNING"
    using succeed_inv [OF inv, of t]
    by (auto simp: is_ok_iff sched_succeed_def bind_res_eq_Inr require_state_iff)
  moreover have "is_ok (sched_fail s t) \<longleftrightarrow> states s t = Some RUNNING"
    using fail_inv [OF inv, of t]
    by (auto simp: is_ok_iff sched_fail_def bind_res_eq_Inr require_state_iff)
  ultimately show ?thesis using snapshot_ok [OF inv] by blast
qed

theorem scheduler_operations_total_witness:
  "\<exists>s. demo_run = Inr s \<and> is_ok (sched_start s ''c'') \<and> \<not> is_ok (sched_fail s ''c'')"
proof -
  obtain s where s: "demo_run = Inr s" "reachable sched_init sched_step s"
    by (rule demo_run_ok)
  have "(case demo_run of Inl _ \<Rightarrow> None | Inr s \<Rightarrow> states s ''c'') = Some READY" by code_simp
  then have "states s ''c'' = Some READY" unfolding s(1) by simp
  with scheduler_operations_total [OF s(2), of "''c''"] s(1) show ?thesis by auto
qed

text \<open>C34. The scheduler neither deadlocks nor runs forever. In every reachable state that is
  not terminal some task is ready or running, and from any reachable state at most three
  steps per task of the graph are possible, so every maximal run ends with each task
  succeeded, failed or blocked.\<close>

theorem scheduler_progress:
  assumes "reachable sched_init sched_step s"
  shows "(\<not> is_terminal s \<longrightarrow> (\<exists>t. states s t = Some READY \<or> states s t = Some RUNNING)) \<and>
    ((sched_step ^^ k) s s' \<longrightarrow> k \<le> 3 * length (task_ids (dag s))) \<and>
    ((\<nexists>s'. sched_step s s') \<longrightarrow> is_terminal s)"
proof -
  have inv: "sched_inv s" by (rule sched.reach_inv [OF assms])
  have work: "\<not> is_terminal s \<Longrightarrow> \<exists>t. states s t = Some READY \<or> states s t = Some RUNNING"
    by (rule work_available [OF inv])
  moreover have "k \<le> 3 * length (task_ids (dag s))" if "(sched_step ^^ k) s s'"
    using steps_bound [OF inv that] events_bound [of s'] dag_valid_wf
    by (auto simp: sched_inv_def)
  moreover have "is_terminal s" if "\<nexists>s'. sched_step s s'"
    using work that start_inv [OF inv] succeed_inv [OF inv] step_start step_succeed by metis
  ultimately show ?thesis by blast
qed

theorem scheduler_progress_witness:
  "\<exists>s. demo_run = Inr s \<and> \<not> is_terminal s \<and>
     (\<exists>t. states s t = Some READY \<or> states s t = Some RUNNING)"
proof -
  obtain s where s: "demo_run = Inr s" "reachable sched_init sched_step s"
    by (rule demo_run_ok)
  have "(case demo_run of Inl _ \<Rightarrow> True | Inr s \<Rightarrow> is_terminal s) = False" by code_simp
  then have "\<not> is_terminal s" unfolding s(1) by simp
  with scheduler_progress [OF s(2), of 0 s] s(1) show ?thesis by blast
qed

text \<open>The event list is a faithful audit log: in every reachable state its sequence numbers
  are \<open>0, 1, 2, \<dots>\<close>, every event is an allowed transition from the state the task then had,
  replaying the events from the all-pending state gives exactly the current states, and
  there are at most three events per task.\<close>

theorem scheduler_event_log:
  assumes "reachable sched_init sched_step s"
  shows "map se_sequence (events s) = [0..<length (events s)] \<and>
    replay (dag s) (events s) = Some (states s) \<and>
    length (events s) \<le> 3 * length (task_ids (dag s))"
  using sched.reach_inv [OF assms] events_bound [of s] dag_valid_wf
  by (auto simp: sched_inv_def log_inv_def)

theorem scheduler_event_log_witness:
  "\<exists>s. demo_run = Inr s \<and> length (events s) = 9 \<and> replay (dag s) (events s) = Some (states s)"
proof -
  obtain s where s: "demo_run = Inr s" "reachable sched_init sched_step s"
    by (rule demo_run_ok)
  have "(case demo_run of Inl _ \<Rightarrow> 0 | Inr s \<Rightarrow> length (events s)) = 9" by code_simp
  then have "length (events s) = 9" unfolding s(1) by simp
  with s(1) scheduler_event_log [OF s(2)] show ?thesis by blast
qed

end
