(* ===== verification/Reservation_Ledger.thy ===== *)
theory Reservation_Ledger
  imports DevFlow_Prelude
begin

text \<open>
  What a token budget promises, apart from how it stores it. An account has a total, a used
  and a reserved amount; it is opened empty, a reservation is admitted only when it still
  fits under the total, and finishing a reservation turns at most its own amount into use.
  The locale \<open>reservation_ledger\<close> asks each step of a store to be made of such moves and derives that no
  reachable state overspends. Both the Run budget and the planning budget interpret it.
\<close>

record account =
  acc_total :: int
  acc_used :: int
  acc_reserved :: int

section \<open>Tables of live reservations\<close>

text \<open>Removing the row with a given key from a table with unique keys removes its weight.\<close>

lemma sum_remove_key:
  fixes weight :: "'r \<Rightarrow> int"
  shows "distinct (map key rs) \<Longrightarrow> r \<in> set rs \<Longrightarrow>
   (\<Sum>x \<leftarrow> filter P (filter (\<lambda>x. key x \<noteq> key r) rs). weight x) =
   (\<Sum>x \<leftarrow> filter P rs. weight x) - (if P r then weight r else 0)"
proof (induction rs)
  case (Cons a rs)
  show ?case
  proof (cases "a = r")
    case True
    with Cons.prems have "\<forall>x \<in> set rs. key x \<noteq> key r"
      by (metis distinct.simps(2) image_eqI list.set_map list.simps(9))
    then have "filter (\<lambda>x. key x \<noteq> key r) rs = rs" by (simp add: filter_id_conv)
    with True show ?thesis by simp
  next
    case False
    then have "r \<in> set rs" using Cons.prems(2) by auto
    then have "key a \<noteq> key r" using Cons.prems(1) by force
    with Cons \<open>r \<in> set rs\<close> show ?thesis by simp
  qed
qed simp

lemma weight_le_sum:
  fixes weight :: "'r \<Rightarrow> int"
  assumes "distinct (map key rs)" and "r \<in> set rs" and "P r" and "\<And>x. x \<in> set rs \<Longrightarrow> 0 \<le> weight x"
  shows "weight r \<le> (\<Sum>x \<leftarrow> filter P rs. weight x)"
proof -
  have "0 \<le> (\<Sum>x \<leftarrow> filter P (filter (\<lambda>x. key x \<noteq> key r) rs). weight x)"
    by (rule sum_list_nonneg) (use assms(4) in auto)
  with sum_remove_key [OF assms(1,2), where P = P and weight = weight] assms(3) show ?thesis by simp
qed

lemma find_append_fresh: "find P xs = None \<Longrightarrow> P x \<Longrightarrow> find P (xs @ [x]) = Some x"
  by (induction xs) (auto split: if_splits)

section \<open>Accounts\<close>

inductive account_move :: "account option \<Rightarrow> account option \<Rightarrow> bool" where
  same: "account_move a a"
| opened: "0 < t \<Longrightarrow> account_move None (Some \<lparr>acc_total = t, acc_used = 0, acc_reserved = 0\<rparr>)"
| held: "0 \<le> r \<Longrightarrow> acc_used a + acc_reserved a + r \<le> acc_total a \<Longrightarrow>
    account_move (Some a) (Some (a\<lparr>acc_reserved := acc_reserved a + r\<rparr>))"
| finished: "0 \<le> u \<Longrightarrow> u \<le> r \<Longrightarrow> r \<le> acc_reserved a \<Longrightarrow>
    account_move (Some a) (Some (a\<lparr>acc_used := acc_used a + u, acc_reserved := acc_reserved a - r\<rparr>))"

definition solvent :: "account option \<Rightarrow> bool" where
  "solvent x = (case x of None \<Rightarrow> True
     | Some a \<Rightarrow> 0 \<le> acc_used a \<and> 0 \<le> acc_reserved a \<and> acc_used a + acc_reserved a \<le> acc_total a)"

lemma account_move_solvent: "account_move x y \<Longrightarrow> solvent x \<Longrightarrow> solvent y"
  by (cases rule: account_move.cases) (auto simp: solvent_def split: option.splits)

lemma account_move_total:
  "account_move (Some a) y \<Longrightarrow> \<exists>b. y = Some b \<and> acc_total b = acc_total a"
  by (cases rule: account_move.cases) auto

lemma account_moves_solvent: "account_move\<^sup>*\<^sup>* x y \<Longrightarrow> solvent x \<Longrightarrow> solvent y"
  by (induction rule: rtranclp_induct) (auto intro: account_move_solvent)

lemma account_moves_total:
  assumes "account_move\<^sup>*\<^sup>* (Some a) y"
  shows "\<exists>b. y = Some b \<and> acc_total b = acc_total a"
  using assms by (induction rule: rtranclp_induct) (auto dest: account_move_total)

locale reservation_ledger = transition_system init step inv
  for init :: "'s \<Rightarrow> bool" and step :: "'s \<Rightarrow> 's \<Rightarrow> bool" and inv :: "'s \<Rightarrow> bool" +
  fixes account :: "'s \<Rightarrow> 'k \<Rightarrow> account option"
  assumes account_init: "init s \<Longrightarrow> account s k = None"
    and account_step: "inv s \<Longrightarrow> step s t \<Longrightarrow> account_move\<^sup>*\<^sup>* (account s k) (account t k)"
begin

lemma never_overspent:
  assumes "reachable init step s"
  shows "solvent (account s k)"
  using assms
proof (induction rule: reachable.induct)
  case (reach_init s)
  then show ?case by (simp add: account_init solvent_def)
next
  case (reach_step s t)
  then show ?case using account_step [OF reach_inv] account_moves_solvent by blast
qed

lemma total_fixed:
  assumes "reachable init step s" and "step\<^sup>*\<^sup>* s t" and "account s k = Some a"
  shows "\<exists>b. account t k = Some b \<and> acc_total b = acc_total a"
  using assms(2)
proof (induction rule: rtranclp_induct)
  case base
  with assms(3) show ?case by simp
next
  case (step u v)
  then obtain b where "account u k = Some b" "acc_total b = acc_total a" by blast
  moreover have "inv u" by (rule reach_inv [OF reachable_closure [OF assms(1) step(1)]])
  ultimately show ?case using account_step [OF _ step(2), of k] account_moves_total by metis
qed

end

end
