(* ===== verification/Token_Budget.thy ===== *)
theory Token_Budget
  imports Reservation_Ledger Task_Dag
begin

text \<open>
  The Run token budget (\<open>persistence/token_budget.py\<close>, \<open>models/token_budget.py\<close>).

  A database state is the record \<open>budget_db\<close> with the tables the store reads and writes;
  each store method is one transaction, a function from the state before it to the state
  after it. Row locks (\<open>FOR UPDATE\<close>) serialise the transactions of one Run, so the order
  of transactions is the order of steps. A raised exception rolls its transaction back;
  \<open>reserve\<close> then records the refusal in a second one, as the source does.
  Reservation ids (\<open>uuid4\<close>) are arguments. Floating-point scaling by the safety factor is the
  argument \<open>scale\<close> (\<open>ceil(n * factor)\<close>), the provider-neutral token estimate of a text is
  the argument \<open>estimate\<close>, and the 70 percent split of the legacy allocation is \<open>share\<close>.
  User-facing messages are represented by short English constants.
  The columns of both role pools of a work package (\<open>developer_\<dots>\<close>, \<open>repair_\<dots>\<close>) are the
  record \<open>pool\<close>; Python's \<open>prefix\<close> selects one of the two.
\<close>

section \<open>Data\<close>

datatype agent_role = PLANNER | DEVELOPER | REVIEWER | REPAIR

datatype liveness_credit =
  NORMAL_CREDIT | INITIAL_STARTUP | TOOL_RECOVERY | VERIFIED_PROGRESS | CHECKPOINT_RESUME

datatype run_token_budget_status = NORMAL | WARNING | CRITICAL | EXHAUSTED

datatype token_budget_stage =
  PLANNING | DEVELOPMENT | VERIFICATION_REPAIR | REVIEW_PUBLICATION | FLEX

datatype task_budget_status = ACTIVE | RECLAIMED

record token_usage =
  prompt_tokens :: int
  completion_tokens :: int
  total_tokens :: int

record run_budget_row =
  total_budget_tokens :: int
  used_prompt_tokens :: int
  used_completion_tokens :: int
  used_total_tokens :: int
  reserved_tokens :: int
  rb_status :: run_token_budget_status

record reservation_row =
  reservation_id :: uuid
  rr_run_id :: uuid
  rr_task_id :: task_id
  rr_role :: agent_role
  reserved_input_tokens :: int
  reserved_output_tokens :: int

record role_usage_row =
  ru_prompt :: int
  ru_completion :: int
  ru_total :: int
  call_count :: int

record stage_row =
  stage_total :: int
  stage_used :: int
  stage_reserved :: int

record pool =
  pool_budget :: int
  pool_used :: int
  pool_reserved :: int
  pool_borrowed :: int
  pool_reclaimed :: int
  observed_prompt :: int
  predicted_next_input :: int
  estimated_turns :: int

record task_budget_row =
  tb_complexity :: planning_complexity
  tb_total :: int
  developer_pool :: pool
  repair_pool :: pool
  startup_reserve :: int
  complexity_upgrade_count :: int
  borrow_count :: int
  tool_recovery_credit_used :: bool
  last_liveness_credit :: liveness_credit
  last_required_tokens :: int
  last_available_tokens :: int
  last_flex_available_tokens :: int
  last_downstream_available_tokens :: int
  last_borrowed_tokens :: int
  last_budget_decision :: "string option"
  last_budget_reason :: "string option"
  last_recovery_action :: "string option"
  last_cost_prediction_reason :: "string option"
  tb_status :: task_budget_status

record cost_observation =
  ob_id :: nat
  ob_run_id :: uuid
  ob_task_id :: task_id
  ob_role :: agent_role
  ob_iteration :: int
  request_estimated_tokens :: int
  actual_prompt_tokens :: int
  actual_completion_tokens :: int
  tool_argument_tokens :: int
  tool_result_tokens :: int
  write_patch_argument_tokens :: int
  compacted_tool_argument_tokens :: int
  context_growth_tokens :: int
  has_real_progress :: bool

text \<open>Observations are listed newest first; a new row takes the next id.\<close>

record budget_db =
  run_budgets :: "uuid \<rightharpoonup> run_budget_row"
  run_reservations :: "reservation_row list"
  role_usages :: "uuid \<times> agent_role \<rightharpoonup> role_usage_row"
  stage_budgets :: "uuid \<times> token_budget_stage \<rightharpoonup> stage_row"
  task_budgets :: "uuid \<times> task_id \<rightharpoonup> task_budget_row"
  observations :: "cost_observation list"

definition empty_db :: budget_db where
  "empty_db = \<lparr>run_budgets = Map.empty, run_reservations = [], role_usages = Map.empty,
     stage_budgets = Map.empty, task_budgets = Map.empty, observations = []\<rparr>"

record run_budget_exhaustion_facts =
  ef_total_budget :: int
  ef_used_total :: int
  ef_reserved :: int
  ef_next_prompt :: int
  ef_completion_limit :: int

definition ef_remaining :: "run_budget_exhaustion_facts \<Rightarrow> int" where
  "ef_remaining f = max 0 (ef_total_budget f - ef_used_total f - ef_reserved f)"

definition ef_required :: "run_budget_exhaustion_facts \<Rightarrow> int" where
  "ef_required f = ef_next_prompt f + ef_completion_limit f"

definition ef_shortfall :: "run_budget_exhaustion_facts \<Rightarrow> int" where
  "ef_shortfall f = max 0 (ef_required f - ef_remaining f)"

section \<open>Pure helpers\<close>

definition status_for :: "int \<Rightarrow> int \<Rightarrow> run_token_budget_status" where
  "status_for consumed limit =
     (if consumed \<ge> limit then EXHAUSTED
      else if consumed * 100 \<ge> limit * 90 then CRITICAL
      else if consumed * 100 \<ge> limit * 70 then WARNING
      else NORMAL)"

definition stage_for :: "agent_role \<Rightarrow> token_budget_stage" where
  "stage_for role =
     (if role = PLANNER then PLANNING
      else if role = REPAIR then VERIFICATION_REPAIR
      else if role = REVIEWER then REVIEW_PUBLICATION
      else DEVELOPMENT)"

definition actual_usage :: "token_usage option \<Rightarrow> int \<Rightarrow> int \<Rightarrow> int \<times> int" where
  "actual_usage usage input output =
     (case usage of
        None \<Rightarrow> (0, 0)
      | Some u \<Rightarrow>
          if total_tokens u = 0 \<and> prompt_tokens u = 0 \<and> completion_tokens u = 0
          then (input, output)
          else (prompt_tokens u, completion_tokens u))"

definition bounded_package_budget :: "task_node \<Rightarrow> int \<Rightarrow> int" where
  "bounded_package_budget node recommended =
     (let (lower, upper) =
        (case (case complexity node of None \<Rightarrow> MEDIUM | Some c \<Rightarrow> c) of
           LOW \<Rightarrow> (2000, 4000) | MEDIUM \<Rightarrow> (4000, 8000) | HIGH \<Rightarrow> (8000, 12000))
      in max lower (min upper recommended))"

definition maximum_package_budget :: "planning_complexity \<Rightarrow> int \<Rightarrow> int" where
  "maximum_package_budget c current =
     max current (case c of LOW \<Rightarrow> 6000 | MEDIUM \<Rightarrow> 12000 | HIGH \<Rightarrow> 18000)"

definition initial_package_allocation ::
  "(string \<Rightarrow> int) \<Rightarrow> (int \<Rightarrow> int) \<Rightarrow> bool \<Rightarrow> task_node \<Rightarrow> int \<Rightarrow> int \<Rightarrow> int \<times> int" where
  "initial_package_allocation estimate share adaptive node recommended max_output =
     (if execution_mode node = WORKFLOW then (0, 0)
      else if \<not> adaptive then
        (let bounded = bounded_package_budget node recommended
         in (share bounded, bounded - share bounded))
      else
        (let predicted_input =
           max 1200 (700 + estimate (objective (task node))
             + 150 * int (length (writable_files (task node)))
             + 120 * int (length (acceptance_criteria (task node)))
             + 120 * int (length (verification_commands (task node))))
         in (2 * (predicted_input + max_output), max 800 (min 1500 predicted_input))))"

definition next_input_prediction ::
  "(int \<Rightarrow> int) \<Rightarrow> int \<Rightarrow> int \<Rightarrow> int \<Rightarrow> int \<Rightarrow> int \<Rightarrow> int \<Rightarrow> int" where
  "next_input_prediction scale current observed growth arguments results write_patch =
     (let observed_floor = scale observed;
          growth_floor = observed + scale (max growth (arguments + results));
          write_patch_floor = observed + scale (write_patch + results)
      in max (max (max current observed_floor) growth_floor) write_patch_floor)"

section \<open>Work-package pools\<close>

definition get_pool :: "agent_role \<Rightarrow> task_budget_row \<Rightarrow> pool" where
  "get_pool role r = (if role = DEVELOPER then developer_pool r else repair_pool r)"

definition map_pool :: "agent_role \<Rightarrow> (pool \<Rightarrow> pool) \<Rightarrow> task_budget_row \<Rightarrow> task_budget_row" where
  "map_pool role f r =
     (if role = DEVELOPER then r\<lparr>developer_pool := f (developer_pool r)\<rparr>
      else r\<lparr>repair_pool := f (repair_pool r)\<rparr>)"

definition worker_role :: "agent_role \<Rightarrow> bool" where
  "worker_role role = (role \<in> {DEVELOPER, REPAIR})"

text \<open>\<open>UPDATE \<dots> WHERE run_id = \<dots> AND task_id = \<dots>\<close>: no row, no effect.\<close>

definition update_row :: "('k \<rightharpoonup> 'v) \<Rightarrow> 'k \<Rightarrow> ('v \<Rightarrow> 'v) \<Rightarrow> ('k \<rightharpoonup> 'v)" where
  "update_row m k f = (case m k of None \<Rightarrow> m | Some v \<Rightarrow> m(k \<mapsto> f v))"

text \<open>\<open>INSERT \<dots> ON CONFLICT DO NOTHING\<close>.\<close>

definition insert_absent :: "('k \<rightharpoonup> 'v) \<Rightarrow> 'k \<Rightarrow> 'v \<Rightarrow> ('k \<rightharpoonup> 'v)" where
  "insert_absent m k v = (case m k of None \<Rightarrow> m(k \<mapsto> v) | Some _ \<Rightarrow> m)"

definition new_budget_row :: "int \<Rightarrow> run_budget_row" where
  "new_budget_row limit = \<lparr>total_budget_tokens = limit, used_prompt_tokens = 0,
     used_completion_tokens = 0, used_total_tokens = 0, reserved_tokens = 0, rb_status = NORMAL\<rparr>"

section \<open>Opening budgets\<close>

text \<open>\<open>total_budget_tokens or default\<close>: an absent or zero total falls back to the default. The table
  accepts positive totals only.\<close>

definition initialize :: "int \<Rightarrow> uuid \<Rightarrow> int option \<Rightarrow> budget_db \<Rightarrow> budget_db res" where
  "initialize default_total run requested db =
     (let budget = (case requested of None \<Rightarrow> default_total | Some t \<Rightarrow> if t = 0 then default_total else t)
      in if run_budgets db run = None \<and> budget \<le> 0
         then Inl (IntegrityError ''ck_run_token_budgets_total_positive'')
         else Inr (db\<lparr>run_budgets := insert_absent (run_budgets db) run (new_budget_row budget)\<rparr>))"

definition new_pool :: "int \<Rightarrow> pool" where
  "new_pool budget = \<lparr>pool_budget = budget, pool_used = 0, pool_reserved = 0, pool_borrowed = 0,
     pool_reclaimed = 0, observed_prompt = 0, predicted_next_input = 0, estimated_turns = 0\<rparr>"

definition new_task_budget :: "task_node \<Rightarrow> int \<Rightarrow> int \<Rightarrow> task_budget_row" where
  "new_task_budget node developer repair =
     \<lparr>tb_complexity = (case complexity node of None \<Rightarrow> MEDIUM | Some c \<Rightarrow> c),
      tb_total = developer + repair, developer_pool = new_pool developer,
      repair_pool = new_pool repair, startup_reserve = developer div 2,
      complexity_upgrade_count = 0, borrow_count = 0, tool_recovery_credit_used = False,
      last_liveness_credit = NORMAL_CREDIT, last_required_tokens = 0, last_available_tokens = 0,
      last_flex_available_tokens = 0, last_downstream_available_tokens = 0,
      last_borrowed_tokens = 0, last_budget_decision = None, last_budget_reason = None,
      last_recovery_action = None, last_cost_prediction_reason = None, tb_status = ACTIVE\<rparr>"

definition initialize_hierarchy ::
  "(string \<Rightarrow> int) \<Rightarrow> (int \<Rightarrow> int) \<Rightarrow> bool \<Rightarrow> int \<Rightarrow> uuid \<Rightarrow> task_dag \<Rightarrow> int \<Rightarrow> budget_db \<Rightarrow> budget_db res" where
  "initialize_hierarchy estimate share adaptive default_total run g max_output db =
     (let nodes = filter (\<lambda>n. budget_allocation n \<noteq> None) (tasks g) in
      if nodes = [] then Inr db
      else bind_res (initialize default_total run None db) (\<lambda>db1.
        let run_total = total_budget_tokens (the (run_budgets db1 run));
            tb = fold (\<lambda>n m.
                let (developer, repair) = initial_package_allocation estimate share adaptive n
                      (recommended_token_budget (the (budget_allocation n))) max_output
                in insert_absent m (run, node_id n) (new_task_budget n developer repair))
              nodes (task_budgets db1);
            sb = fold (\<lambda>(stage, amount) m.
                insert_absent m (run, stage) \<lparr>stage_total = amount, stage_used = 0, stage_reserved = 0\<rparr>)
              [(PLANNING, 0), (DEVELOPMENT, run_total), (VERIFICATION_REPAIR, 0),
               (REVIEW_PUBLICATION, 0), (FLEX, 0)] (stage_budgets db1)
        in Inr (db1\<lparr>task_budgets := tb, stage_budgets := sb\<rparr>)))"

section \<open>Reserving\<close>

definition latest_observation :: "budget_db \<Rightarrow> uuid \<Rightarrow> task_id \<Rightarrow> agent_role \<Rightarrow> cost_observation option" where
  "latest_observation db run t role =
     find (\<lambda>ob. ob_run_id ob = run \<and> ob_task_id ob = t \<and> ob_role ob = role) (observations db)"

definition calibrated_input_estimate ::
  "(int \<Rightarrow> int) \<Rightarrow> budget_db \<Rightarrow> uuid \<Rightarrow> task_id \<Rightarrow> agent_role \<Rightarrow> int \<Rightarrow> int" where
  "calibrated_input_estimate scale db run t role estimated =
     (if \<not> worker_role role then estimated
      else
        (let observed = (case task_budgets db (run, t) of None \<Rightarrow> 0
               | Some r \<Rightarrow> observed_prompt (get_pool role r))
         in case latest_observation db run t role of
              None \<Rightarrow> max estimated (scale observed)
            | Some ob \<Rightarrow>
                (let compacted = compacted_tool_argument_tokens ob in
                 next_input_prediction scale estimated
                   (max observed (actual_prompt_tokens ob)) (context_growth_tokens ob)
                   (max 0 (tool_argument_tokens ob - compacted)) (tool_result_tokens ob)
                   (max 0 (write_patch_argument_tokens ob - compacted)))))"

definition record_soft_share_reservation ::
  "uuid \<Rightarrow> task_id \<Rightarrow> agent_role \<Rightarrow> int \<Rightarrow> liveness_credit \<Rightarrow> budget_db \<Rightarrow> budget_db" where
  "record_soft_share_reservation run t role required credit db =
     db\<lparr>task_budgets := update_row (task_budgets db) (run, t) (\<lambda>r.
       let p = get_pool role r;
           available = max 0 (pool_budget p - pool_used p - pool_reserved p);
           exceeded = required > available
       in (map_pool role (\<lambda>p. p\<lparr>pool_reserved := pool_reserved p + required\<rparr>) r)
           \<lparr>last_required_tokens := required, last_available_tokens := available,
            last_borrowed_tokens := 0,
            last_budget_decision := Some (if exceeded then ''SOFT_SHARE_EXCEEDED'' else ''RESERVED''),
            last_budget_reason := Some (if exceeded
              then ''soft share is advisory; approved by the Run budget''
              else ''soft share suffices; approved by the Run budget''),
            last_recovery_action := None, last_liveness_credit := credit,
            tool_recovery_credit_used := tool_recovery_credit_used r \<or> credit = TOOL_RECOVERY\<rparr>)\<rparr>"

definition add_stage_reserved :: "uuid \<Rightarrow> agent_role \<Rightarrow> int \<Rightarrow> budget_db \<Rightarrow> budget_db" where
  "add_stage_reserved run role required db =
     db\<lparr>stage_budgets := update_row (stage_budgets db) (run, stage_for role)
       (\<lambda>s. s\<lparr>stage_reserved := stage_reserved s + required\<rparr>)\<rparr>"

text \<open>The reachable part of \<open>_reserve_hierarchy\<close>: both branches on the role return before the
  borrowing code that follows them in the source.\<close>

definition reserve_hierarchy ::
  "uuid \<Rightarrow> task_id \<Rightarrow> agent_role \<Rightarrow> int \<Rightarrow> liveness_credit \<Rightarrow> budget_db \<Rightarrow> budget_db" where
  "reserve_hierarchy run t role required credit db =
     (if worker_role role
      then add_stage_reserved run role required
        (record_soft_share_reservation run t role required credit db)
      else add_stage_reserved run role required db)"

datatype reserve_outcome =
    Reserved reservation_row
  | Refused run_budget_exhaustion_facts
  | Raised exn

definition persist_run_exhausted_status :: "uuid \<Rightarrow> budget_db \<Rightarrow> budget_db" where
  "persist_run_exhausted_status run db =
     db\<lparr>run_budgets := update_row (run_budgets db) run (\<lambda>b. b\<lparr>rb_status := EXHAUSTED\<rparr>)\<rparr>"

definition reserve ::
  "(int \<Rightarrow> int) \<Rightarrow> int \<Rightarrow> uuid \<Rightarrow> uuid \<Rightarrow> task_id \<Rightarrow> agent_role \<Rightarrow> int \<Rightarrow> int \<Rightarrow> liveness_credit
    \<Rightarrow> budget_db \<Rightarrow> reserve_outcome \<times> budget_db" where
  "reserve scale default_total rid run t role estimated max_output credit db =
     (if estimated < 0 \<or> max_output < 1
      then (Raised (ValueError ''token reservation values must be non-negative and non-empty''), db)
      else
        (let input = calibrated_input_estimate scale db run t role estimated;
             required = input + max_output
         in case initialize default_total run None db of
              Inl e \<Rightarrow> (Raised e, db)
            | Inr db1 \<Rightarrow>
                (let b = the (run_budgets db1 run);
                     projected = used_total_tokens b + reserved_tokens b + required
                 in if projected > total_budget_tokens b
                    then (Refused \<lparr>ef_total_budget = total_budget_tokens b,
                            ef_used_total = used_total_tokens b, ef_reserved = reserved_tokens b,
                            ef_next_prompt = input, ef_completion_limit = max_output\<rparr>,
                          persist_run_exhausted_status run db)
                    else if rid \<in> reservation_id ` set (run_reservations db1)
                    then (Raised (IntegrityError ''run_token_reservations_pkey''), db)
                    else
                      (let db2 = reserve_hierarchy run t role required credit db1;
                           res = \<lparr>reservation_id = rid, rr_run_id = run, rr_task_id = t,
                                  rr_role = role, reserved_input_tokens = input,
                                  reserved_output_tokens = max_output\<rparr>
                       in (Reserved res,
                           db2\<lparr>run_budgets := (run_budgets db2)(run \<mapsto>
                                 b\<lparr>reserved_tokens := reserved_tokens b + required,
                                   rb_status := status_for projected (total_budget_tokens b)\<rparr>),
                               run_reservations := run_reservations db2 @ [res]\<rparr>)))))"

section \<open>Finishing reservations\<close>

definition settle_hierarchy ::
  "uuid \<Rightarrow> task_id \<Rightarrow> agent_role \<Rightarrow> int \<Rightarrow> int \<Rightarrow> int \<Rightarrow> budget_db \<Rightarrow> budget_db" where
  "settle_hierarchy run t role reserved used prompt db =
     (let db1 = db\<lparr>stage_budgets := update_row (stage_budgets db) (run, stage_for role)
            (\<lambda>s. s\<lparr>stage_reserved := max 0 (stage_reserved s - reserved),
                   stage_used := stage_used s + used\<rparr>)\<rparr>
      in if worker_role role
         then db1\<lparr>task_budgets := update_row (task_budgets db1) (run, t) (map_pool role (\<lambda>p.
             p\<lparr>pool_reserved := max 0 (pool_reserved p - reserved), pool_used := pool_used p + used,
               observed_prompt := max (observed_prompt p) prompt\<rparr>))\<rparr>
         else db1)"

definition add_role_usage :: "uuid \<Rightarrow> agent_role \<Rightarrow> int \<Rightarrow> int \<Rightarrow> int \<Rightarrow> budget_db \<Rightarrow> budget_db" where
  "add_role_usage run role prompt completion whole db =
     (let old = (case role_usages db (run, role) of
            None \<Rightarrow> \<lparr>ru_prompt = 0, ru_completion = 0, ru_total = 0, call_count = 0\<rparr> | Some u \<Rightarrow> u)
      in db\<lparr>role_usages := (role_usages db)((run, role) \<mapsto>
            \<lparr>ru_prompt = ru_prompt old + prompt, ru_completion = ru_completion old + completion,
             ru_total = ru_total old + whole, call_count = call_count old + 1\<rparr>)\<rparr>)"

definition find_reservation :: "uuid \<Rightarrow> budget_db \<Rightarrow> reservation_row option" where
  "find_reservation rid db = find (\<lambda>r. reservation_id r = rid) (run_reservations db)"

text \<open>\<open>reservation\<close> is the caller's handle; the stored row decides how much is released.
  A missing budget row is the \<open>NoResultFound\<close> of \<open>.one()\<close>.\<close>

definition finish_reservation ::
  "reservation_row \<Rightarrow> token_usage option \<Rightarrow> budget_db \<Rightarrow> budget_db res" where
  "finish_reservation reservation usage db =
     (case find_reservation (reservation_id reservation) db of
        None \<Rightarrow> Inr db
      | Some row \<Rightarrow>
          (let run = rr_run_id reservation;
               reserved = reserved_input_tokens row + reserved_output_tokens row
           in case run_budgets db run of
                None \<Rightarrow> Inl (NoResultFound ''run_token_budgets'')
              | Some b \<Rightarrow>
                  (let (prompt, completion) = actual_usage usage
                         (reserved_input_tokens reservation) (reserved_output_tokens reservation);
                       whole = prompt + completion;
                       db1 = db\<lparr>run_budgets := (run_budgets db)(run \<mapsto>
                         b\<lparr>reserved_tokens := max 0 (reserved_tokens b - reserved),
                           used_prompt_tokens := used_prompt_tokens b + prompt,
                           used_completion_tokens := used_completion_tokens b + completion,
                           used_total_tokens := used_total_tokens b + whole,
                           rb_status := status_for (used_total_tokens b + whole) (total_budget_tokens b)\<rparr>)\<rparr>;
                       db2 = settle_hierarchy run (rr_task_id row) (rr_role row) reserved whole prompt db1;
                       db3 = (if usage \<noteq> None
                              then add_role_usage run (rr_role reservation) prompt completion whole db2
                              else db2)
                   in Inr (db3\<lparr>run_reservations :=
                        filter (\<lambda>r. reservation_id r \<noteq> reservation_id reservation) (run_reservations db3)\<rparr>))))"

definition cancel :: "reservation_row \<Rightarrow> budget_db \<Rightarrow> budget_db res" where
  "cancel reservation db = finish_reservation reservation None db"

definition settle :: "reservation_row \<Rightarrow> token_usage \<Rightarrow> budget_db \<Rightarrow> budget_db res" where
  "settle reservation usage db = finish_reservation reservation (Some usage) db"

definition record_stage_usage :: "uuid \<Rightarrow> agent_role \<Rightarrow> int \<Rightarrow> budget_db \<Rightarrow> budget_db" where
  "record_stage_usage run role whole db =
     db\<lparr>stage_budgets := update_row (stage_budgets db) (run, stage_for role)
       (\<lambda>s. s\<lparr>stage_used := stage_used s + whole\<rparr>)\<rparr>"

text \<open>Two check constraints reject a usage whose total is not the sum of its parts.\<close>

definition record_usage :: "uuid \<Rightarrow> agent_role \<Rightarrow> token_usage \<Rightarrow> budget_db \<Rightarrow> budget_db res" where
  "record_usage run role usage db =
     (let whole = total_tokens usage;
          db1 = db\<lparr>run_budgets := update_row (run_budgets db) run (\<lambda>b.
            let used = used_total_tokens b + whole; limit = total_budget_tokens b in
            b\<lparr>used_prompt_tokens := used_prompt_tokens b + prompt_tokens usage,
              used_completion_tokens := used_completion_tokens b + completion_tokens usage,
              used_total_tokens := used,
              rb_status := (if used \<ge> limit then EXHAUSTED
                 else if used * 100 \<ge> limit * 90 then CRITICAL
                 else if used * 100 \<ge> limit * 70 then WARNING else rb_status b)\<rparr>)\<rparr>
      in if whole \<noteq> prompt_tokens usage + completion_tokens usage
         then Inl (IntegrityError ''ck_run_token_role_usage_total_shape'')
         else Inr (add_role_usage run role (prompt_tokens usage) (completion_tokens usage) whole
           (record_stage_usage run role whole db1)))"

section \<open>Cost observations\<close>

definition update_cost_prediction ::
  "uuid \<Rightarrow> task_id \<Rightarrow> agent_role \<Rightarrow> int \<Rightarrow> int \<Rightarrow> string \<Rightarrow> budget_db \<Rightarrow> budget_db" where
  "update_cost_prediction run t role predicted max_output reason db =
     db\<lparr>task_budgets := update_row (task_budgets db) (run, t) (\<lambda>r.
       let p = get_pool role r;
           remaining = max 0 (pool_budget p - pool_used p - pool_reserved p);
           next_turn_cost = max 1 (predicted + max_output)
       in (map_pool role (\<lambda>p. p\<lparr>predicted_next_input := predicted,
             estimated_turns := remaining div next_turn_cost\<rparr>) r)
           \<lparr>last_cost_prediction_reason := Some reason\<rparr>)\<rparr>"

definition record_model_turn_observation ::
  "(int \<Rightarrow> int) \<Rightarrow> uuid \<Rightarrow> task_id \<Rightarrow> agent_role \<Rightarrow> int \<Rightarrow> int \<Rightarrow> token_usage \<Rightarrow> int \<Rightarrow> int \<Rightarrow> bool \<Rightarrow> int
    \<Rightarrow> budget_db \<Rightarrow> nat option \<times> budget_db" where
  "record_model_turn_observation scale run t role iteration request_estimated usage arguments
       write_patch progress max_output db =
     (if \<not> worker_role role then (None, db)
      else
        (let prior_prompt = (case latest_observation db run t role of None \<Rightarrow> 0
               | Some ob \<Rightarrow> actual_prompt_tokens ob);
             growth = max 0 (prompt_tokens usage - prior_prompt);
             oid = Suc (length (observations db));
             ob = \<lparr>ob_id = oid, ob_run_id = run, ob_task_id = t, ob_role = role,
                   ob_iteration = iteration, request_estimated_tokens = request_estimated,
                   actual_prompt_tokens = prompt_tokens usage,
                   actual_completion_tokens = completion_tokens usage,
                   tool_argument_tokens = arguments, tool_result_tokens = 0,
                   write_patch_argument_tokens = write_patch, compacted_tool_argument_tokens = 0,
                   context_growth_tokens = growth, has_real_progress = progress\<rparr>;
             predicted = next_input_prediction scale request_estimated (prompt_tokens usage) growth
               arguments 0 write_patch
         in (Some oid, update_cost_prediction run t role predicted max_output ''model turn''
               (db\<lparr>observations := ob # observations db\<rparr>))))"

definition record_tool_outcome_observation ::
  "(int \<Rightarrow> int) \<Rightarrow> nat \<Rightarrow> int \<Rightarrow> bool \<Rightarrow> int \<Rightarrow> int \<Rightarrow> budget_db \<Rightarrow> budget_db" where
  "record_tool_outcome_observation scale oid results progress max_output compacted db =
     (case find (\<lambda>ob. ob_id ob = oid) (observations db) of
        None \<Rightarrow> db
      | Some ob \<Rightarrow>
          (let db1 = db\<lparr>observations := map (\<lambda>o'. if ob_id o' = oid
                 then o'\<lparr>tool_result_tokens := results, compacted_tool_argument_tokens := compacted,
                   has_real_progress := has_real_progress o' \<or> progress\<rparr> else o') (observations db)\<rparr>;
               retained_arguments = max 0 (tool_argument_tokens ob - compacted);
               retained_write_patch = max 0 (write_patch_argument_tokens ob - compacted);
               predicted = next_input_prediction scale (request_estimated_tokens ob)
                 (actual_prompt_tokens ob) (context_growth_tokens ob) retained_arguments results
                 retained_write_patch
           in update_cost_prediction (ob_run_id ob) (ob_task_id ob)
                (if ob_role ob = DEVELOPER then DEVELOPER else REPAIR) predicted max_output
                ''tool outcome'' db1))"

definition reclaim_unused_task_budget :: "uuid \<Rightarrow> task_id \<Rightarrow> budget_db \<Rightarrow> budget_db" where
  "reclaim_unused_task_budget run t db =
     db\<lparr>task_budgets := update_row (task_budgets db) (run, t) (\<lambda>r.
       r\<lparr>tb_status := RECLAIMED, last_budget_decision := Some ''SOFT_SHARE_RELEASED'',
         last_budget_reason := Some ''soft share only; nothing moved to FLEX''\<rparr>)\<rparr>"

section \<open>Reading a budget\<close>

text \<open>\<open>snapshot\<close> returns the counters of one Run through the validating model \<open>RunTokenBudget\<close>; a
  missing row reads as an untouched default budget.\<close>

definition RunTokenBudget :: "run_budget_row \<Rightarrow> run_budget_row res" where
  "RunTokenBudget b =
     (if \<not> (1 \<le> total_budget_tokens b \<and> 0 \<le> used_prompt_tokens b \<and> 0 \<le> used_completion_tokens b
          \<and> 0 \<le> used_total_tokens b \<and> 0 \<le> reserved_tokens b)
      then Inl (ValueError ''budget counters'')
      else if used_total_tokens b \<noteq> used_prompt_tokens b + used_completion_tokens b
      then Inl (ValueError ''run token total must equal prompt plus completion tokens'')
      else Inr b)"

definition budget_snapshot :: "int \<Rightarrow> uuid \<Rightarrow> budget_db \<Rightarrow> run_budget_row res" where
  "budget_snapshot default_total run db =
     (case run_budgets db run of
        None \<Rightarrow> RunTokenBudget (new_budget_row default_total)
      | Some b \<Rightarrow> RunTokenBudget b)"

lemmas [exec_defs] = status_for_def stage_for_def actual_usage_def next_input_prediction_def
  get_pool_def map_pool_def worker_role_def update_row_def insert_absent_def new_budget_row_def
  initialize_def latest_observation_def calibrated_input_estimate_def
  record_soft_share_reservation_def add_stage_reserved_def reserve_hierarchy_def
  persist_run_exhausted_status_def reserve_def settle_hierarchy_def add_role_usage_def
  find_reservation_def finish_reservation_def cancel_def settle_def record_stage_usage_def
  record_usage_def update_cost_prediction_def RunTokenBudget_def budget_snapshot_def

section \<open>The status scale\<close>

text \<open>Statuses are ordered by severity.\<close>

instantiation run_token_budget_status :: linorder
begin

definition severity :: "run_token_budget_status \<Rightarrow> nat" where
  "severity s = (case s of NORMAL \<Rightarrow> 0 | WARNING \<Rightarrow> 1 | CRITICAL \<Rightarrow> 2 | EXHAUSTED \<Rightarrow> 3)"

definition less_eq_run_token_budget_status :: "run_token_budget_status \<Rightarrow> run_token_budget_status \<Rightarrow> bool" where
  "s \<le> t \<longleftrightarrow> severity s \<le> severity t"

definition less_run_token_budget_status :: "run_token_budget_status \<Rightarrow> run_token_budget_status \<Rightarrow> bool" where
  "s < t \<longleftrightarrow> severity s < severity t"

instance
proof
  fix s t u :: run_token_budget_status
  show "(s < t) = (s \<le> t \<and> \<not> t \<le> s)"
    by (auto simp: less_eq_run_token_budget_status_def less_run_token_budget_status_def)
  show "s \<le> s" by (simp add: less_eq_run_token_budget_status_def)
  show "s \<le> t \<Longrightarrow> t \<le> u \<Longrightarrow> s \<le> u" by (simp add: less_eq_run_token_budget_status_def)
  show "s \<le> t \<Longrightarrow> t \<le> s \<Longrightarrow> s = t"
    by (cases s; cases t) (auto simp: less_eq_run_token_budget_status_def severity_def)
  show "s \<le> t \<or> t \<le> s" by (auto simp: less_eq_run_token_budget_status_def)
qed

end

lemma status_for_mono: "c \<le> d \<Longrightarrow> status_for c l \<le> status_for d l"
  by (auto simp: status_for_def less_eq_run_token_budget_status_def severity_def)

lemma status_for_exhausted: "0 < l \<Longrightarrow> status_for c l = EXHAUSTED \<longleftrightarrow> l \<le> c"
  by (auto simp: status_for_def)

section \<open>The ledger invariant\<close>

definition held :: "reservation_row \<Rightarrow> int" where
  "held r = reserved_input_tokens r + reserved_output_tokens r"

definition live :: "budget_db \<Rightarrow> uuid \<Rightarrow> int" where
  "live db run = (\<Sum>r \<leftarrow> filter (\<lambda>r. rr_run_id r = run) (run_reservations db). held r)"

definition row_ok :: "run_budget_row \<Rightarrow> bool" where
  "row_ok b \<longleftrightarrow> 1 \<le> total_budget_tokens b \<and> 0 \<le> used_prompt_tokens b \<and> 0 \<le> used_completion_tokens b
     \<and> used_total_tokens b = used_prompt_tokens b + used_completion_tokens b"

definition ledger_inv :: "budget_db \<Rightarrow> bool" where
  "ledger_inv db \<longleftrightarrow>
     distinct (map reservation_id (run_reservations db)) \<and>
     (\<forall>r \<in> set (run_reservations db). 0 \<le> reserved_input_tokens r \<and> 0 < reserved_output_tokens r \<and>
        run_budgets db (rr_run_id r) \<noteq> None) \<and>
     (\<forall>run b. run_budgets db run = Some b \<longrightarrow> row_ok b \<and> reserved_tokens b = live db run)"

lemma ledger_inv_empty: "ledger_inv empty_db"
  by (simp add: ledger_inv_def empty_db_def)

lemma hierarchy_frame [simp]:
  "run_budgets (reserve_hierarchy run t role n c db) = run_budgets db"
  "run_reservations (reserve_hierarchy run t role n c db) = run_reservations db"
  "run_budgets (settle_hierarchy run t role n u p db) = run_budgets db"
  "run_reservations (settle_hierarchy run t role n u p db) = run_reservations db"
  "run_budgets (add_role_usage run role x y z db) = run_budgets db"
  "run_reservations (add_role_usage run role x y z db) = run_reservations db"
  "run_budgets (record_stage_usage run role z db) = run_budgets db"
  "run_reservations (record_stage_usage run role z db) = run_reservations db"
  by (simp_all add: reserve_hierarchy_def add_stage_reserved_def record_soft_share_reservation_def
      settle_hierarchy_def add_role_usage_def record_stage_usage_def Let_def)

lemma ledger_inv_frame:
  assumes "run_budgets db' = run_budgets db" and "run_reservations db' = run_reservations db"
  shows "ledger_inv db' \<longleftrightarrow> ledger_inv db"
  using assms by (simp add: ledger_inv_def live_def)

lemma live_append:
  "live (db\<lparr>run_reservations := run_reservations db @ [r]\<rparr>) run =
     live db run + (if rr_run_id r = run then held r else 0)"
  by (simp add: live_def)

lemma live_cong: "run_reservations db' = run_reservations db \<Longrightarrow> live db' run = live db run"
  by (simp add: live_def)

lemma find_reservation_Some:
  "find_reservation rid db = Some r \<Longrightarrow> r \<in> set (run_reservations db) \<and> reservation_id r = rid"
  by (auto simp: find_reservation_def find_Some_iff)

lemma find_reservation_None:
  "find_reservation rid db = None \<longleftrightarrow> rid \<notin> reservation_id ` set (run_reservations db)"
  by (auto simp: find_reservation_def find_None_iff)

lemma live_nonneg: "ledger_inv db \<Longrightarrow> 0 \<le> live db run"
  unfolding live_def by (rule sum_list_nonneg) (force simp: ledger_inv_def held_def)

lemma held_le_live:
  assumes "ledger_inv db" and "r \<in> set (run_reservations db)"
  shows "held r \<le> live db (rr_run_id r)"
  unfolding live_def
  by (rule weight_le_sum [where key = reservation_id])
     (use assms in \<open>force simp: ledger_inv_def held_def\<close>)+

section \<open>Every transaction keeps the ledger\<close>

lemma initialize_spec:
  assumes "initialize d run x db = Inr db'"
  obtains b where "run_budgets db' run = Some b"
    and "run_budgets db run = Some b \<and> db' = db \<or>
      run_budgets db run = None \<and> (\<exists>n > 0. b = new_budget_row n) \<and>
      db' = db\<lparr>run_budgets := (run_budgets db)(run \<mapsto> b)\<rparr>"
proof (cases "run_budgets db run")
  case None
  define n where "n = (case x of None \<Rightarrow> d | Some t \<Rightarrow> if t = 0 then d else t)"
  have "n > 0" "db' = db\<lparr>run_budgets := (run_budgets db)(run \<mapsto> new_budget_row n)\<rparr>"
    using assms None unfolding initialize_def insert_absent_def Let_def n_def [symmetric]
    by (auto split: if_splits)
  with that None show thesis by auto
next
  case (Some b)
  then have "db' = db" using assms by (auto simp: initialize_def Let_def insert_absent_def split: if_splits)
  with that Some show thesis by blast
qed

lemma initialize_inv [inv_rules]:
  assumes inv: "ledger_inv db" and "initialize d run x db = Inr db'"
  shows "ledger_inv db'"
proof -
  obtain b where b: "run_budgets db run = Some b \<and> db' = db \<or>
      run_budgets db run = None \<and> (\<exists>n > 0. b = new_budget_row n) \<and>
      db' = db\<lparr>run_budgets := (run_budgets db)(run \<mapsto> b)\<rparr>"
    by (rule initialize_spec [OF assms(2)])
  show ?thesis
  proof (cases "db' = db")
    case True
    with inv show ?thesis by simp
  next
    case False
    with b obtain n where n: "n > 0" "run_budgets db run = None"
      "db' = db\<lparr>run_budgets := (run_budgets db)(run \<mapsto> new_budget_row n)\<rparr>" by auto
    have "\<forall>r \<in> set (run_reservations db). rr_run_id r \<noteq> run"
      using inv n(2) by (auto simp: ledger_inv_def)
    then have "live db run = 0" by (simp add: live_def filter_empty_conv)
    then show ?thesis using inv n
      by (auto simp: ledger_inv_def n(3) live_def row_ok_def new_budget_row_def)
  qed
qed

lemma next_input_prediction_ge: "c \<le> next_input_prediction scale c o' g a r w"
  by (simp add: next_input_prediction_def)

lemma calibrated_ge: "estimated \<le> calibrated_input_estimate scale db run t role estimated"
  unfolding calibrated_input_estimate_def Let_def
  by (simp only: next_input_prediction_ge max.cobounded1 order_refl split: if_split option.split) simp

lemma reserve_cases:
  assumes "reserve scale d rid run t role est out credit db = (outcome, db')"
  obtains (raised) e where "outcome = Raised e" "db' = db"
  | (refused) db1 b input where "0 \<le> est" "1 \<le> out" "initialize d run None db = Inr db1"
      "run_budgets db1 run = Some b" "est \<le> input"
      "used_total_tokens b + reserved_tokens b + (input + out) > total_budget_tokens b"
      "outcome = Refused \<lparr>ef_total_budget = total_budget_tokens b, ef_used_total = used_total_tokens b,
         ef_reserved = reserved_tokens b, ef_next_prompt = input, ef_completion_limit = out\<rparr>"
      "db' = persist_run_exhausted_status run db"
  | (reserved) db1 b input res where "0 \<le> est" "1 \<le> out" "initialize d run None db = Inr db1"
      "run_budgets db1 run = Some b" "est \<le> input"
      "used_total_tokens b + reserved_tokens b + (input + out) \<le> total_budget_tokens b"
      "rid \<notin> reservation_id ` set (run_reservations db1)"
      "res = \<lparr>reservation_id = rid, rr_run_id = run, rr_task_id = t, rr_role = role,
         reserved_input_tokens = input, reserved_output_tokens = out\<rparr>"
      "outcome = Reserved res"
      "run_budgets db' = (run_budgets db1)(run \<mapsto> b\<lparr>reserved_tokens := reserved_tokens b + (input + out),
         rb_status := status_for (used_total_tokens b + reserved_tokens b + (input + out))
           (total_budget_tokens b)\<rparr>)"
      "run_reservations db' = run_reservations db1 @ [res]"
proof (cases "est < 0 \<or> out < 1")
  case True
  then show thesis using raised assms by (auto simp: reserve_def)
next
  case pos: False
  define input where "input = calibrated_input_estimate scale db run t role est"
  show thesis
  proof (cases "initialize d run None db")
    case (Inl e)
    with pos assms raised show thesis by (auto simp: reserve_def Let_def)
  next
    case (Inr db1)
    obtain b where b: "run_budgets db1 run = Some b" by (rule initialize_spec [OF Inr])
    have input: "est \<le> input" unfolding input_def by (rule calibrated_ge)
    show thesis
    proof (cases "used_total_tokens b + reserved_tokens b + (input + out) > total_budget_tokens b")
      case True
      with refused [OF _ _ Inr b input] pos assms Inr b show thesis
        by (auto simp: reserve_def Let_def input_def)
    next
      case fits: False
      show thesis
      proof (cases "rid \<in> reservation_id ` set (run_reservations db1)")
        case True
        with pos fits assms Inr b raised show thesis
          by (auto simp: reserve_def Let_def input_def)
      next
        case False
        with reserved [OF _ _ Inr b input _ _ refl] pos fits assms Inr b show thesis
          by (auto simp: reserve_def Let_def input_def)
      qed
    qed
  qed
qed

lemma ledger_inv_rows:
  assumes inv: "ledger_inv db" and rs: "run_reservations db' = run_reservations db"
    and none: "\<And>k. run_budgets db k = None \<Longrightarrow> run_budgets db' k = None"
    and some: "\<And>k b. run_budgets db k = Some b \<Longrightarrow> row_ok b \<Longrightarrow>
      \<exists>b'. run_budgets db' k = Some b' \<and> row_ok b' \<and> reserved_tokens b' = reserved_tokens b"
  shows "ledger_inv db'"
proof -
  have "row_ok b' \<and> reserved_tokens b' = live db' k" if b': "run_budgets db' k = Some b'" for k b'
  proof -
    obtain b where b: "run_budgets db k = Some b" using none [of k] b' by (cases "run_budgets db k") auto
    then have "row_ok b" "reserved_tokens b = live db k" using inv by (auto simp: ledger_inv_def)
    with some [OF b] b' live_cong [OF rs] show ?thesis by auto
  qed
  moreover have "run_budgets db' k \<noteq> None" if "run_budgets db k \<noteq> None" for k
    using that some inv by (fastforce simp: ledger_inv_def)
  ultimately show ?thesis using inv by (auto simp: ledger_inv_def rs)
qed

lemma exhausted_status_inv [inv_rules]:
  "ledger_inv db \<Longrightarrow> ledger_inv (persist_run_exhausted_status run db)"
  by (erule ledger_inv_rows)
     (auto simp: persist_run_exhausted_status_def update_row_def row_ok_def split: option.splits)

lemma reserve_inv [inv_rules]:
  assumes inv: "ledger_inv db" and r: "reserve scale d rid run t role est out credit db = (outcome, db')"
  shows "ledger_inv db'"
  using r
proof (cases rule: reserve_cases)
  case (raised e)
  with inv show ?thesis by simp
next
  case (refused db1 b input)
  with exhausted_status_inv [OF inv] show ?thesis by simp
next
  case (reserved db1 b input res)
  have inv1: "ledger_inv db1" by (rule initialize_inv [OF inv reserved(3)])
  have b: "row_ok b" "reserved_tokens b = live db1 run" using inv1 reserved(4) by (auto simp: ledger_inv_def)
  have "live db' k = live db1 k + (if k = run then input + out else 0)" for k
    using reserved(8,11) by (simp add: live_def held_def)
  moreover have "distinct (map reservation_id (run_reservations db'))"
    using inv1 reserved(7,8,11) by (simp add: ledger_inv_def)
  moreover have "\<forall>x \<in> set (run_reservations db'). 0 \<le> reserved_input_tokens x \<and>
      0 < reserved_output_tokens x \<and> run_budgets db' (rr_run_id x) \<noteq> None"
    using inv1 reserved(1,2,5,8,10,11) by (auto simp: ledger_inv_def)
  ultimately show ?thesis
    using inv1 b reserved(10) unfolding ledger_inv_def by (auto simp: row_ok_def)
qed

text \<open>A handle is genuine when a stored row with its id is the row it was made from.\<close>

definition genuine :: "reservation_row \<Rightarrow> budget_db \<Rightarrow> bool" where
  "genuine r db \<longleftrightarrow> (\<forall>row. find_reservation (reservation_id r) db = Some row \<longrightarrow> row = r)"

definition usage_ok :: "token_usage option \<Rightarrow> bool" where
  "usage_ok u = (case u of None \<Rightarrow> True
     | Some x \<Rightarrow> 0 \<le> prompt_tokens x \<and> 0 \<le> completion_tokens x \<and> 0 \<le> total_tokens x)"

lemma finish_cases:
  assumes inv: "ledger_inv db" and gen: "genuine r db"
  obtains (gone) "find_reservation (reservation_id r) db = None" "finish_reservation r u db = Inr db"
  | (freed) b prompt completion db' where "r \<in> set (run_reservations db)"
      "find_reservation (reservation_id r) db = Some r"
      "run_budgets db (rr_run_id r) = Some b"
      "actual_usage u (reserved_input_tokens r) (reserved_output_tokens r) = (prompt, completion)"
      "finish_reservation r u db = Inr db'"
      "run_budgets db' = (run_budgets db)(rr_run_id r \<mapsto> b\<lparr>
         reserved_tokens := max 0 (reserved_tokens b - held r),
         used_prompt_tokens := used_prompt_tokens b + prompt,
         used_completion_tokens := used_completion_tokens b + completion,
         used_total_tokens := used_total_tokens b + (prompt + completion),
         rb_status := status_for (used_total_tokens b + (prompt + completion)) (total_budget_tokens b)\<rparr>)"
      "run_reservations db' = filter (\<lambda>x. reservation_id x \<noteq> reservation_id r) (run_reservations db)"
proof (cases "find_reservation (reservation_id r) db")
  case None
  then show thesis using gone by (simp add: finish_reservation_def)
next
  case (Some row)
  then have row: "row = r" and mem: "r \<in> set (run_reservations db)"
    using gen find_reservation_Some [OF Some] Some by (auto simp: genuine_def)
  then obtain b where b: "run_budgets db (rr_run_id r) = Some b"
    using inv by (auto simp: ledger_inv_def)
  obtain p c where pc: "actual_usage u (reserved_input_tokens r) (reserved_output_tokens r) = (p, c)"
    by (cases "actual_usage u (reserved_input_tokens r) (reserved_output_tokens r)")
  have "\<exists>db'. finish_reservation r u db = Inr db' \<and> run_budgets db' = (run_budgets db)(rr_run_id r \<mapsto> b\<lparr>
         reserved_tokens := max 0 (reserved_tokens b - held r),
         used_prompt_tokens := used_prompt_tokens b + p,
         used_completion_tokens := used_completion_tokens b + c,
         used_total_tokens := used_total_tokens b + (p + c),
         rb_status := status_for (used_total_tokens b + (p + c)) (total_budget_tokens b)\<rparr>) \<and>
      run_reservations db' = filter (\<lambda>x. reservation_id x \<noteq> reservation_id r) (run_reservations db)"
    using Some row b pc by (cases "u = None") (simp_all add: finish_reservation_def Let_def held_def)
  with freed [OF mem _ b pc] Some row show thesis by blast
qed

lemma actual_usage_nonneg:
  assumes "actual_usage u i out = (p, c)" and "usage_ok u" and "0 \<le> i" and "0 \<le> out"
  shows "0 \<le> p" and "0 \<le> c"
  using assms by (auto simp: actual_usage_def usage_ok_def split: option.splits if_splits)

lemma finish_inv [inv_rules]:
  assumes inv: "ledger_inv db" and gen: "genuine r db" and u: "usage_ok u"
    and res: "finish_reservation r u db = Inr db''"
  shows "ledger_inv db''"
  using inv gen
proof (cases rule: finish_cases [where u = u])
  case gone
  with res inv show ?thesis by simp
next
  case (freed b p c db')
  have db': "db'' = db'" using freed(5) res by simp
  have r: "0 \<le> reserved_input_tokens r" "0 < reserved_output_tokens r"
    using inv freed(1) by (auto simp: ledger_inv_def)
  note nonneg = actual_usage_nonneg [OF freed(4) u]
  have b: "row_ok b" "reserved_tokens b = live db (rr_run_id r)"
    using inv freed(3) by (auto simp: ledger_inv_def)
  have live: "live db' k = live db k - (if rr_run_id r = k then held r else 0)" for k
    using sum_remove_key [where key = reservation_id and rs = "run_reservations db" and r = r and weight = held] inv freed(1)
    by (simp add: live_def freed(7) ledger_inv_def)
  have "max 0 (reserved_tokens b - held r) = live db' (rr_run_id r)"
    using held_le_live [OF inv freed(1)] b(2) live by simp
  then have "\<forall>run x. run_budgets db' run = Some x \<longrightarrow> row_ok x \<and> reserved_tokens x = live db' run"
    using inv b(1) nonneg r live freed(6) by (auto simp: ledger_inv_def row_ok_def)
  moreover have "distinct (map reservation_id (run_reservations db'))"
    using inv by (auto simp: ledger_inv_def freed(7) intro: distinct_map_filter)
  moreover have "\<forall>x \<in> set (run_reservations db'). 0 \<le> reserved_input_tokens x \<and>
      0 < reserved_output_tokens x \<and> run_budgets db' (rr_run_id x) \<noteq> None"
    using inv by (auto simp: ledger_inv_def freed(6,7))
  ultimately show ?thesis by (simp add: ledger_inv_def db')
qed

lemma record_usage_inv [inv_rules]:
  assumes inv: "ledger_inv db" and u: "usage_ok (Some usage)" and res: "record_usage run role usage db = Inr db'"
  shows "ledger_inv db'"
proof -
  have sum: "total_tokens usage = prompt_tokens usage + completion_tokens usage"
    using res by (auto simp: record_usage_def Let_def split: if_splits)
  show ?thesis
    by (rule ledger_inv_rows [OF inv])
       (use res u sum in \<open>auto simp: record_usage_def Let_def update_row_def row_ok_def usage_ok_def
          split: if_splits option.splits\<close>)
qed

lemma initialize_hierarchy_spec:
  assumes "initialize_hierarchy est share ad d run g out db = Inr db'"
  shows "db' = db \<or> (\<exists>db1. initialize d run None db = Inr db1 \<and>
    run_budgets db' = run_budgets db1 \<and> run_reservations db' = run_reservations db1)"
  using assms by (auto simp: initialize_hierarchy_def Let_def bind_res_eq_Inr split: if_splits)

lemma observation_frame:
  "run_budgets (snd (record_model_turn_observation scale run t role i e u a w pr out db)) = run_budgets db"
  "run_reservations (snd (record_model_turn_observation scale run t role i e u a w pr out db)) = run_reservations db"
  "run_budgets (record_tool_outcome_observation scale oid res pr out cpt db) = run_budgets db"
  "run_reservations (record_tool_outcome_observation scale oid res pr out cpt db) = run_reservations db"
  "run_budgets (reclaim_unused_task_budget run t db) = run_budgets db"
  "run_reservations (reclaim_unused_task_budget run t db) = run_reservations db"
  by (simp_all add: record_model_turn_observation_def record_tool_outcome_observation_def
      reclaim_unused_task_budget_def update_cost_prediction_def Let_def split: option.splits)

section \<open>Runs of the store\<close>

text \<open>Any interleaving of the store's transactions, with genuine handles and non-negative usage. The
  second relation restricts settlements to what was reserved and planning usage to what
  still fits.\<close>

inductive budget_step :: "budget_db \<Rightarrow> budget_db \<Rightarrow> bool" where
  b_init: "initialize d run x db = Inr db' \<Longrightarrow> budget_step db db'"
| b_hierarchy: "initialize_hierarchy est share ad d run g out db = Inr db' \<Longrightarrow> budget_step db db'"
| b_reserve: "reserve scale d rid run t role e out credit db = (oc, db') \<Longrightarrow> budget_step db db'"
| b_finish: "genuine r db \<Longrightarrow> usage_ok u \<Longrightarrow> finish_reservation r u db = Inr db' \<Longrightarrow> budget_step db db'"
| b_usage: "usage_ok (Some u) \<Longrightarrow> record_usage run role u db = Inr db' \<Longrightarrow> budget_step db db'"
| b_turn: "budget_step db (snd (record_model_turn_observation scale run t role i e u a w pr out db))"
| b_tool: "budget_step db (record_tool_outcome_observation scale oid res pr out cpt db)"
| b_reclaim: "budget_step db (reclaim_unused_task_budget run t db)"

definition account_of :: "budget_db \<Rightarrow> uuid \<Rightarrow> account option" where
  "account_of db run = map_option (\<lambda>b. \<lparr>acc_total = total_budget_tokens b,
     acc_used = used_total_tokens b, acc_reserved = reserved_tokens b\<rparr>) (run_budgets db run)"

inductive honest_step :: "budget_db \<Rightarrow> budget_db \<Rightarrow> bool" where
  h_init: "initialize d run x db = Inr db' \<Longrightarrow> honest_step db db'"
| h_hierarchy: "initialize_hierarchy est share ad d run g out db = Inr db' \<Longrightarrow> honest_step db db'"
| h_reserve: "reserve scale d rid run t role e out credit db = (oc, db') \<Longrightarrow> honest_step db db'"
| h_finish: "genuine r db \<Longrightarrow> usage_ok u \<Longrightarrow>
    actual_usage u (reserved_input_tokens r) (reserved_output_tokens r) = (p, c) \<Longrightarrow> p + c \<le> held r \<Longrightarrow>
    finish_reservation r u db = Inr db' \<Longrightarrow> honest_step db db'"
| h_turn: "honest_step db (snd (record_model_turn_observation scale run t role i e u a w pr out db))"
| h_tool: "honest_step db (record_tool_outcome_observation scale oid res pr out cpt db)"
| h_reclaim: "honest_step db (reclaim_unused_task_budget run t db)"

abbreviation budget_init :: "budget_db \<Rightarrow> bool" where
  "budget_init \<equiv> \<lambda>db. db = empty_db"

lemma budget_step_inv: "ledger_inv db \<Longrightarrow> budget_step db db' \<Longrightarrow> ledger_inv db'"
proof (erule budget_step.cases, goal_cases)
  case (2 est share ad d run g out db0 db1)
  then show ?case
    using initialize_hierarchy_spec [OF 2(4)] initialize_inv ledger_inv_frame by metis
qed (auto intro: initialize_inv reserve_inv finish_inv record_usage_inv
      simp: ledger_inv_frame [OF observation_frame(1,2)] ledger_inv_frame [OF observation_frame(3,4)]
        ledger_inv_frame [OF observation_frame(5,6)])

lemma honest_step_budget: "honest_step db db' \<Longrightarrow> budget_step db db'"
  by (erule honest_step.cases) (auto intro: budget_step.intros)

interpretation budget: transition_system budget_init budget_step ledger_inv
  by unfold_locales (auto intro: ledger_inv_empty budget_step_inv)

lemma initialize_move:
  assumes "initialize d run x db = Inr db'"
  shows "account_move (account_of db k) (account_of db' k)"
proof -
  obtain b where "run_budgets db run = Some b \<and> db' = db \<or>
      run_budgets db run = None \<and> (\<exists>n > 0. b = new_budget_row n) \<and>
      db' = db\<lparr>run_budgets := (run_budgets db)(run \<mapsto> b)\<rparr>"
    by (rule initialize_spec [OF assms])
  then show ?thesis
    by (cases "k = run") (auto simp: account_of_def new_budget_row_def intro: account_move.intros)
qed

lemma refused_move: "account_move (account_of db k) (account_of (persist_run_exhausted_status run db) k)"
proof -
  have "account_of (persist_run_exhausted_status run db) k = account_of db k"
    by (auto simp: account_of_def persist_run_exhausted_status_def update_row_def split: option.splits)
  then show ?thesis by (simp add: account_move.same)
qed

lemma finish_move:
  assumes inv: "ledger_inv db" and gen: "genuine r db" and u: "usage_ok u"
    and pc: "actual_usage u (reserved_input_tokens r) (reserved_output_tokens r) = (p, c)" "p + c \<le> held r"
    and res: "finish_reservation r u db = Inr db''"
  shows "account_move (account_of db k) (account_of db'' k)"
  using inv gen
proof (cases rule: finish_cases [where u = u])
  case gone
  with res show ?thesis by (simp add: account_move.same)
next
  case (freed b p' c' db')
  then have eq: "db'' = db'" "p' = p" "c' = c" using res pc by auto
  have r: "0 \<le> reserved_input_tokens r" "0 < reserved_output_tokens r"
    using inv freed(1) by (auto simp: ledger_inv_def)
  have nonneg: "0 \<le> p + c" using actual_usage_nonneg [OF pc(1) u] r by simp
  have le: "held r \<le> reserved_tokens b"
    using held_le_live [OF inv freed(1)] inv freed(3) by (auto simp: ledger_inv_def)
  show ?thesis
  proof (cases "k = rr_run_id r")
    case True
    let ?a = "\<lparr>acc_total = total_budget_tokens b, acc_used = used_total_tokens b,
      acc_reserved = reserved_tokens b\<rparr>"
    have "account_move (Some ?a) (Some (?a\<lparr>acc_used := acc_used ?a + (p + c),
        acc_reserved := acc_reserved ?a - held r\<rparr>))"
      by (rule account_move.finished) (use nonneg pc(2) le in auto)
    then show ?thesis using True le freed(3,6) eq by (simp add: account_of_def)
  next
    case False
    then show ?thesis using freed(6) eq by (simp add: account_of_def account_move.same)
  qed
qed

lemma reserve_account:
  assumes "reserve scale d rid run t role est out credit db = (outcome, db')"
  shows "\<exists>mid. account_move (account_of db k) mid \<and> account_move mid (account_of db' k)"
  using assms
proof (cases rule: reserve_cases)
  case (raised e)
  then show ?thesis using account_move.same by auto
next
  case (refused db1 b input)
  then show ?thesis using refused_move account_move.same by blast
next
  case (reserved db1 b input res)
  have "account_move (account_of db1 k) (account_of db' k)"
  proof (cases "k = run")
    case True
    let ?a = "\<lparr>acc_total = total_budget_tokens b, acc_used = used_total_tokens b,
      acc_reserved = reserved_tokens b\<rparr>"
    have "account_move (Some ?a) (Some (?a\<lparr>acc_reserved := acc_reserved ?a + (input + out)\<rparr>))"
      by (rule account_move.held) (use reserved(1,2,5,6) in auto)
    then show ?thesis using True reserved(4,10) by (simp add: account_of_def)
  next
    case False
    then show ?thesis using reserved(10) by (simp add: account_of_def account_move.same)
  qed
  with initialize_move [OF reserved(3)] show ?thesis by blast
qed

lemma honest_step_moves:
  assumes inv: "ledger_inv db" and "honest_step db db'"
  shows "account_move\<^sup>*\<^sup>* (account_of db k) (account_of db' k)"
  using assms(2)
proof (cases rule: honest_step.cases)
  case (h_init d run x)
  then show ?thesis by (blast intro: initialize_move)
next
  case (h_hierarchy est share ad d run g out)
  from initialize_hierarchy_spec [OF this] show ?thesis
    by (auto simp: account_of_def dest!: initialize_move [where k = k])
next
  case (h_reserve scale d rid run t role e out credit oc)
  from reserve_account [OF this] show ?thesis
    by (blast intro: converse_rtranclp_into_rtranclp)
next
  case (h_finish r u p c)
  from finish_move [OF inv this] show ?thesis by blast
qed (simp_all add: account_of_def observation_frame)

lemma account_of_empty: "account_of empty_db k = None"
  by (simp add: account_of_def empty_db_def)

interpretation run_budget: reservation_ledger budget_init honest_step ledger_inv account_of
proof unfold_locales
  fix db db' assume "ledger_inv db" "honest_step db db'"
  then show "ledger_inv db'" using honest_step_budget budget_step_inv by blast
qed (auto simp: ledger_inv_empty account_of_empty intro: honest_step_moves)

section \<open>Properties\<close>

definition demo_scale :: "int \<Rightarrow> int" where
  "demo_scale n = (n * 115 + 99) div 100"

definition demo_reserve :: "reserve_outcome \<times> budget_db" where
  "demo_reserve = reserve demo_scale 1000 7 1 ''T1'' DEVELOPER 300 200 NORMAL_CREDIT empty_db"

definition demo_res :: reservation_row where
  "demo_res = \<lparr>reservation_id = 7, rr_run_id = 1, rr_task_id = ''T1'', rr_role = DEVELOPER,
     reserved_input_tokens = 300, reserved_output_tokens = 200\<rparr>"

definition demo_row :: run_budget_row where
  "demo_row = (new_budget_row 1000)\<lparr>reserved_tokens := 500\<rparr>"

lemma demo_reserve_fst: "fst demo_reserve = Reserved demo_res"
  by code_simp

lemma demo_reserve_row: "run_budgets (snd demo_reserve) 1 = Some demo_row"
  by code_simp

lemma demo_reserve_honest: "reachable budget_init honest_step (snd demo_reserve)"
proof -
  have "honest_step empty_db (snd demo_reserve)"
    unfolding demo_reserve_def by (rule h_reserve [OF surjective_pairing])
  then show ?thesis by (auto intro: reach_step reach_init)
qed

lemma demo_reserve_reachable: "reachable budget_init budget_step (snd demo_reserve)"
proof -
  have "budget_step empty_db (snd demo_reserve)"
    unfolding demo_reserve_def by (rule b_reserve [OF surjective_pairing])
  then show ?thesis by (auto intro: reach_step reach_init)
qed



text \<open>C13. The stored counters are exact. In every state reached by any interleaving of
  transactions, however large the reported usage, a Run's reserved counter is the sum of
  its live reservation rows, its used total is the sum of its prompt and completion
  counters, and reading the budget through its validating model succeeds; the clamping
  at zero in the settlement never applies.\<close>

theorem run_budget_ledger_exact:
  assumes "reachable budget_init budget_step db" and "run_budgets db run = Some b"
  shows "reserved_tokens b = live db run \<and>
    used_total_tokens b = used_prompt_tokens b + used_completion_tokens b \<and>
    budget_snapshot d run db = Inr b \<and>
    (\<forall>r \<in> set (run_reservations db). rr_run_id r = run \<longrightarrow> held r \<le> reserved_tokens b)"
proof -
  have inv: "ledger_inv db" by (rule budget.reach_inv [OF assms(1)])
  then have "row_ok b" "reserved_tokens b = live db run" using assms(2) by (auto simp: ledger_inv_def)
  moreover have "0 \<le> live db run" by (rule live_nonneg [OF inv])
  ultimately show ?thesis
    using assms(2) held_le_live [OF inv]
    by (auto simp: budget_snapshot_def RunTokenBudget_def row_ok_def)
qed

theorem run_budget_ledger_exact_witness:
  "reserved_tokens demo_row = live (snd demo_reserve) 1 \<and>
   budget_snapshot 1000 1 (snd demo_reserve) = Inr demo_row"
  using run_budget_ledger_exact [OF demo_reserve_reachable demo_reserve_row] by blast

text \<open>Admission control of \<open>reserve\<close>, on every outcome. A granted reservation holds at least
  the caller's estimate plus the output limit, is stored, and leaves the Run within its
  total with the reserved counter raised by exactly what it holds; a refusal happens only
  when the call does not fit, reports a positive shortfall, and changes nothing but the
  Run's status; any exception leaves the database unchanged.\<close>

theorem reserve_admission:
  assumes "ledger_inv db"
    and "reserve scale d rid run t role est out credit db = (outcome, db')"
  shows "case outcome of
      Raised e \<Rightarrow> db' = db
    | Refused f \<Rightarrow> 0 < ef_shortfall f \<and> run_reservations db' = run_reservations db \<and>
        (\<forall>k. account_of db' k = account_of db k)
    | Reserved r \<Rightarrow> est + out \<le> held r \<and> run_reservations db' = run_reservations db @ [r] \<and>
        (\<exists>b. run_budgets db' run = Some b \<and> live db' run = live db run + held r \<and>
           reserved_tokens b = live db' run \<and>
           used_total_tokens b + reserved_tokens b \<le> total_budget_tokens b)"
  using assms(2)
proof (cases rule: reserve_cases)
  case (raised e)
  then show ?thesis by simp
next
  case (refused db1 b input)
  have "row_ok b" "reserved_tokens b = live db1 run"
    using initialize_inv [OF assms(1) refused(3)] refused(4) by (auto simp: ledger_inv_def)
  moreover have "account_of db' k = account_of db k" for k
    using refused(8)
    by (auto simp: account_of_def persist_run_exhausted_status_def update_row_def split: option.splits)
  ultimately show ?thesis using refused
    by (auto simp: ef_shortfall_def ef_required_def ef_remaining_def persist_run_exhausted_status_def)
next
  case (reserved db1 b input res)
  have inv': "ledger_inv db'" by (rule reserve_inv [OF assms])
  have rs: "run_reservations db1 = run_reservations db"
    by (rule initialize_spec [OF reserved(3)]) auto
  have lv: "live db' run = live db run + held res"
    using reserved(8,11) rs by (simp add: live_def held_def)
  obtain b' where b': "run_budgets db' run = Some b'" "total_budget_tokens b' = total_budget_tokens b"
      "used_total_tokens b' = used_total_tokens b"
      "reserved_tokens b' = reserved_tokens b + (input + out)"
    using reserved(10) by simp
  have "reserved_tokens b' = live db' run" using inv' b'(1) by (simp add: ledger_inv_def)
  moreover have "used_total_tokens b' + reserved_tokens b' \<le> total_budget_tokens b'"
    using b' reserved(6) by simp
  ultimately have "\<exists>b. run_budgets db' run = Some b \<and> live db' run = live db run + held res \<and>
      reserved_tokens b = live db' run \<and> used_total_tokens b + reserved_tokens b \<le> total_budget_tokens b"
    using b'(1) lv by blast
  moreover have "est + out \<le> held res" using reserved(5,8) by (simp add: held_def)
  ultimately show ?thesis using reserved(9,11) rs by simp
qed

theorem reserve_admission_witness:
  "demo_reserve = (Reserved demo_res, snd demo_reserve) \<and>
   run_reservations (snd demo_reserve) = run_reservations empty_db @ [demo_res]"
proof -
  have eq: "demo_reserve = (Reserved demo_res, snd demo_reserve)"
    using demo_reserve_fst by (metis surjective_pairing)
  have "run_reservations (snd demo_reserve) = run_reservations empty_db @ [demo_res]"
    using reserve_admission [OF ledger_inv_empty trans [OF demo_reserve_def [symmetric] eq]]
    unfolding reserve_outcome.case by (elim conjE)
  with eq show ?thesis by (rule conjI)
qed

lemma finish_gone:
  assumes "ledger_inv db" and "genuine r db" and "finish_reservation r u db = Inr db'"
  shows "find_reservation (reservation_id r) db' = None"
  using assms(1,2)
proof (cases rule: finish_cases [where u = u])
  case gone
  with assms(3) show ?thesis by simp
next
  case (freed b p c db1)
  with assms(3) show ?thesis by (auto simp: find_reservation_None)
qed

lemma finish_absent:
  "find_reservation (reservation_id r) db = None \<Longrightarrow> finish_reservation r u db = Inr db"
  by (simp add: finish_reservation_def)

text \<open>A reservation is finished exactly once. Settling or cancelling releases the stored row,
  and settling or cancelling the same handle again, with any usage, changes nothing.\<close>

theorem finish_reservation_once:
  assumes "ledger_inv db" and "genuine r db" and "finish_reservation r u db = Inr db'"
  shows "settle r v db' = Inr db' \<and> cancel r db' = Inr db' \<and>
    r \<notin> set (run_reservations db')"
proof -
  note gone = finish_gone [OF assms]
  then have "r \<notin> set (run_reservations db')" by (auto simp: find_reservation_None)
  with finish_absent [OF gone] show ?thesis by (simp add: settle_def cancel_def)
qed

theorem finish_reservation_once_witness:
  "\<exists>db'. cancel demo_res (snd demo_reserve) = Inr db' \<and> cancel demo_res db' = Inr db'"
proof -
  have inv: "ledger_inv (snd demo_reserve)" by (rule budget.reach_inv [OF demo_reserve_reachable])
  have f: "find_reservation (reservation_id demo_res) (snd demo_reserve) = Some demo_res" by code_simp
  then have gen: "genuine demo_res (snd demo_reserve)" by (simp add: genuine_def)
  obtain db' where c: "finish_reservation demo_res None (snd demo_reserve) = Inr db'"
    by (rule finish_cases [OF inv gen, of None]) (use f in auto)
  from finish_reservation_once [OF inv gen c] c show ?thesis by (auto simp: cancel_def)
qed

text \<open>Cancelling undoes reserving. After a granted reservation, cancelling it succeeds and
  gives back the reservation table and, for every Run, the total, used and reserved
  amounts that opening the Run's budget had.\<close>

theorem reserve_cancel_roundtrip:
  assumes "ledger_inv db"
    and "reserve scale d rid run t role est out credit db = (Reserved r, db1)"
  shows "\<exists>db0 db2. initialize d run None db = Inr db0 \<and> cancel r db1 = Inr db2 \<and>
    run_reservations db2 = run_reservations db \<and> (\<forall>k. account_of db2 k = account_of db0 k)"
  using assms(2)
proof (cases rule: reserve_cases)
  case (reserved db0 b input res)
  have inv1: "ledger_inv db1" by (rule reserve_inv [OF assms])
  have r: "r = res" "reservation_id r = rid" "rr_run_id r = run" "held r = input + out"
    using reserved(8,9) by (auto simp: held_def)
  have rs: "run_reservations db0 = run_reservations db"
    by (rule initialize_spec [OF reserved(3)]) auto
  have "find (\<lambda>x. reservation_id x = reservation_id r) (run_reservations db0) = None"
    using reserved(7) r(2) by (auto simp: find_None_iff image_iff)
  then have find: "find_reservation (reservation_id r) db1 = Some r"
    using find_append_fresh [of _ "run_reservations db0" r] reserved(11) r(1)
    by (simp add: find_reservation_def)
  then have gen: "genuine r db1" by (simp add: genuine_def)
  show ?thesis
  proof (rule finish_cases [OF inv1 gen, of None])
    assume "find_reservation (reservation_id r) db1 = None"
    with find show ?thesis by simp
  next
    fix b' p c db2
    assume f: "run_budgets db1 (rr_run_id r) = Some b'"
      "actual_usage None (reserved_input_tokens r) (reserved_output_tokens r) = (p, c)"
      "finish_reservation r None db1 = Inr db2"
      "run_budgets db2 = (run_budgets db1)(rr_run_id r \<mapsto> b'\<lparr>
         reserved_tokens := max 0 (reserved_tokens b' - held r),
         used_prompt_tokens := used_prompt_tokens b' + p,
         used_completion_tokens := used_completion_tokens b' + c,
         used_total_tokens := used_total_tokens b' + (p + c),
         rb_status := status_for (used_total_tokens b' + (p + c)) (total_budget_tokens b')\<rparr>)"
      "run_reservations db2 = filter (\<lambda>x. reservation_id x \<noteq> reservation_id r) (run_reservations db1)"
    have pc: "p = 0" "c = 0" using f(2) by (auto simp: actual_usage_def)
    have "0 \<le> reserved_tokens b"
      using initialize_inv [OF assms(1) reserved(3)] live_nonneg reserved(4)
      by (fastforce simp: ledger_inv_def)
    then have "account_of db2 k = account_of db0 k" for k
      using f(1,4) reserved(4,10) r pc by (auto simp: account_of_def)
    moreover have "run_reservations db2 = run_reservations db"
      using f(5) reserved(7,11) r rs by (auto simp: filter_id_conv image_iff)
    ultimately show ?thesis using f(3) reserved(3) by (auto simp: cancel_def)
  qed
qed simp_all

theorem reserve_cancel_roundtrip_witness:
  "\<exists>db0 db2. initialize 1000 1 None empty_db = Inr db0 \<and> cancel demo_res (snd demo_reserve) = Inr db2 \<and>
     run_reservations db2 = [] \<and> (\<forall>k. account_of db2 k = account_of db0 k)"
proof -
  have eq: "demo_reserve = (Reserved demo_res, snd demo_reserve)"
    using demo_reserve_fst by (metis surjective_pairing)
  have e: "run_reservations empty_db = []" by (simp add: empty_db_def)
  show ?thesis
    using reserve_cancel_roundtrip [OF ledger_inv_empty trans [OF demo_reserve_def [symmetric] eq]]
    unfolding e .
qed

text \<open>The budget status is a faithful four-level gauge: it never decreases as consumption
  grows, it is \<open>EXHAUSTED\<close> exactly when nothing of a positive total is left, and \<open>NORMAL\<close>
  exactly below 70 percent.\<close>

theorem status_for_gauge:
  assumes "0 < limit"
  shows "(c \<le> d \<longrightarrow> status_for c limit \<le> status_for d limit) \<and>
    (status_for c limit = EXHAUSTED \<longleftrightarrow> limit \<le> c) \<and>
    (status_for c limit = NORMAL \<longleftrightarrow> 100 * c < 70 * limit)"
  using assms status_for_mono status_for_exhausted by (auto simp: status_for_def)

theorem status_for_gauge_witness:
  "status_for 699 1000 = NORMAL \<and> status_for 699 1000 \<le> status_for 700 1000 \<and>
   status_for 700 1000 = WARNING"
  using status_for_gauge [of 1000 699 700] by (simp add: status_for_def)

text \<open>The calibrated estimate is never optimistic: provided the safety factor does not shrink
  a non-negative count, the tokens reserved for the next input are at least the caller's estimate, at
  least the largest prompt the provider has billed for the work package and, after an
  observed turn, at least that prompt plus the tool results and the retained tool
  arguments.\<close>

theorem calibrated_estimate_conservative:
  assumes "\<And>n. 0 \<le> n \<Longrightarrow> n \<le> scale n" and "worker_role role"
    and "task_budgets db (run, t) = Some r"
    and "latest_observation db run t role = Some ob"
    and "0 \<le> actual_prompt_tokens ob" and "0 \<le> tool_result_tokens ob"
  shows "estimated \<le> calibrated_input_estimate scale db run t role estimated \<and>
    observed_prompt (get_pool role r) \<le> calibrated_input_estimate scale db run t role estimated \<and>
    actual_prompt_tokens ob + tool_result_tokens ob
      + max 0 (tool_argument_tokens ob - compacted_tool_argument_tokens ob)
      \<le> calibrated_input_estimate scale db run t role estimated"
proof -
  define o' g a res w where
    "o' = max (observed_prompt (get_pool role r)) (actual_prompt_tokens ob)"
    and "g = context_growth_tokens ob"
    and "a = max 0 (tool_argument_tokens ob - compacted_tool_argument_tokens ob)"
    and "res = tool_result_tokens ob"
    and "w = max 0 (write_patch_argument_tokens ob - compacted_tool_argument_tokens ob)"
  have cal: "calibrated_input_estimate scale db run t role estimated =
      next_input_prediction scale estimated o' g a res w"
    using assms(2-4) by (simp add: calibrated_input_estimate_def Let_def o'_def g_def a_def res_def w_def)
  have "max g (a + res) \<le> scale (max g (a + res))"
    by (rule assms(1)) (use assms(6) in \<open>simp add: a_def res_def\<close>)
  then have "o' + (a + res) \<le> next_input_prediction scale estimated o' g a res w"
    unfolding next_input_prediction_def Let_def by linarith
  moreover have "scale o' \<le> next_input_prediction scale estimated o' g a res w"
    unfolding next_input_prediction_def Let_def by linarith
  moreover have "estimated \<le> next_input_prediction scale estimated o' g a res w"
    by (rule next_input_prediction_ge)
  moreover have "o' \<le> scale o'" "observed_prompt (get_pool role r) \<le> o'" "actual_prompt_tokens ob \<le> o'"
    using assms(1) [of o'] assms(5) by (auto simp: o'_def)
  ultimately show ?thesis unfolding cal a_def [symmetric] res_def [symmetric] by linarith
qed

definition demo_observed :: budget_db where
  "demo_observed = snd (record_model_turn_observation (\<lambda>n. n + 10) 1 ''T1'' DEVELOPER 1 100
     \<lparr>prompt_tokens = 400, completion_tokens = 20, total_tokens = 420\<rparr> 50 0 True 200
     (empty_db\<lparr>task_budgets := [(1, ''T1'') \<mapsto> new_task_budget (demo_node ''T1'' []) 1000 500]\<rparr>))"

theorem calibrated_estimate_conservative_witness:
  "400 + 0 + 50 \<le> calibrated_input_estimate (\<lambda>n. n + 10) demo_observed 1 ''T1'' DEVELOPER 100"
proof -
  have ob: "map_option (\<lambda>ob. (actual_prompt_tokens ob, tool_result_tokens ob, tool_argument_tokens ob,
      compacted_tool_argument_tokens ob)) (latest_observation demo_observed 1 ''T1'' DEVELOPER)
      = Some (400, 0, 50, 0)"
    by code_simp
  have tb: "task_budgets demo_observed (1, ''T1'') \<noteq> None" by code_simp
  from ob tb obtain o1 r where o: "latest_observation demo_observed 1 ''T1'' DEVELOPER = Some o1"
    "actual_prompt_tokens o1 = 400" "tool_result_tokens o1 = 0" "tool_argument_tokens o1 = 50"
    "compacted_tool_argument_tokens o1 = 0" "task_budgets demo_observed (1, ''T1'') = Some r"
    by auto
  have w: "worker_role DEVELOPER" by (simp add: worker_role_def)
  have mono: "n \<le> n + 10" for n :: int by simp
  from calibrated_estimate_conservative [where scale = "\<lambda>n. n + 10", OF mono w o(6) o(1), of 100] o(2-5)
  show ?thesis by simp
qed

text \<open>What settlement charges: a cancelled call costs nothing, a call with an all-zero usage
  report costs its full reservation, and any other call costs its reported prompt plus
  completion tokens. A provider that reports only a total is therefore charged nothing.\<close>

theorem settlement_charge:
  "actual_usage None i out = (0, 0) \<and>
   actual_usage (Some \<lparr>prompt_tokens = 0, completion_tokens = 0, total_tokens = 0\<rparr>) i out = (i, out) \<and>
   (0 < n \<longrightarrow> actual_usage (Some \<lparr>prompt_tokens = 0, completion_tokens = 0, total_tokens = n\<rparr>) i out = (0, 0)) \<and>
   (0 < p + c \<and> 0 \<le> p \<and> 0 \<le> c \<longrightarrow>
     actual_usage (Some \<lparr>prompt_tokens = p, completion_tokens = c, total_tokens = n\<rparr>) i out = (p, c))"
  by (auto simp: actual_usage_def)

theorem settlement_charge_witness:
  "actual_usage (Some \<lparr>prompt_tokens = 0, completion_tokens = 0, total_tokens = 900\<rparr>) 300 200 = (0, 0)"
  using settlement_charge [of 300 200 900 0 0] by simp

end
