(* ===== verification/Planning_Budget.thy ===== *)
theory Planning_Budget
  imports Token_Budget
begin

text \<open>
  The planner's launch budget (\<open>persistence/planning_budget.py\<close>), which exists before a Run does.
  It shares the status gauge, the usage rule and the ledger contract with the Run budget;
  it also limits the number of calls of a launch and links a launch to at most one Run.
  As in the Run budget each method is one transaction and an exception rolls it back, so
  the \<open>EXHAUSTED\<close> status that \<open>reserve\<close> writes before it raises is never stored.
\<close>

section \<open>Data\<close>

record planning_row =
  project_id :: uuid
  linked_run :: "uuid option"
  pl_total :: int
  pl_used_prompt :: int
  pl_used_completion :: int
  pl_used_total :: int
  pl_reserved :: int
  attempt_count :: int
  max_attempts :: int
  enable_thinking :: bool
  pl_status :: run_token_budget_status

record planning_reservation =
  pr_id :: uuid
  launch_id :: uuid
  pr_input :: int
  pr_output :: int

record planning_db =
  launches :: "uuid \<rightharpoonup> planning_row"
  planning_reservations :: "planning_reservation list"
  run_index :: "uuid list"

definition empty_planning :: planning_db where
  "empty_planning = \<lparr>launches = Map.empty, planning_reservations = [], run_index = []\<rparr>"

section \<open>Transactions\<close>

definition planning_initialize ::
  "int \<Rightarrow> int \<Rightarrow> uuid \<Rightarrow> uuid \<Rightarrow> bool \<Rightarrow> planning_db \<Rightarrow> planning_db res" where
  "planning_initialize default_total default_attempts launch project thinking db =
     (if launches db launch = None \<and> \<not> (default_total > 0 \<and> default_attempts > 0)
      then Inl (IntegrityError ''ck_planning_token_budgets'')
      else Inr (db\<lparr>launches := insert_absent (launches db) launch
        \<lparr>project_id = project, linked_run = None, pl_total = default_total, pl_used_prompt = 0,
         pl_used_completion = 0, pl_used_total = 0, pl_reserved = 0, attempt_count = 0,
         max_attempts = default_attempts, enable_thinking = thinking, pl_status = NORMAL\<rparr>\<rparr>))"

definition mark_exhausted :: "uuid \<Rightarrow> planning_db \<Rightarrow> planning_db" where
  "mark_exhausted launch db =
     db\<lparr>launches := update_row (launches db) launch (\<lambda>r. r\<lparr>pl_status := EXHAUSTED\<rparr>)\<rparr>"

text \<open>The body of the transaction: the exception it raises, if any, and the writes made so far.\<close>

definition planning_reserve_body ::
  "uuid \<Rightarrow> uuid \<Rightarrow> int \<Rightarrow> int \<Rightarrow> planning_db \<Rightarrow> exn option \<times> planning_db" where
  "planning_reserve_body rid launch est out db =
     (case launches db launch of
        None \<Rightarrow> (Some (PlanningTokenBudgetReservationError ''no planning budget''), db)
      | Some r \<Rightarrow>
          if attempt_count r \<ge> max_attempts r
          then (Some (PlanningTokenBudgetReservationError ''maximum calls reached''),
                mark_exhausted launch db)
          else if pl_used_total r + pl_reserved r + (est + out) > pl_total r
          then (Some (PlanningTokenBudgetReservationError ''planning budget exhausted''),
                mark_exhausted launch db)
          else if rid \<in> pr_id ` set (planning_reservations db)
          then (Some (IntegrityError ''planning_token_reservations_pkey''), db)
          else (None, db\<lparr>launches := (launches db)(launch \<mapsto>
                 r\<lparr>pl_reserved := pl_reserved r + (est + out), attempt_count := attempt_count r + 1,
                   pl_status := status_for (pl_used_total r + pl_reserved r + (est + out)) (pl_total r)\<rparr>),
               planning_reservations := planning_reservations db @
                 [\<lparr>pr_id = rid, launch_id = launch, pr_input = est, pr_output = out\<rparr>]\<rparr>))"

text \<open>\<open>async with session.begin()\<close>: an exception discards the writes.\<close>

definition transact :: "'db \<Rightarrow> exn option \<times> 'db \<Rightarrow> exn option \<times> 'db" where
  "transact before r = (case r of (None, db) \<Rightarrow> (None, db) | (Some e, _) \<Rightarrow> (Some e, before))"

definition planning_reserve ::
  "uuid \<Rightarrow> uuid \<Rightarrow> int \<Rightarrow> int \<Rightarrow> planning_db \<Rightarrow> planning_reservation res \<times> planning_db" where
  "planning_reserve rid launch est out db =
     (if est < 0 \<or> out < 1
      then (Inl (ValueError ''planning reservation values must be non-negative and non-empty''), db)
      else (case transact db (planning_reserve_body rid launch est out db) of
              (Some e, db') \<Rightarrow> (Inl e, db')
            | (None, db') \<Rightarrow>
                (Inr \<lparr>pr_id = rid, launch_id = launch, pr_input = est, pr_output = out\<rparr>, db')))"

definition ensure_capacity :: "uuid \<Rightarrow> int \<Rightarrow> int \<Rightarrow> planning_db \<Rightarrow> unit res" where
  "ensure_capacity launch required_tokens required_calls db =
     (if required_tokens < 1 \<or> required_calls < 1
      then Inl (ValueError ''planning capacity must include at least one positive call'')
      else case launches db launch of
        None \<Rightarrow> Inl (PlanningTokenBudgetReservationError ''no planning budget'')
      | Some r \<Rightarrow>
          (let available = max 0 (pl_total r - pl_used_total r - pl_reserved r);
               remaining_calls = max_attempts r - attempt_count r
           in if required_calls > remaining_calls \<or> required_tokens > available
              then Inl (PlanningTokenBudgetReservationError ''envelope does not fit'')
              else Inr ()))"

definition planning_finish ::
  "planning_reservation \<Rightarrow> token_usage option \<Rightarrow> planning_db \<Rightarrow> planning_db res" where
  "planning_finish reservation usage db =
     (case find (\<lambda>x. pr_id x = pr_id reservation) (planning_reservations db) of
        None \<Rightarrow> Inr db
      | Some row \<Rightarrow>
          (case launches db (launch_id reservation) of
             None \<Rightarrow> Inl (NoResultFound ''planning_token_budgets'')
           | Some b \<Rightarrow>
               (let (prompt, completion) = actual_usage usage (pr_input row) (pr_output row);
                    whole = prompt + completion
                in Inr (db\<lparr>launches := (launches db)(launch_id reservation \<mapsto>
                     b\<lparr>pl_reserved := max 0 (pl_reserved b - (pr_input row + pr_output row)),
                       pl_used_prompt := pl_used_prompt b + prompt,
                       pl_used_completion := pl_used_completion b + completion,
                       pl_used_total := pl_used_total b + whole,
                       pl_status := status_for (pl_used_total b + whole) (pl_total b)\<rparr>),
                   planning_reservations :=
                     filter (\<lambda>x. pr_id x \<noteq> pr_id reservation) (planning_reservations db)\<rparr>))))"

definition planning_settle :: "planning_reservation \<Rightarrow> token_usage \<Rightarrow> planning_db \<Rightarrow> planning_db res" where
  "planning_settle reservation usage db = planning_finish reservation (Some usage) db"

definition planning_cancel :: "planning_reservation \<Rightarrow> planning_db \<Rightarrow> planning_db res" where
  "planning_cancel reservation db = planning_finish reservation None db"

text \<open>The unique index on \<open>run_id\<close> (\<open>run_index\<close>) rejects a second launch for the same Run.\<close>

definition link_to_run :: "uuid \<Rightarrow> uuid \<Rightarrow> planning_db \<Rightarrow> (token_usage \<times> planning_db) res" where
  "link_to_run launch run db =
     (case launches db launch of
        None \<Rightarrow> Inl (NoResultFound ''planning_token_budgets'')
      | Some r \<Rightarrow>
          (case linked_run r of
             Some existing \<Rightarrow>
               if existing \<noteq> run
               then Inl (ValueError ''planning launch is already linked to a different Run'')
               else Inr (\<lparr>prompt_tokens = 0, completion_tokens = 0, total_tokens = 0\<rparr>, db)
           | None \<Rightarrow>
               if run \<in> set (run_index db) then Inl (IntegrityError ''uq_planning_token_budgets_run'')
               else Inr (\<lparr>prompt_tokens = pl_used_prompt r, completion_tokens = pl_used_completion r,
                          total_tokens = pl_used_total r\<rparr>,
                         db\<lparr>launches := (launches db)(launch \<mapsto> r\<lparr>linked_run := Some run\<rparr>),
                            run_index := run # run_index db\<rparr>)))"

definition planning_snapshot :: "uuid \<Rightarrow> planning_db \<Rightarrow> planning_row res" where
  "planning_snapshot launch db =
     (case launches db launch of
        None \<Rightarrow> Inl (NoResultFound ''planning_token_budgets'')
      | Some r \<Rightarrow>
          if \<not> (1 \<le> pl_total r \<and> 0 \<le> pl_used_prompt r \<and> 0 \<le> pl_used_completion r \<and> 0 \<le> pl_used_total r
               \<and> 0 \<le> pl_reserved r \<and> 0 \<le> attempt_count r \<and> 1 \<le> max_attempts r)
          then Inl (ValueError ''planning counters'')
          else if pl_used_total r \<noteq> pl_used_prompt r + pl_used_completion r
          then Inl (ValueError ''planning token total must equal prompt plus completion tokens'')
          else Inr r)"

lemmas [exec_defs] = planning_initialize_def mark_exhausted_def planning_reserve_body_def transact_def
  planning_reserve_def ensure_capacity_def planning_finish_def planning_settle_def
  planning_cancel_def link_to_run_def planning_snapshot_def

section \<open>The planning ledger\<close>

definition pheld :: "planning_reservation \<Rightarrow> int" where
  "pheld r = pr_input r + pr_output r"

definition plive :: "planning_db \<Rightarrow> uuid \<Rightarrow> int" where
  "plive db l = (\<Sum>r \<leftarrow> filter (\<lambda>r. launch_id r = l) (planning_reservations db). pheld r)"

definition planning_row_ok :: "planning_row \<Rightarrow> bool" where
  "planning_row_ok r \<longleftrightarrow> 1 \<le> pl_total r \<and> 0 \<le> pl_used_prompt r \<and> 0 \<le> pl_used_completion r \<and>
     pl_used_total r = pl_used_prompt r + pl_used_completion r \<and>
     0 \<le> attempt_count r \<and> attempt_count r \<le> max_attempts r \<and> 1 \<le> max_attempts r"

definition planning_inv :: "planning_db \<Rightarrow> bool" where
  "planning_inv db \<longleftrightarrow>
     distinct (map pr_id (planning_reservations db)) \<and>
     (\<forall>r \<in> set (planning_reservations db). 0 \<le> pr_input r \<and> 0 < pr_output r \<and>
        launches db (launch_id r) \<noteq> None) \<and>
     (\<forall>l r. launches db l = Some r \<longrightarrow> planning_row_ok r \<and> pl_reserved r = plive db l)"

definition pgenuine :: "planning_reservation \<Rightarrow> planning_db \<Rightarrow> bool" where
  "pgenuine r db \<longleftrightarrow>
     (\<forall>row. find (\<lambda>x. pr_id x = pr_id r) (planning_reservations db) = Some row \<longrightarrow> row = r)"

lemma pheld_le_plive:
  assumes "planning_inv db" and "r \<in> set (planning_reservations db)"
  shows "pheld r \<le> plive db (launch_id r)"
  unfolding plive_def
  by (rule weight_le_sum [where key = pr_id])
     (use assms in \<open>force simp: planning_inv_def pheld_def\<close>)+

lemma plive_nonneg: "planning_inv db \<Longrightarrow> 0 \<le> plive db l"
  unfolding plive_def by (rule sum_list_nonneg) (force simp: planning_inv_def pheld_def)

lemma planning_empty_inv: "planning_inv empty_planning"
  by (simp add: planning_inv_def empty_planning_def)

definition paccount :: "planning_db \<Rightarrow> uuid \<Rightarrow> account option" where
  "paccount db l = map_option (\<lambda>r. \<lparr>acc_total = pl_total r, acc_used = pl_used_total r,
     acc_reserved = pl_reserved r\<rparr>) (launches db l)"

lemma planning_initialize_inv [inv_rules]:
  assumes inv: "planning_inv db" and "planning_initialize d a l p th db = Inr db'"
  shows "planning_inv db' \<and> account_move (paccount db k) (paccount db' k)"
proof (cases "launches db l")
  case None
  then have db': "d > 0" "a > 0" "launches db' = (launches db)(l \<mapsto> \<lparr>project_id = p, linked_run = None,
      pl_total = d, pl_used_prompt = 0, pl_used_completion = 0, pl_used_total = 0, pl_reserved = 0,
      attempt_count = 0, max_attempts = a, enable_thinking = th, pl_status = NORMAL\<rparr>)"
    "planning_reservations db' = planning_reservations db"
    using assms(2) by (auto simp: planning_initialize_def insert_absent_def split: if_splits)
  have "\<forall>r \<in> set (planning_reservations db). launch_id r \<noteq> l"
    using inv None by (auto simp: planning_inv_def)
  then have "plive db l = 0" by (simp add: plive_def filter_empty_conv)
  moreover have "plive db' = plive db" using db'(4) by (simp add: plive_def fun_eq_iff)
  ultimately have "planning_inv db'"
    using inv db' by (auto simp: planning_inv_def planning_row_ok_def)
  moreover have "account_move (paccount db k) (paccount db' k)"
    using db' None by (cases "k = l") (auto simp: paccount_def intro: account_move.intros)
  ultimately show ?thesis by blast
next
  case (Some r)
  then have "db' = db" using assms(2) by (auto simp: planning_initialize_def insert_absent_def)
  with inv show ?thesis by (simp add: account_move.same)
qed

lemma planning_reserve_cases:
  assumes "planning_reserve rid l est out db = (oc, db')"
  obtains (refused) e where "oc = Inl e" "db' = db"
  | (reserved) r res where "0 \<le> est" "1 \<le> out" "launches db l = Some r"
      "attempt_count r < max_attempts r"
      "pl_used_total r + pl_reserved r + (est + out) \<le> pl_total r"
      "rid \<notin> pr_id ` set (planning_reservations db)"
      "res = \<lparr>pr_id = rid, launch_id = l, pr_input = est, pr_output = out\<rparr>" "oc = Inr res"
      "launches db' = (launches db)(l \<mapsto> r\<lparr>pl_reserved := pl_reserved r + (est + out),
         attempt_count := attempt_count r + 1,
         pl_status := status_for (pl_used_total r + pl_reserved r + (est + out)) (pl_total r)\<rparr>)"
      "planning_reservations db' = planning_reservations db @ [res]"
proof (cases "est < 0 \<or> out < 1")
  case True
  then show thesis using refused assms by (auto simp: planning_reserve_def)
next
  case pos: False
  show thesis
  proof (cases "launches db l")
    case None
    with pos assms refused show thesis
      by (auto simp: planning_reserve_def planning_reserve_body_def transact_def)
  next
    case (Some r)
    define ok where "ok \<longleftrightarrow> attempt_count r < max_attempts r \<and>
      pl_used_total r + pl_reserved r + (est + out) \<le> pl_total r \<and>
      rid \<notin> pr_id ` set (planning_reservations db)"
    show thesis
    proof (cases ok)
      case True
      then show thesis
        using pos assms Some unfolding ok_def
        by (intro reserved [OF _ _ Some _ _ _ refl])
           (auto simp: planning_reserve_def planning_reserve_body_def transact_def)
    next
      case False
      then have "\<exists>e. fst (planning_reserve_body rid l est out db) = Some e"
        using Some unfolding ok_def by (auto simp: planning_reserve_body_def)
      with pos assms refused show thesis
        by (auto simp: planning_reserve_def transact_def split: prod.splits option.splits)
    qed
  qed
qed

lemma planning_reserve_inv [inv_rules]:
  assumes inv: "planning_inv db" and r: "planning_reserve rid l est out db = (oc, db')"
  shows "planning_inv db' \<and> account_move (paccount db k) (paccount db' k)"
  using r
proof (cases rule: planning_reserve_cases)
  case (refused e)
  with inv show ?thesis by (simp add: account_move.same)
next
  case (reserved r res)
  have row: "planning_row_ok r" "pl_reserved r = plive db l"
    using inv reserved(3) by (auto simp: planning_inv_def)
  have "plive db' x = plive db x + (if x = l then est + out else 0)" for x
    using reserved(7,10) by (simp add: plive_def pheld_def)
  moreover have "distinct (map pr_id (planning_reservations db'))"
    using inv reserved(6,7,10) by (simp add: planning_inv_def)
  moreover have "\<forall>x \<in> set (planning_reservations db'). 0 \<le> pr_input x \<and> 0 < pr_output x \<and>
      launches db' (launch_id x) \<noteq> None"
    using inv reserved(1,2,7,9,10) by (auto simp: planning_inv_def)
  ultimately have "planning_inv db'"
    using inv row reserved(4,9) unfolding planning_inv_def by (auto simp: planning_row_ok_def)
  moreover have "account_move (paccount db k) (paccount db' k)"
  proof (cases "k = l")
    case True
    let ?a = "\<lparr>acc_total = pl_total r, acc_used = pl_used_total r, acc_reserved = pl_reserved r\<rparr>"
    have "account_move (Some ?a) (Some (?a\<lparr>acc_reserved := acc_reserved ?a + (est + out)\<rparr>))"
      by (rule account_move.held) (use reserved(1,2,5) in auto)
    then show ?thesis using True reserved(3,9) by (simp add: paccount_def)
  next
    case False
    then show ?thesis using reserved(9) by (simp add: paccount_def account_move.same)
  qed
  ultimately show ?thesis by blast
qed

lemma planning_finish_cases:
  assumes inv: "planning_inv db" and gen: "pgenuine r db"
  obtains (gone) "find (\<lambda>x. pr_id x = pr_id r) (planning_reservations db) = None"
      "planning_finish r u db = Inr db"
  | (freed) b p c db' where "r \<in> set (planning_reservations db)" "launches db (launch_id r) = Some b"
      "actual_usage u (pr_input r) (pr_output r) = (p, c)" "planning_finish r u db = Inr db'"
      "launches db' = (launches db)(launch_id r \<mapsto> b\<lparr>pl_reserved := max 0 (pl_reserved b - pheld r),
         pl_used_prompt := pl_used_prompt b + p, pl_used_completion := pl_used_completion b + c,
         pl_used_total := pl_used_total b + (p + c),
         pl_status := status_for (pl_used_total b + (p + c)) (pl_total b)\<rparr>)"
      "planning_reservations db' = filter (\<lambda>x. pr_id x \<noteq> pr_id r) (planning_reservations db)"
proof (cases "find (\<lambda>x. pr_id x = pr_id r) (planning_reservations db)")
  case None
  then show thesis using gone by (simp add: planning_finish_def)
next
  case (Some row)
  then have row: "row = r" and mem: "r \<in> set (planning_reservations db)"
    using gen by (auto simp: pgenuine_def find_Some_iff)
  then obtain b where b: "launches db (launch_id r) = Some b"
    using inv by (auto simp: planning_inv_def)
  obtain p c where pc: "actual_usage u (pr_input r) (pr_output r) = (p, c)"
    by (cases "actual_usage u (pr_input r) (pr_output r)")
  have "\<exists>db'. planning_finish r u db = Inr db' \<and>
      launches db' = (launches db)(launch_id r \<mapsto> b\<lparr>pl_reserved := max 0 (pl_reserved b - pheld r),
         pl_used_prompt := pl_used_prompt b + p, pl_used_completion := pl_used_completion b + c,
         pl_used_total := pl_used_total b + (p + c),
         pl_status := status_for (pl_used_total b + (p + c)) (pl_total b)\<rparr>) \<and>
      planning_reservations db' = filter (\<lambda>x. pr_id x \<noteq> pr_id r) (planning_reservations db)"
    using Some row b pc by (simp add: planning_finish_def Let_def pheld_def)
  with freed [OF mem b pc] show thesis by blast
qed

lemma planning_finish_inv [inv_rules]:
  assumes inv: "planning_inv db" and gen: "pgenuine r db" and u: "usage_ok u"
    and res: "planning_finish r u db = Inr db''"
  shows "planning_inv db'' \<and>
    (\<forall>p c. actual_usage u (pr_input r) (pr_output r) = (p, c) \<longrightarrow> p + c \<le> pheld r \<longrightarrow>
      account_move (paccount db k) (paccount db'' k))"
  using inv gen
proof (cases rule: planning_finish_cases [where u = u])
  case gone
  with res inv show ?thesis by (simp add: account_move.same)
next
  case (freed b p c db')
  have eq: "db'' = db'" using freed(4) res by simp
  have r: "0 \<le> pr_input r" "0 < pr_output r" using inv freed(1) by (auto simp: planning_inv_def)
  have nonneg: "0 \<le> p" "0 \<le> c" using actual_usage_nonneg [OF freed(3) u] r by auto
  have b: "planning_row_ok b" "pl_reserved b = plive db (launch_id r)"
    using inv freed(2) by (auto simp: planning_inv_def)
  have le: "pheld r \<le> pl_reserved b" using pheld_le_plive [OF inv freed(1)] b(2) by simp
  have live: "plive db' x = plive db x - (if launch_id r = x then pheld r else 0)" for x
    using sum_remove_key [where key = pr_id and rs = "planning_reservations db" and r = r
        and weight = pheld] inv freed(1)
    by (simp add: plive_def freed(6) planning_inv_def)
  have "\<forall>l x. launches db' l = Some x \<longrightarrow> planning_row_ok x \<and> pl_reserved x = plive db' l"
    using inv b le nonneg live freed(5) by (auto simp: planning_inv_def planning_row_ok_def)
  moreover have "distinct (map pr_id (planning_reservations db'))"
    using inv by (auto simp: planning_inv_def freed(6) intro: distinct_map_filter)
  moreover have "\<forall>x \<in> set (planning_reservations db'). 0 \<le> pr_input x \<and> 0 < pr_output x \<and>
      launches db' (launch_id x) \<noteq> None"
    using inv by (auto simp: planning_inv_def freed(5,6))
  ultimately have "planning_inv db'" by (simp add: planning_inv_def)
  moreover have "account_move (paccount db k) (paccount db' k)" if "p + c \<le> pheld r"
  proof (cases "k = launch_id r")
    case True
    let ?a = "\<lparr>acc_total = pl_total b, acc_used = pl_used_total b, acc_reserved = pl_reserved b\<rparr>"
    have "account_move (Some ?a) (Some (?a\<lparr>acc_used := acc_used ?a + (p + c),
        acc_reserved := acc_reserved ?a - pheld r\<rparr>))"
      by (rule account_move.finished) (use nonneg that le in auto)
    then show ?thesis using True le freed(2,5) by (simp add: paccount_def)
  next
    case False
    then show ?thesis using freed(5) by (simp add: paccount_def account_move.same)
  qed
  ultimately show ?thesis using freed(3) eq by simp
qed

lemma link_to_run_inv [inv_rules]:
  assumes inv: "planning_inv db" and "link_to_run l run db = Inr (u, db')"
  shows "planning_inv db' \<and> paccount db' = paccount db"
proof -
  have rs: "planning_reservations db' = planning_reservations db"
    using assms(2) by (auto simp: link_to_run_def split: option.splits if_splits)
  then have pl: "plive db' = plive db" by (simp add: plive_def fun_eq_iff)
  consider "db' = db" | r where "launches db l = Some r" "launches db' = (launches db)(l \<mapsto> r\<lparr>linked_run := Some run\<rparr>)"
    using assms(2) by (auto simp: link_to_run_def split: option.splits if_splits)
  then show ?thesis
  proof cases
    case 1
    with inv show ?thesis by simp
  next
    case (2 r)
    then have "planning_row_ok r" using inv by (auto simp: planning_inv_def)
    with inv 2 rs pl show ?thesis
      by (auto simp: planning_inv_def planning_row_ok_def paccount_def fun_eq_iff)
  qed
qed

section \<open>Runs\<close>

inductive planning_step :: "planning_db \<Rightarrow> planning_db \<Rightarrow> bool" where
  p_init: "planning_initialize d a l p th db = Inr db' \<Longrightarrow> planning_step db db'"
| p_reserve: "planning_reserve rid l est out db = (oc, db') \<Longrightarrow> planning_step db db'"
| p_finish: "pgenuine r db \<Longrightarrow> usage_ok u \<Longrightarrow>
    actual_usage u (pr_input r) (pr_output r) = (p, c) \<Longrightarrow> p + c \<le> pheld r \<Longrightarrow>
    planning_finish r u db = Inr db' \<Longrightarrow> planning_step db db'"
| p_link: "link_to_run l run db = Inr (u, db') \<Longrightarrow> planning_step db db'"

abbreviation planning_init :: "planning_db \<Rightarrow> bool" where
  "planning_init \<equiv> \<lambda>db. db = empty_planning"

lemma planning_step_inv:
  assumes inv: "planning_inv db" and "planning_step db db'"
  shows "planning_inv db' \<and> account_move (paccount db k) (paccount db' k)"
  using assms(2)
proof (cases rule: planning_step.cases)
  case (p_init d a l p th)
  then show ?thesis using planning_initialize_inv [OF inv] by blast
next
  case (p_reserve rid l est out oc)
  then show ?thesis using planning_reserve_inv [OF inv] by blast
next
  case (p_finish r u p c)
  then show ?thesis using planning_finish_inv [OF inv, of r u db' k] by blast
next
  case (p_link l run u)
  then show ?thesis using link_to_run_inv [OF inv p_link] by (simp add: account_move.same)
qed

lemma paccount_empty: "paccount empty_planning l = None"
  by (simp add: paccount_def empty_planning_def)

interpretation planning_budget: reservation_ledger planning_init planning_step planning_inv paccount
  by unfold_locales
     (use planning_step_inv in \<open>auto simp: planning_empty_inv paccount_empty\<close>)

section \<open>Properties\<close>

definition demo_launch :: planning_db where
  "demo_launch = (case planning_initialize 1000 2 5 9 False empty_planning of Inr db \<Rightarrow> db | Inl _ \<Rightarrow> empty_planning)"

definition demo_planned :: "planning_reservation res \<times> planning_db" where
  "demo_planned = planning_reserve 7 5 300 200 demo_launch"

lemma demo_launch_ok: "planning_initialize 1000 2 5 9 False empty_planning = Inr demo_launch"
  by (simp add: demo_launch_def planning_initialize_def)

lemma demo_planned_reachable: "reachable planning_init planning_step (snd demo_planned)"
proof -
  have "reachable planning_init planning_step demo_launch"
    using p_init [OF demo_launch_ok] by (auto intro: reach_step reach_init)
  moreover have "planning_step demo_launch (snd demo_planned)"
    unfolding demo_planned_def by (rule p_reserve [OF surjective_pairing])
  ultimately show ?thesis by (rule reach_step)
qed



text \<open>A capacity check is a promise for the next call. If \<open>ensure_capacity\<close> accepts an envelope
  of tokens and calls, then a reservation within it is granted; and a refused reservation
  leaves the database exactly as it was, including the launch's status, although the
  refusing branches mark the budget as exhausted before they raise.\<close>

theorem ensure_capacity_grants:
  assumes "ensure_capacity l tokens calls db = Inr ()" and "0 \<le> est" and "1 \<le> out"
    and "est + out \<le> tokens" and "rid \<notin> pr_id ` set (planning_reservations db)"
  shows "is_ok (fst (planning_reserve rid l est out db)) \<and>
    (\<not> is_ok (fst (planning_reserve rid' l' est' out' db)) \<longrightarrow>
      snd (planning_reserve rid' l' est' out' db) = db)"
proof -
  obtain r where r: "launches db l = Some r" "attempt_count r < max_attempts r"
      "pl_used_total r + pl_reserved r + (est + out) \<le> pl_total r"
    using assms(1,4) by (auto simp: ensure_capacity_def Let_def split: option.splits if_splits)
  then have "is_ok (fst (planning_reserve rid l est out db))"
    using assms(2,3,5) by (simp add: planning_reserve_def planning_reserve_body_def transact_def)
  moreover have "snd (planning_reserve rid' l' est' out' db) = db"
    if "\<not> is_ok (fst (planning_reserve rid' l' est' out' db))"
    by (rule planning_reserve_cases [of rid' l' est' out' db, OF surjective_pairing])
       (use that in \<open>auto simp: is_ok_def\<close>)
  ultimately show ?thesis by blast
qed

theorem ensure_capacity_grants_witness:
  "ensure_capacity 5 900 2 demo_launch = Inr () \<and> is_ok (fst (planning_reserve 7 5 300 200 demo_launch))"
proof -
  have c: "ensure_capacity 5 900 2 demo_launch = Inr ()" by code_simp
  have f: "7 \<notin> pr_id ` set (planning_reservations demo_launch)" by code_simp
  from ensure_capacity_grants [OF c _ _ _ f, of 300 200 0 0 0 0] c show ?thesis by simp
qed

end
