(* ===== verification/Runtime_Events.thy ===== *)
theory Runtime_Events
  imports Task_Contract "HOL-Library.Word"
begin

text \<open>
  The append-only runtime event log (\<open>models/events.py\<close>, \<open>persistence/events.py\<close>) and the tables it
  shares with the rest of the evidence store (\<open>persistence/models.py\<close>).

  \<^item> A JSON value is a \<open>json\<close>; \<open>json_size\<close> is the number of UTF-8 bytes of its compact encoding.
  \<^item> A SHA-256 digest is a 256-bit word. The hash function is the argument \<open>sha\<close> of every
    operation that digests a payload: all results hold for every such function.
  \<^item> The tables of the store are lists of rows in insertion order. A transaction maps a store
    to an exception, when it is rolled back, or to the committed store and the value
    returned. The columns the database fills in and nobody reads (row id and event_id of
    an event, creation times) are left out.
\<close>

section \<open>Text of numbers and identifiers\<close>

definition digit :: "nat \<Rightarrow> char" where
  "digit d = char_of (if d < 10 then 48 + d else 87 + d)"

fun dec :: "nat \<Rightarrow> string" where
  "dec n = (if n < 10 then [digit n] else dec (n div 10) @ [digit (n mod 10)])"

declare dec.simps [simp del]

fun hex :: "nat \<Rightarrow> nat \<Rightarrow> string" where
  "hex 0 n = []"
| "hex (Suc k) n = hex k (n div 16) @ [digit (n mod 16)]"

text \<open>\<open>str(uuid)\<close>: 32 hexadecimal digits in groups of 8, 4, 4, 4 and 12.\<close>

definition uuid_text :: "uuid \<Rightarrow> string" where
  "uuid_text u = (let h = hex 32 u in
     take 8 h @ ''-'' @ take 4 (drop 8 h) @ ''-'' @ take 4 (drop 12 h) @ ''-'' @
     take 4 (drop 16 h) @ ''-'' @ drop 20 h)"

type_synonym digest = "256 word"

definition digest_text :: "digest \<Rightarrow> string" where
  "digest_text d = hex 64 (unat d)"

text \<open>
  \<open>datetime.isoformat()\<close> of a UTC time given in microseconds since 1970-01-01: the civil date
  of a day number, and the zero-padded fields.
\<close>

definition civil :: "int \<Rightarrow> int \<times> int \<times> int" where
  "civil days =
     (let z = days + 719468; era = z div 146097; doe = z mod 146097;
          yoe = (doe - doe div 1460 + doe div 36524 - doe div 146096) div 365;
          doy = doe - (365 * yoe + yoe div 4 - yoe div 100);
          mp = (5 * doy + 2) div 153;
          d = doy - (153 * mp + 2) div 5 + 1;
          m = (if mp < 10 then mp + 3 else mp - 9);
          y = yoe + era * 400 + (if m \<le> 2 then 1 else 0)
      in (y, m, d))"

definition padded :: "nat \<Rightarrow> int \<Rightarrow> string" where
  "padded w n = (let s = dec (nat n) in replicate (w - length s) (CHR ''0'') @ s)"

definition isoformat :: "timestamp \<Rightarrow> string" where
  "isoformat t =
     (let secs = t div 1000000; us = t mod 1000000; sod = secs mod 86400 in
      case civil (secs div 86400) of (y, m, d) \<Rightarrow>
        padded 4 y @ ''-'' @ padded 2 m @ ''-'' @ padded 2 d @ ''T'' @
        padded 2 (sod div 3600) @ '':'' @ padded 2 (sod div 60 mod 60) @ '':'' @
        padded 2 (sod mod 60) @ (if us = 0 then [] else ''.'' @ padded 6 us) @ ''+00:00'')"

text \<open>\<open>':'.join(parts)\<close>, the shape of every event key.\<close>

fun join_colon :: "string list \<Rightarrow> string" where
  "join_colon [] = []"
| "join_colon [p] = p"
| "join_colon (p # q # ps) = p @ CHR '':'' # join_colon (q # ps)"

section \<open>JSON values\<close>

datatype json = JNull | JBool bool | JInt int | JStr string | JArr "json list"
  | JObj "(string \<times> json) list"

type_synonym attributes = "(string \<times> json) list"

definition char_size :: "char \<Rightarrow> nat" where
  "char_size c = (let n = (of_char c :: nat) in
     if n \<in> {34, 92, 8, 9, 10, 12, 13} then 2 else if n < 32 then 6 else if n < 128 then 1 else 2)"

definition str_size :: "string \<Rightarrow> nat" where
  "str_size s = 2 + sum_list (map char_size s)"

fun json_size :: "json \<Rightarrow> nat" and items_size :: "json list \<Rightarrow> nat"
  and entries_size :: "attributes \<Rightarrow> nat" where
  "json_size JNull = 4"
| "json_size (JBool b) = (if b then 4 else 5)"
| "json_size (JInt i) = length (dec (nat \<bar>i\<bar>)) + (if i < 0 then 1 else 0)"
| "json_size (JStr s) = str_size s"
| "json_size (JArr xs) = 2 + items_size xs"
| "json_size (JObj es) = 2 + entries_size es"
| "items_size [] = 0"
| "items_size (x # xs) = json_size x + (if xs = [] then 0 else 1) + items_size xs"
| "entries_size [] = 0"
| "entries_size (e # es) =
     str_size (fst e) + 1 + json_size (snd e) + (if es = [] then 0 else 1) + entries_size es"

definition lower_char :: "char \<Rightarrow> char" where
  "lower_char c = (let n = (of_char c :: nat) in
     if 65 \<le> n \<and> n \<le> 90 \<or> 192 \<le> n \<and> n \<le> 222 \<and> n \<noteq> 215 then char_of (n + 32) else c)"

definition SENSITIVE_ATTRIBUTE_KEYS :: "string list" where
  "SENSITIVE_ATTRIBUTE_KEYS =
     [''access_token'', ''api_key'', ''authorization'', ''bearer_token'', ''password'',
      ''refresh_token'', ''run_token'', ''secret'', ''siliconflow_api_key'']"

definition sensitive_key :: "string \<Rightarrow> bool" where
  "sensitive_key raw = (let key = map lower_char (strip raw) in
     key \<in> set SENSITIVE_ATTRIBUTE_KEYS \<or> suffix ''_api_key'' key)"

fun validate_attributes :: "json \<Rightarrow> unit res" and validate_entries :: "attributes \<Rightarrow> unit res"
  and validate_items :: "json list \<Rightarrow> unit res" where
  "validate_attributes (JObj es) = validate_entries es"
| "validate_attributes (JArr xs) = validate_items xs"
| "validate_attributes JNull = Inr ()"
| "validate_attributes (JBool b) = Inr ()"
| "validate_attributes (JInt i) = Inr ()"
| "validate_attributes (JStr s) = Inr ()"
| "validate_entries [] = Inr ()"
| "validate_entries (e # es) =
     (if sensitive_key (fst e) then Inl (ValueError ''runtime event attribute is sensitive'')
      else bind_res (validate_attributes (snd e)) (\<lambda>_. validate_entries es))"
| "validate_items [] = Inr ()"
| "validate_items (x # xs) = bind_res (validate_attributes x) (\<lambda>_. validate_items xs)"

section \<open>Events\<close>

datatype runtime_event_level = INFO | WARNING | ERROR

datatype runtime_event_source =
    SRC_PERSISTENCE | SRC_LEASE | SRC_DISPATCH | SRC_WORKER | SRC_RUNTIME | SRC_AGENT
  | SRC_VERIFICATION | SRC_REVIEW | SRC_REPAIR | SRC_INTEGRATION

datatype runtime_event_kind =
    RUN_STARTED | RUN_FINALIZED | LEASE_ACQUIRED | LEASE_TAKEN_OVER | LEASE_HEARTBEAT
  | LEASE_RELEASED | EVIDENCE_RECORDED

record runtime_event_draft =
  ed_key :: string
  ed_kind :: runtime_event_kind
  ed_source :: runtime_event_source
  ed_level :: runtime_event_level
  ed_task :: "task_id option"
  ed_dispatch :: "uuid option"
  ed_generation :: "int option"
  ed_message :: string
  ed_attributes :: attributes

definition MAX_ATTRIBUTES_BYTES :: nat where
  "MAX_ATTRIBUTES_BYTES = 16384"

definition text_between :: "nat \<Rightarrow> string \<Rightarrow> bool" where
  "text_between n s = (1 \<le> length s \<and> length s \<le> n)"

definition opt_all :: "('a \<Rightarrow> bool) \<Rightarrow> 'a option \<Rightarrow> bool" where
  "opt_all P x = (case x of None \<Rightarrow> True | Some v \<Rightarrow> P v)"

definition RuntimeEventDraft :: "runtime_event_draft \<Rightarrow> runtime_event_draft res" where
  "RuntimeEventDraft d =
     (if \<not> text_between 255 (ed_key d) then Inl (ValueError ''event_key'')
      else if \<not> opt_all (text_between 128) (ed_task d) then Inl (ValueError ''task_id'')
      else if \<not> opt_all (\<lambda>g. 1 \<le> g) (ed_generation d) then Inl (ValueError ''generation'')
      else if \<not> text_between 1000 (ed_message d) then Inl (ValueError ''message'')
      else if ed_task d = None \<and> (ed_dispatch d \<noteq> None \<or> ed_generation d \<noteq> None)
      then Inl (ValueError ''dispatch_id and generation require task_id correlation'')
      else bind_res (validate_attributes (JObj (ed_attributes d))) (\<lambda>_.
        if MAX_ATTRIBUTES_BYTES < json_size (JObj (ed_attributes d))
        then Inl (ValueError ''runtime event attributes exceed the byte limit'')
        else Inr d))"

section \<open>Tables\<close>

datatype persisted_run_status = RUNNING | SUCCEEDED | FAILED

record runtime_event_row =
  ev_run :: uuid
  ev_sequence :: int
  ev_key :: string
  ev_kind :: runtime_event_kind
  ev_source :: runtime_event_source
  ev_level :: runtime_event_level
  ev_task :: "task_id option"
  ev_dispatch :: "uuid option"
  ev_generation :: "int option"
  ev_message :: string
  ev_schema_version :: int
  ev_attributes :: attributes
  ev_sha256 :: digest

text \<open>The columns of a Run that the store reads; its display and recovery columns are presentation.\<close>

record run_row =
  rr_id :: uuid
  rr_project :: uuid
  rr_base_commit :: string
  rr_status :: persisted_run_status
  rr_event_sequence :: int
  rr_terminal_result :: "json option"
  rr_terminal_result_sha256 :: "digest option"
  rr_finished_at :: "timestamp option"

record task_row =
  tr_run :: uuid
  tr_task :: task_id
  tr_contract :: json
  tr_contract_sha256 :: digest
  lease_owner :: "string option"
  lease_dispatch_id :: "uuid option"
  lease_generation :: int
  run_token :: "uuid option"
  lease_acquired_at :: "timestamp option"
  heartbeat_at :: "timestamp option"
  lease_until :: "timestamp option"
  lease_released_at :: "timestamp option"

record run_store =
  st_runs :: "run_row list"
  st_tasks :: "task_row list"
  st_events :: "runtime_event_row list"

type_synonym ('z, 'a) tx = "exn + ('z run_store_scheme \<times> 'a)"

definition find_run :: "uuid \<Rightarrow> 'z run_store_scheme \<Rightarrow> run_row option" where
  "find_run rid db = find (\<lambda>r. rr_id r = rid) (st_runs db)"

definition find_task :: "uuid \<Rightarrow> task_id \<Rightarrow> 'z run_store_scheme \<Rightarrow> task_row option" where
  "find_task rid tid db = find (\<lambda>t. tr_run t = rid \<and> tr_task t = tid) (st_tasks db)"

definition put_run :: "run_row \<Rightarrow> 'z run_store_scheme \<Rightarrow> 'z run_store_scheme" where
  "put_run run db = db\<lparr>st_runs := map (\<lambda>r. if rr_id r = rr_id run then run else r) (st_runs db)\<rparr>"

text \<open>\<open>_locked_run\<close> and \<open>_locked_task\<close>, the row locks every transaction starts with.\<close>

definition locked_run :: "uuid \<Rightarrow> 'z run_store_scheme \<Rightarrow> run_row res" where
  "locked_run rid db = (case find_run rid db of
     None \<Rightarrow> Inl (ValueError ''unknown persistence run'') | Some run \<Rightarrow> Inr run)"

definition locked_task :: "uuid \<Rightarrow> task_id \<Rightarrow> 'z run_store_scheme \<Rightarrow> task_row res" where
  "locked_task rid tid db = (case find_task rid tid db of
     None \<Rightarrow> Inl (ValueError ''unknown persisted task'') | Some row \<Rightarrow> Inr row)"

text \<open>\<open>_required_text\<close>, which every store of the persistence layer has.\<close>

definition required_text :: "nat \<Rightarrow> string \<Rightarrow> string res" where
  "required_text max_length val = (let normalized = strip val in
     if normalized = [] then Inl (ValueError ''must not be empty'')
     else if max_length < length normalized then Inl (ValueError ''exceeds maximum length'')
     else Inr normalized)"

section \<open>Appending and decoding events\<close>

definition EVENT_SCHEMA_VERSION :: int where
  "EVENT_SCHEMA_VERSION = 1"

definition same_event :: "runtime_event_row \<Rightarrow> runtime_event_draft \<Rightarrow> digest \<Rightarrow> bool" where
  "same_event row draft attributes_sha256 =
     (ev_kind row = ed_kind draft \<and> ev_source row = ed_source draft \<and>
      ev_level row = ed_level draft \<and> ev_task row = ed_task draft \<and>
      ev_dispatch row = ed_dispatch draft \<and> ev_generation row = ed_generation draft \<and>
      ev_message row = ed_message draft \<and> ev_schema_version row = EVENT_SCHEMA_VERSION \<and>
      ev_sha256 row = attributes_sha256)"

definition verify_payload_hash :: "(json \<Rightarrow> digest) \<Rightarrow> json \<Rightarrow> digest \<Rightarrow> unit res" where
  "verify_payload_hash sha payload expected =
     (if sha payload \<noteq> expected then Inl (PersistenceCorruptionError ''payload hash mismatch'')
      else Inr ())"

text \<open>
  A decoded event has the columns of its row. Kind, source and level are typed, so that the
  branch for unknown enumeration values has no counterpart.
\<close>

definition PersistedRuntimeEvent :: "runtime_event_row \<Rightarrow> runtime_event_row res" where
  "PersistedRuntimeEvent row =
     (if 1 \<le> ev_sequence row \<and> text_between 255 (ev_key row) \<and>
         opt_all (text_between 128) (ev_task row) \<and> opt_all (\<lambda>g. 1 \<le> g) (ev_generation row) \<and>
         text_between 1000 (ev_message row) \<and> 1 \<le> ev_schema_version row
      then Inr row else Inl (ValueError ''runtime event''))"

definition decode_runtime_event :: "(json \<Rightarrow> digest) \<Rightarrow> runtime_event_row \<Rightarrow> runtime_event_row res" where
  "decode_runtime_event sha row =
     (if ev_schema_version row \<noteq> EVENT_SCHEMA_VERSION
      then Inl (PersistenceCorruptionError ''unsupported runtime event schema version'')
      else bind_res (verify_payload_hash sha (JObj (ev_attributes row)) (ev_sha256 row)) (\<lambda>_.
        case PersistedRuntimeEvent row of
          Inl e \<Rightarrow> Inl (PersistenceCorruptionError ''persisted runtime event failed schema validation'')
        | Inr p \<Rightarrow> Inr p))"

text \<open>The insert and the constraints of the table \<open>runtime_events\<close>.\<close>

definition insert_event ::
    "runtime_event_row \<Rightarrow> 'z run_store_scheme \<Rightarrow> 'z run_store_scheme res" where
  "insert_event row db =
     (if \<exists>e \<in> set (st_events db). ev_run e = ev_run row \<and> ev_key e = ev_key row
      then Inl (IntegrityError ''uq_runtime_events_run_key'')
      else if \<exists>e \<in> set (st_events db). ev_run e = ev_run row \<and> ev_sequence e = ev_sequence row
      then Inl (IntegrityError ''uq_runtime_events_run_sequence'')
      else if opt_all (\<lambda>t. find_task (ev_run row) t db = None) (ev_task row) \<and> ev_task row \<noteq> None
      then Inl (IntegrityError ''fk_runtime_events_task'')
      else if \<not> opt_all (\<lambda>g. 1 \<le> g) (ev_generation row)
      then Inl (IntegrityError ''ck_runtime_events_generation'')
      else if ev_task row = None \<and> \<not> (ev_dispatch row = None \<and> ev_generation row = None)
      then Inl (IntegrityError ''ck_runtime_events_task_correlation'')
      else Inr (db\<lparr>st_events := st_events db @ [row]\<rparr>))"

definition append_runtime_event ::
    "(json \<Rightarrow> digest) \<Rightarrow> run_row \<Rightarrow> runtime_event_draft \<Rightarrow> 'z run_store_scheme
     \<Rightarrow> ('z, runtime_event_row) tx" where
  "append_runtime_event sha run draft db =
     (let attributes_sha256 = sha (JObj (ed_attributes draft)) in
      case find (\<lambda>e. ev_run e = rr_id run \<and> ev_key e = ed_key draft) (st_events db) of
        Some existing \<Rightarrow>
          if same_event existing draft attributes_sha256
          then bind_res (decode_runtime_event sha existing) (\<lambda>e. Inr (db, e))
          else Inl (PersistenceConflictError ''runtime event key was reused for different event data'')
      | None \<Rightarrow>
          let run' = run\<lparr>rr_event_sequence := rr_event_sequence run + 1\<rparr>;
              row = \<lparr>ev_run = rr_id run, ev_sequence = rr_event_sequence run',
                     ev_key = ed_key draft, ev_kind = ed_kind draft, ev_source = ed_source draft,
                     ev_level = ed_level draft, ev_task = ed_task draft,
                     ev_dispatch = ed_dispatch draft, ev_generation = ed_generation draft,
                     ev_message = ed_message draft, ev_schema_version = EVENT_SCHEMA_VERSION,
                     ev_attributes = ed_attributes draft, ev_sha256 = attributes_sha256\<rparr>
          in bind_res (insert_event row (put_run run' db)) (\<lambda>db'.
               bind_res (decode_runtime_event sha row) (\<lambda>e. Inr (db', e))))"

text \<open>\<open>list_runtime_events\<close>: a page of the log of one Run, in sequence order.\<close>

definition optional_text :: "nat \<Rightarrow> string option \<Rightarrow> string option res" where
  "optional_text max_length val = (case val of None \<Rightarrow> Inr None
     | Some v \<Rightarrow> bind_res (required_text max_length v) (\<lambda>t. Inr (Some t)))"

definition list_runtime_events ::
    "(json \<Rightarrow> digest) \<Rightarrow> uuid \<Rightarrow> task_id option \<Rightarrow> uuid option \<Rightarrow> runtime_event_kind option
     \<Rightarrow> runtime_event_source option \<Rightarrow> int \<Rightarrow> int \<Rightarrow> 'z run_store_scheme
     \<Rightarrow> runtime_event_row list res" where
  "list_runtime_events sha rid tid did kind source after_sequence limit db =
     (if after_sequence < 0 then Inl (ValueError ''after_sequence must be non-negative'')
      else if limit < 1 \<or> 1000 < limit
      then Inl (ValueError ''runtime event query limit must be between 1 and 1000'')
      else bind_res (optional_text 128 tid) (\<lambda>normalized_task.
        bind_res (locked_run rid db) (\<lambda>run.
          let rows = filter (\<lambda>e. ev_run e = rid \<and> after_sequence < ev_sequence e \<and>
                       opt_all (\<lambda>t. ev_task e = Some t) normalized_task \<and>
                       opt_all (\<lambda>d. ev_dispatch e = Some d) did \<and>
                       opt_all (\<lambda>k. ev_kind e = k) kind \<and>
                       opt_all (\<lambda>s. ev_source e = s) source) (st_events db)
          in map_res (decode_runtime_event sha) (take (nat limit) (sort_key ev_sequence rows)))))"

section \<open>The log invariant\<close>

text \<open>
  The events of a Run are numbered from one without gaps in insertion order, up to the
  counter of the Run row; keys are unique within a Run; every event decodes, and its attributes
  passed the check for secrets.
\<close>

definition run_log :: "uuid \<Rightarrow> 'z run_store_scheme \<Rightarrow> runtime_event_row list" where
  "run_log rid db = filter (\<lambda>e. ev_run e = rid) (st_events db)"

definition event_ok :: "(json \<Rightarrow> digest) \<Rightarrow> runtime_event_row \<Rightarrow> bool" where
  "event_ok sha e = (decode_runtime_event sha e = Inr e \<and>
     validate_entries (ev_attributes e) = Inr () \<and>
     json_size (JObj (ev_attributes e)) \<le> MAX_ATTRIBUTES_BYTES)"

definition log_inv :: "(json \<Rightarrow> digest) \<Rightarrow> 'z run_store_scheme \<Rightarrow> bool" where
  "log_inv sha db =
     (distinct (map rr_id (st_runs db)) \<and>
      (\<forall>r \<in> set (st_runs db). 0 \<le> rr_event_sequence r \<and>
         map ev_sequence (run_log (rr_id r) db) = [1 .. rr_event_sequence r]) \<and>
      distinct (map (\<lambda>e. (ev_run e, ev_key e)) (st_events db)) \<and>
      (\<forall>e \<in> set (st_events db). event_ok sha e \<and> ev_run e \<in> rr_id ` set (st_runs db)))"

text \<open>The rows of a table apart from the event counters, which only the log moves.\<close>

definition run_facts :: "'z run_store_scheme \<Rightarrow> run_row list" where
  "run_facts db = map (\<lambda>r. r\<lparr>rr_event_sequence := 0\<rparr>) (st_runs db)"

lemma find_run_Some:
  "find_run rid db = Some r \<Longrightarrow> r \<in> set (st_runs db) \<and> rr_id r = rid"
  unfolding find_run_def by (auto simp: find_Some_iff)

lemma find_task_Some:
  "find_task rid tid db = Some t \<Longrightarrow> t \<in> set (st_tasks db) \<and> tr_run t = rid \<and> tr_task t = tid"
  unfolding find_task_def by (auto simp: find_Some_iff)

lemma find_unique:
  "distinct (map f xs) \<Longrightarrow> x \<in> set xs \<Longrightarrow> find (\<lambda>y. f y = f x) xs = Some x"
proof (induction xs)
  case (Cons a xs)
  then show ?case by (cases "a = x") force+
qed simp

lemma find_run_iff:
  "distinct (map rr_id (st_runs db)) \<Longrightarrow>
   find_run rid db = Some r \<longleftrightarrow> r \<in> set (st_runs db) \<and> rr_id r = rid"
  using find_unique [of rr_id "st_runs db" r] find_run_Some [of rid db r]
  by (auto simp: find_run_def)

lemma put_run_simps [simp]:
  "st_tasks (put_run r db) = st_tasks db" "st_events (put_run r db) = st_events db"
  "run_store.more (put_run r db) = run_store.more db"
  "run_log rid (put_run r db) = run_log rid db"
  "find_task rid tid (put_run r db) = find_task rid tid db"
  by (simp_all add: put_run_def run_log_def find_task_def)

lemma map_rr_id_put_run [simp]: "map rr_id (st_runs (put_run r db)) = map rr_id (st_runs db)"
  by (simp add: put_run_def)

lemma rr_id_put_run [simp]: "rr_id ` set (st_runs (put_run r db)) = rr_id ` set (st_runs db)"
  by (metis list.set_map map_rr_id_put_run)

lemma set_put_run:
  "s \<in> set (st_runs (put_run r db)) \<Longrightarrow>
   s = r \<and> rr_id r \<in> rr_id ` set (st_runs db) \<or> s \<in> set (st_runs db) \<and> rr_id s \<noteq> rr_id r"
  by (auto simp: put_run_def image_iff split: if_splits) metis+

lemma draft_facts:
  "RuntimeEventDraft d = Inr d' \<Longrightarrow> d' = d \<and> text_between 255 (ed_key d) \<and>
   opt_all (text_between 128) (ed_task d) \<and> opt_all (\<lambda>g. 1 \<le> g) (ed_generation d) \<and>
   text_between 1000 (ed_message d) \<and> validate_entries (ed_attributes d) = Inr () \<and>
   json_size (JObj (ed_attributes d)) \<le> MAX_ATTRIBUTES_BYTES"
  unfolding RuntimeEventDraft_def by (auto simp: bind_res_eq_Inr split: if_splits)

lemma upto_snoc: "0 \<le> n \<Longrightarrow> [1 .. n + 1] = [1 .. n] @ [n + 1]" for n :: int
  by (rule upto_rec2 [where j = "n + 1", simplified]) simp

text \<open>What an append that commits did.\<close>

lemma append_cases:
  assumes "append_runtime_event sha run d db = Inr (db', e)"
  obtains (existing) "db' = db" "e \<in> set (st_events db)" "ev_run e = rr_id run" "ev_key e = ed_key d"
      "same_event e d (sha (JObj (ed_attributes d)))"
  | (fresh) "db' = (put_run (run\<lparr>rr_event_sequence := rr_event_sequence run + 1\<rparr>) db)
        \<lparr>st_events := st_events db @ [e]\<rparr>"
      "\<forall>x \<in> set (st_events db). \<not> (ev_run x = rr_id run \<and> ev_key x = ed_key d)"
      "decode_runtime_event sha e = Inr e"
      "ev_run e = rr_id run" "ev_sequence e = rr_event_sequence run + 1" "ev_key e = ed_key d"
      "ev_attributes e = ed_attributes d" "ev_kind e = ed_kind d" "ev_task e = ed_task d"
      "ev_dispatch e = ed_dispatch d" "ev_generation e = ed_generation d" "ev_level e = ed_level d"
proof -
  have decode: "decode_runtime_event sha x = Inr y \<Longrightarrow> y = x" for x y
    by (auto simp: decode_runtime_event_def bind_res_eq_Inr PersistedRuntimeEvent_def
        split: if_splits sum.splits)
  show thesis
  proof (cases "find (\<lambda>e. ev_run e = rr_id run \<and> ev_key e = ed_key d) (st_events db)")
    case (Some x)
    then have "x \<in> set (st_events db) \<and> ev_run x = rr_id run \<and> ev_key x = ed_key d"
      by (auto simp: find_Some_iff)
    with Some assms show thesis
      by (intro existing)
        (auto simp: append_runtime_event_def Let_def bind_res_eq_Inr dest!: decode split: if_splits)
  next
    case None
    then have new: "\<forall>x \<in> set (st_events db). \<not> (ev_run x = rr_id run \<and> ev_key x = ed_key d)"
      by (auto simp: find_None_iff)
    from None assms show thesis
      by (intro fresh [OF _ new])
        (auto simp: append_runtime_event_def Let_def bind_res_eq_Inr insert_event_def
          dest: decode split: if_splits)
  qed
qed

lemma append_frame:
  assumes "append_runtime_event sha run d db = Inr (db', e)" and "find_run (rr_id run) db = Some run"
    and "distinct (map rr_id (st_runs db))"
  shows "st_tasks db' = st_tasks db \<and> run_store.more db' = run_store.more db \<and>
    run_facts db' = run_facts db \<and> map rr_id (st_runs db') = map rr_id (st_runs db) \<and>
    (st_events db' = st_events db \<or> st_events db' = st_events db @ [e])"
  using assms(1)
proof (cases rule: append_cases)
  case fresh
  have "r = run" if "r \<in> set (st_runs db)" "rr_id r = rr_id run" for r
    using that assms(2) find_unique [OF assms(3) that(1)] by (simp add: find_run_def)
  with fresh show ?thesis by (auto simp: run_facts_def put_run_def)
qed simp

lemma append_log_inv [inv_rules]:
  assumes inv: "log_inv sha db" and run: "find_run (rr_id run) db = Some run"
    and draft: "RuntimeEventDraft d0 = Inr d"
    and app: "append_runtime_event sha run d db = Inr (db', e)"
  shows "log_inv sha db'"
  using app
proof (cases rule: append_cases)
  case existing
  with inv show ?thesis by simp
next
  case fresh
  let ?run' = "run\<lparr>rr_event_sequence := rr_event_sequence run + 1\<rparr>"
  from run have mem: "run \<in> set (st_runs db)" by (simp add: find_run_Some)
  have log: "run_log rid db' = run_log rid db @ (if rid = rr_id run then [e] else [])" for rid
    using fresh by (simp add: run_log_def)
  have runs: "st_runs db' = st_runs (put_run ?run' db)" using fresh(1) by simp
  have seqs: "0 \<le> rr_event_sequence r \<and> map ev_sequence (run_log (rr_id r) db') = [1 .. rr_event_sequence r]"
    if "r \<in> set (st_runs db')" for r
  proof -
    from that runs have "r = ?run' \<or> r \<in> set (st_runs db) \<and> rr_id r \<noteq> rr_id run"
      by (auto dest!: set_put_run)
    then show ?thesis
    proof
      assume "r = ?run'"
      with inv mem log fresh(5) show ?thesis by (auto simp: log_inv_def upto_snoc)
    next
      assume "r \<in> set (st_runs db) \<and> rr_id r \<noteq> rr_id run"
      with inv log show ?thesis by (auto simp: log_inv_def)
    qed
  qed
  have ok: "event_ok sha e" using draft_facts [OF draft] fresh by (simp add: event_ok_def)
  have ids: "rr_id ` set (st_runs db') = rr_id ` set (st_runs db)" by (simp add: runs)
  have evs: "st_events db' = st_events db @ [e]" using fresh(1) by simp
  have new: "(ev_run e, ev_key e) \<notin> (\<lambda>e. (ev_run e, ev_key e)) ` set (st_events db)"
    using fresh(2) fresh(4,6) by auto
  show ?thesis
    unfolding log_inv_def ids evs
    using inv seqs ok new mem fresh(4) by (auto simp: log_inv_def runs)
qed

lemma log_inv_distinct: "log_inv sha db \<Longrightarrow> distinct (map rr_id (st_runs db))"
  by (simp add: log_inv_def)

text \<open>Repeating an append gives the event back and changes nothing.\<close>

lemma append_idempotent:
  assumes inv: "log_inv sha db" and run: "find_run (rr_id run) db = Some run"
    and draft: "RuntimeEventDraft d0 = Inr d"
    and app: "append_runtime_event sha run d db = Inr (db', e)"
  shows "append_runtime_event sha run' d db' = Inr (db', e) \<or> rr_id run' \<noteq> rr_id run"
proof (rule disjCI)
  assume "\<not> rr_id run' \<noteq> rr_id run"
  then have same: "rr_id run' = rr_id run" by simp
  have inv': "log_inv sha db'" by (rule append_log_inv [OF inv run draft app])
  have e: "e \<in> set (st_events db') \<and> ev_run e = rr_id run \<and> ev_key e = ed_key d \<and>
      same_event e d (sha (JObj (ed_attributes d)))"
    using app
  proof (cases rule: append_cases)
    case existing
    then show ?thesis by simp
  next
    case fresh
    from fresh(2) have "find (\<lambda>e. ev_run e = rr_id run \<and> ev_key e = ed_key d) (st_events db) = None"
      by (auto simp: find_None_iff)
    with fresh app show ?thesis
      by (auto simp: append_runtime_event_def Let_def bind_res_eq_Inr insert_event_def same_event_def
          decode_runtime_event_def PersistedRuntimeEvent_def split: if_splits sum.splits)
  qed
  have "find (\<lambda>x. (ev_run x, ev_key x) = (ev_run e, ev_key e)) (st_events db') = Some e"
    using inv' e by (intro find_unique [where f = "\<lambda>x. (ev_run x, ev_key x)"]) (auto simp: log_inv_def)
  with e same have "find (\<lambda>x. ev_run x = rr_id run' \<and> ev_key x = ed_key d) (st_events db') = Some e"
    by simp
  moreover have "decode_runtime_event sha e = Inr e"
    using inv' e by (auto simp: log_inv_def event_ok_def)
  ultimately show "append_runtime_event sha run' d db' = Inr (db', e)"
    using e by (simp add: append_runtime_event_def)
qed

section \<open>Appending a new event\<close>

text \<open>A validated draft with an unused key is always accepted.\<close>

lemma append_fresh_ok:
  assumes inv: "log_inv sha db" and run: "find_run (rr_id run) db = Some run"
    and draft: "RuntimeEventDraft d = Inr d"
    and new: "\<forall>x \<in> set (st_events db). \<not> (ev_run x = rr_id run \<and> ev_key x = ed_key d)"
    and row: "opt_all (\<lambda>t. find_task (rr_id run) t db \<noteq> None) (ed_task d)"
  shows "\<exists>db' e. append_runtime_event sha run d db = Inr (db', e) \<and> st_events db' = st_events db @ [e]"
proof -
  have mem: "run \<in> set (st_runs db)" using find_run_Some [OF run] by simp
  have seq: "map ev_sequence (run_log (rr_id run) db) = [1 .. rr_event_sequence run]"
    and nonneg: "0 \<le> rr_event_sequence run"
    using inv mem by (auto simp: log_inv_def)
  have "ev_sequence x \<le> rr_event_sequence run" if "x \<in> set (st_events db)" "ev_run x = rr_id run" for x
  proof -
    have "ev_sequence x \<in> set (map ev_sequence (run_log (rr_id run) db))" using that by (auto simp: run_log_def)
    then show ?thesis unfolding seq by simp
  qed
  then have unused: "\<not> (\<exists>x \<in> set (st_events db). ev_run x = rr_id run \<and> ev_sequence x = rr_event_sequence run + 1)"
    by fastforce
  have none: "find (\<lambda>e. ev_run e = rr_id run \<and> ev_key e = ed_key d) (st_events db) = None"
    using new by (auto simp: find_None_iff)
  note df = draft_facts [OF draft]
  have corr: "ed_task d = None \<longrightarrow> ed_dispatch d = None \<and> ed_generation d = None"
    using draft by (auto simp: RuntimeEventDraft_def split: if_splits)
  show ?thesis
    using none new unused df corr row nonneg
    by (auto simp: append_runtime_event_def Let_def insert_event_def decode_runtime_event_def
        verify_payload_hash_def PersistedRuntimeEvent_def EVENT_SCHEMA_VERSION_def opt_all_def
        split: option.splits)
qed

section \<open>Keys\<close>

lemma digit_inj: "a < 10 \<Longrightarrow> b < 10 \<Longrightarrow> digit a = digit b \<Longrightarrow> a = b"
  by (auto simp: digit_def dest!: arg_cong [of _ _ "of_char :: char \<Rightarrow> nat"])

lemma dec_not_Nil [simp]: "dec n \<noteq> []"
  by (subst dec.simps) simp

lemma dec_inj: "dec m = dec n \<Longrightarrow> m = n"
proof (induction m arbitrary: n rule: dec.induct)
  case (1 m)
  note eq = 1(2) [unfolded dec.simps [of m] dec.simps [of n]]
  show ?case
  proof (cases "m < 10")
    case True
    with eq dec_not_Nil [of "n div 10"] show ?thesis by (cases "n < 10") (auto dest: digit_inj)
  next
    case False
    with eq have n: "\<not> n < 10" by auto
    with eq False have "dec (m div 10) = dec (n div 10)" "digit (m mod 10) = digit (n mod 10)" by simp_all
    with 1(1) False have "m div 10 = n div 10" "m mod 10 = n mod 10"
      using digit_inj [of "m mod 10" "n mod 10"] by auto
    then show ?thesis by (metis div_mult_mod_eq)
  qed
qed

lemma dec_no_colon: "CHR '':'' \<notin> set (dec n)"
proof (induction n rule: dec.induct)
  case (1 n)
  have "digit d \<noteq> CHR '':''" if "d < 10" for d
    using that by (auto simp: digit_def dest!: arg_cong [of _ _ "of_char :: char \<Rightarrow> nat"])
  from this [of n] this [of "n mod 10"] 1 show ?case by (subst dec.simps) (auto simp: eq_commute)
qed

lemma length_dec: "0 < k \<Longrightarrow> n < 10 ^ k \<Longrightarrow> length (dec n) \<le> k"
proof (induction n arbitrary: k rule: dec.induct)
  case (1 n)
  show ?case
  proof (cases "n < 10")
    case True
    with 1 show ?thesis by (subst dec.simps) simp
  next
    case False
    with 1(2,3) obtain k' where k: "k = Suc k'" "0 < k'" by (cases k; cases "k - 1") auto
    with 1(3) have "n div 10 < 10 ^ k'" by simp
    with 1(1) False k show ?thesis by (subst dec.simps) simp
  qed
qed

lemma split_on_join:
  "\<forall>p \<in> set ps. CHR '':'' \<notin> set p \<Longrightarrow> split_on (CHR '':'') (join_colon (ps @ [q])) = ps @ split_on (CHR '':'') q"
proof (induction ps)
  case (Cons p ps)
  have "join_colon ((p # ps) @ [q]) = p @ CHR '':'' # join_colon (ps @ [q])" by (cases ps) auto
  with Cons show ?case by (simp add: split_on_append_sep split_on_no_sep)
qed simp

lemma length_padded: "length (padded w n) \<le> max w (length (dec (nat n)))"
  by (simp add: padded_def Let_def)

text \<open>Times up to the end of year 9999, the last a \<open>datetime\<close> can hold, print in bounded space.\<close>

lemma civil_small:
  assumes "0 \<le> days" and "days \<le> 2932896" and "civil days = (y, m, d)"
  shows "y < 10 ^ 8 \<and> m < 10 ^ 8 \<and> d < 10 ^ 8"
proof -
  define z where "z = days + 719468"
  define doe where "doe = z mod 146097"
  define yoe where "yoe = (doe - doe div 1460 + doe div 36524 - doe div 146096) div 365"
  define doy where "doy = doe - (365 * yoe + yoe div 4 - yoe div 100)"
  define mp where "mp = (5 * doy + 2) div 153"
  have doe: "0 \<le> doe" "doe < 146097" by (simp_all add: doe_def)
  have q: "0 \<le> doe div 1460" "doe div 1460 \<le> 100" "0 \<le> doe div 36524" "doe div 36524 \<le> 4"
    "0 \<le> doe div 146096" "doe div 146096 \<le> 1"
    using doe zdiv_mono1 [of doe 146096 1460] zdiv_mono1 [of doe 146096 36524]
      zdiv_mono1 [of doe 146096 146096] by (simp_all add: pos_imp_zdiv_nonneg_iff)
  have yoe: "- 1 \<le> yoe" "yoe \<le> 400"
    using q doe zdiv_mono1 [of "doe - doe div 1460 + doe div 36524 - doe div 146096" 146100 365]
      zdiv_mono1 [of "- 101" "doe - doe div 1460 + doe div 36524 - doe div 146096" 365]
    unfolding yoe_def by simp_all
  have "- 1 \<le> yoe div 4" "yoe div 4 \<le> 100" "- 1 \<le> yoe div 100" "yoe div 100 \<le> 4"
    using yoe zdiv_mono1 [of yoe 400 4] zdiv_mono1 [of "- 1" yoe 4] zdiv_mono1 [of yoe 400 100]
      zdiv_mono1 [of "- 1" yoe 100] by simp_all
  with doe yoe have doy: "doy \<le> 147000" "- 200000 \<le> doy" unfolding doy_def by linarith+
  have mp: "mp \<le> 5000" "- 10000 \<le> mp"
    using doy zdiv_mono1 [of "5 * doy + 2" 735002 153] zdiv_mono1 [of "- 999998" "5 * doy + 2" 153]
    unfolding mp_def by simp_all
  have era: "z div 146097 \<le> 10000"
    using assms(1,2) zdiv_mono1 [of z 3652364 146097] unfolding z_def by simp
  have civil: "civil days =
      (yoe + z div 146097 * 400 + (if (if mp < 10 then mp + 3 else mp - 9) \<le> 2 then 1 else 0),
       if mp < 10 then mp + 3 else mp - 9, doy - (153 * mp + 2) div 5 + 1)"
    unfolding civil_def Let_def mp_def doy_def yoe_def doe_def z_def ..
  have eqs: "m = (if mp < 10 then mp + 3 else mp - 9)"
    "d = doy - (153 * mp + 2) div 5 + 1"
    "y = yoe + z div 146097 * 400 + (if m \<le> 2 then 1 else 0)"
    using assms(3) unfolding civil by auto
  have "y < 10 ^ 8" using eqs(3) yoe era by (auto split: if_splits)
  moreover have "m < 10 ^ 8" using eqs(1) mp by (auto split: if_splits)
  moreover have "d < 10 ^ 8"
  proof -
    have "- 1000000 \<le> (153 * mp + 2) div 5"
      using mp zdiv_mono1 [of "- 1529998" "153 * mp + 2" 5] by simp
    with eqs(2) doy show ?thesis by simp
  qed
  ultimately show ?thesis by simp
qed

lemma length_isoformat:
  assumes "0 \<le> t" and "t < 253402300800000000"
  shows "length (isoformat t) \<le> 100"
proof -
  have pad: "length (padded w n) \<le> 8" if "n < 10 ^ 8" "w \<le> 8" for w n
  proof -
    have "nat n < 10 ^ 8" using that(1) by simp
    then have "length (dec (nat n)) \<le> 8" by (rule length_dec [rotated]) simp
    with length_padded [of w n] that(2) show ?thesis by simp
  qed
  define secs where "secs = t div 1000000"
  obtain y m d where c: "civil (secs div 86400) = (y, m, d)" by (rule prod_cases3)
  have s: "0 \<le> secs" "secs \<le> 253402300799"
    using assms zdiv_mono1 [of t 253402300799999999 1000000] unfolding secs_def
    by (simp_all add: pos_imp_zdiv_nonneg_iff)
  have "0 \<le> secs div 86400" "secs div 86400 \<le> 2932896"
    using s zdiv_mono1 [of secs 253402300799 86400] by (simp_all add: pos_imp_zdiv_nonneg_iff)
  from civil_small [OF this c] have ymd: "y < 10 ^ 8" "m < 10 ^ 8" "d < 10 ^ 8" by auto
  have h: "secs mod 86400 div 3600 < 10 ^ 8" "secs mod 86400 div 60 mod 60 < 10 ^ 8"
    "secs mod 86400 mod 60 < 10 ^ 8" "t mod 1000000 < 10 ^ 8"
    using zdiv_mono1 [of "secs mod 86400" 86399 3600] pos_mod_bound [of 86400 secs]
      pos_mod_bound [of 60 "secs mod 86400 div 60"] pos_mod_bound [of 60 "secs mod 86400"]
      pos_mod_bound [of 1000000 t] by simp_all
  obtain p1 p2 p3 p4 p5 p6 p7 where iso: "isoformat t = p1 @ ''-'' @ p2 @ ''-'' @ p3 @ ''T'' @ p4 @ '':'' @
      p5 @ '':'' @ p6 @ (if t mod 1000000 = 0 then [] else ''.'' @ p7) @ ''+00:00''"
    and len: "length p1 \<le> 8" "length p2 \<le> 8" "length p3 \<le> 8" "length p4 \<le> 8" "length p5 \<le> 8"
      "length p6 \<le> 8" "length p7 \<le> 8"
  proof (rule that)
    show "isoformat t = padded 4 y @ ''-'' @ padded 2 m @ ''-'' @ padded 2 d @ ''T'' @
        padded 2 (secs mod 86400 div 3600) @ '':'' @ padded 2 (secs mod 86400 div 60 mod 60) @ '':'' @
        padded 2 (secs mod 86400 mod 60) @
        (if t mod 1000000 = 0 then [] else ''.'' @ padded 6 (t mod 1000000)) @ ''+00:00''"
      unfolding isoformat_def Let_def secs_def [symmetric] c prod.case ..
  qed (use pad [OF ymd(1), of 4] pad [OF ymd(2), of 2] pad [OF ymd(3), of 2] pad [OF h(1), of 2]
      pad [OF h(2), of 2] pad [OF h(3), of 2] pad [OF h(4), of 6] in \<open>simp_all only: numeral_le_iff semiring_norm simp_thms\<close>)
  have "length (isoformat t) \<le> 70"
    unfolding iso using len by (cases "t mod 1000000 = 0") simp_all
  then show ?thesis by simp
qed

lemma str_size_bound: "str_size s \<le> 2 + 6 * length s"
proof -
  have "char_size c \<le> 6" for c by (simp add: char_size_def Let_def)
  then have "sum_list (map char_size s) \<le> 6 * length s" by (induction s) (auto intro: add_le_mono)
  then show ?thesis by (simp add: str_size_def)
qed

section \<open>Reading the log\<close>

text \<open>All attribute names of a JSON value, at every depth.\<close>

fun json_keys :: "json \<Rightarrow> string list" and entry_keys :: "attributes \<Rightarrow> string list"
  and item_keys :: "json list \<Rightarrow> string list" where
  "json_keys (JObj es) = entry_keys es"
| "json_keys (JArr xs) = item_keys xs"
| "json_keys JNull = []"
| "json_keys (JBool b) = []"
| "json_keys (JInt i) = []"
| "json_keys (JStr s) = []"
| "entry_keys [] = []"
| "entry_keys (e # es) = fst e # json_keys (snd e) @ entry_keys es"
| "item_keys [] = []"
| "item_keys (x # xs) = json_keys x @ item_keys xs"

lemma validate_keys:
  "(validate_attributes j = Inr () \<longleftrightarrow> (\<forall>k \<in> set (json_keys j). \<not> sensitive_key k))"
  "(validate_entries es = Inr () \<longleftrightarrow> (\<forall>k \<in> set (entry_keys es). \<not> sensitive_key k))"
  "(validate_items xs = Inr () \<longleftrightarrow> (\<forall>k \<in> set (item_keys xs). \<not> sensitive_key k))"
  by (induction j and es and xs rule: json_keys_entry_keys_item_keys.induct)
    (auto simp: bind_res_eq_Inr)

lemma sorted_wrt_upto: "sorted [i .. j]" for i j :: int
  by (simp add: sorted_wrt_iff_nth_less)

lemma filter_drop_numbered:
  assumes "map ev_sequence xs = [1 .. n]" and "0 \<le> k"
  shows "filter (\<lambda>e. k < ev_sequence e) xs = drop (nat k) xs"
proof -
  have len: "length xs = nat n" using arg_cong [OF assms(1), of length] by simp
  have at: "ev_sequence (xs ! i) = 1 + int i" if "i < length xs" for i
  proof -
    have "ev_sequence (xs ! i) = map ev_sequence xs ! i" using that by simp
    also have "\<dots> = 1 + int i" unfolding assms(1) using that len by (subst nth_upto) simp_all
    finally show ?thesis .
  qed
  have "filter (\<lambda>e. k < ev_sequence e) (take (nat k) xs) = []"
    using at assms(2) by (auto simp: filter_empty_conv in_set_conv_nth)
  moreover have "filter (\<lambda>e. k < ev_sequence e) (drop (nat k) xs) = drop (nat k) xs"
    using at assms(2) by (auto simp: filter_id_conv in_set_conv_nth)
  ultimately show ?thesis by (metis append_take_drop_id filter_append append_Nil)
qed

lemma sort_key_id: "sorted (map f xs) \<Longrightarrow> sort_key f xs = xs"
  using sort_key_id_if_sorted by blast

lemma map_res_id: "\<forall>x \<in> set xs. f x = Inr x \<Longrightarrow> map_res f xs = Inr xs"
  by (induction xs) auto

lemma list_runtime_events_page:
  assumes inv: "log_inv sha db" and run: "find_run rid db = Some run"
    and "0 \<le> k" and "1 \<le> limit" and "limit \<le> 1000"
  shows "list_runtime_events sha rid None None None None k limit db =
    Inr (take (nat limit) (drop (nat k) (run_log rid db)))"
proof -
  have mem: "run \<in> set (st_runs db)" "rr_id run = rid" using find_run_Some [OF run] by simp_all
  then have seq: "map ev_sequence (run_log rid db) = [1 .. rr_event_sequence run]"
    using inv by (auto simp: log_inv_def)
  have "filter (\<lambda>e. ev_run e = rid \<and> k < ev_sequence e) (st_events db) =
      filter (\<lambda>e. k < ev_sequence e) (run_log rid db)"
    by (simp add: run_log_def conj_commute)
  also have "\<dots> = drop (nat k) (run_log rid db)" by (rule filter_drop_numbered [OF seq assms(3)])
  finally have flt: "filter (\<lambda>e. ev_run e = rid \<and> k < ev_sequence e) (st_events db) = drop (nat k) (run_log rid db)" .
  have "sorted (map ev_sequence (drop (nat k) (run_log rid db)))"
    unfolding drop_map [symmetric] seq by (intro sorted_wrt_drop sorted_wrt_upto)
  then have sorted: "sort_key ev_sequence (drop (nat k) (run_log rid db)) = drop (nat k) (run_log rid db)"
    by (rule sort_key_id)
  have "\<forall>e \<in> set (take (nat limit) (drop (nat k) (run_log rid db))). decode_runtime_event sha e = Inr e"
    using inv by (auto simp: log_inv_def event_ok_def run_log_def dest!: in_set_takeD in_set_dropD)
  then have "map_res (decode_runtime_event sha) (take (nat limit) (drop (nat k) (run_log rid db))) =
      Inr (take (nat limit) (drop (nat k) (run_log rid db)))"
    by (rule map_res_id)
  with flt sorted assms(3-5) run show ?thesis
    by (simp add: list_runtime_events_def optional_text_def locked_run_def opt_all_def)
qed

section \<open>Sizes of rendered values\<close>

lemma length_hex [simp]: "length (hex k n) = k"
  by (induction k arbitrary: n) simp_all

lemma length_uuid_text [simp]: "length (uuid_text u) = 36"
  by (simp add: uuid_text_def Let_def)

lemma length_digest_text [simp]: "length (digest_text d) = 64"
  by (simp add: digest_text_def)

lemma str_size_le: "length s \<le> n \<Longrightarrow> str_size s \<le> 2 + 6 * n"
  using str_size_bound [of s] by linarith

text \<open>A draft whose parts are short and whose attribute names are harmless is valid.\<close>

lemma draft_ok:
  assumes "text_between 255 (ed_key d)" and "opt_all (text_between 128) (ed_task d)"
    and "opt_all (\<lambda>g. 1 \<le> g) (ed_generation d)" and "text_between 1000 (ed_message d)"
    and "ed_task d = None \<longrightarrow> ed_dispatch d = None \<and> ed_generation d = None"
    and "\<forall>k \<in> set (entry_keys (ed_attributes d)). \<not> sensitive_key k"
    and "entries_size (ed_attributes d) \<le> 16382"
  shows "RuntimeEventDraft d = Inr d"
proof -
  have "validate_entries (ed_attributes d) = Inr ()" using assms(6) validate_keys(2) by blast
  with assms show ?thesis by (auto simp: RuntimeEventDraft_def MAX_ATTRIBUTES_BYTES_def)
qed

lemma harmless_keys:
  "\<not> sensitive_key ''project_id''" "\<not> sensitive_key ''base_commit''" "\<not> sensitive_key ''task_count''"
  "\<not> sensitive_key ''status''" "\<not> sensitive_key ''terminal_result_sha256''" "\<not> sensitive_key ''evidence_id''"
  "\<not> sensitive_key ''evidence_key''" "\<not> sensitive_key ''evidence_kind''" "\<not> sensitive_key ''stage''"
  "\<not> sensitive_key ''evidence_sequence''" "\<not> sensitive_key ''payload_sha256''"
  by code_simp+

end
