(* ===== verification/Task_Lease.thy ===== *)
theory Task_Lease
  imports Runtime_Events Complex_Main
begin

text \<open>
  Task leases and fencing tokens (\<open>models/lease.py\<close>, \<open>persistence/fencing.py\<close>,
  \<open>persistence/leases.py\<close>). A task row carries the current execution generation: its owner, its
  dispatch, its fencing token and its times. Database time and the fresh token of
  \<open>uuid4\<close> are arguments of the transactions; \<open>lease_seconds\<close> is a rational.

  The lemmas show what each committed transaction did to the row, that the rows stay well
  formed at every observation time, and which checks a stale or expired token fails.
\<close>

section \<open>Snapshots\<close>

datatype task_lease_state = UNOWNED | ACTIVE | EXPIRED | RELEASED

record task_lease_snapshot =
  ls_run :: uuid
  ls_task :: task_id
  ls_state :: task_lease_state
  ls_generation :: int
  ls_owner :: "string option"
  ls_dispatch :: "uuid option"
  ls_acquired_at :: "timestamp option"
  ls_heartbeat_at :: "timestamp option"
  ls_until :: "timestamp option"
  ls_released_at :: "timestamp option"
  ls_observed_at :: timestamp

definition abandoned :: "task_lease_snapshot \<Rightarrow> bool" where
  "abandoned s = (ls_state s = EXPIRED)"

definition validate_shape :: "task_lease_snapshot \<Rightarrow> task_lease_snapshot res" where
  "validate_shape s =
     (if ls_state s = UNOWNED then
        if ls_generation s \<noteq> 0 then Inl (ValueError ''UNOWNED leases must use generation zero'')
        else if ls_owner s \<noteq> None \<or> ls_dispatch s \<noteq> None \<or> ls_acquired_at s \<noteq> None \<or>
                ls_heartbeat_at s \<noteq> None \<or> ls_until s \<noteq> None \<or> ls_released_at s \<noteq> None
        then Inl (ValueError ''UNOWNED leases must not contain ownership timestamps or identity'')
        else Inr s
      else if ls_generation s < 1
      then Inl (ValueError ''owned lease states require a positive generation'')
      else (case (ls_owner s, ls_dispatch s, ls_acquired_at s, ls_heartbeat_at s, ls_until s) of
        (Some owner, Some dispatch, Some acquired, Some heartbeat, Some until) \<Rightarrow>
          if heartbeat < acquired
          then Inl (ValueError ''lease heartbeat cannot precede acquisition'')
          else if until \<le> heartbeat
          then Inl (ValueError ''lease expiry must follow the latest heartbeat'')
          else if ls_state s = RELEASED then
            (case ls_released_at s of
               None \<Rightarrow> Inl (ValueError ''RELEASED leases require released_at'')
             | Some released \<Rightarrow>
                 if released < acquired
                 then Inl (ValueError ''lease release cannot precede acquisition'') else Inr s)
          else if ls_released_at s \<noteq> None
          then Inl (ValueError ''ACTIVE and EXPIRED leases must not contain released_at'')
          else if ls_state s = ACTIVE \<and> until \<le> ls_observed_at s
          then Inl (ValueError ''ACTIVE leases must expire after observed_at'')
          else if ls_state s = EXPIRED \<and> ls_observed_at s < until
          then Inl (ValueError ''EXPIRED leases must expire at or before observed_at'')
          else Inr s
      | _ \<Rightarrow> Inl (ValueError ''owned lease states require owner, dispatch, acquire, heartbeat and expiry'')))"

definition TaskLeaseSnapshot :: "task_lease_snapshot \<Rightarrow> task_lease_snapshot res" where
  "TaskLeaseSnapshot s =
     (if \<not> text_between 128 (ls_task s) then Inl (ValueError ''task_id'')
      else if ls_generation s < 0 then Inl (ValueError ''generation'')
      else if \<not> opt_all (text_between 255) (ls_owner s) then Inl (ValueError ''owner_id'')
      else validate_shape s)"

record task_lease_grant =
  lg_snapshot :: task_lease_snapshot
  lg_run_token :: uuid

definition TaskLeaseGrant :: "task_lease_grant \<Rightarrow> task_lease_grant res" where
  "TaskLeaseGrant g =
     (if ls_state (lg_snapshot g) \<noteq> ACTIVE
      then Inl (ValueError ''task lease grants require an ACTIVE snapshot'')
      else if ls_generation (lg_snapshot g) < 1
      then Inl (ValueError ''task lease grants require a positive generation'')
      else Inr g)"

definition lease_snapshot :: "task_row \<Rightarrow> timestamp \<Rightarrow> task_lease_snapshot res" where
  "lease_snapshot row observed_at =
     bind_res
       (if lease_owner row = None then Inr UNOWNED
        else if lease_released_at row \<noteq> None then Inr RELEASED
        else (case lease_until row of
          None \<Rightarrow> Inl (AssertionError ''task.lease_until is not None'')
        | Some until \<Rightarrow> Inr (if until \<le> observed_at then EXPIRED else ACTIVE)))
       (\<lambda>state. TaskLeaseSnapshot
         \<lparr>ls_run = tr_run row, ls_task = tr_task row, ls_state = state,
          ls_generation = lease_generation row, ls_owner = lease_owner row,
          ls_dispatch = lease_dispatch_id row, ls_acquired_at = lease_acquired_at row,
          ls_heartbeat_at = heartbeat_at row, ls_until = lease_until row,
          ls_released_at = lease_released_at row, ls_observed_at = observed_at\<rparr>)"

section \<open>Fencing\<close>

definition assert_current_run_token :: "task_row \<Rightarrow> uuid option \<Rightarrow> unit res" where
  "assert_current_run_token row token =
     (if run_token row = None
      then Inl (StaleRunTokenError ''task does not have a fenced execution generation'')
      else if token = None
      then Inl (StaleRunTokenError ''current run_token is required for this task write'')
      else if run_token row \<noteq> token
      then Inl (StaleRunTokenError ''run_token is stale for the current task execution generation'')
      else Inr ())"

definition assert_live_current_run_token :: "task_row \<Rightarrow> uuid option \<Rightarrow> timestamp \<Rightarrow> unit res" where
  "assert_live_current_run_token row token observed_at =
     bind_res (assert_current_run_token row token) (\<lambda>_.
       if lease_released_at row \<noteq> None
       then Inl (StaleRunTokenError ''released task generations cannot authorize mutable writes'')
       else if lease_until row = None \<or> the (lease_until row) \<le> observed_at
       then Inl (StaleRunTokenError ''expired task generations cannot authorize mutable writes'')
       else Inr ())"

section \<open>Rows\<close>

definition put_task :: "task_row \<Rightarrow> 'z run_store_scheme \<Rightarrow> 'z run_store_scheme" where
  "put_task row db = db\<lparr>st_tasks :=
     map (\<lambda>t. if tr_run t = tr_run row \<and> tr_task t = tr_task row then row else t) (st_tasks db)\<rparr>"

text \<open>The constraint \<open>ck_tasks_lease_shape\<close>.\<close>

definition lease_shape :: "task_row \<Rightarrow> bool" where
  "lease_shape row =
     (lease_owner row = None \<and> lease_dispatch_id row = None \<and> lease_acquired_at row = None \<and>
      heartbeat_at row = None \<and> lease_until row = None \<and> lease_released_at row = None \<and>
      run_token row = None \<and> lease_generation row = 0 \<or>
      lease_owner row \<noteq> None \<and> lease_dispatch_id row \<noteq> None \<and> lease_acquired_at row \<noteq> None \<and>
      heartbeat_at row \<noteq> None \<and> lease_until row \<noteq> None \<and> run_token row \<noteq> None \<and>
      1 \<le> lease_generation row)"

text \<open>Flushing a changed task row: its CHECK constraint and the unique index on \<open>run_token\<close>.\<close>

definition flush_task :: "task_row \<Rightarrow> 'z run_store_scheme \<Rightarrow> 'z run_store_scheme res" where
  "flush_task row db =
     (if \<not> lease_shape row then Inl (IntegrityError ''ck_tasks_lease_shape'')
      else if \<exists>t \<in> set (st_tasks db). (tr_run t, tr_task t) \<noteq> (tr_run row, tr_task row) \<and>
                run_token t \<noteq> None \<and> run_token t = run_token row
      then Inl (IntegrityError ''uq_tasks_run_token'')
      else Inr (put_task row db))"

text \<open>\<open>timedelta(seconds=x)\<close> rounds to whole microseconds, halves to even.\<close>

definition timedelta_us :: "rat \<Rightarrow> int" where
  "timedelta_us x = (let y = x * 1000000; f = \<lfloor>y\<rfloor>; d = y - of_int f in
     if d < 1 / 2 then f else if 1 / 2 < d then f + 1 else if even f then f else f + 1)"

definition lease_duration :: "rat \<Rightarrow> int res" where
  "lease_duration x =
     (if x \<le> 0 \<or> 86400 < x
      then Inl (ValueError ''lease_seconds must be greater than zero and at most 86400'')
      else Inr (timedelta_us x))"

definition assert_identity :: "task_row \<Rightarrow> string \<Rightarrow> uuid \<Rightarrow> uuid \<Rightarrow> unit res" where
  "assert_identity row owner dispatch token =
     (if lease_owner row = None
      then Inl (TaskLeaseConflictError ''task does not have an acquired lease'')
      else bind_res (assert_current_run_token row (Some token)) (\<lambda>_.
        if lease_owner row \<noteq> Some owner \<or> lease_dispatch_id row \<noteq> Some dispatch
        then Inl (TaskLeaseConflictError ''task lease is owned by a different worker or dispatch'')
        else Inr ()))"

section \<open>Transactions\<close>

definition lease_key :: "task_id \<Rightarrow> int \<Rightarrow> string list \<Rightarrow> string" where
  "lease_key tid generation rest =
     join_colon ([''lease'', tid, ''generation'', dec (nat generation)] @ rest)"

text \<open>The generation to install: one for a new lease, the next after an expired one.\<close>

definition next_lease_generation ::
    "task_row \<Rightarrow> uuid \<Rightarrow> timestamp \<Rightarrow> (int option \<times> int) res" where
  "next_lease_generation row dispatch observed_at =
     (if lease_owner row = None then Inr (None, 1)
      else bind_res (lease_snapshot row observed_at) (\<lambda>existing.
        if ls_state existing = ACTIVE
        then Inl (TaskLeaseConflictError ''task already has an ACTIVE execution generation'')
        else if ls_state existing = RELEASED
        then Inl (TaskLeaseConflictError ''released task generations are terminal ownership history and cannot be reused'')
        else if ls_state existing \<noteq> EXPIRED
        then Inl (TaskLeaseConflictError ''task lease state cannot be safely acquired'')
        else if lease_dispatch_id row = Some dispatch
        then Inl (TaskLeaseConflictError ''expired-owner takeover requires a fresh dispatch_id'')
        else Inr (Some (lease_generation row), lease_generation row + 1)))"

definition acquired_draft ::
    "task_id \<Rightarrow> string \<Rightarrow> uuid \<Rightarrow> int option \<Rightarrow> int \<Rightarrow> timestamp \<Rightarrow> runtime_event_draft" where
  "acquired_draft tid owner dispatch previous generation until =
     \<lparr>ed_key = lease_key tid generation [''acquired''],
      ed_kind = (if previous \<noteq> None then LEASE_TAKEN_OVER else LEASE_ACQUIRED),
      ed_source = SRC_LEASE, ed_level = INFO, ed_task = Some tid, ed_dispatch = Some dispatch,
      ed_generation = Some generation,
      ed_message = (if previous \<noteq> None
        then ''Expired task generation was replaced by a new fenced owner.''
        else ''Task lease generation acquired.''),
      ed_attributes = [(''owner_id'', JStr owner),
        (''previous_generation'', case previous of None \<Rightarrow> JNull | Some g \<Rightarrow> JInt g),
        (''lease_until'', JStr (isoformat until))]\<rparr>"

definition acquire_task_lease ::
    "(json \<Rightarrow> digest) \<Rightarrow> timestamp \<Rightarrow> uuid \<Rightarrow> uuid \<Rightarrow> string \<Rightarrow> string \<Rightarrow> uuid \<Rightarrow> rat
     \<Rightarrow> 'z run_store_scheme \<Rightarrow> ('z, task_lease_grant) tx" where
  "acquire_task_lease sha observed_at token rid tid owner_id dispatch lease_seconds db =
     bind_res (required_text 128 tid) (\<lambda>task_name.
     bind_res (required_text 255 owner_id) (\<lambda>owner.
     bind_res (lease_duration lease_seconds) (\<lambda>duration.
     bind_res (locked_run rid db) (\<lambda>run.
       if rr_status run \<noteq> RUNNING
       then Inl (TaskLeaseConflictError ''task leases can be acquired only for RUNNING runs'')
       else bind_res (locked_task rid task_name db) (\<lambda>row.
       bind_res (next_lease_generation row dispatch observed_at) (\<lambda>(previous, generation).
         let row' = row\<lparr>lease_owner := Some owner, lease_dispatch_id := Some dispatch,
               lease_generation := generation, run_token := Some token,
               lease_acquired_at := Some observed_at, heartbeat_at := Some observed_at,
               lease_until := Some (observed_at + duration), lease_released_at := None\<rparr>
         in bind_res (flush_task row' db) (\<lambda>db1.
            bind_res (RuntimeEventDraft (acquired_draft task_name owner dispatch previous generation
                        (observed_at + duration))) (\<lambda>draft.
            bind_res (append_runtime_event sha run draft db1) (\<lambda>(db2, event).
            bind_res (lease_snapshot row' observed_at) (\<lambda>snap.
            bind_res (TaskLeaseGrant \<lparr>lg_snapshot = snap, lg_run_token = token\<rparr>) (\<lambda>grant.
              Inr (db2, grant))))))))))))"

definition renew_task_lease ::
    "(json \<Rightarrow> digest) \<Rightarrow> timestamp \<Rightarrow> uuid \<Rightarrow> string \<Rightarrow> string \<Rightarrow> uuid \<Rightarrow> uuid \<Rightarrow> rat
     \<Rightarrow> 'z run_store_scheme \<Rightarrow> ('z, task_lease_snapshot) tx" where
  "renew_task_lease sha observed_at rid tid owner_id dispatch token lease_seconds db =
     bind_res (required_text 128 tid) (\<lambda>task_name.
     bind_res (required_text 255 owner_id) (\<lambda>owner.
     bind_res (lease_duration lease_seconds) (\<lambda>duration.
     bind_res (locked_run rid db) (\<lambda>run.
     bind_res (locked_task rid task_name db) (\<lambda>row.
     bind_res (assert_identity row owner dispatch token) (\<lambda>_.
       if lease_released_at row \<noteq> None
       then Inl (TaskLeaseConflictError ''released task leases cannot be renewed'')
       else (case lease_until row of
         None \<Rightarrow> Inl (AssertionError ''task.lease_until is not None'')
       | Some until \<Rightarrow>
         if until \<le> observed_at
         then Inl (TaskLeaseExpiredError ''expired task generations cannot be resurrected by heartbeat'')
         else
           let row' = row\<lparr>heartbeat_at := Some observed_at,
                 lease_until := Some (observed_at + duration)\<rparr>
           in bind_res (flush_task row' db) (\<lambda>db1.
              bind_res (RuntimeEventDraft
                \<lparr>ed_key = lease_key task_name (lease_generation row) [''heartbeat'', isoformat observed_at],
                 ed_kind = LEASE_HEARTBEAT, ed_source = SRC_LEASE, ed_level = INFO,
                 ed_task = Some task_name, ed_dispatch = Some dispatch,
                 ed_generation = Some (lease_generation row),
                 ed_message = ''Task lease heartbeat renewed.'',
                 ed_attributes = [(''owner_id'', JStr owner),
                   (''lease_until'', JStr (isoformat (observed_at + duration)))]\<rparr>) (\<lambda>draft.
              bind_res (append_runtime_event sha run draft db1) (\<lambda>(db2, event).
              bind_res (lease_snapshot row' observed_at) (\<lambda>snap. Inr (db2, snap))))))))))))"

definition release_task_lease ::
    "(json \<Rightarrow> digest) \<Rightarrow> timestamp \<Rightarrow> uuid \<Rightarrow> string \<Rightarrow> string \<Rightarrow> uuid \<Rightarrow> uuid
     \<Rightarrow> 'z run_store_scheme \<Rightarrow> ('z, task_lease_snapshot) tx" where
  "release_task_lease sha observed_at rid tid owner_id dispatch token db =
     bind_res (required_text 128 tid) (\<lambda>task_name.
     bind_res (required_text 255 owner_id) (\<lambda>owner.
     bind_res (locked_run rid db) (\<lambda>run.
     bind_res (locked_task rid task_name db) (\<lambda>row.
     bind_res (assert_identity row owner dispatch token) (\<lambda>_.
       if lease_released_at row \<noteq> None
       then bind_res (lease_snapshot row observed_at) (\<lambda>snap. Inr (db, snap))
       else (case lease_until row of
         None \<Rightarrow> Inl (AssertionError ''task.lease_until is not None'')
       | Some until \<Rightarrow>
         if until \<le> observed_at
         then Inl (TaskLeaseExpiredError ''expired task generations remain EXPIRED and cannot be rewritten as RELEASED'')
         else
           let row' = row\<lparr>lease_released_at := Some observed_at\<rparr>
           in bind_res (flush_task row' db) (\<lambda>db1.
              bind_res (RuntimeEventDraft
                \<lparr>ed_key = lease_key task_name (lease_generation row) [''released''],
                 ed_kind = LEASE_RELEASED, ed_source = SRC_LEASE, ed_level = INFO,
                 ed_task = Some task_name, ed_dispatch = Some dispatch,
                 ed_generation = Some (lease_generation row),
                 ed_message = ''Task lease generation released.'',
                 ed_attributes = [(''owner_id'', JStr owner),
                   (''released_at'', JStr (isoformat observed_at))]\<rparr>) (\<lambda>draft.
              bind_res (append_runtime_event sha run draft db1) (\<lambda>(db2, event).
              bind_res (lease_snapshot row' observed_at) (\<lambda>snap. Inr (db2, snap)))))))))))"

text \<open>
  \<open>guard_task_git_mutation\<close> holds the row locks while the caller mutates the worktree; the
  store itself is not changed, so the guard is the check it makes on entry.
\<close>

definition guard_task_git_mutation ::
    "timestamp \<Rightarrow> uuid \<Rightarrow> string \<Rightarrow> uuid \<Rightarrow> uuid \<Rightarrow> 'z run_store_scheme
     \<Rightarrow> task_lease_snapshot res" where
  "guard_task_git_mutation observed_at rid tid dispatch token db =
     bind_res (required_text 128 tid) (\<lambda>task_name.
     bind_res (locked_run rid db) (\<lambda>run.
       if rr_status run \<noteq> RUNNING
       then Inl (TaskLeaseConflictError ''Git mutation requires a RUNNING persisted run'')
       else bind_res (locked_task rid task_name db) (\<lambda>row.
         bind_res (assert_live_current_run_token row (Some token) observed_at) (\<lambda>_.
           if lease_dispatch_id row \<noteq> Some dispatch
           then Inl (TaskLeaseConflictError ''Git mutation dispatch does not own this task'')
           else lease_snapshot row observed_at))))"

definition inspect_task_lease ::
    "timestamp \<Rightarrow> uuid \<Rightarrow> string \<Rightarrow> 'z run_store_scheme \<Rightarrow> task_lease_snapshot res" where
  "inspect_task_lease observed_at rid tid db =
     bind_res (required_text 128 tid) (\<lambda>task_name.
     bind_res (locked_task rid task_name db) (\<lambda>row. lease_snapshot row observed_at))"

definition list_task_leases ::
    "timestamp \<Rightarrow> uuid \<Rightarrow> 'z run_store_scheme \<Rightarrow> task_lease_snapshot list res" where
  "list_task_leases observed_at rid db =
     bind_res (locked_run rid db) (\<lambda>run.
       map_res (\<lambda>row. lease_snapshot row observed_at)
         (sort_key tr_task (filter (\<lambda>t. tr_run t = rid) (st_tasks db))))"

definition list_expired_task_leases ::
    "timestamp \<Rightarrow> uuid option \<Rightarrow> 'z run_store_scheme \<Rightarrow> task_lease_snapshot list res" where
  "list_expired_task_leases observed_at rid db =
     map_res (\<lambda>row. lease_snapshot row observed_at)
       (sort_key tr_run (sort_key tr_task
         (filter (\<lambda>t. (\<exists>run \<in> set (st_runs db). rr_id run = tr_run t \<and> rr_status run = RUNNING) \<and>
            lease_owner t \<noteq> None \<and> lease_released_at t = None \<and>
            (case lease_until t of None \<Rightarrow> False | Some until \<Rightarrow> until \<le> observed_at) \<and>
            opt_all (\<lambda>r. tr_run t = r) rid) (st_tasks db))))"

section \<open>Well-formed rows\<close>

definition task_key :: "task_row \<Rightarrow> uuid \<times> task_id" where
  "task_key row = (tr_run row, tr_task row)"

definition row_ok :: "task_row \<Rightarrow> bool" where
  "row_ok row = (lease_shape row \<and> text_between 128 (tr_task row) \<and>
     opt_all (text_between 255) (lease_owner row) \<and>
     (lease_owner row \<noteq> None \<longrightarrow>
        the (lease_acquired_at row) \<le> the (heartbeat_at row) \<and>
        the (heartbeat_at row) < the (lease_until row) \<and>
        opt_all (\<lambda>r. the (lease_acquired_at row) \<le> r) (lease_released_at row)))"

definition observed_state :: "task_row \<Rightarrow> timestamp \<Rightarrow> task_lease_state" where
  "observed_state row t =
     (if lease_owner row = None then UNOWNED else if lease_released_at row \<noteq> None then RELEASED
      else if the (lease_until row) \<le> t then EXPIRED else ACTIVE)"

definition observe :: "task_row \<Rightarrow> timestamp \<Rightarrow> task_lease_snapshot" where
  "observe row t =
     \<lparr>ls_run = tr_run row, ls_task = tr_task row, ls_state = observed_state row t,
      ls_generation = lease_generation row, ls_owner = lease_owner row,
      ls_dispatch = lease_dispatch_id row, ls_acquired_at = lease_acquired_at row,
      ls_heartbeat_at = heartbeat_at row, ls_until = lease_until row,
      ls_released_at = lease_released_at row, ls_observed_at = t\<rparr>"

text \<open>A row satisfying the CHECK constraint can be observed exactly when it is well formed.\<close>

lemma TaskLeaseSnapshot_id: "TaskLeaseSnapshot s = Inr s' \<Longrightarrow> s' = s"
  by (auto simp: TaskLeaseSnapshot_def validate_shape_def split: if_splits option.splits)

lemma lease_snapshot_observe:
  assumes "lease_snapshot row t = Inr s"
  shows "s = observe row t"
proof -
  from assms obtain state where "s = observe row t\<lparr>ls_state := state\<rparr>"
    and "state = observed_state row t"
    unfolding lease_snapshot_def bind_res_eq_Inr observe_def observed_state_def
    by (auto dest!: TaskLeaseSnapshot_id split: if_splits option.splits)
  then show ?thesis by (simp add: observe_def)
qed

lemma lease_snapshot_total: "row_ok row \<Longrightarrow> lease_snapshot row t = Inr (observe row t)"
proof (cases "lease_owner row")
  case None
  assume "row_ok row"
  with None show ?thesis
    by (simp add: row_ok_def lease_shape_def lease_snapshot_def TaskLeaseSnapshot_def
        validate_shape_def observe_def observed_state_def opt_all_def)
next
  case (Some owner)
  assume ok: "row_ok row"
  with Some obtain d a h u tok where fields: "lease_dispatch_id row = Some d"
    "lease_acquired_at row = Some a" "heartbeat_at row = Some h" "lease_until row = Some u"
    "run_token row = Some tok" "1 \<le> lease_generation row"
    by (auto simp: row_ok_def lease_shape_def)
  with Some ok show ?thesis
    by (cases "lease_released_at row")
      (auto simp: row_ok_def lease_snapshot_def TaskLeaseSnapshot_def validate_shape_def
        observe_def observed_state_def opt_all_def)
qed

lemma lease_snapshot_row_ok:
  assumes "lease_shape row" and "lease_snapshot row t = Inr s"
  shows "row_ok row"
proof (cases "lease_owner row")
  case None
  with assms show ?thesis
    by (auto simp: row_ok_def lease_shape_def lease_snapshot_def TaskLeaseSnapshot_def opt_all_def
        split: if_splits)
next
  case (Some owner)
  with assms(1) obtain d a h u tok where fields: "lease_dispatch_id row = Some d"
    "lease_acquired_at row = Some a" "heartbeat_at row = Some h" "lease_until row = Some u"
    "run_token row = Some tok" "1 \<le> lease_generation row"
    by (auto simp: lease_shape_def)
  with Some assms show ?thesis
    by (cases "lease_released_at row")
      (auto simp: row_ok_def lease_snapshot_def TaskLeaseSnapshot_def validate_shape_def opt_all_def
        split: if_splits)
qed

definition lease_inv :: "'z run_store_scheme \<Rightarrow> bool" where
  "lease_inv db =
     (distinct (map task_key (st_tasks db)) \<and>
      (\<forall>row \<in> set (st_tasks db). row_ok row \<and> tr_run row \<in> rr_id ` set (st_runs db)) \<and>
      (\<forall>row \<in> set (st_tasks db). \<forall>row' \<in> set (st_tasks db).
         run_token row \<noteq> None \<longrightarrow> run_token row' = run_token row \<longrightarrow> task_key row' = task_key row))"

lemma put_task_simps [simp]:
  "st_runs (put_task r db) = st_runs db" "st_events (put_task r db) = st_events db"
  "run_store.more (put_task r db) = run_store.more db"
  "find_run rid (put_task r db) = find_run rid db"
  "run_log rid (put_task r db) = run_log rid db" "run_facts (put_task r db) = run_facts db"
  by (simp_all add: put_task_def run_log_def find_run_def run_facts_def)

lemma log_inv_put_task [simp]: "log_inv sha (put_task r db) = log_inv sha db"
  by (simp add: log_inv_def)

lemma map_task_key_put_task [simp]:
  "map task_key (st_tasks (put_task r db)) = map task_key (st_tasks db)"
  by (simp add: put_task_def task_key_def)

lemma set_put_task:
  "s \<in> set (st_tasks (put_task r db)) \<Longrightarrow>
   s = r \<and> task_key r \<in> task_key ` set (st_tasks db) \<or> s \<in> set (st_tasks db) \<and> task_key s \<noteq> task_key r"
  by (auto simp: put_task_def task_key_def image_iff split: if_splits) (metis+)?

lemma find_task_iff:
  "lease_inv db \<Longrightarrow> find_task rid tid db = Some r \<longleftrightarrow> r \<in> set (st_tasks db) \<and> task_key r = (rid, tid)"
  using find_unique [of task_key "st_tasks db" r] find_task_Some [of rid tid db r]
  by (auto simp: find_task_def task_key_def lease_inv_def)

lemma find_task_put_task:
  "find_task rid tid db = Some r \<Longrightarrow> tr_run r' = tr_run r \<Longrightarrow> tr_task r' = tr_task r \<Longrightarrow>
   find_task rid' tid' (put_task r' db) = (if (rid', tid') = (rid, tid) then Some r' else find_task rid' tid' db)"
proof -
  assume asm: "find_task rid tid db = Some r" "tr_run r' = tr_run r" "tr_task r' = tr_task r"
  then have key: "tr_run r' = rid \<and> tr_task r' = tid" by (auto dest: find_task_Some)
  have hit: "find (\<lambda>t. tr_run t = rid \<and> tr_task t = tid)
       (map (\<lambda>t. if tr_run t = rid \<and> tr_task t = tid then r' else t) ts) = Some r'"
    if "find (\<lambda>t. tr_run t = rid \<and> tr_task t = tid) ts = Some r" for ts
    using that key by (induction ts) (auto split: if_splits)
  have miss: "find (\<lambda>t. tr_run t = rid' \<and> tr_task t = tid')
       (map (\<lambda>t. if tr_run t = rid \<and> tr_task t = tid then r' else t) ts) =
       find (\<lambda>t. tr_run t = rid' \<and> tr_task t = tid') ts"
    if "(rid', tid') \<noteq> (rid, tid)" for ts
    using that key by (induction ts) auto
  show ?thesis using hit miss asm(1) key by (auto simp: find_task_def put_task_def)
qed

section \<open>Row writes\<close>

text \<open>
  Every lease transaction that writes does it in the same way: it flushes a new version of the
  locked row, logs an event, and observes the new row before it commits.
\<close>

definition row_write ::
    "(json \<Rightarrow> digest) \<Rightarrow> timestamp \<Rightarrow> task_row \<Rightarrow> task_row \<Rightarrow> runtime_event_draft
     \<Rightarrow> 'z run_store_scheme \<Rightarrow> 'z run_store_scheme \<Rightarrow> bool" where
  "row_write sha t row row' draft db db' =
     (\<exists>run e. find_run (tr_run row) db = Some run \<and>
        find_task (tr_run row) (tr_task row) db = Some row \<and>
        task_key row' = task_key row \<and> flush_task row' db = Inr (put_task row' db) \<and>
        RuntimeEventDraft draft = Inr draft \<and>
        append_runtime_event sha run draft (put_task row' db) = Inr (db', e) \<and>
        lease_snapshot row' t = Inr (observe row' t))"

lemma flush_task_Inr: "flush_task row db = Inr db1 \<Longrightarrow> db1 = put_task row db \<and> lease_shape row"
  by (auto simp: flush_task_def split: if_splits)

lemma row_write_frame:
  assumes wr: "row_write sha t row row' draft db db'" and inv: "log_inv sha db"
  shows "st_tasks db' = st_tasks (put_task row' db) \<and> run_store.more db' = run_store.more db \<and>
    run_facts db' = run_facts db \<and> map rr_id (st_runs db') = map rr_id (st_runs db) \<and> log_inv sha db'"
proof -
  from wr obtain run e where run: "find_run (tr_run row) db = Some run"
    and draft: "RuntimeEventDraft draft = Inr draft"
    and app: "append_runtime_event sha run draft (put_task row' db) = Inr (db', e)"
    by (auto simp: row_write_def)
  from run have run': "find_run (rr_id run) (put_task row' db) = Some run"
    using find_run_Some [OF run] by simp
  have d: "distinct (map rr_id (st_runs (put_task row' db)))" using inv by (simp add: log_inv_def)
  show ?thesis
    using append_frame [OF app run' d] append_log_inv [OF _ run' draft app] inv by simp
qed

lemma row_write_find_task:
  assumes "row_write sha t row row' draft db db'" and "log_inv sha db"
  shows "find_task rid tid db' =
    (if (rid, tid) = task_key row then Some row' else find_task rid tid db)"
proof -
  have "find_task rid tid db' = find_task rid tid (put_task row' db)"
    using row_write_frame [OF assms] by (simp add: find_task_def)
  also have "\<dots> = (if (rid, tid) = task_key row then Some row' else find_task rid tid db)"
    using assms(1) find_task_put_task [of "tr_run row" "tr_task row" db row row' rid tid]
    by (auto simp: row_write_def task_key_def)
  finally show ?thesis .
qed

lemma row_write_lease_inv [inv_rules]:
  assumes wr: "row_write sha t row row' draft db db'" and log: "log_inv sha db" and inv: "lease_inv db"
  shows "lease_inv db'"
proof -
  from wr have ok: "row_ok row'" and key: "task_key row' = task_key row"
    and mem: "row \<in> set (st_tasks db)"
    and tok: "\<forall>u \<in> set (st_tasks db). task_key u \<noteq> task_key row' \<longrightarrow> run_token u \<noteq> None \<longrightarrow>
        run_token u \<noteq> run_token row'"
    by (auto simp: row_write_def flush_task_def task_key_def split: if_splits
        dest: find_task_Some intro: lease_snapshot_row_ok)
  note frame = row_write_frame [OF wr log]
  have ids: "rr_id ` set (st_runs db') = rr_id ` set (st_runs db)"
    using frame by (metis list.set_map)
  have run: "tr_run row' \<in> rr_id ` set (st_runs db)"
    using inv mem key by (auto simp: lease_inv_def task_key_def)
  have rows: "s = row' \<or> s \<in> set (st_tasks db) \<and> task_key s \<noteq> task_key row'"
    if "s \<in> set (st_tasks db')" for s
    using that frame set_put_task [of s row' db] by auto
  have "distinct (map task_key (st_tasks db'))"
    using frame inv by (simp add: lease_inv_def)
  moreover have "row_ok s \<and> tr_run s \<in> rr_id ` set (st_runs db')" if "s \<in> set (st_tasks db')" for s
    using rows [OF that] ok run inv ids by (auto simp: lease_inv_def)
  moreover have "task_key u = task_key s"
    if "s \<in> set (st_tasks db')" "u \<in> set (st_tasks db')" "run_token s \<noteq> None" "run_token u = run_token s" for s u
    using rows [OF that(1)] rows [OF that(2)] that(3,4) tok inv unfolding lease_inv_def by metis
  ultimately show ?thesis unfolding lease_inv_def by blast
qed

section \<open>What a committed transaction did\<close>

lemma locked_run_Inr: "locked_run rid db = Inr run \<longleftrightarrow> find_run rid db = Some run"
  by (simp add: locked_run_def split: option.splits)

lemma locked_task_Inr: "locked_task rid tid db = Inr row \<longleftrightarrow> find_task rid tid db = Some row"
  by (simp add: locked_task_def split: option.splits)

lemma required_text_Inr:
  "required_text n s = Inr t \<longleftrightarrow> t = strip s \<and> strip s \<noteq> [] \<and> length (strip s) \<le> n"
  by (auto simp: required_text_def Let_def)

lemma lease_duration_nonneg: "lease_duration x = Inr d \<Longrightarrow> 0 \<le> d"
  by (auto simp: lease_duration_def timedelta_us_def Let_def split: if_splits)

lemma assert_identity_Inr:
  "assert_identity row owner dispatch token = Inr u \<longleftrightarrow>
   lease_owner row = Some owner \<and> lease_dispatch_id row = Some dispatch \<and> run_token row = Some token"
  by (auto simp: assert_identity_def assert_current_run_token_def bind_res_eq_Inr split: if_splits)

lemma draft_id: "RuntimeEventDraft d0 = Inr d \<Longrightarrow> d = d0"
  by (auto dest: draft_facts)

lemma next_lease_generation_Inr:
  "next_lease_generation row dispatch t = Inr (previous, generation) \<Longrightarrow>
   (lease_owner row = None \<and> previous = None \<and> generation = 1) \<or>
   (lease_owner row \<noteq> None \<and> observed_state row t = EXPIRED \<and> lease_dispatch_id row \<noteq> Some dispatch \<and>
    previous = Some (lease_generation row) \<and> generation = lease_generation row + 1)"
  by (auto simp: next_lease_generation_def bind_res_eq_Inr observe_def split: if_splits
      dest!: lease_snapshot_observe)

definition granted_row ::
    "task_row \<Rightarrow> string \<Rightarrow> uuid \<Rightarrow> int \<Rightarrow> uuid \<Rightarrow> timestamp \<Rightarrow> timestamp \<Rightarrow> task_row" where
  "granted_row row owner dispatch generation token t until =
     row\<lparr>lease_owner := Some owner, lease_dispatch_id := Some dispatch,
       lease_generation := generation, run_token := Some token,
       lease_acquired_at := Some t, heartbeat_at := Some t,
       lease_until := Some until, lease_released_at := None\<rparr>"

lemma granted_row_simps [simp]:
  "tr_run (granted_row row owner dispatch generation token t until) = tr_run row"
  "tr_task (granted_row row owner dispatch generation token t until) = tr_task row"
  "task_key (granted_row row owner dispatch generation token t until) = task_key row"
  "lease_generation (granted_row row owner dispatch generation token t until) = generation"
  "run_token (granted_row row owner dispatch generation token t until) = Some token"
  "lease_owner (granted_row row owner dispatch generation token t until) = Some owner"
  "lease_dispatch_id (granted_row row owner dispatch generation token t until) = Some dispatch"
  "lease_until (granted_row row owner dispatch generation token t until) = Some until"
  "lease_released_at (granted_row row owner dispatch generation token t until) = None"
  by (simp_all add: granted_row_def task_key_def)

lemma acquire_commit:
  assumes "acquire_task_lease sha t token rid tid owner_id dispatch secs db = Inr (db', grant)"
  obtains run row previous generation until where
    "find_run rid db = Some run" "rr_status run = RUNNING" "find_task rid (strip tid) db = Some row"
    "next_lease_generation row dispatch t = Inr (previous, generation)" "t < until"
    "lease_duration secs = Inr (until - t)"
    "row_write sha t row (granted_row row (strip owner_id) dispatch generation token t until)
       (acquired_draft (strip tid) (strip owner_id) dispatch previous generation until) db db'"
    "grant = \<lparr>lg_snapshot = observe (granted_row row (strip owner_id) dispatch generation token t until) t,
       lg_run_token = token\<rparr>"
proof -
  from assms obtain run row previous generation d draft e db1 where
    run: "find_run rid db = Some run" "rr_status run = RUNNING"
    and dur: "lease_duration secs = Inr d"
    and row: "find_task rid (strip tid) db = Some row"
    and gen: "next_lease_generation row dispatch t = Inr (previous, generation)"
    and fl: "flush_task (granted_row row (strip owner_id) dispatch generation token t (t + d)) db = Inr db1"
    and dr: "RuntimeEventDraft (acquired_draft (strip tid) (strip owner_id) dispatch previous generation (t + d)) = Inr draft"
    and app: "append_runtime_event sha run draft db1 = Inr (db', e)"
    and snap: "lease_snapshot (granted_row row (strip owner_id) dispatch generation token t (t + d)) t = Inr (lg_snapshot grant)"
    and grant: "lg_run_token grant = token" "ls_state (lg_snapshot grant) = ACTIVE"
    unfolding acquire_task_lease_def granted_row_def
    by (auto simp: bind_res_eq_Inr required_text_Inr locked_run_Inr locked_task_Inr Let_def
        TaskLeaseGrant_def split: if_splits prod.splits)
  let ?row' = "granted_row row (strip owner_id) dispatch generation token t (t + d)"
  have obs: "lg_snapshot grant = observe ?row' t" by (rule lease_snapshot_observe [OF snap])
  with grant(2) have "t < t + d" by (auto simp: observe_def observed_state_def split: if_splits)
  moreover have "lease_duration secs = Inr (t + d - t)" using dur by simp
  moreover have "row_write sha t row ?row'
      (acquired_draft (strip tid) (strip owner_id) dispatch previous generation (t + d)) db db'"
    using run row fl dr app snap obs flush_task_Inr [OF fl] draft_id [OF dr] find_task_Some [OF row]
    by (auto simp: row_write_def)
  ultimately show thesis
    by (rule that [OF run row gen]) (use obs grant(1) in \<open>cases grant, simp\<close>)
qed

lemma renew_commit:
  assumes "renew_task_lease sha t rid tid owner_id dispatch token secs db = Inr (db', snap)"
  obtains row until draft where
    "find_task rid (strip tid) db = Some row" "run_token row = Some token"
    "lease_owner row = Some (strip owner_id)" "lease_dispatch_id row = Some dispatch"
    "observed_state row t = ACTIVE"
    "row_write sha t row (row\<lparr>heartbeat_at := Some t, lease_until := Some until\<rparr>) draft db db'"
    "snap = observe (row\<lparr>heartbeat_at := Some t, lease_until := Some until\<rparr>) t"
    "ed_key draft = lease_key (strip tid) (lease_generation row) [''heartbeat'', isoformat t]"
proof -
  from assms obtain run row d u draft0 draft e db1 where
    run: "find_run rid db = Some run" and row: "find_task rid (strip tid) db = Some row"
    and ident: "assert_identity row (strip owner_id) dispatch token = Inr ()"
    and live: "lease_released_at row = None" "lease_until row = Some u" "t < u"
    and fl: "flush_task (row\<lparr>heartbeat_at := Some t, lease_until := Some (t + d)\<rparr>) db = Inr db1"
    and dr: "RuntimeEventDraft draft0 = Inr draft"
    and key: "ed_key draft0 = lease_key (strip tid) (lease_generation row) [''heartbeat'', isoformat t]"
    and app: "append_runtime_event sha run draft db1 = Inr (db', e)"
    and snap: "lease_snapshot (row\<lparr>heartbeat_at := Some t, lease_until := Some (t + d)\<rparr>) t = Inr snap"
    unfolding renew_task_lease_def
    by (auto simp: bind_res_eq_Inr required_text_Inr locked_run_Inr locked_task_Inr Let_def
        split: if_splits option.splits)
  let ?row' = "row\<lparr>heartbeat_at := Some t, lease_until := Some (t + d)\<rparr>"
  have obs: "snap = observe ?row' t" by (rule lease_snapshot_observe [OF snap])
  have "row_write sha t row ?row' draft0 db db'"
    using run row fl dr app snap obs flush_task_Inr [OF fl] draft_id [OF dr] find_task_Some [OF row]
    by (auto simp: row_write_def task_key_def)
  with row ident live obs key that show thesis
    by (auto simp: assert_identity_Inr observed_state_def)
qed

lemma release_commit:
  assumes "release_task_lease sha t rid tid owner_id dispatch token db = Inr (db', snap)"
  obtains (again) row where "find_task rid (strip tid) db = Some row" "run_token row = Some token"
      "lease_released_at row \<noteq> None" "db' = db" "snap = observe row t"
  | (released) row draft where "find_task rid (strip tid) db = Some row" "run_token row = Some token"
      "lease_owner row = Some (strip owner_id)" "lease_dispatch_id row = Some dispatch"
      "observed_state row t = ACTIVE"
      "row_write sha t row (row\<lparr>lease_released_at := Some t\<rparr>) draft db db'"
      "snap = observe (row\<lparr>lease_released_at := Some t\<rparr>) t"
      "ed_key draft = lease_key (strip tid) (lease_generation row) [''released'']"
proof -
  from assms obtain run row where run: "find_run rid db = Some run"
    and row: "find_task rid (strip tid) db = Some row"
    and ident: "assert_identity row (strip owner_id) dispatch token = Inr ()"
    by (auto simp: release_task_lease_def bind_res_eq_Inr required_text_Inr locked_run_Inr locked_task_Inr)
  show thesis
  proof (cases "lease_released_at row")
    case (Some r)
    with assms run row ident have "lease_snapshot row t = Inr snap" "db' = db"
      by (simp_all add: release_task_lease_def bind_res_eq_Inr required_text_Inr locked_run_Inr
          locked_task_Inr)
    with Some row ident again show thesis
      using lease_snapshot_observe by (simp add: assert_identity_Inr)
  next
    case None
    with assms run row obtain u draft0 draft e db1 where
      live: "lease_until row = Some u" "t < u"
      and fl: "flush_task (row\<lparr>lease_released_at := Some t\<rparr>) db = Inr db1"
      and dr: "RuntimeEventDraft draft0 = Inr draft"
      and key: "ed_key draft0 = lease_key (strip tid) (lease_generation row) [''released'']"
      and app: "append_runtime_event sha run draft db1 = Inr (db', e)"
      and snap: "lease_snapshot (row\<lparr>lease_released_at := Some t\<rparr>) t = Inr snap"
      unfolding release_task_lease_def
      by (auto simp: bind_res_eq_Inr required_text_Inr locked_run_Inr locked_task_Inr Let_def
          split: if_splits option.splits)
    let ?row' = "row\<lparr>lease_released_at := Some t\<rparr>"
    have obs: "snap = observe ?row' t" by (rule lease_snapshot_observe [OF snap])
    have "row_write sha t row ?row' draft0 db db'"
      using run row fl dr app snap obs flush_task_Inr [OF fl] draft_id [OF dr] find_task_Some [OF row]
      by (auto simp: row_write_def task_key_def)
    with row ident live None obs key released show thesis
      by (auto simp: assert_identity_Inr observed_state_def)
  qed
qed

lemma guard_passes:
  assumes "guard_task_git_mutation t rid tid dispatch token db = Inr snap"
  shows "\<exists>row run. find_task rid (strip tid) db = Some row \<and> run_token row = Some token \<and>
    lease_dispatch_id row = Some dispatch \<and> lease_released_at row = None \<and>
    lease_until row \<noteq> None \<and> t < the (lease_until row) \<and> snap = observe row t \<and>
    find_run rid db = Some run \<and> rr_status run = RUNNING"
  using assms
  by (auto simp: guard_task_git_mutation_def bind_res_eq_Inr required_text_Inr locked_run_Inr
      locked_task_Inr assert_live_current_run_token_def assert_current_run_token_def
      split: if_splits dest!: lease_snapshot_observe)

section \<open>When a lease is granted\<close>

text \<open>The last time an acquisition can add a day to, and the 32-bit range of the generation column.\<close>

definition MAX_ACQUIRE_TIME :: timestamp where
  "MAX_ACQUIRE_TIME = 253402300800000000 - 86400000000"

lemma timedelta_bounds: "1 / 1000000 \<le> x \<Longrightarrow> x \<le> 86400 \<Longrightarrow> 1 \<le> timedelta_us x \<and> timedelta_us x \<le> 86400000000"
proof -
  assume x: "1 / 1000000 \<le> x" "x \<le> 86400"
  define y where "y = x * 1000000"
  have y: "1 \<le> y" "y \<le> 86400000000" using x unfolding y_def by simp_all
  have lo: "1 \<le> \<lfloor>y\<rfloor>" using y(1) by (simp add: le_floor_iff)
  have hi: "\<lfloor>y\<rfloor> \<le> 86400000000" using y(2) by (simp add: floor_le_iff)
  have top: "\<lfloor>y\<rfloor> = 86400000000 \<Longrightarrow> y - of_int \<lfloor>y\<rfloor> < 1 / 2" using y(2) by simp
  have r: "timedelta_us x = (if y - of_int \<lfloor>y\<rfloor> < 1 / 2 then \<lfloor>y\<rfloor> else if 1 / 2 < y - of_int \<lfloor>y\<rfloor> then \<lfloor>y\<rfloor> + 1
      else if even \<lfloor>y\<rfloor> then \<lfloor>y\<rfloor> else \<lfloor>y\<rfloor> + 1)"
    unfolding timedelta_us_def Let_def y_def [symmetric] ..
  then have r': "timedelta_us x = \<lfloor>y\<rfloor> \<or> timedelta_us x = \<lfloor>y\<rfloor> + 1 \<and> \<not> y - of_int \<lfloor>y\<rfloor> < 1 / 2" by simp
  then show ?thesis
  proof
    assume "timedelta_us x = \<lfloor>y\<rfloor>"
    with lo hi show ?thesis by simp
  next
    assume "timedelta_us x = \<lfloor>y\<rfloor> + 1 \<and> \<not> y - of_int \<lfloor>y\<rfloor> < 1 / 2"
    moreover with top hi have "\<lfloor>y\<rfloor> < 86400000000" by (metis order_le_less)
    ultimately show ?thesis using lo by simp
  qed
qed

lemma acquired_draft_ok:
  assumes tid: "text_between 128 tid" and owner: "text_between 255 owner"
    and gen: "1 \<le> g" "g < 2 ^ 31" and prev: "opt_all (\<lambda>p. 0 \<le> p \<and> p < 2 ^ 31) prev"
    and until: "0 \<le> until" "until < 253402300800000000"
  shows "RuntimeEventDraft (acquired_draft tid owner dispatch prev g until) =
    Inr (acquired_draft tid owner dispatch prev g until)"
proof -
  let ?d = "acquired_draft tid owner dispatch prev g until"
  have small: "length (dec n) \<le> 10" if "n < 2 ^ 31" for n :: nat
    by (rule length_dec) (use that in simp_all)
  have "length (dec (nat g)) \<le> 10" using gen by (intro small) simp
  then have key: "text_between 255 (ed_key ?d)"
    using tid by (simp add: acquired_draft_def lease_key_def text_between_def)
  have pj: "json_size (case prev of None \<Rightarrow> JNull | Some g \<Rightarrow> JInt g) \<le> 11"
  proof (cases prev)
    case (Some p)
    with prev have "nat p < 2 ^ 31" "0 \<le> p" by (auto simp: opt_all_def nat_less_iff)
    from small [OF this(1)] this(2) Some show ?thesis by simp
  qed simp
  have ow: "str_size owner \<le> 1532" using str_size_bound [of owner] owner by (simp add: text_between_def)
  have un: "str_size (isoformat until) \<le> 602"
    using str_size_bound [of "isoformat until"] length_isoformat [OF until] by simp
  have names: "str_size ''owner_id'' = 10" "str_size ''previous_generation'' = 21" "str_size ''lease_until'' = 13"
    by code_simp+
  have size: "json_size (JObj (ed_attributes ?d)) \<le> MAX_ATTRIBUTES_BYTES"
    using pj ow un by (simp add: acquired_draft_def names MAX_ATTRIBUTES_BYTES_def)
  have "\<not> sensitive_key ''owner_id'' \<and> \<not> sensitive_key ''previous_generation'' \<and> \<not> sensitive_key ''lease_until''"
    by code_simp
  then have attrs: "validate_attributes (JObj (ed_attributes ?d)) = Inr ()"
    by (simp add: acquired_draft_def split: option.splits)
  have "text_between 1000 (ed_message ?d)" by (simp add: acquired_draft_def text_between_def)
  with key size attrs tid gen show ?thesis
    by (auto simp: RuntimeEventDraft_def acquired_draft_def opt_all_def)
qed

definition acquirable :: "task_row \<Rightarrow> uuid \<Rightarrow> timestamp \<Rightarrow> bool" where
  "acquirable row dispatch t =
     (lease_owner row = None \<or> observed_state row t = EXPIRED \<and> lease_dispatch_id row \<noteq> Some dispatch)"

lemma next_lease_generation_total:
  assumes "row_ok row"
  shows "is_ok (next_lease_generation row dispatch t) \<longleftrightarrow> acquirable row dispatch t"
    and "next_lease_generation row dispatch t = Inr (previous, generation) \<Longrightarrow>
      generation = lease_generation row + 1 \<and> opt_all (\<lambda>p. p = lease_generation row) previous"
proof -
  show "is_ok (next_lease_generation row dispatch t) \<longleftrightarrow> acquirable row dispatch t"
    using assms by (auto simp: next_lease_generation_def acquirable_def lease_snapshot_total observe_def observed_state_def)
  show "next_lease_generation row dispatch t = Inr (previous, generation) \<Longrightarrow>
      generation = lease_generation row + 1 \<and> opt_all (\<lambda>p. p = lease_generation row) previous"
    using next_lease_generation_Inr [of row dispatch t previous generation] assms
    by (auto simp: opt_all_def row_ok_def lease_shape_def)
qed

lemma acquire_succeeds:
  assumes log: "log_inv sha db" and lease: "lease_inv db"
    and run: "find_run rid db = Some run" "rr_status run = RUNNING"
    and row: "find_task rid (strip tid) db = Some row"
    and owner: "strip owner \<noteq> []" "length (strip owner) \<le> 255"
    and secs: "1 / 1000000 \<le> secs" "secs \<le> 86400" and t: "0 \<le> t" "t < MAX_ACQUIRE_TIME"
    and gen: "lease_generation row < 2 ^ 31 - 1"
    and tok: "\<forall>r \<in> set (st_tasks db). run_token r \<noteq> Some token"
    and free: "acquirable row dispatch t"
    and key: "\<forall>e \<in> set (st_events db). ev_run e = rid \<longrightarrow>
        ev_key e \<noteq> lease_key (strip tid) (lease_generation row + 1) [''acquired'']"
  shows "\<exists>db' grant. acquire_task_lease sha t token rid tid owner dispatch secs db = Inr (db', grant)"
proof -
  have mem: "row \<in> set (st_tasks db)" and ids: "tr_run row = rid" "tr_task row = strip tid"
    using find_task_Some [OF row] by auto
  have ok: "row_ok row" using lease mem by (simp add: lease_inv_def)
  then have tid: "text_between 128 (strip tid)" using ids by (simp add: row_ok_def)
  have gen0: "0 \<le> lease_generation row" using ok by (auto simp: row_ok_def lease_shape_def)
  obtain previous generation where next_gen: "next_lease_generation row dispatch t = Inr (previous, generation)"
    using next_lease_generation_total(1) [OF ok, of dispatch t] free by (auto simp: is_ok_iff)
  note g = next_lease_generation_total(2) [OF ok next_gen]
  let ?d = "timedelta_us secs"
  have d: "1 \<le> ?d" "?d \<le> 86400000000" using timedelta_bounds [OF secs] by auto
  let ?row' = "granted_row row (strip owner) dispatch generation token t (t + ?d)"
  let ?db1 = "put_task ?row' db"
  have shape: "lease_shape ?row'" using g gen0 by (simp add: lease_shape_def granted_row_def)
  have flush: "flush_task ?row' db = Inr ?db1" using shape tok by (auto simp: flush_task_def)
  have ok': "row_ok ?row'" using shape owner tid ids d
    by (simp add: row_ok_def granted_row_def opt_all_def text_between_def Suc_le_eq)
  have snap: "lease_snapshot ?row' t = Inr (observe ?row' t)" by (rule lease_snapshot_total [OF ok'])
  have state: "ls_state (observe ?row' t) = ACTIVE" "ls_generation (observe ?row' t) = generation"
    using d by (simp_all add: observe_def observed_state_def)
  have draft: "RuntimeEventDraft (acquired_draft (strip tid) (strip owner) dispatch previous generation (t + ?d)) =
      Inr (acquired_draft (strip tid) (strip owner) dispatch previous generation (t + ?d))"
    using tid owner g gen gen0 t d
    by (intro acquired_draft_ok) (auto simp: text_between_def opt_all_def MAX_ACQUIRE_TIME_def Suc_le_eq split: option.splits)
  have id: "rr_id run = rid" using find_run_Some [OF run(1)] by simp
  have ft: "find_task rid (strip tid) ?db1 = Some ?row'"
    using find_task_put_task [OF row, of ?row' rid "strip tid"] by simp
  have "\<exists>db' e. append_runtime_event sha run
      (acquired_draft (strip tid) (strip owner) dispatch previous generation (t + ?d)) ?db1 = Inr (db', e) \<and>
      st_events db' = st_events ?db1 @ [e]"
    by (rule append_fresh_ok) (use log run id draft key g ft in \<open>auto simp: acquired_draft_def opt_all_def\<close>)
  then obtain db' e where app: "append_runtime_event sha run
      (acquired_draft (strip tid) (strip owner) dispatch previous generation (t + ?d)) ?db1 = Inr (db', e)"
    by blast
  have texts: "required_text 128 tid = Inr (strip tid)" "required_text 255 owner = Inr (strip owner)"
    "lease_duration secs = Inr ?d" "locked_run rid db = Inr run" "locked_task rid (strip tid) db = Inr row"
    using tid owner secs run row
    by (auto simp: required_text_Inr text_between_def lease_duration_def locked_run_Inr locked_task_Inr)
  have "acquire_task_lease sha t token rid tid owner dispatch secs db =
      Inr (db', \<lparr>lg_snapshot = observe ?row' t, lg_run_token = token\<rparr>)"
    unfolding acquire_task_lease_def texts bind_res_Inr next_gen prod.case Let_def
      granted_row_def [symmetric] flush draft app snap TaskLeaseGrant_def
    using run(2) state g gen0 by simp
  then show ?thesis by blast
qed

end
