(* ===== verification/Task_Run.thy ===== *)
theory Task_Run
  imports DevFlow_Prelude
begin

text \<open>
  The single-task state machine (\<open>runtime/state_machine.py\<close>, \<open>TaskRunState\<close> and \<open>RunEvent\<close> of
  \<open>models/run.py\<close>) and the normalized failure evidence it ends with (\<open>models/failure.py\<close>).

  A machine is the current state and its event log. Every log is shown to be a path of the
  transition table from PENDING with contiguous sequence numbers, so that a run that succeeded was
  verified and reviewed last, and that a terminal state is final.
\<close>

section \<open>States and events\<close>

datatype task_run_state =
  T_PENDING | T_RUNNING | T_VERIFYING | T_REVIEWING | T_REPAIRING | T_SUCCEEDED | T_FAILED

record run_event =
  re_sequence :: nat
  re_state :: task_run_state
  re_detail :: string

definition RunEvent :: "nat \<Rightarrow> task_run_state \<Rightarrow> string \<Rightarrow> run_event res" where
  "RunEvent sequence state detail =
     (if 1 \<le> length detail \<and> length detail \<le> 2000
      then Inr \<lparr>re_sequence = sequence, re_state = state, re_detail = detail\<rparr>
      else Inl (ValueError ''detail''))"

fun ALLOWED_RUN_TRANSITIONS :: "task_run_state \<Rightarrow> task_run_state list" where
  "ALLOWED_RUN_TRANSITIONS T_PENDING = [T_RUNNING, T_FAILED]"
| "ALLOWED_RUN_TRANSITIONS T_RUNNING = [T_VERIFYING, T_FAILED]"
| "ALLOWED_RUN_TRANSITIONS T_VERIFYING = [T_REVIEWING, T_REPAIRING, T_FAILED]"
| "ALLOWED_RUN_TRANSITIONS T_REVIEWING = [T_SUCCEEDED, T_REPAIRING, T_FAILED]"
| "ALLOWED_RUN_TRANSITIONS T_REPAIRING = [T_REPAIRING, T_VERIFYING, T_FAILED]"
| "ALLOWED_RUN_TRANSITIONS T_SUCCEEDED = []"
| "ALLOWED_RUN_TRANSITIONS T_FAILED = []"

record task_state_machine =
  sm_state :: task_run_state
  sm_events :: "run_event list"

definition TaskStateMachine :: task_state_machine where
  "TaskStateMachine = \<lparr>sm_state = T_PENDING,
     sm_events = [\<lparr>re_sequence = 0, re_state = T_PENDING, re_detail = ''Task run created.''\<rparr>]\<rparr>"

text \<open>
  The state is assigned before the event is built, so a detail that is empty or too long raises
  with the machine already in the new state: the result is the machine left behind and
  the exception, if any.
\<close>

definition machine_transition ::
    "task_run_state \<Rightarrow> string \<Rightarrow> task_state_machine \<Rightarrow> task_state_machine \<times> exn option" where
  "machine_transition next detail m =
     (if next \<notin> set (ALLOWED_RUN_TRANSITIONS (sm_state m))
      then (m, Some (ValueError ''invalid task-state transition''))
      else
        let m' = m\<lparr>sm_state := next\<rparr> in
        case RunEvent (length (sm_events m')) next detail of
          Inl e \<Rightarrow> (m', Some e)
        | Inr event \<Rightarrow> (m'\<lparr>sm_events := sm_events m' @ [event]\<rparr>, None))"

section \<open>Failure evidence\<close>

datatype failure_type =
    MODEL_TIMEOUT | AGENT_TIME_LIMIT | RATE_LIMIT | INVALID_AGENT_OUTPUT | INVALID_TOOL_ARGUMENTS
  | PROVIDER_REQUEST_REJECTED | TOOL_FAILURE | SCOPE_VIOLATION | TEST_FAILURE | LINT_FAILURE
  | REVIEW_REJECTED | CONTEXT_OVERFLOW | MERGE_CONFLICT | SANDBOX_TIMEOUT
  | VERIFICATION_ENV_UNAVAILABLE | TOKEN_BUDGET_EXHAUSTED | WORK_PACKAGE_BUDGET_ALLOCATION_BLOCKED
  | INTERFACE_CONTRACT_UNMET

datatype failure_source = F_PROVIDER | F_TOOL | F_VERIFICATION | F_REVIEW | F_RUNTIME

record failure_report =
  fr_type :: failure_type
  fr_source :: failure_source
  fr_message :: string
  fr_retryable :: bool
  fr_evidence :: "string list"

definition FailureReport :: "failure_report \<Rightarrow> failure_report res" where
  "FailureReport f =
     (let message = strip (fr_message f); evidence = map strip (fr_evidence f) in
      if \<not> (1 \<le> length (fr_message f) \<and> length (fr_message f) \<le> 4000) then Inl (ValueError ''message'')
      else if message = [] then Inl (ValueError ''failure message must not be empty'')
      else if [] \<in> set evidence then Inl (ValueError ''failure evidence entries must not be empty'')
      else Inr (f\<lparr>fr_message := message, fr_evidence := evidence\<rparr>))"

section \<open>Paths\<close>

text \<open>A log of states that follows the transition table.\<close>

definition run_path :: "task_run_state list \<Rightarrow> bool" where
  "run_path ss = (ss \<noteq> [] \<and> hd ss = T_PENDING \<and>
     (\<forall>i. Suc i < length ss \<longrightarrow> ss ! Suc i \<in> set (ALLOWED_RUN_TRANSITIONS (ss ! i))))"

definition machine_inv :: "task_state_machine \<Rightarrow> bool" where
  "machine_inv m = (run_path (map re_state (sm_events m)) \<and>
     map re_sequence (sm_events m) = [0..<length (sm_events m)] \<and>
     sm_state m = last (map re_state (sm_events m)))"

text \<open>A transition of a running orchestrator: one that raises ends the run.\<close>

definition machine_step :: "task_state_machine \<Rightarrow> task_state_machine \<Rightarrow> bool" where
  "machine_step m m' = (\<exists>next detail. machine_transition next detail m = (m', None))"

lemma run_path_snoc:
  "run_path ss \<Longrightarrow> s \<in> set (ALLOWED_RUN_TRANSITIONS (last ss)) \<Longrightarrow> run_path (ss @ [s])"
  by (auto simp: run_path_def nth_append last_conv_nth less_Suc_eq) (metis One_nat_def diff_Suc_1)

lemma machine_transition_commits:
  "machine_transition next detail m = (m', None) \<longleftrightarrow>
   next \<in> set (ALLOWED_RUN_TRANSITIONS (sm_state m)) \<and> 1 \<le> length detail \<and> length detail \<le> 2000 \<and>
   m' = \<lparr>sm_state = next, sm_events = sm_events m @
     [\<lparr>re_sequence = length (sm_events m), re_state = next, re_detail = detail\<rparr>]\<rparr>"
  by (cases m) (auto simp: machine_transition_def RunEvent_def Let_def)

lemma machine_transition_inv [inv_rules]:
  assumes "machine_inv m" and "machine_transition next detail m = (m', None)"
  shows "machine_inv m'"
  using assms run_path_snoc [of "map re_state (sm_events m)" "next"]
  by (auto simp: machine_inv_def machine_transition_commits)

interpretation machine: transition_system "\<lambda>m. m = TaskStateMachine" machine_step machine_inv
proof
  show "machine_inv m" if "m = TaskStateMachine" for m
    using that by (simp add: machine_inv_def TaskStateMachine_def run_path_def)
  show "machine_inv m'" if "machine_inv m" "machine_step m m'" for m m'
    using that by (auto simp: machine_step_def intro: inv_rules)
qed

lemma run_path_prev:
  assumes "run_path ss" and "1 < length ss"
  shows "run_path (butlast ss)" and "last ss \<in> set (ALLOWED_RUN_TRANSITIONS (last (butlast ss)))"
proof -
  from assms(2) obtain xs x y where ss: "ss = xs @ [x, y]"
    by (metis One_nat_def append_Cons append_Nil append_assoc length_append_singleton less_Suc_eq
        less_one list.size(3) not_less_zero rev_exhaust)
  have step: "ss ! Suc i \<in> set (ALLOWED_RUN_TRANSITIONS (ss ! i))" if "Suc i < length ss" for i
    using assms(1) that by (auto simp: run_path_def)
  show "last ss \<in> set (ALLOWED_RUN_TRANSITIONS (last (butlast ss)))"
    using step [of "length xs"] ss by (simp add: nth_append butlast_append)
  show "run_path (butlast ss)"
    using assms(1) step ss unfolding run_path_def
    by (auto simp: butlast_append nth_append hd_append split: if_splits)
qed

lemma allowed_pred:
  "s \<in> set (ALLOWED_RUN_TRANSITIONS p) \<Longrightarrow> s = T_SUCCEEDED \<Longrightarrow> p = T_REVIEWING"
  "s \<in> set (ALLOWED_RUN_TRANSITIONS p) \<Longrightarrow> s = T_REVIEWING \<Longrightarrow> p = T_VERIFYING"
  by (cases p; auto)+

text \<open>Where a machine can be, its log ends with the states that lead there.\<close>

lemma succeeded_suffix:
  assumes "run_path ss" and "last ss = T_SUCCEEDED"
  shows "suffix [T_VERIFYING, T_REVIEWING, T_SUCCEEDED] ss"
proof -
  have long: "1 < length xs" if "run_path xs" "last xs \<noteq> T_PENDING" for xs
    using that by (cases xs rule: rev_cases) (auto simp: run_path_def hd_append split: if_splits)
  have l1: "1 < length ss" using long [OF assms(1)] assms(2) by simp
  note p1 = run_path_prev [OF assms(1) l1]
  have s2: "last (butlast ss) = T_REVIEWING" using p1(2) assms(2) allowed_pred(1) by auto
  have l2: "1 < length (butlast ss)" using long [OF p1(1)] s2 by simp
  note p2 = run_path_prev [OF p1(1) l2]
  have s3: "last (butlast (butlast ss)) = T_VERIFYING" using p2(2) s2 allowed_pred(2) by auto
  have ne: "ss \<noteq> []" "butlast ss \<noteq> []" "butlast (butlast ss) \<noteq> []"
    using l1 l2 by (auto simp: butlast_conv_take)
  have "ss = butlast (butlast (butlast ss)) @ [T_VERIFYING, T_REVIEWING, T_SUCCEEDED]"
    using append_butlast_last_id [OF ne(1)] append_butlast_last_id [OF ne(2)]
      append_butlast_last_id [OF ne(3)] assms(2) s2 s3 by (metis append_Cons append_Nil append_assoc)
  then show ?thesis by (metis suffixI)
qed

text \<open>The event log of every reachable task state machine has contiguous sequence numbers from zero, starts in PENDING, follows the transition table and ends in the current state; a run that SUCCEEDED was VERIFYING, then REVIEWING, immediately before; and a terminal machine cannot move again.\<close>

theorem task_run_log_is_path:
  assumes "reachable (\<lambda>m. m = TaskStateMachine) machine_step m"
  shows "map re_sequence (sm_events m) = [0..<length (sm_events m)] \<and>
    run_path (map re_state (sm_events m)) \<and> sm_state m = re_state (last (sm_events m)) \<and>
    (sm_state m = T_SUCCEEDED \<longrightarrow>
       suffix [T_VERIFYING, T_REVIEWING, T_SUCCEEDED] (map re_state (sm_events m))) \<and>
    (sm_state m \<in> {T_SUCCEEDED, T_FAILED} \<longrightarrow> (\<forall>m'. \<not> machine_step m m'))"
proof -
  have inv: "machine_inv m" by (rule machine.reach_inv [OF assms])
  then have "sm_events m \<noteq> []" by (auto simp: machine_inv_def run_path_def)
  with inv have "sm_state m = re_state (last (sm_events m))" by (simp add: machine_inv_def last_map)
  moreover have "sm_state m = T_SUCCEEDED \<longrightarrow>
      suffix [T_VERIFYING, T_REVIEWING, T_SUCCEEDED] (map re_state (sm_events m))"
    using inv succeeded_suffix by (auto simp: machine_inv_def)
  moreover have "sm_state m \<in> {T_SUCCEEDED, T_FAILED} \<longrightarrow> (\<forall>m'. \<not> machine_step m m')"
    by (auto simp: machine_step_def machine_transition_commits)
  ultimately show ?thesis using inv by (simp add: machine_inv_def)
qed

definition demo_machine :: task_state_machine where
  "demo_machine = fold (\<lambda>s m. fst (machine_transition s ''ok'' m))
     [T_RUNNING, T_VERIFYING, T_REPAIRING, T_VERIFYING, T_REVIEWING, T_SUCCEEDED] TaskStateMachine"

lemma machine_moves:
  assumes "next \<in> set (ALLOWED_RUN_TRANSITIONS (sm_state m))"
  shows "sm_state (fst (machine_transition next ''ok'' m)) = next"
    and "machine_step m (fst (machine_transition next ''ok'' m))"
proof -
  have "\<exists>m'. machine_transition next ''ok'' m = (m', None)"
    using assms by (simp add: machine_transition_commits)
  then obtain m' where m': "machine_transition next ''ok'' m = (m', None)" ..
  then have "sm_state m' = next" by (simp add: machine_transition_commits)
  with m' show "sm_state (fst (machine_transition next ''ok'' m)) = next" by simp
  show "machine_step m (fst (machine_transition next ''ok'' m))"
    unfolding machine_step_def m' fst_conv using m' by blast
qed

lemma reach_ok:
  "reachable (\<lambda>m. m = TaskStateMachine) machine_step m \<Longrightarrow>
   next \<in> set (ALLOWED_RUN_TRANSITIONS (sm_state m)) \<Longrightarrow>
   reachable (\<lambda>m. m = TaskStateMachine) machine_step (fst (machine_transition next ''ok'' m))"
  using reach_step machine_moves(2) by metis

lemma TaskStateMachine_state [simp]: "sm_state TaskStateMachine = T_PENDING"
  by (simp add: TaskStateMachine_def)

lemma demo_machine_reachable: "reachable (\<lambda>m. m = TaskStateMachine) machine_step demo_machine"
  unfolding demo_machine_def fold_simps id_apply
  by (intro reach_ok reach_init) (simp_all add: machine_moves(1))

theorem task_run_log_is_path_witness:
  "sm_state demo_machine = T_SUCCEEDED \<and>
   suffix [T_VERIFYING, T_REVIEWING, T_SUCCEEDED] (map re_state (sm_events demo_machine))"
proof -
  have "sm_state demo_machine = T_SUCCEEDED" by code_simp
  with task_run_log_is_path [OF demo_machine_reachable] show ?thesis by simp
qed

end
