(* ===== verification/Evidence_Store.thy ===== *)
theory Evidence_Store
  imports Task_Lease Task_Run
begin

text \<open>
  The PostgreSQL evidence store (\<open>persistence/repository.py\<close>, \<open>persistence/serialization.py\<close>, worker
  payloads of \<open>models/dispatch.py\<close>): starting a Run, appending evidence behind the fence of the
  task lease, and finalizing a single-task Run. Together with the lease transactions these are the
  steps of the store, and the theorems at the end hold in each of its reachable states.

  Row identities and times the database assigns are arguments. A payload is an instance of the
  model of its kind: the two worker models that recovery reads are written out, an instance of any
  other model is its JSON dump.
\<close>

section \<open>Payloads\<close>

datatype persistence_evidence_kind =
    STATE_TRANSITION | DEVELOPER_RUN | VERIFICATION_RESULT | REVIEW_DECISION | REPAIR_RUN
  | FAILURE_REPORT | MERGE_QUEUE_SNAPSHOT | MERGE_CONFLICT_EVIDENCE | INTEGRATION_GATE | HUMAN_DECISION
  | INTEGRATION_REPAIR | CONTEXT_REFERENCE | DISPATCH_EVENT | WORKER_EXECUTION | TRACE_BATCH
  | OPERATOR_ACTION | TASK_CHECKPOINT | WORKFLOW_MATCH | WORKFLOW_EXECUTION

fun kind_value :: "persistence_evidence_kind \<Rightarrow> string" where
  "kind_value STATE_TRANSITION = ''STATE_TRANSITION''"
| "kind_value DEVELOPER_RUN = ''DEVELOPER_RUN''"
| "kind_value VERIFICATION_RESULT = ''VERIFICATION_RESULT''"
| "kind_value REVIEW_DECISION = ''REVIEW_DECISION''"
| "kind_value REPAIR_RUN = ''REPAIR_RUN''"
| "kind_value FAILURE_REPORT = ''FAILURE_REPORT''"
| "kind_value MERGE_QUEUE_SNAPSHOT = ''MERGE_QUEUE_SNAPSHOT''"
| "kind_value MERGE_CONFLICT_EVIDENCE = ''MERGE_CONFLICT''"
| "kind_value INTEGRATION_GATE = ''INTEGRATION_GATE''"
| "kind_value HUMAN_DECISION = ''HUMAN_DECISION''"
| "kind_value INTEGRATION_REPAIR = ''INTEGRATION_REPAIR''"
| "kind_value CONTEXT_REFERENCE = ''CONTEXT_REFERENCE''"
| "kind_value DISPATCH_EVENT = ''DISPATCH_EVENT''"
| "kind_value WORKER_EXECUTION = ''WORKER_EXECUTION''"
| "kind_value TRACE_BATCH = ''TRACE_BATCH''"
| "kind_value OPERATOR_ACTION = ''OPERATOR_ACTION''"
| "kind_value TASK_CHECKPOINT = ''TASK_CHECKPOINT''"
| "kind_value WORKFLOW_MATCH = ''WORKFLOW_MATCH''"
| "kind_value WORKFLOW_EXECUTION = ''WORKFLOW_EXECUTION''"

definition evidence_schema_version :: "persistence_evidence_kind \<Rightarrow> int" where
  "evidence_schema_version kind = (if kind = DEVELOPER_RUN then 2 else 1)"

datatype worker_execution_status = W_SUCCEEDED | W_FAILED

datatype worker_dispatch_phase = RECEIVED | COMPLETED

record worker_dispatch_event =
  wd_dispatch :: uuid
  wd_run :: uuid
  wd_task :: task_id
  wd_phase :: worker_dispatch_phase
  wd_outcome :: "worker_execution_status option"

definition WorkerDispatchEvent :: "worker_dispatch_event \<Rightarrow> worker_dispatch_event res" where
  "WorkerDispatchEvent w =
     (if \<not> text_between 128 (wd_task w) then Inl (ValueError ''task_id'')
      else if wd_phase w = RECEIVED \<and> wd_outcome w \<noteq> None
      then Inl (ValueError ''RECEIVED dispatch events must not claim an execution outcome'')
      else if wd_phase w = COMPLETED \<and> wd_outcome w = None
      then Inl (ValueError ''COMPLETED dispatch events require an execution outcome'')
      else Inr w)"

text \<open>The parts of a nested run result and checkpoint that the worker model reads.\<close>

record run_result_ref =
  rs_task :: task_id
  rs_status :: task_run_state
  rs_dump :: json

record checkpoint_ref =
  cp_task :: task_id
  cp_dump :: json

record worker_execution_evidence =
  we_dispatch :: uuid
  we_run :: uuid
  we_task :: task_id
  we_status :: worker_execution_status
  we_base_commit :: string
  we_branch_name :: "string option"
  we_commit_sha :: "string option"
  we_checkpoint :: "checkpoint_ref option"
  we_continuation :: "json option"
  we_run_result :: "run_result_ref option"
  we_failures :: "json list"
  we_duration_ms :: int

text \<open>The pattern \<open>^[0-9a-f]{40,64}$\<close> of Git object ids.\<close>

definition oid_pattern :: "string \<Rightarrow> bool" where
  "oid_pattern s = (40 \<le> length s \<and> length s \<le> 64 \<and> set s \<subseteq> set ''0123456789abcdef'')"

definition WorkerExecutionEvidence :: "worker_execution_evidence \<Rightarrow> worker_execution_evidence res" where
  "WorkerExecutionEvidence w =
     (if \<not> text_between 128 (we_task w) then Inl (ValueError ''task_id'')
      else if \<not> oid_pattern (we_base_commit w) then Inl (ValueError ''base_commit'')
      else if \<not> opt_all (text_between 255) (we_branch_name w) then Inl (ValueError ''branch_name'')
      else if \<not> opt_all oid_pattern (we_commit_sha w) then Inl (ValueError ''commit_sha'')
      else if we_duration_ms w < 0 then Inl (ValueError ''duration_ms'')
      else if \<not> opt_all (\<lambda>r. rs_task r = we_task w) (we_run_result w)
      then Inl (ValueError ''worker execution evidence must match the nested task run id'')
      else if we_status w = W_SUCCEEDED then
        if we_run_result w = None \<or> \<not> opt_all (\<lambda>r. rs_status r = T_SUCCEEDED) (we_run_result w)
        then Inl (ValueError ''successful worker execution requires successful runtime evidence'')
        else if we_failures w \<noteq> []
        then Inl (ValueError ''successful worker execution must not contain failures'')
        else if we_commit_sha w = None
        then Inl (ValueError ''successful worker execution requires a task commit'')
        else if we_checkpoint w \<noteq> None
        then Inl (ValueError ''successful worker execution must not contain a continuation checkpoint'')
        else Inr w
      else if we_commit_sha w \<noteq> None
      then Inl (ValueError ''failed worker execution must not publish a successful task commit'')
      else if \<not> opt_all (\<lambda>c. cp_task c = we_task w) (we_checkpoint w)
      then Inl (ValueError ''worker checkpoint must match the failed task'')
      else if we_failures w = [] \<and>
         (we_run_result w = None \<or> \<not> opt_all (\<lambda>r. rs_status r = T_FAILED) (we_run_result w))
      then Inl (ValueError ''failed worker execution requires explicit failure evidence'')
      else Inr w)"

datatype evidence_payload =
    DispatchPayload worker_dispatch_event
  | WorkerPayload worker_execution_evidence
  | ModelPayload persistence_evidence_kind json

fun payload_kind :: "evidence_payload \<Rightarrow> persistence_evidence_kind" where
  "payload_kind (DispatchPayload w) = DISPATCH_EVENT"
| "payload_kind (WorkerPayload w) = WORKER_EXECUTION"
| "payload_kind (ModelPayload k j) = k"

definition json_option :: "('a \<Rightarrow> json) \<Rightarrow> 'a option \<Rightarrow> json" where
  "json_option f x = (case x of None \<Rightarrow> JNull | Some v \<Rightarrow> f v)"

definition json_status :: "worker_execution_status \<Rightarrow> json" where
  "json_status s = JStr (case s of W_SUCCEEDED \<Rightarrow> ''SUCCEEDED'' | W_FAILED \<Rightarrow> ''FAILED'')"

text \<open>\<open>model_dump(mode="json")\<close>.\<close>

fun payload_json :: "evidence_payload \<Rightarrow> json" where
  "payload_json (DispatchPayload w) =
     JObj [(''dispatch_id'', JStr (uuid_text (wd_dispatch w))), (''run_id'', JStr (uuid_text (wd_run w))),
       (''task_id'', JStr (wd_task w)),
       (''phase'', JStr (case wd_phase w of RECEIVED \<Rightarrow> ''RECEIVED'' | COMPLETED \<Rightarrow> ''COMPLETED'')),
       (''outcome'', json_option json_status (wd_outcome w))]"
| "payload_json (WorkerPayload w) =
     JObj [(''dispatch_id'', JStr (uuid_text (we_dispatch w))), (''run_id'', JStr (uuid_text (we_run w))),
       (''task_id'', JStr (we_task w)), (''status'', json_status (we_status w)),
       (''base_commit'', JStr (we_base_commit w)), (''branch_name'', json_option JStr (we_branch_name w)),
       (''commit_sha'', json_option JStr (we_commit_sha w)),
       (''checkpoint'', json_option cp_dump (we_checkpoint w)),
       (''continuation'', json_option id (we_continuation w)),
       (''run_result'', json_option rs_dump (we_run_result w)),
       (''failures'', JArr (we_failures w)), (''duration_ms'', JInt (we_duration_ms w))]"
| "payload_json (ModelPayload k j) = j"

definition canonical_payload :: "(json \<Rightarrow> digest) \<Rightarrow> evidence_payload \<Rightarrow> evidence_payload \<times> digest" where
  "canonical_payload sha model = (model, sha (payload_json model))"

fun model_validate :: "evidence_payload \<Rightarrow> evidence_payload res" where
  "model_validate (DispatchPayload w) = bind_res (WorkerDispatchEvent w) (\<lambda>v. Inr (DispatchPayload v))"
| "model_validate (WorkerPayload w) = bind_res (WorkerExecutionEvidence w) (\<lambda>v. Inr (WorkerPayload v))"
| "model_validate (ModelPayload k j) = Inr (ModelPayload k j)"

definition decode_evidence ::
    "persistence_evidence_kind \<Rightarrow> evidence_payload \<Rightarrow> int \<Rightarrow> evidence_payload res" where
  "decode_evidence kind payload version =
     (if version < 1 \<or> evidence_schema_version kind < version
      then Inl (PersistenceCorruptionError ''unsupported payload schema version'')
      else if payload_kind payload \<noteq> kind
      then Inl (PersistenceCorruptionError ''payload failed typed validation'')
      else (case model_validate payload of
          Inl e \<Rightarrow> Inl (PersistenceCorruptionError ''payload failed typed validation'')
        | Inr p \<Rightarrow> Inr p))"

section \<open>The store\<close>

record evidence_row =
  ei_id :: int
  ei_run :: uuid
  ei_task :: "task_id option"
  ei_key :: string
  ei_kind :: persistence_evidence_kind
  ei_stage :: "string option"
  ei_sequence :: "int option"
  ei_schema_version :: int
  ei_payload :: evidence_payload
  ei_sha256 :: digest

record evidence_store = run_store +
  st_evidence :: "evidence_row list"

definition from_task_state :: "task_run_state \<Rightarrow> persisted_run_status res" where
  "from_task_state state =
     (if state = T_SUCCEEDED then Inr SUCCEEDED else if state = T_FAILED then Inr FAILED
      else Inl (ValueError ''only terminal task states can finalize a persisted run''))"

definition status_value :: "persisted_run_status \<Rightarrow> string" where
  "status_value s = (case s of RUNNING \<Rightarrow> ''RUNNING'' | SUCCEEDED \<Rightarrow> ''SUCCEEDED'' | FAILED \<Rightarrow> ''FAILED'')"

definition contract_json :: "task_contract \<Rightarrow> json" where
  "contract_json c = (let strs = (\<lambda>xs. JArr (map JStr xs)) in
     JObj [(''task_id'', JStr (tc_task_id c)), (''objective'', JStr (objective c)),
       (''readable_files'', strs (readable_files c)), (''writable_files'', strs (writable_files c)),
       (''readonly_files'', strs (readonly_files c)),
       (''acceptance_criteria'', strs (acceptance_criteria c)),
       (''verification_commands'', strs (verification_commands c)),
       (''max_retries'', JInt (max_retries c))])"

text \<open>A task row as it is inserted: no lease.\<close>

definition new_task_row :: "(json \<Rightarrow> digest) \<Rightarrow> uuid \<Rightarrow> task_contract \<Rightarrow> task_row" where
  "new_task_row sha rid c =
     \<lparr>tr_run = rid, tr_task = tc_task_id c, tr_contract = contract_json c,
      tr_contract_sha256 = sha (contract_json c), lease_owner = None, lease_dispatch_id = None,
      lease_generation = 0, run_token = None, lease_acquired_at = None, heartbeat_at = None,
      lease_until = None, lease_released_at = None\<rparr>"

text \<open>An exception of the flush is an \<open>IntegrityError\<close>, which \<open>start_run\<close> turns into a conflict.\<close>

definition integrity_conflict :: "'a res \<Rightarrow> 'a res" where
  "integrity_conflict m = (case m of
     Inl (IntegrityError s) \<Rightarrow> Inl (PersistenceConflictError ''run identity already exists or violates persistence constraints'')
   | _ \<Rightarrow> m)"

definition start_run ::
    "(json \<Rightarrow> digest) \<Rightarrow> uuid list \<Rightarrow> uuid \<Rightarrow> task_contract list \<Rightarrow> string \<Rightarrow> uuid
     \<Rightarrow> 'z run_store_scheme \<Rightarrow> ('z, uuid) tx" where
  "start_run sha projects project_id contracts base_commit rid db =
     (let commit = map lower_char (strip base_commit) in
      if \<not> oid_pattern commit
      then Inl (ValueError ''base_commit must be a 40-64 character lowercase Git object id'')
      else if contracts = [] then Inl (ValueError ''persisted runs require at least one TaskContract'')
      else if \<not> distinct (map tc_task_id contracts)
      then Inl (ValueError ''persisted run task ids must be unique'')
      else integrity_conflict
        (if project_id \<notin> set projects then Inl (ValueError ''unknown persistence project'')
         else if rid \<in> rr_id ` set (st_runs db) then Inl (IntegrityError ''runs_pkey'')
         else
           let run = \<lparr>rr_id = rid, rr_project = project_id, rr_base_commit = commit, rr_status = RUNNING,
                      rr_event_sequence = 0, rr_terminal_result = None,
                      rr_terminal_result_sha256 = None, rr_finished_at = None\<rparr>;
               db1 = db\<lparr>st_runs := st_runs db @ [run],
                        st_tasks := st_tasks db @ map (new_task_row sha rid) contracts\<rparr>
           in bind_res (RuntimeEventDraft
                \<lparr>ed_key = ''run:started'', ed_kind = RUN_STARTED, ed_source = SRC_PERSISTENCE,
                 ed_level = INFO, ed_task = None, ed_dispatch = None, ed_generation = None,
                 ed_message = ''Persisted run started.'',
                 ed_attributes = [(''project_id'', JStr (uuid_text project_id)),
                   (''base_commit'', JStr commit), (''task_count'', JInt (int (length contracts)))]\<rparr>)
              (\<lambda>draft. bind_res (append_runtime_event sha run draft db1) (\<lambda>(db2, event).
                 Inr (db2, rid)))))"

definition same_evidence ::
    "evidence_row \<Rightarrow> task_id option \<Rightarrow> persistence_evidence_kind \<Rightarrow> string option \<Rightarrow> int option
     \<Rightarrow> digest \<Rightarrow> bool" where
  "same_evidence row tid kind stage sequence digest =
     (ei_task row = tid \<and> ei_kind row = kind \<and> ei_stage row = stage \<and> ei_sequence row = sequence \<and>
      ei_schema_version row = evidence_schema_version kind \<and> ei_sha256 row = digest)"

text \<open>
  The table of event sources; the kinds it lacks are recorded by stores with a draft of their own,
  and raise \<open>KeyError\<close> here.
\<close>

fun EVIDENCE_EVENT_SOURCES :: "persistence_evidence_kind \<Rightarrow> runtime_event_source option" where
  "EVIDENCE_EVENT_SOURCES STATE_TRANSITION = Some SRC_RUNTIME"
| "EVIDENCE_EVENT_SOURCES DEVELOPER_RUN = Some SRC_AGENT"
| "EVIDENCE_EVENT_SOURCES VERIFICATION_RESULT = Some SRC_VERIFICATION"
| "EVIDENCE_EVENT_SOURCES REVIEW_DECISION = Some SRC_REVIEW"
| "EVIDENCE_EVENT_SOURCES REPAIR_RUN = Some SRC_REPAIR"
| "EVIDENCE_EVENT_SOURCES FAILURE_REPORT = Some SRC_RUNTIME"
| "EVIDENCE_EVENT_SOURCES MERGE_QUEUE_SNAPSHOT = Some SRC_INTEGRATION"
| "EVIDENCE_EVENT_SOURCES MERGE_CONFLICT_EVIDENCE = Some SRC_INTEGRATION"
| "EVIDENCE_EVENT_SOURCES INTEGRATION_GATE = Some SRC_INTEGRATION"
| "EVIDENCE_EVENT_SOURCES HUMAN_DECISION = Some SRC_INTEGRATION"
| "EVIDENCE_EVENT_SOURCES CONTEXT_REFERENCE = Some SRC_RUNTIME"
| "EVIDENCE_EVENT_SOURCES DISPATCH_EVENT = Some SRC_DISPATCH"
| "EVIDENCE_EVENT_SOURCES WORKER_EXECUTION = Some SRC_WORKER"
| "EVIDENCE_EVENT_SOURCES TASK_CHECKPOINT = Some SRC_RUNTIME"
| "EVIDENCE_EVENT_SOURCES WORKFLOW_MATCH = Some SRC_RUNTIME"
| "EVIDENCE_EVENT_SOURCES WORKFLOW_EXECUTION = Some SRC_RUNTIME"
| "EVIDENCE_EVENT_SOURCES INTEGRATION_REPAIR = None"
| "EVIDENCE_EVENT_SOURCES TRACE_BATCH = None"
| "EVIDENCE_EVENT_SOURCES OPERATOR_ACTION = None"

definition evidence_event_draft ::
    "evidence_row \<Rightarrow> task_row option \<Rightarrow> persistence_evidence_kind \<Rightarrow> runtime_event_draft res" where
  "evidence_event_draft row fenced kind =
     (case EVIDENCE_EVENT_SOURCES kind of
        None \<Rightarrow> Inl (KeyError (kind_value kind))
      | Some source \<Rightarrow> RuntimeEventDraft
          \<lparr>ed_key = join_colon [''evidence'', dec (nat (ei_id row))], ed_kind = EVIDENCE_RECORDED,
           ed_source = source,
           ed_level = (if kind = FAILURE_REPORT then ERROR
             else if kind = MERGE_CONFLICT_EVIDENCE then WARNING else INFO),
           ed_task = ei_task row,
           ed_dispatch = (case fenced of None \<Rightarrow> None | Some t \<Rightarrow> lease_dispatch_id t),
           ed_generation = (case fenced of None \<Rightarrow> None
             | Some t \<Rightarrow> if lease_generation t = 0 then None else Some (lease_generation t)),
           ed_message = ''Accepted '' @ kind_value kind @ '' evidence.'',
           ed_attributes = [(''evidence_id'', JInt (ei_id row)), (''evidence_key'', JStr (ei_key row)),
             (''evidence_kind'', JStr (kind_value kind)), (''stage'', json_option JStr (ei_stage row)),
             (''evidence_sequence'', json_option JInt (ei_sequence row)),
             (''payload_sha256'', JStr (digest_text (ei_sha256 row)))]\<rparr>)"

text \<open>The task row behind an optional task id, with the fence checked when either side has a token.\<close>

definition fenced_task ::
    "timestamp \<Rightarrow> uuid \<Rightarrow> task_id option \<Rightarrow> uuid option \<Rightarrow> 'z run_store_scheme
     \<Rightarrow> task_row option res" where
  "fenced_task observed_at rid tid token db =
     (case tid of None \<Rightarrow> Inr None
      | Some name \<Rightarrow> bind_res (locked_task rid name db) (\<lambda>row.
          if token \<noteq> None \<or> run_token row \<noteq> None
          then bind_res (assert_live_current_run_token row token observed_at) (\<lambda>_. Inr (Some row))
          else Inr (Some row)))"

definition append_evidence ::
    "(json \<Rightarrow> digest) \<Rightarrow> timestamp \<Rightarrow> int \<Rightarrow> uuid \<Rightarrow> string \<Rightarrow> persistence_evidence_kind
     \<Rightarrow> evidence_payload \<Rightarrow> string option \<Rightarrow> string option \<Rightarrow> int option \<Rightarrow> uuid option
     \<Rightarrow> 'z evidence_store_scheme \<Rightarrow> exn + ('z evidence_store_scheme \<times> int)" where
  "append_evidence sha observed_at new_id rid evidence_key kind payload_model tid stage sequence token db =
     bind_res (required_text 255 evidence_key) (\<lambda>key.
     bind_res (optional_text 128 tid) (\<lambda>normalized_task.
     bind_res (optional_text 64 stage) (\<lambda>normalized_stage.
       if \<not> opt_all (\<lambda>n. 0 \<le> n) sequence
       then Inl (ValueError ''evidence sequence must be non-negative'')
       else (case canonical_payload sha payload_model of (payload, digest) \<Rightarrow>
       bind_res (decode_evidence kind payload (evidence_schema_version kind)) (\<lambda>_.
       bind_res (locked_run rid db) (\<lambda>run.
         if rr_status run \<noteq> RUNNING
         then Inl (PersistenceConflictError ''terminal persisted runs are append-closed'')
         else bind_res (fenced_task observed_at rid normalized_task token db) (\<lambda>fenced.
           case find (\<lambda>e. ei_run e = rid \<and> ei_key e = key) (st_evidence db) of
             Some existing \<Rightarrow>
               if same_evidence existing normalized_task kind normalized_stage sequence digest
               then Inr (db, ei_id existing)
               else Inl (PersistenceConflictError ''evidence key was reused for different evidence'')
           | None \<Rightarrow>
               let row = \<lparr>ei_id = new_id, ei_run = rid, ei_task = normalized_task, ei_key = key,
                          ei_kind = kind, ei_stage = normalized_stage, ei_sequence = sequence,
                          ei_schema_version = evidence_schema_version kind, ei_payload = payload,
                          ei_sha256 = digest\<rparr>
               in if new_id \<in> ei_id ` set (st_evidence db) then Inl (IntegrityError ''evidence_records_pkey'')
                  else bind_res (evidence_event_draft row fenced kind) (\<lambda>draft.
                    bind_res (append_runtime_event sha run draft
                        (db\<lparr>st_evidence := st_evidence db @ [row]\<rparr>)) (\<lambda>(db', event).
                      Inr (db', new_id))))))))))"

definition finalized_run ::
    "(json \<Rightarrow> digest) \<Rightarrow> timestamp \<Rightarrow> run_result_ref \<Rightarrow> persisted_run_status \<Rightarrow> run_row \<Rightarrow> run_row" where
  "finalized_run sha t result status run =
     run\<lparr>rr_status := status, rr_terminal_result := Some (rs_dump result),
       rr_terminal_result_sha256 := Some (sha (rs_dump result)), rr_finished_at := Some t\<rparr>"

definition finalized_draft ::
    "task_row \<Rightarrow> run_result_ref \<Rightarrow> persisted_run_status \<Rightarrow> digest \<Rightarrow> runtime_event_draft" where
  "finalized_draft row result status digest =
     \<lparr>ed_key = ''run:finalized'', ed_kind = RUN_FINALIZED, ed_source = SRC_PERSISTENCE,
      ed_level = (if status = FAILED then ERROR else INFO),
      ed_task = Some (rs_task result), ed_dispatch = lease_dispatch_id row,
      ed_generation = (if lease_generation row = 0 then None else Some (lease_generation row)),
      ed_message = ''Persisted run finalized as '' @ status_value status @ ''.'',
      ed_attributes = [(''status'', JStr (status_value status)),
        (''terminal_result_sha256'', JStr (digest_text digest))]\<rparr>"

definition finalize_single_task_run ::
    "(json \<Rightarrow> digest) \<Rightarrow> timestamp \<Rightarrow> uuid \<Rightarrow> run_result_ref \<Rightarrow> uuid option
     \<Rightarrow> 'z run_store_scheme \<Rightarrow> ('z, unit) tx" where
  "finalize_single_task_run sha observed_at rid result token db =
     (let payload = rs_dump result; digest = sha payload in
      bind_res (from_task_state (rs_status result)) (\<lambda>persisted_status.
      bind_res (locked_run rid db) (\<lambda>run.
        case filter (\<lambda>t. tr_run t = rid) (st_tasks db) of
          [row] \<Rightarrow>
            if tr_task row \<noteq> rs_task result
            then Inl (PersistenceConflictError ''SingleTaskRunResult can finalize only a run containing exactly that task'')
            else bind_res
              (if token \<noteq> None \<or> run_token row \<noteq> None
               then assert_live_current_run_token row token observed_at else Inr ()) (\<lambda>_.
              if rr_status run \<noteq> RUNNING then
                if rr_status run = persisted_status \<and> rr_terminal_result_sha256 run = Some digest \<and>
                   rr_terminal_result run = Some payload
                then Inr (db, ())
                else Inl (PersistenceConflictError ''persisted run was already finalized with different terminal evidence'')
              else
                let run' = finalized_run sha observed_at result persisted_status run
                in bind_res (RuntimeEventDraft (finalized_draft row result persisted_status digest))
                   (\<lambda>draft. bind_res (append_runtime_event sha run' draft (put_run run' db))
                      (\<lambda>(db', event). Inr (db', ()))))
        | _ \<Rightarrow> Inl (PersistenceConflictError ''SingleTaskRunResult can finalize only a run containing exactly that task''))))"

section \<open>Committed transactions\<close>

lemma lower_map_length: "length (map lower_char s) = length s"
  by simp

lemma start_run_commit:
  assumes "start_run sha projects pid contracts base_commit rid db = Inr (db', u)"
  obtains run draft0 draft e where "rid \<notin> rr_id ` set (st_runs db)"
    "contracts \<noteq> []" "distinct (map tc_task_id contracts)" "pid \<in> set projects"
    "rr_id run = rid" "rr_status run = RUNNING" "rr_event_sequence run = 0"
    "rr_terminal_result run = None" "rr_terminal_result_sha256 run = None" "rr_finished_at run = None"
    "RuntimeEventDraft draft0 = Inr draft" "ed_key draft0 = ''run:started''"
    "append_runtime_event sha run draft (db\<lparr>st_runs := st_runs db @ [run],
       st_tasks := st_tasks db @ map (new_task_row sha rid) contracts\<rparr>) = Inr (db', e)"
proof -
  have ic: "integrity_conflict m = Inr x \<longleftrightarrow> m = Inr x" for m :: "'b res" and x
    by (auto simp: integrity_conflict_def split: sum.splits exn.splits)
  let ?commit = "map lower_char (strip base_commit)"
  let ?run = "\<lparr>rr_id = rid, rr_project = pid, rr_base_commit = ?commit, rr_status = RUNNING,
     rr_event_sequence = 0, rr_terminal_result = None, rr_terminal_result_sha256 = None,
     rr_finished_at = None\<rparr>"
  from assms show thesis
    unfolding start_run_def Let_def
    by (auto simp: ic bind_res_eq_Inr split: if_splits prod.splits intro!: that [of ?run])
qed

lemma append_evidence_commit:
  assumes "append_evidence sha t new_id rid key kind payload tid stage sequence token db = Inr (db', i)"
  obtains (existing) "db' = db" "\<exists>e \<in> set (st_evidence db). ei_run e = rid \<and> ei_key e = strip key \<and> ei_id e = i"
  | (fresh) run fenced row draft e where
      "find_run rid db = Some run" "rr_status run = RUNNING"
      "optional_text 128 tid = Inr (ei_task row)"
      "fenced_task t rid (ei_task row) token db = Inr fenced"
      "ei_run row = rid" "ei_key row = strip key" "ei_kind row = kind" "ei_payload row = payload"
      "ei_sha256 row = sha (payload_json payload)" "ei_id row = i" "payload_kind payload = kind"
      "\<forall>x \<in> set (st_evidence db). ei_id x \<noteq> i \<and> \<not> (ei_run x = rid \<and> ei_key x = strip key)"
      "evidence_event_draft row fenced kind = Inr draft"
      "append_runtime_event sha run draft (db\<lparr>st_evidence := st_evidence db @ [row]\<rparr>) = Inr (db', e)"
proof -
  from assms obtain ntask nstage run fenced where
    nt: "optional_text 128 tid = Inr ntask" and ns: "optional_text 64 stage = Inr nstage"
    and seq: "opt_all (\<lambda>n. 0 \<le> n) sequence"
    and pk: "payload_kind payload = kind"
    and run: "find_run rid db = Some run" "rr_status run = RUNNING"
    and fenced: "fenced_task t rid ntask token db = Inr fenced"
    and key: "required_text 255 key = Inr (strip key)"
    and dec: "is_ok (decode_evidence kind payload (evidence_schema_version kind))"
    unfolding append_evidence_def canonical_payload_def
    by (auto simp: bind_res_eq_Inr required_text_Inr locked_run_Inr decode_evidence_def is_ok_iff
        split: if_splits)
  from dec obtain p where p: "decode_evidence kind payload (evidence_schema_version kind) = Inr p"
    by (auto simp: is_ok_iff)
  show thesis
  proof (cases "find (\<lambda>e. ei_run e = rid \<and> ei_key e = strip key) (st_evidence db)")
    case (Some x)
    then have "x \<in> set (st_evidence db) \<and> ei_run x = rid \<and> ei_key x = strip key"
      by (auto simp: find_Some_iff)
    moreover from assms Some nt ns seq run fenced key p have "db' = db \<and> ei_id x = i"
      by (simp add: append_evidence_def canonical_payload_def locked_run_Inr bind_res_eq_Inr split: if_splits)
    ultimately show thesis by (intro existing) auto
  next
    case None
    then have new: "\<forall>x \<in> set (st_evidence db). \<not> (ei_run x = rid \<and> ei_key x = strip key)"
      by (auto simp: find_None_iff)
    let ?row = "\<lparr>ei_id = new_id, ei_run = rid, ei_task = ntask, ei_key = strip key,
       ei_kind = kind, ei_stage = nstage, ei_sequence = sequence,
       ei_schema_version = evidence_schema_version kind, ei_payload = payload,
       ei_sha256 = sha (payload_json payload)\<rparr>"
    from assms None nt ns seq run fenced key p obtain draft e where
      "new_id \<notin> ei_id ` set (st_evidence db)" "evidence_event_draft ?row fenced kind = Inr draft"
      "append_runtime_event sha run draft (db\<lparr>st_evidence := st_evidence db @ [?row]\<rparr>) = Inr (db', e)"
      "i = new_id"
      by (auto simp: append_evidence_def canonical_payload_def locked_run_Inr bind_res_eq_Inr Let_def
          split: if_splits)
    with nt run fenced pk new show thesis by (intro fresh [of run ?row fenced draft e]) auto
  qed
qed

lemma finalize_commit:
  assumes "finalize_single_task_run sha t rid result token db = Inr (db', u)"
  obtains (again) run where "find_run rid db = Some run" "rr_status run \<noteq> RUNNING" "db' = db"
  | (fresh) run row status draft e where
      "find_run rid db = Some run" "rr_status run = RUNNING" "from_task_state (rs_status result) = Inr status"
      "filter (\<lambda>t. tr_run t = rid) (st_tasks db) = [row]" "tr_task row = rs_task result"
      "token \<noteq> None \<or> run_token row \<noteq> None \<longrightarrow> assert_live_current_run_token row token t = Inr ()"
      "RuntimeEventDraft (finalized_draft row result status (sha (rs_dump result))) = Inr draft"
      "append_runtime_event sha (finalized_run sha t result status run) draft
         (put_run (finalized_run sha t result status run) db) = Inr (db', e)"
proof -
  from assms obtain status run where st: "from_task_state (rs_status result) = Inr status"
    and run: "find_run rid db = Some run"
    unfolding finalize_single_task_run_def Let_def bind_res_eq_Inr locked_run_Inr by blast
  have lock: "locked_run rid db = Inr run" using run by (simp add: locked_run_def)
  from assms obtain row where rows: "filter (\<lambda>t. tr_run t = rid) (st_tasks db) = [row]"
    unfolding finalize_single_task_run_def Let_def st lock bind_res_Inr
    by (auto split: list.splits)
  from assms have same: "tr_task row = rs_task result"
    unfolding finalize_single_task_run_def Let_def st lock bind_res_Inr rows list.case
    by (auto split: if_splits)
  from assms have live: "(if token \<noteq> None \<or> run_token row \<noteq> None
      then assert_live_current_run_token row token t else Inr ()) = Inr ()"
    unfolding finalize_single_task_run_def Let_def st lock bind_res_Inr rows list.case
      bind_res_eq_Inr if_not_P [of "tr_task row \<noteq> rs_task result", simplified same]
    by (auto simp: bind_res_eq_Inr split: if_splits)
  note eq = assms [unfolded finalize_single_task_run_def Let_def st lock bind_res_Inr rows list.case
      live same, simplified]
  show thesis
  proof (cases "rr_status run = RUNNING")
    case False
    with eq have "db' = db" by (auto split: if_splits)
    with run False show thesis by (rule again)
  next
    case True
    with eq obtain draft e where
      d: "RuntimeEventDraft (finalized_draft row result status (sha (rs_dump result))) = Inr draft"
      and a: "append_runtime_event sha (finalized_run sha t result status run) draft
         (put_run (finalized_run sha t result status run) db) = Inr (db', e)"
      by (auto simp: bind_res_eq_Inr)
    from live have "token \<noteq> None \<or> run_token row \<noteq> None \<longrightarrow> assert_live_current_run_token row token t = Inr ()"
      by (simp split: if_splits)
    from fresh [OF run True st rows same this d a] show thesis .
  qed
qed

section \<open>The store as a transition system\<close>

text \<open>
  A state is the store and the log of the fencing tokens issued so far, each with its task and
  generation. The log is a ghost: it stands for the tokens workers hold. \<open>uuid4\<close> is
  taken to return a value never returned before. A transaction that raises is rolled back and is
  no step.
\<close>

type_synonym grant_log = "(uuid \<times> (uuid \<times> task_id) \<times> int) list"
type_synonym 'z system = "'z evidence_store_scheme \<times> grant_log"

inductive store_step :: "(json \<Rightarrow> digest) \<Rightarrow> 'z system \<Rightarrow> 'z system \<Rightarrow> bool" for sha where
  started: "start_run sha projects pid contracts commit rid db = Inr (db', u) \<Longrightarrow>
    \<forall>c \<in> set contracts. TaskContract c = Inr c \<Longrightarrow> store_step sha (db, gs) (db', gs)"
| acquired: "acquire_task_lease sha t token rid tid owner dispatch secs db = Inr (db', grant) \<Longrightarrow>
    token \<notin> fst ` set gs \<Longrightarrow>
    store_step sha (db, gs)
      (db', gs @ [(token, (rid, strip tid), ls_generation (lg_snapshot grant))])"
| renewed: "renew_task_lease sha t rid tid owner dispatch token secs db = Inr (db', snap) \<Longrightarrow>
    store_step sha (db, gs) (db', gs)"
| released: "release_task_lease sha t rid tid owner dispatch token db = Inr (db', snap) \<Longrightarrow>
    store_step sha (db, gs) (db', gs)"
| appended: "append_evidence sha t new_id rid key kind payload tid stage sequence tok db = Inr (db', i) \<Longrightarrow>
    store_step sha (db, gs) (db', gs)"
| finalized: "finalize_single_task_run sha t rid result tok db = Inr (db', v) \<Longrightarrow>
    store_step sha (db, gs) (db', gs)"

definition empty_store :: "'z evidence_store_scheme \<Rightarrow> bool" where
  "empty_store db = (st_runs db = [] \<and> st_tasks db = [] \<and> st_events db = [] \<and> st_evidence db = [])"

definition system_init :: "'z system \<Rightarrow> bool" where
  "system_init s = (empty_store (fst s) \<and> snd s = [])"

text \<open>The generations of a task are numbered from one, and its row holds the last token issued.\<close>

definition grants_of :: "uuid \<times> task_id \<Rightarrow> grant_log \<Rightarrow> (uuid \<times> int) list" where
  "grants_of k gs = map (\<lambda>(tok, _, g). (tok, g)) (filter (\<lambda>(_, k', _). k' = k) gs)"

definition grants_inv :: "'z run_store_scheme \<Rightarrow> grant_log \<Rightarrow> bool" where
  "grants_inv db gs =
     (distinct (map fst gs) \<and>
      (\<forall>row \<in> set (st_tasks db). map snd (grants_of (task_key row) gs) = [1 .. lease_generation row] \<and>
         (lease_owner row \<noteq> None \<longrightarrow> grants_of (task_key row) gs \<noteq> [] \<and>
            run_token row = Some (fst (last (grants_of (task_key row) gs))))) \<and>
      (\<forall>g \<in> set gs. fst (snd g) \<in> task_key ` set (st_tasks db)))"

text \<open>\<open>PersistedRunSnapshot.validate_terminal_shape\<close>: a Run has terminal evidence iff it is terminal.\<close>

definition terminal_shape :: "run_row \<Rightarrow> bool" where
  "terminal_shape r = (if rr_status r = RUNNING
     then rr_terminal_result r = None \<and> rr_terminal_result_sha256 r = None \<and> rr_finished_at r = None
     else rr_terminal_result r \<noteq> None \<and> rr_terminal_result_sha256 r \<noteq> None \<and> rr_finished_at r \<noteq> None)"

definition evidence_inv :: "(json \<Rightarrow> digest) \<Rightarrow> 'z evidence_store_scheme \<Rightarrow> bool" where
  "evidence_inv sha db =
     (distinct (map ei_id (st_evidence db)) \<and>
      distinct (map (\<lambda>e. (ei_run e, ei_key e)) (st_evidence db)) \<and>
      (\<forall>e \<in> set (st_evidence db). ei_run e \<in> rr_id ` set (st_runs db) \<and>
         ei_kind e = payload_kind (ei_payload e) \<and> ei_sha256 e = sha (payload_json (ei_payload e)) \<and>
         opt_all (\<lambda>t. (ei_run e, t) \<in> task_key ` set (st_tasks db)) (ei_task e)))"

definition system_inv :: "(json \<Rightarrow> digest) \<Rightarrow> 'z system \<Rightarrow> bool" where
  "system_inv sha s = (log_inv sha (fst s) \<and> lease_inv (fst s) \<and> grants_inv (fst s) (snd s) \<and>
     evidence_inv sha (fst s) \<and> (\<forall>r \<in> set (st_runs (fst s)). terminal_shape r))"

lemma more_evidence:
  "run_store.more db' = run_store.more db \<Longrightarrow> st_evidence db' = st_evidence db"
  by (cases db; cases db') simp

lemma terminal_shape_facts:
  assumes "run_facts db' = run_facts db"
  shows "(\<forall>r \<in> set (st_runs db'). terminal_shape r) = (\<forall>r \<in> set (st_runs db). terminal_shape r)"
proof -
  have "(\<forall>r \<in> set (st_runs d). terminal_shape r) = (\<forall>r \<in> set (run_facts d). terminal_shape r)"
    for d :: "'z run_store_scheme"
    by (simp add: run_facts_def terminal_shape_def)
  with assms show ?thesis by metis
qed

lemma grants_of_snoc:
  "grants_of k (gs @ [(tok, k', g)]) = grants_of k gs @ (if k' = k then [(tok, g)] else [])"
  by (simp add: grants_of_def)

text \<open>A row write that keeps token and generation keeps the ghost log consistent.\<close>

lemma grants_inv_same:
  assumes "grants_inv db gs" and "map task_key (st_tasks db') = map task_key (st_tasks db)"
    and "\<And>s. s \<in> set (st_tasks db') \<Longrightarrow> \<exists>r \<in> set (st_tasks db). task_key r = task_key s \<and>
      run_token r = run_token s \<and> lease_generation r = lease_generation s \<and>
      (lease_owner r = None \<longleftrightarrow> lease_owner s = None)"
  shows "grants_inv db' gs"
proof -
  have "task_key ` set (st_tasks db') = task_key ` set (st_tasks db)"
    using assms(2) by (metis list.set_map)
  with assms(1,3) show ?thesis unfolding grants_inv_def by metis
qed

text \<open>What a lease write leaves alone.\<close>

lemma row_write_evidence_inv:
  assumes wr: "row_write sha t row row' draft db db'" and inv: "system_inv sha (db, gs)"
  shows "log_inv sha db' \<and> lease_inv db' \<and> evidence_inv sha db' \<and>
    (\<forall>r \<in> set (st_runs db'). terminal_shape r)"
proof -
  from inv have log: "log_inv sha db" and lease: "lease_inv db" and ev: "evidence_inv sha db"
    and ts: "\<forall>r \<in> set (st_runs db). terminal_shape r"
    by (auto simp: system_inv_def)
  note frame = row_write_frame [OF wr log]
  have ids: "rr_id ` set (st_runs db') = rr_id ` set (st_runs db)"
    using frame by (metis list.set_map)
  have keys: "task_key ` set (st_tasks db') = task_key ` set (st_tasks db)"
    using frame map_task_key_put_task by (metis list.set_map)
  have more: "st_evidence db' = st_evidence db" using frame by (intro more_evidence) simp
  from ev have "evidence_inv sha db'" unfolding evidence_inv_def ids keys more .
  then show ?thesis
    using frame row_write_lease_inv [OF wr log lease] terminal_shape_facts ts by metis
qed

lemma row_write_rows:
  assumes "row_write sha t row row' draft db db'" and "log_inv sha db"
  shows "row \<in> set (st_tasks db)" and "task_key row' = task_key row"
    and "map task_key (st_tasks db') = map task_key (st_tasks db)"
    and "s \<in> set (st_tasks db') \<Longrightarrow> s = row' \<or> s \<in> set (st_tasks db) \<and> task_key s \<noteq> task_key row"
proof -
  note frame = row_write_frame [OF assms]
  show "row \<in> set (st_tasks db)" "task_key row' = task_key row"
    using assms(1) by (auto simp: row_write_def dest: find_task_Some)
  then show "s \<in> set (st_tasks db') \<Longrightarrow> s = row' \<or> s \<in> set (st_tasks db) \<and> task_key s \<noteq> task_key row"
    using frame set_put_task [of s row' db] by auto
  show "map task_key (st_tasks db') = map task_key (st_tasks db)" using frame by simp
qed

lemma keep_write_inv:
  assumes wr: "row_write sha t row row' draft db db'" and inv: "system_inv sha (db, gs)"
    and "run_token row' = run_token row" "lease_generation row' = lease_generation row"
    and "lease_owner row' = lease_owner row"
  shows "system_inv sha (db', gs)"
proof -
  have log: "log_inv sha db" using inv by (simp add: system_inv_def)
  note rows = row_write_rows [OF wr log]
  have gr: "grants_inv db gs" using inv by (simp add: system_inv_def)
  have "grants_inv db' gs"
  proof (rule grants_inv_same [OF gr rows(3)])
    fix s assume "s \<in> set (st_tasks db')"
    from rows(4) [OF this] show "\<exists>r \<in> set (st_tasks db). task_key r = task_key s \<and>
      run_token r = run_token s \<and> lease_generation r = lease_generation s \<and>
      (lease_owner r = None \<longleftrightarrow> lease_owner s = None)"
      using rows(1,2) assms(3-5) by (metis (no_types, lifting))
  qed
  with row_write_evidence_inv [OF wr inv] show ?thesis by (simp add: system_inv_def)
qed

lemma acquire_inv:
  assumes acq: "acquire_task_lease sha t token rid tid owner dispatch secs db = Inr (db', grant)"
    and fresh: "token \<notin> fst ` set gs" and inv: "system_inv sha (db, gs)"
  shows "system_inv sha (db', gs @ [(token, (rid, strip tid), ls_generation (lg_snapshot grant))])"
    (is "system_inv sha (db', ?gs')")
  using acq
proof (cases rule: acquire_commit)
  case (1 run row previous generation until)
  let ?row' = "granted_row row (strip owner) dispatch generation token t until"
  have log: "log_inv sha db" and lease: "lease_inv db" and gr: "grants_inv db gs"
    using inv by (auto simp: system_inv_def)
  note wr = 1(7)
  note rows = row_write_rows [OF wr log]
  have key: "task_key row = (rid, strip tid)" using find_task_Some [OF 1(3)] by (simp add: task_key_def)
  have g: "ls_generation (lg_snapshot grant) = generation" using 1(8) by (simp add: observe_def)
  have shape: "lease_shape row" using lease rows(1) by (auto simp: lease_inv_def row_ok_def)
  have gen: "generation = lease_generation row + 1" and nonneg: "0 \<le> lease_generation row"
    using next_lease_generation_Inr [OF 1(4)] shape by (auto simp: lease_shape_def)
  have "map snd (grants_of (task_key s) ?gs') = [1 .. lease_generation s] \<and>
      (lease_owner s \<noteq> None \<longrightarrow> grants_of (task_key s) ?gs' \<noteq> [] \<and>
         run_token s = Some (fst (last (grants_of (task_key s) ?gs'))))"
    if "s \<in> set (st_tasks db')" for s
    using rows(4) [OF that]
  proof
    assume "s = ?row'"
    moreover have "map snd (grants_of (rid, strip tid) gs) = [1 .. lease_generation row]"
      using gr rows(1) key unfolding grants_inv_def by metis
    ultimately show ?thesis using key by (simp add: grants_of_snoc g gen upto_snoc nonneg)
  next
    assume "s \<in> set (st_tasks db) \<and> task_key s \<noteq> task_key row"
    with gr key show ?thesis by (auto simp: grants_of_snoc grants_inv_def)
  qed
  moreover have "task_key ` set (st_tasks db') = task_key ` set (st_tasks db)"
    using rows(3) by (metis list.set_map)
  moreover have "(rid, strip tid) \<in> task_key ` set (st_tasks db)"
    using rows(1) key by (metis imageI)
  ultimately have "grants_inv db' ?gs'"
    using gr fresh unfolding grants_inv_def by simp
  with row_write_evidence_inv [OF wr inv] show ?thesis by (simp add: system_inv_def)
qed

lemma renew_inv:
  assumes "renew_task_lease sha t rid tid owner dispatch token secs db = Inr (db', snap)"
    and "system_inv sha (db, gs)"
  shows "system_inv sha (db', gs)"
  using assms(1)
proof (cases rule: renew_commit)
  case (1 row until draft)
  from keep_write_inv [OF 1(6) assms(2)] show ?thesis by simp
qed

lemma release_inv:
  assumes "release_task_lease sha t rid tid owner dispatch token db = Inr (db', snap)"
    and "system_inv sha (db, gs)"
  shows "system_inv sha (db', gs)"
  using assms(1)
proof (cases rule: release_commit)
  case (again row)
  with assms(2) show ?thesis by simp
next
  case (released row draft)
  from keep_write_inv [OF released(6) assms(2)] show ?thesis by simp
qed

text \<open>The transactions that only add evidence or close a Run.\<close>

lemma append_evidence_inv:
  assumes app: "append_evidence sha t new_id rid key kind payload tid stage sequence tok db = Inr (db', i)"
    and inv: "system_inv sha (db, gs)"
  shows "system_inv sha (db', gs)"
  using app
proof (cases rule: append_evidence_commit)
  case existing
  with inv show ?thesis by simp
next
  case (fresh run fenced row draft e)
  let ?db1 = "db\<lparr>st_evidence := st_evidence db @ [row]\<rparr>"
  have run: "find_run (rr_id run) ?db1 = Some run"
    using fresh(1) find_run_Some [OF fresh(1)] by (simp add: find_run_def)
  have log: "log_inv sha ?db1" using inv by (simp add: system_inv_def log_inv_def run_log_def)
  obtain d0 where d0: "RuntimeEventDraft d0 = Inr draft"
    using fresh(13) by (auto simp: evidence_event_draft_def split: option.splits)
  note frame = append_frame [OF fresh(14) run log_inv_distinct [OF log]]
  have tasks: "st_tasks db' = st_tasks db" and facts: "run_facts db' = run_facts db"
    and ids: "map rr_id (st_runs db') = map rr_id (st_runs db)"
    and ev: "st_evidence db' = st_evidence db @ [row]"
    using frame more_evidence [of db' ?db1] by (simp_all add: run_facts_def)
  have idset: "rr_id ` set (st_runs db') = rr_id ` set (st_runs db)"
    using ids by (metis list.set_map)
  have rid: "rid \<in> rr_id ` set (st_runs db)" using find_run_Some [OF fresh(1)] by auto
  have tk: "opt_all (\<lambda>x. (rid, x) \<in> task_key ` set (st_tasks db)) (ei_task row)"
    using fresh(4) by (auto simp: fenced_task_def opt_all_def bind_res_eq_Inr locked_task_Inr task_key_def
        split: option.splits dest!: find_task_Some)
  have old: "evidence_inv sha db" using inv by (simp add: system_inv_def)
  have new: "ei_id row \<notin> ei_id ` set (st_evidence db)"
    "(ei_run row, ei_key row) \<notin> (\<lambda>e. (ei_run e, ei_key e)) ` set (st_evidence db)"
    using fresh(5,6,10,12) by auto
  have row_ok: "ei_run row \<in> rr_id ` set (st_runs db) \<and> ei_kind row = payload_kind (ei_payload row) \<and>
      ei_sha256 row = sha (payload_json (ei_payload row)) \<and>
      opt_all (\<lambda>t. (ei_run row, t) \<in> task_key ` set (st_tasks db)) (ei_task row)"
    using rid tk fresh(5,7,8,9,11) by simp
  have "evidence_inv sha db'"
    unfolding evidence_inv_def ev idset tasks
  proof (intro conjI ballI)
    show "distinct (map ei_id (st_evidence db @ [row]))"
      and "distinct (map (\<lambda>e. (ei_run e, ei_key e)) (st_evidence db @ [row]))"
      using old new unfolding evidence_inv_def by simp_all
  next
    fix x assume "x \<in> set (st_evidence db @ [row])"
    then have "x = row \<or> x \<in> set (st_evidence db)" by auto
    then show "ei_run x \<in> rr_id ` set (st_runs db)" "ei_kind x = payload_kind (ei_payload x)"
      "ei_sha256 x = sha (payload_json (ei_payload x))"
      "opt_all (\<lambda>t. (ei_run x, t) \<in> task_key ` set (st_tasks db)) (ei_task x)"
      using old row_ok unfolding evidence_inv_def by blast+
  qed
  moreover have "lease_inv db'"
    using inv unfolding system_inv_def fst_conv lease_inv_def tasks idset by blast
  moreover have "grants_inv db' gs" using inv by (simp add: system_inv_def grants_inv_def tasks)
  moreover have "\<forall>r \<in> set (st_runs db'). terminal_shape r"
    using terminal_shape_facts [OF facts] inv by (simp add: system_inv_def)
  ultimately show ?thesis using append_log_inv [OF log run d0 fresh(14)] by (simp add: system_inv_def)
qed

lemma finalized_run_simps [simp]:
  "rr_id (finalized_run sha t result status run) = rr_id run"
  "rr_event_sequence (finalized_run sha t result status run) = rr_event_sequence run"
  "rr_status (finalized_run sha t result status run) = status"
  by (simp_all add: finalized_run_def)

lemma find_run_put_run:
  "find_run (rr_id run) db = Some run0 \<Longrightarrow> rr_id run' = rr_id run \<Longrightarrow>
   find_run (rr_id run) (put_run run' db) = Some run'"
proof -
  have "find (\<lambda>r. rr_id r = rr_id run) rs = Some run0 \<Longrightarrow> rr_id run' = rr_id run \<Longrightarrow>
      find (\<lambda>r. rr_id r = rr_id run) (map (\<lambda>r. if rr_id r = rr_id run then run' else r) rs) = Some run'" for rs
    by (induction rs) (auto split: if_splits)
  then show "find_run (rr_id run) db = Some run0 \<Longrightarrow> rr_id run' = rr_id run \<Longrightarrow> ?thesis"
    by (simp add: find_run_def put_run_def)
qed

lemma log_inv_put_run:
  assumes "log_inv sha db" and "find_run (rr_id run) db = Some run"
    and "rr_id run' = rr_id run" "rr_event_sequence run' = rr_event_sequence run"
  shows "log_inv sha (put_run run' db)"
proof -
  have mem: "run \<in> set (st_runs db)" using find_run_Some [OF assms(2)] by simp
  have "0 \<le> rr_event_sequence r \<and> map ev_sequence (run_log (rr_id r) db) = [1 .. rr_event_sequence r]"
    if "r \<in> set (st_runs (put_run run' db))" for r
    using set_put_run [OF that] assms mem by (auto simp: log_inv_def)
  with assms(1) show ?thesis by (simp add: log_inv_def)
qed

lemma finalize_inv:
  assumes fin: "finalize_single_task_run sha t rid result tok db = Inr (db', u)"
    and inv: "system_inv sha (db, gs)"
  shows "system_inv sha (db', gs)"
  using fin
proof (cases rule: finalize_commit)
  case (again run)
  with inv show ?thesis by simp
next
  case (fresh run row status draft e)
  let ?run' = "finalized_run sha t result status run"
  have old: "log_inv sha db" using inv by (simp add: system_inv_def)
  have id: "rr_id run = rid" using find_run_Some [OF fresh(1)] by simp
  have run0: "find_run (rr_id run) db = Some run" using fresh(1) id by simp
  have run: "find_run (rr_id ?run') (put_run ?run' db) = Some ?run'"
    using find_run_put_run [OF run0, of ?run'] by simp
  have log: "log_inv sha (put_run ?run' db)" by (rule log_inv_put_run [OF old run0]) simp_all
  note frame = append_frame [OF fresh(8) run log_inv_distinct [OF log]]
  have tasks: "st_tasks db' = st_tasks db" and facts: "run_facts db' = run_facts (put_run ?run' db)"
    and ids: "map rr_id (st_runs db') = map rr_id (st_runs db)"
    using frame by simp_all
  have ev: "st_evidence db' = st_evidence db" using frame by (intro more_evidence) simp
  have idset: "rr_id ` set (st_runs db') = rr_id ` set (st_runs db)"
    using ids by (metis list.set_map)
  have closed: "status \<noteq> RUNNING" using fresh(3) by (auto simp: from_task_state_def split: if_splits)
  have "terminal_shape r" if "r \<in> set (st_runs (put_run ?run' db))" for r
    using set_put_run [OF that] inv closed
    by (auto simp: system_inv_def terminal_shape_def finalized_run_def)
  then have "\<forall>r \<in> set (st_runs db'). terminal_shape r" using terminal_shape_facts [OF facts] by blast
  moreover have "lease_inv db'"
    using inv unfolding system_inv_def fst_conv lease_inv_def tasks idset by blast
  moreover have "grants_inv db' gs" using inv by (simp add: system_inv_def grants_inv_def tasks)
  moreover have "evidence_inv sha db'"
    using inv unfolding system_inv_def fst_conv evidence_inv_def ev idset tasks by blast
  ultimately show ?thesis using append_log_inv [OF log run fresh(7) fresh(8)] by (simp add: system_inv_def)
qed

lemma start_run_inv:
  assumes start: "start_run sha projects pid contracts commit rid db = Inr (db', u)"
    and valid: "\<forall>c \<in> set contracts. TaskContract c = Inr c" and inv: "system_inv sha (db, gs)"
  shows "system_inv sha (db', gs)"
  using start
proof (cases rule: start_run_commit)
  case (1 run draft0 draft e)
  let ?new = "map (new_task_row sha rid) contracts"
  let ?db1 = "db\<lparr>st_runs := st_runs db @ [run], st_tasks := st_tasks db @ ?new\<rparr>"
  have log0: "log_inv sha db" and lease0: "lease_inv db" and gr0: "grants_inv db gs"
    and ev0: "evidence_inv sha db" and ts0: "\<forall>r \<in> set (st_runs db). terminal_shape r"
    using inv by (auto simp: system_inv_def)
  have empty: "run_log rid db = []"
    using log0 1(1) by (auto simp: run_log_def log_inv_def filter_empty_conv)
  have log: "log_inv sha ?db1"
    using log0 1(1,5,7) empty unfolding log_inv_def run_log_def by auto
  have run: "find_run (rr_id run) ?db1 = Some run"
    using find_run_iff [OF log_inv_distinct [OF log]] by simp
  note frame = append_frame [OF 1(13) run log_inv_distinct [OF log]]
  have tasks: "st_tasks db' = st_tasks db @ ?new" and facts: "run_facts db' = run_facts ?db1"
    and ids: "map rr_id (st_runs db') = map rr_id (st_runs db) @ [rid]"
    using frame 1(5) by simp_all
  have ev: "st_evidence db' = st_evidence db" using frame more_evidence [of db' ?db1] by simp
  have idset: "rr_id ` set (st_runs db') = insert rid (rr_id ` set (st_runs db))"
    using arg_cong [OF ids, of set] by auto
  have runs0: "fst (task_key r) \<noteq> rid" if "r \<in> set (st_tasks db)" for r
    using lease0 that 1(1) by (auto simp: lease_inv_def task_key_def)
  have new: "task_key r = (rid, tc_task_id c) \<and> row_ok r \<and> run_token r = None \<and>
      lease_generation r = 0 \<and> lease_owner r = None" if "r = new_task_row sha rid c" "c \<in> set contracts" for r c
    using that valid TaskContract_cases [of c c]
    by (auto simp: new_task_row_def task_key_def row_ok_def lease_shape_def opt_all_def text_between_def)
  have rows: "r \<in> set (st_tasks db) \<and> fst (task_key r) \<noteq> rid \<or>
      (\<exists>c \<in> set contracts. r = new_task_row sha rid c)" if "r \<in> set (st_tasks db')" for r
    using that runs0 unfolding tasks by auto
  have keys: "task_key ` set (st_tasks db) \<subseteq> task_key ` set (st_tasks db')" unfolding tasks by auto
  have nk: "map task_key ?new = map (\<lambda>c. (rid, tc_task_id c)) contracts"
    by (simp add: new_task_row_def task_key_def)
  have dn: "distinct (map (\<lambda>c. (rid, tc_task_id c)) contracts)"
    using 1(3) by (simp add: distinct_map inj_on_def)
  have d0: "distinct (map task_key (st_tasks db))" using lease0 by (simp add: lease_inv_def)
  have "distinct (map task_key (st_tasks db'))"
    unfolding tasks map_append nk distinct_append
    using d0 dn runs0 by (auto, metis fst_conv)
  moreover have "row_ok r \<and> tr_run r \<in> rr_id ` set (st_runs db')" if "r \<in> set (st_tasks db')" for r
    using rows [OF that] new lease0 unfolding idset
    by (auto simp: lease_inv_def new_task_row_def)
  moreover have "task_key r' = task_key r"
    if "r \<in> set (st_tasks db')" "r' \<in> set (st_tasks db')" "run_token r \<noteq> None" "run_token r' = run_token r" for r r'
    using rows [OF that(1)] rows [OF that(2)] that(3,4) new lease0 unfolding lease_inv_def by metis
  ultimately have lease: "lease_inv db'" unfolding lease_inv_def by blast
  have none: "grants_of (rid, x) gs = []" for x
  proof -
    have "fst (snd g) \<noteq> (rid, x)" if "g \<in> set gs" for g
      using gr0 that runs0 unfolding grants_inv_def by (metis fst_conv image_iff)
    then show ?thesis by (force simp: grants_of_def filter_empty_conv)
  qed
  have gr: "grants_inv db' gs"
    unfolding grants_inv_def
  proof (intro conjI ballI)
    show "distinct (map fst gs)" using gr0 by (simp add: grants_inv_def)
    show "fst (snd g) \<in> task_key ` set (st_tasks db')" if "g \<in> set gs" for g
      using gr0 keys that by (auto simp: grants_inv_def)
    fix r assume r: "r \<in> set (st_tasks db')"
    have "map snd (grants_of (task_key r) gs) = [1 .. lease_generation r] \<and>
      (lease_owner r \<noteq> None \<longrightarrow> grants_of (task_key r) gs \<noteq> [] \<and>
        run_token r = Some (fst (last (grants_of (task_key r) gs))))"
      using rows [OF r]
    proof
      assume "r \<in> set (st_tasks db) \<and> fst (task_key r) \<noteq> rid"
      then show ?thesis using gr0 unfolding grants_inv_def by blast
    next
      assume "\<exists>c \<in> set contracts. r = new_task_row sha rid c"
      then obtain c where c: "c \<in> set contracts" "r = new_task_row sha rid c" ..
      from new [OF c(2,1)] have "task_key r = (rid, tc_task_id c)" "lease_generation r = 0" "lease_owner r = None"
        by simp_all
      then show ?thesis using none by simp
    qed
    then show "map snd (grants_of (task_key r) gs) = [1 .. lease_generation r]"
      and "lease_owner r \<noteq> None \<longrightarrow> grants_of (task_key r) gs \<noteq> [] \<and>
        run_token r = Some (fst (last (grants_of (task_key r) gs)))"
      by blast+
  qed
  have "evidence_inv sha db'"
    unfolding evidence_inv_def ev idset
    using ev0 keys unfolding evidence_inv_def by (auto simp: opt_all_def split: option.splits)
  moreover have "\<forall>r \<in> set (st_runs db'). terminal_shape r"
    using terminal_shape_facts [OF facts] ts0 1(6,8-10) by (simp add: terminal_shape_def)
  ultimately show ?thesis
    using append_log_inv [OF log run 1(11) 1(13)] lease gr by (simp add: system_inv_def)
qed

lemma store_step_inv: "system_inv sha s \<Longrightarrow> store_step sha s s' \<Longrightarrow> system_inv sha s'"
  by (erule store_step.cases)
    (auto dest: start_run_inv acquire_inv renew_inv release_inv append_evidence_inv finalize_inv)

lemma system_init_inv: "system_init s \<Longrightarrow> system_inv sha s"
  by (auto simp: system_init_def empty_store_def system_inv_def log_inv_def lease_inv_def
      grants_inv_def evidence_inv_def)

interpretation store: transition_system system_init "store_step sha" "system_inv sha"
  for sha :: "json \<Rightarrow> digest"
  by unfold_locales (auto intro: system_init_inv store_step_inv)

section \<open>Fencing\<close>

lemma in_grants_of: "(tok, k, g) \<in> set gs \<longleftrightarrow> (tok, g) \<in> set (grants_of k gs)"
  by (force simp: grants_of_def)

text \<open>In a list of grants numbered from one, the last is the only one with the last number.\<close>

lemma last_grant:
  assumes "map snd gl = [1 .. n]" and "distinct (map fst gl)" and "(tok, g) \<in> set gl"
  shows "fst (last gl) = tok \<longleftrightarrow> g = n"
proof -
  from assms(3) obtain i where i: "i < length gl" "gl ! i = (tok, g)" by (auto simp: in_set_conv_nth)
  have len: "int (length gl) = n \<or> gl = []" using arg_cong [OF assms(1), of length] by (cases "0 \<le> n") auto
  with i have n: "int (length gl) = n" "gl \<noteq> []" by auto
  have "map snd gl ! i = [1 .. n] ! i" using assms(1) by simp
  then have g: "g = 1 + int i" using i n by (simp add: nth_upto)
  have last: "last gl = gl ! (length gl - 1)" using n(2) by (simp add: last_conv_nth)
  show ?thesis
  proof
    assume "fst (last gl) = tok"
    then have "map fst gl ! (length gl - 1) = map fst gl ! i" using i n(2) last by simp
    moreover have "length gl - 1 < length (map fst gl)" "i < length (map fst gl)" using i(1) n(2) by simp_all
    ultimately have "length gl - 1 = i" using nth_eq_iff_index_eq [OF assms(2)] by blast
    then show "g = n" using g n i(1) by linarith
  next
    assume "g = n"
    then have "i = length gl - 1" using g n by linarith
    then show "fst (last gl) = tok" using i last by simp
  qed
qed

lemma grants_of_distinct: "distinct (map fst gs) \<Longrightarrow> distinct (map fst (grants_of k gs))"
proof (induction gs)
  case (Cons a gs)
  then show ?case by (cases a) (force simp: grants_of_def)
qed (simp add: grants_of_def)

lemma current_token:
  assumes inv: "system_inv sha (db, gs)" and row: "find_task rid tid db = Some row"
    and tok: "(tok, (rid, tid), g) \<in> set gs"
  shows "run_token row = Some tok \<longleftrightarrow> g = lease_generation row"
proof -
  have gr: "grants_inv db gs" and lease: "lease_inv db" using inv by (auto simp: system_inv_def)
  have mem: "row \<in> set (st_tasks db)" and key: "task_key row = (rid, tid)"
    using find_task_Some [OF row] by (auto simp: task_key_def)
  let ?gl = "grants_of (rid, tid) gs"
  have num: "map snd ?gl = [1 .. lease_generation row]"
    using gr mem key unfolding grants_inv_def by metis
  have dist: "distinct (map fst ?gl)" using gr by (intro grants_of_distinct) (simp add: grants_inv_def)
  have in_gl: "(tok, g) \<in> set ?gl" using tok by (simp add: in_grants_of)
  then have "1 \<le> lease_generation row" using num by (cases "1 \<le> lease_generation row") auto
  then have owned: "lease_owner row \<noteq> None"
    using lease mem by (auto simp: lease_inv_def row_ok_def lease_shape_def)
  then have "run_token row = Some (fst (last ?gl))" using gr mem key unfolding grants_inv_def by metis
  with last_grant [OF num dist in_gl] show ?thesis by simp
qed

lemma fence_blocks_evidence:
  assumes "\<not> is_ok (fenced_task t rid (Some (strip tid)) tok db)"
  shows "\<not> is_ok (append_evidence sha t i rid key kind payload (Some tid) stage sequence tok db)"
  using assms by (auto simp: is_ok_iff append_evidence_def canonical_payload_def bind_res_eq_Inr
      optional_text_def required_text_Inr split: if_splits)

lemma stale_token_fails:
  assumes row: "find_task rid (strip tid) db = Some row" and stale: "run_token row \<noteq> Some tok"
  shows "\<not> is_ok (guard_task_git_mutation t rid tid dispatch tok db)"
    and "\<not> is_ok (renew_task_lease sha t rid tid owner dispatch tok secs db)"
    and "\<not> is_ok (release_task_lease sha t rid tid owner dispatch tok db)"
    and "\<not> is_ok (append_evidence sha t i rid key kind payload (Some tid) stage sequence (Some tok) db)"
proof -
  show "\<not> is_ok (guard_task_git_mutation t rid tid dispatch tok db)"
    using assms by (auto simp: is_ok_iff dest!: guard_passes)
  show "\<not> is_ok (renew_task_lease sha t rid tid owner dispatch tok secs db)"
    using assms by (auto simp: is_ok_iff elim!: renew_commit)
  show "\<not> is_ok (release_task_lease sha t rid tid owner dispatch tok db)"
    using assms by (auto simp: is_ok_iff elim!: release_commit)
  have "\<not> is_ok (fenced_task t rid (Some (strip tid)) (Some tok) db)"
    using assms by (auto simp: fenced_task_def locked_task_def assert_live_current_run_token_def
        assert_current_run_token_def is_ok_iff bind_res_eq_Inr split: if_splits)
  then show "\<not> is_ok (append_evidence sha t i rid key kind payload (Some tid) stage sequence (Some tok) db)"
    by (rule fence_blocks_evidence)
qed

text \<open>C10. Fencing: of all the tokens ever issued for a task, the one its row accepts is that of the
  current generation, and there is one grant per generation. Once a later generation exists, the
  token of an earlier one can no longer guard a Git mutation, renew, release or record evidence, at any
  time and with any other arguments.\<close>

theorem lease_fencing:
  assumes "reachable system_init (store_step sha) (db, gs)"
    and "find_task rid (strip tid) db = Some row"
    and "(tok, (rid, strip tid), g) \<in> set gs"
  shows "(run_token row = Some tok \<longleftrightarrow> g = lease_generation row) \<and>
    int (length (grants_of (rid, strip tid) gs)) = lease_generation row \<and>
    (g \<noteq> lease_generation row \<longrightarrow>
      (\<forall>t dispatch owner secs i key kind payload stage sequence.
        \<not> is_ok (guard_task_git_mutation t rid tid dispatch tok db) \<and>
        \<not> is_ok (renew_task_lease sha t rid tid owner dispatch tok secs db) \<and>
        \<not> is_ok (release_task_lease sha t rid tid owner dispatch tok db) \<and>
        \<not> is_ok (append_evidence sha t i rid key kind payload (Some tid) stage sequence (Some tok) db)))"
proof -
  have inv: "system_inv sha (db, gs)" by (rule store.reach_inv [OF assms(1)])
  note cur = current_token [OF inv assms(2,3)]
  have mem: "row \<in> set (st_tasks db)" "task_key row = (rid, strip tid)"
    using find_task_Some [OF assms(2)] by (auto simp: task_key_def)
  have num: "map snd (grants_of (rid, strip tid) gs) = [1 .. lease_generation row]"
    using inv mem unfolding system_inv_def grants_inv_def by (metis fst_conv snd_conv)
  have "0 \<le> lease_generation row"
    using inv mem(1) by (auto simp: system_inv_def lease_inv_def row_ok_def lease_shape_def)
  with arg_cong [OF num, of length] have "int (length (grants_of (rid, strip tid) gs)) = lease_generation row"
    by simp
  with cur stale_token_fails [OF assms(2), of tok] show ?thesis by blast
qed

section \<open>Unused lease keys\<close>

text \<open>
  The key that the next acquisition logs is unused: keys of other events differ from it, because task
  identifiers contain no colon, and earlier generations of the task have smaller numbers.
\<close>

definition keys_inv :: "'z run_store_scheme \<Rightarrow> bool" where
  "keys_inv db = (\<forall>row \<in> set (st_tasks db). CHR '':'' \<notin> set (tr_task row) \<and>
     (\<forall>e \<in> set (st_events db). \<forall>g. ev_run e = tr_run row \<longrightarrow> 1 \<le> g \<longrightarrow>
        ev_key e = lease_key (tr_task row) g [''acquired''] \<longrightarrow> g \<le> lease_generation row))"

lemma lease_key_acquired:
  assumes eq: "lease_key t g rest = lease_key t' g' [''acquired'']"
    and nc: "CHR '':'' \<notin> set t" "CHR '':'' \<notin> set t'" and pos: "1 \<le> g" "1 \<le> g'"
    and rest: "rest \<in> {[''acquired''], [''released''], [''heartbeat'', stamp]}"
  shows "t = t' \<and> g = g' \<and> rest = [''acquired'']"
proof -
  have small: "CHR '':'' \<notin> set ''lease''" "CHR '':'' \<notin> set ''generation''" "CHR '':'' \<notin> set ''heartbeat''"
    "CHR '':'' \<notin> set ''acquired''" "CHR '':'' \<notin> set ''released''"
    by simp_all
  have split: "split_on (CHR '':'') (lease_key x n ([p])) = [''lease'', x, ''generation'', dec (nat n), p]"
    if "CHR '':'' \<notin> set x" "CHR '':'' \<notin> set p" for x n p
    using split_on_join [of "[''lease'', x, ''generation'', dec (nat n)]" p] that small dec_no_colon
    by (simp add: lease_key_def split_on_no_sep)
  have split2: "split_on (CHR '':'') (lease_key x n [''heartbeat'', p]) =
      [''lease'', x, ''generation'', dec (nat n), ''heartbeat''] @ split_on (CHR '':'') p"
    if "CHR '':'' \<notin> set x" for x n p
    using split_on_join [of "[''lease'', x, ''generation'', dec (nat n), ''heartbeat'']" p] that small dec_no_colon
    by (simp add: lease_key_def)
  have "split_on (CHR '':'') (lease_key t g rest) = [''lease'', t', ''generation'', dec (nat g'), ''acquired'']"
    unfolding eq using split [OF nc(2) small(4)] .
  then have "t = t' \<and> dec (nat g) = dec (nat g') \<and> rest = [''acquired'']"
    using rest split [OF nc(1) small(4)] split [OF nc(1) small(5)] split2 [OF nc(1)] by auto
  with pos show ?thesis by (auto dest!: dec_inj)
qed

lemma keys_step:
  assumes inv: "keys_inv db"
    and rows: "\<And>s. s \<in> set (st_tasks db') \<Longrightarrow> CHR '':'' \<notin> set (tr_task s) \<and>
      ((\<exists>r \<in> set (st_tasks db). task_key r = task_key s \<and> lease_generation r \<le> lease_generation s) \<or>
       (\<forall>e \<in> set (st_events db). ev_run e \<noteq> tr_run s))"
    and events: "st_events db' = st_events db \<or> st_events db' = st_events db @ [e]"
    and new: "\<And>s g. s \<in> set (st_tasks db') \<Longrightarrow> ev_run e = tr_run s \<Longrightarrow> 1 \<le> g \<Longrightarrow>
      ev_key e = lease_key (tr_task s) g [''acquired''] \<Longrightarrow> g \<le> lease_generation s"
  shows "keys_inv db'"
  unfolding keys_inv_def
proof (intro ballI conjI allI impI)
  fix s assume s: "s \<in> set (st_tasks db')"
  from rows [OF s] show "CHR '':'' \<notin> set (tr_task s)" by blast
  fix x g assume x: "x \<in> set (st_events db')" "ev_run x = tr_run s" "1 \<le> g"
    "ev_key x = lease_key (tr_task s) g [''acquired'']"
  show "g \<le> lease_generation s"
  proof (cases "x \<in> set (st_events db)")
    case True
    then obtain r where r: "r \<in> set (st_tasks db)" "task_key r = task_key s" "lease_generation r \<le> lease_generation s"
      using rows [OF s] x(2) by auto
    then have "g \<le> lease_generation r"
      using inv True x(2-4) unfolding keys_inv_def task_key_def by (metis prod.inject)
    with r(3) show ?thesis by simp
  next
    case False
    then have "x = e" using x(1) events by auto
    with new [OF s] x show ?thesis by blast
  qed
qed

lemma lease_key_hd: "lease_key t g rest = CHR ''l'' # tl (lease_key t g rest)"
  by (cases rest) (simp_all add: lease_key_def)

lemma write_keys_inv:
  assumes wr: "row_write sha t row row' draft db db'" and inv: "system_inv sha (db, gs)" and keys: "keys_inv db"
    and key: "ed_key draft = lease_key (tr_task row) (lease_generation row') rest"
    and rest: "rest \<in> {[''acquired''], [''released''], [''heartbeat'', stamp]}"
    and gen: "lease_generation row \<le> lease_generation row'" "1 \<le> lease_generation row'"
  shows "keys_inv db'"
proof -
  have log: "log_inv sha db" using inv by (simp add: system_inv_def)
  note rows = row_write_rows [OF wr log]
  from wr obtain run e where run: "find_run (tr_run row) db = Some run"
    and app: "append_runtime_event sha run draft (put_task row' db) = Inr (db', e)"
    by (auto simp: row_write_def)
  have rrun: "rr_id run = tr_run row" using find_run_Some [OF run] by simp
  have fr: "find_run (rr_id run) (put_task row' db) = Some run" using run rrun by simp
  have dist: "distinct (map rr_id (st_runs (put_task row' db)))" using log by (simp add: log_inv_def)
  have ev: "st_events db' = st_events db \<or> st_events db' = st_events db @ [e]"
    using append_frame [OF app fr dist] by simp
  have e: "ev_run e = tr_run row" "ev_key e = ed_key draft"
    using app rrun by (auto elim: append_cases)
  have nc: "CHR '':'' \<notin> set (tr_task s)" if "s \<in> set (st_tasks db')" for s
    using rows(4) [OF that] rows(1,2) keys by (auto simp: keys_inv_def task_key_def)
  show ?thesis
  proof (rule keys_step [OF keys _ ev])
    fix s assume s: "s \<in> set (st_tasks db')"
    from rows(4) [OF s] have "\<exists>r \<in> set (st_tasks db). task_key r = task_key s \<and> lease_generation r \<le> lease_generation s"
      using rows(1,2) gen(1) by auto
    with nc [OF s] show "CHR '':'' \<notin> set (tr_task s) \<and>
      ((\<exists>r \<in> set (st_tasks db). task_key r = task_key s \<and> lease_generation r \<le> lease_generation s) \<or>
       (\<forall>e \<in> set (st_events db). ev_run e \<noteq> tr_run s))" by blast
  next
    fix s g assume s: "s \<in> set (st_tasks db')" and r: "ev_run e = tr_run s" and g: "1 \<le> g"
      and k: "ev_key e = lease_key (tr_task s) g [''acquired'']"
    have ncr: "CHR '':'' \<notin> set (tr_task row)" using keys rows(1) by (auto simp: keys_inv_def)
    from lease_key_acquired [OF _ ncr nc [OF s] gen(2) g rest] k e(2) key
    have eq: "tr_task row = tr_task s" "lease_generation row' = g" by auto
    then have "s = row'" using rows(4) [OF s] r e(1) by (auto simp: task_key_def)
    with eq show "g \<le> lease_generation s" by simp
  qed
qed

text \<open>A transaction that logs another kind of event and keeps the task rows.\<close>

lemma other_keys_inv:
  assumes keys: "keys_inv db" and tasks: "st_tasks db' = st_tasks db"
    and ev: "st_events db' = st_events db \<or> st_events db' = st_events db @ [e]"
    and k: "hd (ev_key e) \<noteq> CHR ''l''"
  shows "keys_inv db'"
proof (rule keys_step [OF keys _ ev])
  show "CHR '':'' \<notin> set (tr_task s) \<and>
      ((\<exists>r \<in> set (st_tasks db). task_key r = task_key s \<and> lease_generation r \<le> lease_generation s) \<or>
       (\<forall>e \<in> set (st_events db). ev_run e \<noteq> tr_run s))" if "s \<in> set (st_tasks db')" for s
    using that keys unfolding tasks keys_inv_def by blast
  show "g \<le> lease_generation s" if "ev_key e = lease_key (tr_task s) g [''acquired'']" for s g
    using k that lease_key_hd [of "tr_task s" g "[''acquired'']"] by (metis list.sel(1))
qed

lemma task_id_no_colon: "task_id_pattern s \<Longrightarrow> CHR '':'' \<notin> set s"
proof -
  assume "task_id_pattern s"
  then have "\<forall>c \<in> set s. ascii_alnum c \<or> c \<in> set ''._-''"
    by (cases s) (auto simp: task_id_pattern_def list_all_iff)
  moreover have "\<not> ascii_alnum (CHR '':'')" by code_simp
  ultimately show ?thesis by auto
qed

lemma store_step_keys_inv:
  assumes "store_step sha s s'" and "system_inv sha s" and "keys_inv (fst s)"
  shows "keys_inv (fst s')"
  using assms
proof (cases rule: store_step.cases)
  case (started projects pid contracts commit rid db db' u gs)
  from started(3) show ?thesis
  proof (cases rule: start_run_commit)
    case (1 run draft0 draft e)
    let ?db1 = "db\<lparr>st_runs := st_runs db @ [run], st_tasks := st_tasks db @ map (new_task_row sha rid) contracts\<rparr>"
    have keys: "keys_inv db" and inv: "system_inv sha (db, gs)" using assms started by simp_all
    have log: "log_inv sha db" using inv by (simp add: system_inv_def)
    have d: "distinct (map rr_id (st_runs ?db1))" using log 1(1,5) by (auto simp: log_inv_def)
    have fr: "find_run (rr_id run) ?db1 = Some run" using find_run_iff [OF d] by simp
    note frame = append_frame [OF 1(13) fr d]
    have e: "ev_key e = ''run:started''"
      using 1(13) draft_id [OF 1(11)] 1(12) by (auto elim: append_cases)
    have no_ev: "ev_run x \<noteq> rid" if "x \<in> set (st_events db)" for x
      using log 1(1) that by (auto simp: log_inv_def)
    have "keys_inv db'"
    proof (rule keys_step [OF keys])
      show "st_events db' = st_events db \<or> st_events db' = st_events db @ [e]" using frame by simp
      show "g \<le> lease_generation x" if "ev_key e = lease_key (tr_task x) g [''acquired'']" for x g
      proof -
        have "hd (ev_key e) = CHR ''l''" unfolding that by (subst lease_key_hd) simp
        with e show ?thesis by simp
      qed
      fix x assume "x \<in> set (st_tasks db')"
      then consider "x \<in> set (st_tasks db)" | c where "c \<in> set contracts" "x = new_task_row sha rid c"
        using frame by auto
      then show "CHR '':'' \<notin> set (tr_task x) \<and>
        ((\<exists>r \<in> set (st_tasks db). task_key r = task_key x \<and> lease_generation r \<le> lease_generation x) \<or>
         (\<forall>e \<in> set (st_events db). ev_run e \<noteq> tr_run x))"
      proof cases
        case 1
        with keys show ?thesis unfolding keys_inv_def by blast
      next
        case 2
        then have "task_id_pattern (tc_task_id c)" using started(4) TaskContract_cases(3) by blast
        with 2 no_ev show ?thesis by (auto simp: new_task_row_def dest: task_id_no_colon)
      qed
    qed
    with started show ?thesis by simp
  qed
next
  case (acquired t token rid tid owner dispatch secs db db' grant gs)
  from acquired(3) show ?thesis
  proof (cases rule: acquire_commit)
    case (1 run row previous generation until)
    have inv: "system_inv sha (db, gs)" "keys_inv db" using assms acquired by simp_all
    have mem: "row \<in> set (st_tasks db)" "tr_task row = strip tid" using find_task_Some [OF 1(3)] by simp_all
    then have "row_ok row" using inv(1) by (simp add: system_inv_def lease_inv_def)
    then have "generation = lease_generation row + 1" "0 \<le> lease_generation row"
      using next_lease_generation_total(2) [OF _ 1(4)] by (auto simp: row_ok_def lease_shape_def)
    with write_keys_inv [OF 1(7) inv, where rest = "[''acquired'']" and stamp = "[]"] mem acquired
    show ?thesis by (simp add: acquired_draft_def)
  qed
next
  case (renewed t rid tid owner dispatch token secs db db' snap gs)
  from renewed(3) show ?thesis
  proof (cases rule: renew_commit)
    case (1 row until draft)
    have inv: "system_inv sha (db, gs)" "keys_inv db" using assms renewed by simp_all
    have mem: "row \<in> set (st_tasks db)" "tr_task row = strip tid" using find_task_Some [OF 1(1)] by simp_all
    then have "row_ok row" using inv(1) by (simp add: system_inv_def lease_inv_def)
    with 1(2) have "1 \<le> lease_generation row" by (auto simp: row_ok_def lease_shape_def)
    with write_keys_inv [OF 1(6) inv, where rest = "[''heartbeat'', isoformat t]" and stamp = "isoformat t"]
      mem 1(8) renewed show ?thesis by simp
  qed
next
  case (released t rid tid owner dispatch token db db' snap gs)
  have inv: "system_inv sha (db, gs)" "keys_inv db" using assms released by simp_all
  from released(3) show ?thesis
  proof (cases rule: release_commit)
    case (again row)
    with inv released show ?thesis by simp
  next
    case (released row draft)
    have mem: "row \<in> set (st_tasks db)" "tr_task row = strip tid" using find_task_Some [OF released(1)] by simp_all
    then have "row_ok row" using inv(1) by (simp add: system_inv_def lease_inv_def)
    with released(2) have "1 \<le> lease_generation row" by (auto simp: row_ok_def lease_shape_def)
    with write_keys_inv [OF released(6) inv, where rest = "[''released'']" and stamp = "[]"]
      mem released(8) \<open>s' = (db', gs)\<close> show ?thesis by simp
  qed
next
  case (appended t new_id rid key kind payload tid stage sequence tok db db' i gs)
  have inv: "system_inv sha (db, gs)" "keys_inv db" using assms appended by simp_all
  from appended(3) show ?thesis
  proof (cases rule: append_evidence_commit)
    case existing
    with inv appended show ?thesis by simp
  next
    case (fresh run fenced row draft e)
    let ?db1 = "db\<lparr>st_evidence := st_evidence db @ [row]\<rparr>"
    have run: "find_run (rr_id run) ?db1 = Some run"
      using fresh(1) find_run_Some [OF fresh(1)] by (simp add: find_run_def)
    have d: "distinct (map rr_id (st_runs ?db1))" using inv by (simp add: system_inv_def log_inv_def)
    note frame = append_frame [OF fresh(14) run d]
    have "hd (ed_key draft) = CHR ''e''"
      using fresh(13) by (auto simp: evidence_event_draft_def dest!: draft_id split: option.splits)
    then have "hd (ev_key e) \<noteq> CHR ''l''" using fresh(14) by (auto elim: append_cases)
    with other_keys_inv [OF inv(2), of db' e] frame appended show ?thesis by simp
  qed
next
  case (finalized t rid result tok db db' v gs)
  have inv: "system_inv sha (db, gs)" "keys_inv db" using assms finalized by simp_all
  from finalized(3) show ?thesis
  proof (cases rule: finalize_commit)
    case (again run)
    with inv finalized show ?thesis by simp
  next
    case (fresh run row status draft e)
    let ?run' = "finalized_run sha t result status run"
    have id: "rr_id run = rid" using find_run_Some [OF fresh(1)] by simp
    have run0: "find_run (rr_id run) db = Some run" using fresh(1) id by simp
    have run: "find_run (rr_id ?run') (put_run ?run' db) = Some ?run'"
      using find_run_put_run [OF run0, of ?run'] by simp
    have d: "distinct (map rr_id (st_runs (put_run ?run' db)))" using inv by (simp add: system_inv_def log_inv_def)
    note frame = append_frame [OF fresh(8) run d]
    have "ed_key draft = ''run:finalized''" using draft_id [OF fresh(7)] by (simp add: finalized_draft_def)
    then have "hd (ev_key e) \<noteq> CHR ''l''" using fresh(8) by (auto elim: append_cases)
    with other_keys_inv [OF inv(2), of db' e] frame finalized show ?thesis by simp
  qed
qed

interpretation store_keys: transition_system system_init "store_step sha"
    "\<lambda>s. system_inv sha s \<and> keys_inv (fst s)"
  for sha :: "json \<Rightarrow> digest"
proof
  fix s s' :: "'a system"
  show "system_inv sha s \<and> keys_inv (fst s)" if "system_init s"
    using that by (auto intro: system_init_inv simp: keys_inv_def system_init_def empty_store_def)
  show "system_inv sha s' \<and> keys_inv (fst s')" if "system_inv sha s \<and> keys_inv (fst s)" "store_step sha s s'"
    using that store_step_inv store_step_keys_inv by blast
qed

section \<open>Frame\<close>

text \<open>
  Tables that extend the store are left alone by its transactions, and no task row goes away.
\<close>

lemma more_beyond_evidence:
  "run_store.more db' = run_store.more db \<Longrightarrow> evidence_store.more db' = evidence_store.more db"
  for db :: "'z evidence_store_scheme"
  by (cases db; cases db') simp

lemma row_write_beyond:
  fixes db :: "'z evidence_store_scheme"
  assumes "row_write sha t row row' draft db db'" and "log_inv sha db"
  shows "evidence_store.more db' = evidence_store.more db \<and>
    task_key ` set (st_tasks db) \<subseteq> task_key ` set (st_tasks db')"
  using row_write_rows(3) [OF assms] row_write_frame [OF assms] more_beyond_evidence [of db' db]
  by (metis list.set_map subset_refl)

lemma append_beyond:
  fixes db :: "'z evidence_store_scheme"
  assumes "append_runtime_event sha run d db = Inr (db', e)" and "find_run (rr_id run) db = Some run"
    and "distinct (map rr_id (st_runs db))"
  shows "evidence_store.more db' = evidence_store.more db \<and> st_tasks db' = st_tasks db"
  using append_frame [OF assms] more_beyond_evidence by auto

lemma store_step_beyond:
  assumes step: "store_step sha s s'" and inv: "system_inv sha s"
  shows "evidence_store.more (fst s') = evidence_store.more (fst s) \<and>
    task_key ` set (st_tasks (fst s)) \<subseteq> task_key ` set (st_tasks (fst s'))"
  using step
proof cases
  case (started projects pid contracts commit rid db db' u gs)
  have d: "distinct (map rr_id (st_runs db))" using inv started(1) by (auto simp: system_inv_def log_inv_def)
  from started(3) show ?thesis
  proof (cases rule: start_run_commit)
    case (1 run draft0 draft e)
    have "find_run (rr_id run) (db\<lparr>st_runs := st_runs db @ [run],
        st_tasks := st_tasks db @ map (new_task_row sha rid) contracts\<rparr>) = Some run"
      using d 1(1,5) by (auto simp: find_run_def intro!: find_unique)
    from append_beyond [OF 1(13) this] d 1(1,5) started(1,2) show ?thesis by auto
  qed
next
  case (acquired t token rid tid owner dispatch secs db db' grant gs)
  then have log: "log_inv sha db" using inv by (simp add: system_inv_def)
  from acquired(3) show ?thesis
    unfolding acquired(1,2) fst_conv by (cases rule: acquire_commit) (assumption | simp | rule row_write_beyond [OF _ log])+
next
  case (renewed t rid tid owner dispatch token secs db db' snap gs)
  then have log: "log_inv sha db" using inv by (simp add: system_inv_def)
  from renewed(3) show ?thesis
    unfolding renewed(1,2) fst_conv by (cases rule: renew_commit) (assumption | simp | rule row_write_beyond [OF _ log])+
next
  case (released t rid tid owner dispatch token db db' snap gs)
  then have log: "log_inv sha db" using inv by (simp add: system_inv_def)
  from released(3) show ?thesis
    unfolding released(1,2) fst_conv by (cases rule: release_commit) (assumption | simp | rule row_write_beyond [OF _ log])+
next
  case (appended t new_id rid key kind payload tid stage sequence tok db db' i gs)
  have d: "distinct (map rr_id (st_runs db))" using inv appended(1) by (auto simp: system_inv_def log_inv_def)
  from appended(3) show ?thesis
  proof (cases rule: append_evidence_commit)
    case (fresh run fenced row draft e)
    have "find_run (rr_id run) (db\<lparr>st_evidence := st_evidence db @ [row]\<rparr>) = Some run"
      using fresh(1) find_run_Some [OF fresh(1)] by (simp add: find_run_def)
    from append_beyond [OF fresh(14) this] d appended(1,2) show ?thesis by auto
  qed (use appended in auto)
next
  case (finalized t rid result tok db db' v gs)
  have d: "distinct (map rr_id (st_runs db))" using inv finalized(1) by (auto simp: system_inv_def log_inv_def)
  from finalized(3) show ?thesis
  proof (cases rule: finalize_commit)
    case (fresh run row status draft e)
    let ?run = "finalized_run sha t result status run"
    have "find_run (rr_id ?run) (put_run ?run db) = Some ?run"
      using fresh(1) find_run_Some [OF fresh(1)] find_run_put_run [of run db run ?run] by simp
    moreover have "distinct (map rr_id (st_runs (put_run ?run db)))" using d by (simp add: put_run_def o_def if_distrib cong: if_cong)
    ultimately show ?thesis using append_beyond [OF fresh(8)] finalized(1,2) by (auto simp: put_run_def)
  qed (use finalized in auto)
qed

end
