(* ===== verification/Dispatch_Ledger.thy ===== *)
theory Dispatch_Ledger
  imports Evidence_Store
begin

text \<open>
  The ledger of broker publications (\<open>models/dispatch_attempt.py\<close>, \<open>persistence/dispatch.py\<close>) and the
  dispatcher that records its intent before it publishes (\<open>dispatch/durable.py\<close>, envelopes and
  receipts of \<open>models/dispatch.py\<close>). The table \<open>dispatch_attempts\<close> extends the evidence store. The
  broker is code of a third party: what a call of \<open>actor.send\<close> did is an argument, the message id
  it returned or \<open>None\<close> for a \<open>BrokerConnectionError\<close>.
\<close>

section \<open>Attempts\<close>

datatype dispatch_attempt_state = REQUESTED | ENQUEUED | PUBLISH_FAILED

record dispatch_attempt =
  da_id :: uuid
  da_run :: uuid
  da_task :: task_id
  da_number :: int
  da_state :: dispatch_attempt_state
  da_message_id :: "string option"
  da_queue_name :: "string option"
  da_error_code :: "string option"
  da_error_message :: "string option"
  da_requested_at :: timestamp
  da_resolved_at :: "timestamp option"
  da_updated_at :: timestamp

definition validate_state_shape :: "dispatch_attempt \<Rightarrow> dispatch_attempt res" where
  "validate_state_shape a =
     (if da_updated_at a < da_requested_at a
      then Inl (ValueError ''dispatch attempt updated_at cannot precede requested_at'')
      else if \<not> opt_all (\<lambda>t. da_requested_at a \<le> t) (da_resolved_at a)
      then Inl (ValueError ''dispatch attempt resolved_at cannot precede requested_at'')
      else if da_state a = REQUESTED then
        if da_message_id a \<noteq> None \<or> da_queue_name a \<noteq> None \<or> da_error_code a \<noteq> None \<or> da_error_message a \<noteq> None
        then Inl (ValueError ''REQUESTED dispatch attempts cannot claim a publication outcome'')
        else if da_resolved_at a \<noteq> None
        then Inl (ValueError ''REQUESTED dispatch attempts must remain unresolved'')
        else Inr a
      else if da_resolved_at a = None
      then Inl (ValueError ''resolved dispatch attempts require resolved_at'')
      else if da_state a = ENQUEUED then
        if da_message_id a = None \<or> da_queue_name a = None
        then Inl (ValueError ''ENQUEUED dispatch attempts require broker acknowledgement facts'')
        else if da_error_code a \<noteq> None \<or> da_error_message a \<noteq> None
        then Inl (ValueError ''ENQUEUED dispatch attempts cannot retain failure facts'')
        else Inr a
      else if da_message_id a \<noteq> None \<or> da_queue_name a \<noteq> None
      then Inl (ValueError ''PUBLISH_FAILED attempts cannot claim broker acknowledgement facts'')
      else if da_error_code a = None \<or> da_error_message a = None
      then Inl (ValueError ''PUBLISH_FAILED attempts require bounded error facts'')
      else Inr a)"

definition PersistedDispatchAttempt :: "dispatch_attempt \<Rightarrow> dispatch_attempt res" where
  "PersistedDispatchAttempt a =
     (if \<not> text_between 128 (da_task a) then Inl (ValueError ''task_id'')
      else if da_number a < 1 then Inl (ValueError ''attempt_number'')
      else if \<not> opt_all (text_between 128) (da_message_id a) then Inl (ValueError ''broker_message_id'')
      else if \<not> opt_all (text_between 128) (da_queue_name a) then Inl (ValueError ''queue_name'')
      else if \<not> opt_all (text_between 64) (da_error_code a) then Inl (ValueError ''error_code'')
      else if \<not> opt_all (text_between 512) (da_error_message a) then Inl (ValueError ''error_message'')
      else validate_state_shape a)"

definition decode_attempt :: "dispatch_attempt \<Rightarrow> dispatch_attempt res" where
  "decode_attempt row = (case PersistedDispatchAttempt row of
     Inl e \<Rightarrow> Inl (PersistenceCorruptionError ''dispatch attempt failed durable validation'')
   | Inr a \<Rightarrow> Inr a)"

section \<open>The table\<close>

record dispatch_store = evidence_store +
  st_attempts :: "dispatch_attempt list"

type_synonym ('z, 'a) dispatch_tx = "exn + ('z dispatch_store_scheme \<times> 'a)"

definition find_attempt :: "uuid \<Rightarrow> 'z dispatch_store_scheme \<Rightarrow> dispatch_attempt option" where
  "find_attempt d db = find (\<lambda>a. da_id a = d) (st_attempts db)"

text \<open>The attempts of one task, in the order of their rows.\<close>

definition task_attempts :: "uuid \<Rightarrow> task_id \<Rightarrow> 'z dispatch_store_scheme \<Rightarrow> dispatch_attempt list" where
  "task_attempts rid tid db = filter (\<lambda>a. da_run a = rid \<and> da_task a = tid) (st_attempts db)"

text \<open>The constraint \<open>ck_dispatch_attempts_state_shape\<close>.\<close>

definition attempt_shape :: "dispatch_attempt \<Rightarrow> bool" where
  "attempt_shape a = (case da_state a of
     REQUESTED \<Rightarrow> da_message_id a = None \<and> da_queue_name a = None \<and> da_error_code a = None \<and>
       da_error_message a = None \<and> da_resolved_at a = None
   | ENQUEUED \<Rightarrow> da_message_id a \<noteq> None \<and> da_queue_name a \<noteq> None \<and> da_error_code a = None \<and>
       da_error_message a = None \<and> da_resolved_at a \<noteq> None
   | PUBLISH_FAILED \<Rightarrow> da_message_id a = None \<and> da_queue_name a = None \<and> da_error_code a \<noteq> None \<and>
       da_error_message a \<noteq> None \<and> da_resolved_at a \<noteq> None)"

text \<open>Flushing a new row, with the constraints of the table, and a changed one.\<close>

definition insert_row :: "dispatch_attempt \<Rightarrow> 'z dispatch_store_scheme \<Rightarrow> 'z dispatch_store_scheme res" where
  "insert_row a db =
     (if da_number a < 1 then Inl (IntegrityError ''ck_dispatch_attempts_attempt_number'')
      else if \<not> attempt_shape a then Inl (IntegrityError ''ck_dispatch_attempts_state_shape'')
      else if find_task (da_run a) (da_task a) db = None then Inl (IntegrityError ''fk_dispatch_attempts_task'')
      else if da_id a \<in> da_id ` set (st_attempts db) then Inl (IntegrityError ''dispatch_attempts_pkey'')
      else if \<exists>x \<in> set (st_attempts db). (da_run x, da_task x, da_number x) = (da_run a, da_task a, da_number a)
      then Inl (IntegrityError ''uq_dispatch_attempts_task_number'')
      else Inr (db\<lparr>st_attempts := st_attempts db @ [a]\<rparr>))"

definition flush_attempt :: "dispatch_attempt \<Rightarrow> 'z dispatch_store_scheme \<Rightarrow> 'z dispatch_store_scheme res" where
  "flush_attempt a db =
     (if \<not> attempt_shape a then Inl (IntegrityError ''ck_dispatch_attempts_state_shape'')
      else Inr (db\<lparr>st_attempts := map (\<lambda>x. if da_id x = da_id a then a else x) (st_attempts db)\<rparr>))"

definition requested_row :: "uuid \<Rightarrow> uuid \<Rightarrow> task_id \<Rightarrow> int \<Rightarrow> timestamp \<Rightarrow> dispatch_attempt" where
  "requested_row d rid tid number observed_at =
     \<lparr>da_id = d, da_run = rid, da_task = tid, da_number = number, da_state = REQUESTED,
      da_message_id = None, da_queue_name = None, da_error_code = None, da_error_message = None,
      da_requested_at = observed_at, da_resolved_at = None, da_updated_at = observed_at\<rparr>"

definition insert_attempt ::
    "uuid \<Rightarrow> uuid \<Rightarrow> task_id \<Rightarrow> int \<Rightarrow> timestamp \<Rightarrow> 'z dispatch_store_scheme
     \<Rightarrow> ('z, dispatch_attempt) dispatch_tx" where
  "insert_attempt d rid tid number observed_at db =
     (let row = requested_row d rid tid number observed_at in
      bind_res (insert_row row db) (\<lambda>db'. bind_res (decode_attempt row) (\<lambda>a. Inr (db', a))))"

section \<open>Transactions\<close>

definition load_attempt :: "uuid \<Rightarrow> 'z dispatch_store_scheme \<Rightarrow> dispatch_attempt option res" where
  "load_attempt d db = (case find_attempt d db of
     None \<Rightarrow> Inr None | Some row \<Rightarrow> bind_res (decode_attempt row) (\<lambda>a. Inr (Some a)))"

definition list_for_task :: "uuid \<Rightarrow> string \<Rightarrow> 'z dispatch_store_scheme \<Rightarrow> dispatch_attempt list res" where
  "list_for_task rid tid db =
     bind_res (required_text 128 tid) (\<lambda>task_name.
       map_res decode_attempt (sort_key da_number (task_attempts rid task_name db)))"

definition begin_initial_attempt ::
    "timestamp \<Rightarrow> uuid \<Rightarrow> uuid \<Rightarrow> string \<Rightarrow> 'z dispatch_store_scheme
     \<Rightarrow> ('z, dispatch_attempt \<times> bool) dispatch_tx" where
  "begin_initial_attempt observed_at d rid tid db =
     bind_res (required_text 128 tid) (\<lambda>task_name.
     bind_res (locked_run rid db) (\<lambda>run.
       if rr_status run \<noteq> RUNNING
       then Inl (PersistenceConflictError ''dispatch attempts may be created only for RUNNING persisted Runs'')
       else bind_res (locked_task rid task_name db) (\<lambda>_.
         case find_attempt d db of
           Some existing \<Rightarrow> bind_res (decode_attempt existing) (\<lambda>current.
             if da_run current \<noteq> rid \<or> da_task current \<noteq> task_name
             then Inl (PersistenceConflictError ''dispatch_id is already bound to a different persisted Run/Task'')
             else if da_number current \<noteq> 1
             then Inl (PersistenceCorruptionError ''ordinary dispatch_id unexpectedly refers to a recovery attempt'')
             else Inr (db, current, False))
         | None \<Rightarrow>
             if task_attempts rid task_name db \<noteq> []
             then Inl (PersistenceConflictError ''task already has a durable dispatch attempt; recovery must decide any retry'')
             else bind_res (insert_attempt d rid task_name 1 observed_at db) (\<lambda>(db', a).
               Inr (db', a, True)))))"

definition locked_attempt :: "uuid \<Rightarrow> 'z dispatch_store_scheme \<Rightarrow> dispatch_attempt res" where
  "locked_attempt d db = (case find_attempt d db of
     None \<Rightarrow> Inl (PersistenceConflictError ''dispatch attempt must be durably REQUESTED before recording broker outcome'')
   | Some row \<Rightarrow> Inr row)"

definition assert_attempt_identity :: "dispatch_attempt \<Rightarrow> uuid \<Rightarrow> task_id \<Rightarrow> unit res" where
  "assert_attempt_identity current rid tid =
     (if da_run current \<noteq> rid \<or> da_task current \<noteq> tid
      then Inl (PersistenceConflictError ''dispatch publication result does not match durable Run/Task identity'')
      else Inr ())"

text \<open>The rows the two outcomes leave, and the write of one.\<close>

definition enqueued_row :: "timestamp \<Rightarrow> string \<Rightarrow> string \<Rightarrow> dispatch_attempt \<Rightarrow> dispatch_attempt" where
  "enqueued_row observed_at message_id queue row =
     row\<lparr>da_state := ENQUEUED, da_message_id := Some message_id, da_queue_name := Some queue,
       da_error_code := None, da_error_message := None,
       da_resolved_at := Some observed_at, da_updated_at := observed_at\<rparr>"

definition failed_row :: "timestamp \<Rightarrow> string \<Rightarrow> string \<Rightarrow> dispatch_attempt \<Rightarrow> dispatch_attempt" where
  "failed_row observed_at code message row =
     row\<lparr>da_state := PUBLISH_FAILED, da_message_id := None, da_queue_name := None,
       da_error_code := Some code, da_error_message := Some message,
       da_resolved_at := Some observed_at, da_updated_at := observed_at\<rparr>"

definition write_outcome ::
    "dispatch_attempt \<Rightarrow> 'z dispatch_store_scheme \<Rightarrow> ('z, dispatch_attempt) dispatch_tx" where
  "write_outcome row db =
     bind_res (flush_attempt row db) (\<lambda>db'. bind_res (decode_attempt row) (\<lambda>a. Inr (db', a)))"

definition mark_enqueued ::
    "timestamp \<Rightarrow> uuid \<Rightarrow> uuid \<Rightarrow> string \<Rightarrow> string \<Rightarrow> string \<Rightarrow> 'z dispatch_store_scheme
     \<Rightarrow> ('z, dispatch_attempt) dispatch_tx" where
  "mark_enqueued observed_at d rid tid broker_message_id queue_name db =
     bind_res (required_text 128 broker_message_id) (\<lambda>message_id.
     bind_res (required_text 128 queue_name) (\<lambda>queue.
     bind_res (required_text 128 tid) (\<lambda>task_name.
     bind_res (locked_attempt d db) (\<lambda>row.
     bind_res (decode_attempt row) (\<lambda>current.
     bind_res (assert_attempt_identity current rid task_name) (\<lambda>_.
       if da_state current = ENQUEUED then
         if da_message_id current \<noteq> Some message_id \<or> da_queue_name current \<noteq> Some queue
         then Inl (PersistenceConflictError ''ENQUEUED dispatch acknowledgement cannot be replaced by different facts'')
         else Inr (db, current)
       else if da_state current \<noteq> REQUESTED
       then Inl (PersistenceConflictError ''PUBLISH_FAILED dispatch attempts cannot be rewritten as ENQUEUED'')
       else write_outcome (enqueued_row observed_at message_id queue row) db))))))"

definition mark_publish_failed ::
    "timestamp \<Rightarrow> uuid \<Rightarrow> uuid \<Rightarrow> string \<Rightarrow> string \<Rightarrow> string \<Rightarrow> 'z dispatch_store_scheme
     \<Rightarrow> ('z, dispatch_attempt) dispatch_tx" where
  "mark_publish_failed observed_at d rid tid error_code error_message db =
     bind_res (required_text 64 error_code) (\<lambda>code.
     bind_res (required_text 512 error_message) (\<lambda>message.
     bind_res (required_text 128 tid) (\<lambda>task_name.
     bind_res (locked_attempt d db) (\<lambda>row.
     bind_res (decode_attempt row) (\<lambda>current.
     bind_res (assert_attempt_identity current rid task_name) (\<lambda>_.
       if da_state current = PUBLISH_FAILED then
         if da_error_code current \<noteq> Some code \<or> da_error_message current \<noteq> Some message
         then Inl (PersistenceConflictError ''PUBLISH_FAILED dispatch observation cannot be replaced by different facts'')
         else Inr (db, current)
       else if da_state current \<noteq> REQUESTED
       then Inl (PersistenceConflictError ''ENQUEUED dispatch attempts cannot be rewritten as PUBLISH_FAILED'')
       else write_outcome (failed_row observed_at code message row) db))))))"

section \<open>The dispatcher\<close>

record task_dispatch_envelope =
  te_dispatch :: uuid
  te_run :: uuid
  te_task :: task_id

definition TaskDispatchEnvelope :: "task_dispatch_envelope \<Rightarrow> task_dispatch_envelope res" where
  "TaskDispatchEnvelope e = (if text_between 128 (te_task e) then Inr e else Inl (ValueError ''task_id''))"

record task_dispatch_receipt =
  rc_dispatch :: uuid
  rc_run :: uuid
  rc_task :: task_id
  rc_message_id :: string
  rc_queue_name :: string

definition TaskDispatchReceipt :: "task_dispatch_receipt \<Rightarrow> task_dispatch_receipt res" where
  "TaskDispatchReceipt r =
     (if text_between 128 (rc_task r) \<and> text_between 128 (rc_message_id r) \<and> text_between 128 (rc_queue_name r)
      then Inr r else Inl (ValueError ''receipt''))"

definition receipt_from_attempt :: "dispatch_attempt \<Rightarrow> task_dispatch_receipt res" where
  "receipt_from_attempt a =
     (if da_state a \<noteq> ENQUEUED
      then Inl (TaskDispatchRejectedError ''only durably ENQUEUED dispatch attempts can produce queue receipts'')
      else (case (da_message_id a, da_queue_name a) of
          (Some message_id, Some queue) \<Rightarrow> TaskDispatchReceipt
            \<lparr>rc_dispatch = da_id a, rc_run = da_run a, rc_task = da_task a,
             rc_message_id = message_id, rc_queue_name = queue\<rparr>
        | _ \<Rightarrow> Inl (AssertionError ''attempt.broker_message_id is not None'')))"

definition BROKER_ERROR_CODE :: string where
  "BROKER_ERROR_CODE = ''BROKER_CONNECTION_ERROR''"

definition BROKER_ERROR_MESSAGE :: string where
  "BROKER_ERROR_MESSAGE = ''Dramatiq broker could not accept task dispatch''"

text \<open>
  What the dispatcher reads of a persisted Run: its status and the ids of its tasks. A dispatch
  is several transactions: the result is what it returns or raises, the store it leaves, and the
  envelopes handed to the broker.
\<close>

record run_view =
  rv_status :: persisted_run_status
  rv_tasks :: "task_id list"

definition record_publication ::
    "timestamp \<Rightarrow> string option \<Rightarrow> string \<Rightarrow> task_dispatch_envelope \<Rightarrow> 'z dispatch_store_scheme
     \<Rightarrow> task_dispatch_receipt res \<times> 'z dispatch_store_scheme" where
  "record_publication t sent queue e db = (case sent of
     None \<Rightarrow> (case mark_publish_failed t (te_dispatch e) (te_run e) (te_task e)
                 BROKER_ERROR_CODE BROKER_ERROR_MESSAGE db of
         Inl x \<Rightarrow> (Inl x, db)
       | Inr (db', _) \<Rightarrow> (Inl (TaskDispatchBrokerError BROKER_ERROR_MESSAGE), db'))
   | Some message_id \<Rightarrow> (case mark_enqueued t (te_dispatch e) (te_run e) (te_task e) message_id queue db of
         Inl x \<Rightarrow> (Inl x, db)
       | Inr (db', a) \<Rightarrow> (receipt_from_attempt a, db')))"

definition dispatch ::
    "(uuid \<Rightarrow> run_view res) \<Rightarrow> timestamp \<Rightarrow> timestamp \<Rightarrow> string option \<Rightarrow> string \<Rightarrow> uuid \<Rightarrow> uuid \<Rightarrow> string
     \<Rightarrow> 'z dispatch_store_scheme
     \<Rightarrow> task_dispatch_receipt res \<times> 'z dispatch_store_scheme \<times> task_dispatch_envelope list" where
  "dispatch load_run t1 t2 sent queue d rid tid db =
     (case bind_res (load_run rid) (\<lambda>snapshot.
         if rv_status snapshot \<noteq> RUNNING
         then Inl (TaskDispatchRejectedError ''only persisted RUNNING runs may dispatch tasks'')
         else if tid \<notin> set (rv_tasks snapshot)
         then Inl (TaskDispatchRejectedError ''task does not belong to persisted run'')
         else bind_res (TaskDispatchEnvelope \<lparr>te_dispatch = d, te_run = rid, te_task = tid\<rparr>) (\<lambda>e.
           bind_res (begin_initial_attempt t1 d rid tid db) (\<lambda>(db1, a, created). Inr (e, db1, a, created)))) of
       Inl x \<Rightarrow> (Inl x, db, [])
     | Inr (e, db1, a, created) \<Rightarrow>
         if \<not> created then
           if da_state a = ENQUEUED then (receipt_from_attempt a, db1, [])
           else (Inl (TaskDispatchRejectedError
                  ''durable dispatch attempt is unresolved or failed; recovery must decide any retry''), db1, [])
         else (case record_publication t2 sent queue e db1 of (r, db2) \<Rightarrow> (r, db2, [e])))"

section \<open>What a transaction writes\<close>

lemma validated_attempt: "PersistedDispatchAttempt a = Inr b \<Longrightarrow> b = a"
  by (auto simp: PersistedDispatchAttempt_def validate_state_shape_def split: if_splits)

lemma decode_attempt_Inr: "decode_attempt a = Inr b \<longleftrightarrow> b = a \<and> PersistedDispatchAttempt a = Inr a"
  by (auto simp: decode_attempt_def dest: validated_attempt split: sum.splits)

lemma find_attempt_Some:
  "find_attempt d db = Some a \<Longrightarrow> a \<in> set (st_attempts db) \<and> da_id a = d"
  by (auto simp: find_attempt_def find_Some_iff)

lemma find_attempt_None: "find_attempt d db = None \<longleftrightarrow> d \<notin> da_id ` set (st_attempts db)"
  by (auto simp: find_attempt_def find_None_iff)

text \<open>
  The two effects a committed transaction can have on the ledger: one new REQUESTED attempt with a
  new identity, or the outcome of one attempt that had none.
\<close>

definition new_attempt :: "dispatch_attempt \<Rightarrow> 'z dispatch_store_scheme \<Rightarrow> 'z dispatch_store_scheme \<Rightarrow> bool" where
  "new_attempt a db db' =
     (db' = db\<lparr>st_attempts := st_attempts db @ [a]\<rparr> \<and> da_state a = REQUESTED \<and>
      PersistedDispatchAttempt a = Inr a \<and> find_attempt (da_id a) db = None \<and>
      find_task (da_run a) (da_task a) db \<noteq> None \<and>
      da_number a = int (length (task_attempts (da_run a) (da_task a) db)) + 1)"

definition put_attempt :: "dispatch_attempt \<Rightarrow> 'z dispatch_store_scheme \<Rightarrow> 'z dispatch_store_scheme" where
  "put_attempt a db = db\<lparr>st_attempts := map (\<lambda>x. if da_id x = da_id a then a else x) (st_attempts db)\<rparr>"

definition outcome_of :: "dispatch_attempt \<Rightarrow> dispatch_attempt \<Rightarrow> bool" where
  "outcome_of row a =
     (da_state row = REQUESTED \<and> da_state a \<noteq> REQUESTED \<and> da_id a = da_id row \<and> da_run a = da_run row \<and>
      da_task a = da_task row \<and> da_number a = da_number row \<and> da_requested_at a = da_requested_at row)"

definition new_outcome :: "dispatch_attempt \<Rightarrow> 'z dispatch_store_scheme \<Rightarrow> 'z dispatch_store_scheme \<Rightarrow> bool" where
  "new_outcome a db db' =
     (db' = put_attempt a db \<and> PersistedDispatchAttempt a = Inr a \<and>
      (\<exists>row. find_attempt (da_id a) db = Some row \<and> outcome_of row a))"

lemma insert_attempt_commit:
  assumes "insert_attempt d rid tid number t db = Inr (db', a)"
    and "number = int (length (task_attempts rid tid db)) + 1"
  shows "new_attempt a db db' \<and> a = requested_row d rid tid number t"
  using assms
  by (auto simp: insert_attempt_def insert_row_def bind_res_eq_Inr decode_attempt_Inr new_attempt_def
      requested_row_def find_attempt_None Let_def split: if_splits)

lemma begin_commit:
  assumes "begin_initial_attempt t d rid tid db = Inr (db', a, created)"
  shows "(if created then new_attempt a db db' \<and> a = requested_row d rid (strip tid) 1 t \<and>
            task_attempts rid (strip tid) db = []
          else db' = db \<and> find_attempt d db = Some a) \<and>
    da_id a = d \<and> da_run a = rid \<and> da_task a = strip tid \<and> da_number a = 1 \<and>
    (\<exists>run. find_run rid db = Some run \<and> rr_status run = RUNNING)"
  using assms
  by (auto simp: begin_initial_attempt_def bind_res_eq_Inr required_text_Inr locked_run_Inr decode_attempt_Inr
      split: option.splits if_splits dest!: insert_attempt_commit find_attempt_Some)
    (auto simp: requested_row_def)

lemma write_outcome_commit:
  assumes "write_outcome a db = Inr (db', b)" and "find_attempt (da_id a) db = Some row" and "outcome_of row a"
  shows "b = a \<and> new_outcome a db db'"
  using assms
  by (auto simp: write_outcome_def flush_attempt_def put_attempt_def new_outcome_def bind_res_eq_Inr
      decode_attempt_Inr split: if_splits)

lemma outcome_rows [simp]:
  "da_state row = REQUESTED \<Longrightarrow> outcome_of row (enqueued_row t m q row)"
  "da_state row = REQUESTED \<Longrightarrow> outcome_of row (failed_row t c m row)"
  "da_id (enqueued_row t m q row) = da_id row" "da_id (failed_row t c m row) = da_id row"
  by (auto simp: outcome_of_def enqueued_row_def failed_row_def)

lemma locked_attempt_Inr: "locked_attempt d db = Inr row \<longleftrightarrow> find_attempt d db = Some row"
  by (auto simp: locked_attempt_def split: option.splits)

lemma assert_attempt_identity_Inr:
  "assert_attempt_identity a rid tid = Inr u \<longleftrightarrow> da_run a = rid \<and> da_task a = tid"
  by (auto simp: assert_attempt_identity_def)

lemma mark_enqueued_commit:
  assumes "mark_enqueued t d rid tid m q db = Inr (db', a)"
  shows "(db' = db \<and> find_attempt d db = Some a \<or> new_outcome a db db') \<and> da_state a = ENQUEUED \<and>
    da_message_id a = Some (strip m) \<and> da_queue_name a = Some (strip q) \<and>
    da_id a = d \<and> da_run a = rid \<and> da_task a = strip tid"
proof -
  from assms obtain row where row: "find_attempt d db = Some row" "da_run row = rid" "da_task row = strip tid"
    and res: "da_state row = ENQUEUED \<and> da_message_id row = Some (strip m) \<and> da_queue_name row = Some (strip q) \<and>
        db' = db \<and> a = row \<or>
      da_state row = REQUESTED \<and> write_outcome (enqueued_row t (strip m) (strip q) row) db = Inr (db', a)"
    unfolding mark_enqueued_def bind_res_eq_Inr required_text_Inr locked_attempt_Inr decode_attempt_Inr
      assert_attempt_identity_Inr by (elim exE conjE) (simp split: if_splits)
  note d = find_attempt_Some [OF row(1)]
  from res show ?thesis
  proof
    assume "da_state row = REQUESTED \<and> write_outcome (enqueued_row t (strip m) (strip q) row) db = Inr (db', a)"
    with write_outcome_commit [of "enqueued_row t (strip m) (strip q) row" db db' a row] row d
    have "a = enqueued_row t (strip m) (strip q) row \<and> new_outcome a db db'" by simp
    with row d show ?thesis by (auto simp: enqueued_row_def)
  qed (use row d in auto)
qed

lemma mark_publish_failed_commit:
  assumes "mark_publish_failed t d rid tid c m db = Inr (db', a)"
  shows "(db' = db \<and> find_attempt d db = Some a \<or> new_outcome a db db') \<and> da_state a = PUBLISH_FAILED \<and>
    da_error_code a = Some (strip c) \<and> da_error_message a = Some (strip m) \<and>
    da_id a = d \<and> da_run a = rid \<and> da_task a = strip tid"
proof -
  from assms obtain row where row: "find_attempt d db = Some row" "da_run row = rid" "da_task row = strip tid"
    and res: "da_state row = PUBLISH_FAILED \<and> da_error_code row = Some (strip c) \<and>
        da_error_message row = Some (strip m) \<and> db' = db \<and> a = row \<or>
      da_state row = REQUESTED \<and> write_outcome (failed_row t (strip c) (strip m) row) db = Inr (db', a)"
    unfolding mark_publish_failed_def bind_res_eq_Inr required_text_Inr locked_attempt_Inr decode_attempt_Inr
      assert_attempt_identity_Inr by (elim exE conjE) (simp split: if_splits)
  note d = find_attempt_Some [OF row(1)]
  from res show ?thesis
  proof
    assume "da_state row = REQUESTED \<and> write_outcome (failed_row t (strip c) (strip m) row) db = Inr (db', a)"
    with write_outcome_commit [of "failed_row t (strip c) (strip m) row" db db' a row] row d
    have "a = failed_row t (strip c) (strip m) row \<and> new_outcome a db db'" by simp
    with row d show ?thesis by (auto simp: failed_row_def)
  qed (use row d in auto)
qed

section \<open>The ledger invariant\<close>

text \<open>
  Identities are unique, every row validates and belongs to a task, and the attempts of a task are
  numbered from one in the order they were made.
\<close>

definition ledger_inv :: "'z dispatch_store_scheme \<Rightarrow> bool" where
  "ledger_inv db =
     (distinct (map da_id (st_attempts db)) \<and>
      (\<forall>a \<in> set (st_attempts db). PersistedDispatchAttempt a = Inr a \<and>
         (da_run a, da_task a) \<in> task_key ` set (st_tasks db)) \<and>
      (\<forall>rid tid. map da_number (task_attempts rid tid db) = [1 .. int (length (task_attempts rid tid db))]))"

text \<open>Growth: attempts are never removed and a recorded outcome is never rewritten.\<close>

definition ledger_grows :: "'z dispatch_store_scheme \<Rightarrow> 'z dispatch_store_scheme \<Rightarrow> bool" where
  "ledger_grows db db' =
     (\<forall>a \<in> set (st_attempts db). \<exists>b \<in> set (st_attempts db'). b = a \<or> outcome_of a b)"

lemma ledger_grows_refl [simp]: "ledger_grows db db"
  by (auto simp: ledger_grows_def)

lemma outcome_once: "outcome_of a b \<Longrightarrow> \<not> outcome_of b c"
  by (simp add: outcome_of_def)

lemma ledger_grows_trans: "ledger_grows a b \<Longrightarrow> ledger_grows b c \<Longrightarrow> ledger_grows a c"
  unfolding ledger_grows_def by (metis outcome_once)

lemma task_attempts_put:
  assumes "find_attempt (da_id a) db = Some row" "outcome_of row a" "distinct (map da_id (st_attempts db))"
  shows "task_attempts rid tid (put_attempt a db) =
    map (\<lambda>x. if da_id x = da_id a then a else x) (task_attempts rid tid db)"
proof -
  have "x = row" if "x \<in> set (st_attempts db)" "da_id x = da_id a" for x
    using that find_attempt_Some [OF assms(1)] assms(3) by (metis distinct_map inj_onD)
  then have "filter (\<lambda>x. da_run (if da_id x = da_id a then a else x) = rid \<and>
        da_task (if da_id x = da_id a then a else x) = tid) (st_attempts db) =
      filter (\<lambda>x. da_run x = rid \<and> da_task x = tid) (st_attempts db)"
    using assms(2) by (intro filter_cong) (auto simp: outcome_of_def)
  then show ?thesis by (simp add: task_attempts_def put_attempt_def filter_map o_def)
qed

lemma new_outcome_ledger:
  assumes "ledger_inv db" and "new_outcome a db db'"
  shows "ledger_inv db' \<and> ledger_grows db db' \<and> map da_id (st_attempts db') = map da_id (st_attempts db)"
proof -
  from assms obtain row where row: "find_attempt (da_id a) db = Some row" "outcome_of row a"
    and db': "db' = put_attempt a db" and ok: "PersistedDispatchAttempt a = Inr a"
    by (auto simp: new_outcome_def)
  have dist: "distinct (map da_id (st_attempts db))" using assms(1) by (simp add: ledger_inv_def)
  have uniq: "x = row" if "x \<in> set (st_attempts db)" "da_id x = da_id a" for x
    using that find_attempt_Some [OF row(1)] dist by (metis distinct_map inj_onD)
  have ids: "map da_id (st_attempts db') = map da_id (st_attempts db)"
    by (simp add: db' put_attempt_def o_def if_distrib cong: if_cong)
  have mem: "x = a \<or> x \<in> set (st_attempts db)" if "x \<in> set (st_attempts db')" for x
    using that by (auto simp: db' put_attempt_def split: if_splits)
  have key: "(da_run a, da_task a) \<in> task_key ` set (st_tasks db)"
    using assms(1) find_attempt_Some [OF row(1)] row(2) by (auto simp: ledger_inv_def outcome_of_def)
  have "map da_number (task_attempts rid tid db') = map da_number (task_attempts rid tid db)" for rid tid
    using uniq row(2) unfolding db' task_attempts_put [OF row dist]
    by (auto simp: task_attempts_def outcome_of_def)
  moreover have "length (task_attempts rid tid db') = length (task_attempts rid tid db)" for rid tid
    by (simp add: db' task_attempts_put [OF row dist])
  moreover have "st_tasks db' = st_tasks db" by (simp add: db' put_attempt_def)
  ultimately have "ledger_inv db'"
    using assms(1) ids mem ok key unfolding ledger_inv_def by metis
  moreover have "ledger_grows db db'"
    unfolding ledger_grows_def
  proof
    fix x assume x: "x \<in> set (st_attempts db)"
    show "\<exists>b \<in> set (st_attempts db'). b = x \<or> outcome_of x b"
    proof (cases "da_id x = da_id a")
      case True
      with x uniq row(2) have "outcome_of x a" by blast
      moreover have "a \<in> set (st_attempts db')" using x True by (force simp: db' put_attempt_def)
      ultimately show ?thesis by blast
    qed (use x in \<open>force simp: db' put_attempt_def\<close>)
  qed
  ultimately show ?thesis using ids by simp
qed

lemma new_attempt_ledger:
  assumes "ledger_inv db" and "new_attempt a db db'"
  shows "ledger_inv db' \<and> ledger_grows db db' \<and>
    map da_id (st_attempts db') = map da_id (st_attempts db) @ [da_id a] \<and>
    da_id a \<notin> set (map da_id (st_attempts db))"
proof -
  from assms(2) have db': "db' = db\<lparr>st_attempts := st_attempts db @ [a]\<rparr>"
    and ok: "PersistedDispatchAttempt a = Inr a" and fresh: "da_id a \<notin> set (map da_id (st_attempts db))"
    and task: "find_task (da_run a) (da_task a) db \<noteq> None"
    and num: "da_number a = int (length (task_attempts (da_run a) (da_task a) db)) + 1"
    by (auto simp: new_attempt_def find_attempt_None)
  from task have key: "(da_run a, da_task a) \<in> task_key ` set (st_tasks db)"
    by (force simp: task_key_def dest: find_task_Some)
  have "task_attempts rid tid db' =
      task_attempts rid tid db @ (if da_run a = rid \<and> da_task a = tid then [a] else [])" for rid tid
    by (simp add: db' task_attempts_def)
  then have "map da_number (task_attempts rid tid db') = [1 .. int (length (task_attempts rid tid db'))]" for rid tid
    using assms(1) num upto_snoc [of "int (length (task_attempts rid tid db))"]
    by (auto simp: ledger_inv_def add.commute)
  then show ?thesis
    using assms(1) ok fresh key by (auto simp: ledger_inv_def ledger_grows_def db')
qed

end
