(* ===== verification/Reconciliation.thy ===== *)
theory Reconciliation
  imports Dispatch_Ledger "HOL-Library.AList"
begin

text \<open>
  Recovery of one task (\<open>models/reconciliation.py\<close>, \<open>persistence/reconciliation.py\<close>,
  \<open>runtime/reconciler.py\<close>): the locked decision what to do with a task after a crash, the locked window
  in which a prepared dispatch is published, and the reconciler that composes them.
  The \<open>uuid4\<close> of a new attempt and the database times are arguments, as is the outcome of the call to
  the broker.
\<close>

section \<open>Decisions\<close>

datatype task_reconciliation_action =
    NO_ACTION_RUN_TERMINAL | WAIT_ACTIVE_OWNER | RESUME_TERMINAL_EVIDENCE | WAIT_EXISTING_DISPATCH
  | BLOCKED_PUBLISH_FAILED | BLOCKED_RELEASED_EVIDENCE_GAP | PREPARED_DISPATCH

record task_reconciliation_decision =
  rd_run :: uuid
  rd_task :: task_id
  rd_observed_at :: timestamp
  rd_action :: task_reconciliation_action
  rd_reason :: string
  rd_generation :: int
  rd_current_dispatch :: "uuid option"
  rd_worker_evidence :: "int option"
  rd_attempt :: "dispatch_attempt option"
  rd_publish_allowed :: bool
  rd_recovery_attempt :: bool

definition validate_decision_shape :: "task_reconciliation_decision \<Rightarrow> task_reconciliation_decision res" where
  "validate_decision_shape d =
     (if rd_action d = PREPARED_DISPATCH then
        (case rd_attempt d of
          None \<Rightarrow> Inl (ValueError ''prepared reconciliation requires one publishable dispatch attempt'')
        | Some a \<Rightarrow>
            if \<not> rd_publish_allowed d
            then Inl (ValueError ''prepared reconciliation requires one publishable dispatch attempt'')
            else if da_run a \<noteq> rd_run d
            then Inl (ValueError ''prepared dispatch Run identity must match reconciliation decision'')
            else if da_task a \<noteq> rd_task d
            then Inl (ValueError ''prepared dispatch Task identity must match reconciliation decision'')
            else if rd_worker_evidence d \<noteq> None
            then Inl (ValueError ''prepared dispatch cannot coexist with terminal worker evidence'')
            else Inr d)
      else if rd_publish_allowed d
      then Inl (ValueError ''only a newly PREPARED_DISPATCH may authorize broker publication'')
      else if rd_recovery_attempt d
      then Inl (ValueError ''only a newly PREPARED_DISPATCH may be marked as a recovery attempt'')
      else Inr d)"

definition TaskReconciliationDecision :: "task_reconciliation_decision \<Rightarrow> task_reconciliation_decision res" where
  "TaskReconciliationDecision d =
     (if \<not> text_between 128 (rd_task d) then Inl (ValueError ''task_id'')
      else if \<not> text_between 1000 (rd_reason d) then Inl (ValueError ''reason'')
      else if rd_generation d < 0 then Inl (ValueError ''lease_generation'')
      else if \<not> opt_all (\<lambda>i. 1 \<le> i) (rd_worker_evidence d) then Inl (ValueError ''terminal_worker_evidence_id'')
      else validate_decision_shape d)"

record task_reconciliation_outcome =
  ro_decision :: task_reconciliation_decision
  ro_receipt :: "task_dispatch_receipt option"

definition TaskReconciliationOutcome :: "task_reconciliation_outcome \<Rightarrow> task_reconciliation_outcome res" where
  "TaskReconciliationOutcome r = (case ro_receipt r of None \<Rightarrow> Inr r
   | Some receipt \<Rightarrow>
       if rd_action (ro_decision r) \<noteq> PREPARED_DISPATCH
       then Inl (ValueError ''only PREPARED_DISPATCH reconciliation may return a broker receipt'')
       else if rc_run receipt \<noteq> rd_run (ro_decision r)
       then Inl (ValueError ''reconciliation receipt Run identity mismatch'')
       else if rc_task receipt \<noteq> rd_task (ro_decision r)
       then Inl (ValueError ''reconciliation receipt Task identity mismatch'')
       else if \<not> (case rd_attempt (ro_decision r) of None \<Rightarrow> False | Some a \<Rightarrow> rc_dispatch receipt = da_id a)
       then Inl (ValueError ''reconciliation receipt dispatch identity mismatch'')
       else Inr r)"

definition decision ::
    "uuid \<Rightarrow> task_row \<Rightarrow> timestamp \<Rightarrow> task_reconciliation_action \<Rightarrow> string \<Rightarrow> int option
     \<Rightarrow> dispatch_attempt option \<Rightarrow> bool \<Rightarrow> bool \<Rightarrow> task_reconciliation_decision res" where
  "decision rid row observed_at action reason worker_evidence attempt publish_allowed recovery =
     TaskReconciliationDecision
       \<lparr>rd_run = rid, rd_task = tr_task row, rd_observed_at = observed_at, rd_action = action,
        rd_reason = reason, rd_generation = lease_generation row, rd_current_dispatch = lease_dispatch_id row,
        rd_worker_evidence = worker_evidence, rd_attempt = attempt, rd_publish_allowed = publish_allowed,
        rd_recovery_attempt = recovery\<rparr>"

definition state_value :: "dispatch_attempt_state \<Rightarrow> string" where
  "state_value s = (case s of REQUESTED \<Rightarrow> ''REQUESTED'' | ENQUEUED \<Rightarrow> ''ENQUEUED''
     | PUBLISH_FAILED \<Rightarrow> ''PUBLISH_FAILED'')"

definition existing_dispatch_decision ::
    "uuid \<Rightarrow> task_row \<Rightarrow> timestamp \<Rightarrow> dispatch_attempt \<Rightarrow> string \<Rightarrow> task_reconciliation_decision res" where
  "existing_dispatch_decision rid row observed_at attempt reason_prefix =
     (if da_state attempt = PUBLISH_FAILED
      then decision rid row observed_at BLOCKED_PUBLISH_FAILED
        (reason_prefix @ ''; PUBLISH_FAILED is an observed broker error, not proof of non-delivery, so automatic redispatch remains blocked.'')
        None (Some attempt) False False
      else decision rid row observed_at WAIT_EXISTING_DISPATCH
        (reason_prefix @ ''; '' @ state_value (da_state attempt) @
         '' must settle through the existing dispatch identity rather than another broker publication.'')
        None (Some attempt) False False)"

section \<open>Locked reads\<close>

definition locked_attempt_rows :: "uuid \<Rightarrow> task_id \<Rightarrow> 'z dispatch_store_scheme \<Rightarrow> dispatch_attempt list" where
  "locked_attempt_rows rid tid db = sort_key da_number (task_attempts rid tid db)"

definition locked_attempts :: "uuid \<Rightarrow> task_id \<Rightarrow> 'z dispatch_store_scheme \<Rightarrow> dispatch_attempt list res" where
  "locked_attempts rid tid db = map_res decode_attempt (locked_attempt_rows rid tid db)"

definition validate_attempt_history :: "dispatch_attempt list \<Rightarrow> unit res" where
  "validate_attempt_history attempts =
     (if map da_number attempts \<noteq> [1 .. int (length attempts)]
      then Inl (PersistenceCorruptionError ''dispatch attempt numbers must be contiguous from one'')
      else Inr ())"

definition attempt_for_dispatch :: "dispatch_attempt list \<Rightarrow> uuid \<Rightarrow> dispatch_attempt option" where
  "attempt_for_dispatch attempts d = find (\<lambda>a. da_id a = d) attempts"

definition validate_task_lease_shape :: "task_row \<Rightarrow> unit res" where
  "validate_task_lease_shape row =
     (if lease_owner row = None then
        if lease_dispatch_id row \<noteq> None \<or> run_token row \<noteq> None \<or> lease_acquired_at row \<noteq> None \<or>
           heartbeat_at row \<noteq> None \<or> lease_until row \<noteq> None \<or> lease_released_at row \<noteq> None \<or>
           lease_generation row \<noteq> 0
        then Inl (PersistenceCorruptionError ''UNOWNED task row has impossible lease fields'')
        else Inr ()
      else if lease_dispatch_id row = None \<or> run_token row = None \<or> lease_acquired_at row = None \<or>
           heartbeat_at row = None \<or> lease_until row = None \<or> lease_generation row < 1
      then Inl (PersistenceCorruptionError ''owned task row has incomplete lease authority'')
      else Inr ())"

section \<open>Worker-side evidence\<close>

definition assert_worker_identity ::
    "uuid \<Rightarrow> task_id \<Rightarrow> uuid \<Rightarrow> uuid \<Rightarrow> task_id \<Rightarrow> uuid list \<Rightarrow> unit res" where
  "assert_worker_identity payload_run payload_task payload_dispatch rid tid known_dispatches =
     (if payload_run \<noteq> rid \<or> payload_task \<noteq> tid
      then Inl (PersistenceCorruptionError ''worker-side evidence payload identity disagrees with locked Run/Task'')
      else if payload_dispatch \<notin> set known_dispatches
      then Inl (PersistenceCorruptionError ''worker-side evidence refers to a dispatch missing from the durable ledger'')
      else Inr ())"

text \<open>The two dictionaries the loop fills, in insertion order.\<close>

record worker_side =
  ws_workers :: "(uuid \<times> int \<times> worker_execution_evidence) list"
  ws_dispatches :: "(uuid \<times> (worker_dispatch_phase \<times> int) list) list"

definition phases_of :: "worker_side \<Rightarrow> uuid \<Rightarrow> (worker_dispatch_phase \<times> int) list" where
  "phases_of w d = (case map_of (ws_dispatches w) d of None \<Rightarrow> [] | Some ps \<Rightarrow> ps)"

definition worker_row ::
    "(json \<Rightarrow> digest) \<Rightarrow> uuid \<Rightarrow> task_id \<Rightarrow> uuid list \<Rightarrow> evidence_row \<Rightarrow> worker_side \<Rightarrow> worker_side res" where
  "worker_row sha rid tid known row w =
     bind_res (verify_payload_hash sha (payload_json (ei_payload row)) (ei_sha256 row)) (\<lambda>_.
       let invalid = Inl (PersistenceCorruptionError ''worker-side evidence failed reconciliation validation'') in
       if ei_kind row = WORKER_EXECUTION then
         (case ei_payload row of
           WorkerPayload p \<Rightarrow> (case WorkerExecutionEvidence p of
               Inl e \<Rightarrow> invalid
             | Inr payload \<Rightarrow> bind_res (assert_worker_identity (we_run payload) (we_task payload)
                   (we_dispatch payload) rid tid known) (\<lambda>_.
                 if we_dispatch payload \<in> fst ` set (ws_workers w)
                 then Inl (PersistenceCorruptionError ''multiple terminal WORKER_EXECUTION rows exist for one dispatch'')
                 else Inr (w\<lparr>ws_workers := ws_workers w @ [(we_dispatch payload, ei_id row, payload)]\<rparr>)))
         | _ \<Rightarrow> invalid)
       else if ei_kind row \<noteq> DISPATCH_EVENT
       then Inl (PersistenceCorruptionError ''unexpected worker-side evidence kind reached reconciliation'')
       else (case ei_payload row of
           DispatchPayload p \<Rightarrow> (case WorkerDispatchEvent p of
               Inl e \<Rightarrow> invalid
             | Inr event \<Rightarrow> bind_res (assert_worker_identity (wd_run event) (wd_task event)
                   (wd_dispatch event) rid tid known) (\<lambda>_.
                 let phases = phases_of w (wd_dispatch event) in
                 if wd_phase event \<in> fst ` set phases
                 then Inl (PersistenceCorruptionError ''duplicate worker dispatch phase evidence exists for one dispatch'')
                 else Inr (w\<lparr>ws_dispatches :=
                   AList.update (wd_dispatch event) (phases @ [(wd_phase event, ei_id row)]) (ws_dispatches w)\<rparr>)))
         | _ \<Rightarrow> invalid))"

definition validated_worker_side_evidence ::
    "(json \<Rightarrow> digest) \<Rightarrow> uuid \<Rightarrow> task_id \<Rightarrow> dispatch_attempt list \<Rightarrow> 'z evidence_store_scheme
     \<Rightarrow> worker_side res" where
  "validated_worker_side_evidence sha rid tid attempts db =
     (let rows = sort_key ei_id (filter (\<lambda>e. ei_run e = rid \<and> ei_task e = Some tid \<and>
            (ei_kind e = WORKER_EXECUTION \<or> ei_kind e = DISPATCH_EVENT)) (st_evidence db))
      in bind_res (fold_res (worker_row sha rid tid (map da_id attempts)) rows
             \<lparr>ws_workers = [], ws_dispatches = []\<rparr>) (\<lambda>w.
           if \<exists>(d, phases) \<in> set (ws_dispatches w). COMPLETED \<in> fst ` set phases \<and> d \<notin> fst ` set (ws_workers w)
           then Inl (PersistenceCorruptionError ''COMPLETED dispatch evidence exists without terminal WORKER_EXECUTION evidence'')
           else Inr w))"

section \<open>Preparing a recovery\<close>

text \<open>The owned branch of \<open>prepare_task\<close>: the lease names a dispatch.\<close>

definition prepare_owned ::
    "timestamp \<Rightarrow> uuid \<Rightarrow> uuid \<Rightarrow> task_row \<Rightarrow> uuid \<Rightarrow> dispatch_attempt list \<Rightarrow> worker_side
     \<Rightarrow> 'z dispatch_store_scheme \<Rightarrow> ('z, task_reconciliation_decision) dispatch_tx" where
  "prepare_owned observed_at new_id rid row lease_dispatch attempts w db =
     (let keep = (\<lambda>m. bind_res m (\<lambda>d. Inr (db, d))) in
      case attempt_for_dispatch attempts lease_dispatch of
        None \<Rightarrow> Inl (PersistenceCorruptionError ''owned V1.1 task lease refers to a dispatch missing from the durable ledger'')
      | Some current \<Rightarrow>
          (case map_of (ws_workers w) lease_dispatch of
            Some (evidence_id, _) \<Rightarrow> keep (decision rid row observed_at RESUME_TERMINAL_EVIDENCE
              ''Terminal WORKER_EXECUTION evidence exists for the current dispatch; reconciliation must resume downstream instead of rerunning the task.''
              (Some evidence_id) (Some current) False False)
          | None \<Rightarrow>
              if lease_released_at row \<noteq> None
              then keep (decision rid row observed_at BLOCKED_RELEASED_EVIDENCE_GAP
                ''Current lease generation is RELEASED without terminal worker evidence; reconciliation cannot silently reopen released ownership history.''
                None (Some current) False False)
              else (case lease_until row of
                None \<Rightarrow> Inl (AssertionError ''task.lease_until is not None'')
              | Some until \<Rightarrow>
                  if observed_at < until
                  then keep (decision rid row observed_at WAIT_ACTIVE_OWNER
                    ''Current lease generation is ACTIVE under fresh database time; reconciliation must not race the live owner.''
                    None (Some current) False False)
                  else (case filter (\<lambda>a. da_number current < da_number a) attempts of
                      [newer] \<Rightarrow> keep (existing_dispatch_decision rid row observed_at newer
                        ''Expired generation already has a newer durable dispatch attempt'')
                    | [] \<Rightarrow> bind_res (insert_attempt new_id rid (tr_task row) (da_number (last attempts) + 1)
                          observed_at db) (\<lambda>(db', a).
                        bind_res (decision rid row observed_at PREPARED_DISPATCH
                          ''Current lease generation is EXPIRED with no terminal worker evidence and no newer dispatch; locked reconciliation prepared one fresh recovery attempt.''
                          None (Some a) True True) (\<lambda>d. Inr (db', d)))
                    | _ \<Rightarrow> Inl (PersistenceCorruptionError ''multiple dispatch attempts exist beyond the current lease generation'')))))"

definition prepare_unowned ::
    "timestamp \<Rightarrow> uuid \<Rightarrow> uuid \<Rightarrow> task_row \<Rightarrow> dispatch_attempt list \<Rightarrow> worker_side
     \<Rightarrow> 'z dispatch_store_scheme \<Rightarrow> ('z, task_reconciliation_decision) dispatch_tx" where
  "prepare_unowned observed_at new_id rid row attempts w db =
     (if ws_workers w \<noteq> [] \<or> ws_dispatches w \<noteq> []
      then Inl (PersistenceCorruptionError ''UNOWNED task contains worker-side evidence'')
      else if attempts \<noteq> []
      then bind_res (existing_dispatch_decision rid row observed_at (last attempts)
             ''UNOWNED task already has durable dispatch intent'') (\<lambda>d. Inr (db, d))
      else bind_res (insert_attempt new_id rid (tr_task row) 1 observed_at db) (\<lambda>(db', a).
        bind_res (decision rid row observed_at PREPARED_DISPATCH
          ''UNOWNED task has no durable dispatch history; locked reconciliation prepared the first dispatch attempt.''
          None (Some a) True False) (\<lambda>d. Inr (db', d))))"

definition prepare_task ::
    "(json \<Rightarrow> digest) \<Rightarrow> timestamp \<Rightarrow> uuid \<Rightarrow> uuid \<Rightarrow> string \<Rightarrow> 'z dispatch_store_scheme
     \<Rightarrow> ('z, task_reconciliation_decision) dispatch_tx" where
  "prepare_task sha observed_at new_id rid tid db =
     bind_res (required_text 128 tid) (\<lambda>task_name.
     bind_res (locked_run rid db) (\<lambda>run.
     bind_res (locked_task rid task_name db) (\<lambda>row.
     bind_res (validate_task_lease_shape row) (\<lambda>_.
       if rr_status run \<noteq> RUNNING
       then bind_res (decision rid row observed_at NO_ACTION_RUN_TERMINAL
              ''Persisted Run is terminal; reconciliation cannot reopen it.'' None None False False)
            (\<lambda>d. Inr (db, d))
       else
         bind_res (locked_attempts rid task_name db) (\<lambda>attempts.
         bind_res (validate_attempt_history attempts) (\<lambda>_.
         bind_res (validated_worker_side_evidence sha rid task_name attempts db) (\<lambda>w.
           if lease_owner row = None then prepare_unowned observed_at new_id rid row attempts w db
           else (case lease_dispatch_id row of
               None \<Rightarrow> Inl (AssertionError ''task.lease_dispatch_id is not None'')
             | Some d \<Rightarrow> prepare_owned observed_at new_id rid row d attempts w db))))))))"

section \<open>Publishing a prepared dispatch\<close>

definition guard_unowned :: "dispatch_attempt list \<Rightarrow> dispatch_attempt \<Rightarrow> worker_side \<Rightarrow> unit res" where
  "guard_unowned attempts target w =
     (if ws_workers w \<noteq> [] \<or> ws_dispatches w \<noteq> []
      then Inl (PersistenceCorruptionError ''UNOWNED task contains worker-side evidence'')
      else if length attempts \<noteq> 1 \<or> da_number target \<noteq> 1
      then Inl (PersistenceConflictError ''UNOWNED publication guard requires the unique initial dispatch attempt'')
      else Inr ())"

definition guard_owned ::
    "timestamp \<Rightarrow> task_row \<Rightarrow> uuid \<Rightarrow> dispatch_attempt list \<Rightarrow> dispatch_attempt \<Rightarrow> worker_side \<Rightarrow> unit res" where
  "guard_owned observed_at row lease_dispatch attempts target w =
     (case attempt_for_dispatch attempts lease_dispatch of
        None \<Rightarrow> Inl (PersistenceCorruptionError ''owned task lease refers to a dispatch missing from the durable ledger'')
      | Some current \<Rightarrow>
          if map_of (ws_workers w) lease_dispatch \<noteq> None
          then Inl (PersistenceConflictError ''terminal worker evidence arrived after recovery prepare; rerun is forbidden'')
          else if lease_released_at row \<noteq> None
          then Inl (PersistenceConflictError ''prepared recovery became stale because lease ownership is RELEASED'')
          else (case lease_until row of
              None \<Rightarrow> Inl (AssertionError ''task.lease_until is not None'')
            | Some until \<Rightarrow>
                if observed_at < until
                then Inl (PersistenceConflictError ''prepared recovery became stale because the prior generation is ACTIVE'')
                else if da_number target \<noteq> da_number current + 1
                then Inl (PersistenceConflictError ''prepared recovery attempt is not exactly one generation-attempt ahead'')
                else (case filter (\<lambda>a. da_number current < da_number a) attempts of
                    [newer] \<Rightarrow> if da_id newer \<noteq> da_id target
                      then Inl (PersistenceConflictError ''prepared recovery no longer uniquely represents the next dispatch attempt'')
                      else Inr ()
                  | _ \<Rightarrow> Inl (PersistenceConflictError ''prepared recovery no longer uniquely represents the next dispatch attempt''))))"

text \<open>The checks on entry of \<open>guard_prepared_publication\<close>; its value is the locked row of the attempt.\<close>

definition guard_prepared_publication ::
    "(json \<Rightarrow> digest) \<Rightarrow> timestamp \<Rightarrow> uuid \<Rightarrow> string \<Rightarrow> uuid \<Rightarrow> 'z dispatch_store_scheme
     \<Rightarrow> dispatch_attempt res" where
  "guard_prepared_publication sha observed_at rid tid d db =
     bind_res (required_text 128 tid) (\<lambda>task_name.
     bind_res (locked_run rid db) (\<lambda>run.
     bind_res (locked_task rid task_name db) (\<lambda>row.
     bind_res (validate_task_lease_shape row) (\<lambda>_.
       if rr_status run \<noteq> RUNNING
       then Inl (PersistenceConflictError ''prepared reconciliation became stale because the Run is no longer RUNNING'')
       else
         bind_res (locked_attempts rid task_name db) (\<lambda>attempts.
         bind_res (validate_attempt_history attempts) (\<lambda>_.
           if attempts = [] \<or> da_id (last attempts) \<noteq> d
           then Inl (PersistenceConflictError ''prepared reconciliation is stale because a different latest dispatch exists'')
           else let target = last attempts in
             if da_state target \<noteq> REQUESTED
             then Inl (PersistenceConflictError ''prepared reconciliation dispatch is no longer unresolved REQUESTED intent'')
             else bind_res (validated_worker_side_evidence sha rid task_name attempts db) (\<lambda>w.
               if d \<in> fst ` set (ws_workers w) \<or> d \<in> fst ` set (ws_dispatches w)
               then Inl (PersistenceConflictError ''prepared dispatch already has worker-side evidence and cannot be published again'')
               else bind_res
                 (if lease_owner row = None then guard_unowned attempts target w
                  else (case lease_dispatch_id row of
                      None \<Rightarrow> Inl (AssertionError ''task.lease_dispatch_id is not None'')
                    | Some ld \<Rightarrow> guard_owned observed_at row ld attempts target w)) (\<lambda>_.
                 Inr target))))))))"

text \<open>\<open>PreparedDispatchPublication\<close>: the locked row and whether its outcome is recorded.\<close>

record prepared_dispatch_publication =
  pp_row :: dispatch_attempt
  pp_resolved :: bool

definition publication_mark_enqueued ::
    "timestamp \<Rightarrow> string \<Rightarrow> string \<Rightarrow> prepared_dispatch_publication \<Rightarrow> 'z dispatch_store_scheme
     \<Rightarrow> ('z, prepared_dispatch_publication \<times> dispatch_attempt) dispatch_tx" where
  "publication_mark_enqueued observed_at broker_message_id queue_name p db =
     (if pp_resolved p \<or> da_state (pp_row p) \<noteq> REQUESTED
      then Inl (PersistenceConflictError ''prepared dispatch publication is already resolved'')
      else bind_res (required_text 128 broker_message_id) (\<lambda>message_id.
        bind_res (required_text 128 queue_name) (\<lambda>queue.
          let row = enqueued_row observed_at message_id queue (pp_row p) in
          bind_res (write_outcome row db) (\<lambda>(db', a).
            Inr (db', \<lparr>pp_row = row, pp_resolved = True\<rparr>, a)))))"

definition publication_mark_publish_failed ::
    "timestamp \<Rightarrow> string \<Rightarrow> string \<Rightarrow> prepared_dispatch_publication \<Rightarrow> 'z dispatch_store_scheme
     \<Rightarrow> ('z, prepared_dispatch_publication \<times> dispatch_attempt) dispatch_tx" where
  "publication_mark_publish_failed observed_at error_code error_message p db =
     (if pp_resolved p \<or> da_state (pp_row p) \<noteq> REQUESTED
      then Inl (PersistenceConflictError ''prepared dispatch publication is already resolved'')
      else bind_res (required_text 64 error_code) (\<lambda>code.
        bind_res (required_text 512 error_message) (\<lambda>message.
          let row = failed_row observed_at code message (pp_row p) in
          bind_res (write_outcome row db) (\<lambda>(db', a).
            Inr (db', \<lparr>pp_row = row, pp_resolved = True\<rparr>, a)))))"

section \<open>The reconciler\<close>

definition RECONCILER_BROKER_ERROR_MESSAGE :: string where
  "RECONCILER_BROKER_ERROR_MESSAGE = ''Dramatiq broker could not accept reconciliation dispatch''"

definition assert_publication_identity :: "prepared_dispatch_publication \<Rightarrow> uuid \<Rightarrow> unit res" where
  "assert_publication_identity p d =
     (if da_id (pp_row p) \<noteq> d
      then Inl (RuntimeError ''locked publication dispatch identity changed unexpectedly'') else Inr ())"

text \<open>
  The body of the \<open>async with\<close> block, one transaction: the result is the committed store, the
  receipt or \<open>None\<close> after a broker error. An exception rolls it back; an envelope may then already
  be with the broker.
\<close>

definition publish_prepared ::
    "(json \<Rightarrow> digest) \<Rightarrow> timestamp \<Rightarrow> timestamp \<Rightarrow> string option \<Rightarrow> string \<Rightarrow> uuid \<Rightarrow> string \<Rightarrow> uuid
     \<Rightarrow> 'z dispatch_store_scheme \<Rightarrow> ('z, task_dispatch_receipt option) dispatch_tx" where
  "publish_prepared sha t1 t2 sent queue rid tid d db =
     bind_res (guard_prepared_publication sha t1 rid tid d db) (\<lambda>row.
       let p = \<lparr>pp_row = row, pp_resolved = False\<rparr> in
       bind_res (assert_publication_identity p d) (\<lambda>_.
       bind_res (TaskDispatchEnvelope \<lparr>te_dispatch = d, te_run = rid, te_task = tid\<rparr>) (\<lambda>e.
         case sent of
           None \<Rightarrow> bind_res (publication_mark_publish_failed t2 BROKER_ERROR_CODE
               RECONCILER_BROKER_ERROR_MESSAGE p db) (\<lambda>(db', _). Inr (db', None))
         | Some message_id \<Rightarrow> bind_res (publication_mark_enqueued t2 message_id queue p db) (\<lambda>(db', _, a).
             bind_res (TaskDispatchReceipt \<lparr>rc_dispatch = da_id a, rc_run = da_run a, rc_task = da_task a,
                 rc_message_id = (case da_message_id a of None \<Rightarrow> [] | Some m \<Rightarrow> m),
                 rc_queue_name = (case da_queue_name a of None \<Rightarrow> [] | Some q \<Rightarrow> q)\<rparr>) (\<lambda>r.
               Inr (db', Some r))))))"

text \<open>
  \<open>reconcile\<close>: between its two transactions other processes may commit, which the argument
  \<open>interleaved\<close> stands for.
\<close>

definition reconcile ::
    "(json \<Rightarrow> digest) \<Rightarrow> timestamp \<Rightarrow> uuid \<Rightarrow> timestamp \<Rightarrow> timestamp \<Rightarrow> string option \<Rightarrow> string
     \<Rightarrow> ('z dispatch_store_scheme \<Rightarrow> 'z dispatch_store_scheme) \<Rightarrow> uuid \<Rightarrow> string \<Rightarrow> 'z dispatch_store_scheme
     \<Rightarrow> task_reconciliation_outcome res \<times> 'z dispatch_store_scheme" where
  "reconcile sha t0 new_id t1 t2 sent queue interleaved rid tid db =
     (case prepare_task sha t0 new_id rid tid db of
        Inl e \<Rightarrow> (Inl e, db)
      | Inr (db1, d) \<Rightarrow>
          if rd_action d \<noteq> PREPARED_DISPATCH
          then (TaskReconciliationOutcome \<lparr>ro_decision = d, ro_receipt = None\<rparr>, db1)
          else (case rd_attempt d of
              None \<Rightarrow> (Inl (RuntimeError ''prepared reconciliation is missing durable publication authority''), db1)
            | Some a \<Rightarrow>
                if \<not> rd_publish_allowed d
                then (Inl (RuntimeError ''prepared reconciliation is missing durable publication authority''), db1)
                else
                  (let db2 = interleaved db1 in
                   case publish_prepared sha t1 t2 sent queue rid tid (da_id a) db2 of
                     Inl e \<Rightarrow> (Inl e, db2)
                   | Inr (db3, None) \<Rightarrow> (Inl (TaskDispatchBrokerError RECONCILER_BROKER_ERROR_MESSAGE), db3)
                   | Inr (db3, Some receipt) \<Rightarrow>
                       (TaskReconciliationOutcome \<lparr>ro_decision = d, ro_receipt = Some receipt\<rparr>, db3))))"

section \<open>What the locked reads return\<close>

lemma sorted_numbers_sort_key: "map f xs = [1 .. n] \<Longrightarrow> sort_key f xs = xs"
  for f :: "'a \<Rightarrow> int"
  by (intro sort_key_id_if_sorted) simp

lemma locked_attempts_ok:
  assumes "ledger_inv db"
  shows "locked_attempts rid tid db = Inr (task_attempts rid tid db)"
    and "validate_attempt_history (task_attempts rid tid db) = Inr ()"
proof -
  have num: "map da_number (task_attempts rid tid db) = [1 .. int (length (task_attempts rid tid db))]"
    using assms by (simp add: ledger_inv_def)
  have "list_all2 (\<lambda>x y. decode_attempt x = Inr y) (task_attempts rid tid db) (task_attempts rid tid db)"
    using assms
    by (auto simp: list_all2_same task_attempts_def decode_attempt_Inr ledger_inv_def)
  then show "locked_attempts rid tid db = Inr (task_attempts rid tid db)"
    by (simp add: locked_attempts_def locked_attempt_rows_def sorted_numbers_sort_key [OF num] map_res_Inr_iff)
  show "validate_attempt_history (task_attempts rid tid db) = Inr ()"
    using num by (simp add: validate_attempt_history_def)
qed

lemma last_attempt_number:
  assumes "ledger_inv db" and "task_attempts rid tid db \<noteq> []"
  shows "da_number (last (task_attempts rid tid db)) = int (length (task_attempts rid tid db))"
proof -
  let ?as = "task_attempts rid tid db"
  have "map da_number ?as = [1 .. int (length ?as)]" using assms by (simp add: ledger_inv_def)
  then have "last (map da_number ?as) = last [1 .. int (length ?as)]" by simp
  moreover have "1 \<le> int (length ?as)" using assms(2) by (cases ?as) auto
  ultimately show ?thesis using assms(2) by (simp add: last_map upto_rec2)
qed

lemma find_prefix: "find P xs = Some x \<Longrightarrow> find P (xs @ ys) = Some x"
  by (induction xs) auto

lemma attempt_for_dispatch_Some:
  "attempt_for_dispatch as d = Some a \<Longrightarrow> a \<in> set as \<and> da_id a = d"
  by (auto simp: attempt_for_dispatch_def find_Some_iff)

lemma decision_Inr:
  assumes "decision rid row t action reason ev att pub rec = Inr d"
  shows "rd_run d = rid \<and> rd_task d = tr_task row \<and> rd_observed_at d = t \<and> rd_action d = action \<and>
    rd_worker_evidence d = ev \<and> rd_attempt d = att \<and> rd_publish_allowed d = pub \<and> rd_recovery_attempt d = rec"
  using assms
  by (auto simp: decision_def TaskReconciliationDecision_def validate_decision_shape_def
      split: if_splits option.splits)

lemma existing_decision_Inr:
  assumes "existing_dispatch_decision rid row t a reason = Inr d"
  shows "rd_action d = (if da_state a = PUBLISH_FAILED then BLOCKED_PUBLISH_FAILED else WAIT_EXISTING_DISPATCH) \<and>
    rd_attempt d = Some a \<and> \<not> rd_publish_allowed d"
  using assms by (auto simp: existing_dispatch_decision_def dest: decision_Inr split: if_splits)

text \<open>A row that satisfies the lease constraint passes the shape check of recovery.\<close>

lemma lease_shape_validates: "lease_shape row \<Longrightarrow> validate_task_lease_shape row = Inr ()"
  unfolding lease_shape_def validate_task_lease_shape_def by (elim disjE conjE) simp_all

section \<open>Worker-side evidence\<close>

text \<open>The dispatches that a task has terminal evidence, or any worker-side evidence, for.\<close>

definition worker_rows :: "uuid \<Rightarrow> task_id \<Rightarrow> 'z evidence_store_scheme \<Rightarrow> evidence_row list" where
  "worker_rows rid tid db = sort_key ei_id (filter (\<lambda>e. ei_run e = rid \<and> ei_task e = Some tid \<and>
     (ei_kind e = WORKER_EXECUTION \<or> ei_kind e = DISPATCH_EVENT)) (st_evidence db))"

definition executed_dispatches :: "evidence_row list \<Rightarrow> uuid set" where
  "executed_dispatches rows = {we_dispatch p | e p. e \<in> set rows \<and> ei_payload e = WorkerPayload p}"

definition observed_dispatches :: "evidence_row list \<Rightarrow> uuid set" where
  "observed_dispatches rows = {wd_dispatch p | e p. e \<in> set rows \<and> ei_payload e = DispatchPayload p}"

lemma dispatches_Cons:
  "executed_dispatches (e # rows) =
     (case ei_payload e of WorkerPayload p \<Rightarrow> {we_dispatch p} | _ \<Rightarrow> {}) \<union> executed_dispatches rows"
  "observed_dispatches (e # rows) =
     (case ei_payload e of DispatchPayload p \<Rightarrow> {wd_dispatch p} | _ \<Rightarrow> {}) \<union> observed_dispatches rows"
  by (auto simp: executed_dispatches_def observed_dispatches_def split: evidence_payload.splits)

lemma validated_evidence_ids:
  "WorkerExecutionEvidence p = Inr q \<Longrightarrow> q = p" "WorkerDispatchEvent v = Inr w \<Longrightarrow> w = v"
  by (auto simp: WorkerExecutionEvidence_def WorkerDispatchEvent_def split: if_splits)

lemma worker_row_cases:
  assumes "worker_row sha rid tid known e w = Inr w'"
  obtains (execution) p where "ei_kind e = WORKER_EXECUTION" "ei_payload e = WorkerPayload p"
      "WorkerExecutionEvidence p = Inr p" "we_dispatch p \<in> set known"
      "w' = w\<lparr>ws_workers := ws_workers w @ [(we_dispatch p, ei_id e, p)]\<rparr>"
      "\<And>known'. we_dispatch p \<in> set known' \<Longrightarrow> worker_row sha rid tid known' e w = Inr w'"
  | (event) p where "ei_kind e = DISPATCH_EVENT" "ei_payload e = DispatchPayload p"
      "WorkerDispatchEvent p = Inr p" "wd_dispatch p \<in> set known"
      "w' = w\<lparr>ws_dispatches := AList.update (wd_dispatch p)
         (phases_of w (wd_dispatch p) @ [(wd_phase p, ei_id e)]) (ws_dispatches w)\<rparr>"
      "\<And>known'. wd_dispatch p \<in> set known' \<Longrightarrow> worker_row sha rid tid known' e w = Inr w'"
proof (cases "ei_payload e")
  case (WorkerPayload p)
  from assms WorkerPayload have k: "ei_kind e = WORKER_EXECUTION"
    by (auto simp: worker_row_def bind_res_eq_Inr Let_def simp del: payload_json.simps split: if_splits)
  from assms WorkerPayload k obtain q where q: "WorkerExecutionEvidence p = Inr q"
    by (auto simp: worker_row_def bind_res_eq_Inr Let_def simp del: payload_json.simps split: sum.splits)
  with validated_evidence_ids(1) have "q = p" by blast
  with assms WorkerPayload k q show ?thesis
    by (intro execution [of p])
      (auto simp: worker_row_def bind_res_eq_Inr Let_def assert_worker_identity_def
        simp del: payload_json.simps split: if_splits)
next
  case (DispatchPayload p)
  from assms DispatchPayload have k: "ei_kind e = DISPATCH_EVENT"
    by (auto simp: worker_row_def bind_res_eq_Inr Let_def simp del: payload_json.simps split: if_splits)
  from assms DispatchPayload k obtain q where q: "WorkerDispatchEvent p = Inr q"
    by (auto simp: worker_row_def bind_res_eq_Inr Let_def simp del: payload_json.simps split: sum.splits)
  with validated_evidence_ids(2) have "q = p" by blast
  with assms DispatchPayload k q show ?thesis
    by (intro event [of p])
      (auto simp: worker_row_def bind_res_eq_Inr Let_def assert_worker_identity_def
        simp del: payload_json.simps split: if_splits)
next
  case (ModelPayload k j)
  with assms show ?thesis
    by (auto simp: worker_row_def bind_res_eq_Inr Let_def simp del: payload_json.simps split: if_splits)
qed

lemma worker_row_Inr:
  assumes "worker_row sha rid tid known e w = Inr w'"
  shows "fst ` set (ws_workers w') = fst ` set (ws_workers w) \<union> executed_dispatches [e] \<and>
    fst ` set (ws_dispatches w') = fst ` set (ws_dispatches w) \<union> observed_dispatches [e] \<and>
    (set known \<subseteq> set known' \<longrightarrow> worker_row sha rid tid known' e w = Inr w')"
  using assms
proof (cases rule: worker_row_cases)
  case (execution p)
  moreover have "executed_dispatches [e] = {we_dispatch p}" "observed_dispatches [e] = {}"
    using execution(2) by (auto simp: executed_dispatches_def observed_dispatches_def)
  ultimately show ?thesis by auto
next
  case (event p)
  moreover have "executed_dispatches [e] = {}" "observed_dispatches [e] = {wd_dispatch p}"
    using event(2) by (auto simp: executed_dispatches_def observed_dispatches_def)
  ultimately show ?thesis by (auto simp: dom_update)
qed

lemma worker_rows_fold:
  assumes "fold_res (worker_row sha rid tid known) rows w = Inr w'"
  shows "fst ` set (ws_workers w') = fst ` set (ws_workers w) \<union> executed_dispatches rows \<and>
    fst ` set (ws_dispatches w') = fst ` set (ws_dispatches w) \<union> observed_dispatches rows \<and>
    (set known \<subseteq> set known' \<longrightarrow> fold_res (worker_row sha rid tid known') rows w = Inr w')"
  using assms
proof (induction rows arbitrary: w)
  case Nil
  then show ?case by (simp add: executed_dispatches_def observed_dispatches_def)
next
  case (Cons e rows)
  then obtain w1 where w1: "worker_row sha rid tid known e w = Inr w1"
    and rest: "fold_res (worker_row sha rid tid known) rows w1 = Inr w'"
    by (auto simp: bind_res_eq_Inr)
  have split: "executed_dispatches (e # rows) = executed_dispatches [e] \<union> executed_dispatches rows"
    "observed_dispatches (e # rows) = observed_dispatches [e] \<union> observed_dispatches rows"
    by (simp_all add: dispatches_Cons executed_dispatches_def [of "[]"] observed_dispatches_def [of "[]"])
  from worker_row_Inr [OF w1, of known'] Cons.IH [OF rest]
  show ?case unfolding split by (simp add: Un_assoc)
qed

lemma validated_evidence_Inr:
  assumes "validated_worker_side_evidence sha rid tid as db = Inr w"
  shows "fst ` set (ws_workers w) = executed_dispatches (worker_rows rid tid db)"
    and "fst ` set (ws_dispatches w) = observed_dispatches (worker_rows rid tid db)"
    and "set as \<subseteq> set bs \<Longrightarrow> validated_worker_side_evidence sha rid tid bs db = Inr w"
proof -
  from assms have fold: "fold_res (worker_row sha rid tid (map da_id as)) (worker_rows rid tid db)
      \<lparr>ws_workers = [], ws_dispatches = []\<rparr> = Inr w"
    and ok: "\<not> (\<exists>(d, phases) \<in> set (ws_dispatches w). COMPLETED \<in> fst ` set phases \<and> d \<notin> fst ` set (ws_workers w))"
    by (auto simp: validated_worker_side_evidence_def worker_rows_def bind_res_eq_Inr Let_def split: if_splits)
  note f = worker_rows_fold [OF fold, of "map da_id bs"]
  from f show "fst ` set (ws_workers w) = executed_dispatches (worker_rows rid tid db)"
    and "fst ` set (ws_dispatches w) = observed_dispatches (worker_rows rid tid db)"
    by simp_all
  assume "set as \<subseteq> set bs"
  then have "set (map da_id as) \<subseteq> set (map da_id bs)" by auto
  with f have "fold_res (worker_row sha rid tid (map da_id bs)) (worker_rows rid tid db)
      \<lparr>ws_workers = [], ws_dispatches = []\<rparr> = Inr w" by blast
  then show "validated_worker_side_evidence sha rid tid bs db = Inr w"
    unfolding validated_worker_side_evidence_def Let_def worker_rows_def [symmetric] using ok by simp
qed

section \<open>What a decision rests on\<close>

text \<open>The reads of \<open>prepare_task\<close> and \<open>guard_prepared_publication\<close>, and the branch they take.\<close>

definition recovery_reads ::
    "(json \<Rightarrow> digest) \<Rightarrow> uuid \<Rightarrow> task_id \<Rightarrow> 'z dispatch_store_scheme \<Rightarrow> run_row \<Rightarrow> task_row \<Rightarrow> worker_side \<Rightarrow> bool" where
  "recovery_reads sha rid tid db run row w =
     (find_run rid db = Some run \<and> rr_status run = RUNNING \<and> find_task rid tid db = Some row \<and>
      tr_task row = tid \<and> validate_task_lease_shape row = Inr () \<and>
      validated_worker_side_evidence sha rid tid (task_attempts rid tid db) db = Inr w)"

lemma prepare_cases:
  assumes "prepare_task sha t new_id rid tid db = Inr (db', d)" and "ledger_inv db"
  obtains (terminal) run row where "find_run rid db = Some run" "rr_status run \<noteq> RUNNING" "db' = db"
      "find_task rid (strip tid) db = Some row" "rd_action d = NO_ACTION_RUN_TERMINAL" "\<not> rd_publish_allowed d"
  | (unowned) run row w where "recovery_reads sha rid (strip tid) db run row w" "lease_owner row = None"
      "prepare_unowned t new_id rid row (task_attempts rid (strip tid) db) w db = Inr (db', d)"
  | (owned) run row w ld where "recovery_reads sha rid (strip tid) db run row w" "lease_owner row \<noteq> None"
      "lease_dispatch_id row = Some ld"
      "prepare_owned t new_id rid row ld (task_attempts rid (strip tid) db) w db = Inr (db', d)"
proof -
  from assms(1) obtain run row where run: "find_run rid db = Some run" "find_task rid (strip tid) db = Some row"
    and shape: "validate_task_lease_shape row = Inr ()"
    by (auto simp: prepare_task_def bind_res_eq_Inr required_text_Inr locked_run_Inr locked_task_Inr)
  have task: "tr_task row = strip tid" using find_task_Some [OF run(2)] by simp
  have name: "required_text 128 tid = Inr (strip tid)"
    using assms(1) by (auto simp: prepare_task_def bind_res_eq_Inr required_text_Inr)
  have lock: "locked_run rid db = Inr run" "locked_task rid (strip tid) db = Inr row"
    using run by (simp_all add: locked_run_def locked_task_def)
  note body = assms(1) [unfolded prepare_task_def, simplified name lock shape bind_res_Inr
      locked_attempts_ok [OF assms(2)]]
  show thesis
  proof (cases "rr_status run = RUNNING")
    case False
    with body have "db' = db" "rd_action d = NO_ACTION_RUN_TERMINAL" "\<not> rd_publish_allowed d"
      by (auto simp: bind_res_eq_Inr dest: decision_Inr)
    with False run show thesis by (intro terminal)
  next
    case True
    with body obtain w where w: "validated_worker_side_evidence sha rid (strip tid) (task_attempts rid (strip tid) db) db = Inr w"
      by (auto simp: bind_res_eq_Inr)
    with True run shape task have reads: "recovery_reads sha rid (strip tid) db run row w"
      by (simp add: recovery_reads_def)
    show thesis
    proof (cases "lease_owner row = None")
      case free: True
      with body w \<open>rr_status run = RUNNING\<close> have "prepare_unowned t new_id rid row (task_attempts rid (strip tid) db) w db = Inr (db', d)"
        by simp
      with reads free show thesis by (rule unowned)
    next
      case False
      with body True w obtain ld where "lease_dispatch_id row = Some ld"
        "prepare_owned t new_id rid row ld (task_attempts rid (strip tid) db) w db = Inr (db', d)"
        by (auto split: option.splits)
      with reads False show thesis by (rule owned)
    qed
  qed
qed

text \<open>When a recovery is due: the task was never dispatched, or the dispatch that owns it is the latest
  and its lease ran out with nothing recorded.\<close>

definition recovery_due ::
    "timestamp \<Rightarrow> uuid \<Rightarrow> task_id \<Rightarrow> 'z dispatch_store_scheme \<Rightarrow> task_row \<Rightarrow> bool" where
  "recovery_due t rid tid db row =
     (if lease_owner row = None then task_attempts rid tid db = []
      else \<exists>ld until. lease_dispatch_id row = Some ld \<and> lease_until row = Some until \<and> until \<le> t \<and>
        lease_released_at row = None \<and> ld \<notin> executed_dispatches (worker_rows rid tid db) \<and>
        task_attempts rid tid db \<noteq> [] \<and> da_id (last (task_attempts rid tid db)) = ld)"

lemma prepare_unowned_Inr:
  assumes "prepare_unowned t new_id rid row as w db = Inr (db', d)"
    and "as = task_attempts rid (tr_task row) db"
  shows "(as \<noteq> [] \<and> db' = db \<and> rd_action d \<in> {WAIT_EXISTING_DISPATCH, BLOCKED_PUBLISH_FAILED} \<and>
      \<not> rd_publish_allowed d) \<or>
    (as = [] \<and> rd_action d = PREPARED_DISPATCH \<and> rd_attempt d = Some (requested_row new_id rid (tr_task row) 1 t) \<and>
     new_attempt (requested_row new_id rid (tr_task row) 1 t) db db' \<and> rd_publish_allowed d)"
proof (cases "as = []")
  case True
  with assms obtain a where a: "insert_attempt new_id rid (tr_task row) 1 t db = Inr (db', a)"
    and d: "decision rid row t PREPARED_DISPATCH
      ''UNOWNED task has no durable dispatch history; locked reconciliation prepared the first dispatch attempt.''
      None (Some a) True False = Inr d"
    by (auto simp: prepare_unowned_def bind_res_eq_Inr split: if_splits)
  from insert_attempt_commit [OF a] True assms(2) decision_Inr [OF d] show ?thesis by auto
next
  case False
  with assms(1) show ?thesis
    by (auto simp: prepare_unowned_def bind_res_eq_Inr dest!: existing_decision_Inr split: if_splits)
qed

text \<open>In a contiguous history, the attempts after the current one are none, or the current one is not last.\<close>

lemma newer_attempts_empty:
  assumes "map da_number as = [1 .. int (length as)]" and "current \<in> set as"
  shows "filter (\<lambda>a. da_number current < da_number a) as = [] \<longleftrightarrow> da_number current = int (length as)"
proof -
  have nums: "da_number ` set as = {1 .. int (length as)}"
    using arg_cong [OF assms(1), of set] by simp
  then have le: "1 \<le> da_number current" "da_number current \<le> int (length as)" using assms(2) by auto
  then have top: "int (length as) \<in> da_number ` set as" unfolding nums by simp
  have "filter (\<lambda>a. da_number current < da_number a) as = [] \<longleftrightarrow>
      (\<forall>n \<in> da_number ` set as. n \<le> da_number current)"
    by (auto simp: filter_empty_conv not_less)
  also have "\<dots> \<longleftrightarrow> da_number current = int (length as)" using le top nums by force
  finally show ?thesis .
qed

lemma current_is_last:
  assumes inv: "ledger_inv db" and as: "as = task_attempts rid tid db"
    and cur: "attempt_for_dispatch as ld = Some current"
  shows "filter (\<lambda>a. da_number current < da_number a) as = [] \<longleftrightarrow> da_id (last as) = ld"
proof -
  have mem: "current \<in> set as" "da_id current = ld" "as \<noteq> []"
    using attempt_for_dispatch_Some [OF cur] by auto
  have num: "map da_number as = [1 .. int (length as)]" using inv by (simp add: ledger_inv_def as)
  have dist: "distinct (map da_id as)"
    using inv by (auto simp: ledger_inv_def as task_attempts_def distinct_map_filter)
  have "distinct (map da_number as)" by (simp add: num)
  then have "da_number current = da_number (last as) \<longleftrightarrow> current = last as"
    using mem by (metis distinct_map inj_onD last_in_set)
  moreover have "da_id (last as) = ld \<longleftrightarrow> current = last as"
    using mem dist by (metis distinct_map inj_onD last_in_set)
  moreover have "da_number (last as) = int (length as)"
    using last_attempt_number [OF inv] mem(3) by (simp add: as)
  ultimately show ?thesis using newer_attempts_empty [OF num mem(1)] by simp
qed

lemma map_of_None_dom: "map_of xs k = None \<longleftrightarrow> k \<notin> fst ` set xs"
  by (rule map_of_eq_None_iff)

lemma prepare_owned_Inr:
  assumes "prepare_owned t new_id rid row ld as w db = Inr (db', d)"
    and inv: "ledger_inv db" and as: "as = task_attempts rid (tr_task row) db"
  shows "(if (\<exists>until. lease_until row = Some until \<and> until \<le> t) \<and> lease_released_at row = None \<and>
        ld \<notin> fst ` set (ws_workers w) \<and> da_id (last as) = ld
      then as \<noteq> [] \<and> rd_action d = PREPARED_DISPATCH \<and> rd_publish_allowed d \<and>
        (\<exists>a. rd_attempt d = Some a \<and> new_attempt a db db' \<and>
           a = requested_row new_id rid (tr_task row) (int (length as) + 1) t)
      else rd_action d \<noteq> PREPARED_DISPATCH \<and> db' = db \<and> \<not> rd_publish_allowed d)"
proof -
  from assms(1) obtain current where cur: "attempt_for_dispatch as ld = Some current"
    by (auto simp: prepare_owned_def split: option.splits)
  then have ne: "as \<noteq> []" using attempt_for_dispatch_Some by fastforce
  note last = current_is_last [OF inv as cur]
  note nlast = last_attempt_number [OF inv, of rid "tr_task row", folded as, OF ne]
  show ?thesis
  proof (cases "map_of (ws_workers w) ld = None \<and> lease_released_at row = None \<and>
      (\<exists>until. lease_until row = Some until \<and> until \<le> t)")
    case False
    with assms(1) cur have "rd_action d \<noteq> PREPARED_DISPATCH \<and> db' = db \<and> \<not> rd_publish_allowed d"
      by (auto simp: prepare_owned_def bind_res_eq_Inr Let_def dest!: decision_Inr split: option.splits if_splits)
    with False show ?thesis by (auto simp: map_of_None_dom)
  next
    case True
    then obtain until where until: "lease_until row = Some until" "until \<le> t" by blast
    show ?thesis
    proof (cases "filter (\<lambda>a. da_number current < da_number a) as")
      case Nil
      with True assms(1) cur until obtain a where
        a: "insert_attempt new_id rid (tr_task row) (int (length as) + 1) t db = Inr (db', a)"
        and d: "decision rid row t PREPARED_DISPATCH
          ''Current lease generation is EXPIRED with no terminal worker evidence and no newer dispatch; locked reconciliation prepared one fresh recovery attempt.''
          None (Some a) True True = Inr d"
        by (auto simp: prepare_owned_def bind_res_eq_Inr Let_def nlast)
      from insert_attempt_commit [OF a] decision_Inr [OF d] Nil last True until ne show ?thesis
        by (auto simp: map_of_None_dom as)
    next
      case (Cons b bs)
      with True assms(1) cur until have "rd_action d \<noteq> PREPARED_DISPATCH \<and> db' = db \<and> \<not> rd_publish_allowed d"
        by (cases bs) (auto simp: prepare_owned_def bind_res_eq_Inr Let_def dest!: existing_decision_Inr split: if_splits)
      with Cons last show ?thesis by auto
    qed
  qed
qed

lemma prepare_commit:
  assumes "prepare_task sha t new_id rid tid db = Inr (db', d)" and inv: "ledger_inv db"
  shows "(if rd_action d = PREPARED_DISPATCH
      then \<exists>a. rd_attempt d = Some a \<and> new_attempt a db db' \<and> da_id a = new_id \<and> da_run a = rid \<and>
        da_task a = strip tid \<and> rd_publish_allowed d
      else db' = db \<and> \<not> rd_publish_allowed d) \<and>
    (rd_action d = PREPARED_DISPATCH \<longleftrightarrow>
      (\<exists>run row. find_run rid db = Some run \<and> rr_status run = RUNNING \<and>
        find_task rid (strip tid) db = Some row \<and> recovery_due t rid (strip tid) db row))"
  using assms
proof (cases rule: prepare_cases)
  case terminal
  then show ?thesis by simp
next
  case (unowned run row w)
  then have row: "tr_task row = strip tid" "find_run rid db = Some run" "rr_status run = RUNNING"
    "find_task rid (strip tid) db = Some row"
    by (auto simp: recovery_reads_def)
  from prepare_unowned_Inr [OF unowned(3)] row
  show ?thesis by (auto simp: recovery_due_def unowned(2) requested_row_def)
next
  case (owned run row w ld)
  then have row: "tr_task row = strip tid" "find_run rid db = Some run" "rr_status run = RUNNING"
    "find_task rid (strip tid) db = Some row"
    "fst ` set (ws_workers w) = executed_dispatches (worker_rows rid (strip tid) db)"
    by (auto simp: recovery_reads_def dest: validated_evidence_Inr)
  have due: "recovery_due t rid (strip tid) db row \<longleftrightarrow>
      task_attempts rid (strip tid) db \<noteq> [] \<and>
      (\<exists>until. lease_until row = Some until \<and> until \<le> t) \<and> lease_released_at row = None \<and>
      ld \<notin> fst ` set (ws_workers w) \<and> da_id (last (task_attempts rid (strip tid) db)) = ld"
    using owned(2,3) by (auto simp: recovery_due_def row(5))
  have as: "task_attempts rid (strip tid) db = task_attempts rid (tr_task row) db" by (simp add: row(1))
  from prepare_owned_Inr [OF owned(4) inv as] row(1-4) due
  show ?thesis by (auto simp: requested_row_def split: if_splits)
qed

section \<open>Publication\<close>

lemma guard_cases:
  assumes "guard_prepared_publication sha t rid tid d db = Inr target" and inv: "ledger_inv db"
  obtains run row w where "recovery_reads sha rid (strip tid) db run row w"
    "task_attempts rid (strip tid) db \<noteq> []" "target = last (task_attempts rid (strip tid) db)"
    "da_id target = d" "da_state target = REQUESTED"
    "d \<notin> executed_dispatches (worker_rows rid (strip tid) db)"
    "d \<notin> observed_dispatches (worker_rows rid (strip tid) db)"
    "if lease_owner row = None then guard_unowned (task_attempts rid (strip tid) db) target w = Inr ()
     else \<exists>ld. lease_dispatch_id row = Some ld \<and>
       guard_owned t row ld (task_attempts rid (strip tid) db) target w = Inr ()"
proof -
  from assms(1) obtain run row where run: "find_run rid db = Some run" "find_task rid (strip tid) db = Some row"
    and shape: "validate_task_lease_shape row = Inr ()"
    by (auto simp: guard_prepared_publication_def bind_res_eq_Inr required_text_Inr locked_run_Inr locked_task_Inr)
  have task: "tr_task row = strip tid" using find_task_Some [OF run(2)] by simp
  have name: "required_text 128 tid = Inr (strip tid)"
    using assms(1) by (auto simp: guard_prepared_publication_def bind_res_eq_Inr required_text_Inr)
  have lock: "locked_run rid db = Inr run" "locked_task rid (strip tid) db = Inr row"
    using run by (simp_all add: locked_run_def locked_task_def)
  note body = assms(1) [unfolded guard_prepared_publication_def Let_def, simplified name lock shape bind_res_Inr
      locked_attempts_ok [OF assms(2)]]
  then have st: "rr_status run = RUNNING" "task_attempts rid (strip tid) db \<noteq> []"
    "da_id (last (task_attempts rid (strip tid) db)) = d"
    "da_state (last (task_attempts rid (strip tid) db)) = REQUESTED"
    by (auto split: if_splits)
  with body obtain w u where w: "validated_worker_side_evidence sha rid (strip tid) (task_attempts rid (strip tid) db) db = Inr w"
    and free: "d \<notin> fst ` set (ws_workers w)" "d \<notin> fst ` set (ws_dispatches w)"
    and g: "(if lease_owner row = None
         then guard_unowned (task_attempts rid (strip tid) db) (last (task_attempts rid (strip tid) db)) w
         else (case lease_dispatch_id row of None \<Rightarrow> Inl (AssertionError ''task.lease_dispatch_id is not None'')
           | Some ld \<Rightarrow> guard_owned t row ld (task_attempts rid (strip tid) db)
               (last (task_attempts rid (strip tid) db)) w)) = Inr u"
    and target: "target = last (task_attempts rid (strip tid) db)"
    by (auto simp: bind_res_eq_Inr split: if_splits)
  show thesis
    by (rule that [of run row w])
      (use st w free g target run shape task validated_evidence_Inr [OF w] in
        \<open>auto simp: recovery_reads_def split: option.splits if_splits\<close>)
qed

text \<open>
  The window opens only for the latest attempt while it is unresolved, when nobody works on the
  task and nothing of the dispatch that last owned it, or of this one, is recorded.
\<close>

lemma guard_safe:
  assumes "guard_prepared_publication sha t rid tid d db = Inr target" and inv: "ledger_inv db"
  shows "\<exists>run row. find_run rid db = Some run \<and> rr_status run = RUNNING \<and>
    find_task rid (strip tid) db = Some row \<and>
    find_attempt d db = Some target \<and> da_state target = REQUESTED \<and>
    task_attempts rid (strip tid) db \<noteq> [] \<and> last (task_attempts rid (strip tid) db) = target \<and>
    d \<notin> executed_dispatches (worker_rows rid (strip tid) db) \<and>
    d \<notin> observed_dispatches (worker_rows rid (strip tid) db) \<and>
    (lease_owner row = None \<or>
      (\<exists>ld until. lease_dispatch_id row = Some ld \<and> ld \<noteq> d \<and> lease_until row = Some until \<and> until \<le> t \<and>
        lease_released_at row = None \<and> ld \<notin> executed_dispatches (worker_rows rid (strip tid) db)))"
  using assms
proof (cases rule: guard_cases)
  case (1 run row w)
  let ?as = "task_attempts rid (strip tid) db"
  have mem: "target \<in> set (st_attempts db)" using 1(2,3) last_in_set [of ?as] by (auto simp: task_attempts_def)
  have dist: "distinct (map da_id (st_attempts db))" using inv by (simp add: ledger_inv_def)
  have found: "find_attempt d db = Some target"
    unfolding find_attempt_def 1(4) [symmetric] by (rule find_unique [OF dist mem])
  have ex: "fst ` set (ws_workers w) = executed_dispatches (worker_rows rid (strip tid) db)"
    using 1(1) by (auto simp: recovery_reads_def dest: validated_evidence_Inr)
  have "\<exists>ld until. lease_dispatch_id row = Some ld \<and> ld \<noteq> d \<and> lease_until row = Some until \<and> until \<le> t \<and>
      lease_released_at row = None \<and> ld \<notin> executed_dispatches (worker_rows rid (strip tid) db)"
    if owned: "lease_owner row \<noteq> None"
  proof -
    from 1(8) owned obtain ld where ld: "lease_dispatch_id row = Some ld"
      and g: "guard_owned t row ld ?as target w = Inr ()"
      by auto
    from g obtain current until where cur: "attempt_for_dispatch ?as ld = Some current"
      "map_of (ws_workers w) ld = None" "lease_released_at row = None" "lease_until row = Some until"
      "until \<le> t" "da_number target = da_number current + 1"
      by (cases "map_of (ws_workers w) ld")
        (auto simp: guard_owned_def not_less split: option.splits if_splits list.splits)
    have "ld \<noteq> d"
    proof
      assume "ld = d"
      then have "current \<in> set (st_attempts db)" "da_id current = da_id target"
        using attempt_for_dispatch_Some [OF cur(1)] 1(4) by (auto simp: task_attempts_def)
      then have "current = target" using mem dist by (metis distinct_map inj_onD)
      with cur(6) show False by simp
    qed
    with ld cur ex show ?thesis by (auto simp: map_of_None_dom)
  qed
  then have free: "lease_owner row = None \<or>
      (\<exists>ld until. lease_dispatch_id row = Some ld \<and> ld \<noteq> d \<and> lease_until row = Some until \<and> until \<le> t \<and>
        lease_released_at row = None \<and> ld \<notin> executed_dispatches (worker_rows rid (strip tid) db))"
    by (cases "lease_owner row = None") simp_all
  have "find_run rid db = Some run \<and> rr_status run = RUNNING \<and> find_task rid (strip tid) db = Some row"
    using 1(1) by (simp add: recovery_reads_def)
  with free 1(2-7) found show ?thesis by (intro exI [of _ run] exI [of _ row]) simp
qed

lemma publication_commit:
  assumes "publish_prepared sha t1 t2 sent queue rid tid d db = Inr (db', r)" and inv: "ledger_inv db"
  shows "\<exists>a target. guard_prepared_publication sha t1 rid tid d db = Inr target \<and> new_outcome a db db' \<and>
    da_id a = d \<and> da_state a = (if sent = None then PUBLISH_FAILED else ENQUEUED) \<and>
    (case sent of None \<Rightarrow> r = None
     | Some message_id \<Rightarrow> r = Some \<lparr>rc_dispatch = d, rc_run = rid, rc_task = strip tid,
         rc_message_id = strip message_id, rc_queue_name = strip queue\<rparr>)"
proof -
  from assms obtain target where g: "guard_prepared_publication sha t1 rid tid d db = Inr target"
    by (auto simp: publish_prepared_def bind_res_eq_Inr)
  from guard_safe [OF this inv] have target: "find_attempt d db = Some target" "da_state target = REQUESTED"
    "target \<in> set (task_attempts rid (strip tid) db)" by auto
  then have t: "da_id target = d" "da_run target = rid" "da_task target = strip tid"
    by (auto simp: task_attempts_def dest: find_attempt_Some)
  show ?thesis
  proof (cases sent)
    case None
    with assms(1) g target obtain a where
      "write_outcome (failed_row t2 (strip BROKER_ERROR_CODE) (strip RECONCILER_BROKER_ERROR_MESSAGE) target) db = Inr (db', a)"
      "r = None"
      by (auto simp: publish_prepared_def bind_res_eq_Inr publication_mark_publish_failed_def required_text_Inr Let_def)
    then show ?thesis
      using g None target t write_outcome_commit [OF _ _ outcome_rows(2) [OF target(2)], of t2]
      by (force simp: failed_row_def)
  next
    case (Some message_id)
    with assms(1) g target obtain a where
      a: "write_outcome (enqueued_row t2 (strip message_id) (strip queue) target) db = Inr (db', a)"
      and r: "TaskDispatchReceipt \<lparr>rc_dispatch = da_id a, rc_run = da_run a, rc_task = da_task a,
        rc_message_id = (case da_message_id a of None \<Rightarrow> [] | Some m \<Rightarrow> m),
        rc_queue_name = (case da_queue_name a of None \<Rightarrow> [] | Some q \<Rightarrow> q)\<rparr> = Inr (the r)" "r \<noteq> None"
      by (auto simp: publish_prepared_def bind_res_eq_Inr publication_mark_enqueued_def required_text_Inr Let_def)
    from write_outcome_commit [OF a _ outcome_rows(1) [OF target(2)]] target(1) t(1)
    have "a = enqueued_row t2 (strip message_id) (strip queue) target" "new_outcome a db db'" by simp_all
    then show ?thesis
      using g Some t r by (auto simp: enqueued_row_def TaskDispatchReceipt_def split: if_splits)
  qed
qed

section \<open>A prepared dispatch is prepared once\<close>

lemma decision_plain_ok:
  assumes "text_between 128 (tr_task row)" "text_between 1000 reason" "0 \<le> lease_generation row"
    "action \<noteq> PREPARED_DISPATCH"
  shows "\<exists>d. decision rid row t action reason None att False False = Inr d \<and> rd_action d = action \<and> rd_attempt d = att"
  using assms by (simp add: decision_def TaskReconciliationDecision_def validate_decision_shape_def opt_all_def)

lemma existing_decision_ok:
  assumes "text_between 128 (tr_task row)" "0 \<le> lease_generation row" "length pre \<le> 100"
  shows "\<exists>d. existing_dispatch_decision rid row t a pre = Inr d \<and> rd_attempt d = Some a \<and>
    rd_action d = (if da_state a = PUBLISH_FAILED then BLOCKED_PUBLISH_FAILED else WAIT_EXISTING_DISPATCH)"
proof (cases "da_state a = PUBLISH_FAILED")
  case True
  have "text_between 1000 (pre @ ''; PUBLISH_FAILED is an observed broker error, not proof of non-delivery, so automatic redispatch remains blocked.'')"
    using assms(3) by (simp add: text_between_def)
  from decision_plain_ok [OF assms(1) this assms(2), of BLOCKED_PUBLISH_FAILED rid t "Some a"] True
  show ?thesis by (auto simp: existing_dispatch_decision_def)
next
  case False
  have "length (state_value (da_state a)) \<le> 20" by (simp add: state_value_def split: dispatch_attempt_state.split)
  then have "text_between 1000 (pre @ ''; '' @ state_value (da_state a) @
      '' must settle through the existing dispatch identity rather than another broker publication.'')"
    using assms(3) by (simp add: text_between_def)
  from decision_plain_ok [OF assms(1) this assms(2), of WAIT_EXISTING_DISPATCH rid t "Some a"] False
  show ?thesis by (auto simp: existing_dispatch_decision_def)
qed

text \<open>The reads of the next decision: one more attempt, the rest as it was.\<close>

lemma new_attempt_reads:
  assumes "recovery_reads sha rid tid db run row w" and "new_attempt a db db'" "da_run a = rid" "da_task a = tid"
  shows "recovery_reads sha rid tid db' run row w"
    and "task_attempts rid tid db' = task_attempts rid tid db @ [a]"
proof -
  have db': "db' = db\<lparr>st_attempts := st_attempts db @ [a]\<rparr>" using assms(2) by (simp add: new_attempt_def)
  show as: "task_attempts rid tid db' = task_attempts rid tid db @ [a]"
    using assms(3,4) by (simp add: task_attempts_def db')
  have frame: "find_run rid db' = find_run rid db" "find_task rid tid db' = find_task rid tid db"
    "validated_worker_side_evidence sha rid tid xs db' = validated_worker_side_evidence sha rid tid xs db" for xs
    by (simp_all add: db' find_run_def find_task_def validated_worker_side_evidence_def)
  from assms(1) have "validated_worker_side_evidence sha rid tid (task_attempts rid tid db) db = Inr w"
    by (simp add: recovery_reads_def)
  then have "validated_worker_side_evidence sha rid tid (task_attempts rid tid db @ [a]) db = Inr w"
    by (rule validated_evidence_Inr(3)) auto
  with assms(1) show "recovery_reads sha rid tid db' run row w" by (simp add: recovery_reads_def frame as)
qed

lemma prepare_from_reads:
  assumes "recovery_reads sha rid (strip tid) db run row w" and "ledger_inv db"
    and "strip tid \<noteq> []" "length (strip tid) \<le> 128"
  shows "prepare_task sha t new_id rid tid db =
    (if lease_owner row = None then prepare_unowned t new_id rid row (task_attempts rid (strip tid) db) w db
     else prepare_owned t new_id rid row (the (lease_dispatch_id row)) (task_attempts rid (strip tid) db) w db)"
proof -
  from assms have "required_text 128 tid = Inr (strip tid)" "locked_run rid db = Inr run"
    "locked_task rid (strip tid) db = Inr row" "validate_task_lease_shape row = Inr ()" "rr_status run = RUNNING"
    "validated_worker_side_evidence sha rid (strip tid) (task_attempts rid (strip tid) db) db = Inr w"
    by (simp_all add: recovery_reads_def required_text_Inr locked_run_Inr locked_task_Inr)
  moreover from this(4) have "lease_owner row \<noteq> None \<Longrightarrow> \<exists>d. lease_dispatch_id row = Some d"
    by (auto simp: validate_task_lease_shape_def split: if_splits)
  ultimately show ?thesis
    by (auto simp: prepare_task_def locked_attempts_ok [OF assms(2)])
qed

lemma prepare_again:
  assumes prep: "prepare_task sha t new_id rid tid db = Inr (db', d)" and inv: "ledger_inv db"
    and prepared: "rd_action d = PREPARED_DISPATCH" and later: "t \<le> t'"
  shows "\<exists>d'. prepare_task sha t' new_id' rid tid db' = Inr (db', d') \<and> rd_action d' = WAIT_EXISTING_DISPATCH \<and>
    rd_attempt d' = rd_attempt d"
proof -
  from prepare_commit [OF prep inv] prepared obtain a where a: "rd_attempt d = Some a" "new_attempt a db db'"
    "da_run a = rid" "da_task a = strip tid"
    by auto
  have state: "da_state a = REQUESTED" using a(2) by (simp add: new_attempt_def)
  have inv': "ledger_inv db'" using new_attempt_ledger [OF inv a(2)] by simp
  have name: "strip tid \<noteq> []" "length (strip tid) \<le> 128"
    using prep by (auto simp: prepare_task_def bind_res_eq_Inr required_text_Inr)
  from prep inv obtain run row w where reads: "recovery_reads sha rid (strip tid) db run row w"
    by (cases rule: prepare_cases) (use prepared in auto)
  note reads' = new_attempt_reads [OF this a(2-4)]
  have row: "tr_task row = strip tid" "validate_task_lease_shape row = Inr ()"
    using reads by (auto simp: recovery_reads_def)
  have dec: "text_between 128 (tr_task row)" "0 \<le> lease_generation row"
    using name row(2) by (auto simp: text_between_def row(1) Suc_le_eq validate_task_lease_shape_def split: if_splits)
  from prepare_commit [OF prep inv] prepared reads have due: "recovery_due t rid (strip tid) db row"
    by (auto simp: recovery_reads_def)
  have ex: "fst ` set (ws_workers w) = executed_dispatches (worker_rows rid (strip tid) db)"
    using reads by (auto simp: recovery_reads_def dest: validated_evidence_Inr)
  let ?as = "task_attempts rid (strip tid) db"
  show ?thesis
  proof (cases "lease_owner row = None")
    case True
    have "ws_workers w = [] \<and> ws_dispatches w = []"
      using prep prepare_from_reads [OF reads inv name] True by (auto simp: prepare_unowned_def split: if_splits)
    then show ?thesis
      using prepare_from_reads [OF reads'(1) inv' name, of t' new_id'] True reads'(2) state a(1)
        existing_decision_ok [OF dec, of "''UNOWNED task already has durable dispatch intent''" rid t' a]
      by (auto simp: prepare_unowned_def)
  next
    case False
    with due obtain ld until where ld: "lease_dispatch_id row = Some ld" "lease_until row = Some until"
      "until \<le> t" "lease_released_at row = None" "ld \<notin> fst ` set (ws_workers w)" "?as \<noteq> []" "da_id (last ?as) = ld"
      by (auto simp: recovery_due_def ex)
    obtain current where cur: "attempt_for_dispatch ?as ld = Some current"
      using ld(6,7) last_in_set [of ?as]
      by (cases "attempt_for_dispatch ?as ld") (auto simp: attempt_for_dispatch_def find_None_iff)
    have cur': "attempt_for_dispatch (?as @ [a]) ld = Some current"
      using cur by (simp add: attempt_for_dispatch_def find_prefix)
    have none: "filter (\<lambda>x. da_number current < da_number x) ?as = []"
      using current_is_last [OF inv refl cur] ld(7) by simp
    have "da_number a = int (length ?as) + 1" using a(2-4) by (simp add: new_attempt_def)
    moreover have "da_number current = int (length ?as)"
      using newer_attempts_empty [of ?as current] none attempt_for_dispatch_Some [OF cur] inv
      by (simp add: ledger_inv_def)
    ultimately have newer: "filter (\<lambda>x. da_number current < da_number x) (?as @ [a]) = [a]" using none by simp
    have "\<not> t' < until" using ld(3) later by simp
    then show ?thesis
      using prepare_from_reads [OF reads'(1) inv' name, of t' new_id'] False reads'(2) ld cur' newer state a(1)
        existing_decision_ok [OF dec, of "''Expired generation already has a newer durable dispatch attempt''" rid t' a]
      by (auto simp: prepare_owned_def map_of_None_dom [symmetric])
  qed
qed

end
