(* ===== verification/Store_Safety.thy ===== *)
theory Store_Safety
  imports Evidence_Store
begin

text \<open>
  What the evidence store promises in every reachable state, beyond the fencing theorem: each step
  refines an abstract lease protocol, a lease is granted exactly when it is free, every row can be
  observed at every time, the event log is contiguous and free of secrets, evidence is written only
  behind a live fence, and a finalized Run never changes.
\<close>

section \<open>The lease protocol\<close>

text \<open>
  The protocol a task lease promises, apart from how the row stores it: a numbered holder with a
  token and an expiry, or nobody.
\<close>

record abs_lease =
  al_generation :: int
  al_holder :: "uuid option"
  al_until :: "timestamp option"
  al_released :: bool

inductive lease_protocol :: "abs_lease \<Rightarrow> abs_lease \<Rightarrow> bool" where
  idle: "lease_protocol l l"
| first: "al_holder l = None \<Longrightarrow> t < u \<Longrightarrow>
    lease_protocol l \<lparr>al_generation = 1, al_holder = Some tok, al_until = Some u, al_released = False\<rparr>"
| takeover: "al_holder l \<noteq> None \<Longrightarrow> \<not> al_released l \<Longrightarrow> the (al_until l) \<le> t \<Longrightarrow> t < u \<Longrightarrow>
    lease_protocol l \<lparr>al_generation = al_generation l + 1, al_holder = Some tok, al_until = Some u,
      al_released = False\<rparr>"
| heartbeat: "al_holder l \<noteq> None \<Longrightarrow> \<not> al_released l \<Longrightarrow> t < the (al_until l) \<Longrightarrow> t < u \<Longrightarrow>
    lease_protocol l (l\<lparr>al_until := Some u\<rparr>)"
| release: "al_holder l \<noteq> None \<Longrightarrow> \<not> al_released l \<Longrightarrow> t < the (al_until l) \<Longrightarrow>
    lease_protocol l (l\<lparr>al_released := True\<rparr>)"

definition abs_row :: "task_row \<Rightarrow> abs_lease" where
  "abs_row row = \<lparr>al_generation = lease_generation row, al_holder = run_token row,
     al_until = lease_until row, al_released = (lease_released_at row \<noteq> None)\<rparr>"

lemma released_protocol: "lease_protocol l l' \<Longrightarrow> al_released l \<Longrightarrow> al_holder l \<noteq> None \<Longrightarrow> l' = l"
  by (cases rule: lease_protocol.cases) auto

lemma protocol_generation:
  "lease_protocol l l' \<Longrightarrow> al_generation l \<le> al_generation l' \<or> al_holder l = None"
  by (cases rule: lease_protocol.cases) auto

lemma observed_active:
  "observed_state row t = ACTIVE \<longleftrightarrow>
   lease_owner row \<noteq> None \<and> lease_released_at row = None \<and> t < the (lease_until row)"
  by (auto simp: observed_state_def)

lemma observed_expired:
  "observed_state row t = EXPIRED \<longleftrightarrow>
   lease_owner row \<noteq> None \<and> lease_released_at row = None \<and> the (lease_until row) \<le> t"
  by (auto simp: observed_state_def)

lemma row_token_owner: "row_ok row \<Longrightarrow> run_token row = None \<longleftrightarrow> lease_owner row = None"
  by (auto simp: row_ok_def lease_shape_def)

text \<open>How one step of the store acts on one task row.\<close>

inductive row_move :: "task_row \<Rightarrow> task_row \<Rightarrow> bool" where
  kept: "row_move row row"
| granted: "acquirable row dispatch t \<Longrightarrow> generation = lease_generation row + 1 \<Longrightarrow> t < until \<Longrightarrow>
    row_move row (granted_row row owner dispatch generation token t until)"
| beaten: "observed_state row t = ACTIVE \<Longrightarrow> t < until \<Longrightarrow>
    row_move row (row\<lparr>heartbeat_at := Some t, lease_until := Some until\<rparr>)"
| closed: "observed_state row t = ACTIVE \<Longrightarrow> row_move row (row\<lparr>lease_released_at := Some t\<rparr>)"

lemma row_move_protocol:
  assumes "row_ok row" and "row_move row row'"
  shows "lease_protocol (abs_row row) (abs_row row')"
  using assms(2)
proof (cases rule: row_move.cases)
  case kept
  then show ?thesis by (simp add: lease_protocol.idle)
next
  case (granted dispatch t generation until owner token)
  note owner_iff = row_token_owner [OF assms(1)]
  have abs': "abs_row row' = \<lparr>al_generation = lease_generation row + 1, al_holder = Some token,
      al_until = Some until, al_released = False\<rparr>"
    using granted by (simp add: abs_row_def)
  show ?thesis
  proof (cases "lease_owner row")
    case None
    then have "lease_generation row = 0" using assms(1) by (auto simp: row_ok_def lease_shape_def)
    with None owner_iff granted(4) abs' show ?thesis
      using lease_protocol.first [of "abs_row row" t until token] by (simp add: abs_row_def)
  next
    case (Some o')
    with granted(2) have "observed_state row t = EXPIRED" by (simp add: acquirable_def)
    with Some owner_iff granted(4) abs' show ?thesis
      using lease_protocol.takeover [of "abs_row row" t until token]
      by (simp add: abs_row_def observed_expired)
  qed
next
  case (beaten t until)
  with row_token_owner [OF assms(1)] show ?thesis
    using lease_protocol.heartbeat [of "abs_row row" t until] by (simp add: abs_row_def observed_active)
next
  case (closed t)
  with row_token_owner [OF assms(1)] show ?thesis
    using lease_protocol.release [of "abs_row row" t] by (simp add: abs_row_def observed_active)
qed

lemma write_row_move:
  assumes wr: "row_write sha t row row' draft db db'" and log: "log_inv sha db"
    and move: "row_move row row'" and here: "find_task rid tid db = Some r"
  shows "\<exists>r'. find_task rid tid db' = Some r' \<and> row_move r r'"
proof (cases "(rid, tid) = task_key row")
  case True
  then have "r = row" using wr here by (auto simp: row_write_def task_key_def)
  with True move row_write_find_task [OF wr log] show ?thesis by auto
next
  case False
  with here row_write_find_task [OF wr log] show ?thesis by (auto intro: row_move.kept)
qed

lemma find_append_Some: "find P xs = Some x \<Longrightarrow> find P (xs @ ys) = Some x"
  by (induction xs) (auto split: if_splits)

lemma find_append_None: "find P xs = None \<Longrightarrow> find P (xs @ ys) = find P ys"
  by (induction xs) (auto split: if_splits)

text \<open>Equal rows apart from the event counters find the same Run.\<close>

lemma run_facts_find:
  assumes "run_facts db' = run_facts db" and "find_run rid db = Some run"
  shows "\<exists>run'. find_run rid db' = Some run' \<and>
    run'\<lparr>rr_event_sequence := 0\<rparr> = run\<lparr>rr_event_sequence := 0\<rparr> \<and> rr_status run' = rr_status run"
proof -
  have facts: "map (\<lambda>r. r\<lparr>rr_event_sequence := 0\<rparr>) xs = map (\<lambda>r. r\<lparr>rr_event_sequence := 0\<rparr>) ys \<Longrightarrow>
      find (\<lambda>r. rr_id r = rid) ys = Some run \<Longrightarrow>
      \<exists>run'. find (\<lambda>r. rr_id r = rid) xs = Some run' \<and>
        run'\<lparr>rr_event_sequence := 0\<rparr> = run\<lparr>rr_event_sequence := 0\<rparr>" for xs ys
  proof (induction xs arbitrary: ys)
    case (Cons x xs)
    then obtain y ys' where ys: "ys = y # ys'" by (cases ys) auto
    with Cons.prems(1) have "x\<lparr>rr_event_sequence := 0\<rparr> = y\<lparr>rr_event_sequence := 0\<rparr>" by simp
    then have "rr_id x = rr_id y" by (cases x; cases y) simp
    with Cons ys show ?case by (auto split: if_splits)
  qed simp
  from facts [OF assms(1) [unfolded run_facts_def] assms(2) [unfolded find_run_def]]
  obtain run' where "find_run rid db' = Some run'"
    and eq: "run'\<lparr>rr_event_sequence := 0\<rparr> = run\<lparr>rr_event_sequence := 0\<rparr>"
    by (auto simp: find_run_def)
  moreover from eq have "rr_status run' = rr_status run" by (cases run; cases run') simp
  ultimately show ?thesis by blast
qed

lemma find_task_same: "st_tasks db' = st_tasks db \<Longrightarrow> find_task rid tid db' = find_task rid tid db"
  by (simp add: find_task_def)

lemma step_row_move:
  assumes step: "store_step sha s s'" and inv: "system_inv sha s"
    and here: "find_task rid tid (fst s) = Some r"
  shows "\<exists>r'. find_task rid tid (fst s') = Some r' \<and> row_move r r'"
  using step
proof (cases rule: store_step.cases)
  case (started projects pid contracts commit rid' db db' u gs)
  from started(3) show ?thesis
  proof (cases rule: start_run_commit)
    case (1 run draft0 draft e)
    let ?db1 = "db\<lparr>st_runs := st_runs db @ [run], st_tasks := st_tasks db @ map (new_task_row sha rid') contracts\<rparr>"
    have d: "distinct (map rr_id (st_runs ?db1))" using inv 1(1,5) started by (auto simp: system_inv_def log_inv_def)
    have fr: "find_run (rr_id run) ?db1 = Some run" using find_run_iff [OF d] by simp
    have "st_tasks db' = st_tasks db @ map (new_task_row sha rid') contracts"
      using append_frame [OF 1(13) fr d] by simp
    then have "find_task rid tid db' = Some r"
      using here started by (simp add: find_task_def find_append_Some)
    with started show ?thesis by (auto intro: row_move.kept)
  qed
next
  case (acquired t token rid' tid' owner dispatch secs db db' grant gs)
  have log: "log_inv sha db" and lease: "lease_inv db" using inv acquired by (simp_all add: system_inv_def)
  from acquired(3) show ?thesis
  proof (cases rule: acquire_commit)
    case (1 run row previous generation until)
    have "row_ok row" using lease find_task_Some [OF 1(3)] by (simp add: lease_inv_def)
    with 1(4) have "acquirable row dispatch t" "generation = lease_generation row + 1"
      using next_lease_generation_total [of row dispatch t] by (auto simp: is_ok_iff)
    then have "row_move row (granted_row row (strip owner) dispatch generation token t until)"
      using 1(5) by (rule row_move.granted)
    from write_row_move [OF 1(7) log this] here acquired show ?thesis by simp
  qed
next
  case (renewed t rid' tid' owner dispatch token secs db db' snap gs)
  have log: "log_inv sha db" using inv renewed by (simp add: system_inv_def)
  from renewed(3) show ?thesis
  proof (cases rule: renew_commit)
    case (1 row until draft)
    have "row_ok (row\<lparr>heartbeat_at := Some t, lease_until := Some until\<rparr>)"
      using 1(6) by (auto simp: row_write_def dest!: flush_task_Inr intro: lease_snapshot_row_ok)
    then have "t < until" using 1(3) by (simp add: row_ok_def)
    from write_row_move [OF 1(6) log row_move.beaten [OF 1(5) this]] here renewed show ?thesis by simp
  qed
next
  case (released t rid' tid' owner dispatch token db db' snap gs)
  have log: "log_inv sha db" using inv released by (simp add: system_inv_def)
  note ctx = released
  from released(3) show ?thesis
  proof (cases rule: release_commit)
    case (again row)
    with here ctx show ?thesis by (auto intro: row_move.kept)
  next
    case (released row draft)
    from write_row_move [OF released(6) log row_move.closed [OF released(5)]] here ctx show ?thesis by simp
  qed
next
  case (appended t new_id rid' key kind payload tid' stage sequence tok db db' i gs)
  have log: "log_inv sha db" using inv appended by (simp add: system_inv_def)
  from appended(3) have "st_tasks db' = st_tasks db"
  proof (cases rule: append_evidence_commit)
    case (fresh run fenced row draft e)
    let ?db1 = "db\<lparr>st_evidence := st_evidence db @ [row]\<rparr>"
    have run: "find_run (rr_id run) ?db1 = Some run"
      using fresh(1) find_run_Some [OF fresh(1)] by (simp add: find_run_def)
    show ?thesis using append_frame [OF fresh(14) run] log by (simp add: log_inv_def)
  qed simp
  from find_task_same [OF this, of rid tid] here appended row_move.kept [of r] show ?thesis by simp
next
  case (finalized t rid' result tok db db' v gs)
  have log: "log_inv sha db" using inv finalized by (simp add: system_inv_def)
  from finalized(3) have "st_tasks db' = st_tasks db"
  proof (cases rule: finalize_commit)
    case (fresh run row status draft e)
    let ?run' = "finalized_run sha t result status run"
    have id: "rr_id run = rid'" using find_run_Some [OF fresh(1)] by simp
    have run0: "find_run (rr_id run) db = Some run" using fresh(1) id by simp
    have run: "find_run (rr_id ?run') (put_run ?run' db) = Some ?run'"
      using find_run_put_run [OF run0, of ?run'] by simp
    show ?thesis using append_frame [OF fresh(8) run] log by (simp add: log_inv_def)
  qed simp
  from find_task_same [OF this, of rid tid] here finalized row_move.kept [of r] show ?thesis by simp
qed

text \<open>C14. Every step of the store, seen at one task, is a step of the abstract lease protocol: a
  lease is first granted as generation one, taken over as the next generation only after it expired
  unreleased, extended or released only while it is live, and otherwise left alone.\<close>

theorem store_refines_lease_protocol:
  assumes "reachable system_init (store_step sha) s" and "store_step sha s s'"
    and "find_task rid tid (fst s) = Some row"
  shows "\<exists>row'. find_task rid tid (fst s') = Some row' \<and> lease_protocol (abs_row row) (abs_row row')"
proof -
  have inv: "system_inv sha s" by (rule store.reach_inv [OF assms(1)])
  then have "row_ok row" using find_task_Some [OF assms(3)] by (simp add: system_inv_def lease_inv_def)
  with step_row_move [OF assms(2) inv assms(3)] row_move_protocol show ?thesis by blast
qed

lemma released_row_move: "row_move row row' \<Longrightarrow> lease_released_at row \<noteq> None \<Longrightarrow> lease_owner row \<noteq> None \<Longrightarrow> row' = row"
  by (cases rule: row_move.cases) (auto simp: acquirable_def observed_active observed_expired)

lemma released_steps:
  assumes "reachable system_init (store_step sha) s" and "(store_step sha)\<^sup>*\<^sup>* s s'"
    and "find_task rid tid (fst s) = Some row" "lease_released_at row \<noteq> None"
  shows "find_task rid tid (fst s') = Some row"
  using assms(2)
proof (induction rule: rtranclp_induct)
  case base
  show ?case by (rule assms(3))
next
  case (step s1 s2)
  have inv: "system_inv sha s1"
    by (rule store.reach_inv [OF reachable_closure [OF assms(1) step(1)]])
  have "row_ok row" using inv find_task_Some [OF step(3)] by (simp add: system_inv_def lease_inv_def)
  with assms(4) have "lease_owner row \<noteq> None" by (auto simp: row_ok_def lease_shape_def)
  with step_row_move [OF step(2) inv step(3)] released_row_move assms(4) show ?case by blast
qed

text \<open>An expired lease accepts no write of its holder.\<close>

lemma expired_lease_fails:
  assumes row: "find_task rid (strip tid) db = Some row" and dead: "observed_state row t = EXPIRED"
  shows "\<not> is_ok (guard_task_git_mutation t rid tid dispatch tok db)"
    and "\<not> is_ok (renew_task_lease sha t rid tid owner dispatch tok secs db)"
    and "\<not> is_ok (release_task_lease sha t rid tid owner dispatch tok db)"
    and "\<not> is_ok (append_evidence sha t i rid key kind payload (Some tid) stage sequence (Some tok) db)"
proof -
  show "\<not> is_ok (guard_task_git_mutation t rid tid dispatch tok db)"
    using row dead by (auto simp: is_ok_iff observed_expired dest!: guard_passes)
  show "\<not> is_ok (renew_task_lease sha t rid tid owner dispatch tok secs db)"
    using row dead by (auto simp: is_ok_iff elim!: renew_commit)
  show "\<not> is_ok (release_task_lease sha t rid tid owner dispatch tok db)"
    using row dead by (auto simp: is_ok_iff observed_expired observed_active elim!: release_commit)
  have "\<not> is_ok (fenced_task t rid (Some (strip tid)) (Some tok) db)"
    using row dead by (auto simp: fenced_task_def locked_task_def assert_live_current_run_token_def
        is_ok_iff bind_res_eq_Inr observed_expired split: if_splits)
  then show "\<not> is_ok (append_evidence sha t i rid key kind payload (Some tid) stage sequence (Some tok) db)"
    by (rule fence_blocks_evidence)
qed

text \<open>A released lease is terminal: its row never changes again and no one can acquire the task. An
  expired lease is never resurrected: at any time past its expiry its holder can neither guard a Git
  mutation, heartbeat, release nor record evidence.\<close>

theorem lease_end_is_final:
  assumes "reachable system_init (store_step sha) s" and "(store_step sha)\<^sup>*\<^sup>* s s'"
    and "find_task rid (strip tid) (fst s) = Some row"
  shows "(lease_released_at row \<noteq> None \<longrightarrow> find_task rid (strip tid) (fst s') = Some row \<and>
      (\<forall>t token owner dispatch secs.
        \<not> is_ok (acquire_task_lease sha t token rid tid owner dispatch secs (fst s')))) \<and>
    (\<forall>t tok owner dispatch secs i key kind payload stage sequence.
      lease_released_at row = None \<and> lease_owner row \<noteq> None \<and> the (lease_until row) \<le> t \<longrightarrow>
        \<not> is_ok (guard_task_git_mutation t rid tid dispatch tok (fst s)) \<and>
        \<not> is_ok (renew_task_lease sha t rid tid owner dispatch tok secs (fst s)) \<and>
        \<not> is_ok (release_task_lease sha t rid tid owner dispatch tok (fst s)) \<and>
        \<not> is_ok (append_evidence sha t i rid key kind payload (Some tid) stage sequence (Some tok) (fst s)))"
proof -
  have inv: "system_inv sha s" by (rule store.reach_inv [OF assms(1)])
  have ok: "row_ok row" using inv find_task_Some [OF assms(3)] by (simp add: system_inv_def lease_inv_def)
  have "find_task rid (strip tid) (fst s') = Some row \<and>
      (\<forall>t token owner dispatch secs.
        \<not> is_ok (acquire_task_lease sha t token rid tid owner dispatch secs (fst s')))"
    if rel: "lease_released_at row \<noteq> None"
  proof -
    have still: "find_task rid (strip tid) (fst s') = Some row" by (rule released_steps [OF assms rel])
    have "\<not> acquirable row dispatch t" for dispatch t
      using rel ok by (auto simp: acquirable_def observed_expired row_ok_def lease_shape_def)
    then have "\<not> is_ok (next_lease_generation row dispatch t)" for dispatch t
      using next_lease_generation_total(1) [OF ok] by simp
    with still show ?thesis by (auto simp: is_ok_iff elim!: acquire_commit)
  qed
  moreover have "\<not> is_ok (guard_task_git_mutation t rid tid dispatch tok (fst s)) \<and>
        \<not> is_ok (renew_task_lease sha t rid tid owner dispatch tok secs (fst s)) \<and>
        \<not> is_ok (release_task_lease sha t rid tid owner dispatch tok (fst s)) \<and>
        \<not> is_ok (append_evidence sha t i rid key kind payload (Some tid) stage sequence (Some tok) (fst s))"
    if "lease_released_at row = None \<and> lease_owner row \<noteq> None \<and> the (lease_until row) \<le> t"
    for t tok owner dispatch secs i key kind payload stage sequence
  proof -
    have "observed_state row t = EXPIRED" using that by (simp add: observed_expired)
    from expired_lease_fails [OF assms(3) this] show ?thesis by simp
  qed
  ultimately show ?thesis by (intro conjI impI allI) simp_all
qed

section \<open>Granting\<close>

lemma acquire_result:
  assumes inv: "system_inv sha (db, gs)"
    and acq: "acquire_task_lease sha t token rid tid owner dispatch secs db = Inr (db', grant)"
    and row: "find_task rid (strip tid) db = Some row"
  shows "\<exists>until. lease_duration secs = Inr (until - t) \<and>
    find_task rid (strip tid) db' =
      Some (granted_row row (strip owner) dispatch (lease_generation row + 1) token t until) \<and>
    lg_run_token grant = token \<and> ls_generation (lg_snapshot grant) = lease_generation row + 1 \<and>
    ls_state (lg_snapshot grant) = ACTIVE \<and> acquirable row dispatch t \<and>
    (\<forall>k. k \<noteq> (rid, strip tid) \<longrightarrow> find_task (fst k) (snd k) db' = find_task (fst k) (snd k) db) \<and>
    run_facts db' = run_facts db"
  using acq
proof (cases rule: acquire_commit)
  case (1 run row1 previous generation until)
  have log: "log_inv sha db" and lease: "lease_inv db" using inv by (simp_all add: system_inv_def)
  have [simp]: "row1 = row" using 1(3) row by simp
  have ok: "row_ok row" using lease find_task_Some [OF row] by (simp add: lease_inv_def)
  have gen: "generation = lease_generation row + 1" "acquirable row dispatch t"
    using next_lease_generation_total [OF ok, of dispatch t] 1(4) by (auto simp: is_ok_iff)
  have key: "task_key row = (rid, strip tid)" using find_task_Some [OF row] by (simp add: task_key_def)
  note ft = row_write_find_task [OF 1(7) log]
  have "ls_state (lg_snapshot grant) = ACTIVE" "ls_generation (lg_snapshot grant) = generation"
    using 1(5,8) by (simp_all add: observe_def observed_state_def)
  moreover have "run_facts db' = run_facts db" using row_write_frame [OF 1(7) log] by simp
  ultimately show ?thesis using 1(6,8) ft gen key by (auto intro!: exI [of _ until])
qed

lemma reachable_acquire:
  assumes reach: "reachable system_init (store_step sha) (db, gs)"
    and run: "find_run rid db = Some run" "rr_status run = RUNNING"
    and row: "find_task rid (strip tid) db = Some row"
    and owner: "strip owner \<noteq> []" "length (strip owner) \<le> 255"
    and secs: "1 / 1000000 \<le> secs" "secs \<le> 86400" and t: "0 \<le> t" "t < MAX_ACQUIRE_TIME"
    and gen: "lease_generation row < 2 ^ 31 - 1" and tok: "token \<notin> fst ` set gs"
    and free: "acquirable row dispatch t"
  shows "\<exists>db' grant. acquire_task_lease sha t token rid tid owner dispatch secs db = Inr (db', grant)"
proof -
  have inv: "system_inv sha (db, gs)" "keys_inv db" using store_keys.reach_inv [OF reach] by simp_all
  have log: "log_inv sha db" and lease: "lease_inv db" and gr: "grants_inv db gs"
    using inv(1) by (simp_all add: system_inv_def)
  have mem: "row \<in> set (st_tasks db)" "tr_run row = rid" "tr_task row = strip tid"
    using find_task_Some [OF row] by simp_all
  have gen0: "0 \<le> lease_generation row"
    using lease mem(1) by (auto simp: lease_inv_def row_ok_def lease_shape_def)
  have "run_token r \<noteq> Some token" if r: "r \<in> set (st_tasks db)" for r
  proof
    assume rt: "run_token r = Some token"
    then have "lease_owner r \<noteq> None" using lease r row_token_owner [of r] by (simp add: lease_inv_def)
    then have "grants_of (task_key r) gs \<noteq> []" "token = fst (last (grants_of (task_key r) gs))"
      using gr r rt unfolding grants_inv_def by auto
    then have "token \<in> fst ` set (grants_of (task_key r) gs)" by (metis imageI last_in_set)
    then have "token \<in> fst ` set gs" by (force simp: grants_of_def)
    with tok show False by simp
  qed
  moreover have "ev_key e \<noteq> lease_key (strip tid) (lease_generation row + 1) [''acquired'']"
    if "e \<in> set (st_events db)" "ev_run e = rid" for e
  proof
    assume "ev_key e = lease_key (strip tid) (lease_generation row + 1) [''acquired'']"
    moreover have "1 \<le> lease_generation row + 1" using gen0 by simp
    ultimately have "lease_generation row + 1 \<le> lease_generation row"
      using inv(2) that mem unfolding keys_inv_def by metis
    then show False by simp
  qed
  ultimately show ?thesis
    using acquire_succeeds [OF log lease run row owner secs t gen _ free] by blast
qed

text \<open>C19. A lease on a task of a RUNNING Run is granted exactly when the task was never owned, or its
  lease expired unreleased and the dispatch is a fresh one. The grant is live, carries the new
  token and the next generation, and leaves every other task and every Run as it was.\<close>

theorem acquire_grants_iff_free:
  assumes "reachable system_init (store_step sha) (db, gs)"
    and "find_run rid db = Some run" and "rr_status run = RUNNING"
    and "find_task rid (strip tid) db = Some row"
    and "strip owner \<noteq> []" and "length (strip owner) \<le> 255"
    and "1 / 1000000 \<le> secs" and "secs \<le> 86400" and "0 \<le> t" and "t < MAX_ACQUIRE_TIME"
    and "lease_generation row < 2 ^ 31 - 1" and "token \<notin> fst ` set gs"
  shows "(is_ok (acquire_task_lease sha t token rid tid owner dispatch secs db) \<longleftrightarrow>
      lease_owner row = None \<or>
      lease_released_at row = None \<and> the (lease_until row) \<le> t \<and> lease_dispatch_id row \<noteq> Some dispatch) \<and>
    (\<forall>db' grant. acquire_task_lease sha t token rid tid owner dispatch secs db = Inr (db', grant) \<longrightarrow>
      find_task rid (strip tid) db' = Some (granted_row row (strip owner) dispatch
        (lease_generation row + 1) token t (t + timedelta_us secs)) \<and>
      lg_run_token grant = token \<and> ls_generation (lg_snapshot grant) = lease_generation row + 1 \<and>
      ls_state (lg_snapshot grant) = ACTIVE \<and>
      (\<forall>k. k \<noteq> (rid, strip tid) \<longrightarrow> find_task (fst k) (snd k) db' = find_task (fst k) (snd k) db) \<and>
      run_facts db' = run_facts db)"
proof -
  have inv: "system_inv sha (db, gs)" by (rule store.reach_inv [OF assms(1)])
  have free: "acquirable row dispatch t \<longleftrightarrow> lease_owner row = None \<or>
      lease_released_at row = None \<and> the (lease_until row) \<le> t \<and> lease_dispatch_id row \<noteq> Some dispatch"
    by (auto simp: acquirable_def observed_expired)
  have dur: "lease_duration secs = Inr (timedelta_us secs)"
    using assms(7,8) by (simp add: lease_duration_def)
  note result = acquire_result [OF inv _ assms(4)]
  have "is_ok (acquire_task_lease sha t token rid tid owner dispatch secs db) \<longleftrightarrow> acquirable row dispatch t"
    using reachable_acquire [OF assms] result by (force simp: is_ok_iff)
  moreover have "find_task rid (strip tid) db' = Some (granted_row row (strip owner) dispatch
        (lease_generation row + 1) token t (t + timedelta_us secs)) \<and>
      lg_run_token grant = token \<and> ls_generation (lg_snapshot grant) = lease_generation row + 1 \<and>
      ls_state (lg_snapshot grant) = ACTIVE \<and>
      (\<forall>k. k \<noteq> (rid, strip tid) \<longrightarrow> find_task (fst k) (snd k) db' = find_task (fst k) (snd k) db) \<and>
      run_facts db' = run_facts db"
    if acq: "acquire_task_lease sha t token rid tid owner dispatch secs db = Inr (db', grant)" for db' grant
  proof -
    from result [OF acq] dur obtain until where "timedelta_us secs = until - t" and
      r: "find_task rid (strip tid) db' =
        Some (granted_row row (strip owner) dispatch (lease_generation row + 1) token t until) \<and>
      lg_run_token grant = token \<and> ls_generation (lg_snapshot grant) = lease_generation row + 1 \<and>
      ls_state (lg_snapshot grant) = ACTIVE \<and> acquirable row dispatch t \<and>
      (\<forall>k. k \<noteq> (rid, strip tid) \<longrightarrow> find_task (fst k) (snd k) db' = find_task (fst k) (snd k) db) \<and>
      run_facts db' = run_facts db" by auto
    then have "until = t + timedelta_us secs" by simp
    with r show ?thesis by blast
  qed
  ultimately show ?thesis unfolding free by blast
qed

section \<open>Observation and the event log\<close>

text \<open>C39. In every reachable store a task can be inspected at every time: the snapshot passes the
  shape validator and shows the row, its state is EXPIRED from the expiry on, and the listing of a Run
  shows one such snapshot per task.\<close>

theorem lease_observation_total:
  assumes "reachable system_init (store_step sha) (db, gs)"
    and "find_task rid (strip tid) db = Some row" and "find_run rid db = Some run"
  shows "inspect_task_lease t rid tid db = Inr (observe row t) \<and>
    TaskLeaseSnapshot (observe row t) = Inr (observe row t) \<and>
    (abandoned (observe row t) \<longleftrightarrow>
      lease_owner row \<noteq> None \<and> lease_released_at row = None \<and> the (lease_until row) \<le> t) \<and>
    list_task_leases t rid db =
      Inr (map (\<lambda>r. observe r t) (sort_key tr_task (filter (\<lambda>r. tr_run r = rid) (st_tasks db))))"
proof -
  have inv: "system_inv sha (db, gs)" by (rule store.reach_inv [OF assms(1)])
  have all_ok: "row_ok r" if "r \<in> set (st_tasks db)" for r
    using inv that by (simp add: system_inv_def lease_inv_def)
  have mem: "row \<in> set (st_tasks db)" "tr_task row = strip tid" using find_task_Some [OF assms(2)] by simp_all
  have snap: "lease_snapshot r t = Inr (observe r t)" if "r \<in> set (st_tasks db)" for r
    by (rule lease_snapshot_total [OF all_ok [OF that]])
  have "text_between 128 (strip tid)" using all_ok [OF mem(1)] mem(2) by (simp add: row_ok_def)
  then have "required_text 128 tid = Inr (strip tid)" by (auto simp: required_text_Inr text_between_def)
  with snap [OF mem(1)] assms(2) have "inspect_task_lease t rid tid db = Inr (observe row t)"
    by (simp add: inspect_task_lease_def locked_task_def)
  moreover have "TaskLeaseSnapshot (observe row t) = Inr (observe row t)"
  proof -
    from snap [OF mem(1)] obtain s where "TaskLeaseSnapshot s = Inr (observe row t)"
      unfolding lease_snapshot_def bind_res_eq_Inr by blast
    with TaskLeaseSnapshot_id [OF this] show ?thesis by simp
  qed
  moreover have "abandoned (observe row t) \<longleftrightarrow>
      lease_owner row \<noteq> None \<and> lease_released_at row = None \<and> the (lease_until row) \<le> t"
    by (simp add: abandoned_def observe_def observed_expired)
  moreover have "map_res (\<lambda>r. lease_snapshot r t) xs = Inr (map (\<lambda>r. observe r t) xs)"
    if "set xs \<subseteq> set (st_tasks db)" for xs
    using that by (induction xs) (auto simp: snap)
  then have "list_task_leases t rid db =
      Inr (map (\<lambda>r. observe r t) (sort_key tr_task (filter (\<lambda>r. tr_run r = rid) (st_tasks db))))"
    using assms(3) by (simp add: list_task_leases_def locked_run_def)
  ultimately show ?thesis by blast
qed

text \<open>C30. The runtime event log of every Run is numbered from one without gaps up to the counter of the
  Run row, its keys are unique, a page of the log is exactly the events after the given sequence number, in
  order and at most as many as asked for, and no event carries a sensitive attribute at any depth.\<close>

theorem event_log_sound:
  assumes "reachable system_init (store_step sha) (db, gs)" and "find_run rid db = Some run"
    and "0 \<le> k" and "1 \<le> limit" and "limit \<le> 1000"
  shows "map ev_sequence (run_log rid db) = [1 .. rr_event_sequence run] \<and>
    distinct (map ev_key (run_log rid db)) \<and>
    list_runtime_events sha rid None None None None k limit db =
      Inr (take (nat limit) (drop (nat k) (run_log rid db))) \<and>
    (\<forall>e \<in> set (run_log rid db). \<forall>key \<in> set (entry_keys (ev_attributes e)). \<not> sensitive_key key)"
proof -
  have log: "log_inv sha db" using store.reach_inv [OF assms(1)] by (simp add: system_inv_def)
  have mem: "run \<in> set (st_runs db)" "rr_id run = rid" using find_run_Some [OF assms(2)] by simp_all
  have "distinct (map ev_key (run_log rid db))"
  proof -
    have "distinct (map (\<lambda>e. (ev_run e, ev_key e)) (run_log rid db))"
      using log unfolding log_inv_def run_log_def by (simp add: distinct_map_filter)
    moreover have "map (\<lambda>e. (ev_run e, ev_key e)) (run_log rid db) = map (Pair rid) (map ev_key (run_log rid db))"
      by (simp add: run_log_def)
    ultimately show ?thesis by (metis distinct_map)
  qed
  moreover have "\<not> sensitive_key key"
    if "e \<in> set (run_log rid db)" "key \<in> set (entry_keys (ev_attributes e))" for e key
  proof -
    have "event_ok sha e" using log that(1) by (auto simp: log_inv_def run_log_def)
    with that(2) show ?thesis using validate_keys(2) by (auto simp: event_ok_def)
  qed
  ultimately show ?thesis
    using log mem list_runtime_events_page [OF log assms(2-5)] by (auto simp: log_inv_def)
qed

section \<open>Evidence\<close>

text \<open>The arguments an accepted call was checked with, and what a call does once they are known.\<close>

lemma append_evidence_checked:
  assumes "append_evidence sha t new_id rid key kind payload tid stage sequence tok db = Inr (db', i)"
  obtains ntask nstage run fenced where
    "optional_text 128 tid = Inr ntask" "optional_text 64 stage = Inr nstage"
    "opt_all (\<lambda>n. 0 \<le> n) sequence" "find_run rid db = Some run" "rr_status run = RUNNING"
    "fenced_task t rid ntask tok db = Inr fenced" "required_text 255 key = Inr (strip key)"
    "is_ok (decode_evidence kind payload (evidence_schema_version kind))"
proof -
  from assms show thesis
    unfolding append_evidence_def canonical_payload_def
    by (auto simp: bind_res_eq_Inr required_text_Inr locked_run_Inr is_ok_iff split: if_splits
        intro!: that)
qed

lemma append_evidence_existing:
  assumes "optional_text 128 tid = Inr ntask" "optional_text 64 stage = Inr nstage"
    and "opt_all (\<lambda>n. 0 \<le> n) sequence" and "find_run rid db = Some run" and "rr_status run = RUNNING"
    and "fenced_task t rid ntask tok db = Inr fenced" and "required_text 255 key = Inr (strip key)"
    and "is_ok (decode_evidence kind payload (evidence_schema_version kind))"
    and "find (\<lambda>e. ei_run e = rid \<and> ei_key e = strip key) (st_evidence db) = Some x"
  shows "append_evidence sha t new_id rid key kind payload tid stage sequence tok db =
    (if same_evidence x ntask kind nstage sequence (sha (payload_json payload)) then Inr (db, ei_id x)
     else Inl (PersistenceConflictError ''evidence key was reused for different evidence''))"
proof -
  from assms(8) obtain p where "decode_evidence kind payload (evidence_schema_version kind) = Inr p"
    by (auto simp: is_ok_iff)
  with assms show ?thesis
    by (simp add: append_evidence_def canonical_payload_def locked_run_def)
qed

lemma fenced_task_facts:
  assumes "optional_text 128 tid = Inr ntask" and "fenced_task t rid ntask tok db = Inr fenced"
    and "lease_inv db" and "tid = Some name"
  shows "\<exists>row. find_task rid (strip name) db = Some row \<and> run_token row = tok \<and>
    (tok \<noteq> None \<longrightarrow> observed_state row t = ACTIVE)"
proof -
  from assms(1,4) have [simp]: "ntask = Some (strip name)"
    by (auto simp: optional_text_def bind_res_eq_Inr required_text_Inr)
  from assms(2) obtain row where row: "find_task rid (strip name) db = Some row"
    and live: "tok \<noteq> None \<or> run_token row \<noteq> None \<longrightarrow> is_ok (assert_live_current_run_token row tok t)"
    by (auto simp: fenced_task_def bind_res_eq_Inr locked_task_Inr is_ok_iff split: if_splits)
  have ok: "row_ok row" using assms(3) find_task_Some [OF row] by (simp add: lease_inv_def)
  have "run_token row = tok \<and> (tok \<noteq> None \<longrightarrow> observed_state row t = ACTIVE)"
  proof (cases "tok \<noteq> None \<or> run_token row \<noteq> None")
    case True
    with live have "run_token row = tok" "run_token row \<noteq> None" "lease_released_at row = None"
      "t < the (lease_until row)"
      by (auto simp: assert_live_current_run_token_def assert_current_run_token_def is_ok_iff
          bind_res_eq_Inr split: if_splits)
    with row_token_owner [OF ok] show ?thesis by (simp add: observed_active)
  qed simp
  with row show ?thesis by blast
qed

lemma append_evidence_effect:
  assumes log: "log_inv sha db"
    and args: "optional_text 128 tid = Inr ntask" "optional_text 64 stage = Inr nstage"
      "opt_all (\<lambda>n. 0 \<le> n) sequence" "find_run rid db = Some run" "rr_status run = RUNNING"
      "fenced_task t rid ntask tok db = Inr fenced" "required_text 255 key = Inr (strip key)"
      "is_ok (decode_evidence kind payload (evidence_schema_version kind))"
    and call: "append_evidence sha t new_id rid key kind payload tid stage sequence tok db = Inr (db', i)"
  shows "(db' = db \<or> (\<exists>e. st_evidence db' = st_evidence db @ [e] \<and> ei_id e = i \<and> ei_payload e = payload \<and>
      i \<notin> ei_id ` set (st_evidence db) \<and> ei_key e = strip key)) \<and>
    append_evidence sha t new_id' rid key kind payload tid stage sequence tok db' = Inr (db', i)"
proof -
  let ?same = "\<lambda>d. find (\<lambda>e. ei_run e = rid \<and> ei_key e = strip key) (st_evidence d)"
  show ?thesis
  proof (cases "?same db")
    case (Some x)
    from call [unfolded append_evidence_existing [OF args Some]]
    have "db' = db" "same_evidence x ntask kind nstage sequence (sha (payload_json payload))" "ei_id x = i"
      by (auto split: if_splits)
    with append_evidence_existing [OF args Some] show ?thesis by simp
  next
    case None
    let ?row = "\<lparr>ei_id = new_id, ei_run = rid, ei_task = ntask, ei_key = strip key, ei_kind = kind,
      ei_stage = nstage, ei_sequence = sequence, ei_schema_version = evidence_schema_version kind,
      ei_payload = payload, ei_sha256 = sha (payload_json payload)\<rparr>"
    let ?db1 = "db\<lparr>st_evidence := st_evidence db @ [?row]\<rparr>"
    from args(8) obtain p where p: "decode_evidence kind payload (evidence_schema_version kind) = Inr p"
      by (auto simp: is_ok_iff)
    from call args None p obtain draft e where new: "new_id \<notin> ei_id ` set (st_evidence db)" "i = new_id"
      and app: "append_runtime_event sha run draft ?db1 = Inr (db', e)"
      by (auto simp: append_evidence_def canonical_payload_def locked_run_def bind_res_eq_Inr Let_def
          split: if_splits)
    have fr: "find_run (rr_id run) ?db1 = Some run"
      using args(4) find_run_Some [OF args(4)] by (simp add: find_run_def)
    have d: "distinct (map rr_id (st_runs ?db1))" using log by (simp add: log_inv_def)
    note frame = append_frame [OF app fr d]
    have ev: "st_evidence db' = st_evidence db @ [?row]" using frame more_evidence [of db' ?db1] by simp
    have tasks: "st_tasks db' = st_tasks db" and facts: "run_facts db' = run_facts db"
      using frame by (simp_all add: run_facts_def)
    have found: "?same db' = Some ?row" unfolding ev using None by (simp add: find_append_None)
    from run_facts_find [OF facts args(4)] obtain run' where
      run': "find_run rid db' = Some run'" "rr_status run' = RUNNING" using args(5) by auto
    have fence': "fenced_task t rid ntask tok db' = Inr fenced"
    proof -
      have "locked_task rid x db' = locked_task rid x db" for x
        by (simp add: locked_task_def find_task_same [OF tasks])
      then show ?thesis using args(6) by (cases ntask) (simp_all add: fenced_task_def)
    qed
    from append_evidence_existing [OF args(1-3) run' fence' args(7,8) found]
    have "append_evidence sha t new_id' rid key kind payload tid stage sequence tok db' = Inr (db', i)"
      using new(2) by (simp add: same_evidence_def)
    with ev new show ?thesis by simp
  qed
qed


section \<open>Finality\<close>

definition run_evidence :: "uuid \<Rightarrow> 'z evidence_store_scheme \<Rightarrow> evidence_row list" where
  "run_evidence rid db = filter (\<lambda>e. ei_run e = rid) (st_evidence db)"

text \<open>A Run apart from its event counter.\<close>

definition run_fact :: "run_row \<Rightarrow> run_row" where
  "run_fact run = run\<lparr>rr_event_sequence := 0\<rparr>"

lemma find_run_put_other:
  "rr_id run' \<noteq> rid \<Longrightarrow> find_run rid (put_run run' db) = find_run rid db"
proof -
  have "rr_id run' \<noteq> rid \<Longrightarrow> find (\<lambda>r. rr_id r = rid) (map (\<lambda>r. if rr_id r = rr_id run' then run' else r) rs) =
      find (\<lambda>r. rr_id r = rid) rs" for rs
    by (induction rs) auto
  then show "rr_id run' \<noteq> rid \<Longrightarrow> ?thesis" by (simp add: find_run_def put_run_def)
qed

lemma step_run_final:
  assumes step: "store_step sha s s'" and inv: "system_inv sha s"
    and here: "find_run rid (fst s) = Some run" and closed: "rr_status run \<noteq> RUNNING"
  shows "\<exists>run'. find_run rid (fst s') = Some run' \<and> run_fact run' = run_fact run \<and>
    rr_status run' = rr_status run \<and> run_evidence rid (fst s') = run_evidence rid (fst s)"
proof -
  have log: "log_inv sha (fst s)" using inv by (simp add: system_inv_def)
  have done_if: ?thesis if "run_facts (fst s') = run_facts (fst s)" "run_store.more (fst s') = run_store.more (fst s)"
    using run_facts_find [OF that(1) here] more_evidence [OF that(2)] by (auto simp: run_evidence_def run_fact_def)
  from step show ?thesis
  proof (cases rule: store_step.cases)
    case (started projects pid contracts commit rid' db db' u gs)
    from started(3) show ?thesis
    proof (cases rule: start_run_commit)
      case (1 run0 draft0 draft e)
      let ?db1 = "db\<lparr>st_runs := st_runs db @ [run0], st_tasks := st_tasks db @ map (new_task_row sha rid') contracts\<rparr>"
      have d: "distinct (map rr_id (st_runs ?db1))" using log 1(1,5) started by (auto simp: log_inv_def)
      have fr: "find_run (rr_id run0) ?db1 = Some run0" using find_run_iff [OF d] by simp
      note frame = append_frame [OF 1(13) fr d]
      have "find_run rid ?db1 = Some run" using here started by (simp add: find_run_def find_append_Some)
      from run_facts_find [OF _ this, of db'] frame show ?thesis
        using more_evidence [of db' ?db1] started by (auto simp: run_evidence_def run_fact_def)
    qed
  next
    case (acquired t token rid' tid' owner dispatch secs db db' grant gs)
    from acquired(3) have "run_facts db' = run_facts db \<and> run_store.more db' = run_store.more db"
      using log acquired(1) by (auto elim!: acquire_commit dest!: row_write_frame)
    with done_if acquired(1,2) show ?thesis by simp
  next
    case (renewed t rid' tid' owner dispatch token secs db db' snap gs)
    from renewed(3) have "run_facts db' = run_facts db \<and> run_store.more db' = run_store.more db"
      using log renewed(1) by (auto elim!: renew_commit dest!: row_write_frame)
    with done_if renewed(1,2) show ?thesis by simp
  next
    case (released t rid' tid' owner dispatch token db db' snap gs)
    from released(3) have "run_facts db' = run_facts db \<and> run_store.more db' = run_store.more db"
      using log released(1) by (auto elim!: release_commit dest!: row_write_frame)
    with done_if released(1,2) show ?thesis by simp
  next
    case (appended t new_id rid' key kind payload tid' stage sequence tok db db' i gs)
    from appended(3) show ?thesis
    proof (cases rule: append_evidence_commit)
      case existing
      with appended show ?thesis by (intro done_if) simp_all
    next
      case (fresh run0 fenced row draft e)
      let ?db1 = "db\<lparr>st_evidence := st_evidence db @ [row]\<rparr>"
      have fr: "find_run (rr_id run0) ?db1 = Some run0"
        using fresh(1) find_run_Some [OF fresh(1)] by (simp add: find_run_def)
      note frame = append_frame [OF fresh(14) fr]
      have "rid' \<noteq> rid" using fresh(1,2) here closed appended by auto
      moreover have "run_facts db' = run_facts db" using frame log appended by (simp add: run_facts_def log_inv_def)
      moreover have "st_evidence db' = st_evidence db @ [row]"
        using frame log appended more_evidence [of db' ?db1] by (simp add: log_inv_def)
      ultimately show ?thesis
        using run_facts_find [of db' db rid run] here appended fresh(5)
        by (auto simp: run_evidence_def run_fact_def)
    qed
  next
    case (finalized t rid' result tok db db' v gs)
    from finalized(3) show ?thesis
    proof (cases rule: finalize_commit)
      case (again run0)
      with finalized show ?thesis by (intro done_if) simp_all
    next
      case (fresh run0 row status draft e)
      let ?run' = "finalized_run sha t result status run0"
      have id: "rr_id run0 = rid'" using find_run_Some [OF fresh(1)] by simp
      have run0: "find_run (rr_id run0) db = Some run0" using fresh(1) id by simp
      have fr: "find_run (rr_id ?run') (put_run ?run' db) = Some ?run'"
        using find_run_put_run [OF run0, of ?run'] by simp
      note frame = append_frame [OF fresh(8) fr]
      have "rid' \<noteq> rid" using fresh(1,2) here closed finalized by auto
      then have "find_run rid (put_run ?run' db) = Some run"
        using find_run_put_other [of ?run' rid db] here finalized id by simp
      from run_facts_find [OF _ this, of db'] frame log finalized show ?thesis
        using more_evidence [of db' db] by (auto simp: run_evidence_def run_fact_def log_inv_def)
    qed
  qed
qed

text \<open>C22. Once a Run is finalized, its status, terminal result and every other recorded fact, and its
  evidence, stay the same in all later states; no evidence can be appended and no lease acquired
  under it. A Run is terminal exactly when it has a terminal result, its digest and a finish time.\<close>

theorem finalized_run_is_final:
  assumes "reachable system_init (store_step sha) s" and "(store_step sha)\<^sup>*\<^sup>* s s'"
    and "find_run rid (fst s) = Some run" and "rr_status run \<noteq> RUNNING"
  shows "terminal_shape run \<and>
    (\<exists>run'. find_run rid (fst s') = Some run' \<and> run_fact run' = run_fact run) \<and>
    run_evidence rid (fst s') = run_evidence rid (fst s) \<and>
    (\<forall>t new_id key kind payload tid stage sequence tok.
      \<not> is_ok (append_evidence sha t new_id rid key kind payload tid stage sequence tok (fst s'))) \<and>
    (\<forall>t token tid owner dispatch secs.
      \<not> is_ok (acquire_task_lease sha t token rid tid owner dispatch secs (fst s')))"
proof -
  have "\<exists>run'. find_run rid (fst s') = Some run' \<and> run_fact run' = run_fact run \<and>
      rr_status run' = rr_status run \<and> run_evidence rid (fst s') = run_evidence rid (fst s)"
    using assms(2)
  proof (induction rule: rtranclp_induct)
    case base
    with assms(3) show ?case by simp
  next
    case (step s1 s2)
    have inv: "system_inv sha s1"
      by (rule store.reach_inv [OF reachable_closure [OF assms(1) step(1)]])
    from step(3) obtain run1 where r: "find_run rid (fst s1) = Some run1" "run_fact run1 = run_fact run"
      "rr_status run1 = rr_status run" "run_evidence rid (fst s1) = run_evidence rid (fst s)" by blast
    with step_run_final [OF step(2) inv r(1)] assms(4) show ?case by auto
  qed
  then obtain run' where run': "find_run rid (fst s') = Some run'" "run_fact run' = run_fact run"
    "rr_status run' = rr_status run" "run_evidence rid (fst s') = run_evidence rid (fst s)" by blast
  have "\<not> is_ok (append_evidence sha t new_id rid key kind payload tid stage sequence tok (fst s'))"
    for t new_id key kind payload tid stage sequence tok
    using run' assms(4) by (auto simp: is_ok_iff elim!: append_evidence_checked)
  moreover have "\<not> is_ok (acquire_task_lease sha t token rid tid owner dispatch secs (fst s'))"
    for t token tid owner dispatch secs
    using run' assms(4) by (auto simp: is_ok_iff elim!: acquire_commit)
  moreover have "terminal_shape run"
    using store.reach_inv [OF assms(1)] find_run_Some [OF assms(3)] by (simp add: system_inv_def)
  ultimately show ?thesis using run' by simp
qed

section \<open>A concrete history\<close>

text \<open>
  A Run with one task whose first lease expires and is taken over by a second worker. The hash is
  constant: nothing depends on it.
\<close>

definition demo_sha :: "json \<Rightarrow> digest" where
  "demo_sha j = 0"

definition demo_store0 :: "'z \<Rightarrow> 'z evidence_store_scheme" where
  "demo_store0 z = \<lparr>st_runs = [], st_tasks = [], st_events = [], st_evidence = [], \<dots> = z\<rparr>"

definition demo_commit :: string where
  "demo_commit = replicate 40 (CHR ''a'')"

definition demo_draft :: runtime_event_draft where
  "demo_draft = \<lparr>ed_key = ''run:started'', ed_kind = RUN_STARTED, ed_source = SRC_PERSISTENCE,
     ed_level = INFO, ed_task = None, ed_dispatch = None, ed_generation = None,
     ed_message = ''Persisted run started.'',
     ed_attributes = [(''project_id'', JStr (uuid_text 1)), (''base_commit'', JStr demo_commit),
       (''task_count'', JInt 1)]\<rparr>"

lemma demo_draft_ok: "RuntimeEventDraft demo_draft = Inr demo_draft"
proof (rule draft_ok)
  have one: "length (dec 1) \<le> 1" by (rule length_dec) simp_all
  show "entries_size (ed_attributes demo_draft) \<le> 16382"
    using one str_size_le [of "uuid_text 1" 36] str_size_le [of demo_commit 40]
      str_size_le [of "''project_id''" 10] str_size_le [of "''base_commit''" 11] str_size_le [of "''task_count''" 10]
    by (simp add: demo_draft_def demo_commit_def)
qed (simp_all add: demo_draft_def harmless_keys text_between_def opt_all_def)

lemma demo_contract_valid: "TaskContract demo_contract = Inr demo_contract"
  by code_simp

lemma demo_commit_ok: "map lower_char (strip demo_commit) = demo_commit" "oid_pattern demo_commit"
  by code_simp+

text \<open>The store just after the Run was started.\<close>

definition demo_fresh :: "'z evidence_store_scheme \<Rightarrow> bool" where
  "demo_fresh db = (reachable system_init (store_step demo_sha) (db, []) \<and>
     map_option rr_status (find_run 7 db) = Some RUNNING \<and>
     find_task 7 ''T1'' db = Some (new_task_row demo_sha 7 demo_contract) \<and>
     st_tasks db = [new_task_row demo_sha 7 demo_contract] \<and>
     map (\<lambda>e. (ev_run e, ev_key e)) (st_events db) = [(7, ''run:started'')] \<and> st_evidence db = [])"

lemma demo_reach1: "\<exists>db. demo_fresh db \<and> evidence_store.more db = z"
proof -
  let ?run = "\<lparr>rr_id = 7, rr_project = 1, rr_base_commit = demo_commit, rr_status = RUNNING,
     rr_event_sequence = 0, rr_terminal_result = None, rr_terminal_result_sha256 = None, rr_finished_at = None\<rparr>"
  let ?row = "new_task_row demo_sha 7 demo_contract"
  let ?db1 = "demo_store0 z\<lparr>st_runs := [?run], st_tasks := [?row]\<rparr>"
  have log: "log_inv demo_sha ?db1" by (simp add: log_inv_def demo_store0_def run_log_def)
  have fr: "find_run (rr_id ?run) ?db1 = Some ?run" by (simp add: find_run_def)
  have "\<exists>db' e. append_runtime_event demo_sha ?run demo_draft ?db1 = Inr (db', e) \<and>
      st_events db' = st_events ?db1 @ [e]"
    by (rule append_fresh_ok [OF log fr demo_draft_ok]) (simp_all add: demo_store0_def demo_draft_def opt_all_def)
  then obtain db' e where app: "append_runtime_event demo_sha ?run demo_draft ?db1 = Inr (db', e)"
    and ev: "st_events db' = [e]" by (auto simp: demo_store0_def)
  have key: "ev_run e = 7" "ev_key e = ''run:started''"
    using app by (auto elim!: append_cases simp: demo_draft_def)
  have start: "start_run demo_sha [1] 1 [demo_contract] demo_commit 7 (demo_store0 z) = Inr (db', 7)"
    using app demo_draft_ok unfolding start_run_def Let_def demo_commit_ok(1) demo_draft_def
    by (simp add: demo_commit_ok(2) integrity_conflict_def demo_store0_def)
  have "reachable system_init (store_step demo_sha) (demo_store0 z, [])"
    by (rule reach_init) (simp add: system_init_def empty_store_def demo_store0_def)
  then have reach: "reachable system_init (store_step demo_sha) (db', [])"
    by (rule reach_step) (rule store_step.started [OF start], simp add: demo_contract_valid)
  have "distinct (map rr_id (st_runs ?db1))" by simp
  note frame = append_frame [OF app fr this]
  have "find_run 7 ?db1 = Some ?run" by (simp add: find_run_def)
  from run_facts_find [OF _ this, of db'] frame have "map_option rr_status (find_run 7 db') = Some RUNNING" by auto
  moreover have "find_task 7 ''T1'' db' = Some ?row"
    using frame by (simp add: find_task_def new_task_row_def demo_contract_def)
  moreover have "st_evidence db' = []" using frame more_evidence [of db' ?db1] by (simp add: demo_store0_def)
  moreover have "map (\<lambda>e. (ev_run e, ev_key e)) (st_events db') = [(7, ''run:started'')]" using ev key by simp
  moreover have "st_tasks db' = [?row]" using frame by simp
  ultimately have "demo_fresh db'" unfolding demo_fresh_def using reach by (intro conjI)
  moreover have "evidence_store.more db' = z"
    using frame more_beyond_evidence [of db' ?db1] by (simp add: demo_store0_def)
  ultimately show ?thesis by blast
qed

text \<open>One more acquisition of the demo task.\<close>

lemma demo_acquire:
  assumes reach: "reachable system_init (store_step demo_sha) (db :: 'z evidence_store_scheme, gs)"
    and run: "map_option rr_status (find_run 7 db) = Some RUNNING"
    and row: "find_task 7 ''T1'' db = Some row"
    and t: "0 \<le> t" "t < MAX_ACQUIRE_TIME" and gen: "lease_generation row < 100" and tok: "token \<notin> fst ` set gs"
    and free: "acquirable row dispatch t"
  shows "\<exists>db'. store_step demo_sha (db, gs)
      (db', gs @ [(token, (7, ''T1''), lease_generation row + 1)]) \<and>
    map_option rr_status (find_run 7 db') = Some RUNNING \<and>
    run_store.more db' = run_store.more db \<and>
    find_task 7 ''T1'' db' =
      Some (granted_row row ''w'' dispatch (lease_generation row + 1) token t (t + 30000000))"
proof -
  obtain r where r: "find_run 7 db = Some r" "rr_status r = RUNNING" using run by auto
  have s: "strip ''T1'' = ''T1''" "strip ''w'' = ''w''" by code_simp+
  have row': "find_task 7 (strip ''T1'') db = Some row" using row s by simp
  have d: "timedelta_us 30 = 30000000" by (simp add: timedelta_us_def)
  from reachable_acquire [OF reach r row', of "''w''" 30 t token dispatch] s t gen tok free
  obtain db' grant where acq: "acquire_task_lease demo_sha t token 7 ''T1'' ''w'' dispatch 30 db = Inr (db', grant)"
    by auto
  have inv: "system_inv demo_sha (db, gs)" by (rule store.reach_inv [OF reach])
  note res = acquire_result [OF inv acq row', unfolded s]
  have "store_step demo_sha (db, gs)
      (db', gs @ [(token, (7, strip ''T1''), ls_generation (lg_snapshot grant))])"
    by (rule store_step.acquired [OF acq tok])
  with res s have "store_step demo_sha (db, gs) (db', gs @ [(token, (7, ''T1''), lease_generation row + 1)])"
    by auto
  moreover have "run_store.more db' = run_store.more db"
    using acq
  proof (cases rule: acquire_commit)
    case 1
    have "log_inv demo_sha db" using inv by (simp add: system_inv_def)
    from row_write_frame [OF 1(7) this] show ?thesis by simp
  qed
  moreover have "map_option rr_status (find_run 7 db') = Some RUNNING"
    using res run_facts_find [of db' db 7 r] r by auto
  moreover have "find_task 7 ''T1'' db' =
      Some (granted_row row ''w'' dispatch (lease_generation row + 1) token t (t + 30000000))"
  proof -
    from res obtain until where u: "lease_duration 30 = Inr (until - t)" "find_task 7 ''T1'' db' =
      Some (granted_row row ''w'' dispatch (lease_generation row + 1) token t until)" by blast
    with d have "until = t + 30000000" by (simp add: lease_duration_def)
    with u(2) show ?thesis by simp
  qed
  ultimately show ?thesis by blast
qed

lemma demo_leased:
  "\<exists>db row. reachable system_init (store_step demo_sha) (db, [(100, (7, ''T1''), 1)]) \<and>
     map_option rr_status (find_run 7 db) = Some RUNNING \<and> find_task 7 ''T1'' db = Some row \<and>
     lease_generation row = 1 \<and> run_token row = Some 100 \<and> lease_owner row = Some ''w'' \<and>
     evidence_store.more db = z \<and> st_evidence db = [] \<and> tr_task row = ''T1'' \<and>
     lease_dispatch_id row = Some 11 \<and> lease_until row = Some 30000000 \<and> lease_released_at row = None"
proof -
  obtain db where r: "reachable system_init (store_step demo_sha) (db, [])" "st_evidence db = []" "evidence_store.more db = z"
    "map_option rr_status (find_run 7 db) = Some RUNNING"
    "find_task 7 ''T1'' db = Some (new_task_row demo_sha 7 demo_contract)"
    using demo_reach1 [of z] unfolding demo_fresh_def by (elim exE conjE)
  obtain db' where step: "store_step demo_sha (db, []) (db', [(100, (7, ''T1''), 1)])"
    and run: "map_option rr_status (find_run 7 db') = Some RUNNING"
    and more: "run_store.more db' = run_store.more db"
    and row: "find_task 7 ''T1'' db' = Some (granted_row (new_task_row demo_sha 7 demo_contract) ''w'' 11 1 100 0 30000000)"
    using demo_acquire [OF r(1,4,5), of 0 100 11] by (auto simp: new_task_row_def MAX_ACQUIRE_TIME_def acquirable_def)
  have "evidence_store.more db' = z" "st_evidence db' = []"
    using more_beyond_evidence [OF more] more_evidence [OF more] r(2,3) by simp_all
  with row run reach_step [OF r(1) step] show ?thesis
    by (intro exI conjI) (assumption | simp add: granted_row_def new_task_row_def demo_contract_def)+
qed

lemma demo_taken_over:
  "\<exists>db row. reachable system_init (store_step demo_sha)
       (db :: evidence_store, [(100, (7, ''T1''), 1), (200, (7, ''T1''), 2)]) \<and>
     map_option rr_status (find_run 7 db) = Some RUNNING \<and> find_task 7 ''T1'' db = Some row \<and>
     lease_generation row = 2 \<and> run_token row = Some 200 \<and> lease_owner row = Some ''w'' \<and>
     lease_until row = Some 70000000 \<and> lease_released_at row = None"
proof -
  obtain db row where reach: "reachable system_init (store_step demo_sha) (db :: evidence_store, [(100, (7, ''T1''), 1)])"
    and run: "map_option rr_status (find_run 7 db) = Some RUNNING" and row: "find_task 7 ''T1'' db = Some row"
    and f: "lease_generation row = 1" "lease_owner row = Some ''w''" "lease_dispatch_id row = Some 11"
      "lease_until row = Some 30000000" "lease_released_at row = None"
    using demo_leased [of "()"] by blast
  have "acquirable row 12 40000000" using f by (simp add: acquirable_def observed_expired)
  with demo_acquire [OF reach run row, of 40000000 200 12] f reach_step [OF reach] show ?thesis
    by (fastforce simp: MAX_ACQUIRE_TIME_def)
qed

theorem lease_fencing_witness:
  "\<exists>db gs. reachable system_init (store_step demo_sha) (db :: evidence_store, gs) \<and>
     (100, (7, ''T1''), 1) \<in> set gs \<and> \<not> is_ok (guard_task_git_mutation 0 7 ''T1'' 11 100 db)"
proof -
  obtain db row where r: "reachable system_init (store_step demo_sha)
      (db :: evidence_store, [(100, (7, ''T1''), 1), (200, (7, ''T1''), 2)])"
    "find_task 7 ''T1'' db = Some row" "lease_generation row = 2"
    using demo_taken_over by blast
  have s: "strip ''T1'' = ''T1''" by code_simp
  from lease_fencing [OF r(1), of 7 "''T1''" row 100 1] r s show ?thesis by fastforce
qed

theorem store_refines_lease_protocol_witness:
  "\<exists>s s' row row'. store_step demo_sha (s :: unit system) s' \<and> find_task 7 ''T1'' (fst s) = Some row \<and>
     find_task 7 ''T1'' (fst s') = Some row' \<and> lease_protocol (abs_row row) (abs_row row')"
proof -
  obtain db where r: "reachable system_init (store_step demo_sha) (db :: evidence_store, [])"
    "map_option rr_status (find_run 7 db) = Some RUNNING"
    "find_task 7 ''T1'' db = Some (new_task_row demo_sha 7 demo_contract)"
    using demo_reach1 [of "()"] unfolding demo_fresh_def by (elim exE conjE)
  obtain db' where step: "store_step demo_sha (db, []) (db', [(100, (7, ''T1''), 1)])"
    using demo_acquire [OF r, of 0 100 11] by (auto simp: new_task_row_def MAX_ACQUIRE_TIME_def acquirable_def)
  from store_refines_lease_protocol [OF r(1) step, of 7 "''T1''"] r(3) step show ?thesis by fastforce
qed

theorem lease_end_is_final_witness:
  "\<exists>s row. reachable system_init (store_step demo_sha) (s :: unit system) \<and>
     find_task 7 ''T1'' (fst s) = Some row \<and> lease_until row = Some 30000000 \<and>
     \<not> is_ok (guard_task_git_mutation 30000000 7 ''T1'' 11 100 (fst s))"
proof -
  obtain db row where r: "reachable system_init (store_step demo_sha) (db :: evidence_store, [(100, (7, ''T1''), 1)])"
    "find_task 7 ''T1'' db = Some row" "lease_owner row = Some ''w''" "lease_until row = Some 30000000"
    "lease_released_at row = None"
    using demo_leased [of "()"] by blast
  have s: "strip ''T1'' = ''T1''" by code_simp
  have "\<not> is_ok (guard_task_git_mutation 30000000 7 ''T1'' 11 100 db)"
    using lease_end_is_final [OF r(1) rtranclp.rtrancl_refl, of 7 "''T1''" row] r s by simp
  with r show ?thesis by (intro exI [of _ "(db, [(100, (7, ''T1''), 1)])"] exI [of _ row]) simp
qed

theorem acquire_grants_iff_free_witness:
  "\<exists>db. is_ok (acquire_task_lease demo_sha 40000000 200 7 ''T1'' ''w'' 12 30 (db :: evidence_store)) \<and>
     \<not> is_ok (acquire_task_lease demo_sha 20000000 200 7 ''T1'' ''w'' 12 30 db)"
proof -
  obtain db row where r: "reachable system_init (store_step demo_sha) (db :: evidence_store, [(100, (7, ''T1''), 1)])"
    "map_option rr_status (find_run 7 db) = Some RUNNING" "find_task 7 ''T1'' db = Some row"
    "lease_owner row = Some ''w''" "lease_until row = Some 30000000" "lease_released_at row = None"
    "lease_dispatch_id row = Some 11" "lease_generation row = 1"
    using demo_leased [of "()"] by blast
  obtain run where run: "find_run 7 db = Some run" "rr_status run = RUNNING" using r(2) by auto
  have s: "strip ''T1'' = ''T1''" "strip ''w'' = ''w''" by code_simp+
  have row: "find_task 7 (strip ''T1'') db = Some row" using r(3) s by simp
  have "is_ok (acquire_task_lease demo_sha 40000000 200 7 ''T1'' ''w'' 12 30 db)"
    using acquire_grants_iff_free [OF r(1) run row, of "''w''" 30 40000000 200 12] s r
    by (simp add: MAX_ACQUIRE_TIME_def)
  moreover have "\<not> is_ok (acquire_task_lease demo_sha 20000000 200 7 ''T1'' ''w'' 12 30 db)"
    using acquire_grants_iff_free [OF r(1) run row, of "''w''" 30 20000000 200 12] s r
    by (simp add: MAX_ACQUIRE_TIME_def)
  ultimately show ?thesis by blast
qed

theorem lease_observation_total_witness:
  "\<exists>db row. inspect_task_lease 30000000 7 ''T1'' (db :: evidence_store) = Inr (observe row 30000000) \<and>
     abandoned (observe row 30000000)"
proof -
  obtain db row where r: "reachable system_init (store_step demo_sha) (db :: evidence_store, [(100, (7, ''T1''), 1)])"
    "map_option rr_status (find_run 7 db) = Some RUNNING" "find_task 7 ''T1'' db = Some row"
    "lease_owner row = Some ''w''" "lease_until row = Some 30000000" "lease_released_at row = None"
    using demo_leased [of "()"] by blast
  obtain run where run: "find_run 7 db = Some run" using r(2) by auto
  have s: "strip ''T1'' = ''T1''" by code_simp
  have row: "find_task 7 (strip ''T1'') db = Some row" using r(3) s by simp
  from lease_observation_total [OF r(1) row run, of 30000000] r show ?thesis by auto
qed

lemma upto_singleton: "[x] = [1 .. n] \<Longrightarrow> x = 1" for n :: int
  by (cases "1 \<le> n") (auto simp: upto_rec1)

theorem event_log_sound_witness:
  "\<exists>db log. list_runtime_events demo_sha 7 None None None None 0 10 (db :: evidence_store) = Inr log \<and>
     map ev_key log = [''run:started''] \<and> map ev_sequence log = [1]"
proof -
  obtain db where r: "reachable system_init (store_step demo_sha) (db :: evidence_store, [])"
    "map_option rr_status (find_run 7 db) = Some RUNNING"
    "map (\<lambda>e. (ev_run e, ev_key e)) (st_events db) = [(7, ''run:started'')]"
    using demo_reach1 [of "()"] unfolding demo_fresh_def by (elim exE conjE)
  obtain run where run: "find_run 7 db = Some run" using r(2) by auto
  obtain e where e: "st_events db = [e]" "ev_run e = 7" "ev_key e = ''run:started''" using r(3) by auto
  then have log: "run_log 7 db = [e]" by (simp add: run_log_def)
  note page = event_log_sound [OF r(1) run, of 0 10, unfolded log]
  then have "ev_sequence e = 1" by (intro upto_singleton [of _ "rr_event_sequence run"]) simp
  with page e show ?thesis by (intro exI [of _ db] exI [of _ "[e]"]) simp
qed

text \<open>A result finalizes the demo Run, and evidence is recorded before it.\<close>

definition demo_result :: run_result_ref where
  "demo_result = \<lparr>rs_task = ''T1'', rs_status = T_FAILED, rs_dump = JNull\<rparr>"

definition demo_evidence :: evidence_row where
  "demo_evidence = \<lparr>ei_id = 1, ei_run = 7, ei_task = Some ''T1'', ei_key = ''k'', ei_kind = FAILURE_REPORT,
     ei_stage = None, ei_sequence = Some 0, ei_schema_version = 1,
     ei_payload = ModelPayload FAILURE_REPORT JNull, ei_sha256 = 0\<rparr>"

lemma demo_texts: "strip ''T1'' = ''T1''" "strip ''k'' = ''k''"
  by code_simp+

lemma demo_final_draft_ok:
  "RuntimeEventDraft (finalized_draft (new_task_row demo_sha 7 demo_contract) demo_result FAILED d) =
   Inr (finalized_draft (new_task_row demo_sha 7 demo_contract) demo_result FAILED d)"
proof (rule draft_ok)
  show "entries_size (ed_attributes (finalized_draft (new_task_row demo_sha 7 demo_contract) demo_result FAILED d)) \<le> 16382"
    using str_size_le [of "digest_text d" 64] str_size_le [of "''status''" 6] str_size_le [of "''FAILED''" 6]
      str_size_le [of "''terminal_result_sha256''" 22]
    by (simp add: finalized_draft_def status_value_def)
qed (simp_all add: finalized_draft_def harmless_keys text_between_def opt_all_def demo_result_def
    new_task_row_def status_value_def)

lemma demo_finalized:
  "\<exists>db db'. store_step demo_sha (db :: evidence_store, []) (db', []) \<and> demo_fresh db \<and>
     map_option rr_status (find_run 7 db') = Some FAILED"
proof -
  obtain db :: evidence_store where f: "demo_fresh db" using demo_reach1 [of "()"] by blast
  let ?row = "new_task_row demo_sha 7 demo_contract"
  have reach: "reachable system_init (store_step demo_sha) (db, [])" and tasks: "st_tasks db = [?row]"
    and evs: "map (\<lambda>e. (ev_run e, ev_key e)) (st_events db) = [(7, ''run:started'')]"
    using f by (simp_all add: demo_fresh_def)
  obtain run where run: "find_run 7 db = Some run" "rr_status run = RUNNING" using f by (auto simp: demo_fresh_def)
  have log: "log_inv demo_sha db" using store.reach_inv [OF reach] by (simp add: system_inv_def)
  let ?run' = "finalized_run demo_sha 5 demo_result FAILED run"
  let ?d = "finalized_draft ?row demo_result FAILED (demo_sha JNull)"
  have id: "rr_id run = 7" using find_run_Some [OF run(1)] by simp
  then have run0: "find_run (rr_id run) db = Some run" using run by simp
  have fr: "find_run (rr_id ?run') (put_run ?run' db) = Some ?run'"
    using find_run_put_run [OF run0, of ?run'] by simp
  have log': "log_inv demo_sha (put_run ?run' db)" by (rule log_inv_put_run [OF log run0]) simp_all
  obtain e0 where e0: "st_events db = [e0]" "ev_key e0 = ''run:started''" using evs by auto
  have ft: "find_task 7 ''T1'' db = Some ?row" using f by (simp add: demo_fresh_def)
  have "\<exists>db' e. append_runtime_event demo_sha ?run' ?d (put_run ?run' db) = Inr (db', e) \<and>
      st_events db' = st_events (put_run ?run' db) @ [e]"
    by (rule append_fresh_ok [OF log' fr demo_final_draft_ok])
      (simp_all add: e0 finalized_draft_def opt_all_def demo_result_def id ft)
  then obtain db' e where app: "append_runtime_event demo_sha ?run' ?d (put_run ?run' db) = Inr (db', e)" by blast
  have "finalize_single_task_run demo_sha 5 7 demo_result None db = Inr (db', ())"
    using app run tasks demo_final_draft_ok [of "demo_sha JNull"]
    by (simp add: finalize_single_task_run_def Let_def from_task_state_def demo_result_def locked_run_def
        new_task_row_def demo_contract_def)
  then have "store_step demo_sha (db, []) (db', [])" by (rule store_step.finalized)
  moreover have "map_option rr_status (find_run 7 db') = Some FAILED"
  proof -
    have "distinct (map rr_id (st_runs (put_run ?run' db)))" using log by (simp add: log_inv_def)
    note frame = append_frame [OF app fr this]
    from run_facts_find [OF _ fr, of db'] frame id show ?thesis by auto
  qed
  ultimately show ?thesis using f by blast
qed

theorem finalized_run_is_final_witness:
  "\<exists>s run. find_run 7 (fst (s :: unit system)) = Some run \<and> rr_status run = FAILED \<and> terminal_shape run \<and>
     \<not> is_ok (append_evidence demo_sha 9 1 7 ''k'' FAILURE_REPORT (ModelPayload FAILURE_REPORT JNull) None None None None (fst s))"
proof -
  obtain db db' where s: "store_step demo_sha (db :: evidence_store, []) (db', [])" "demo_fresh db"
    "map_option rr_status (find_run 7 db') = Some FAILED" using demo_finalized by blast
  have reach: "reachable system_init (store_step demo_sha) (db', [])"
    using s(1,2) by (auto simp: demo_fresh_def intro: reach_step)
  obtain run where run: "find_run 7 (fst (db', [] :: grant_log)) = Some run" "rr_status run = FAILED" using s(3) by auto
  from finalized_run_is_final [OF reach rtranclp.rtrancl_refl run(1)] run show ?thesis
    by (intro exI [of _ "(db', [])"] exI [of _ run]) simp
qed

lemma demo_evidence_draft_ok:
  "is_ok (evidence_event_draft demo_evidence (Some (new_task_row demo_sha 7 demo_contract)) FAILURE_REPORT)"
proof -
  let ?d = "\<lparr>ed_key = join_colon [''evidence'', dec 1], ed_kind = EVIDENCE_RECORDED, ed_source = SRC_RUNTIME,
    ed_level = ERROR, ed_task = Some ''T1'', ed_dispatch = None, ed_generation = None,
    ed_message = ''Accepted '' @ kind_value FAILURE_REPORT @ '' evidence.'',
    ed_attributes = [(''evidence_id'', JInt 1), (''evidence_key'', JStr ''k''),
      (''evidence_kind'', JStr (kind_value FAILURE_REPORT)), (''stage'', JNull),
      (''evidence_sequence'', JInt 0), (''payload_sha256'', JStr (digest_text 0))]\<rparr>"
  have one: "length (dec 1) \<le> 1" "length (dec 0) \<le> 1" by (rule length_dec; simp)+
  have "RuntimeEventDraft ?d = Inr ?d"
  proof (rule draft_ok)
    show "entries_size (ed_attributes ?d) \<le> 16382"
      using one str_size_le [of "digest_text 0" 64] str_size_le [of "''evidence_id''" 11]
        str_size_le [of "''evidence_key''" 12] str_size_le [of "''evidence_kind''" 13] str_size_le [of "''stage''" 5]
        str_size_le [of "''evidence_sequence''" 17] str_size_le [of "''payload_sha256''" 14]
        str_size_le [of "''k''" 1] str_size_le [of "''FAILURE_REPORT''" 14]
      by simp
  qed (use one in \<open>simp_all add: harmless_keys text_between_def opt_all_def\<close>)
  then show ?thesis
    by (simp add: evidence_event_draft_def demo_evidence_def new_task_row_def json_option_def)
qed

lemma demo_recorded:
  "\<exists>(db :: evidence_store) db'. demo_fresh db \<and> append_evidence demo_sha 5 1 7 ''k'' FAILURE_REPORT (ModelPayload FAILURE_REPORT JNull)
     (Some ''T1'') None (Some 0) None db = Inr (db', 1)"
proof -
  obtain db :: evidence_store where f: "demo_fresh db" using demo_reach1 [of "()"] by blast
  let ?row = "new_task_row demo_sha 7 demo_contract"
  let ?db1 = "db\<lparr>st_evidence := [demo_evidence]\<rparr>"
  have reach: "reachable system_init (store_step demo_sha) (db, [])" and ev: "st_evidence db = []"
    and evs: "map (\<lambda>e. (ev_run e, ev_key e)) (st_events db) = [(7, ''run:started'')]"
    and ft: "find_task 7 ''T1'' db = Some ?row"
    using f by (simp_all add: demo_fresh_def)
  obtain run where run: "find_run 7 db = Some run" "rr_status run = RUNNING" using f by (auto simp: demo_fresh_def)
  have id: "rr_id run = 7" using find_run_Some [OF run(1)] by simp
  obtain d where d: "evidence_event_draft demo_evidence (Some ?row) FAILURE_REPORT = Inr d"
    using demo_evidence_draft_ok by (auto simp: is_ok_iff)
  then have draft: "RuntimeEventDraft d = Inr d" and key: "hd (ed_key d) = CHR ''e''" and tk: "ed_task d = Some ''T1''"
    by (auto simp: evidence_event_draft_def demo_evidence_def dest: draft_id)
  have log: "log_inv demo_sha ?db1"
    using store.reach_inv [OF reach] by (simp add: system_inv_def log_inv_def run_log_def)
  have fr: "find_run (rr_id run) ?db1 = Some run" using run id by (simp add: find_run_def)
  obtain e0 where e0: "st_events db = [e0]" "ev_key e0 = ''run:started''" using evs by auto
  have nk: "ed_key d \<noteq> ''run:started''" using key by (cases "ed_key d = ''run:started''") simp_all
  have "\<exists>db' e. append_runtime_event demo_sha run d ?db1 = Inr (db', e) \<and> st_events db' = st_events ?db1 @ [e]"
    by (rule append_fresh_ok [OF log fr draft]) (use e0 nk [symmetric] tk ft id in \<open>simp_all add: opt_all_def find_task_def\<close>)
  then obtain db' e where app: "append_runtime_event demo_sha run d ?db1 = Inr (db', e)" by blast
  have "append_evidence demo_sha 5 1 7 ''k'' FAILURE_REPORT (ModelPayload FAILURE_REPORT JNull)
     (Some ''T1'') None (Some 0) None db = Inr (db', 1)"
    using app d run ft ev
    by (simp add: append_evidence_def required_text_def optional_text_def demo_texts opt_all_def
        canonical_payload_def decode_evidence_def evidence_schema_version_def locked_run_def fenced_task_def
        locked_task_def new_task_row_def demo_evidence_def demo_sha_def)
  with f show ?thesis by blast
qed


end
