(* ===== verification/Dispatch_Safety.thy ===== *)
theory Dispatch_Safety
  imports Reconciliation Store_Safety "HOL-Library.Multiset"
begin

text \<open>
  Dispatchers, reconcilers and workers on one store, interleaved transaction by transaction. The
  theorems: a dispatch identity is published at most once, the ledger is sound and its outcomes are
  final, a recovery is prepared exactly when it is due and then only once, and it is published only
  while nobody can be working on the task.
\<close>

section \<open>The system\<close>

text \<open>
  Besides the store and the log of fencing tokens, a state has the dispatch identities that some
  process has the authority to publish but has not handed to the broker yet (from
  \<open>begin_initial_attempt\<close> returning a new attempt, or \<open>prepare_task\<close> a prepared one), and those handed
  to the broker. A process that dies simply never takes its next step; \<open>lost\<close> is a reconciler that
  dies between the broker call and its commit. \<open>mark_enqueued\<close> and \<open>mark_publish_failed\<close> may be called
  at any time with any arguments.
\<close>

record 'z dispatch_system =
  ds_db :: "'z dispatch_store_scheme"
  ds_grants :: grant_log
  ds_initial :: "uuid list"
  ds_prepared :: "uuid list"
  ds_sent :: "uuid list"

inductive dispatch_step :: "(json \<Rightarrow> digest) \<Rightarrow> 'z dispatch_system \<Rightarrow> 'z dispatch_system \<Rightarrow> bool" for sha where
  worker: "store_step sha (ds_db s, ds_grants s) (db', gs') \<Longrightarrow>
    dispatch_step sha s (s\<lparr>ds_db := db', ds_grants := gs'\<rparr>)"
| begun: "begin_initial_attempt t d rid tid (ds_db s) = Inr (db', a, created) \<Longrightarrow>
    dispatch_step sha s (s\<lparr>ds_db := db', ds_initial := ds_initial s @ (if created then [d] else [])\<rparr>)"
| sent: "d \<in> set (ds_initial s) \<Longrightarrow>
    dispatch_step sha s (s\<lparr>ds_initial := remove1 d (ds_initial s), ds_sent := ds_sent s @ [d]\<rparr>)"
| enqueued: "mark_enqueued t d rid tid m q (ds_db s) = Inr (db', a) \<Longrightarrow> dispatch_step sha s (s\<lparr>ds_db := db'\<rparr>)"
| failed: "mark_publish_failed t d rid tid c m (ds_db s) = Inr (db', a) \<Longrightarrow> dispatch_step sha s (s\<lparr>ds_db := db'\<rparr>)"
| prepared: "prepare_task sha t new_id rid tid (ds_db s) = Inr (db', made) \<Longrightarrow>
    dispatch_step sha s (s\<lparr>ds_db := db',
      ds_prepared := ds_prepared s @ (if rd_action made = PREPARED_DISPATCH then [new_id] else [])\<rparr>)"
| published: "d \<in> set (ds_prepared s) \<Longrightarrow> publish_prepared sha t1 t2 m q rid tid d (ds_db s) = Inr (db', r) \<Longrightarrow>
    dispatch_step sha s
      (s\<lparr>ds_db := db', ds_prepared := remove1 d (ds_prepared s), ds_sent := ds_sent s @ [d]\<rparr>)"
| lost: "d \<in> set (ds_prepared s) \<Longrightarrow> guard_prepared_publication sha t1 rid tid d (ds_db s) = Inr target \<Longrightarrow>
    dispatch_step sha s (s\<lparr>ds_prepared := remove1 d (ds_prepared s), ds_sent := ds_sent s @ [d]\<rparr>)"

definition dispatch_init :: "'z dispatch_system \<Rightarrow> bool" where
  "dispatch_init s = (system_init (ds_db s, ds_grants s) \<and> st_attempts (ds_db s) = [] \<and>
     ds_initial s = [] \<and> ds_prepared s = [] \<and> ds_sent s = [])"

text \<open>Every identity that was handed out is an attempt, and is in one place only.\<close>

definition authorities :: "'z dispatch_system \<Rightarrow> uuid list" where
  "authorities s = ds_initial s @ ds_prepared s @ ds_sent s"

definition dispatch_inv :: "(json \<Rightarrow> digest) \<Rightarrow> 'z dispatch_system \<Rightarrow> bool" where
  "dispatch_inv sha s = (system_inv sha (ds_db s, ds_grants s) \<and> ledger_inv (ds_db s) \<and>
     distinct (authorities s) \<and> set (authorities s) \<subseteq> da_id ` set (st_attempts (ds_db s)))"

section \<open>The invariant\<close>

lemma system_inv_attempts [simp]:
  "system_inv sha (db\<lparr>st_attempts := xs\<rparr>, gs) = system_inv sha (db, gs)"
  by (simp add: system_inv_def log_inv_def lease_inv_def grants_inv_def evidence_inv_def run_log_def)

lemma ledger_change_inv:
  assumes "dispatch_inv sha s" and "ledger_inv db'"
    and "\<exists>xs. db' = (ds_db s)\<lparr>st_attempts := xs\<rparr>" and "da_id ` set (st_attempts (ds_db s)) \<subseteq> da_id ` set (st_attempts db')"
  shows "dispatch_inv sha (s\<lparr>ds_db := db'\<rparr>)"
  using assms by (auto simp: dispatch_inv_def authorities_def)

lemma new_outcome_inv:
  assumes "dispatch_inv sha s" and "new_outcome a (ds_db s) db'"
  shows "dispatch_inv sha (s\<lparr>ds_db := db'\<rparr>)"
proof (rule ledger_change_inv [OF assms(1)])
  have inv: "ledger_inv (ds_db s)" using assms(1) by (simp add: dispatch_inv_def)
  note led = new_outcome_ledger [OF inv assms(2)]
  from led show "ledger_inv db'" by simp
  show "\<exists>xs. db' = (ds_db s)\<lparr>st_attempts := xs\<rparr>" using assms(2) by (auto simp: new_outcome_def put_attempt_def)
  from led show "da_id ` set (st_attempts (ds_db s)) \<subseteq> da_id ` set (st_attempts db')"
    by (metis list.set_map subset_refl)
qed

text \<open>A new attempt puts its identity into one of the lists.\<close>

lemma new_attempt_inv:
  assumes inv: "dispatch_inv sha s" and new: "new_attempt a (ds_db s) db'"
    and auth: "mset (authorities s') = mset (da_id a # authorities s)"
    and s': "ds_db s' = db'" "ds_grants s' = ds_grants s"
  shows "dispatch_inv sha s'"
proof -
  have led: "ledger_inv (ds_db s)" using inv by (simp add: dispatch_inv_def)
  note n = new_attempt_ledger [OF led new]
  have db': "db' = (ds_db s)\<lparr>st_attempts := st_attempts (ds_db s) @ [a]\<rparr>" using new by (simp add: new_attempt_def)
  have set: "set (authorities s') = insert (da_id a) (set (authorities s))"
    using mset_eq_setD [OF auth] by simp
  have "da_id a \<notin> set (authorities s)" using inv n by (auto simp: dispatch_inv_def)
  then have "distinct (da_id a # authorities s)" using inv by (simp add: dispatch_inv_def)
  then have "distinct (authorities s')" using mset_eq_imp_distinct_iff [OF auth] by blast
  then show ?thesis using inv n set by (auto simp: dispatch_inv_def s' db')
qed

text \<open>Handing an identity to the broker moves it.\<close>

lemma authority_moved:
  assumes "dispatch_inv sha s" and "mset (authorities s') = mset (authorities s)"
    and "ds_db s' = ds_db s" "ds_grants s' = ds_grants s"
  shows "dispatch_inv sha s'"
  using assms mset_eq_setD [OF assms(2)] mset_eq_imp_distinct_iff [OF assms(2)]
  by (simp add: dispatch_inv_def)

lemma move_initial:
  "d \<in> set (ds_initial s) \<Longrightarrow>
   mset (authorities (s\<lparr>ds_initial := remove1 d (ds_initial s), ds_sent := ds_sent s @ [d]\<rparr>)) = mset (authorities s)"
  by (simp add: authorities_def)

lemma move_prepared:
  "d \<in> set (ds_prepared s) \<Longrightarrow>
   mset (authorities (s\<lparr>ds_prepared := remove1 d (ds_prepared s), ds_sent := ds_sent s @ [d]\<rparr>)) = mset (authorities s)"
  by (simp add: authorities_def)

text \<open>What every step does to the ledger.\<close>

lemma dispatch_step_inv:
  assumes "dispatch_inv sha s" and "dispatch_step sha s s'"
  shows "dispatch_inv sha s' \<and> ledger_grows (ds_db s) (ds_db s')"
proof -
  have led: "ledger_inv (ds_db s)" and sys: "system_inv sha (ds_db s, ds_grants s)"
    using assms(1) by (simp_all add: dispatch_inv_def)
  from assms(2) show ?thesis
  proof cases
    case (worker db' gs')
    from store_step_beyond [OF worker(2) sys] have att: "st_attempts db' = st_attempts (ds_db s)"
      and keys: "task_key ` set (st_tasks (ds_db s)) \<subseteq> task_key ` set (st_tasks db')"
      by (cases "ds_db s"; cases db'; simp)+
    have tas: "task_attempts rid tid db' = task_attempts rid tid (ds_db s)" for rid tid
      by (simp add: task_attempts_def att)
    have "ledger_inv db'" using led keys unfolding ledger_inv_def att tas by blast
    moreover have "system_inv sha (db', gs')" by (rule store_step_inv [OF sys worker(2)])
    ultimately show ?thesis using assms(1) worker(1) by (auto simp: dispatch_inv_def authorities_def ledger_grows_def att)
  next
    case (begun t d rid tid db' a created)
    note c = begin_commit [OF begun(2)]
    show ?thesis
    proof (cases created)
      case True
      with c have new: "new_attempt a (ds_db s) db'" "da_id a = d" by auto
      have "dispatch_inv sha s'"
        by (rule new_attempt_inv [OF assms(1) new(1)]) (use begun(1) True new(2) in \<open>simp_all add: authorities_def\<close>)
      with new_attempt_ledger [OF led new(1)] begun(1) show ?thesis by simp
    qed (use c begun(1) assms(1) in simp)
  next
    case (sent d)
    then show ?thesis using authority_moved [OF assms(1) move_initial [OF sent(2)]] by simp
  next
    case (enqueued t d rid tid m q db' a)
    with mark_enqueued_commit [OF enqueued(2)] new_outcome_inv [OF assms(1)] new_outcome_ledger [OF led] assms(1)
    show ?thesis by auto
  next
    case (failed t d rid tid c m db' a)
    with mark_publish_failed_commit [OF failed(2)] new_outcome_inv [OF assms(1)] new_outcome_ledger [OF led] assms(1)
    show ?thesis by auto
  next
    case (prepared t new_id rid tid db' made)
    note c = prepare_commit [OF prepared(2) led]
    show ?thesis
    proof (cases "rd_action made = PREPARED_DISPATCH")
      case True
      with c obtain a where new: "new_attempt a (ds_db s) db'" "da_id a = new_id" by auto
      have "dispatch_inv sha s'"
        by (rule new_attempt_inv [OF assms(1) new(1)]) (use prepared(1) True new(2) in \<open>simp_all add: authorities_def\<close>)
      with new_attempt_ledger [OF led new(1)] prepared(1) show ?thesis by simp
    next
      case False
      with c have "db' = ds_db s" by simp
      with False prepared(1) assms(1) show ?thesis by simp
    qed
  next
    case (published d t1 t2 m q rid tid db' r)
    from publication_commit [OF published(3) led] obtain a where a: "new_outcome a (ds_db s) db'" by blast
    have "dispatch_inv sha (s\<lparr>ds_db := db'\<rparr>)" by (rule new_outcome_inv [OF assms(1) a])
    then have "dispatch_inv sha s'"
      by (rule authority_moved) (use published(1,2) in \<open>simp_all add: authorities_def\<close>)
    with new_outcome_ledger [OF led a] published(1) show ?thesis by simp
  next
    case (lost d t1 rid tid target)
    then show ?thesis using authority_moved [OF assms(1) move_prepared [OF lost(2)]] by simp
  qed
qed

lemma dispatch_init_inv: "dispatch_init s \<Longrightarrow> dispatch_inv sha s"
  by (auto simp: dispatch_init_def dispatch_inv_def authorities_def ledger_inv_def task_attempts_def
      intro: system_init_inv)

interpretation dispatching: transition_system dispatch_init "dispatch_step sha" "dispatch_inv sha"
  for sha :: "json \<Rightarrow> digest"
  by unfold_locales (auto intro: dispatch_init_inv dest: dispatch_step_inv)

lemma steps_grow:
  assumes "dispatch_inv sha s" and "(dispatch_step sha)\<^sup>*\<^sup>* s s'"
  shows "ledger_grows (ds_db s) (ds_db s')"
  using assms(2)
proof (induction rule: rtranclp_induct)
  case (step u v)
  then have "dispatch_inv sha u" using dispatching.steps_inv [OF assms(1)] by blast
  with step show ?case using dispatch_step_inv ledger_grows_trans by blast
qed simp

section \<open>The dispatcher\<close>

lemma receipt_of_attempt:
  assumes "receipt_from_attempt a = Inr r"
  shows "rc_dispatch r = da_id a \<and> rc_run r = da_run a \<and> rc_task r = da_task a \<and> da_state a = ENQUEUED \<and>
    da_message_id a = Some (rc_message_id r) \<and> da_queue_name a = Some (rc_queue_name r)"
  using assms by (auto simp: receipt_from_attempt_def TaskDispatchReceipt_def split: if_splits option.splits)

lemma find_attempt_put:
  assumes "new_outcome a db db'"
  shows "find_attempt (da_id a) db' = Some a"
proof -
  from assms obtain row where row: "find (\<lambda>x. da_id x = da_id a) (st_attempts db) = Some row"
    and db': "db' = put_attempt a db"
    by (auto simp: new_outcome_def find_attempt_def)
  have "find (\<lambda>x. da_id x = da_id a) xs = Some row \<Longrightarrow>
      find (\<lambda>x. da_id x = da_id a) (map (\<lambda>x. if da_id x = da_id a then a else x) xs) = Some a" for xs
    by (induction xs) (auto split: if_splits)
  from this [OF row] show ?thesis by (simp add: find_attempt_def db' put_attempt_def)
qed

lemma publication_outcome:
  assumes "record_publication t sent queue e db = (r, db')" and "ledger_inv db"
    and "find_attempt (te_dispatch e) db \<noteq> None"
  shows "ledger_inv db' \<and> find_attempt (te_dispatch e) db' \<noteq> None \<and> (\<exists>xs. db' = db\<lparr>st_attempts := xs\<rparr>) \<and>
    (\<forall>receipt. r = Inr receipt \<longrightarrow> (\<exists>a row. find_attempt (te_dispatch e) db' = Some a \<and> receipt_from_attempt a = Inr receipt \<and>
       da_run a = te_run e \<and> da_task a = strip (te_task e) \<and>
       find_attempt (te_dispatch e) db = Some row \<and> da_number a = da_number row))"
proof -
  have written: "ledger_inv db1 \<and> find_attempt (da_id a) db1 = Some a \<and> (\<exists>xs. db1 = db\<lparr>st_attempts := xs\<rparr>) \<and>
      (\<exists>row. find_attempt (da_id a) db = Some row \<and> da_number a = da_number row)"
    if "db1 = db \<and> find_attempt (da_id a) db = Some a \<or> new_outcome a db db1" for a db1
  proof (cases "new_outcome a db db1")
    case True
    with new_outcome_ledger [OF assms(2) True] find_attempt_put [OF True] show ?thesis
      by (auto simp: new_outcome_def put_attempt_def outcome_of_def)
  next
    case False
    with that have "db1 = db" "find_attempt (da_id a) db = Some a" by simp_all
    moreover have "db = db\<lparr>st_attempts := st_attempts db\<rparr>" by simp
    ultimately show ?thesis using assms(2) by blast
  qed
  have keep: "\<exists>xs. db = db\<lparr>st_attempts := xs\<rparr>" by (rule exI [of _ "st_attempts db"]) simp
  show ?thesis
  proof (cases sent)
    case None
    then show ?thesis
    proof (cases "mark_publish_failed t (te_dispatch e) (te_run e) (te_task e) BROKER_ERROR_CODE BROKER_ERROR_MESSAGE db")
      case (Inr p)
      then obtain db1 a where p: "p = (db1, a)" by (cases p)
      note c = mark_publish_failed_commit [OF Inr [unfolded p]]
      with written [of db1 a] None Inr p assms(1) show ?thesis by (auto simp: record_publication_def)
    qed (use None assms keep in \<open>auto simp: record_publication_def\<close>)
  next
    case (Some m)
    then show ?thesis
    proof (cases "mark_enqueued t (te_dispatch e) (te_run e) (te_task e) m queue db")
      case (Inr p)
      then obtain db1 a where p: "p = (db1, a)" by (cases p)
      note c = mark_enqueued_commit [OF Inr [unfolded p]]
      with written [of db1 a] Some Inr p assms(1) show ?thesis by (auto simp: record_publication_def)
    qed (use Some assms keep in \<open>auto simp: record_publication_def\<close>)
  qed
qed

text \<open>What a dispatch that got past its checks leaves behind.\<close>

lemma dispatch_result:
  assumes "dispatch load_run t1 t2 sent queue d rid tid db = (r, db', es)" and inv: "ledger_inv db"
  shows "(es = [] \<or> es = [\<lparr>te_dispatch = d, te_run = rid, te_task = tid\<rparr>] \<and>
      find_attempt d db = None \<and> find_attempt d db' \<noteq> None) \<and>
    (\<forall>receipt. r = Inr receipt \<longrightarrow> (\<exists>a snapshot run. find_attempt d db' = Some a \<and> receipt_from_attempt a = Inr receipt \<and>
       da_run a = rid \<and> da_task a = strip tid \<and> da_number a = 1 \<and> ledger_inv db' \<and> (\<exists>xs. db' = db\<lparr>st_attempts := xs\<rparr>) \<and>
       load_run rid = Inr snapshot \<and> rv_status snapshot = RUNNING \<and> tid \<in> set (rv_tasks snapshot) \<and>
       text_between 128 tid \<and> required_text 128 tid = Inr (strip tid) \<and> find_run rid db = Some run \<and>
       rr_status run = RUNNING \<and> find_task rid (strip tid) db \<noteq> None))"
proof -
  let ?e = "\<lparr>te_dispatch = d, te_run = rid, te_task = tid\<rparr>"
  let ?pre = "bind_res (load_run rid) (\<lambda>snapshot.
         if rv_status snapshot \<noteq> RUNNING
         then Inl (TaskDispatchRejectedError ''only persisted RUNNING runs may dispatch tasks'')
         else if tid \<notin> set (rv_tasks snapshot)
         then Inl (TaskDispatchRejectedError ''task does not belong to persisted run'')
         else bind_res (TaskDispatchEnvelope ?e) (\<lambda>e.
           bind_res (begin_initial_attempt t1 d rid tid db) (\<lambda>(db1, a, created). Inr (e, db1, a, created))))"
  show ?thesis
  proof (cases ?pre)
    case (Inl x)
    with assms(1) show ?thesis by (auto simp: dispatch_def)
  next
    case (Inr p)
    then obtain snapshot db1 a created where pre: "load_run rid = Inr snapshot" "rv_status snapshot = RUNNING"
      "tid \<in> set (rv_tasks snapshot)" "text_between 128 tid"
      and b: "begin_initial_attempt t1 d rid tid db = Inr (db1, a, created)" and p: "p = (?e, db1, a, created)"
      by (auto simp: bind_res_eq_Inr TaskDispatchEnvelope_def split: if_splits)
    note c = begin_commit [OF b]
    obtain run where run: "find_run rid db = Some run" "rr_status run = RUNNING" "find_task rid (strip tid) db \<noteq> None"
      "required_text 128 tid = Inr (strip tid)"
      using b by (auto simp: begin_initial_attempt_def bind_res_eq_Inr required_text_Inr locked_run_Inr locked_task_Inr
          split: if_splits)
    show ?thesis
    proof (cases created)
      case False
      with assms(1) Inr p have res: "es = []" "db' = db1"
        "r = (if da_state a = ENQUEUED then receipt_from_attempt a else Inl (TaskDispatchRejectedError
                  ''durable dispatch attempt is unresolved or failed; recovery must decide any retry''))"
        by (auto simp: dispatch_def split: if_splits)
      have "\<exists>xs. db = db\<lparr>st_attempts := xs\<rparr>" by (rule exI [of _ "st_attempts db"]) simp
      with False c res inv pre run show ?thesis by (auto split: if_splits)
    next
      case True
      with c have new: "new_attempt a db db1" "da_id a = d" by auto
      note led = new_attempt_ledger [OF inv new(1)]
      from True assms(1) Inr p have pub: "record_publication t2 sent queue ?e db1 = (r, db')" "es = [?e]"
        by (auto simp: dispatch_def split: prod.splits)
      have found: "find_attempt d db = None" "find_attempt d db1 \<noteq> None"
        using new led by (auto simp: new_attempt_def find_attempt_None)
      from publication_outcome [OF pub(1)] led found
      have out: "ledger_inv db'" "find_attempt d db' \<noteq> None" "\<exists>xs. db' = db1\<lparr>st_attempts := xs\<rparr>"
        "\<And>receipt. r = Inr receipt \<Longrightarrow> \<exists>b row. find_attempt d db' = Some b \<and> receipt_from_attempt b = Inr receipt \<and>
          da_run b = rid \<and> da_task b = strip tid \<and> find_attempt d db1 = Some row \<and> da_number b = da_number row"
        by auto
      have one: "da_number row = 1" if "find_attempt d db1 = Some row" for row
        using that found(1) c new by (auto simp: new_attempt_def find_attempt_def find_append_None)
      have out1: "\<exists>b. find_attempt d db' = Some b \<and> receipt_from_attempt b = Inr receipt \<and>
          da_run b = rid \<and> da_task b = strip tid \<and> da_number b = 1" if "r = Inr receipt" for receipt
        using out(4) [OF that] one by force
      have "\<exists>xs. db' = db\<lparr>st_attempts := xs\<rparr>" using out(3) new(1) by (auto simp: new_attempt_def)
      then show ?thesis using pub(2) found(1) out(1,2) out1 pre run by blast
    qed
  qed
qed

section \<open>Properties\<close>

text \<open>C12. At most one publication: however dispatchers, reconcilers and workers interleave, and wherever
  they crash, no dispatch identity is handed to the broker twice, every identity handed out is a
  durable attempt that was recorded before, and nobody still holds the authority to publish an
  identity that was already handed over.\<close>

theorem dispatch_published_once:
  assumes "reachable dispatch_init (dispatch_step sha) s"
  shows "distinct (ds_sent s) \<and> set (ds_sent s) \<subseteq> da_id ` set (st_attempts (ds_db s)) \<and>
    set (ds_sent s) \<inter> set (ds_initial s @ ds_prepared s) = {}"
  using dispatching.reach_inv [OF assms] by (auto simp: dispatch_inv_def authorities_def)

text \<open>C24. The ledger is sound: in every reachable state each attempt validates, identities are unique,
  the attempts of a task are numbered from one without gaps (so the corruption check of recovery on
  the history never fires); and whatever happens later, no attempt is lost and a recorded outcome, the
  broker's acknowledgement or its error, is never rewritten.\<close>

theorem dispatch_ledger_sound:
  assumes "reachable dispatch_init (dispatch_step sha) s" and "(dispatch_step sha)\<^sup>*\<^sup>* s s'"
  shows "distinct (map da_id (st_attempts (ds_db s))) \<and>
    (\<forall>a \<in> set (st_attempts (ds_db s)). PersistedDispatchAttempt a = Inr a) \<and>
    locked_attempts rid tid (ds_db s) = Inr (task_attempts rid tid (ds_db s)) \<and>
    validate_attempt_history (task_attempts rid tid (ds_db s)) = Inr () \<and>
    (\<forall>a \<in> set (st_attempts (ds_db s)). \<exists>b \<in> set (st_attempts (ds_db s')).
       da_id b = da_id a \<and> da_run b = da_run a \<and> da_task b = da_task a \<and> da_number b = da_number a \<and>
       (da_state a \<noteq> REQUESTED \<longrightarrow> b = a))"
proof -
  have inv: "dispatch_inv sha s" by (rule dispatching.reach_inv [OF assms(1)])
  then have led: "ledger_inv (ds_db s)" by (simp add: dispatch_inv_def)
  have "\<exists>b \<in> set (st_attempts (ds_db s')). da_id b = da_id a \<and> da_run b = da_run a \<and> da_task b = da_task a \<and>
      da_number b = da_number a \<and> (da_state a \<noteq> REQUESTED \<longrightarrow> b = a)"
    if "a \<in> set (st_attempts (ds_db s))" for a
    using steps_grow [OF inv assms(2)] that unfolding ledger_grows_def outcome_of_def by metis
  with led locked_attempts_ok [OF led] show ?thesis by (simp add: ledger_inv_def)
qed

text \<open>C18. Recovery is prepared exactly when it is due: \<open>prepare_task\<close> authorizes a publication iff the Run
  is running and the task either was never dispatched, or is held by its latest dispatch whose lease
  ran out, unreleased, without terminal evidence. Then the only change is one new attempt, numbered
  next; otherwise nothing changes. Asking again changes nothing and is told to wait for that
  very attempt.\<close>

theorem recovery_prepared_exactly_once:
  assumes "reachable dispatch_init (dispatch_step sha) s"
    and "prepare_task sha t new_id rid tid (ds_db s) = Inr (db', d)" and "t \<le> t'"
  shows "(rd_action d = PREPARED_DISPATCH \<longleftrightarrow>
      (\<exists>run row. find_run rid (ds_db s) = Some run \<and> rr_status run = RUNNING \<and>
        find_task rid (strip tid) (ds_db s) = Some row \<and> recovery_due t rid (strip tid) (ds_db s) row)) \<and>
    (rd_action d \<noteq> PREPARED_DISPATCH \<longrightarrow> db' = ds_db s \<and> \<not> rd_publish_allowed d) \<and>
    (rd_action d = PREPARED_DISPATCH \<longrightarrow>
      (\<exists>a. rd_attempt d = Some a \<and> da_id a = new_id \<and> da_state a = REQUESTED \<and>
        st_attempts db' = st_attempts (ds_db s) @ [a] \<and>
        da_number a = int (length (task_attempts rid (strip tid) (ds_db s))) + 1 \<and>
        (\<exists>d'. prepare_task sha t' new_id' rid tid db' = Inr (db', d') \<and>
           rd_action d' = WAIT_EXISTING_DISPATCH \<and> rd_attempt d' = Some a)))"
proof -
  have led: "ledger_inv (ds_db s)" using dispatching.reach_inv [OF assms(1)] by (simp add: dispatch_inv_def)
  note c = prepare_commit [OF assms(2) led]
  have "\<exists>a. rd_attempt d = Some a \<and> da_id a = new_id \<and> da_state a = REQUESTED \<and>
        st_attempts db' = st_attempts (ds_db s) @ [a] \<and>
        da_number a = int (length (task_attempts rid (strip tid) (ds_db s))) + 1 \<and>
        (\<exists>d'. prepare_task sha t' new_id' rid tid db' = Inr (db', d') \<and>
           rd_action d' = WAIT_EXISTING_DISPATCH \<and> rd_attempt d' = Some a)"
    if "rd_action d = PREPARED_DISPATCH"
    using c that prepare_again [OF assms(2) led that assms(3), of new_id'] by (auto simp: new_attempt_def)
  with c show ?thesis by auto
qed

text \<open>C20. A recovery never races a live owner: the publication window of a prepared dispatch opens only
  while the Run is running, for the latest attempt of the task, still unresolved and without any trace
  of a worker, when the task is unowned or its lease ran out unreleased under another dispatch that
  left no terminal evidence. A committed publication resolves exactly that attempt, and its receipt
  names it.\<close>

theorem recovery_publication_guarded:
  assumes "reachable dispatch_init (dispatch_step sha) s"
    and "publish_prepared sha t1 t2 sent queue rid tid d (ds_db s) = Inr (db', r)"
  shows "(\<exists>run row target. find_run rid (ds_db s) = Some run \<and> rr_status run = RUNNING \<and>
      find_task rid (strip tid) (ds_db s) = Some row \<and> find_attempt d (ds_db s) = Some target \<and>
      da_state target = REQUESTED \<and> last (task_attempts rid (strip tid) (ds_db s)) = target \<and>
      d \<notin> executed_dispatches (worker_rows rid (strip tid) (ds_db s)) \<union>
          observed_dispatches (worker_rows rid (strip tid) (ds_db s)) \<and>
      (lease_owner row = None \<or>
        (\<exists>ld until. lease_dispatch_id row = Some ld \<and> ld \<noteq> d \<and> lease_until row = Some until \<and> until \<le> t1 \<and>
          lease_released_at row = None \<and> ld \<notin> executed_dispatches (worker_rows rid (strip tid) (ds_db s))))) \<and>
    (\<exists>a. db' = put_attempt a (ds_db s) \<and> da_id a = d \<and>
      da_state a = (if sent = None then PUBLISH_FAILED else ENQUEUED)) \<and>
    map_option rc_dispatch r = (if sent = None then None else Some d)"
proof -
  have led: "ledger_inv (ds_db s)" using dispatching.reach_inv [OF assms(1)] by (simp add: dispatch_inv_def)
  from publication_commit [OF assms(2) led] obtain a target where
    g: "guard_prepared_publication sha t1 rid tid d (ds_db s) = Inr target"
    and a: "db' = put_attempt a (ds_db s)" "da_id a = d" "da_state a = (if sent = None then PUBLISH_FAILED else ENQUEUED)"
    and r: "map_option rc_dispatch r = (if sent = None then None else Some d)"
    by (auto simp: new_outcome_def split: option.splits)
  from guard_safe [OF g led] a r show ?thesis by blast
qed

text \<open>The dispatcher records before it publishes and is idempotent: it hands at most one envelope to
  the broker, and only for an identity that had no attempt before and durably has one after. When it
  returns a receipt, the attempt is ENQUEUED with the facts of the receipt, and dispatching the same
  identity again returns the same receipt without publishing or writing anything, whatever the broker
  would have answered.\<close>

theorem durable_dispatch_idempotent:
  assumes "reachable dispatch_init (dispatch_step sha) s"
    and "dispatch load_run t1 t2 sent queue d rid tid (ds_db s) = (r, db', es)"
  shows "(es = [] \<or> es = [\<lparr>te_dispatch = d, te_run = rid, te_task = tid\<rparr>] \<and>
      find_attempt d (ds_db s) = None \<and> find_attempt d db' \<noteq> None) \<and>
    (\<forall>receipt. r = Inr receipt \<longrightarrow>
      (\<exists>a. find_attempt d db' = Some a \<and> da_state a = ENQUEUED \<and>
        da_message_id a = Some (rc_message_id receipt) \<and> da_queue_name a = Some (rc_queue_name receipt)) \<and>
      rc_dispatch receipt = d \<and>
      dispatch load_run t1' t2' sent' queue' d rid tid db' = (Inr receipt, db', []))"
proof -
  have led: "ledger_inv (ds_db s)" using dispatching.reach_inv [OF assms(1)] by (simp add: dispatch_inv_def)
  note res = dispatch_result [OF assms(2) led]
  have "(\<exists>a. find_attempt d db' = Some a \<and> da_state a = ENQUEUED \<and>
        da_message_id a = Some (rc_message_id receipt) \<and> da_queue_name a = Some (rc_queue_name receipt)) \<and>
      rc_dispatch receipt = d \<and> dispatch load_run t1' t2' sent' queue' d rid tid db' = (Inr receipt, db', [])"
    if r: "r = Inr receipt" for receipt
  proof -
    from res r obtain a snapshot run xs where a: "find_attempt d db' = Some a" "receipt_from_attempt a = Inr receipt"
      and ident: "da_run a = rid" "da_task a = strip tid" "da_number a = 1"
      and inv': "ledger_inv db'" and db': "db' = (ds_db s)\<lparr>st_attempts := xs\<rparr>"
      and pre: "load_run rid = Inr snapshot" "rv_status snapshot = RUNNING" "tid \<in> set (rv_tasks snapshot)"
        "text_between 128 tid" "required_text 128 tid = Inr (strip tid)"
      and run: "find_run rid (ds_db s) = Some run" "rr_status run = RUNNING" "find_task rid (strip tid) (ds_db s) \<noteq> None"
      by blast
    note rc = receipt_of_attempt [OF a(2)]
    have "decode_attempt a = Inr a"
      using inv' find_attempt_Some [OF a(1)] by (simp add: decode_attempt_Inr ledger_inv_def)
    moreover have "locked_run rid db' = Inr run" "\<exists>row. locked_task rid (strip tid) db' = Inr row"
      using run by (auto simp: db' locked_run_def locked_task_def find_run_def find_task_def)
    ultimately have "begin_initial_attempt t1' d rid tid db' = Inr (db', a, False)"
      using pre(5) run(2) a(1) ident by (auto simp: begin_initial_attempt_def)
    then have "dispatch load_run t1' t2' sent' queue' d rid tid db' = (receipt_from_attempt a, db', [])"
      using pre(1-4) rc by (simp add: dispatch_def TaskDispatchEnvelope_def)
    with a rc find_attempt_Some [OF a(1)] show ?thesis by auto
  qed
  with res show ?thesis by blast
qed

section \<open>A concrete recovery\<close>

text \<open>
  The task of the demo Run is leased by dispatch 11 until second 30, and the ledger records that
  dispatch as its first attempt. At second 40 a reconciler prepares dispatch 12 and publishes it.
\<close>

lemma store_reaches_dispatch:
  assumes "reachable system_init (store_step sha) (x :: ('a dispatch_store_ext) system)"
    and "st_attempts (fst x) = []"
  shows "reachable dispatch_init (dispatch_step sha)
    \<lparr>ds_db = fst x, ds_grants = snd x, ds_initial = [], ds_prepared = [], ds_sent = []\<rparr>"
  using assms
proof (induction rule: reachable.induct)
  case (reach_init x)
  then show ?case by (intro reachable.reach_init) (simp add: dispatch_init_def)
next
  case (reach_step x y)
  have inv: "system_inv sha x" by (rule store.reach_inv [OF reach_step(1)])
  have "st_attempts (fst x) = []"
    using store_step_beyond [OF reach_step(2) inv] reach_step(4) by (cases "fst x"; cases "fst y"; simp)
  with reach_step(3) have "reachable dispatch_init (dispatch_step sha)
    \<lparr>ds_db = fst x, ds_grants = snd x, ds_initial = [], ds_prepared = [], ds_sent = []\<rparr>" by blast
  moreover have "dispatch_step sha
    \<lparr>ds_db = fst x, ds_grants = snd x, ds_initial = [], ds_prepared = [], ds_sent = []\<rparr>
    \<lparr>ds_db = fst y, ds_grants = snd y, ds_initial = [], ds_prepared = [], ds_sent = []\<rparr>"
    using dispatch_step.worker [of sha "\<lparr>ds_db = fst x, ds_grants = snd x, ds_initial = [], ds_prepared = [], ds_sent = []\<rparr>"
        "fst y" "snd y"] reach_step(2) by simp
  ultimately show ?case by (rule reachable.reach_step)
qed

definition demo_leased_row :: "task_row \<Rightarrow> bool" where
  "demo_leased_row row = (lease_generation row = 1 \<and> lease_owner row = Some ''w'' \<and> tr_task row = ''T1'' \<and>
     lease_dispatch_id row = Some 11 \<and> lease_until row = Some 30000000 \<and> lease_released_at row = None)"

lemma strip_T1: "strip ''T1'' = ''T1''"
  by code_simp

text \<open>The state before the first attempt, the attempt, and the state with it recorded.\<close>

definition demo_first :: dispatch_attempt where
  "demo_first = requested_row 11 7 ''T1'' 1 5"

definition demo_unattempted :: "unit dispatch_system \<Rightarrow> bool" where
  "demo_unattempted s = (reachable dispatch_init (dispatch_step demo_sha) s \<and>
     (\<exists>run row. find_run 7 (ds_db s) = Some run \<and> rr_status run = RUNNING \<and>
        find_task 7 ''T1'' (ds_db s) = Some row \<and> demo_leased_row row) \<and>
     st_evidence (ds_db s) = [] \<and> st_attempts (ds_db s) = [] \<and>
     ds_initial s = [] \<and> ds_prepared s = [] \<and> ds_sent s = [])"

definition demo_attempted :: "unit dispatch_system \<Rightarrow> bool" where
  "demo_attempted s = (reachable dispatch_init (dispatch_step demo_sha) s \<and>
     (\<exists>run row. find_run 7 (ds_db s) = Some run \<and> rr_status run = RUNNING \<and>
        find_task 7 ''T1'' (ds_db s) = Some row \<and> demo_leased_row row) \<and>
     st_evidence (ds_db s) = [] \<and> st_attempts (ds_db s) = [requested_row 11 7 ''T1'' 1 5] \<and>
     ds_initial s = [11] \<and> ds_prepared s = [] \<and> ds_sent s = [])"

lemma demo_unattempted_ex: "\<exists>s. demo_unattempted s"
proof -
  obtain db row where r: "reachable system_init (store_step demo_sha) (db, [(100, (7, ''T1''), 1)])"
    and run: "map_option rr_status (find_run 7 db) = Some RUNNING" and row: "find_task 7 ''T1'' db = Some row"
    and f: "lease_generation row = 1" "lease_owner row = Some ''w''" "tr_task row = ''T1''"
      "lease_dispatch_id row = Some 11" "lease_until row = Some 30000000" "lease_released_at row = None"
    and more: "evidence_store.more db = \<lparr>st_attempts = [], \<dots> = ()\<rparr>" and ev: "st_evidence db = []"
    using demo_leased [of "\<lparr>st_attempts = [], \<dots> = ()\<rparr>"] by (elim exE conjE)
  have att: "st_attempts db = []" using more by (cases db) simp
  obtain rr where rr: "find_run 7 db = Some rr" "rr_status rr = RUNNING" using run by auto
  let ?s = "\<lparr>ds_db = db, ds_grants = [(100, (7, ''T1''), 1)], ds_initial = [], ds_prepared = [], ds_sent = []\<rparr>"
  have "reachable dispatch_init (dispatch_step demo_sha) ?s"
    using store_reaches_dispatch [OF r] att by simp
  then have "demo_unattempted ?s" using rr row f ev att by (simp add: demo_unattempted_def demo_leased_row_def)
  then show ?thesis ..
qed

lemma demo_begin:
  assumes "demo_unattempted s"
  shows "begin_initial_attempt 5 11 7 ''T1'' (ds_db s) = Inr ((ds_db s)\<lparr>st_attempts := [demo_first]\<rparr>, demo_first, True)"
proof -
  from assms obtain run row where run: "find_run 7 (ds_db s) = Some run" "rr_status run = RUNNING"
    and row: "find_task 7 ''T1'' (ds_db s) = Some row" and att: "st_attempts (ds_db s) = []"
    unfolding demo_unattempted_def by (elim exE conjE)
  have ok: "decode_attempt demo_first = Inr demo_first" by code_simp
  have "insert_row demo_first (ds_db s) = Inr ((ds_db s)\<lparr>st_attempts := [demo_first]\<rparr>)"
    unfolding insert_row_def att using row by (simp add: demo_first_def requested_row_def attempt_shape_def)
  then have "insert_attempt 11 7 ''T1'' 1 5 (ds_db s) = Inr ((ds_db s)\<lparr>st_attempts := [demo_first]\<rparr>, demo_first)"
    unfolding insert_attempt_def demo_first_def [symmetric] Let_def by (simp add: ok)
  with run row att strip_T1 show ?thesis
    by (simp add: begin_initial_attempt_def required_text_def locked_run_def locked_task_def find_attempt_def
        task_attempts_def)
qed

lemma demo_attempted_ex: "\<exists>s. demo_attempted s"
proof -
  obtain s where s: "demo_unattempted s" using demo_unattempted_ex ..
  then have reach: "reachable dispatch_init (dispatch_step demo_sha) s" by (simp add: demo_unattempted_def)
  let ?db' = "(ds_db s)\<lparr>st_attempts := [demo_first]\<rparr>"
  let ?s' = "s\<lparr>ds_db := ?db', ds_initial := ds_initial s @ (if True then [11] else [])\<rparr>"
  have "dispatch_step demo_sha s ?s'" by (rule dispatch_step.begun) (rule demo_begin [OF s])
  with reach have "reachable dispatch_init (dispatch_step demo_sha) ?s'" by (rule reach_step)
  moreover have "find_run 7 ?db' = find_run 7 (ds_db s)" "find_task 7 ''T1'' ?db' = find_task 7 ''T1'' (ds_db s)"
    by (simp_all add: find_run_def find_task_def)
  ultimately have "demo_attempted ?s'" using s by (simp add: demo_unattempted_def demo_attempted_def demo_first_def)
  then show ?thesis ..
qed

lemma demo_reads:
  assumes "demo_attempted s"
  obtains run row where
    "recovery_reads demo_sha 7 (strip ''T1'') (ds_db s) run row \<lparr>ws_workers = [], ws_dispatches = []\<rparr>"
    "demo_leased_row row" "ledger_inv (ds_db s)"
    "task_attempts 7 (strip ''T1'') (ds_db s) = [requested_row 11 7 ''T1'' 1 5]"
proof -
  from assms have reach: "reachable dispatch_init (dispatch_step demo_sha) s"
    and ev: "st_evidence (ds_db s) = []" and att: "st_attempts (ds_db s) = [requested_row 11 7 ''T1'' 1 5]"
    by (simp_all add: demo_attempted_def)
  from assms obtain run row where run: "find_run 7 (ds_db s) = Some run" "rr_status run = RUNNING"
    and row: "find_task 7 ''T1'' (ds_db s) = Some row" "demo_leased_row row"
    unfolding demo_attempted_def by (elim exE conjE)
  have inv: "system_inv demo_sha (ds_db s, ds_grants s)" "ledger_inv (ds_db s)"
    using dispatching.reach_inv [OF reach] by (simp_all add: dispatch_inv_def)
  have "row \<in> set (st_tasks (ds_db s))" using find_task_Some [OF row(1)] by simp
  then have "lease_shape row" using inv(1) unfolding system_inv_def lease_inv_def row_ok_def by auto
  then have shape: "validate_task_lease_shape row = Inr ()" by (rule lease_shape_validates)
  have tas: "task_attempts 7 ''T1'' (ds_db s) = [requested_row 11 7 ''T1'' 1 5]"
    by (simp add: task_attempts_def att requested_row_def)
  have "validated_worker_side_evidence demo_sha 7 ''T1'' as (ds_db s) = Inr \<lparr>ws_workers = [], ws_dispatches = []\<rparr>" for as
    by (simp add: validated_worker_side_evidence_def ev)
  with run row shape have
    "recovery_reads demo_sha 7 (strip ''T1'') (ds_db s) run row \<lparr>ws_workers = [], ws_dispatches = []\<rparr>"
    by (simp add: recovery_reads_def strip_T1 demo_leased_row_def)
  then show thesis using row(2) inv(2) tas by (intro that) (simp_all add: strip_T1)
qed

definition demo_recovery :: dispatch_attempt where
  "demo_recovery = requested_row 12 7 ''T1'' 2 40000000"

lemma demo_prepared:
  assumes "demo_attempted s"
  obtains d where "prepare_task demo_sha 40000000 12 7 ''T1'' (ds_db s) =
      Inr ((ds_db s)\<lparr>st_attempts := st_attempts (ds_db s) @ [demo_recovery]\<rparr>, d)"
    "rd_action d = PREPARED_DISPATCH" "rd_attempt d = Some demo_recovery"
proof -
  obtain run row where reads:
    "recovery_reads demo_sha 7 (strip ''T1'') (ds_db s) run row \<lparr>ws_workers = [], ws_dispatches = []\<rparr>"
    and row: "demo_leased_row row" and inv: "ledger_inv (ds_db s)"
    and tas: "task_attempts 7 (strip ''T1'') (ds_db s) = [requested_row 11 7 ''T1'' 1 5]"
    using demo_reads [OF assms] .
  have find: "find_task 7 ''T1'' (ds_db s) = Some row" using reads by (simp add: recovery_reads_def strip_T1)
  have ok: "decode_attempt demo_recovery = Inr demo_recovery" by code_simp
  have att: "st_attempts (ds_db s) = [requested_row 11 7 ''T1'' 1 5]" using assms by (simp add: demo_attempted_def)
  have new: "insert_row demo_recovery (ds_db s) = Inr ((ds_db s)\<lparr>st_attempts := st_attempts (ds_db s) @ [demo_recovery]\<rparr>)"
    unfolding insert_row_def att using find
    by (simp add: demo_recovery_def requested_row_def attempt_shape_def)
  have ins: "insert_attempt 12 7 ''T1'' 2 40000000 (ds_db s) =
      Inr ((ds_db s)\<lparr>st_attempts := st_attempts (ds_db s) @ [demo_recovery]\<rparr>, demo_recovery)"
    unfolding insert_attempt_def demo_recovery_def [symmetric] Let_def by (simp add: new ok)
  obtain d where d: "decision 7 row 40000000 PREPARED_DISPATCH
      ''Current lease generation is EXPIRED with no terminal worker evidence and no newer dispatch; locked reconciliation prepared one fresh recovery attempt.''
      None (Some demo_recovery) True True = Inr d"
    using row by (simp add: decision_def TaskReconciliationDecision_def validate_decision_shape_def
        demo_leased_row_def text_between_def opt_all_def demo_recovery_def requested_row_def)
  have "prepare_task demo_sha 40000000 12 7 ''T1'' (ds_db s) =
      prepare_owned 40000000 12 7 row 11 [requested_row 11 7 ''T1'' 1 5]
        \<lparr>ws_workers = [], ws_dispatches = []\<rparr> (ds_db s)"
    using prepare_from_reads [OF reads inv, of 40000000 12] row tas
    unfolding strip_T1 demo_leased_row_def by simp
  also have "\<dots> = Inr ((ds_db s)\<lparr>st_attempts := st_attempts (ds_db s) @ [demo_recovery]\<rparr>, d)"
    using row ins d by (simp add: prepare_owned_def attempt_for_dispatch_def demo_leased_row_def
        requested_row_def [of 11])
  finally have prep: "prepare_task demo_sha 40000000 12 7 ''T1'' (ds_db s) =
      Inr ((ds_db s)\<lparr>st_attempts := st_attempts (ds_db s) @ [demo_recovery]\<rparr>, d)" .
  from decision_Inr [OF d] show thesis by (intro that [OF prep]) blast+
qed

lemma demo_broker_texts: "required_text 128 ''m'' = Inr ''m''" "required_text 128 ''tasks'' = Inr ''tasks''"
  "text_between 128 ''T1''"
  by code_simp+

lemma demo_enqueued:
  "da_id demo_recovery = 12" "da_state demo_recovery = REQUESTED"
  "attempt_shape (enqueued_row t m q demo_recovery)"
  "da_message_id (enqueued_row t m q demo_recovery) = Some m"
  "da_queue_name (enqueued_row t m q demo_recovery) = Some q"
  "da_run (enqueued_row t m q demo_recovery) = 7" "da_task (enqueued_row t m q demo_recovery) = ''T1''"
  by (simp_all add: demo_recovery_def requested_row_def enqueued_row_def attempt_shape_def)

text \<open>The state after the reconciler prepared dispatch 12.\<close>

lemma demo_prepared_state:
  "\<exists>s. reachable dispatch_init (dispatch_step demo_sha) (s :: unit dispatch_system) \<and>
     ds_prepared s = [12] \<and> ds_sent s = [] \<and>
     (\<exists>db' r. publish_prepared demo_sha 41000000 42000000 (Some ''m'') ''tasks'' 7 ''T1'' 12 (ds_db s) = Inr (db', r))"
proof -
  obtain s0 where s0: "demo_attempted s0" using demo_attempted_ex ..
  obtain d where prep: "prepare_task demo_sha 40000000 12 7 ''T1'' (ds_db s0) =
      Inr ((ds_db s0)\<lparr>st_attempts := st_attempts (ds_db s0) @ [demo_recovery]\<rparr>, d)"
    and d: "rd_action d = PREPARED_DISPATCH" "rd_attempt d = Some demo_recovery"
    by (rule demo_prepared [OF s0])
  obtain run row where reads:
    "recovery_reads demo_sha 7 (strip ''T1'') (ds_db s0) run row \<lparr>ws_workers = [], ws_dispatches = []\<rparr>"
    and row: "demo_leased_row row" and inv: "ledger_inv (ds_db s0)"
    and tas: "task_attempts 7 (strip ''T1'') (ds_db s0) = [requested_row 11 7 ''T1'' 1 5]"
    using demo_reads [OF s0] .
  let ?db = "(ds_db s0)\<lparr>st_attempts := st_attempts (ds_db s0) @ [demo_recovery]\<rparr>"
  have reach0: "reachable dispatch_init (dispatch_step demo_sha) s0" and f0: "ds_prepared s0 = []" "ds_sent s0 = []"
    using s0 by (simp_all add: demo_attempted_def)
  let ?s = "s0\<lparr>ds_db := ?db, ds_prepared := ds_prepared s0 @ (if rd_action d = PREPARED_DISPATCH then [12] else [])\<rparr>"
  have "dispatch_step demo_sha s0 ?s" by (rule dispatch_step.prepared) (rule prep)
  with reach0 have reach: "reachable dispatch_init (dispatch_step demo_sha) ?s" by (rule reach_step)
  have inv': "ledger_inv ?db" using dispatching.reach_inv [OF reach] by (simp add: dispatch_inv_def)
  from prepare_commit [OF prep inv] d have new: "new_attempt demo_recovery (ds_db s0) ?db"
    by simp
  have ids: "da_run demo_recovery = 7" "da_task demo_recovery = strip ''T1''"
    by (simp_all add: demo_recovery_def requested_row_def strip_T1)
  note reads' = new_attempt_reads [OF reads new ids]
  have tas': "task_attempts 7 ''T1'' ?db = [requested_row 11 7 ''T1'' 1 5, demo_recovery]"
    using reads'(2) tas by (simp add: strip_T1)
  have g: "guard_prepared_publication demo_sha 41000000 7 ''T1'' 12 ?db = Inr demo_recovery"
    using reads'(1) row tas' locked_attempts_ok [OF inv', of 7 "''T1''"]
    unfolding recovery_reads_def strip_T1
    by (simp add: guard_prepared_publication_def required_text_def strip_T1 locked_run_def locked_task_def
        demo_leased_row_def guard_owned_def attempt_for_dispatch_def)
      (simp add: demo_recovery_def requested_row_def)
  have out: "decode_attempt (enqueued_row 42000000 ''m'' ''tasks'' demo_recovery) =
      Inr (enqueued_row 42000000 ''m'' ''tasks'' demo_recovery)"
    by code_simp
  have "\<exists>db' r. publish_prepared demo_sha 41000000 42000000 (Some ''m'') ''tasks'' 7 ''T1'' 12 ?db = Inr (db', r)"
    using g out demo_broker_texts
    by (simp add: publish_prepared_def assert_publication_identity_def TaskDispatchEnvelope_def
        publication_mark_enqueued_def write_outcome_def flush_attempt_def demo_enqueued Let_def
        TaskDispatchReceipt_def text_between_def)
  with reach f0 d show ?thesis by (intro exI [of _ ?s]) simp
qed

theorem dispatch_published_once_witness:
  "\<exists>s. reachable dispatch_init (dispatch_step demo_sha) (s :: unit dispatch_system) \<and> ds_sent s = [12] \<and>
     12 \<in> da_id ` set (st_attempts (ds_db s)) \<and> 12 \<notin> set (ds_prepared s)"
proof -
  obtain s db' r where s: "reachable dispatch_init (dispatch_step demo_sha) (s :: unit dispatch_system)"
    "ds_prepared s = [12]" "ds_sent s = []"
    and pub: "publish_prepared demo_sha 41000000 42000000 (Some ''m'') ''tasks'' 7 ''T1'' 12 (ds_db s) = Inr (db', r)"
    using demo_prepared_state by (elim exE conjE)
  let ?s = "s\<lparr>ds_db := db', ds_prepared := remove1 12 (ds_prepared s), ds_sent := ds_sent s @ [12]\<rparr>"
  have "dispatch_step demo_sha s ?s" by (rule dispatch_step.published [OF _ pub]) (simp add: s(2))
  with s(1) have reach: "reachable dispatch_init (dispatch_step demo_sha) ?s" by (rule reach_step)
  with dispatch_published_once [OF reach] s(3) show ?thesis by (intro exI [of _ ?s]) simp
qed

theorem dispatch_ledger_sound_witness:
  "\<exists>s. (dispatch_step demo_sha)\<^sup>*\<^sup>* (s :: unit dispatch_system) s \<and> st_attempts (ds_db s) \<noteq> [] \<and>
     validate_attempt_history (task_attempts 7 ''T1'' (ds_db s)) = Inr () \<and> length (task_attempts 7 ''T1'' (ds_db s)) = 1"
proof -
  obtain s where s: "demo_attempted s" using demo_attempted_ex ..
  then have reach: "reachable dispatch_init (dispatch_step demo_sha) s"
    and att: "st_attempts (ds_db s) = [requested_row 11 7 ''T1'' 1 5]"
    by (simp_all add: demo_attempted_def)
  from dispatch_ledger_sound [OF reach rtranclp.rtrancl_refl, of 7 "''T1''"] att
  show ?thesis by (intro exI [of _ s]) (simp add: task_attempts_def requested_row_def)
qed

theorem recovery_prepared_exactly_once_witness:
  "\<exists>s db' d d'. prepare_task demo_sha 40000000 12 7 ''T1'' (ds_db (s :: unit dispatch_system)) = Inr (db', d) \<and>
     rd_action d = PREPARED_DISPATCH \<and>
     prepare_task demo_sha 50000000 13 7 ''T1'' db' = Inr (db', d') \<and> rd_action d' = WAIT_EXISTING_DISPATCH"
proof -
  obtain s where s: "demo_attempted s" using demo_attempted_ex ..
  then have reach: "reachable dispatch_init (dispatch_step demo_sha) s" by (simp add: demo_attempted_def)
  obtain d where prep: "prepare_task demo_sha 40000000 12 7 ''T1'' (ds_db s) =
      Inr ((ds_db s)\<lparr>st_attempts := st_attempts (ds_db s) @ [demo_recovery]\<rparr>, d)"
    and d: "rd_action d = PREPARED_DISPATCH"
    by (rule demo_prepared [OF s])
  have "(40000000 :: int) \<le> 50000000" by simp
  from recovery_prepared_exactly_once [OF reach prep this, of 13] prep d show ?thesis by blast
qed

theorem recovery_publication_guarded_witness:
  "\<exists>s db' r. publish_prepared demo_sha 41000000 42000000 (Some ''m'') ''tasks'' 7 ''T1'' 12
      (ds_db (s :: unit dispatch_system)) = Inr (db', r) \<and> map_option rc_dispatch r = Some 12"
proof -
  obtain s db' r where s: "reachable dispatch_init (dispatch_step demo_sha) (s :: unit dispatch_system)"
    and pub: "publish_prepared demo_sha 41000000 42000000 (Some ''m'') ''tasks'' 7 ''T1'' 12 (ds_db s) = Inr (db', r)"
    using demo_prepared_state by (elim exE conjE)
  from recovery_publication_guarded [OF s pub] pub show ?thesis by auto
qed

theorem durable_dispatch_idempotent_witness:
  "\<exists>s db' receipt. dispatch (\<lambda>_. Inr \<lparr>rv_status = RUNNING, rv_tasks = [''T1'']\<rparr>) 5 6 (Some ''m'') ''tasks'' 11 7 ''T1''
      (ds_db (s :: unit dispatch_system)) = (Inr receipt, db', [\<lparr>te_dispatch = 11, te_run = 7, te_task = ''T1''\<rparr>]) \<and>
     dispatch (\<lambda>_. Inr \<lparr>rv_status = RUNNING, rv_tasks = [''T1'']\<rparr>) 8 9 None ''tasks'' 11 7 ''T1'' db' = (Inr receipt, db', [])"
proof -
  obtain s where s: "demo_unattempted s" using demo_unattempted_ex ..
  then have reach: "reachable dispatch_init (dispatch_step demo_sha) s" by (simp add: demo_unattempted_def)
  let ?load = "\<lambda>_. Inr \<lparr>rv_status = RUNNING, rv_tasks = [''T1'']\<rparr>"
  let ?db1 = "(ds_db s)\<lparr>st_attempts := [demo_first]\<rparr>"
  let ?a = "enqueued_row 6 ''m'' ''tasks'' demo_first"
  let ?r = "\<lparr>rc_dispatch = 11, rc_run = 7, rc_task = ''T1'', rc_message_id = ''m'', rc_queue_name = ''tasks''\<rparr>"
  have ok: "decode_attempt demo_first = Inr demo_first" "decode_attempt ?a = Inr ?a" "attempt_shape ?a"
    "receipt_from_attempt ?a = Inr ?r" "required_text 128 ''T1'' = Inr ''T1''"
    by code_simp+
  have first: "da_id demo_first = 11" "da_state demo_first = REQUESTED"
    "assert_attempt_identity demo_first 7 ''T1'' = Inr ()" "da_id ?a = 11"
    by code_simp+
  have "mark_enqueued 6 11 7 ''T1'' ''m'' ''tasks'' ?db1 = Inr (?db1\<lparr>st_attempts := [?a]\<rparr>, ?a)"
    by (simp add: mark_enqueued_def demo_broker_texts ok first locked_attempt_def find_attempt_def write_outcome_def
        flush_attempt_def)
  then have run: "dispatch ?load 5 6 (Some ''m'') ''tasks'' 11 7 ''T1'' (ds_db s) =
      (Inr ?r, ?db1\<lparr>st_attempts := [?a]\<rparr>, [\<lparr>te_dispatch = 11, te_run = 7, te_task = ''T1''\<rparr>])"
    by (simp add: dispatch_def TaskDispatchEnvelope_def demo_broker_texts demo_begin [OF s] record_publication_def ok)
  from durable_dispatch_idempotent [OF reach run, of 8 9 None "''tasks''"] run show ?thesis by blast
qed

end
