(* ===== verification/Failure_Evidence.thy ===== *)
theory Failure_Evidence
  imports Evidence_Store Token_Budget
begin

text \<open>
  The evidence the single-task loop runs on: hard-gate results (\<open>models/verification.py\<close>), review
  decisions (\<open>models/review.py\<close>), repair records (\<open>models/repair.py\<close>), provider errors
  (\<open>providers/errors.py\<close>), and their classification into failure reports
  (\<open>DeterministicVerifier.failure_reports\<close>, \<open>runtime/failure_classifier.py\<close>).

  Strings of the model are 8-bit, so a message the code has in Chinese is named by an ASCII text
  in angle brackets.
\<close>

section \<open>Verification results\<close>

datatype check_type = CK_SCOPE | CK_TEST | CK_LINT | CK_TYPE_CHECK | CK_BUILD | CK_CUSTOM

datatype verification_backend = HOST | DOCKER

record check_result =
  ck_type :: check_type
  ck_name :: string
  ck_command :: "string option"
  ck_passed :: bool
  ck_exit_code :: "int option"
  ck_stdout :: string
  ck_stderr :: string
  ck_duration_ms :: int
  ck_failure_type :: "failure_type option"
  ck_backend :: "verification_backend option"
  ck_details :: "string list"

definition validate_execution_details :: "string list \<Rightarrow> string list res" where
  "validate_execution_details values =
     (let normalized = map strip values in
      if [] \<in> set normalized then Inl (ValueError ''execution details must not contain blank entries'')
      else if \<not> distinct normalized then Inl (ValueError ''execution details must be unique'')
      else Inr normalized)"

definition validate_check_consistency :: "check_result \<Rightarrow> check_result res" where
  "validate_check_consistency c =
     (if ck_passed c \<and> ck_exit_code c \<notin> {None, Some 0}
      then Inl (ValueError ''passed checks cannot have a non-zero exit code'')
      else if ck_passed c \<and> ck_failure_type c \<noteq> None
      then Inl (ValueError ''passed checks cannot have a failure_type'')
      else if \<not> ck_passed c \<and> ck_failure_type c = None
      then Inl (ValueError ''failed checks require a failure_type'')
      else if ck_backend c = None \<and> ck_details c \<noteq> []
      then Inl (ValueError ''execution details require an execution backend'')
      else Inr c)"

definition CheckResult :: "check_result \<Rightarrow> check_result res" where
  "CheckResult c =
     (if \<not> text_between 256 (ck_name c) then Inl (ValueError ''name'')
      else if ck_duration_ms c < 0 then Inl (ValueError ''duration_ms'')
      else bind_res (validate_execution_details (ck_details c)) (\<lambda>details.
        validate_check_consistency (c\<lparr>ck_details := details\<rparr>)))"

record verification_result =
  vr_passed :: bool
  vr_checks :: "check_result list"

definition VerificationResult :: "verification_result \<Rightarrow> verification_result res" where
  "VerificationResult v =
     (if vr_checks v = [] then Inl (ValueError ''checks'')
      else bind_res (map_res CheckResult (vr_checks v)) (\<lambda>checks.
        if vr_passed v \<noteq> list_all ck_passed checks
        then Inl (ValueError ''verification passed flag must match all check results'')
        else Inr (v\<lparr>vr_checks := checks\<rparr>)))"

section \<open>Review decisions\<close>

datatype review_outcome = PASS | CHANGES_REQUESTED

datatype review_severity = LOW | MEDIUM | HIGH | CRITICAL_SEVERITY

record review_issue =
  ri_severity :: review_severity
  ri_message :: string
  ri_file :: "string option"
  ri_line :: "int option"

definition ReviewIssue :: "review_issue \<Rightarrow> review_issue res" where
  "ReviewIssue i =
     (if \<not> text_between 4000 (ri_message i) then Inl (ValueError ''message'')
      else if strip (ri_message i) = [] then Inl (ValueError ''review issue message must not be empty'')
      else if \<not> opt_all (\<lambda>n. 1 \<le> n) (ri_line i) then Inl (ValueError ''line'')
      else Inr (i\<lparr>ri_message := strip (ri_message i)\<rparr>))"

record review_decision =
  rv_decision :: review_outcome
  rv_summary :: string
  rv_issues :: "review_issue list"

definition ReviewDecision :: "review_decision \<Rightarrow> review_decision res" where
  "ReviewDecision d =
     (if \<not> text_between 4000 (rv_summary d) then Inl (ValueError ''summary'')
      else if strip (rv_summary d) = [] then Inl (ValueError ''review summary must not be empty'')
      else bind_res (map_res ReviewIssue (rv_issues d)) (\<lambda>issues.
        if rv_decision d = PASS \<and> issues \<noteq> []
        then Inl (ValueError ''PASS review decisions must not contain issues'')
        else if rv_decision d = CHANGES_REQUESTED \<and> issues = []
        then Inl (ValueError ''CHANGES_REQUESTED review decisions require at least one issue'')
        else Inr (d\<lparr>rv_summary := strip (rv_summary d), rv_issues := issues\<rparr>)))"

section \<open>Classification\<close>

definition int_text :: "int \<Rightarrow> string" where
  "int_text n = (if n < 0 then CHR ''-'' # dec (nat (- n)) else dec (nat n))"

text \<open>\<open>needle in text\<close>.\<close>

definition occurs_in :: "string \<Rightarrow> string \<Rightarrow> bool" where
  "occurs_in needle s = sublist needle s"

definition failure_message :: "check_result \<Rightarrow> string" where
  "failure_message check = (case ck_failure_type check of
     Some SCOPE_VIOLATION \<Rightarrow>
       if ck_name check = ''git_scope_post_verification''
       then ''Verification commands produced out-of-scope repository changes.''
       else ''Git scope integrity check failed before deterministic verification.''
   | Some TEST_FAILURE \<Rightarrow>
       if ck_name check = ''custom'' then ''Deterministic custom verification failed.''
       else ''Deterministic pytest verification failed.''
   | Some LINT_FAILURE \<Rightarrow> ''Deterministic Ruff verification failed.''
   | Some SANDBOX_TIMEOUT \<Rightarrow> ''Docker verification sandbox exceeded its execution deadline.''
   | Some VERIFICATION_ENV_UNAVAILABLE \<Rightarrow>
       if occurs_in ''<verification environment lacks Node.js>'' (ck_stderr check)
       then ''<verification environment lacks Node.js, the JavaScript command cannot run>''
       else if occurs_in ''<verification environment lacks Python>'' (ck_stderr check)
       then ''<verification environment lacks Python, the command cannot run>''
       else ''<verification environment unavailable, the command cannot run safely>''
   | _ \<Rightarrow> ''Deterministic verification could not complete safely.'')"

definition backend_value :: "verification_backend \<Rightarrow> string" where
  "backend_value b = (case b of HOST \<Rightarrow> ''host'' | DOCKER \<Rightarrow> ''docker'')"

definition check_evidence :: "check_result \<Rightarrow> string list" where
  "check_evidence check =
     [''check='' @ ck_name check] @
     (case ck_command check of None \<Rightarrow> [] | Some c \<Rightarrow> if c = [] then [] else [''command='' @ c]) @
     (case ck_exit_code check of None \<Rightarrow> [] | Some n \<Rightarrow> [''exit_code='' @ int_text n]) @
     (case ck_backend check of None \<Rightarrow> [] | Some b \<Rightarrow> [''execution_backend='' @ backend_value b]) @
     map (\<lambda>d. ''execution='' @ d) (ck_details check) @
     (if ck_stderr check \<noteq> [] then [''stderr='' @ ck_stderr check]
      else if ck_stdout check \<noteq> [] then [''stdout='' @ ck_stdout check] else [])"

definition failure_reports :: "verification_result \<Rightarrow> failure_report list res" where
  "failure_reports result =
     map_res (\<lambda>check. FailureReport
         \<lparr>fr_type = the (ck_failure_type check), fr_source = F_VERIFICATION,
          fr_message = failure_message check,
          fr_retryable = (the (ck_failure_type check) \<in> {TEST_FAILURE, LINT_FAILURE}),
          fr_evidence = check_evidence check\<rparr>)
       (filter (\<lambda>check. \<not> (ck_passed check \<or> ck_failure_type check = None)) (vr_checks result))"

definition from_verification :: "verification_result \<Rightarrow> failure_report list res" where
  "from_verification result = failure_reports result"

definition severity_value :: "review_severity \<Rightarrow> string" where
  "severity_value s = (case s of LOW \<Rightarrow> ''low'' | MEDIUM \<Rightarrow> ''medium'' | HIGH \<Rightarrow> ''high''
     | CRITICAL_SEVERITY \<Rightarrow> ''critical'')"

definition issue_evidence :: "nat \<Rightarrow> review_issue \<Rightarrow> string" where
  "issue_evidence index issue =
     (let file = (case ri_file issue of None \<Rightarrow> ''unknown'' | Some f \<Rightarrow> if f = [] then ''unknown'' else f);
          location = (case ri_line issue of None \<Rightarrow> file | Some n \<Rightarrow> file @ '':'' @ int_text n)
      in ''issue_'' @ dec index @ ''=severity:'' @ severity_value (ri_severity issue) @ '';location:'' @ location @
         '';message:'' @ ri_message issue)"

definition from_review :: "review_decision \<Rightarrow> failure_report list res" where
  "from_review decision =
     (if rv_decision decision = PASS then Inr []
      else bind_res (FailureReport
        \<lparr>fr_type = REVIEW_REJECTED, fr_source = F_REVIEW,
         fr_message = ''Independent semantic review requested targeted changes.'', fr_retryable = True,
         fr_evidence = (''review_summary='' @ rv_summary decision) #
           map (\<lambda>(i, issue). issue_evidence i issue) (enumerate 1 (rv_issues decision))\<rparr>)
        (\<lambda>r. Inr [r]))"

definition REPAIRABLE_FAILURES :: "failure_type set" where
  "REPAIRABLE_FAILURES = {TEST_FAILURE, LINT_FAILURE, REVIEW_REJECTED}"

definition repairable :: "failure_report list \<Rightarrow> failure_report list" where
  "repairable reports =
     (if reports = [] then []
      else if list_ex (\<lambda>r. \<not> fr_retryable r \<or> fr_type r \<notin> REPAIRABLE_FAILURES) reports then []
      else reports)"

text \<open>\<open>model_copy(update=...)\<close> does not validate again.\<close>

definition terminalize :: "failure_report list \<Rightarrow> int \<Rightarrow> failure_report list" where
  "terminalize reports retries =
     map (\<lambda>r. r\<lparr>fr_retryable := False,
       fr_message := fr_message r @ '' Repair retry budget was exhausted.'',
       fr_evidence := fr_evidence r @ [''repair_attempts_exhausted='' @ int_text retries]\<rparr>) reports"

section \<open>Provider errors\<close>

datatype provider_error_code =
    P_TIMEOUT | P_RATE_LIMIT | P_AUTHENTICATION | P_PERMISSION | P_BAD_REQUEST | P_INVALID_REQUEST
  | P_CONNECTION | P_UNAVAILABLE | P_TOKEN_BUDGET_EXHAUSTED | P_WORK_PACKAGE_BUDGET_ALLOCATION_BLOCKED
  | P_UNKNOWN

definition code_value :: "provider_error_code \<Rightarrow> string" where
  "code_value c = (case c of P_TIMEOUT \<Rightarrow> ''timeout'' | P_RATE_LIMIT \<Rightarrow> ''rate_limit''
     | P_AUTHENTICATION \<Rightarrow> ''authentication'' | P_PERMISSION \<Rightarrow> ''permission''
     | P_BAD_REQUEST \<Rightarrow> ''bad_request'' | P_INVALID_REQUEST \<Rightarrow> ''invalid_request''
     | P_CONNECTION \<Rightarrow> ''connection'' | P_UNAVAILABLE \<Rightarrow> ''unavailable''
     | P_TOKEN_BUDGET_EXHAUSTED \<Rightarrow> ''token_budget_exhausted''
     | P_WORK_PACKAGE_BUDGET_ALLOCATION_BLOCKED \<Rightarrow> ''work_package_budget_allocation_blocked''
     | P_UNKNOWN \<Rightarrow> ''unknown'')"

record agent_provider_error =
  pe_provider :: string
  pe_code :: provider_error_code
  pe_message :: string
  pe_retryable :: bool
  pe_status_code :: "int option"
  pe_evidence :: "string list"
  pe_failure_source :: "failure_source option"

definition to_failure_report :: "agent_provider_error \<Rightarrow> failure_report res" where
  "to_failure_report e = FailureReport
     \<lparr>fr_type = (case pe_code e of P_TIMEOUT \<Rightarrow> MODEL_TIMEOUT | P_RATE_LIMIT \<Rightarrow> RATE_LIMIT
        | P_TOKEN_BUDGET_EXHAUSTED \<Rightarrow> TOKEN_BUDGET_EXHAUSTED
        | P_WORK_PACKAGE_BUDGET_ALLOCATION_BLOCKED \<Rightarrow> WORK_PACKAGE_BUDGET_ALLOCATION_BLOCKED
        | P_BAD_REQUEST \<Rightarrow> PROVIDER_REQUEST_REJECTED | P_INVALID_REQUEST \<Rightarrow> PROVIDER_REQUEST_REJECTED
        | _ \<Rightarrow> TOOL_FAILURE),
      fr_source = (case pe_failure_source e of Some s \<Rightarrow> s
        | None \<Rightarrow> if pe_code e = P_WORK_PACKAGE_BUDGET_ALLOCATION_BLOCKED then F_RUNTIME else F_PROVIDER),
      fr_message = pe_message e, fr_retryable = pe_retryable e,
      fr_evidence = [''provider='' @ pe_provider e, ''code='' @ code_value (pe_code e)] @ pe_evidence e @
        (case pe_status_code e of None \<Rightarrow> [] | Some n \<Rightarrow> [''status_code='' @ int_text n])\<rparr>"

section \<open>Repair records\<close>

datatype repair_stop_reason =
  R_MODEL_STOP | R_NO_PROGRESS | R_EXPLICIT_BLOCKER | R_ITERATION_LIMIT | R_TIME_LIMIT | R_TOOL_CALL_LIMIT

definition stop_reason_value :: "repair_stop_reason \<Rightarrow> string" where
  "stop_reason_value r = (case r of R_MODEL_STOP \<Rightarrow> ''MODEL_STOP'' | R_NO_PROGRESS \<Rightarrow> ''NO_PROGRESS''
     | R_EXPLICIT_BLOCKER \<Rightarrow> ''EXPLICIT_BLOCKER'' | R_ITERATION_LIMIT \<Rightarrow> ''ITERATION_LIMIT''
     | R_TIME_LIMIT \<Rightarrow> ''TIME_LIMIT'' | R_TOOL_CALL_LIMIT \<Rightarrow> ''TOOL_CALL_LIMIT'')"

datatype repair_progress_status = PATCH_PRODUCED | NO_PATCH_PRODUCED | PROGRESS_MADE | REPAIR_INEFFECTIVE | REPAIRED

definition progress_value :: "repair_progress_status \<Rightarrow> string" where
  "progress_value s = (case s of PATCH_PRODUCED \<Rightarrow> ''PATCH_PRODUCED'' | NO_PATCH_PRODUCED \<Rightarrow> ''NO_PATCH_PRODUCED''
     | PROGRESS_MADE \<Rightarrow> ''PROGRESS_MADE'' | REPAIR_INEFFECTIVE \<Rightarrow> ''REPAIR_INEFFECTIVE'' | REPAIRED \<Rightarrow> ''REPAIRED'')"

text \<open>The pattern \<open>^[0-9a-f]{64}$\<close> of SHA-256 digests in hexadecimal.\<close>

definition sha_pattern :: "string \<Rightarrow> bool" where
  "sha_pattern s = (length s = 64 \<and> set s \<subseteq> set ''0123456789abcdef'')"

record repair_progress_evidence =
  pg_status :: repair_progress_status
  pg_has_patch :: bool
  pg_files_changed :: "string list"
  pg_patch_hash_before :: string
  pg_patch_hash_after :: string
  pg_signature_before :: "string option"
  pg_signature_after :: "string option"
  pg_validation_executed :: bool
  pg_validation_commands :: "string list"

definition RepairProgressEvidence :: "repair_progress_evidence \<Rightarrow> repair_progress_evidence res" where
  "RepairProgressEvidence p =
     (if sha_pattern (pg_patch_hash_before p) \<and> sha_pattern (pg_patch_hash_after p) \<and>
         opt_all sha_pattern (pg_signature_before p) \<and> opt_all sha_pattern (pg_signature_after p)
      then Inr p else Inl (ValueError ''repair progress''))"

record repair_run_result =
  rp_attempt :: int
  rp_failure_types :: "failure_type list"
  rp_stop_reason :: repair_stop_reason
  rp_iterations :: int
  rp_tool_calls :: int
  rp_final_message :: string
  rp_changed_files :: "string list"
  rp_progress :: "repair_progress_evidence option"
  rp_usage :: token_usage
  rp_latency_ms :: int

record repair_failure_digest =
  rg_type :: failure_type
  rg_source :: failure_source
  rg_message :: string
  rg_evidence :: "string list"

datatype repair_failure_kind = IMPORT_SYMBOL_MISSING

record repair_handoff =
  rh_task :: task_id
  rh_objective :: string
  rh_repository_head :: string
  rh_acceptance_criteria :: "string list"
  rh_verification_commands :: "string list"
  rh_writable_files :: "string list"
  rh_readonly_files :: "string list"
  rh_changed_files :: "string list"
  rh_relevant_paths :: "string list"
  rh_failure_kind :: "repair_failure_kind option"
  rh_suspected_path :: "string option"
  rh_suspected_symbol :: "string option"
  rh_failures :: "repair_failure_digest list"

definition ident_start :: "char \<Rightarrow> bool" where
  "ident_start c = (let n = (of_char c :: nat) in 65 \<le> n \<and> n \<le> 90 \<or> 97 \<le> n \<and> n \<le> 122 \<or> n = 95)"

definition ident_char :: "char \<Rightarrow> bool" where
  "ident_char c = (ident_start c \<or> (let n = (of_char c :: nat) in 48 \<le> n \<and> n \<le> 57))"

definition symbol_pattern :: "string \<Rightarrow> bool" where
  "symbol_pattern s = (s \<noteq> [] \<and> ident_start (hd s) \<and> list_all ident_char s)"

definition RepairFailureDigest :: "repair_failure_digest \<Rightarrow> repair_failure_digest res" where
  "RepairFailureDigest d =
     (if text_between 2000 (rg_message d) \<and> length (rg_evidence d) \<le> 8 then Inr d
      else Inl (ValueError ''repair failure digest''))"

definition RepairHandoff :: "repair_handoff \<Rightarrow> repair_handoff res" where
  "RepairHandoff h =
     (if \<not> text_between 128 (rh_task h) then Inl (ValueError ''task_id'')
      else if \<not> text_between 4000 (rh_objective h) then Inl (ValueError ''objective'')
      else if \<not> oid_pattern (rh_repository_head h) then Inl (ValueError ''repository_head'')
      else if \<not> (1 \<le> length (rh_acceptance_criteria h) \<and> length (rh_acceptance_criteria h) \<le> 32)
      then Inl (ValueError ''acceptance_criteria'')
      else if 32 < length (rh_verification_commands h) then Inl (ValueError ''verification_commands'')
      else if 256 < length (rh_writable_files h) then Inl (ValueError ''writable_files'')
      else if 256 < length (rh_readonly_files h) then Inl (ValueError ''readonly_files'')
      else if 256 < length (rh_changed_files h) then Inl (ValueError ''changed_files'')
      else if 16 < length (rh_relevant_paths h) then Inl (ValueError ''relevant_paths'')
      else if \<not> opt_all (\<lambda>p. length p \<le> 500) (rh_suspected_path h) then Inl (ValueError ''suspected_path'')
      else if \<not> opt_all (\<lambda>s. symbol_pattern s \<and> length s \<le> 256) (rh_suspected_symbol h)
      then Inl (ValueError ''suspected_symbol'')
      else if \<not> (1 \<le> length (rh_failures h) \<and> length (rh_failures h) \<le> 8) then Inl (ValueError ''failures'')
      else Inr h)"

section \<open>What classification keeps\<close>

lemma strip_Cons_nonspace: "\<not> is_space c \<Longrightarrow> strip (c # s) \<noteq> []"
  by (auto simp: strip_def dropWhile_eq_Nil_conv)

lemma FailureReport_Inr:
  assumes "text_between 4000 (fr_message f)" "strip (fr_message f) \<noteq> []"
    and "\<forall>e \<in> set (fr_evidence f). strip e \<noteq> []"
  shows "FailureReport f = Inr (f\<lparr>fr_message := strip (fr_message f), fr_evidence := map strip (fr_evidence f)\<rparr>)"
  using assms by (auto simp: FailureReport_def Let_def text_between_def)

lemma FailureReport_type: "FailureReport f = Inr r \<Longrightarrow> fr_type r = fr_type f \<and> fr_retryable r = fr_retryable f"
  by (auto simp: FailureReport_def Let_def split: if_splits)

lemma failure_message_ok: "text_between 4000 (failure_message c) \<and> strip (failure_message c) \<noteq> []"
proof -
  have sp: "\<not> is_space (CHR ''V'')" "\<not> is_space (CHR ''G'')" "\<not> is_space (CHR ''D'')" "\<not> is_space (CHR ''<'')"
    by code_simp+
  show ?thesis
  proof (cases "ck_failure_type c")
    case None
    then show ?thesis using sp by (simp add: failure_message_def text_between_def strip_Cons_nonspace)
  next
    case (Some t)
    then show ?thesis
      using sp by (cases t) (simp_all add: failure_message_def text_between_def strip_Cons_nonspace)
  qed
qed

lemma check_evidence_ok: "e \<in> set (check_evidence c) \<Longrightarrow> strip e \<noteq> []"
proof -
  have sp: "\<not> is_space (CHR ''c'')" "\<not> is_space (CHR ''e'')" "\<not> is_space (CHR ''s'')" by code_simp+
  show "e \<in> set (check_evidence c) \<Longrightarrow> strip e \<noteq> []"
    using sp by (auto simp: check_evidence_def strip_Cons_nonspace split: option.splits if_splits)
qed

lemma list_all2_source: "list_all2 P xs ys \<Longrightarrow> y \<in> set ys \<Longrightarrow> \<exists>x \<in> set xs. P x y"
  by (induction rule: list_all2_induct) auto

lemma map_res_ok: "(\<And>x. x \<in> set xs \<Longrightarrow> \<exists>y. f x = Inr y) \<Longrightarrow> \<exists>ys. map_res f xs = Inr ys"
  by (induction xs) (fastforce simp: bind_res_eq_Inr)+

text \<open>
  The classifier is total on hard-gate results, reports every failing check, and hands them to
  repair exactly when each of them is a test or lint failure.
\<close>

lemma validated_checks:
  assumes "VerificationResult v0 = Inr v"
  shows "vr_checks v \<noteq> []" and "vr_passed v \<longleftrightarrow> list_all ck_passed (vr_checks v)"
    and "c \<in> set (vr_checks v) \<Longrightarrow> \<not> ck_passed c \<Longrightarrow> ck_failure_type c \<noteq> None"
proof -
  from assms obtain checks where ne: "vr_checks v0 \<noteq> []" and m: "map_res CheckResult (vr_checks v0) = Inr checks"
    and p: "vr_passed v0 = list_all ck_passed checks" and v: "v = v0\<lparr>vr_checks := checks\<rparr>"
    by (auto simp: VerificationResult_def bind_res_eq_Inr split: if_splits)
  then show "vr_checks v \<noteq> []" using map_res_length [OF m] by auto
  show "vr_passed v \<longleftrightarrow> list_all ck_passed (vr_checks v)" using p v by simp
  assume "c \<in> set (vr_checks v)" "\<not> ck_passed c"
  then have "c \<in> set checks" by (simp add: v)
  with m obtain c0 where c0: "CheckResult c0 = Inr c"
    unfolding map_res_Inr_iff by (blast dest: list_all2_source)
  have facts: "ck_passed d = ck_passed c0 \<and> ck_failure_type d = ck_failure_type c0"
    if "validate_check_consistency (c0\<lparr>ck_details := ds\<rparr>) = Inr d" for ds d
    using that unfolding validate_check_consistency_def by (auto split: if_splits)
  show "ck_failure_type c \<noteq> None"
  proof
    assume none: "ck_failure_type c = None"
    from c0 obtain ds where v: "validate_check_consistency (c0\<lparr>ck_details := ds\<rparr>) = Inr c"
      by (auto simp: CheckResult_def bind_res_eq_Inr split: if_splits)
    with facts [OF v] none \<open>\<not> ck_passed c\<close> show False
      unfolding validate_check_consistency_def by simp
  qed
qed

lemma failure_reports_total: "\<exists>rs. failure_reports v = Inr rs"
  unfolding failure_reports_def
  by (rule map_res_ok, rule exI, rule FailureReport_Inr)
    (simp_all add: failure_message_ok check_evidence_ok)

lemma failure_reports_nonempty:
  assumes "VerificationResult v0 = Inr v" and "\<not> vr_passed v" and "failure_reports v = Inr rs"
  shows "rs \<noteq> []"
proof -
  from assms(2) obtain c where "c \<in> set (vr_checks v)" "\<not> ck_passed c"
    unfolding validated_checks(2) [OF assms(1)] by (auto simp: list_all_iff)
  with validated_checks(3) [OF assms(1)] have "filter (\<lambda>c. \<not> (ck_passed c \<or> ck_failure_type c = None)) (vr_checks v) \<noteq> []"
    by (auto simp: filter_empty_conv)
  with assms(3) map_res_length show ?thesis unfolding failure_reports_def by fastforce
qed

lemma from_review_total:
  assumes "rv_decision d \<noteq> PASS" shows "\<exists>r. from_review d = Inr [r] \<and> fr_type r = REVIEW_REJECTED \<and> fr_retryable r"
proof -
  have sp: "\<not> is_space (CHR ''I'')" "\<not> is_space (CHR ''i'')" "\<not> is_space (CHR ''r'')" by code_simp+
  let ?f = "\<lparr>fr_type = REVIEW_REJECTED, fr_source = F_REVIEW,
         fr_message = ''Independent semantic review requested targeted changes.'', fr_retryable = True,
         fr_evidence = (''review_summary='' @ rv_summary d) #
           map (\<lambda>(i, issue). issue_evidence i issue) (enumerate 1 (rv_issues d))\<rparr>"
  have "FailureReport ?f = Inr (?f\<lparr>fr_message := strip (fr_message ?f), fr_evidence := map strip (fr_evidence ?f)\<rparr>)"
    by (rule FailureReport_Inr) (auto simp: text_between_def strip_Cons_nonspace sp issue_evidence_def Let_def)
  with assms show ?thesis by (simp add: from_review_def)
qed

lemma repairable_subset: "repairable rs = [] \<or> repairable rs = rs \<and> rs \<noteq> []"
  by (simp add: repairable_def)

lemma terminalize_nonempty: "terminalize rs n = [] \<longleftrightarrow> rs = []"
  by (simp add: terminalize_def)

end
