(* ===== verification/Orchestrator.thy ===== *)
theory Orchestrator
  imports Failure_Evidence
begin

text \<open>
  The evidence-driven loop of one task (\<open>runtime/orchestrator.py\<close>): develop, verify, review, repair.

  The agents, the verifier, the context builder and the workspace are objects the constructor
  or \<open>run\<close> receives. They are the argument \<open>co\<close>, a record of functions on a state of type \<open>'w\<close> that
  stands for everything outside (models, repository, clock): a call returns what the object returned or
  raised, and the state after it. Everything below holds for every such record. The trace collector is
  observational and left out. SHA-256 in hexadecimal is the argument \<open>hash\<close>. Texts in
  Chinese are named in angle brackets.
\<close>

section \<open>Collaborators\<close>

datatype developer_stop_reason =
  D_MODEL_STOP | D_ITERATION_LIMIT | D_TIME_LIMIT | D_TOOL_CALL_LIMIT | D_REPEATED_TOOL_FAILURE

definition developer_stop_value :: "developer_stop_reason \<Rightarrow> string" where
  "developer_stop_value r = (case r of D_MODEL_STOP \<Rightarrow> ''MODEL_STOP'' | D_ITERATION_LIMIT \<Rightarrow> ''ITERATION_LIMIT''
     | D_TIME_LIMIT \<Rightarrow> ''TIME_LIMIT'' | D_TOOL_CALL_LIMIT \<Rightarrow> ''TOOL_CALL_LIMIT''
     | D_REPEATED_TOOL_FAILURE \<Rightarrow> ''REPEATED_TOOL_FAILURE'')"

text \<open>The effective budget of a developer run; the two durations are kept as the \<open>:g\<close> format prints them.\<close>

record developer_execution_budget =
  eb_max_iterations :: int
  eb_max_duration :: string
  eb_max_model_turn :: string

record developer_run_result =
  dr_stop_reason :: developer_stop_reason
  dr_iterations :: int
  dr_tool_calls :: int
  dr_final_message :: string
  dr_changed_files :: "string list"
  dr_usage :: token_usage
  dr_latency_ms :: int
  dr_execution_budget :: "developer_execution_budget option"
  dr_tool_failure_evidence :: "string list"

record context_packet =
  cx_summary_version :: string
  cx_repository_head :: string
  cx_selected_files :: "file_digest list"

record change_snapshot =
  cs_changed_files :: "string list"
  cs_patch_hash :: string
  cs_file_hashes :: "(string \<times> string) list"

text \<open>
  What a call can raise: the exceptions the loop handles, \<open>OSError\<close> of the context builder, and anything
  else, which no handler catches. The text is \<open>str(exc)\<close>.
\<close>

datatype agent_error =
    Provider agent_provider_error
  | InvalidReviewerOutput failure_report
  | RepairBudgetExhausted "failure_report list"
  | ContextBuild string
  | BadValue string
  | BadOS string
  | Unhandled exn

record 'w collaborators =
  co_build :: "task_contract \<Rightarrow> continuation_state option \<Rightarrow> 'w \<Rightarrow> (agent_error + context_packet) \<times> 'w"
  co_developer :: "task_contract \<Rightarrow> context_packet \<Rightarrow> 'w \<Rightarrow> (agent_error + developer_run_result) \<times> 'w"
  co_verify :: "task_contract \<Rightarrow> 'w \<Rightarrow> (agent_error + verification_result) \<times> 'w"
  co_review :: "task_contract \<Rightarrow> verification_result \<Rightarrow> context_packet \<Rightarrow> 'w
    \<Rightarrow> (agent_error + review_decision) \<times> 'w"
  co_repair :: "task_contract \<Rightarrow> failure_report list \<Rightarrow> int \<Rightarrow> repair_handoff \<Rightarrow> 'w
    \<Rightarrow> (agent_error + repair_run_result) \<times> 'w"
  co_changed_files :: "'w \<Rightarrow> string list"
  co_snapshot :: "'w \<Rightarrow> change_snapshot"
  co_head :: "'w \<Rightarrow> string"

definition to_exn :: "agent_error \<Rightarrow> exn" where
  "to_exn e = (case e of Unhandled x \<Rightarrow> x | BadValue s \<Rightarrow> ValueError s | Provider p \<Rightarrow> RuntimeError (pe_message p)
     | _ \<Rightarrow> RuntimeError ''agent error'')"

section \<open>Results\<close>

record agent_usage_summary =
  us_role :: agent_role
  us_model :: string
  us_calls :: int
  us_usage :: token_usage
  us_latency_ms :: int

record single_task_run_result =
  sr_task :: task_id
  sr_status :: task_run_state
  sr_events :: "run_event list"
  sr_developer :: "developer_run_result option"
  sr_verifications :: "verification_result list"
  sr_reviews :: "review_decision list"
  sr_repairs :: "repair_run_result list"
  sr_failures :: "failure_report list"
  sr_changed_files :: "string list"
  sr_repair_attempts :: int
  sr_agent_models :: "(agent_role \<times> string) list"
  sr_agent_usage :: "agent_usage_summary list"
  sr_context_state :: "continuation_state option"

definition SingleTaskRunResult :: "single_task_run_result \<Rightarrow> single_task_run_result res" where
  "SingleTaskRunResult r =
     (if \<not> text_between 128 (sr_task r) then Inl (ValueError ''task_id'')
      else if length (sr_events r) < 2 then Inl (ValueError ''events'')
      else if sr_repair_attempts r < 0 then Inl (ValueError ''repair_attempts'')
      else if sr_status r \<notin> {T_SUCCEEDED, T_FAILED}
      then Inl (ValueError ''SingleTaskRunResult status must be terminal'')
      else if re_state (last (sr_events r)) \<noteq> sr_status r
      then Inl (ValueError ''final run event must match terminal status'')
      else if sr_status r = T_SUCCEEDED \<and> sr_failures r \<noteq> []
      then Inl (ValueError ''successful runs must not contain terminal failures'')
      else if sr_status r = T_FAILED \<and> sr_failures r = []
      then Inl (ValueError ''failed runs require at least one terminal failure'')
      else if sr_repair_attempts r \<noteq> int (length (sr_repairs r))
      then Inl (ValueError ''repair_attempts must equal the number of repair run records'')
      else if list_ex (\<lambda>(_, m). strip m = []) (sr_agent_models r)
      then Inl (ValueError ''agent model identifiers must not be empty'')
      else Inr r)"

definition AgentUsageSummary :: "agent_usage_summary \<Rightarrow> agent_usage_summary res" where
  "AgentUsageSummary u =
     (if \<not> text_between 500 (us_model u) then Inl (ValueError ''model'')
      else if us_calls u < 0 then Inl (ValueError ''calls'')
      else if us_latency_ms u < 0 then Inl (ValueError ''latency_ms'')
      else Inr u)"

text \<open>\<open>_normalize_repository_path\<close>, the digests and the continuation state of \<open>models/context.py\<close>.\<close>

definition normalize_repository_path :: "string \<Rightarrow> string res" where
  "normalize_repository_path val =
     (let normalized = strip val in
      if normalized = [] then Inl (ValueError ''repository path must not be empty'')
      else if hd normalized = CHR ''/'' \<or> hd normalized = CHR 0x5C \<or> CHR 0x5C \<in> set normalized
      then Inl (ValueError ''repository path must be repository-relative POSIX style'')
      else if 2 \<le> length normalized \<and> normalized ! 1 = CHR '':''
      then Inl (ValueError ''repository path must not use a Windows drive prefix'')
      else if ''..'' \<in> set (split_on (CHR ''/'') normalized)
      then Inl (ValueError ''repository path must remain inside the repository'')
      else if normalized = ''.git'' \<or> prefix ''.git/'' normalized
      then Inl (ValueError ''repository path must not expose .git internals'')
      else Inr normalized)"

definition ContextFileDigest :: "file_digest \<Rightarrow> file_digest res" where
  "ContextFileDigest f =
     (if \<not> text_between 1000 (fd_path f) then Inl (ValueError ''path'')
      else if \<not> sha_pattern (fd_sha256 f) then Inl (ValueError ''source_sha256'')
      else bind_res (normalize_repository_path (fd_path f)) (\<lambda>p. Inr (f\<lparr>fd_path := p\<rparr>)))"

definition ContextContinuationState :: "continuation_state \<Rightarrow> continuation_state res" where
  "ContextContinuationState c =
     (if \<not> text_between 64 (cn_summary_version c) then Inl (ValueError ''summary_version'')
      else if \<not> oid_pattern (cn_repository_head c) then Inl (ValueError ''repository_head'')
      else if 100 < length (cn_read_files c) then Inl (ValueError ''read_files'')
      else if 512 < length (cn_changed_files c) then Inl (ValueError ''changed_files'')
      else if 512 < length (cn_changed_file_hashes c) then Inl (ValueError ''changed_file_hashes'')
      else if list_ex (\<lambda>s. 512 < length s) [cn_completed_summary c, cn_remaining_summary c,
          cn_verification_summary c, cn_failure_summary c] then Inl (ValueError ''summary'')
      else bind_res (map_res normalize_repository_path (cn_changed_files c)) (\<lambda>normalized.
        if normalized \<noteq> sorted_list_of_set (set normalized)
        then Inl (ValueError ''continuation changed_files must be sorted and unique'')
        else if \<not> distinct (map fd_path (cn_read_files c))
        then Inl (ValueError ''continuation read_files must not contain duplicate paths'')
        else if \<not> distinct (map fd_path (cn_changed_file_hashes c))
        then Inl (ValueError ''continuation changed_file_hashes must not contain duplicate paths'')
        else if \<not> set (map fd_path (cn_changed_file_hashes c)) \<subseteq> set normalized
        then Inl (ValueError ''continuation changed_file_hashes must describe changed_files only'')
        else Inr (c\<lparr>cn_changed_files := normalized\<rparr>)))"

section \<open>Texts\<close>

fun join_with :: "string \<Rightarrow> string list \<Rightarrow> string" where
  "join_with sep [] = []"
| "join_with sep [x] = x"
| "join_with sep (x # xs) = x @ sep @ join_with sep xs"

definition newline :: string where
  "newline = [CHR 0x0A]"

definition is_hex :: "char \<Rightarrow> bool" where
  "is_hex c = (c \<in> set ''0123456789abcdefABCDEF'')"

text \<open>\<open>re.sub(r"0x[0-9a-fA-F]+", "0x<address>", value)\<close>.\<close>

function subst_addresses :: "string \<Rightarrow> string" where
  "subst_addresses s = (case s of
     c # x # h # r \<Rightarrow> if c = CHR ''0'' \<and> x = CHR ''x'' \<and> is_hex h
       then ''0x<address>'' @ subst_addresses (dropWhile is_hex r)
       else c # subst_addresses (x # h # r)
   | _ \<Rightarrow> s)"
  by pat_completeness auto
termination
  by (relation "measure length") (auto simp: less_Suc_eq_le intro: le_SucI le_trans [OF length_dropWhile_le])

declare subst_addresses.simps [simp del]

text \<open>\<open>str.split()\<close>.\<close>

fun words_from :: "string \<Rightarrow> string \<Rightarrow> string list" where
  "words_from [] w = (if w = [] then [] else [w])"
| "words_from (c # cs) w =
     (if is_space c then (if w = [] then words_from cs [] else w # words_from cs [])
      else words_from cs (w @ [c]))"

definition normalize_failure_text :: "string \<Rightarrow> string" where
  "normalize_failure_text val = join_with '' '' (words_from (subst_addresses val) [])"

fun type_value :: "failure_type \<Rightarrow> string" where
  "type_value MODEL_TIMEOUT = ''MODEL_TIMEOUT''"
| "type_value AGENT_TIME_LIMIT = ''AGENT_TIME_LIMIT''"
| "type_value RATE_LIMIT = ''RATE_LIMIT''"
| "type_value INVALID_AGENT_OUTPUT = ''INVALID_AGENT_OUTPUT''"
| "type_value INVALID_TOOL_ARGUMENTS = ''INVALID_TOOL_ARGUMENTS''"
| "type_value PROVIDER_REQUEST_REJECTED = ''PROVIDER_REQUEST_REJECTED''"
| "type_value TOOL_FAILURE = ''TOOL_FAILURE''"
| "type_value SCOPE_VIOLATION = ''SCOPE_VIOLATION''"
| "type_value TEST_FAILURE = ''TEST_FAILURE''"
| "type_value LINT_FAILURE = ''LINT_FAILURE''"
| "type_value REVIEW_REJECTED = ''REVIEW_REJECTED''"
| "type_value CONTEXT_OVERFLOW = ''CONTEXT_OVERFLOW''"
| "type_value MERGE_CONFLICT = ''MERGE_CONFLICT''"
| "type_value SANDBOX_TIMEOUT = ''SANDBOX_TIMEOUT''"
| "type_value VERIFICATION_ENV_UNAVAILABLE = ''VERIFICATION_ENV_UNAVAILABLE''"
| "type_value TOKEN_BUDGET_EXHAUSTED = ''TOKEN_BUDGET_EXHAUSTED''"
| "type_value WORK_PACKAGE_BUDGET_ALLOCATION_BLOCKED = ''WORK_PACKAGE_BUDGET_ALLOCATION_BLOCKED''"
| "type_value INTERFACE_CONTRACT_UNMET = ''INTERFACE_CONTRACT_UNMET''"

fun source_value :: "failure_source \<Rightarrow> string" where
  "source_value F_PROVIDER = ''provider''"
| "source_value F_TOOL = ''tool''"
| "source_value F_VERIFICATION = ''verification''"
| "source_value F_REVIEW = ''review''"
| "source_value F_RUNTIME = ''runtime''"

definition failure_signature :: "(string \<Rightarrow> string) \<Rightarrow> failure_report list \<Rightarrow> string" where
  "failure_signature hash failures =
     (let normalized = map (\<lambda>f. join_with newline [type_value (fr_type f), source_value (fr_source f),
            normalize_failure_text (fr_message f),
            join_with newline (map normalize_failure_text (fr_evidence f))]) failures
      in hash (join_with (newline @ newline) (sort normalized)))"

text \<open>
  The expression \<open>ImportError:\s*cannot import name ['"](symbol)['"]\s+from\s+['"](module)['"]\<close>, matched at
  the start of a text and searched for in it. No class overlaps what follows it, so matching needs
  no backtracking.
\<close>

definition after :: "string \<Rightarrow> string \<Rightarrow> string option" where
  "after p s = (if prefix p s then Some (drop (length p) s) else None)"

definition quoted :: "(char \<Rightarrow> bool) \<Rightarrow> string \<Rightarrow> (string \<times> string) option" where
  "quoted P s = (case s of [] \<Rightarrow> None
   | q # r \<Rightarrow>
       let name = takeWhile P r; rest = dropWhile P r in
       if q \<notin> {CHR 0x27, CHR 0x22} \<or> name = [] \<or> \<not> ident_start (hd name) then None
       else (case rest of [] \<Rightarrow> None
         | q' # r' \<Rightarrow> if q' \<in> {CHR 0x27, CHR 0x22} then Some (name, r') else None))"

definition spaces :: "string \<Rightarrow> string option" where
  "spaces s = (if s = [] \<or> \<not> is_space (hd s) then None else Some (dropWhile is_space s))"

definition match_import :: "string \<Rightarrow> (string \<times> string) option" where
  "match_import s =
     Option.bind (after ''ImportError:'' s) (\<lambda>s1.
     Option.bind (after ''cannot import name '' (dropWhile is_space s1)) (\<lambda>s2.
     Option.bind (quoted ident_char s2) (\<lambda>(symbol, s3).
     Option.bind (spaces s3) (\<lambda>s4.
     Option.bind (after ''from'' s4) (\<lambda>s5.
     Option.bind (spaces s5) (\<lambda>s6.
     Option.bind (quoted (\<lambda>c. ident_char c \<or> c = CHR ''.'') s6) (\<lambda>(modname, _).
       Some (symbol, modname))))))))"

fun search_import :: "string \<Rightarrow> (string \<times> string) option" where
  "search_import [] = match_import []"
| "search_import (c # s) = (case match_import (c # s) of None \<Rightarrow> search_import s | Some m \<Rightarrow> Some m)"

definition repair_failure_hint ::
    "failure_report list \<Rightarrow> repair_failure_kind option \<times> string option \<times> string option" where
  "repair_failure_hint failures =
     (case search_import (join_with newline (concat (map (\<lambda>f. fr_message f # fr_evidence f) failures))) of
        None \<Rightarrow> (None, None, None)
      | Some (symbol, modname) \<Rightarrow>
          (Some IMPORT_SYMBOL_MISSING,
           Some (map (\<lambda>c. if c = CHR ''.'' then CHR ''/'' else c) modname @ ''.py''), Some symbol))"

section \<open>State of a run\<close>

record orchestrator_config =
  cf_developer_model :: string
  cf_reviewer_model :: string
  cf_repair_model :: string
  cf_minimum_repair_attempts :: int
  cf_hash :: "string \<Rightarrow> string"

definition normalize_model :: "string \<Rightarrow> string res" where
  "normalize_model val = (if strip val = [] then Inl (ValueError ''model must not be empty'') else Inr (strip val))"

definition SingleTaskOrchestrator :: "orchestrator_config \<Rightarrow> orchestrator_config res" where
  "SingleTaskOrchestrator cf =
     (if \<not> (0 \<le> cf_minimum_repair_attempts cf \<and> cf_minimum_repair_attempts cf \<le> 5)
      then Inl (ValueError ''minimum_repair_attempts must be between 0 and 5'')
      else bind_res (normalize_model (cf_developer_model cf)) (\<lambda>d.
        bind_res (normalize_model (cf_reviewer_model cf)) (\<lambda>r.
        bind_res (normalize_model (cf_repair_model cf)) (\<lambda>p.
          Inr (cf\<lparr>cf_developer_model := d, cf_reviewer_model := r, cf_repair_model := p\<rparr>)))))"

record 'w orchestration =
  or_machine :: task_state_machine
  or_developer :: "developer_run_result option"
  or_verifications :: "verification_result list"
  or_reviews :: "review_decision list"
  or_repairs :: "repair_run_result list"
  or_packet :: "context_packet option"
  or_world :: 'w

definition transition_to :: "task_run_state \<Rightarrow> string \<Rightarrow> 'w orchestration \<Rightarrow> 'w orchestration res" where
  "transition_to next detail st = (case machine_transition next detail (or_machine st) of
     (m, None) \<Rightarrow> Inr (st\<lparr>or_machine := m\<rparr>) | (m, Some e) \<Rightarrow> Inl e)"

definition repair_budget :: "orchestrator_config \<Rightarrow> task_contract \<Rightarrow> int" where
  "repair_budget cf contract = max (max_retries contract) (cf_minimum_repair_attempts cf)"

text \<open>\<open>_build_context\<close>: the packet is remembered, read errors become \<open>ContextBuildError\<close>.\<close>

definition build_context ::
    "'w collaborators \<Rightarrow> task_contract \<Rightarrow> continuation_state option \<Rightarrow> 'w orchestration
     \<Rightarrow> (agent_error + context_packet) \<times> 'w orchestration" where
  "build_context co contract resume st =
     (case co_build co contract resume (or_world st) of
        (Inr packet, w) \<Rightarrow> (Inr packet, st\<lparr>or_packet := Some packet, or_world := w\<rparr>)
      | (Inl e, w) \<Rightarrow>
          (Inl (case e of BadValue s \<Rightarrow> ContextBuild (''ContextPacket validation/read failed: '' @ s)
             | BadOS s \<Rightarrow> ContextBuild (''ContextPacket validation/read failed: '' @ s)
             | _ \<Rightarrow> e), st\<lparr>or_world := w\<rparr>))"

section \<open>Ending a run\<close>

definition sum_usage :: "token_usage list \<Rightarrow> token_usage" where
  "sum_usage us = \<lparr>prompt_tokens = sum_list (map prompt_tokens us),
     completion_tokens = sum_list (map completion_tokens us), total_tokens = sum_list (map total_tokens us)\<rparr>"

definition current_context_state ::
    "'w collaborators \<Rightarrow> 'w orchestration \<Rightarrow> failure_report list \<Rightarrow> continuation_state option res" where
  "current_context_state co st failures =
     (case or_packet st of None \<Rightarrow> Inr None
      | Some packet \<Rightarrow>
          bind_res (map_res ContextFileDigest (cx_selected_files packet)) (\<lambda>read_files.
          bind_res (map_res (\<lambda>(p, d). ContextFileDigest \<lparr>fd_path = p, fd_sha256 = d\<rparr>)
              (filter (\<lambda>(p, d). d \<noteq> ''<missing>'') (cs_file_hashes (co_snapshot co (or_world st))))) (\<lambda>hashes.
          bind_res (ContextContinuationState
            \<lparr>cn_summary_version = cx_summary_version packet, cn_repository_head = cx_repository_head packet,
             cn_read_files = read_files, cn_changed_files = co_changed_files co (or_world st),
             cn_changed_file_hashes = hashes,
             cn_completed_summary = (case or_developer st of
                 Some d \<Rightarrow> if dr_final_message d \<noteq> [] then take 512 (dr_final_message d)
                   else ''<controlled changes of this slice completed>''
               | None \<Rightarrow> ''<controlled changes of this slice completed>''),
             cn_remaining_summary = (if failures \<noteq> [] then take 512 (fr_message (hd failures))
               else ''<continue with the open acceptance criteria>''),
             cn_verification_summary = (if or_verifications st = [] then []
               else ''<verifications: '' @ dec (length (or_verifications st)) @ ''; latest: '' @
                 (if vr_passed (last (or_verifications st)) then ''passed>'' else ''failed>'')),
             cn_failure_summary = (if failures \<noteq> [] then take 512 (fr_message (hd failures)) else [])\<rparr>)
            (\<lambda>c. Inr (Some c)))))"

definition run_result ::
    "'w collaborators \<Rightarrow> orchestrator_config \<Rightarrow> task_contract \<Rightarrow> 'w orchestration \<Rightarrow> failure_report list
     \<Rightarrow> single_task_run_result res" where
  "run_result co cf contract st failures =
     bind_res (case or_developer st of None \<Rightarrow> Inr []
       | Some d \<Rightarrow> bind_res (AgentUsageSummary \<lparr>us_role = DEVELOPER, us_model = cf_developer_model cf,
           us_calls = dr_iterations d, us_usage = dr_usage d, us_latency_ms = dr_latency_ms d\<rparr>)
           (\<lambda>u. Inr [u])) (\<lambda>developer_usage.
     bind_res (if or_repairs st = [] then Inr []
       else bind_res (AgentUsageSummary \<lparr>us_role = REPAIR, us_model = cf_repair_model cf,
           us_calls = sum_list (map rp_iterations (or_repairs st)),
           us_usage = sum_usage (map rp_usage (or_repairs st)),
           us_latency_ms = sum_list (map rp_latency_ms (or_repairs st))\<rparr>) (\<lambda>u. Inr [u])) (\<lambda>repair_usage.
     bind_res (current_context_state co st failures) (\<lambda>context_state.
       SingleTaskRunResult
         \<lparr>sr_task = tc_task_id contract, sr_status = sm_state (or_machine st), sr_events = sm_events (or_machine st),
          sr_developer = or_developer st, sr_verifications = or_verifications st, sr_reviews = or_reviews st,
          sr_repairs = or_repairs st, sr_failures = failures,
          sr_changed_files = co_changed_files co (or_world st), sr_repair_attempts = int (length (or_repairs st)),
          sr_agent_models = [(DEVELOPER, cf_developer_model cf), (REVIEWER, cf_reviewer_model cf),
            (REPAIR, cf_repair_model cf)],
          sr_agent_usage = developer_usage @ repair_usage, sr_context_state = context_state\<rparr>)))"

text \<open>The transition to FAILED and the result, as every failing branch ends.\<close>

definition fail_run ::
    "'w collaborators \<Rightarrow> orchestrator_config \<Rightarrow> task_contract \<Rightarrow> string \<Rightarrow> failure_report list res
     \<Rightarrow> 'w orchestration \<Rightarrow> single_task_run_result res" where
  "fail_run co cf contract detail failures st =
     bind_res (transition_to T_FAILED detail st) (\<lambda>st'.
     bind_res failures (\<lambda>fs. run_result co cf contract st' fs))"

definition runtime_failure :: "string \<Rightarrow> string list \<Rightarrow> failure_report res" where
  "runtime_failure message evidence = FailureReport
     \<lparr>fr_type = TOOL_FAILURE, fr_source = F_RUNTIME, fr_message = message, fr_retryable = False,
      fr_evidence = evidence\<rparr>"

definition context_failure :: "string \<Rightarrow> string \<Rightarrow> failure_report res" where
  "context_failure stage err = FailureReport
     \<lparr>fr_type = TOOL_FAILURE, fr_source = F_RUNTIME,
      fr_message = stage @ '' ContextPacket construction failed.'', fr_retryable = False,
      fr_evidence = [''context_error='' @ err]\<rparr>"

definition empty_failure_evidence :: "failure_report res" where
  "empty_failure_evidence = runtime_failure ''Verification failed without structured failure evidence.'' []"

definition developer_stop_failure :: "developer_run_result \<Rightarrow> failure_report res" where
  "developer_stop_failure d =
     (let evidence = [''stop_reason='' @ developer_stop_value (dr_stop_reason d)] @
            (case dr_execution_budget d of None \<Rightarrow> []
             | Some b \<Rightarrow> [''developer_max_iterations='' @ int_text (eb_max_iterations b),
                 ''developer_max_duration_seconds='' @ eb_max_duration b,
                 ''developer_max_model_turn_seconds='' @ eb_max_model_turn b]) @
            [''developer_model_latency_ms='' @ int_text (dr_latency_ms d)] @ dr_tool_failure_evidence d
      in FailureReport
        (if dr_stop_reason d = D_REPEATED_TOOL_FAILURE
         then \<lparr>fr_type = INVALID_TOOL_ARGUMENTS, fr_source = F_TOOL,
               fr_message = ''<developer called the same tool with invalid arguments twice, slice stopped>'',
               fr_retryable = False, fr_evidence = evidence\<rparr>
         else if dr_stop_reason d = D_TIME_LIMIT
         then \<lparr>fr_type = AGENT_TIME_LIMIT, fr_source = F_RUNTIME,
               fr_message = ''<developer time budget exhausted before the change was complete>'',
               fr_retryable = False, fr_evidence = evidence\<rparr>
         else \<lparr>fr_type = TOOL_FAILURE, fr_source = F_RUNTIME,
               fr_message = ''Developer Agent did not reach a normal bounded completion.'',
               fr_retryable = False, fr_evidence = evidence\<rparr>))"

definition single :: "failure_report res \<Rightarrow> failure_report list res" where
  "single m = bind_res m (\<lambda>f. Inr [f])"

section \<open>Repair\<close>

definition validation_commands :: "verification_result \<Rightarrow> string list" where
  "validation_commands v =
     concat (map (\<lambda>c. case ck_command c of None \<Rightarrow> [] | Some s \<Rightarrow> if s = [] then [] else [s]) (vr_checks v))"

text \<open>\<open>_record_repair_verification\<close>: what the rerun of the hard gate said of the last repair.\<close>

definition record_repair_verification ::
    "verification_result \<Rightarrow> string option \<Rightarrow> repair_run_result list \<Rightarrow> repair_run_result list" where
  "record_repair_verification v signature repairs =
     (if repairs = [] then repairs
      else (case rp_progress (last repairs) of None \<Rightarrow> repairs
        | Some p \<Rightarrow>
            if pg_status p \<noteq> PATCH_PRODUCED then repairs
            else butlast repairs @ [(last repairs)\<lparr>rp_progress := Some (p\<lparr>
              pg_status := (if vr_passed v then REPAIRED
                else if pg_signature_before p = signature then REPAIR_INEFFECTIVE else PROGRESS_MADE),
              pg_signature_after := signature, pg_validation_executed := True,
              pg_validation_commands := validation_commands v\<rparr>)\<rparr>]))"

definition option_text :: "string option \<Rightarrow> string" where
  "option_text x = (case x of None \<Rightarrow> ''None'' | Some s \<Rightarrow> s)"

definition repair_evidence_for_next_attempt ::
    "failure_report list \<Rightarrow> repair_run_result list \<Rightarrow> failure_report list" where
  "repair_evidence_for_next_attempt failures repairs =
     (if repairs = [] then failures
      else (case rp_progress (last repairs) of None \<Rightarrow> failures
        | Some p \<Rightarrow>
            (let r = last repairs;
                 evidence = [''previous_repair_progress='' @ progress_value (pg_status p),
                     ''previous_repair_stop_reason='' @ stop_reason_value (rp_stop_reason r),
                     ''previous_patch_hash='' @ pg_patch_hash_after p,
                     ''previous_failure_signature_before='' @ option_text (pg_signature_before p),
                     ''previous_failure_signature_after='' @ option_text (pg_signature_after p)] @
                   (if rp_final_message r \<noteq> []
                    then [''previous_repair_summary='' @ take 512 (normalize_failure_text (rp_final_message r))] else []) @
                   (if pg_files_changed p \<noteq> []
                    then [''previous_files_changed='' @ join_with '','' (pg_files_changed p)] else [])
             in map (\<lambda>f. f\<lparr>fr_evidence := fr_evidence f @ evidence\<rparr>) failures)))"

text \<open>\<open>WorkspaceChangeSnapshot.files_changed_since\<close>; in a \<open>dict\<close> the last entry of a path counts.\<close>

definition files_changed_since :: "change_snapshot \<Rightarrow> change_snapshot \<Rightarrow> string list" where
  "files_changed_since current before =
     (let prev = map_of (rev (cs_file_hashes before)); now = map_of (rev (cs_file_hashes current))
      in sorted_list_of_set (set (filter (\<lambda>p. prev p \<noteq> now p)
           (map fst (cs_file_hashes before) @ map fst (cs_file_hashes current)))))"

definition relevant_paths :: "string list \<Rightarrow> string list" where
  "relevant_paths paths =
     fold (\<lambda>p acc. if list_ex (\<lambda>c. c \<in> {CHR ''*'', CHR ''?'', CHR ''[''}) p \<or> p \<in> set acc then acc else acc @ [p]) paths []"

definition make_handoff ::
    "'w collaborators \<Rightarrow> task_contract \<Rightarrow> failure_report list \<Rightarrow> 'w \<Rightarrow> repair_handoff res" where
  "make_handoff co contract failures w =
     (case repair_failure_hint failures of (kind, path, symbol) \<Rightarrow>
        bind_res (map_res (\<lambda>f. RepairFailureDigest \<lparr>rg_type = fr_type f, rg_source = fr_source f,
            rg_message = take 2000 (fr_message f),
            rg_evidence = map (take 1200) (take 8 (fr_evidence f))\<rparr>) (take 8 failures)) (\<lambda>digests.
        RepairHandoff
          \<lparr>rh_task = tc_task_id contract, rh_objective = objective contract, rh_repository_head = co_head co w,
           rh_acceptance_criteria = acceptance_criteria contract,
           rh_verification_commands = verification_commands contract, rh_writable_files = writable_files contract,
           rh_readonly_files = readonly_files contract, rh_changed_files = co_changed_files co w,
           rh_relevant_paths = take 16 (relevant_paths (co_changed_files co w @
             (case path of None \<Rightarrow> [] | Some p \<Rightarrow> if p = [] then [] else [p]) @ writable_files contract)),
           rh_failure_kind = kind, rh_suspected_path = path, rh_suspected_symbol = symbol,
           rh_failures = digests\<rparr>))"

text \<open>An attempt ends the run or gives a repair record.\<close>

type_synonym 'w repair_outcome = "single_task_run_result + ('w orchestration \<times> repair_run_result)"

definition ended :: "single_task_run_result res \<Rightarrow> 'w repair_outcome res" where
  "ended m = bind_res m (\<lambda>r. Inr (Inl r))"

definition repair_once ::
    "'w collaborators \<Rightarrow> orchestrator_config \<Rightarrow> task_contract \<Rightarrow> failure_report list \<Rightarrow> string \<Rightarrow> int
     \<Rightarrow> 'w orchestration \<Rightarrow> 'w repair_outcome res" where
  "repair_once co cf contract failures signature attempt st =
     (let budget = repair_budget cf contract; repair_task = contract\<lparr>max_retries := budget\<rparr> in
      if budget < attempt
      then ended (fail_run co cf contract ''Repair retry budget was exhausted.'' (Inr (terminalize failures budget)) st)
      else bind_res (transition_to T_REPAIRING (''Fresh targeted repair attempt '' @ int_text attempt @ '' started.'') st) (\<lambda>st1.
      bind_res (make_handoff co repair_task failures (or_world st1)) (\<lambda>handoff.
        let before = co_snapshot co (or_world st1) in
        (case co_repair co repair_task failures attempt handoff (or_world st1) of
           (Inl e, w) \<Rightarrow>
             (let st2 = st1\<lparr>or_world := w\<rparr> in
              case e of
                RepairBudgetExhausted fs \<Rightarrow>
                  ended (fail_run co cf contract ''Repair Agent rejected exhausted budget.'' (Inr fs) st2)
              | Provider p \<Rightarrow> ended (fail_run co cf contract
                  (if pe_code p = P_WORK_PACKAGE_BUDGET_ALLOCATION_BLOCKED
                   then ''Repair work-package budget allocation was blocked; recovery can reuse the persisted DAG.''
                   else ''Repair model provider failed.'') (single (to_failure_report p)) st2)
              | BadValue s \<Rightarrow> ended (fail_run co cf contract ''Repair evidence gate failed.''
                  (single (runtime_failure s [])) st2)
              | _ \<Rightarrow> Inl (to_exn e))
         | (Inr r, w) \<Rightarrow>
             (let current = co_snapshot co w;
                  has_patch = (cs_patch_hash before \<noteq> cs_patch_hash current)
              in bind_res (RepairProgressEvidence
                   \<lparr>pg_status = (if has_patch then PATCH_PRODUCED else NO_PATCH_PRODUCED),
                    pg_has_patch = has_patch, pg_files_changed = files_changed_since current before,
                    pg_patch_hash_before = cs_patch_hash before, pg_patch_hash_after = cs_patch_hash current,
                    pg_signature_before = Some signature, pg_signature_after = None,
                    pg_validation_executed = False, pg_validation_commands = []\<rparr>) (\<lambda>progress.
                 Inr (Inr (st1\<lparr>or_world := w\<rparr>,
                   r\<lparr>rp_changed_files := cs_changed_files current, rp_progress := Some progress\<rparr>))))))))"

definition finish_no_progress ::
    "'w collaborators \<Rightarrow> orchestrator_config \<Rightarrow> task_contract \<Rightarrow> failure_report list \<Rightarrow> repair_run_result
     \<Rightarrow> 'w orchestration \<Rightarrow> single_task_run_result res" where
  "finish_no_progress co cf contract failures r st =
     (case rp_progress r of None \<Rightarrow> Inl (AssertionError ''repair_result.progress is not None'')
      | Some p \<Rightarrow> fail_run co cf contract
          ''Repair Agent produced no workspace patch; downstream verification was skipped.''
          (Inr (map (\<lambda>f. f\<lparr>fr_retryable := False,
             fr_message := fr_message f @
               '' Repair Agent produced no candidate patch; downstream verification was not rerun.'',
             fr_evidence := fr_evidence f @
               [''repair_progress='' @ progress_value (pg_status p), ''patch_produced=false'',
                ''repair_stop_reason='' @ stop_reason_value (rp_stop_reason r),
                ''patch_hash_before='' @ pg_patch_hash_before p, ''patch_hash_after='' @ pg_patch_hash_after p,
                ''failure_signature_before='' @ option_text (pg_signature_before p),
                ''validation_executed=false'']\<rparr>) failures)) st)"

lemma transition_to_Inr:
  "transition_to next detail st = Inr st' \<longleftrightarrow>
   next \<in> set (ALLOWED_RUN_TRANSITIONS (sm_state (or_machine st))) \<and> text_between 2000 detail \<and>
   st' = st\<lparr>or_machine := \<lparr>sm_state = next, sm_events = sm_events (or_machine st) @
     [\<lparr>re_sequence = length (sm_events (or_machine st)), re_state = next, re_detail = detail\<rparr>]\<rparr>\<rparr>"
proof -
  have "transition_to next detail st = Inr st' \<longleftrightarrow>
      (\<exists>m. machine_transition next detail (or_machine st) = (m, None) \<and> st' = st\<lparr>or_machine := m\<rparr>)"
    by (auto simp: transition_to_def split: prod.splits option.splits)
  then show ?thesis by (auto simp: machine_transition_commits text_between_def)
qed

lemma ended_Inr [simp]: "ended m \<noteq> Inr (Inr x)"
  by (auto simp: ended_def bind_res_eq_Inr)

text \<open>A successful attempt is within the budget, leaves the machine in REPAIRING and the records alone.\<close>

lemma repair_once_Inr:
  assumes "repair_once co cf contract failures signature attempt st = Inr (Inr (st', r))"
  shows "attempt \<le> repair_budget cf contract \<and> or_repairs st' = or_repairs st \<and>
    or_verifications st' = or_verifications st \<and> or_reviews st' = or_reviews st \<and>
    or_developer st' = or_developer st \<and> or_packet st' = or_packet st \<and>
    sm_state (or_machine st') = T_REPAIRING \<and> (\<exists>p. rp_progress r = Some p)"
proof -
  from assms obtain st1 where st1: "transition_to T_REPAIRING
      (''Fresh targeted repair attempt '' @ int_text attempt @ '' started.'') st = Inr st1"
    and le: "attempt \<le> repair_budget cf contract"
    by (auto simp: repair_once_def Let_def bind_res_eq_Inr split: if_splits)
  from assms st1 le obtain handoff where handoff: "make_handoff co (contract\<lparr>max_retries := repair_budget cf contract\<rparr>)
      failures (or_world st1) = Inr handoff"
    unfolding repair_once_def Let_def by (simp add: bind_res_eq_Inr) (elim exE conjE, assumption)
  obtain res w where call: "co_repair co (contract\<lparr>max_retries := repair_budget cf contract\<rparr>) failures attempt handoff
      (or_world st1) = (res, w)" by fastforce
  have "(\<exists>w. st' = st1\<lparr>or_world := w\<rparr>) \<and> (\<exists>p. rp_progress r = Some p)"
  proof (cases res)
    case (Inl e)
    with assms st1 le handoff call show ?thesis
      unfolding repair_once_def Let_def by (simp split: agent_error.splits)
  next
    case (Inr r0)
    with assms st1 le handoff call show ?thesis
      unfolding repair_once_def Let_def by (simp add: bind_res_eq_Inr) (elim exE conjE, auto)
  qed
  with st1 le show ?thesis by (auto simp: transition_to_Inr)
qed

function repair_until_patch ::
    "'w collaborators \<Rightarrow> orchestrator_config \<Rightarrow> task_contract \<Rightarrow> failure_report list \<Rightarrow> string
     \<Rightarrow> 'w orchestration \<Rightarrow> 'w repair_outcome res" where
  "repair_until_patch co cf contract failures signature st =
     (case repair_once co cf contract (repair_evidence_for_next_attempt failures (or_repairs st)) signature
         (int (length (or_repairs st)) + 1) st of
        Inl e \<Rightarrow> Inl e
      | Inr (Inl result) \<Rightarrow> Inr (Inl result)
      | Inr (Inr (st1, r)) \<Rightarrow>
          (let st2 = st1\<lparr>or_repairs := or_repairs st1 @ [r]\<rparr> in
           case rp_progress r of
             None \<Rightarrow> Inr (Inr (st2, r))
           | Some p \<Rightarrow>
               if pg_has_patch p then Inr (Inr (st2, r))
               else if rp_stop_reason r = R_EXPLICIT_BLOCKER
               then ended (finish_no_progress co cf contract failures r st2)
               else if repair_budget cf contract \<le> int (length (or_repairs st2))
               then ended (finish_no_progress co cf contract failures r st2)
               else repair_until_patch co cf contract failures signature st2))"
  by pat_completeness auto
termination
  by (relation "measure (\<lambda>(co, cf, contract, _, _, st). nat (repair_budget cf contract - int (length (or_repairs st))))")
    (auto dest: repair_once_Inr)

declare repair_until_patch.simps [simp del]

section \<open>The loop\<close>

definition repair_verification_detail :: "repair_run_result \<Rightarrow> string" where
  "repair_verification_detail r =
     (let head = ''Repair attempt '' @ int_text (rp_attempt r) in
      case rp_stop_reason r of
        R_TIME_LIMIT \<Rightarrow> head @ '' reached its time limit; hard gate reruns before a bounded continuation.''
      | R_ITERATION_LIMIT \<Rightarrow> head @ '' reached its iteration limit; hard gate reruns before deciding whether another repair is needed.''
      | R_TOOL_CALL_LIMIT \<Rightarrow> head @ '' reached its tool-call limit; hard gate reruns before deciding whether another repair is needed.''
      | _ \<Rightarrow> head @ '' completed; hard gate reruns.'')"

text \<open>An iteration ends the run or leaves the state of the next one.\<close>

type_synonym 'w iteration = "single_task_run_result + 'w orchestration"

definition finished :: "single_task_run_result res \<Rightarrow> 'w iteration res" where
  "finished m = bind_res m (\<lambda>r. Inr (Inl r))"

definition repair_and_reverify ::
    "'w collaborators \<Rightarrow> orchestrator_config \<Rightarrow> task_contract \<Rightarrow> failure_report list \<Rightarrow> 'w orchestration
     \<Rightarrow> string \<Rightarrow> 'w iteration res" where
  "repair_and_reverify co cf contract failures st signature =
     bind_res (repair_until_patch co cf contract failures signature st) (\<lambda>outcome. case outcome of
         Inl result \<Rightarrow> Inr (Inl result)
       | Inr (st', r) \<Rightarrow> bind_res (transition_to T_VERIFYING (repair_verification_detail r) st') (\<lambda>st''.
           Inr (Inr st'')))"

text \<open>The branch for a gate that failed.\<close>

definition handle_failed_gate ::
    "'w collaborators \<Rightarrow> orchestrator_config \<Rightarrow> task_contract \<Rightarrow> verification_result \<Rightarrow> 'w orchestration
     \<Rightarrow> 'w iteration res" where
  "handle_failed_gate co cf contract v st =
     bind_res (from_verification v) (\<lambda>failures.
       let signature = failure_signature (cf_hash cf) failures;
           st' = st\<lparr>or_repairs := record_repair_verification v (Some signature) (or_repairs st)\<rparr>
       in if repairable failures = []
          then finished (fail_run co cf contract ''Hard gate produced a non-repairable failure.''
                 (if failures = [] then single empty_failure_evidence else Inr failures) st')
          else repair_and_reverify co cf contract (repairable failures) st' signature)"

text \<open>The branch for a gate that passed: the independent review.\<close>

definition handle_review ::
    "'w collaborators \<Rightarrow> orchestrator_config \<Rightarrow> task_contract \<Rightarrow> review_decision \<Rightarrow> 'w orchestration
     \<Rightarrow> 'w iteration res" where
  "handle_review co cf contract d st =
     (let st' = st\<lparr>or_reviews := or_reviews st @ [d]\<rparr> in
      if rv_decision d = PASS
      then finished (bind_res (transition_to T_SUCCEEDED
             ''Hard evidence and independent semantic review both passed.'' st') (\<lambda>st''.
             run_result co cf contract st'' []))
      else bind_res (from_review d) (\<lambda>failures.
        repair_and_reverify co cf contract failures st' (failure_signature (cf_hash cf) failures)))"

definition handle_passed_gate ::
    "'w collaborators \<Rightarrow> orchestrator_config \<Rightarrow> task_contract \<Rightarrow> verification_result \<Rightarrow> 'w orchestration
     \<Rightarrow> 'w iteration res" where
  "handle_passed_gate co cf contract v st =
     bind_res (transition_to T_REVIEWING ''Hard gate passed; independent semantic review started.''
         (st\<lparr>or_repairs := record_repair_verification v None (or_repairs st)\<rparr>)) (\<lambda>st1.
       case build_context co contract None st1 of
         (Inl (ContextBuild s), st2) \<Rightarrow> finished (fail_run co cf contract
             ''Reviewer ContextPacket construction failed.'' (single (context_failure ''Reviewer'' s)) st2)
       | (Inl e, st2) \<Rightarrow> Inl (to_exn e)
       | (Inr packet, st2) \<Rightarrow>
           (case co_review co contract v packet (or_world st2) of
              (Inr d, w) \<Rightarrow> handle_review co cf contract d (st2\<lparr>or_world := w\<rparr>)
            | (Inl e, w) \<Rightarrow>
                (let st3 = st2\<lparr>or_world := w\<rparr> in
                 case e of
                   InvalidReviewerOutput f \<Rightarrow> finished (fail_run co cf contract
                     ''Reviewer output failed its structured-output gate.'' (Inr [f]) st3)
                 | Provider p \<Rightarrow> finished (fail_run co cf contract ''Reviewer model provider failed.''
                     (single (to_failure_report p)) st3)
                 | BadValue s \<Rightarrow> finished (fail_run co cf contract ''Reviewer evidence gate failed.''
                     (single (runtime_failure s [])) st3)
                 | _ \<Rightarrow> Inl (to_exn e))))"

definition loop_body ::
    "'w collaborators \<Rightarrow> orchestrator_config \<Rightarrow> task_contract \<Rightarrow> 'w orchestration \<Rightarrow> 'w iteration res" where
  "loop_body co cf contract st =
     (case co_verify co contract (or_world st) of
        (Inl e, w) \<Rightarrow> Inl (to_exn e)
      | (Inr v, w) \<Rightarrow>
          (let st' = st\<lparr>or_world := w, or_verifications := or_verifications st @ [v]\<rparr> in
           if \<not> vr_passed v then handle_failed_gate co cf contract v st'
           else handle_passed_gate co cf contract v st'))"

text \<open>The \<open>while True\<close> loop, with \<open>n\<close> iterations of fuel; \<open>None\<close> is running out of it.\<close>

fun verify_loop ::
    "nat \<Rightarrow> 'w collaborators \<Rightarrow> orchestrator_config \<Rightarrow> task_contract \<Rightarrow> 'w orchestration
     \<Rightarrow> single_task_run_result res option" where
  "verify_loop 0 co cf contract st = None"
| "verify_loop (Suc n) co cf contract st = (case loop_body co cf contract st of
     Inl e \<Rightarrow> Some (Inl e)
   | Inr (Inl result) \<Rightarrow> Some (Inr result)
   | Inr (Inr st') \<Rightarrow> verify_loop n co cf contract st')"

definition created :: "'w \<Rightarrow> 'w orchestration" where
  "created w = \<lparr>or_machine = TaskStateMachine, or_developer = None, or_verifications = [], or_reviews = [],
     or_repairs = [], or_packet = None, or_world = w\<rparr>"

text \<open>The initial work of the Developer Agent, up to the first hard gate.\<close>

definition develop ::
    "'w collaborators \<Rightarrow> orchestrator_config \<Rightarrow> task_contract \<Rightarrow> continuation_state option \<Rightarrow> 'w orchestration
     \<Rightarrow> 'w iteration res" where
  "develop co cf contract continuation st =
     (case build_context co contract continuation st of
        (Inl (ContextBuild s), st1) \<Rightarrow> finished (fail_run co cf contract
          ''Developer ContextPacket construction failed.'' (single (context_failure ''Developer'' s)) st1)
      | (Inl e, st1) \<Rightarrow> Inl (to_exn e)
      | (Inr packet, st1) \<Rightarrow>
          (case co_developer co contract packet (or_world st1) of
             (Inl e, w) \<Rightarrow>
               (let st2 = st1\<lparr>or_world := w\<rparr> in
                case e of
                  Provider p \<Rightarrow> finished (fail_run co cf contract ''Developer model provider failed.''
                    (single (to_failure_report p)) st2)
                | BadValue s \<Rightarrow> finished (fail_run co cf contract ''Developer context gate failed.''
                    (single (runtime_failure s [])) st2)
                | _ \<Rightarrow> Inl (to_exn e))
           | (Inr d, w) \<Rightarrow>
               (let st2 = st1\<lparr>or_world := w, or_developer := Some d\<rparr> in
                if dr_stop_reason d \<noteq> D_MODEL_STOP \<and> co_changed_files co w = []
                then finished (fail_run co cf contract ''Developer Agent stopped before a normal model completion.''
                  (single (developer_stop_failure d)) st2)
                else if co_changed_files co w = []
                then finished (fail_run co cf contract ''Developer produced no Git changes.''
                  (single (runtime_failure ''Developer Agent completed without producing repository changes.''
                    [''changed_files=0''])) st2)
                else bind_res (transition_to T_VERIFYING
                  (if dr_stop_reason d = D_MODEL_STOP then ''<developer completed, verification starts>''
                   else ''<developer slice ended with changes, verification starts>'') st2) (\<lambda>st3. Inr (Inr st3)))))"

definition begin_run ::
    "'w collaborators \<Rightarrow> orchestrator_config \<Rightarrow> task_contract \<Rightarrow> continuation_state option \<Rightarrow> bool \<Rightarrow> 'w
     \<Rightarrow> 'w iteration res" where
  "begin_run co cf contract continuation resume_verification_first w =
     bind_res (transition_to T_RUNNING
         (if resume_verification_first then ''<resuming from the failed checkpoint, verification first>''
          else ''Developer Agent started initial work.'') (created w)) (\<lambda>st.
       if resume_verification_first
       then bind_res (transition_to T_VERIFYING ''<checkpoint commit loaded, verification starts>'' st) (\<lambda>st'. Inr (Inr st'))
       else develop co cf contract continuation st)"

definition run ::
    "nat \<Rightarrow> 'w collaborators \<Rightarrow> orchestrator_config \<Rightarrow> task_contract \<Rightarrow> continuation_state option \<Rightarrow> bool \<Rightarrow> 'w
     \<Rightarrow> single_task_run_result res option" where
  "run n co cf contract continuation resume_verification_first w =
     (case begin_run co cf contract continuation resume_verification_first w of
        Inl e \<Rightarrow> Some (Inl e)
      | Inr (Inl result) \<Rightarrow> Some (Inr result)
      | Inr (Inr st) \<Rightarrow> verify_loop n co cf contract st)"

end
