(* ===== verification/Orchestrator_Safety.thy ===== *)
theory Orchestrator_Safety
  imports Orchestrator
begin

text \<open>
  What the evidence-driven loop guarantees: it ends within the repair budget, it reports success only
  on a passed hard gate that an independent review accepted, and every other end is a classified failure.
\<close>

section \<open>The end of a run\<close>

text \<open>A result says what the run recorded, and is terminal.\<close>

definition records :: "'w orchestration \<Rightarrow> single_task_run_result \<Rightarrow> bool" where
  "records st r = (sr_verifications r = or_verifications st \<and> sr_reviews r = or_reviews st \<and>
     sr_repairs r = or_repairs st \<and> sr_developer r = or_developer st)"

lemma run_result_Inr:
  assumes "run_result co cf contract st failures = Inr r"
  shows "records st r" and "sr_status r = sm_state (or_machine st)" and "sr_failures r = failures"
    and "sr_events r = sm_events (or_machine st)" and "sr_status r = T_FAILED \<Longrightarrow> failures \<noteq> []"
    and "sr_task r = tc_task_id contract" and "sr_changed_files r = co_changed_files co (or_world st)"
proof -
  from assms obtain us cs where v: "SingleTaskRunResult
         \<lparr>sr_task = tc_task_id contract, sr_status = sm_state (or_machine st), sr_events = sm_events (or_machine st),
          sr_developer = or_developer st, sr_verifications = or_verifications st, sr_reviews = or_reviews st,
          sr_repairs = or_repairs st, sr_failures = failures,
          sr_changed_files = co_changed_files co (or_world st), sr_repair_attempts = int (length (or_repairs st)),
          sr_agent_models = [(DEVELOPER, cf_developer_model cf), (REVIEWER, cf_reviewer_model cf),
            (REPAIR, cf_repair_model cf)],
          sr_agent_usage = us, sr_context_state = cs\<rparr> = Inr r"
    unfolding run_result_def bind_res_eq_Inr by blast
  have id: "x = y" if "SingleTaskRunResult x = Inr y" for x y
    using that unfolding SingleTaskRunResult_def by (simp split: if_splits)
  note r = id [OF v, symmetric]
  show "records st r" by (simp add: r records_def)
  show "sr_status r = sm_state (or_machine st)" by (simp add: r)
  show "sr_failures r = failures" by (simp add: r)
  show "sr_events r = sm_events (or_machine st)" by (simp add: r)
  show "sr_task r = tc_task_id contract" by (simp add: r)
  show "sr_changed_files r = co_changed_files co (or_world st)" by (simp add: r)
  show "failures \<noteq> []" if "sr_status r = T_FAILED"
    using v that unfolding SingleTaskRunResult_def by (auto simp: r split: if_splits)
qed

text \<open>Every failing branch ends in FAILED with evidence, and leaves the records alone.\<close>

definition failed_with :: "'w orchestration \<Rightarrow> single_task_run_result \<Rightarrow> bool" where
  "failed_with st r = (sr_status r = T_FAILED \<and> sr_failures r \<noteq> [] \<and> records st r)"

lemma fail_run_Inr:
  assumes "fail_run co cf contract detail failures st = Inr r"
  shows "failed_with st r"
proof -
  from assms obtain st' fs where t: "transition_to T_FAILED detail st = Inr st'"
    and r: "run_result co cf contract st' fs = Inr r"
    unfolding fail_run_def bind_res_eq_Inr by blast
  from t have "sm_state (or_machine st') = T_FAILED" "records st' r \<longleftrightarrow> records st r"
    by (simp_all add: transition_to_Inr records_def)
  with run_result_Inr [OF r] show ?thesis by (auto simp: failed_with_def)
qed

lemma failed_with_world [simp]:
  "failed_with (st\<lparr>or_world := w\<rparr>) r = failed_with st r"
  "failed_with (st\<lparr>or_packet := p, or_world := w\<rparr>) r = failed_with st r"
  "failed_with (st\<lparr>or_machine := m\<rparr>) r = failed_with st r"
  by (simp_all add: failed_with_def records_def)

lemma ended_Inl: "ended m = Inr (Inl r) \<longleftrightarrow> m = Inr r"
  by (auto simp: ended_def bind_res_eq_Inr)

lemma transition_failed_with: "transition_to s d st = Inr st' \<Longrightarrow> failed_with st' r = failed_with st r"
  by (auto simp: transition_to_Inr)

lemma repair_once_ended:
  assumes "repair_once co cf contract failures signature attempt st = Inr (Inl r)"
  shows "failed_with st r"
proof (cases "repair_budget cf contract < attempt")
  case True
  with assms show ?thesis by (auto simp: repair_once_def Let_def ended_Inl intro: fail_run_Inr)
next
  case False
  let ?contract = "contract\<lparr>max_retries := repair_budget cf contract\<rparr>"
  from assms False obtain st1 handoff where st1: "transition_to T_REPAIRING
      (''Fresh targeted repair attempt '' @ int_text attempt @ '' started.'') st = Inr st1"
    and handoff: "make_handoff co ?contract failures (or_world st1) = Inr handoff"
    unfolding repair_once_def Let_def by (simp add: bind_res_eq_Inr) (elim exE conjE, simp)
  obtain res w where call: "co_repair co ?contract failures attempt handoff (or_world st1) = (res, w)"
    by fastforce
  have "failed_with (st1\<lparr>or_world := w\<rparr>) r"
  proof (cases res)
    case (Inl e)
    with assms st1 False handoff call have "\<exists>d fs. fail_run co cf contract d fs (st1\<lparr>or_world := w\<rparr>) = Inr r"
      unfolding repair_once_def Let_def by (cases e) (simp_all add: ended_Inl, fast+)
    then show ?thesis by (elim exE) (rule fail_run_Inr)
  next
    case (Inr r0)
    with assms st1 False handoff call show ?thesis
      unfolding repair_once_def Let_def by (simp add: bind_res_eq_Inr)
  qed
  with st1 show ?thesis by (simp add: transition_failed_with)
qed

lemma finish_no_progress_Inr:
  "finish_no_progress co cf contract failures r0 st = Inr r \<Longrightarrow> failed_with st r"
  by (auto simp: finish_no_progress_def intro: fail_run_Inr split: option.splits)

text \<open>
  Repairing until there is a patch: either the run failed, with the repairs so far on record, or the last
  repair has a patch. In both cases the repairs stay within the budget.
\<close>

definition repaired_from :: "orchestrator_config \<Rightarrow> task_contract \<Rightarrow> 'w orchestration \<Rightarrow> 'w orchestration \<Rightarrow> bool" where
  "repaired_from cf contract st st' =
     (or_verifications st' = or_verifications st \<and> or_reviews st' = or_reviews st \<and>
      length (or_repairs st) < length (or_repairs st') \<and>
      int (length (or_repairs st')) \<le> repair_budget cf contract)"

definition gave_up_from ::
    "orchestrator_config \<Rightarrow> task_contract \<Rightarrow> 'w orchestration \<Rightarrow> single_task_run_result \<Rightarrow> bool" where
  "gave_up_from cf contract st r =
     (sr_status r = T_FAILED \<and> sr_failures r \<noteq> [] \<and> sr_verifications r = or_verifications st \<and>
      sr_reviews r = or_reviews st \<and> length (or_repairs st) \<le> length (sr_repairs r) \<and>
      (length (or_repairs st) < length (sr_repairs r) \<longrightarrow> int (length (sr_repairs r)) \<le> repair_budget cf contract))"

lemma repair_until_patch_outcome:
  "(repair_until_patch co cf contract failures signature st = Inr (Inl r) \<longrightarrow> gave_up_from cf contract st r) \<and>
   (repair_until_patch co cf contract failures signature st = Inr (Inr (st', q)) \<longrightarrow>
      repaired_from cf contract st st' \<and> sm_state (or_machine st') = T_REPAIRING \<and> or_repairs st' \<noteq> [] \<and>
      last (or_repairs st') = q \<and> (\<exists>p. rp_progress q = Some p \<and> pg_has_patch p))"
proof (induction co cf contract failures signature st rule: repair_until_patch.induct)
  case (1 co cf contract failures signature st)
  let ?once = "repair_once co cf contract (repair_evidence_for_next_attempt failures (or_repairs st)) signature
         (int (length (or_repairs st)) + 1) st"
  show ?case
  proof (cases ?once)
    case (Inl e)
    then show ?thesis by (subst (1 2) repair_until_patch.simps) simp
  next
    case once: (Inr out)
    show ?thesis
    proof (cases out)
      case (Inl r0)
      with once repair_once_ended [of co cf contract _ signature _ st r0] show ?thesis
        by (subst (1 2) repair_until_patch.simps) (auto simp: failed_with_def records_def gave_up_from_def)
    next
      case (Inr sr)
      obtain st1 q1 where sr: "sr = (st1, q1)" by fastforce
      have body: "repair_once co cf contract (repair_evidence_for_next_attempt failures (or_repairs st)) signature
         (int (length (or_repairs st)) + 1) st = Inr (Inr (st1, q1))" using once Inr sr by simp
      from repair_once_Inr [OF body] obtain p where le: "int (length (or_repairs st)) + 1 \<le> repair_budget cf contract"
        and keep: "or_repairs st1 = or_repairs st" "or_verifications st1 = or_verifications st"
          "or_reviews st1 = or_reviews st" "sm_state (or_machine st1) = T_REPAIRING"
        and p: "rp_progress q1 = Some p" by auto
      let ?st2 = "st1\<lparr>or_repairs := or_repairs st1 @ [q1]\<rparr>"
      have give_up: "gave_up_from cf contract st r" if "finish_no_progress co cf contract failures q1 ?st2 = Inr r" for r
        using finish_no_progress_Inr [OF that] le keep by (auto simp: failed_with_def records_def gave_up_from_def)
      consider "pg_has_patch p"
        | "\<not> pg_has_patch p" "rp_stop_reason q1 = R_EXPLICIT_BLOCKER \<or> repair_budget cf contract \<le> int (length (or_repairs ?st2))"
        | "\<not> pg_has_patch p" "rp_stop_reason q1 \<noteq> R_EXPLICIT_BLOCKER" "\<not> repair_budget cf contract \<le> int (length (or_repairs ?st2))"
        by blast
      then show ?thesis
      proof cases
        case 1
        with body p keep le show ?thesis
          by (subst (1 2) repair_until_patch.simps) (auto simp: repaired_from_def)
      next
        case 2
        with body p have "repair_until_patch co cf contract failures signature st =
            ended (finish_no_progress co cf contract failures q1 ?st2)"
          by (subst repair_until_patch.simps) (auto simp: Let_def)
        with give_up show ?thesis by (simp add: ended_Inl)
      next
        case 3
        with body p have rec: "repair_until_patch co cf contract failures signature st =
            repair_until_patch co cf contract failures signature ?st2"
          by (subst repair_until_patch.simps) (simp add: Let_def)
        from "1.IH" [OF once Inr sr [symmetric] refl p] 3 keep show ?thesis
          unfolding rec by (auto simp: repaired_from_def gave_up_from_def)
      qed
    qed
  qed
qed

section \<open>Iterations of the loop\<close>

text \<open>What holds whenever the loop is about to run the hard gate.\<close>

definition at_gate :: "orchestrator_config \<Rightarrow> task_contract \<Rightarrow> 'w orchestration \<Rightarrow> bool" where
  "at_gate cf contract st =
     (length (or_verifications st) \<le> length (or_repairs st) \<and> length (or_reviews st) \<le> length (or_verifications st) \<and>
      int (length (or_repairs st)) \<le> max 0 (repair_budget cf contract))"

text \<open>
  An accepted run: the last hard gate passed, the reviewer saw exactly that gate's result and
  accepted it, and nothing but the building of the reviewer's context ran between the two.
\<close>

definition accepted :: "'w collaborators \<Rightarrow> task_contract \<Rightarrow> single_task_run_result \<Rightarrow> bool" where
  "accepted co contract r =
     (sr_failures r = [] \<and> sr_verifications r \<noteq> [] \<and> sr_reviews r \<noteq> [] \<and>
      vr_passed (last (sr_verifications r)) \<and> rv_decision (last (sr_reviews r)) = PASS \<and>
      (\<exists>w0 w1 packet w2 w3. co_verify co contract w0 = (Inr (last (sr_verifications r)), w1) \<and>
         co_build co contract None w1 = (Inr packet, w2) \<and>
         co_review co contract (last (sr_verifications r)) packet w2 = (Inr (last (sr_reviews r)), w3) \<and>
         sr_changed_files r = co_changed_files co w3))"

definition within_budget :: "orchestrator_config \<Rightarrow> task_contract \<Rightarrow> single_task_run_result \<Rightarrow> bool" where
  "within_budget cf contract r =
     (int (length (sr_repairs r)) \<le> max 0 (repair_budget cf contract) \<and>
      length (sr_verifications r) \<le> length (sr_repairs r) + 1 \<and> length (sr_reviews r) \<le> length (sr_verifications r))"

definition sound_end ::
    "'w collaborators \<Rightarrow> orchestrator_config \<Rightarrow> task_contract \<Rightarrow> single_task_run_result \<Rightarrow> bool" where
  "sound_end co cf contract r =
     (within_budget cf contract r \<and>
      (sr_status r = T_SUCCEEDED \<and> accepted co contract r \<or> sr_status r = T_FAILED \<and> sr_failures r \<noteq> []))"

lemma record_repair_verification_length [simp]:
  "length (record_repair_verification v s repairs) = length repairs"
  by (auto simp: record_repair_verification_def split: option.splits)

text \<open>The state right after a gate, before its outcome is handled.\<close>

definition after_gate :: "orchestrator_config \<Rightarrow> task_contract \<Rightarrow> 'w orchestration \<Rightarrow> bool" where
  "after_gate cf contract st =
     (length (or_verifications st) \<le> length (or_repairs st) + 1 \<and> length (or_reviews st) \<le> length (or_verifications st) \<and>
      int (length (or_repairs st)) \<le> max 0 (repair_budget cf contract))"

lemma failed_sound:
  "failed_with st r \<Longrightarrow> after_gate cf contract st \<Longrightarrow> sound_end co cf contract r"
  by (auto simp: failed_with_def records_def after_gate_def sound_end_def within_budget_def)

lemma gave_up_sound:
  "gave_up_from cf contract st r \<Longrightarrow> after_gate cf contract st \<Longrightarrow> sound_end co cf contract r"
  by (cases "length (or_repairs st) = length (sr_repairs r)")
    (auto simp: gave_up_from_def after_gate_def sound_end_def within_budget_def)

definition sound_outcome ::
    "'w collaborators \<Rightarrow> orchestrator_config \<Rightarrow> task_contract \<Rightarrow> nat \<Rightarrow> 'w iteration res \<Rightarrow> bool" where
  "sound_outcome co cf contract n out = (case out of Inl e \<Rightarrow> True
     | Inr (Inl r) \<Rightarrow> sound_end co cf contract r
     | Inr (Inr st) \<Rightarrow> at_gate cf contract st \<and> n < length (or_repairs st))"

lemma sound_outcome_simps [simp]:
  "sound_outcome co cf contract n (Inl e)"
  "sound_outcome co cf contract n (Inr (Inl r)) = sound_end co cf contract r"
  "sound_outcome co cf contract n (Inr (Inr st)) = (at_gate cf contract st \<and> n < length (or_repairs st))"
  by (simp_all add: sound_outcome_def)

lemma sound_finished:
  "sound_outcome co cf contract n (finished m) = (\<forall>r. m = Inr r \<longrightarrow> sound_end co cf contract r)"
  by (cases m) (simp_all add: finished_def)

lemma finished_fail_run_sound:
  "after_gate cf contract st \<Longrightarrow> sound_outcome co cf contract n (finished (fail_run co' cf' contract' d fs st))"
  by (auto simp: sound_finished intro: failed_sound fail_run_Inr)

lemma repair_and_reverify_sound:
  assumes "after_gate cf contract st" and "n \<le> length (or_repairs st)"
  shows "sound_outcome co cf contract n (repair_and_reverify co cf contract failures st signature)"
proof (cases "repair_and_reverify co cf contract failures st signature")
  case (Inr out)
  then obtain out' where out': "repair_until_patch co cf contract failures signature st = Inr out'"
    unfolding repair_and_reverify_def bind_res_eq_Inr by blast
  show ?thesis
  proof (cases out')
    case (Inl r)
    with out' repair_until_patch_outcome [of co cf contract failures signature st r]
    have "gave_up_from cf contract st r" by simp
    with Inl out' assms show ?thesis by (simp add: repair_and_reverify_def gave_up_sound)
  next
    case (Inr sq)
    obtain st' q where sq: "sq = (st', q)" by fastforce
    with out' Inr repair_until_patch_outcome [of co cf contract failures signature st _ st' q]
    have from_st: "repaired_from cf contract st st'" by simp
    obtain st'' where "out = Inr st''" "transition_to T_VERIFYING (repair_verification_detail q) st' = Inr st''"
      using \<open>repair_and_reverify co cf contract failures st signature = Inr out\<close> out' Inr sq
      by (auto simp: repair_and_reverify_def bind_res_eq_Inr)
    with from_st assms \<open>repair_and_reverify co cf contract failures st signature = Inr out\<close> show ?thesis
      by (auto simp: transition_to_Inr repaired_from_def after_gate_def at_gate_def)
  qed
qed simp

lemma handle_failed_gate_sound:
  assumes "after_gate cf contract st"
  shows "sound_outcome co cf contract (length (or_repairs st)) (handle_failed_gate co cf contract v st)"
proof (cases "from_verification v")
  case (Inr failures)
  have "after_gate cf contract (st\<lparr>or_repairs := record_repair_verification v s (or_repairs st)\<rparr>)" for s
    using assms by (simp add: after_gate_def)
  with Inr show ?thesis
    by (simp add: handle_failed_gate_def Let_def finished_fail_run_sound repair_and_reverify_sound)
qed (simp add: handle_failed_gate_def)

lemma handle_review_sound:
  assumes gate: "after_gate cf contract st" "or_verifications st \<noteq> []" "vr_passed (last (or_verifications st))"
    and reviews: "length (or_reviews st) < length (or_verifications st)"
    and calls: "co_verify co contract w0 = (Inr (last (or_verifications st)), w1)"
      "co_build co contract None w1 = (Inr packet, w2)"
      "co_review co contract (last (or_verifications st)) packet w2 = (Inr d, or_world st)"
  shows "sound_outcome co cf contract (length (or_repairs st)) (handle_review co cf contract d st)"
proof -
  let ?st = "st\<lparr>or_reviews := or_reviews st @ [d]\<rparr>"
  have after: "after_gate cf contract ?st" using gate reviews by (simp add: after_gate_def)
  show ?thesis
  proof (cases "rv_decision d = PASS")
    case False
    with after show ?thesis
      by (cases "from_review d") (simp_all add: handle_review_def Let_def repair_and_reverify_sound)
  next
    case True
    have "sound_end co cf contract r"
      if t: "transition_to T_SUCCEEDED ''Hard evidence and independent semantic review both passed.'' ?st = Inr st'"
        and r: "run_result co cf contract st' [] = Inr r" for st' r
    proof -
      from t have st': "sm_state (or_machine st') = T_SUCCEEDED" "or_world st' = or_world st" "records st' r = records ?st r"
        by (auto simp: transition_to_Inr records_def)
      with run_result_Inr [OF r] have "sr_verifications r = or_verifications st" "sr_reviews r = or_reviews st @ [d]"
          "sr_repairs r = or_repairs st" "sr_status r = T_SUCCEEDED" "sr_failures r = []"
          "sr_changed_files r = co_changed_files co (or_world st)"
        by (simp_all add: records_def)
      moreover from calls have "\<exists>w0 w1 packet w2 w3. co_verify co contract w0 = (Inr (last (or_verifications st)), w1) \<and>
          co_build co contract None w1 = (Inr packet, w2) \<and>
          co_review co contract (last (or_verifications st)) packet w2 = (Inr d, w3) \<and>
          co_changed_files co (or_world st) = co_changed_files co w3" by blast
      ultimately show ?thesis
        using gate after True by (simp add: sound_end_def within_budget_def accepted_def after_gate_def)
    qed
    with True show ?thesis
      by (auto simp: handle_review_def Let_def sound_finished bind_res_eq_Inr)
  qed
qed

lemma handle_passed_gate_sound:
  assumes gate: "after_gate cf contract st" "or_verifications st \<noteq> []" "last (or_verifications st) = v" "vr_passed v"
    and reviews: "length (or_reviews st) < length (or_verifications st)"
    and call: "co_verify co contract w0 = (Inr v, or_world st)"
  shows "sound_outcome co cf contract (length (or_repairs st)) (handle_passed_gate co cf contract v st)"
proof (cases "transition_to T_REVIEWING ''Hard gate passed; independent semantic review started.''
    (st\<lparr>or_repairs := record_repair_verification v None (or_repairs st)\<rparr>)")
  case (Inr st1)
  then have st1: "length (or_repairs st1) = length (or_repairs st)" "or_verifications st1 = or_verifications st"
      "or_reviews st1 = or_reviews st" "or_world st1 = or_world st"
    by (auto simp: transition_to_Inr)
  then have after: "after_gate cf contract (st1\<lparr>or_packet := p, or_world := w\<rparr>)"
      "after_gate cf contract (st1\<lparr>or_world := w\<rparr>)" for w p
    using gate by (simp_all add: after_gate_def)
  obtain built w2 where build: "co_build co contract None (or_world st1) = (built, w2)" by fastforce
  show ?thesis
  proof (cases built)
    case (Inl e)
    with Inr build after show ?thesis
      by (cases e) (simp_all add: handle_passed_gate_def build_context_def finished_fail_run_sound)
  next
    case packet: (Inr packet)
    obtain decision w3 where review: "co_review co contract v packet w2 = (decision, w3)" by fastforce
    show ?thesis
    proof (cases decision)
      case (Inl e)
      with Inr build packet review after show ?thesis
        by (cases e) (simp_all add: handle_passed_gate_def build_context_def finished_fail_run_sound Let_def)
    next
      case (Inr d)
      let ?st = "st1\<lparr>or_packet := Some packet, or_world := w3\<rparr>"
      have "sound_outcome co cf contract (length (or_repairs ?st)) (handle_review co cf contract d ?st)"
        by (rule handle_review_sound [of _ _ _ co w0 "or_world st" packet w2])
          (use gate reviews call build packet review Inr st1 after in simp_all)
      with Inr \<open>transition_to _ _ _ = Inr st1\<close> build packet review st1 show ?thesis
        by (simp add: handle_passed_gate_def build_context_def)
    qed
  qed
qed (simp add: handle_passed_gate_def)

lemma loop_body_sound:
  assumes "at_gate cf contract st"
  shows "sound_outcome co cf contract (length (or_repairs st)) (loop_body co cf contract st)"
proof -
  obtain res w where verify: "co_verify co contract (or_world st) = (res, w)" by fastforce
  show ?thesis
  proof (cases res)
    case (Inr v)
    let ?st = "st\<lparr>or_world := w, or_verifications := or_verifications st @ [v]\<rparr>"
    have after: "after_gate cf contract ?st" "length (or_reviews ?st) < length (or_verifications ?st)"
      using assms by (simp_all add: at_gate_def after_gate_def)
    show ?thesis
    proof (cases "vr_passed v")
      case True
      with handle_passed_gate_sound [OF after(1) _ _ _ after(2), of v co "or_world st"] verify Inr show ?thesis
        by (simp add: loop_body_def)
    next
      case False
      with handle_failed_gate_sound [OF after(1), of co v] verify Inr show ?thesis
        by (simp add: loop_body_def)
    qed
  qed (simp add: loop_body_def verify)
qed

section \<open>Whole runs\<close>

lemma after_gate_start: "after_gate cf contract st" if "or_verifications st = []" "or_reviews st = []" "or_repairs st = []"
  using that by (simp add: after_gate_def)

definition sound_start ::
    "'w collaborators \<Rightarrow> orchestrator_config \<Rightarrow> task_contract \<Rightarrow> 'w iteration res \<Rightarrow> bool" where
  "sound_start co cf contract out = (case out of Inl e \<Rightarrow> True
     | Inr (Inl r) \<Rightarrow> sound_end co cf contract r
     | Inr (Inr st) \<Rightarrow> at_gate cf contract st \<and> or_repairs st = [])"

lemma sound_start_finished:
  "or_verifications st = [] \<Longrightarrow> or_reviews st = [] \<Longrightarrow> or_repairs st = [] \<Longrightarrow>
   sound_start co cf contract (finished (fail_run co' cf' contract' d fs st))"
  by (cases "fail_run co' cf' contract' d fs st")
    (auto simp: sound_start_def finished_def dest!: fail_run_Inr intro: failed_sound after_gate_start)

lemma sound_start_transition:
  "or_verifications st = [] \<Longrightarrow> or_reviews st = [] \<Longrightarrow> or_repairs st = [] \<Longrightarrow>
   sound_start co cf contract (bind_res (transition_to s d st) (\<lambda>st'. Inr (Inr st')))"
  by (cases "transition_to s d st") (simp_all add: sound_start_def, auto simp: transition_to_Inr at_gate_def)

lemma develop_sound:
  assumes fresh: "or_verifications st = []" "or_reviews st = []" "or_repairs st = []"
  shows "sound_start co cf contract (develop co cf contract continuation st)"
proof -
  obtain built w1 where build: "co_build co contract continuation (or_world st) = (built, w1)" by fastforce
  show ?thesis
  proof (cases built)
    case (Inl e)
    with build fresh show ?thesis
      by (cases e) (simp_all add: develop_def build_context_def sound_start_finished, simp_all add: sound_start_def)
  next
    case packet: (Inr packet)
    obtain out w2 where dev: "co_developer co contract packet w1 = (out, w2)" by fastforce
    show ?thesis
    proof (cases out)
      case (Inl e)
      with build packet dev fresh show ?thesis
        by (cases e) (simp_all add: develop_def build_context_def Let_def sound_start_finished, simp_all add: sound_start_def)
    next
      case (Inr d)
      with build packet dev fresh show ?thesis
        by (simp add: develop_def build_context_def Let_def sound_start_finished sound_start_transition)
    qed
  qed
qed

lemma begin_run_sound: "sound_start co cf contract (begin_run co cf contract continuation b w)"
proof (cases "transition_to T_RUNNING (if b then ''<resuming from the failed checkpoint, verification first>''
          else ''Developer Agent started initial work.'') (created w)")
  case (Inr st)
  then have "or_verifications st = []" "or_reviews st = []" "or_repairs st = []"
    by (auto simp: transition_to_Inr created_def)
  with Inr show ?thesis
    by (simp add: begin_run_def develop_sound sound_start_transition split del: if_split) (simp add: develop_sound sound_start_transition)
qed (simp add: begin_run_def sound_start_def)

lemma verify_loop_sound:
  "at_gate cf contract st \<Longrightarrow> verify_loop n co cf contract st = Some (Inr r) \<Longrightarrow> sound_end co cf contract r"
proof (induction n arbitrary: st)
  case (Suc n)
  from loop_body_sound [OF Suc.prems(1), of co] Suc.prems(2) Suc.IH show ?case
    by (auto split: sum.splits)
qed simp

text \<open>Every further iteration has cost a repair, and no repair is made beyond the budget.\<close>

lemma verify_loop_returns:
  "at_gate cf contract st \<Longrightarrow> nat (repair_budget cf contract) - length (or_repairs st) < n \<Longrightarrow>
   \<exists>x. verify_loop n co cf contract st = Some x"
proof (induction n arbitrary: st)
  case (Suc n)
  from loop_body_sound [OF Suc.prems(1), of co] have step: "loop_body co cf contract st = Inr (Inr st') \<Longrightarrow>
      at_gate cf contract st' \<and> nat (repair_budget cf contract) - length (or_repairs st') < n" for st'
    using Suc.prems(2) by (auto simp: at_gate_def)
  with Suc.IH show ?case by (auto split: sum.splits)
qed simp

lemma verify_loop_more_fuel:
  "verify_loop n co cf contract st = Some x \<Longrightarrow> n \<le> m \<Longrightarrow> verify_loop m co cf contract st = Some x"
proof (induction n arbitrary: st m)
  case (Suc n)
  from Suc.prems(2) obtain k where m: "m = Suc k" "n \<le> k" by (cases m) auto
  with Suc.prems(1) Suc.IH show ?case by (auto split: sum.splits)
qed simp

text \<open>C4. The loop of a task ends. Whatever the models, the verifier and the workspace answer, \<open>run\<close>
  executes the hard gate at most once more than the repair budget \<open>max(task.max_retries,
  minimum_repair_attempts)\<close>: that many iterations are enough for it to return or raise, and more make no
  difference.
\<close>

theorem orchestrator_terminates:
  assumes "nat (repair_budget cf contract) < n"
  shows "\<exists>x. run n co cf contract continuation resume_verification_first w = Some x \<and>
    run (Suc (nat (repair_budget cf contract))) co cf contract continuation resume_verification_first w = Some x"
proof (cases "begin_run co cf contract continuation resume_verification_first w")
  case (Inr out)
  show ?thesis
  proof (cases out)
    case (Inr st)
    have "at_gate cf contract st \<and> or_repairs st = []"
      using begin_run_sound [of co cf contract continuation resume_verification_first w]
        \<open>begin_run co cf contract continuation resume_verification_first w = Inr out\<close> Inr by (simp add: sound_start_def)
    then obtain x where x: "verify_loop (Suc (nat (repair_budget cf contract))) co cf contract st = Some x"
      using verify_loop_returns [of cf contract st "Suc (nat (repair_budget cf contract))" co] by auto
    with verify_loop_more_fuel [OF x, of n] assms Inr
      \<open>begin_run co cf contract continuation resume_verification_first w = Inr out\<close> show ?thesis
      by (simp add: run_def)
  qed (simp add: run_def Inr)
qed (simp add: run_def)

text \<open>C2. Success needs evidence. A run that returns SUCCEEDED has no failures, its last hard gate
  passed, the reviewer was asked about exactly that gate's result and answered PASS, nothing but the
  building of the reviewer's context ran in between, and the reported files are those of the reviewed
  workspace. Every other returned run is FAILED with at least one failure report. In both cases the
  repairs are within the budget, and there is at most one gate more than repairs and one review for a gate.
\<close>

theorem orchestrator_success_needs_evidence:
  assumes "run n co cf contract continuation resume_verification_first w = Some (Inr r)"
  shows "(sr_status r = T_SUCCEEDED \<and> sr_failures r = [] \<and> sr_verifications r \<noteq> [] \<and> sr_reviews r \<noteq> [] \<and>
      vr_passed (last (sr_verifications r)) \<and> rv_decision (last (sr_reviews r)) = PASS \<and>
      (\<exists>w0 w1 packet w2 w3. co_verify co contract w0 = (Inr (last (sr_verifications r)), w1) \<and>
         co_build co contract None w1 = (Inr packet, w2) \<and>
         co_review co contract (last (sr_verifications r)) packet w2 = (Inr (last (sr_reviews r)), w3) \<and>
         sr_changed_files r = co_changed_files co w3)
    \<or> sr_status r = T_FAILED \<and> sr_failures r \<noteq> []) \<and>
    int (length (sr_repairs r)) \<le> max 0 (repair_budget cf contract) \<and>
    length (sr_verifications r) \<le> length (sr_repairs r) + 1 \<and>
    length (sr_reviews r) \<le> length (sr_verifications r)"
proof -
  have "sound_end co cf contract r"
    using assms begin_run_sound [of co cf contract continuation resume_verification_first w]
    by (auto simp: run_def sound_start_def intro: verify_loop_sound split: sum.splits)
  then show ?thesis unfolding sound_end_def accepted_def within_budget_def by blast
qed

section \<open>Concrete runs\<close>

text \<open>A world that counts agent turns: the second turn, a repair, makes the lint check pass.\<close>

definition demo_digest :: "nat \<Rightarrow> string" where
  "demo_digest w = replicate 64 (if w = 0 then CHR ''0'' else if w = 1 then CHR ''1'' else CHR ''2'')"

definition demo_check :: "bool \<Rightarrow> check_result" where
  "demo_check ok = \<lparr>ck_type = CK_LINT, ck_name = ''ruff'', ck_command = Some ''ruff check'', ck_passed = ok,
     ck_exit_code = Some (if ok then 0 else 1), ck_stdout = [], ck_stderr = [], ck_duration_ms = 5,
     ck_failure_type = (if ok then None else Some LINT_FAILURE), ck_backend = None, ck_details = []\<rparr>"

definition demo_usage :: token_usage where
  "demo_usage = \<lparr>prompt_tokens = 1, completion_tokens = 1, total_tokens = 2\<rparr>"

definition demo_agents :: "nat collaborators" where
  "demo_agents = \<lparr>
     co_build = (\<lambda>_ _ w. (Inr \<lparr>cx_summary_version = ''1'', cx_repository_head = replicate 40 (CHR ''a''),
       cx_selected_files = []\<rparr>, w)),
     co_developer = (\<lambda>_ _ w. (Inr \<lparr>dr_stop_reason = D_MODEL_STOP, dr_iterations = 1, dr_tool_calls = 1,
       dr_final_message = ''ok'', dr_changed_files = [''src/x''], dr_usage = demo_usage, dr_latency_ms = 1,
       dr_execution_budget = None, dr_tool_failure_evidence = []\<rparr>, w + 1)),
     co_verify = (\<lambda>_ w. (Inr \<lparr>vr_passed = (2 \<le> w), vr_checks = [demo_check (2 \<le> w)]\<rparr>, w)),
     co_review = (\<lambda>_ _ _ w. (Inr \<lparr>rv_decision = PASS, rv_summary = ''good'', rv_issues = []\<rparr>, w)),
     co_repair = (\<lambda>_ _ n _ w. (Inr \<lparr>rp_attempt = n, rp_failure_types = [LINT_FAILURE], rp_stop_reason = R_MODEL_STOP,
       rp_iterations = 1, rp_tool_calls = 1, rp_final_message = ''ok'', rp_changed_files = [], rp_progress = None,
       rp_usage = demo_usage, rp_latency_ms = 1\<rparr>, w + 1)),
     co_changed_files = (\<lambda>w. if w = 0 then [] else [''src/x'']),
     co_snapshot = (\<lambda>w. \<lparr>cs_changed_files = (if w = 0 then [] else [''src/x'']), cs_patch_hash = demo_digest w,
       cs_file_hashes = (if w = 0 then [] else [(''src/x'', demo_digest w)])\<rparr>),
     co_head = (\<lambda>w. replicate 40 (CHR ''a''))\<rparr>"

definition demo_config :: orchestrator_config where
  "demo_config = \<lparr>cf_developer_model = ''m'', cf_reviewer_model = ''m'', cf_repair_model = ''m'',
     cf_minimum_repair_attempts = 0, cf_hash = (\<lambda>_. replicate 64 (CHR ''0''))\<rparr>"

lemma demo_run_succeeds:
  "map_option (map_sum id (\<lambda>r. (sr_status r, length (sr_repairs r), length (sr_verifications r))))
     (run 3 demo_agents demo_config demo_contract None False 0) =
   Some (Inr (T_SUCCEEDED, 1, 2))"
  by code_simp

lemma demo_budget [simp]: "repair_budget demo_config demo_contract = 2"
  by (simp add: repair_budget_def demo_config_def demo_contract_def)

theorem orchestrator_terminates_witness:
  "\<exists>x. run 7 demo_agents demo_config demo_contract None False 0 = Some x \<and>
     run 3 demo_agents demo_config demo_contract None False 0 = Some x"
  using orchestrator_terminates [of demo_config demo_contract 7 demo_agents None False 0]
  by (simp add: numeral_3_eq_3 numeral_2_eq_2)

theorem orchestrator_success_witness:
  "\<exists>r. run 3 demo_agents demo_config demo_contract None False 0 = Some (Inr r) \<and> sr_status r = T_SUCCEEDED \<and>
     vr_passed (last (sr_verifications r)) \<and> rv_decision (last (sr_reviews r)) = PASS \<and>
     length (sr_verifications r) \<le> length (sr_repairs r) + 1"
proof -
  from demo_run_succeeds obtain x where x: "run 3 demo_agents demo_config demo_contract None False 0 = Some x"
    and "map_sum id (\<lambda>r. (sr_status r, length (sr_repairs r), length (sr_verifications r))) x = Inr (T_SUCCEEDED, 1, 2)"
    by auto
  then obtain r where r: "run 3 demo_agents demo_config demo_contract None False 0 = Some (Inr r)"
    and s: "sr_status r = T_SUCCEEDED"
    by (cases x) auto
  from orchestrator_success_needs_evidence [OF r] r s show ?thesis by auto
qed

section \<open>Limits of the repair handoff\<close>

lemma from_verification_messages:
  assumes "from_verification v = Inr failures" and "f \<in> set failures"
  shows "fr_message f \<noteq> []"
proof -
  from assms obtain f0 where "FailureReport f0 = Inr f"
    unfolding from_verification_def failure_reports_def map_res_Inr_iff by (blast dest: list_all2_source)
  then show ?thesis by (auto simp: FailureReport_def Let_def split: if_splits)
qed

lemma digests_total:
  assumes "\<And>f. f \<in> set failures \<Longrightarrow> fr_message f \<noteq> []"
  shows "\<exists>ds. map_res (\<lambda>f. RepairFailureDigest \<lparr>rg_type = fr_type f, rg_source = fr_source f,
            rg_message = take 2000 (fr_message f), rg_evidence = map (take 1200) (take 8 (fr_evidence f))\<rparr>)
          (take 8 failures) = Inr ds"
proof (rule map_res_ok)
  fix f assume "f \<in> set (take 8 failures)"
  then have "fr_message f \<noteq> []" using assms by (meson in_set_takeD)
  then show "\<exists>y. RepairFailureDigest \<lparr>rg_type = fr_type f, rg_source = fr_source f,
            rg_message = take 2000 (fr_message f), rg_evidence = map (take 1200) (take 8 (fr_evidence f))\<rparr> = Inr y"
    by (cases "fr_message f") (auto simp: RepairFailureDigest_def text_between_def)
qed

lemma validated_texts:
  assumes "TaskContract contract = Inr contract"
  shows "text_between 128 (tc_task_id contract)" and "text_between 4000 (objective contract)"
  using assms by (auto simp: TaskContract_def text_between_def Let_def split: if_splits)

lemma make_handoff_limit:
  assumes "TaskContract contract = Inr contract" and "32 < length (acceptance_criteria contract)"
    and "oid_pattern (co_head co w)" and "\<And>f. f \<in> set failures \<Longrightarrow> fr_message f \<noteq> []"
  shows "make_handoff co (contract\<lparr>max_retries := n\<rparr>) failures w = Inl (ValueError ''acceptance_criteria'')"
proof -
  obtain kind path symbol where hint: "repair_failure_hint failures = (kind, path, symbol)" by (metis prod_cases3)
  from digests_total [of failures] assms(4) obtain ds where ds: "map_res (\<lambda>f. RepairFailureDigest \<lparr>rg_type = fr_type f, rg_source = fr_source f,
            rg_message = take 2000 (fr_message f), rg_evidence = map (take 1200) (take 8 (fr_evidence f))\<rparr>)
          (take 8 failures) = Inr ds" by blast
  with hint validated_texts [OF assms(1)] assms(2,3) show ?thesis
    by (simp add: make_handoff_def RepairHandoff_def)
qed


definition demo_large_contract :: task_contract where
  "demo_large_contract = demo_contract\<lparr>acceptance_criteria := map (\<lambda>n. CHR ''c'' # dec n) [0..<33]\<rparr>"


end
