(* ===== verification/Git_Workspace.thy ===== *)
theory Git_Workspace
  imports Task_Contract
begin

text \<open>
  The managed Git repository and the task worktrees (\<open>workspace/git.py\<close>, \<open>workspace/worktree.py\<close>).

  The program \<open>git\<close> and the file system are not part of the repository: they are the argument \<open>h\<close>, a record of
  functions on a state \<open>'g\<close> of the machine. \<open>run_git h root arguments\<close> is the command
  \<open>git -C root arguments\<close> and may do anything to that state. SHA-256 in hexadecimal is the argument \<open>sha\<close>.

  The operations read and change that state and may raise, so they are functions from the state to a result
  and the state at the end, also when they raise.
\<close>

section \<open>Effects\<close>

type_synonym ('s, 'a) effect = "'s \<Rightarrow> 'a res \<times> 's"

definition ret :: "'a \<Rightarrow> ('s, 'a) effect" where
  "ret x s = (Inr x, s)"

definition raise :: "exn \<Rightarrow> ('s, 'a) effect" where
  "raise e s = (Inl e, s)"

definition bind_eff :: "('s, 'a) effect \<Rightarrow> ('a \<Rightarrow> ('s, 'b) effect) \<Rightarrow> ('s, 'b) effect" where
  "bind_eff m f s = (case m s of (Inl e, s') \<Rightarrow> (Inl e, s') | (Inr x, s') \<Rightarrow> f x s')"

definition handle :: "('s, 'a) effect \<Rightarrow> (exn \<Rightarrow> ('s, 'a) effect) \<Rightarrow> ('s, 'a) effect" where
  "handle m f s = (case m s of (Inl e, s') \<Rightarrow> f e s' | (Inr x, s') \<Rightarrow> (Inr x, s'))"

text \<open>\<open>if not c: raise e\<close>, a value that depends on the state, and a pure computation that may raise.\<close>

definition check :: "bool \<Rightarrow> exn \<Rightarrow> ('s, unit) effect" where
  "check c e = (if c then ret () else raise e)"

definition look :: "('s \<Rightarrow> 'a) \<Rightarrow> ('s, 'a) effect" where
  "look f s = (Inr (f s), s)"

definition pure :: "'a res \<Rightarrow> ('s, 'a) effect" where
  "pure m s = (m, s)"

fun each :: "('a \<Rightarrow> ('s, unit) effect) \<Rightarrow> 'a list \<Rightarrow> ('s, unit) effect" where
  "each f [] = ret ()"
| "each f (x # xs) = bind_eff (f x) (\<lambda>_. each f xs)"

lemma bind_eff_Inr:
  "bind_eff m f s = (Inr y, s'') \<longleftrightarrow> (\<exists>x s'. m s = (Inr x, s') \<and> f x s' = (Inr y, s''))"
  by (auto simp: bind_eff_def split: prod.splits sum.splits)

lemma check_Inr [simp]: "check c e s = (Inr u, s') \<longleftrightarrow> c \<and> s' = s"
  by (auto simp: check_def ret_def raise_def)

lemma ret_Inr [simp]: "ret x s = (Inr y, s') \<longleftrightarrow> y = x \<and> s' = s"
  by (auto simp: ret_def)

lemma look_Inr [simp]: "look f s = (Inr y, s') \<longleftrightarrow> y = f s \<and> s' = s"
  by (auto simp: look_def)

lemma pure_Inr [simp]: "pure m s = (Inr y, s') \<longleftrightarrow> m = Inr y \<and> s' = s"
  by (auto simp: pure_def)

lemma raise_Inr [simp]: "raise e s \<noteq> (Inr y, s')"
  by (simp add: raise_def)

text \<open>
  A relation between the states before and after that every part of an operation keeps is kept by
  the whole, whether it returns or raises.
\<close>

definition keeps :: "('s \<Rightarrow> 's \<Rightarrow> bool) \<Rightarrow> ('s, 'a) effect \<Rightarrow> bool" where
  "keeps R m = (\<forall>s. R s (snd (m s)))"

named_theorems keep_rules

lemma keeps_bind [keep_rules]:
  assumes "transp R" "keeps R m" "\<And>x. keeps R (f x)"
  shows "keeps R (bind_eff m f)"
  unfolding keeps_def
proof
  fix s
  obtain r s' where m: "m s = (r, s')" by fastforce
  then have "R s s'" using assms(2) unfolding keeps_def by (metis snd_conv)
  with m assms(1,3) show "R s (snd (bind_eff m f s))"
    by (cases r) (auto simp: bind_eff_def keeps_def dest: transpD)
qed

lemma keeps_still [keep_rules]:
  assumes "reflp R"
  shows "keeps R (ret x)" "keeps R (raise e)" "keeps R (check c e)" "keeps R (look f)" "keeps R (pure m)"
  using assms by (auto simp: keeps_def ret_def raise_def check_def look_def pure_def dest: reflpD)

lemma keeps_each [keep_rules]:
  assumes "reflp R" "transp R" "\<And>x. keeps R (f x)"
  shows "keeps R (each f xs)"
  by (induction xs) (auto intro!: keeps_bind keeps_still assms)

lemma keeps_handle [keep_rules]:
  assumes "transp R" "keeps R m" "\<And>e. keeps R (f e)"
  shows "keeps R (handle m f)"
  unfolding keeps_def
proof
  fix s
  obtain r s' where m: "m s = (r, s')" by fastforce
  then have "R s s'" using assms(2) unfolding keeps_def by (metis snd_conv)
  with m assms(1,3) show "R s (snd (handle m f s))"
    by (cases r) (auto simp: handle_def keeps_def dest: transpD)
qed

lemma keeps_if [keep_rules]: "keeps R m \<Longrightarrow> keeps R n \<Longrightarrow> keeps R (if c then m else n)"
  by simp

section \<open>The machine\<close>

datatype process = Completed int string string | Not_Found | Timed_Out

record completed_process =
  cp_returncode :: int
  cp_stdout :: string
  cp_stderr :: string

record 'g host =
  run_git :: "string \<Rightarrow> string list \<Rightarrow> 'g \<Rightarrow> process \<times> 'g"
  h_resolve :: "string \<Rightarrow> 'g \<Rightarrow> string"
  h_exists :: "string \<Rightarrow> 'g \<Rightarrow> bool"
  h_is_dir :: "string \<Rightarrow> 'g \<Rightarrow> bool"
  h_is_symlink :: "string \<Rightarrow> 'g \<Rightarrow> bool"
  h_mkdir :: "string \<Rightarrow> 'g \<Rightarrow> unit res \<times> 'g"

text \<open>\<open>subprocess.run(["git", "-C", root, *arguments])\<close>, with the two ways it can fail to run.\<close>

definition git_process :: "'g host \<Rightarrow> exn \<Rightarrow> exn \<Rightarrow> string \<Rightarrow> string list \<Rightarrow> ('g, completed_process) effect" where
  "git_process h missing late root arguments w = (case run_git h root arguments w of
     (Completed n out err, w') \<Rightarrow> (Inr \<lparr>cp_returncode = n, cp_stdout = out, cp_stderr = err\<rparr>, w')
   | (Not_Found, w') \<Rightarrow> (Inl missing, w') | (Timed_Out, w') \<Rightarrow> (Inl late, w'))"

text \<open>\<open>[0-9a-fA-F]{40,64}\<close>.\<close>

definition full_oid :: "string \<Rightarrow> bool" where
  "full_oid s = (40 \<le> length s \<and> length s \<le> 64 \<and> set s \<subseteq> set ''0123456789abcdefABCDEF'')"

section \<open>The local workspace\<close>

definition split_nul :: "string \<Rightarrow> string list" where
  "split_nul val = filter (\<lambda>item. item \<noteq> []) (split_on (CHR 0x00) val)"

definition workspace_git_completed :: "'g host \<Rightarrow> string \<Rightarrow> string list \<Rightarrow> ('g, completed_process) effect" where
  "workspace_git_completed h = git_process h (WorkspaceGitError ''git executable is not available'')
     (WorkspaceGitError ''git command exceeded the workspace timeout'')"

definition workspace_git :: "'g host \<Rightarrow> bool \<Rightarrow> string \<Rightarrow> string list \<Rightarrow> ('g, string) effect" where
  "workspace_git h checked root arguments =
     bind_eff (workspace_git_completed h root arguments) (\<lambda>p.
     bind_eff (check (\<not> (checked \<and> cp_returncode p \<noteq> 0)) (WorkspaceGitError ''git command failed'')) (\<lambda>_.
     ret (cp_stdout p)))"

definition head_commit :: "'g host \<Rightarrow> string \<Rightarrow> ('g, string) effect" where
  "head_commit h root =
     bind_eff (workspace_git h True root [''rev-parse'', ''--verify'', ''HEAD'']) (\<lambda>out.
     bind_eff (check (strip out \<noteq> []) (WorkspaceGitError ''no resolvable HEAD commit'')) (\<lambda>_. ret (strip out)))"

definition lower :: "string \<Rightarrow> string" where
  "lower s = map (\<lambda>c. let n = (of_char c :: nat) in if 65 \<le> n \<and> n \<le> 90 then char_of (n + 32) else c) s"

definition has_commit :: "'g host \<Rightarrow> string \<Rightarrow> string \<Rightarrow> ('g, bool) effect" where
  "has_commit h root commit =
     (let normalized = lower (strip commit) in
      if \<not> (40 \<le> length normalized \<and> length normalized \<le> 64 \<and> set normalized \<subseteq> set ''0123456789abcdef'') then ret False
      else bind_eff (workspace_git_completed h root [''cat-file'', ''-e'', normalized @ ''^{commit}'']) (\<lambda>p.
        ret (cp_returncode p = 0)))"

definition tracked_files :: "'g host \<Rightarrow> string \<Rightarrow> ('g, string list) effect" where
  "tracked_files h root =
     bind_eff (workspace_git h True root [''ls-files'', ''-z'', ''--cached'', ''--'']) (\<lambda>out.
     ret (sorted_list_of_set (set (split_nul out))))"

definition untracked :: "string list" where
  "untracked = [''ls-files'', ''--others'', ''--exclude-standard'', ''-z'', ''--'']"

definition repository_files :: "'g host \<Rightarrow> string \<Rightarrow> ('g, string list) effect" where
  "repository_files h root =
     bind_eff (tracked_files h root) (\<lambda>tracked.
     bind_eff (workspace_git h True root untracked) (\<lambda>out.
     ret (sorted_list_of_set (set tracked \<union> set (split_nul out)))))"

definition changed_files :: "'g host \<Rightarrow> string \<Rightarrow> ('g, string list) effect" where
  "changed_files h root =
     bind_eff (workspace_git h True root [''diff'', ''--no-renames'', ''--name-only'', ''-z'', ''HEAD'', ''--'']) (\<lambda>tracked.
     bind_eff (workspace_git h True root untracked) (\<lambda>out.
     ret (sorted_list_of_set (set (split_nul tracked) \<union> set (split_nul out)))))"

text \<open>The constructor of \<open>LocalGitWorkspace\<close>: the resolved root, which must be the top level of a repository.\<close>

definition LocalGitWorkspace :: "'g host \<Rightarrow> string \<Rightarrow> ('g, string) effect" where
  "LocalGitWorkspace h root =
     bind_eff (look (h_resolve h root)) (\<lambda>resolved.
     bind_eff (look (h_is_dir h resolved)) (\<lambda>dir.
     bind_eff (check dir (ValueError ''workspace root must be an existing directory'')) (\<lambda>_.
     bind_eff (workspace_git h False resolved [''rev-parse'', ''--is-inside-work-tree'']) (\<lambda>inside.
     bind_eff (check (strip inside = ''true'') (WorkspaceGitError ''workspace root is not inside a Git working tree'')) (\<lambda>_.
     bind_eff (workspace_git h False resolved [''rev-parse'', ''--show-toplevel'']) (\<lambda>top_level.
     bind_eff (look (h_resolve h (strip top_level))) (\<lambda>top.
     bind_eff (check (strip top_level \<noteq> [] \<and> top = resolved)
       (WorkspaceGitError ''workspace root must be the Git repository top level'')) (\<lambda>_.
     bind_eff (workspace_git h False resolved [''rev-parse'', ''--verify'', ''HEAD'']) (\<lambda>head.
     bind_eff (check (strip head \<noteq> []) (WorkspaceGitError ''workspace repository must have a valid HEAD commit'')) (\<lambda>_.
     ret resolved))))))))))"

section \<open>Task worktrees\<close>

record task_worktree_record =
  tw_task_id :: task_id
  tw_base_commit :: string
  tw_branch_name :: string
  tw_path :: string

record registered_worktree =
  rw_path :: string
  rw_head :: "string option"
  rw_branch_ref :: "string option"
  rw_locked_reason :: "string option"
  rw_prunable_reason :: "string option"

text \<open>A manager: the root of the base workspace, its own root and the frozen base commit.\<close>

record worktree_manager =
  wm_base_root :: string
  wm_root :: string
  wm_base_commit :: string

definition worktree_git_at :: "'g host \<Rightarrow> bool \<Rightarrow> string \<Rightarrow> string list \<Rightarrow> ('g, completed_process) effect" where
  "worktree_git_at h checked root arguments =
     bind_eff (git_process h (TaskWorktreeError ''git executable is not available'')
         (TaskWorktreeError ''git worktree command exceeded the configured timeout'') root arguments) (\<lambda>p.
     bind_eff (check (\<not> (checked \<and> cp_returncode p \<noteq> 0)) (TaskWorktreeError ''git worktree command failed'')) (\<lambda>_.
     ret p))"

definition rev_parse_commit :: "string \<Rightarrow> string list" where
  "rev_parse_commit ref = [''rev-parse'', ''--verify'', ref @ ''^{commit}'']"

definition is_ancestor :: "string \<Rightarrow> string \<Rightarrow> string list" where
  "is_ancestor a b = [''merge-base'', ''--is-ancestor'', a, b]"

definition freeze_base_commit :: "'g host \<Rightarrow> string \<Rightarrow> string \<Rightarrow> string option \<Rightarrow> ('g, string) effect" where
  "freeze_base_commit h root current_head requested = (case requested of
     None \<Rightarrow> ret current_head
   | Some commit \<Rightarrow>
       bind_eff (check (full_oid commit) (ValueError ''frozen base commit must be a full 40-64 character hexadecimal id'')) (\<lambda>_.
       bind_eff (worktree_git_at h False root (rev_parse_commit commit)) (\<lambda>resolved.
       let canonical = strip (cp_stdout resolved) in
       bind_eff (check (cp_returncode resolved = 0 \<and> full_oid canonical)
         (TaskWorktreeError ''frozen base commit does not exist in the repository'')) (\<lambda>_.
       bind_eff (worktree_git_at h False root (is_ancestor canonical current_head)) (\<lambda>ancestor.
       if cp_returncode ancestor = 0 then ret canonical
       else bind_eff (check (cp_returncode ancestor = 1)
         (TaskWorktreeError ''Git could not validate frozen base ancestry'')) (\<lambda>_.
       bind_eff (worktree_git_at h False root (is_ancestor current_head canonical)) (\<lambda>descendant.
       if cp_returncode descendant = 0 then ret canonical
       else bind_eff (check (cp_returncode descendant = 1)
         (TaskWorktreeError ''Git could not validate frozen base ancestry'')) (\<lambda>_.
       raise (TaskWorktreeError ''frozen base commit must remain on the managed repository HEAD ancestry'')))))))))"

text \<open>\<open>Path.relative_to\<close> between resolved paths.\<close>

definition path_within :: "string \<Rightarrow> string \<Rightarrow> bool" where
  "path_within p base = (p = base \<or> prefix (if base = ''/'' then base else base @ ''/'') p)"

definition TaskWorktreeManager ::
    "'g host \<Rightarrow> string \<Rightarrow> string \<Rightarrow> string option \<Rightarrow> ('g, worktree_manager) effect" where
  "TaskWorktreeManager h base_root worktree_root frozen_base_commit =
     bind_eff (changed_files h base_root) (\<lambda>changed.
     bind_eff (check (changed = []) (TaskWorktreeError ''base workspace must be clean before freezing a worktree base'')) (\<lambda>_.
     bind_eff (look (\<lambda>w. h_exists h worktree_root w \<and> h_is_symlink h worktree_root w)) (\<lambda>link.
     bind_eff (check (\<not> link) (ValueError ''worktree root must not be a symbolic link'')) (\<lambda>_.
     bind_eff (look (h_resolve h worktree_root)) (\<lambda>planned.
     bind_eff (check (\<not> path_within planned base_root) (ValueError ''worktree root must be outside the base repository'')) (\<lambda>_.
     bind_eff (h_mkdir h worktree_root) (\<lambda>_.
     bind_eff (look (h_resolve h worktree_root)) (\<lambda>root.
     bind_eff (worktree_git_at h True base_root (rev_parse_commit ''HEAD'')) (\<lambda>head.
     let current_head = strip (cp_stdout head) in
     bind_eff (check (full_oid current_head) (TaskWorktreeError ''Git did not return a full immutable base commit id'')) (\<lambda>_.
     bind_eff (freeze_base_commit h base_root current_head frozen_base_commit) (\<lambda>base.
     ret \<lparr>wm_base_root = base_root, wm_root = root, wm_base_commit = base\<rparr>)))))))))))"

definition resolve_task_base :: "'g host \<Rightarrow> worktree_manager \<Rightarrow> string option \<Rightarrow> ('g, string) effect" where
  "resolve_task_base h wm requested = (case requested of
     None \<Rightarrow> ret (wm_base_commit wm)
   | Some commit \<Rightarrow>
       bind_eff (check (full_oid commit) (ValueError ''task base commit must be a full 40-64 character hexadecimal id'')) (\<lambda>_.
       bind_eff (worktree_git_at h False (wm_base_root wm) (rev_parse_commit commit)) (\<lambda>resolved.
       let canonical = strip (cp_stdout resolved) in
       bind_eff (check (cp_returncode resolved = 0 \<and> full_oid canonical)
         (TaskWorktreeError ''requested task base commit does not exist in the repository'')) (\<lambda>_.
       bind_eff (worktree_git_at h False (wm_base_root wm) (is_ancestor (wm_base_commit wm) canonical)) (\<lambda>ancestry.
       bind_eff (check (cp_returncode ancestry \<noteq> 1)
         (TaskWorktreeError ''requested task base commit must descend from the frozen run base'')) (\<lambda>_.
       bind_eff (check (cp_returncode ancestry = 0)
         (TaskWorktreeError ''Git could not validate the requested task base ancestry'')) (\<lambda>_.
       ret canonical)))))))"

definition validate_task_id :: "task_id \<Rightarrow> task_id res" where
  "validate_task_id t =
     (if t = [] \<or> t \<noteq> strip t \<or> 128 < length t \<or> \<not> task_id_pattern t
      then Inl (ValueError ''task_id must use the TaskContract task_id format'') else Inr t)"

text \<open>\<open>re.sub(r"[^A-Za-z0-9_-]+", "-", task_id).strip("-_").lower()\<close>, cut to 48 characters.\<close>

definition slug_char :: "char \<Rightarrow> bool" where
  "slug_char c = (ascii_alnum c \<or> c = CHR ''_'' \<or> c = CHR ''-'')"

fun dash_runs :: "bool \<Rightarrow> string \<Rightarrow> string" where
  "dash_runs inside [] = []"
| "dash_runs inside (c # s) =
     (if slug_char c then c # dash_runs False s
      else if inside then dash_runs True s else CHR ''-'' # dash_runs True s)"

definition strip_dashes :: "string \<Rightarrow> string" where
  "strip_dashes s = (let P = (\<lambda>c. c = CHR ''-'' \<or> c = CHR ''_'') in rev (dropWhile P (rev (dropWhile P s))))"

definition slug :: "task_id \<Rightarrow> string" where
  "slug t = (let s = lower (strip_dashes (dash_runs False t)) in take 48 (if s = [] then ''task'' else s))"

definition branch_name_for :: "(string \<Rightarrow> string) \<Rightarrow> task_id \<Rightarrow> string" where
  "branch_name_for sha t = ''devflow/task/'' @ slug t @ ''-'' @ take 12 (sha t)"

definition record_for ::
    "'g host \<Rightarrow> (string \<Rightarrow> string) \<Rightarrow> worktree_manager \<Rightarrow> task_id \<Rightarrow> string option \<Rightarrow> ('g, task_worktree_record) effect" where
  "record_for h sha wm t base_commit =
     bind_eff (pure (validate_task_id t)) (\<lambda>normalized.
     bind_eff (resolve_task_base h wm base_commit) (\<lambda>task_base.
     bind_eff (worktree_git_at h False (wm_base_root wm)
         [''check-ref-format'', ''--branch'', branch_name_for sha normalized]) (\<lambda>p.
     bind_eff (check (cp_returncode p = 0) (TaskWorktreeError ''generated invalid Git task branch name'')) (\<lambda>_.
     ret \<lparr>tw_task_id = normalized, tw_base_commit = task_base, tw_branch_name = branch_name_for sha normalized,
       tw_path = wm_root wm @ ''/'' @ slug normalized @ ''-'' @ take 12 (sha normalized)\<rparr>))))"

text \<open>\<open>_registered_worktrees\<close>: the NUL-separated porcelain list, a \<open>worktree\<close> field begins a new entry.\<close>

definition partition_field :: "string \<Rightarrow> string \<times> string" where
  "partition_field f = (takeWhile (\<lambda>c. c \<noteq> CHR '' '') f, drop 1 (dropWhile (\<lambda>c. c \<noteq> CHR '' '') f))"

definition flush_entry ::
    "(string \<Rightarrow> string) \<Rightarrow> (string \<rightharpoonup> string) \<Rightarrow> registered_worktree list \<Rightarrow> registered_worktree list" where
  "flush_entry resolve current records = (case current ''worktree'' of None \<Rightarrow> records
     | Some p \<Rightarrow> records @ [\<lparr>rw_path = resolve p, rw_head = current ''HEAD'', rw_branch_ref = current ''branch'',
         rw_locked_reason = current ''locked'', rw_prunable_reason = current ''prunable''\<rparr>])"

fun parse_worktrees ::
    "(string \<Rightarrow> string) \<Rightarrow> string list \<Rightarrow> (string \<rightharpoonup> string) \<Rightarrow> registered_worktree list \<Rightarrow> registered_worktree list" where
  "parse_worktrees resolve [] current records = flush_entry resolve current records"
| "parse_worktrees resolve (field # rest) current records =
     (if field = [] then parse_worktrees resolve rest current records
      else case partition_field field of (key, val) \<Rightarrow>
        if key = ''worktree'' \<and> current ''worktree'' \<noteq> None
        then parse_worktrees resolve rest (Map.empty(key \<mapsto> val)) (flush_entry resolve current records)
        else parse_worktrees resolve rest (current(key \<mapsto> val)) records)"

definition registered_worktrees :: "'g host \<Rightarrow> worktree_manager \<Rightarrow> ('g, registered_worktree list) effect" where
  "registered_worktrees h wm =
     bind_eff (worktree_git_at h True (wm_base_root wm) [''worktree'', ''list'', ''--porcelain'', ''-z'']) (\<lambda>p.
     look (\<lambda>w. parse_worktrees (\<lambda>path. h_resolve h path w) (split_on (CHR 0x00) (cp_stdout p)) Map.empty []))"

definition find_registered_path ::
    "'g host \<Rightarrow> string \<Rightarrow> registered_worktree list \<Rightarrow> ('g, registered_worktree option) effect" where
  "find_registered_path h path entries = look (\<lambda>w. find (\<lambda>entry. rw_path entry = h_resolve h path w) entries)"

definition assert_owned_registration :: "task_worktree_record \<Rightarrow> registered_worktree \<Rightarrow> ('g, unit) effect" where
  "assert_owned_registration r entry =
     check (rw_branch_ref entry = Some (''refs/heads/'' @ tw_branch_name r))
       (TaskWorktreeCollisionError ''worktree path is registered to an unexpected branch'')"

definition branch_exists :: "'g host \<Rightarrow> worktree_manager \<Rightarrow> string \<Rightarrow> ('g, bool) effect" where
  "branch_exists h wm branch =
     bind_eff (worktree_git_at h False (wm_base_root wm) [''show-ref'', ''--verify'', ''--quiet'', ''refs/heads/'' @ branch]) (\<lambda>p.
     ret (cp_returncode p = 0))"

definition current_branch :: "string list" where
  "current_branch = [''symbolic-ref'', ''--quiet'', ''--short'', ''HEAD'']"

text \<open>\<open>_verify_created\<close> and \<open>create\<close>.\<close>

definition verify_created :: "'g host \<Rightarrow> worktree_manager \<Rightarrow> task_worktree_record \<Rightarrow> ('g, unit) effect" where
  "verify_created h wm r =
     bind_eff (registered_worktrees h wm) (\<lambda>entries.
     bind_eff (find_registered_path h (tw_path r) entries) (\<lambda>found. case found of
       None \<Rightarrow> raise (TaskWorktreeError ''created worktree is missing from Git worktree metadata'')
     | Some entry \<Rightarrow>
       bind_eff (assert_owned_registration r entry) (\<lambda>_.
       bind_eff (check (rw_locked_reason entry \<noteq> None) (TaskWorktreeError ''created task worktree must remain locked'')) (\<lambda>_.
       bind_eff (LocalGitWorkspace h (tw_path r)) (\<lambda>workspace.
       bind_eff (changed_files h workspace) (\<lambda>changed.
       bind_eff (check (changed = []) (TaskWorktreeError ''new task worktree must start clean'')) (\<lambda>_.
       bind_eff (worktree_git_at h True (tw_path r) (rev_parse_commit ''HEAD'')) (\<lambda>head.
       bind_eff (check (strip (cp_stdout head) = tw_base_commit r)
         (TaskWorktreeError ''new task worktree does not point at its requested base commit'')) (\<lambda>_.
       bind_eff (worktree_git_at h True (tw_path r) current_branch) (\<lambda>branch.
       check (strip (cp_stdout branch) = tw_branch_name r)
         (TaskWorktreeError ''new task worktree is not checked out on its reserved task branch'')))))))))))"

definition create_worktree ::
    "'g host \<Rightarrow> (string \<Rightarrow> string) \<Rightarrow> worktree_manager \<Rightarrow> task_id \<Rightarrow> string option \<Rightarrow> ('g, task_worktree_record) effect" where
  "create_worktree h sha wm t base_commit =
     bind_eff (changed_files h (wm_base_root wm)) (\<lambda>changed.
     bind_eff (check (changed = []) (TaskWorktreeError ''base workspace became dirty after the worktree base was frozen'')) (\<lambda>_.
     bind_eff (record_for h sha wm t base_commit) (\<lambda>r.
     bind_eff (registered_worktrees h wm) (\<lambda>registered.
     bind_eff (find_registered_path h (tw_path r) registered) (\<lambda>existing.
     bind_eff (look (h_exists h (tw_path r))) (\<lambda>there.
     bind_eff (case existing of None \<Rightarrow> ret ()
       | Some entry \<Rightarrow> raise (if \<not> there \<or> rw_prunable_reason entry \<noteq> None
           then StaleTaskWorktreeError ''stale Git worktree registration exists for task''
           else TaskWorktreeCollisionError ''task worktree is already registered'')) (\<lambda>_.
     bind_eff (check (\<not> there) (TaskWorktreeCollisionError ''task worktree path already exists but is not registered'')) (\<lambda>_.
     bind_eff (branch_exists h wm (tw_branch_name r)) (\<lambda>branch.
     bind_eff (check (\<not> branch) (TaskWorktreeCollisionError ''task branch already exists'')) (\<lambda>_.
     bind_eff (worktree_git_at h True (wm_base_root wm)
         [''worktree'', ''add'', ''--lock'', ''--reason'', ''DevFlow task '' @ tw_task_id r, ''-b'', tw_branch_name r,
          tw_path r, tw_base_commit r]) (\<lambda>_.
     bind_eff (verify_created h wm r) (\<lambda>_. ret r))))))))))))"

text \<open>The entry of a task whose worktree must be registered, as three operations begin.\<close>

definition owned_entry ::
    "'g host \<Rightarrow> worktree_manager \<Rightarrow> task_worktree_record \<Rightarrow> ('g, registered_worktree) effect" where
  "owned_entry h wm r =
     bind_eff (registered_worktrees h wm) (\<lambda>registered.
     bind_eff (find_registered_path h (tw_path r) registered) (\<lambda>found. case found of
       None \<Rightarrow> raise (TaskWorktreeError ''task worktree is not registered'')
     | Some entry \<Rightarrow> bind_eff (assert_owned_registration r entry) (\<lambda>_. ret entry)))"

definition open_workspace ::
    "'g host \<Rightarrow> (string \<Rightarrow> string) \<Rightarrow> worktree_manager \<Rightarrow> task_id \<Rightarrow> ('g, string) effect" where
  "open_workspace h sha wm t =
     bind_eff (record_for h sha wm t None) (\<lambda>r.
     bind_eff (owned_entry h wm r) (\<lambda>_.
     bind_eff (look (h_exists h (tw_path r))) (\<lambda>there.
     bind_eff (check there (StaleTaskWorktreeError ''registered task worktree directory is missing'')) (\<lambda>_.
     LocalGitWorkspace h (tw_path r)))))"

definition commit_task_changes ::
    "'g host \<Rightarrow> (string \<Rightarrow> string) \<Rightarrow> worktree_manager \<Rightarrow> task_id \<Rightarrow> ('g, string) effect" where
  "commit_task_changes h sha wm t =
     bind_eff (record_for h sha wm t None) (\<lambda>r.
     bind_eff (owned_entry h wm r) (\<lambda>entry.
     bind_eff (look (h_exists h (tw_path r))) (\<lambda>there.
     bind_eff (check (there \<and> rw_prunable_reason entry = None)
       (StaleTaskWorktreeError ''cannot finalize stale task worktree registration'')) (\<lambda>_.
     bind_eff (LocalGitWorkspace h (tw_path r)) (\<lambda>workspace.
     bind_eff (changed_files h workspace) (\<lambda>changed.
     bind_eff (check (changed \<noteq> []) (TaskWorktreeError ''successful task worktree has no changes to commit'')) (\<lambda>_.
     bind_eff (worktree_git_at h True (tw_path r) current_branch) (\<lambda>branch.
     bind_eff (check (strip (cp_stdout branch) = tw_branch_name r)
       (TaskWorktreeCollisionError ''task worktree changed branches before successful finalization'')) (\<lambda>_.
     bind_eff (worktree_git_at h True (tw_path r) (rev_parse_commit ''HEAD'')) (\<lambda>head.
     let parent = strip (cp_stdout head) in
     bind_eff (worktree_git_at h True (tw_path r) [''add'', ''--all'']) (\<lambda>_.
     bind_eff (worktree_git_at h True (tw_path r) [''write-tree'']) (\<lambda>tree.
     bind_eff (worktree_git_at h True (tw_path r)
         [''commit-tree'', strip (cp_stdout tree), ''-p'', parent, ''-m'', ''DevFlow task '' @ tw_task_id r]) (\<lambda>out.
     let commit = strip (cp_stdout out) in
     bind_eff (check (full_oid commit) (TaskWorktreeError ''Git did not return a full task commit id'')) (\<lambda>_.
     bind_eff (worktree_git_at h True (tw_path r)
         [''update-ref'', ''refs/heads/'' @ tw_branch_name r, commit, parent]) (\<lambda>_.
     bind_eff (changed_files h workspace) (\<lambda>left.
     bind_eff (check (left = []) (TaskWorktreeError ''task worktree must be clean after successful finalization'')) (\<lambda>_.
     bind_eff (worktree_git_at h True (tw_path r) (rev_parse_commit (''refs/heads/'' @ tw_branch_name r))) (\<lambda>now.
     bind_eff (check (strip (cp_stdout now) = commit)
       (TaskWorktreeError ''task branch does not point at the finalized task commit'')) (\<lambda>_.
     ret commit)))))))))))))))))))"

text \<open>\<open>remove\<close>: the lock is put back when Git refuses, and the error raised again.\<close>

definition unlock_and_remove ::
    "'g host \<Rightarrow> worktree_manager \<Rightarrow> task_worktree_record \<Rightarrow> bool \<Rightarrow> bool \<Rightarrow> ('g, unit) effect" where
  "unlock_and_remove h wm r was_locked force =
     bind_eff (if was_locked
       then bind_eff (worktree_git_at h True (wm_base_root wm) [''worktree'', ''unlock'', tw_path r]) (\<lambda>_. ret ())
       else ret ()) (\<lambda>_.
     handle (bind_eff (worktree_git_at h True (wm_base_root wm)
         ([''worktree'', ''remove''] @ (if force then [''--force''] else []) @ [tw_path r])) (\<lambda>_. ret ()))
       (\<lambda>e. bind_eff (look (h_exists h (tw_path r))) (\<lambda>there.
         bind_eff (if was_locked \<and> there
           then bind_eff (worktree_git_at h False (wm_base_root wm)
             [''worktree'', ''lock'', ''--reason'', ''DevFlow task '' @ tw_task_id r, tw_path r]) (\<lambda>_. ret ())
           else ret ()) (\<lambda>_. raise e))))"

definition remove_worktree ::
    "'g host \<Rightarrow> (string \<Rightarrow> string) \<Rightarrow> worktree_manager \<Rightarrow> task_id \<Rightarrow> bool \<Rightarrow> ('g, bool) effect" where
  "remove_worktree h sha wm t force =
     bind_eff (record_for h sha wm t None) (\<lambda>r.
     bind_eff (registered_worktrees h wm) (\<lambda>registered.
     bind_eff (find_registered_path h (tw_path r) registered) (\<lambda>found.
     bind_eff (look (h_exists h (tw_path r))) (\<lambda>there.
     case found of
       None \<Rightarrow> bind_eff (check (\<not> there)
           (TaskWorktreeCollisionError ''unregistered path exists at the task worktree location'')) (\<lambda>_. ret False)
     | Some entry \<Rightarrow>
       bind_eff (assert_owned_registration r entry) (\<lambda>_.
       bind_eff (check (there \<and> rw_prunable_reason entry = None)
         (StaleTaskWorktreeError ''cannot safely remove stale task worktree registration'')) (\<lambda>_.
       bind_eff (LocalGitWorkspace h (tw_path r)) (\<lambda>workspace.
       bind_eff (changed_files h workspace) (\<lambda>changed.
       bind_eff (check (\<not> (changed \<noteq> [] \<and> \<not> force))
         (TaskWorktreeError ''refusing to remove dirty task worktree without force=True'')) (\<lambda>_.
       bind_eff (unlock_and_remove h wm r (rw_locked_reason entry \<noteq> None) force) (\<lambda>_.
       bind_eff (look (h_exists h (tw_path r))) (\<lambda>still.
       bind_eff (check (\<not> still)
         (TaskWorktreeError ''Git reported removal success but the worktree path still exists'')) (\<lambda>_.
       bind_eff (registered_worktrees h wm) (\<lambda>entries.
       bind_eff (find_registered_path h (tw_path r) entries) (\<lambda>again.
       bind_eff (check (again = None)
         (TaskWorktreeError ''Git reported removal success but worktree metadata still exists'')) (\<lambda>_.
       ret True)))))))))))))))"

end
