(* ===== verification/Merge_Queue.thy ===== *)
theory Merge_Queue
  imports Git_Workspace Dag_Scheduler Orchestrator
begin

text \<open>
  The topological merge queue (\<open>runtime/merge_queue.py\<close>) with its records (\<open>models/merge.py\<close>,
  \<open>models/worker.py\<close>): successful task commits are merged into one integration ref in the order of the graph, without
  a worktree, and a new process recovers the queue from the commits behind that ref.

  The scheduler is shared with other components and changes between calls, so every operation gets the
  scheduler of that moment. Git is the host of \<open>Git_Workspace\<close>.
\<close>

section \<open>Worker results\<close>

record worker_task_result =
  wt_task :: task_id
  wt_state :: task_schedule_state
  wt_worktree_path :: "string option"
  wt_branch :: "string option"
  wt_base_commit :: "string option"
  wt_commit :: "string option"
  wt_run_result :: "single_task_run_result option"
  wt_failures :: "failure_report list"
  wt_duration_ms :: int

definition WorkerTaskResult :: "worker_task_result \<Rightarrow> worker_task_result res" where
  "WorkerTaskResult r =
     (if \<not> text_between 128 (wt_task r) then Inl (ValueError ''task_id'')
      else if wt_duration_ms r < 0 then Inl (ValueError ''duration_ms'')
      else if wt_state r \<notin> {task_schedule_state.SUCCEEDED, task_schedule_state.FAILED}
      then Inl (ValueError ''worker task result requires a SUCCEEDED or FAILED scheduler state'')
      else if \<not> opt_all (\<lambda>s. sr_task s = wt_task r) (wt_run_result r)
      then Inl (ValueError ''worker task result must match the nested single-task run id'')
      else if wt_state r = task_schedule_state.SUCCEEDED \<and> map_option sr_status (wt_run_result r) \<noteq> Some T_SUCCEEDED
      then Inl (ValueError ''successful worker tasks require successful V0.1 run evidence'')
      else if wt_state r = task_schedule_state.SUCCEEDED \<and> wt_failures r \<noteq> []
      then Inl (ValueError ''successful worker tasks must not contain worker failures'')
      else if wt_state r = task_schedule_state.SUCCEEDED \<and> (wt_commit r = None \<or> wt_commit r = Some [])
      then Inl (ValueError ''successful worker tasks require a committed task-branch SHA'')
      else if wt_state r \<noteq> task_schedule_state.SUCCEEDED \<and> wt_failures r = [] \<and> map_option sr_status (wt_run_result r) \<noteq> Some T_FAILED
      then Inl (ValueError ''failed worker tasks require explicit failure evidence'')
      else Inr r)"

section \<open>Attempts and snapshots\<close>

datatype merge_attempt_outcome = M_INTEGRATED | M_CONFLICT | M_REPAIRED

record merge_queue_attempt =
  ma_sequence :: nat
  ma_task :: task_id
  ma_branch :: string
  ma_base :: string
  ma_commit :: string
  ma_previous :: string
  ma_outcome :: merge_attempt_outcome
  ma_integration_commit :: "string option"
  ma_failure :: "failure_report option"
  ma_conflict_marker :: "string option"
  ma_conflict_fingerprint :: "string option"
  ma_policy_fingerprint :: "string option"
  ma_human_decision :: "string option"

definition oid_length :: "string \<Rightarrow> bool" where
  "oid_length s = (40 \<le> length s \<and> length s \<le> 64)"

definition validate_outcome_consistency :: "merge_queue_attempt \<Rightarrow> merge_queue_attempt res" where
  "validate_outcome_consistency a =
     (let repair_fields = [ma_conflict_marker a, ma_conflict_fingerprint a, ma_policy_fingerprint a, ma_human_decision a] in
      case ma_outcome a of
        M_INTEGRATED \<Rightarrow>
          if ma_integration_commit a = None then Inl (ValueError ''integrated merge attempts require an integration commit'')
          else if ma_failure a \<noteq> None then Inl (ValueError ''integrated merge attempts must not contain failure evidence'')
          else if list_ex (\<lambda>x. x \<noteq> None) repair_fields
          then Inl (ValueError ''naturally clean integrations cannot contain repair metadata'')
          else Inr a
      | M_CONFLICT \<Rightarrow>
          if ma_integration_commit a \<noteq> None then Inl (ValueError ''conflicted merge attempts must not advance integration commit'')
          else if map_option fr_type (ma_failure a) \<noteq> Some MERGE_CONFLICT
          then Inl (ValueError ''conflicted merge attempts require MERGE_CONFLICT evidence'')
          else if list_ex (\<lambda>x. x \<noteq> None) repair_fields
          then Inl (ValueError ''unresolved conflict attempts cannot claim repair metadata'')
          else Inr a
      | M_REPAIRED \<Rightarrow>
          if ma_integration_commit a = None then Inl (ValueError ''repaired merge attempts require an integration commit'')
          else if ma_failure a \<noteq> None then Inl (ValueError ''repaired merge attempts must not contain failure evidence'')
          else if list_ex (\<lambda>x. x = None) repair_fields
          then Inl (ValueError ''repaired merge attempts require complete Human Gate metadata'')
          else Inr a)"

definition MergeQueueAttempt :: "merge_queue_attempt \<Rightarrow> merge_queue_attempt res" where
  "MergeQueueAttempt a =
     (if \<not> text_between 128 (ma_task a) then Inl (ValueError ''task_id'')
      else if \<not> text_between 512 (ma_branch a) then Inl (ValueError ''task_branch'')
      else if \<not> oid_length (ma_base a) then Inl (ValueError ''task_base_commit'')
      else if \<not> oid_length (ma_commit a) then Inl (ValueError ''task_commit'')
      else if \<not> oid_length (ma_previous a) then Inl (ValueError ''previous_integration_commit'')
      else if \<not> opt_all oid_length (ma_integration_commit a) then Inl (ValueError ''integration_commit'')
      else if \<not> opt_all oid_pattern (ma_conflict_marker a) then Inl (ValueError ''conflict_marker_commit'')
      else if \<not> opt_all sha_pattern (ma_conflict_fingerprint a) then Inl (ValueError ''conflict_evidence_fingerprint'')
      else if \<not> opt_all sha_pattern (ma_policy_fingerprint a) then Inl (ValueError ''policy_fingerprint'')
      else if \<not> opt_all oid_pattern (ma_human_decision a) then Inl (ValueError ''human_decision_commit'')
      else validate_outcome_consistency a)"

record merge_queue_snapshot =
  ms_integration_ref :: string
  ms_run_base :: string
  ms_head :: string
  ms_integrated :: "task_id list"
  ms_attempts :: "merge_queue_attempt list"
  ms_stopped :: bool

definition merged :: "merge_queue_attempt \<Rightarrow> bool" where
  "merged a = (ma_outcome a \<in> {M_INTEGRATED, M_REPAIRED})"

text \<open>The walk over the attempts: the tasks completed and the conflict that is still open.\<close>

definition scan_attempt ::
    "merge_queue_attempt \<Rightarrow> task_id set \<times> merge_queue_attempt option \<Rightarrow> (task_id set \<times> merge_queue_attempt option) res" where
  "scan_attempt a s = (case s of (completed, pending) \<Rightarrow>
     if ma_outcome a = M_CONFLICT
     then (if pending \<noteq> None then Inl (ValueError ''a second conflict cannot begin before the first is resolved'')
           else if ma_task a \<in> completed then Inl (ValueError ''an already integrated task cannot conflict again'')
           else Inr (completed, Some a))
     else bind_res
       (if ma_outcome a = M_REPAIRED
        then (case pending of
            None \<Rightarrow> Inl (ValueError ''repaired integration must immediately resolve its task conflict'')
          | Some c \<Rightarrow> if ma_task c \<noteq> ma_task a
              then Inl (ValueError ''repaired integration must immediately resolve its task conflict'')
              else if ma_previous c \<noteq> ma_previous a
              then Inl (ValueError ''repair must chain from the same pre-conflict integration head'')
              else Inr None)
        else if pending \<noteq> None
        then Inl (ValueError ''unresolved conflict must be repaired before another task integrates'')
        else Inr pending) (\<lambda>pending'.
       if ma_task a \<in> completed then Inl (ValueError ''a task may be integrated only once'')
       else Inr (insert (ma_task a) completed, pending')))"

definition chain_attempt :: "merge_queue_attempt \<Rightarrow> string \<Rightarrow> string res" where
  "chain_attempt a expected =
     (if ma_previous a \<noteq> expected then Inl (ValueError ''merge attempt must chain from the previous integration head'')
      else if merged a
      then (case ma_integration_commit a of None \<Rightarrow> Inr expected
        | Some c \<Rightarrow> Inr (if c = [] then expected else c))
      else Inr expected)"

definition MergeQueueSnapshot :: "merge_queue_snapshot \<Rightarrow> merge_queue_snapshot res" where
  "MergeQueueSnapshot s =
     (if \<not> text_between 512 (ms_integration_ref s) then Inl (ValueError ''integration_ref'')
      else if \<not> oid_length (ms_run_base s) then Inl (ValueError ''run_base_commit'')
      else if \<not> oid_length (ms_head s) then Inl (ValueError ''head_commit'')
      else if \<not> distinct (ms_integrated s) then Inl (ValueError ''integrated_task_ids must be unique'')
      else if map ma_sequence (ms_attempts s) \<noteq> [0..<length (ms_attempts s)]
      then Inl (ValueError ''merge queue attempt sequence must be contiguous from zero'')
      else if map ma_task (filter merged (ms_attempts s)) \<noteq> ms_integrated s
      then Inl (ValueError ''integrated task ids must match successful merge attempts'')
      else bind_res (fold_res scan_attempt (ms_attempts s) ({}, None)) (\<lambda>(completed, pending).
        if ms_stopped s \<noteq> (pending \<noteq> None)
        then Inl (ValueError ''merge queue stopped flag must match unresolved terminal conflict'')
        else if pending \<noteq> None \<and> Some (last (ms_attempts s)) \<noteq> pending
        then Inl (ValueError ''unresolved merge conflict must be the final queue attempt'')
        else bind_res (fold_res chain_attempt (ms_attempts s) (ms_run_base s)) (\<lambda>expected.
          if ms_head s \<noteq> expected
          then Inl (ValueError ''snapshot head must match the last successful integration commit'')
          else Inr s)))"

section \<open>The queue\<close>

record merge_config =
  mc_worktrees :: worktree_manager
  mc_integration_id :: string

definition integration_ref :: "merge_config \<Rightarrow> string" where
  "integration_ref cfg = ''refs/devflow/integration/'' @ mc_integration_id cfg"

definition conflict_ref :: "merge_config \<Rightarrow> string" where
  "conflict_ref cfg = ''refs/devflow/integration-conflicts/'' @ mc_integration_id cfg"

definition run_base :: "merge_config \<Rightarrow> string" where
  "run_base cfg = wm_base_commit (mc_worktrees cfg)"

record 'g merge_queue =
  mq_order :: "task_id list"
  mq_attempts :: "merge_queue_attempt list"
  mq_integrated :: "task_id list"
  mq_stopped :: bool
  mq_head :: string
  mq_world :: 'g

text \<open>An operation of the machine as one of the queue.\<close>

definition in_world :: "('g, 'a) effect \<Rightarrow> ('g merge_queue, 'a) effect" where
  "in_world m q = (case m (mq_world q) of (r, w) \<Rightarrow> (r, q\<lparr>mq_world := w\<rparr>))"

definition change :: "('s \<Rightarrow> 's) \<Rightarrow> ('s, unit) effect" where
  "change f s = (Inr (), f s)"

lemma change_Inr [simp]: "change f s = (Inr u, s') \<longleftrightarrow> s' = f s"
  by (auto simp: change_def)

subsection \<open>Git\<close>

definition merge_git :: "'g host \<Rightarrow> merge_config \<Rightarrow> bool \<Rightarrow> string list \<Rightarrow> ('g merge_queue, completed_process) effect" where
  "merge_git h cfg checked arguments =
     bind_eff (in_world (git_process h (MergeQueueError ''git executable is not available'')
         (MergeQueueError ''git integration command exceeded the configured timeout'')
         (wm_base_root (mc_worktrees cfg)) arguments)) (\<lambda>p.
     bind_eff (check (\<not> (checked \<and> cp_returncode p \<noteq> 0)) (MergeQueueError ''git integration command failed'')) (\<lambda>_.
     ret p))"

definition require_full_oid :: "string \<Rightarrow> ('s, unit) effect" where
  "require_full_oid val = check (full_oid val) (MergeQueueError ''must be a full 40-64 character hexadecimal id'')"

definition resolve_object :: "'g host \<Rightarrow> merge_config \<Rightarrow> string \<Rightarrow> string \<Rightarrow> ('g merge_queue, string) effect" where
  "resolve_object h cfg kind ref =
     bind_eff (merge_git h cfg False [''rev-parse'', ''--verify'', ref @ ''^{'' @ kind @ ''}'']) (\<lambda>p.
     bind_eff (check (cp_returncode p = 0 \<and> full_oid (strip (cp_stdout p)))
       (MergeQueueError ''does not resolve to a full id'')) (\<lambda>_.
     ret (strip (cp_stdout p))))"

definition resolve_commit :: "'g host \<Rightarrow> merge_config \<Rightarrow> string \<Rightarrow> ('g merge_queue, string) effect" where
  "resolve_commit h cfg = resolve_object h cfg ''commit''"

definition resolve_tree :: "'g host \<Rightarrow> merge_config \<Rightarrow> string \<Rightarrow> ('g merge_queue, string) effect" where
  "resolve_tree h cfg = resolve_object h cfg ''tree''"

definition commit_parents :: "'g host \<Rightarrow> merge_config \<Rightarrow> string \<Rightarrow> ('g merge_queue, string list) effect" where
  "commit_parents h cfg commit =
     bind_eff (merge_git h cfg True [''rev-list'', ''--parents'', ''-n'', ''1'', commit]) (\<lambda>p.
     let vals = words_from (strip (cp_stdout p)) [] in
     bind_eff (check (vals \<noteq> [] \<and> hd vals = commit)
       (MergeQueueError ''Git returned inconsistent commit-parent evidence'')) (\<lambda>_.
     ret (tl vals)))"

definition first_oid_line :: "string \<Rightarrow> ('s, string) effect" where
  "first_oid_line out =
     (let first = (case filter (\<lambda>l. l \<noteq> []) (map strip (splitlines out)) of [] \<Rightarrow> [] | l # _ \<Rightarrow> l) in
      bind_eff (require_full_oid first) (\<lambda>_. ret first))"

definition merge_tree :: "string \<Rightarrow> string \<Rightarrow> string list" where
  "merge_tree previous commit = [''merge-tree'', ''--write-tree'', previous, commit]"

definition ref_present :: "'g host \<Rightarrow> merge_config \<Rightarrow> string \<Rightarrow> ('g merge_queue, int) effect" where
  "ref_present h cfg ref = bind_eff (merge_git h cfg False [''show-ref'', ''--verify'', ''--quiet'', ref]) (\<lambda>p.
     ret (cp_returncode p))"

definition assert_ref_head :: "'g host \<Rightarrow> merge_config \<Rightarrow> ('g merge_queue, unit) effect" where
  "assert_ref_head h cfg =
     bind_eff (resolve_commit h cfg (integration_ref cfg)) (\<lambda>current.
     bind_eff (look mq_head) (\<lambda>head.
     check (current = head) (MergeQueueError ''integration ref moved outside the merge queue'')))"

definition base_clean :: "'g host \<Rightarrow> merge_config \<Rightarrow> exn \<Rightarrow> ('g merge_queue, unit) effect" where
  "base_clean h cfg e =
     bind_eff (in_world (changed_files h (wm_base_root (mc_worktrees cfg)))) (\<lambda>changed. check (changed = []) e)"

definition assert_base_clean :: "'g host \<Rightarrow> merge_config \<Rightarrow> ('g merge_queue, unit) effect" where
  "assert_base_clean h cfg =
     base_clean h cfg (MergeQueueError ''integration operation unexpectedly dirtied the base workspace'')"

subsection \<open>Commit messages\<close>

definition lines_text :: "string list \<Rightarrow> string" where
  "lines_text ls = join_with newline ls"

definition integration_message :: "task_id \<Rightarrow> string \<Rightarrow> string \<Rightarrow> string \<Rightarrow> string" where
  "integration_message t branch base commit = lines_text
     [''DevFlow integrate '' @ t, [], ''DevFlow-Task: '' @ t, ''DevFlow-Task-Branch: '' @ branch,
      ''DevFlow-Task-Base: '' @ base, ''DevFlow-Task-Commit: '' @ commit]"

definition conflict_message :: "task_id \<Rightarrow> string \<Rightarrow> string \<Rightarrow> string \<Rightarrow> string \<Rightarrow> string" where
  "conflict_message t branch base commit head = lines_text
     [''DevFlow integration conflict for '' @ t, [], ''DevFlow-Conflict-Task: '' @ t,
      ''DevFlow-Conflict-Branch: '' @ branch, ''DevFlow-Conflict-Base: '' @ base, ''DevFlow-Conflict-Commit: '' @ commit,
      ''DevFlow-Conflict-Integration-Head: '' @ head]"

text \<open>\<open>_parse_metadata\<close>: the fields a table of line beginnings names, each exactly once.\<close>

definition match_prefix ::
    "string \<Rightarrow> string \<times> string \<Rightarrow> (string \<rightharpoonup> string) \<Rightarrow> (string \<rightharpoonup> string) res" where
  "match_prefix line entry metadata = (case entry of (p, key) \<Rightarrow>
     if \<not> prefix p line then Inr metadata
     else if metadata key \<noteq> None then Inl (MergeQueueError ''contains duplicate DevFlow metadata'')
     else Inr (metadata(key \<mapsto> strip (drop (length p) line))))"

definition parse_lines ::
    "(string \<times> string) list \<Rightarrow> string list \<Rightarrow> (string \<rightharpoonup> string) \<Rightarrow> (string \<rightharpoonup> string) res" where
  "parse_lines table = fold_res (\<lambda>line. fold_res (match_prefix line) table)"

definition parse_message :: "(string \<times> string) list \<Rightarrow> string \<Rightarrow> (string \<rightharpoonup> string) res" where
  "parse_message table message =
     bind_res (parse_lines table (splitlines message) Map.empty) (\<lambda>metadata.
     if list_ex (\<lambda>key. metadata key = None) (map snd table)
     then Inl (MergeQueueError ''is missing required DevFlow metadata'')
     else if \<not> full_oid (the (metadata ''base'')) \<or> \<not> full_oid (the (metadata ''commit''))
     then Inl (MergeQueueError ''must be a full 40-64 character hexadecimal id'')
     else Inr metadata)"

definition INTEGRATION_FIELDS :: "(string \<times> string) list" where
  "INTEGRATION_FIELDS = [(''DevFlow-Task: '', ''task''), (''DevFlow-Task-Branch: '', ''branch''),
     (''DevFlow-Task-Base: '', ''base''), (''DevFlow-Task-Commit: '', ''commit'')]"

definition CONFLICT_FIELDS :: "(string \<times> string) list" where
  "CONFLICT_FIELDS = [(''DevFlow-Conflict-Task: '', ''task''), (''DevFlow-Conflict-Branch: '', ''branch''),
     (''DevFlow-Conflict-Base: '', ''base''), (''DevFlow-Conflict-Commit: '', ''commit''),
     (''DevFlow-Conflict-Integration-Head: '', ''integration_head'')]"

definition parse_metadata ::
    "'g host \<Rightarrow> merge_config \<Rightarrow> (string \<times> string) list \<Rightarrow> string \<Rightarrow> ('g merge_queue, string \<rightharpoonup> string) effect" where
  "parse_metadata h cfg table commit =
     bind_eff (merge_git h cfg True [''show'', ''-s'', ''--format=%B'', commit]) (\<lambda>p.
     pure (parse_message table (cp_stdout p)))"

definition parse_integration_message ::
    "'g host \<Rightarrow> merge_config \<Rightarrow> string \<Rightarrow> ('g merge_queue, string \<rightharpoonup> string) effect" where
  "parse_integration_message h cfg = parse_metadata h cfg INTEGRATION_FIELDS"

definition parse_conflict_message ::
    "'g host \<Rightarrow> merge_config \<Rightarrow> string \<Rightarrow> ('g merge_queue, string \<rightharpoonup> string) effect" where
  "parse_conflict_message h cfg commit =
     bind_eff (parse_metadata h cfg CONFLICT_FIELDS commit) (\<lambda>metadata.
     bind_eff (require_full_oid (the (metadata ''integration_head''))) (\<lambda>_. ret metadata))"

subsection \<open>Validation of a worker result\<close>

definition text_or_empty :: "string option \<Rightarrow> string" where
  "text_or_empty x = (case x of None \<Rightarrow> [] | Some s \<Rightarrow> s)"

definition validate_worker_result ::
    "'g host \<Rightarrow> (string \<Rightarrow> string) \<Rightarrow> merge_config \<Rightarrow> scheduler \<Rightarrow> worker_task_result \<Rightarrow> ('g merge_queue, unit) effect" where
  "validate_worker_result h sha cfg sched r =
     bind_eff (check (wt_state r = task_schedule_state.SUCCEEDED)
       (MergeQueueError ''only successful worker results may integrate'')) (\<lambda>_.
     bind_eff (pure (require_task sched (wt_task r))) (\<lambda>state.
     bind_eff (check (state = task_schedule_state.SUCCEEDED)
       (MergeQueueError ''scheduler task must still be SUCCEEDED before integration'')) (\<lambda>_.
     let branch = text_or_empty (wt_branch r); base = text_or_empty (wt_base_commit r);
         commit = text_or_empty (wt_commit r); path = text_or_empty (wt_worktree_path r)
     in
     bind_eff (check (branch \<noteq> [] \<and> base \<noteq> [] \<and> commit \<noteq> [])
       (MergeQueueError ''successful worker result lacks branch/base/commit evidence'')) (\<lambda>_.
     bind_eff (check (path \<noteq> []) (MergeQueueError ''successful worker result lacks deterministic worktree identity'')) (\<lambda>_.
     bind_eff (require_full_oid base) (\<lambda>_.
     bind_eff (require_full_oid commit) (\<lambda>_.
     bind_eff (in_world (record_for h sha (mc_worktrees cfg) (wt_task r) (Some base))) (\<lambda>record_tw.
     bind_eff (check (branch = tw_branch_name record_tw)
       (MergeQueueError ''worker branch does not match the manager-owned task branch'')) (\<lambda>_.
     bind_eff (in_world (look (\<lambda>w. h_resolve h path w = h_resolve h (tw_path record_tw) w))) (\<lambda>same.
     bind_eff (check same (MergeQueueError ''worker path does not match the manager-owned task worktree'')) (\<lambda>_.
     bind_eff (resolve_commit h cfg (''refs/heads/'' @ tw_branch_name record_tw)) (\<lambda>branch_commit.
     bind_eff (check (branch_commit = commit) (MergeQueueError ''task branch moved after worker finalization'')) (\<lambda>_.
     bind_eff (commit_parents h cfg commit) (\<lambda>parents.
     check (parents = [base])
       (MergeQueueError ''task commit must have exactly its assigned task base as parent'')))))))))))))))"

definition TERMINAL_NON_SUCCESS :: "task_schedule_state set" where
  "TERMINAL_NON_SUCCESS = {task_schedule_state.FAILED, task_schedule_state.BLOCKED}"

definition assert_global_topological_gate ::
    "scheduler \<Rightarrow> task_id \<Rightarrow> task_id set \<Rightarrow> ('g merge_queue, unit) effect" where
  "assert_global_topological_gate sched t simulated =
     bind_eff (look mq_order) (\<lambda>order.
     each (\<lambda>earlier. if earlier \<in> simulated then ret ()
       else bind_eff (pure (require_task sched earlier)) (\<lambda>state.
         check (state \<in> TERMINAL_NON_SUCCESS) (MergeQueueError ''cannot integrate before earlier topological task'')))
       (take (index_of order t) order))"

subsection \<open>Integration of one result\<close>

definition CONFLICT_EVIDENCE_LIMIT :: nat where
  "CONFLICT_EVIDENCE_LIMIT = 8000"

definition merge_conflict_failure ::
    "task_id \<Rightarrow> string \<Rightarrow> string \<Rightarrow> string \<Rightarrow> string \<Rightarrow> string \<Rightarrow> string \<Rightarrow> failure_report res" where
  "merge_conflict_failure t integration_head task_commit ref marker out err =
     (let joined = lines_text (filter (\<lambda>s. s \<noteq> []) [strip out, strip err]);
          raw = (if CONFLICT_EVIDENCE_LIMIT < length joined
            then take CONFLICT_EVIDENCE_LIMIT joined @ newline @ ''...[truncated]'' else joined)
      in FailureReport
        \<lparr>fr_type = MERGE_CONFLICT, fr_source = F_RUNTIME,
         fr_message = ''Git reported a merge conflict while integrating the task commit.'', fr_retryable = False,
         fr_evidence = [''task_id='' @ t, ''integration_head='' @ integration_head, ''task_commit='' @ task_commit,
             ''conflict_ref='' @ ref, ''conflict_marker='' @ marker, ''git_merge_tree_exit_code=1''] @
           (if raw \<noteq> [] then [''git_merge_tree_output='' @ raw] else [])\<rparr>)"

definition zero_oid :: "string \<Rightarrow> string" where
  "zero_oid commit = replicate (length commit) (CHR ''0'')"

definition persist_conflict_marker ::
    "'g host \<Rightarrow> merge_config \<Rightarrow> task_id \<Rightarrow> string \<Rightarrow> string \<Rightarrow> string \<Rightarrow> string \<Rightarrow> ('g merge_queue, string) effect" where
  "persist_conflict_marker h cfg t branch base commit integration_head =
     bind_eff (ref_present h cfg (conflict_ref cfg)) (\<lambda>code.
     bind_eff (check (code \<noteq> 0) (MergeQueueError ''integration conflict marker already exists'')) (\<lambda>_.
     bind_eff (check (code = 1) (MergeQueueError ''Git could not validate conflict-marker availability'')) (\<lambda>_.
     bind_eff (resolve_tree h cfg integration_head) (\<lambda>tree.
     bind_eff (merge_git h cfg True [''commit-tree'', tree, ''-p'', integration_head, ''-m'',
         conflict_message t branch base commit integration_head]) (\<lambda>p.
     let marker = strip (cp_stdout p) in
     bind_eff (require_full_oid marker) (\<lambda>_.
     bind_eff (merge_git h cfg False [''update-ref'', conflict_ref cfg, marker, zero_oid marker]) (\<lambda>update.
     bind_eff (check (cp_returncode update = 0)
       (MergeQueueError ''integration conflict marker could not be created atomically'')) (\<lambda>_.
     bind_eff (resolve_commit h cfg (conflict_ref cfg)) (\<lambda>now.
     bind_eff (check (now = marker) (MergeQueueError ''integration conflict marker ref does not match its commit'')) (\<lambda>_.
     ret marker))))))))))"

definition verify_integration_commit ::
    "'g host \<Rightarrow> merge_config \<Rightarrow> string \<Rightarrow> string \<Rightarrow> string \<Rightarrow> ('g merge_queue, unit) effect" where
  "verify_integration_commit h cfg commit previous_head task_commit =
     bind_eff (commit_parents h cfg commit) (\<lambda>parents.
     bind_eff (check (parents = [previous_head, task_commit])
       (MergeQueueError ''integration commit does not preserve the expected two-parent history'')) (\<lambda>_.
     bind_eff (merge_git h cfg False (merge_tree previous_head task_commit)) (\<lambda>merge.
     bind_eff (check (cp_returncode merge = 0)
       (MergeQueueError ''integration commit cannot reproduce a clean deterministic merge'')) (\<lambda>_.
     bind_eff (first_oid_line (cp_stdout merge)) (\<lambda>expected.
     bind_eff (resolve_tree h cfg commit) (\<lambda>tree.
     check (tree = expected) (MergeQueueError ''integration commit tree does not match deterministic Git merge'')))))))"

text \<open>The record of an attempt, as both outcomes of the queue fill it.\<close>

definition attempt_of ::
    "nat \<Rightarrow> task_id \<Rightarrow> string \<Rightarrow> string \<Rightarrow> string \<Rightarrow> string \<Rightarrow> (failure_report + string) \<Rightarrow> merge_queue_attempt" where
  "attempt_of n t branch base commit previous outcome =
     \<lparr>ma_sequence = n, ma_task = t, ma_branch = branch, ma_base = base, ma_commit = commit, ma_previous = previous,
      ma_outcome = (case outcome of Inl f \<Rightarrow> M_CONFLICT | Inr c \<Rightarrow> M_INTEGRATED),
      ma_integration_commit = (case outcome of Inl f \<Rightarrow> None | Inr c \<Rightarrow> Some c),
      ma_failure = (case outcome of Inl f \<Rightarrow> Some f | Inr c \<Rightarrow> None),
      ma_conflict_marker = None, ma_conflict_fingerprint = None, ma_policy_fingerprint = None,
      ma_human_decision = None\<rparr>"

text \<open>\<open>self._attempts.append(MergeQueueAttempt(sequence=len(self._attempts), ...))\<close>.\<close>

definition append_attempt ::
    "task_id \<Rightarrow> string \<Rightarrow> string \<Rightarrow> string \<Rightarrow> string \<Rightarrow> (failure_report + string) \<Rightarrow> ('g merge_queue, unit) effect" where
  "append_attempt t branch base commit previous outcome =
     bind_eff (look (\<lambda>q. length (mq_attempts q))) (\<lambda>n.
     bind_eff (pure (MergeQueueAttempt (attempt_of n t branch base commit previous outcome))) (\<lambda>a.
     change (\<lambda>q. q\<lparr>mq_attempts := mq_attempts q @ [a]\<rparr>)))"

definition record_conflict ::
    "'g host \<Rightarrow> merge_config \<Rightarrow> worker_task_result \<Rightarrow> string \<Rightarrow> completed_process \<Rightarrow> ('g merge_queue, bool) effect" where
  "record_conflict h cfg r previous_head merge =
     (let branch = text_or_empty (wt_branch r); base = text_or_empty (wt_base_commit r);
          commit = text_or_empty (wt_commit r) in
      bind_eff (persist_conflict_marker h cfg (wt_task r) branch base commit previous_head) (\<lambda>marker.
      bind_eff (pure (merge_conflict_failure (wt_task r) previous_head commit (conflict_ref cfg) marker
          (cp_stdout merge) (cp_stderr merge))) (\<lambda>failure.
      bind_eff (append_attempt (wt_task r) branch base commit previous_head (Inl failure)) (\<lambda>_.
      bind_eff (change (\<lambda>q. q\<lparr>mq_stopped := True\<rparr>)) (\<lambda>_.
      bind_eff (assert_ref_head h cfg) (\<lambda>_.
      bind_eff (assert_base_clean h cfg) (\<lambda>_. ret False)))))))"

definition advance ::
    "'g host \<Rightarrow> merge_config \<Rightarrow> worker_task_result \<Rightarrow> string \<Rightarrow> completed_process \<Rightarrow> ('g merge_queue, bool) effect" where
  "advance h cfg r previous_head merge =
     (let branch = text_or_empty (wt_branch r); base = text_or_empty (wt_base_commit r);
          task_commit = text_or_empty (wt_commit r) in
      bind_eff (first_oid_line (cp_stdout merge)) (\<lambda>tree.
      bind_eff (merge_git h cfg True [''commit-tree'', tree, ''-p'', previous_head, ''-p'', task_commit, ''-m'',
          integration_message (wt_task r) branch base task_commit]) (\<lambda>p.
      let commit = strip (cp_stdout p) in
      bind_eff (require_full_oid commit) (\<lambda>_.
      bind_eff (merge_git h cfg False [''update-ref'', ''-m'', ''DevFlow integrate '' @ wt_task r, integration_ref cfg,
          commit, previous_head]) (\<lambda>update.
      bind_eff (check (cp_returncode update = 0)
        (MergeQueueError ''integration ref changed concurrently or could not be atomically advanced'')) (\<lambda>_.
      bind_eff (resolve_commit h cfg (integration_ref cfg)) (\<lambda>resolved.
      bind_eff (check (resolved = commit)
        (MergeQueueError ''integration ref does not point at the newly created commit'')) (\<lambda>_.
      bind_eff (verify_integration_commit h cfg commit previous_head task_commit) (\<lambda>_.
      bind_eff (change (\<lambda>q. q\<lparr>mq_head := commit, mq_integrated := mq_integrated q @ [wt_task r]\<rparr>)) (\<lambda>_.
      bind_eff (append_attempt (wt_task r) branch base task_commit previous_head (Inr commit)) (\<lambda>_.
      bind_eff (assert_base_clean h cfg) (\<lambda>_. ret True))))))))))))"

definition integrate_one ::
    "'g host \<Rightarrow> (string \<Rightarrow> string) \<Rightarrow> merge_config \<Rightarrow> scheduler \<Rightarrow> worker_task_result \<Rightarrow> ('g merge_queue, bool) effect" where
  "integrate_one h sha cfg sched r =
     bind_eff (validate_worker_result h sha cfg sched r) (\<lambda>_.
     bind_eff (assert_ref_head h cfg) (\<lambda>_.
     bind_eff (look mq_head) (\<lambda>previous_head.
     bind_eff (merge_git h cfg False (merge_tree previous_head (text_or_empty (wt_commit r)))) (\<lambda>merge.
     if cp_returncode merge = 1 then record_conflict h cfg r previous_head merge
     else bind_eff (check (cp_returncode merge = 0)
         (MergeQueueError ''git merge-tree failed before producing a trustworthy integration result'')) (\<lambda>_.
       advance h cfg r previous_head merge)))))"

subsection \<open>The public operations\<close>

definition queue_snapshot :: "merge_config \<Rightarrow> 'g merge_queue \<Rightarrow> merge_queue_snapshot res" where
  "queue_snapshot cfg q = MergeQueueSnapshot
     \<lparr>ms_integration_ref = integration_ref cfg, ms_run_base = run_base cfg, ms_head = mq_head q,
      ms_integrated = mq_integrated q, ms_attempts = mq_attempts q, ms_stopped = mq_stopped q\<rparr>"

fun validate_candidates ::
    "'g host \<Rightarrow> (string \<Rightarrow> string) \<Rightarrow> merge_config \<Rightarrow> scheduler \<Rightarrow> worker_task_result list \<Rightarrow> task_id set
     \<Rightarrow> ('g merge_queue, unit) effect" where
  "validate_candidates h sha cfg sched [] simulated = ret ()"
| "validate_candidates h sha cfg sched (r # rs) simulated =
     bind_eff (validate_worker_result h sha cfg sched r) (\<lambda>_.
     bind_eff (check (wt_task r \<notin> simulated) (MergeQueueError ''task is already integrated'')) (\<lambda>_.
     bind_eff (pure (dag_node (dag sched) (wt_task r))) (\<lambda>node.
     bind_eff (check (set (depends_on node) \<subseteq> simulated)
       (MergeQueueError ''cannot integrate before dependencies'')) (\<lambda>_.
     bind_eff (assert_global_topological_gate sched (wt_task r) simulated) (\<lambda>_.
     validate_candidates h sha cfg sched rs (insert (wt_task r) simulated))))))"

fun integrate_all ::
    "'g host \<Rightarrow> (string \<Rightarrow> string) \<Rightarrow> merge_config \<Rightarrow> scheduler \<Rightarrow> worker_task_result list \<Rightarrow> ('g merge_queue, unit) effect" where
  "integrate_all h sha cfg sched [] = ret ()"
| "integrate_all h sha cfg sched (r # rs) =
     bind_eff (integrate_one h sha cfg sched r) (\<lambda>go. if go then integrate_all h sha cfg sched rs else ret ())"

definition integrate ::
    "'g host \<Rightarrow> (string \<Rightarrow> string) \<Rightarrow> merge_config \<Rightarrow> scheduler \<Rightarrow> worker_task_result list
     \<Rightarrow> ('g merge_queue, merge_queue_snapshot) effect" where
  "integrate h sha cfg sched candidates =
     bind_eff (look mq_stopped) (\<lambda>stopped.
     bind_eff (check (\<not> stopped) (MergeQueueError ''merge queue is stopped after an unresolved integration conflict'')) (\<lambda>_.
     bind_eff (base_clean h cfg (MergeQueueError ''base workspace became dirty before integration'')) (\<lambda>_.
     bind_eff (assert_ref_head h cfg) (\<lambda>_.
     bind_eff
       (if candidates = [] then ret ()
        else bind_eff (check (distinct (map wt_task candidates))
            (ValueError ''worker integration results must not contain duplicate task ids'')) (\<lambda>_.
          bind_eff (look mq_order) (\<lambda>order.
          bind_eff (check (set (map wt_task candidates) \<subseteq> set order)
            (ValueError ''worker result references unknown DAG task'')) (\<lambda>_.
          let ordered = sort_key (\<lambda>r. index_of order (wt_task r)) candidates in
          bind_eff (look (\<lambda>q. set (mq_integrated q))) (\<lambda>integrated.
          bind_eff (validate_candidates h sha cfg sched ordered integrated) (\<lambda>_.
          integrate_all h sha cfg sched ordered)))))) (\<lambda>_.
     bind_eff (look (queue_snapshot cfg)) (\<lambda>snap. pure snap))))))"

definition base_commit_for ::
    "'g host \<Rightarrow> merge_config \<Rightarrow> scheduler \<Rightarrow> task_id \<Rightarrow> ('g merge_queue, string option) effect" where
  "base_commit_for h cfg sched t =
     bind_eff (pure (dag_node (dag sched) t)) (\<lambda>node.
     if depends_on node = [] then ret None
     else bind_eff (pure (require_task sched t)) (\<lambda>state.
       if state \<noteq> READY then ret None
       else bind_eff (look (\<lambda>q. set (depends_on node) \<subseteq> set (mq_integrated q) \<and> \<not> mq_stopped q)) (\<lambda>ok.
         if \<not> ok then ret None
         else bind_eff (assert_ref_head h cfg) (\<lambda>_. bind_eff (look mq_head) (\<lambda>head. ret (Some head))))))"

subsection \<open>Opening a queue\<close>

text \<open>One commit of an existing integration history; the state carries the tasks recovered and the last index.\<close>

definition recover_commit ::
    "'g host \<Rightarrow> (string \<Rightarrow> string) \<Rightarrow> merge_config \<Rightarrow> scheduler \<Rightarrow> string \<Rightarrow> string \<times> int
     \<Rightarrow> ('g merge_queue, string \<times> int) effect" where
  "recover_commit h sha cfg sched commit progress = (case progress of (expected_previous, last_index) \<Rightarrow>
     bind_eff (commit_parents h cfg commit) (\<lambda>parents.
     bind_eff (check (length parents = 2 \<and> parents ! 0 = expected_previous)
       (MergeQueueError ''existing integration history has an unexpected parent chain'')) (\<lambda>_.
     bind_eff (parse_integration_message h cfg commit) (\<lambda>metadata.
     let t = the (metadata ''task''); branch = the (metadata ''branch''); base = the (metadata ''base'');
         task_commit = the (metadata ''commit'') in
     bind_eff (look mq_order) (\<lambda>order.
     bind_eff (check (t \<in> set order)
       (MergeQueueError ''existing integration history references an unknown DAG task'')) (\<lambda>_.
     bind_eff (look (\<lambda>q. set (mq_integrated q))) (\<lambda>recovered.
     bind_eff (check (t \<notin> recovered)
       (MergeQueueError ''existing integration history integrates a task more than once'')) (\<lambda>_.
     bind_eff (check (last_index < int (index_of order t))
       (MergeQueueError ''existing integration history violates deterministic DAG order'')) (\<lambda>_.
     bind_eff (check (parents ! 1 = task_commit)
       (MergeQueueError ''existing integration history task parent does not match metadata'')) (\<lambda>_.
     bind_eff (in_world (record_for h sha (mc_worktrees cfg) t (Some base))) (\<lambda>r.
     bind_eff (check (branch = tw_branch_name r)
       (MergeQueueError ''existing integration history records an unexpected task branch'')) (\<lambda>_.
     bind_eff (commit_parents h cfg task_commit) (\<lambda>task_parents.
     bind_eff (check (task_parents = [base])
       (MergeQueueError ''recovered task commit does not match its recorded task base'')) (\<lambda>_.
     bind_eff (pure (dag_node (dag sched) t)) (\<lambda>node.
     bind_eff (check (set (depends_on node) \<subseteq> recovered)
       (MergeQueueError ''existing integration history violates task dependencies'')) (\<lambda>_.
     bind_eff (verify_integration_commit h cfg commit expected_previous task_commit) (\<lambda>_.
     bind_eff (append_attempt t branch base task_commit expected_previous (Inr commit)) (\<lambda>_.
     bind_eff (change (\<lambda>q. q\<lparr>mq_integrated := mq_integrated q @ [t]\<rparr>)) (\<lambda>_.
     ret (commit, int (index_of order t)))))))))))))))))))))"

fun recover_commits ::
    "'g host \<Rightarrow> (string \<Rightarrow> string) \<Rightarrow> merge_config \<Rightarrow> scheduler \<Rightarrow> string list \<Rightarrow> string \<times> int
     \<Rightarrow> ('g merge_queue, string) effect" where
  "recover_commits h sha cfg sched [] progress = ret (fst progress)"
| "recover_commits h sha cfg sched (c # cs) progress =
     bind_eff (recover_commit h sha cfg sched c progress) (recover_commits h sha cfg sched cs)"

definition recover_successful_history ::
    "'g host \<Rightarrow> (string \<Rightarrow> string) \<Rightarrow> merge_config \<Rightarrow> scheduler \<Rightarrow> string \<Rightarrow> ('g merge_queue, unit) effect" where
  "recover_successful_history h sha cfg sched head =
     (if head = run_base cfg then ret ()
      else bind_eff (merge_git h cfg True [''rev-list'', ''--first-parent'', ''--reverse'', run_base cfg @ ''..'' @ head]) (\<lambda>p.
        bind_eff (recover_commits h sha cfg sched (filter (\<lambda>l. l \<noteq> []) (splitlines (cp_stdout p))) (run_base cfg, -1)) (\<lambda>reached.
        check (reached = head)
          (MergeQueueError ''existing integration history could not recover its final head''))))"

definition initialize_or_recover_ref ::
    "'g host \<Rightarrow> (string \<Rightarrow> string) \<Rightarrow> merge_config \<Rightarrow> scheduler \<Rightarrow> ('g merge_queue, string) effect" where
  "initialize_or_recover_ref h sha cfg sched =
     bind_eff (ref_present h cfg (integration_ref cfg)) (\<lambda>code.
     if code = 1
     then bind_eff (merge_git h cfg False [''update-ref'', integration_ref cfg, run_base cfg, zero_oid (run_base cfg)]) (\<lambda>p.
       bind_eff (check (cp_returncode p = 0) (MergeQueueError ''integration ref could not be created atomically'')) (\<lambda>_.
       ret (run_base cfg)))
     else bind_eff (check (code = 0) (MergeQueueError ''Git could not determine integration-ref existence'')) (\<lambda>_.
       bind_eff (resolve_commit h cfg (integration_ref cfg)) (\<lambda>head.
       bind_eff (merge_git h cfg False (is_ancestor (run_base cfg) head)) (\<lambda>p.
       bind_eff (check (cp_returncode p = 0)
         (MergeQueueError ''existing integration ref does not descend from the frozen run base'')) (\<lambda>_.
       bind_eff (recover_successful_history h sha cfg sched head) (\<lambda>_. ret head))))))"

definition recover_conflict_marker ::
    "'g host \<Rightarrow> (string \<Rightarrow> string) \<Rightarrow> merge_config \<Rightarrow> scheduler \<Rightarrow> ('g merge_queue, unit) effect" where
  "recover_conflict_marker h sha cfg sched =
     bind_eff (ref_present h cfg (conflict_ref cfg)) (\<lambda>code.
     if code = 1 then ret ()
     else bind_eff (check (code = 0) (MergeQueueError ''Git could not determine integration-conflict ref existence'')) (\<lambda>_.
       bind_eff (resolve_commit h cfg (conflict_ref cfg)) (\<lambda>marker.
       bind_eff (look mq_head) (\<lambda>head.
       bind_eff (commit_parents h cfg marker) (\<lambda>parents.
       bind_eff (check (parents = [head]) (MergeQueueError ''integration conflict marker has an unexpected parent'')) (\<lambda>_.
       bind_eff (resolve_tree h cfg marker) (\<lambda>marker_tree.
       bind_eff (resolve_tree h cfg head) (\<lambda>head_tree.
       bind_eff (check (marker_tree = head_tree)
         (MergeQueueError ''integration conflict marker unexpectedly changes repository tree'')) (\<lambda>_.
       bind_eff (parse_conflict_message h cfg marker) (\<lambda>metadata.
       let t = the (metadata ''task''); branch = the (metadata ''branch''); base = the (metadata ''base'');
           task_commit = the (metadata ''commit'') in
       bind_eff (check (the (metadata ''integration_head'') = head)
         (MergeQueueError ''integration conflict marker references an unexpected head'')) (\<lambda>_.
       bind_eff (look (\<lambda>q. t \<in> set (mq_order q) \<and> t \<notin> set (mq_integrated q))) (\<lambda>known.
       bind_eff (check known (MergeQueueError ''integration conflict marker references an invalid task'')) (\<lambda>_.
       bind_eff (in_world (record_for h sha (mc_worktrees cfg) t (Some base))) (\<lambda>r.
       bind_eff (check (branch = tw_branch_name r)
         (MergeQueueError ''integration conflict marker records an unexpected task branch'')) (\<lambda>_.
       bind_eff (commit_parents h cfg task_commit) (\<lambda>task_parents.
       bind_eff (check (task_parents = [base])
         (MergeQueueError ''conflicted task commit does not match its recorded task base'')) (\<lambda>_.
       bind_eff (pure (dag_node (dag sched) t)) (\<lambda>node.
       bind_eff (look (\<lambda>q. set (mq_integrated q))) (\<lambda>integrated.
       bind_eff (check (set (depends_on node) \<subseteq> integrated)
         (MergeQueueError ''integration conflict marker violates task dependencies'')) (\<lambda>_.
       bind_eff (assert_global_topological_gate sched t integrated) (\<lambda>_.
       bind_eff (merge_git h cfg False (merge_tree head task_commit)) (\<lambda>merge.
       bind_eff (check (cp_returncode merge = 1)
         (MergeQueueError ''integration conflict marker cannot reproduce a Git conflict'')) (\<lambda>_.
       bind_eff (pure (merge_conflict_failure t head task_commit (conflict_ref cfg) marker (cp_stdout merge) (cp_stderr merge))) (\<lambda>failure.
       bind_eff (append_attempt t branch base task_commit head (Inl failure)) (\<lambda>_.
       change (\<lambda>q. q\<lparr>mq_stopped := True\<rparr>))))))))))))))))))))))))))"

definition validate_ref_name :: "'g host \<Rightarrow> merge_config \<Rightarrow> string \<Rightarrow> ('g merge_queue, unit) effect" where
  "validate_ref_name h cfg ref =
     bind_eff (merge_git h cfg False [''check-ref-format'', ref]) (\<lambda>p.
     check (cp_returncode p = 0) (ValueError ''generated integration ref is not a valid Git ref''))"

text \<open>The constructor; the queue it returns has passed every check of it.\<close>

definition open_steps ::
    "'g host \<Rightarrow> (string \<Rightarrow> string) \<Rightarrow> merge_config \<Rightarrow> scheduler \<Rightarrow> ('g merge_queue, unit) effect" where
  "open_steps h sha cfg sched =
     bind_eff (check (task_id_pattern (mc_integration_id cfg) \<and> length (mc_integration_id cfg) \<le> 128)
       (ValueError ''integration_id must start with an alphanumeric character'')) (\<lambda>_.
     bind_eff (base_clean h cfg (MergeQueueError ''base workspace must be clean before integration starts'')) (\<lambda>_.
     bind_eff (pure (topological_order (dag sched))) (\<lambda>order.
     bind_eff (change (\<lambda>q. q\<lparr>mq_order := order\<rparr>)) (\<lambda>_.
     bind_eff (resolve_commit h cfg (run_base cfg)) (\<lambda>_.
     bind_eff (validate_ref_name h cfg (integration_ref cfg)) (\<lambda>_.
     bind_eff (validate_ref_name h cfg (conflict_ref cfg)) (\<lambda>_.
     bind_eff (initialize_or_recover_ref h sha cfg sched) (\<lambda>head.
     bind_eff (change (\<lambda>q. q\<lparr>mq_head := head\<rparr>)) (\<lambda>_.
     recover_conflict_marker h sha cfg sched)))))))))"

definition TopologicalMergeQueue ::
    "'g host \<Rightarrow> (string \<Rightarrow> string) \<Rightarrow> merge_config \<Rightarrow> scheduler \<Rightarrow> ('g, 'g merge_queue) effect" where
  "TopologicalMergeQueue h sha cfg sched w =
     (case open_steps h sha cfg sched \<lparr>mq_order = [], mq_attempts = [], mq_integrated = [], mq_stopped = False,
          mq_head = [], mq_world = w\<rparr> of
        (Inl e, q) \<Rightarrow> (Inl e, mq_world q)
      | (Inr _, q) \<Rightarrow> (Inr q, mq_world q))"

end
