(* ===== verification/Merge_Safety.thy ===== *)
theory Merge_Safety
  imports Merge_Queue
begin

text \<open>
  What the merge queue guarantees for any behaviour of Git and any interference by other processes: its own
  record of the integration always validates, tasks are integrated once, after their dependencies and in the
  order of the graph, and the only refs it moves are its own two, by compare and swap.
\<close>

section \<open>Operations that leave the record alone\<close>

definition same :: "'g merge_queue \<Rightarrow> 'g merge_queue \<Rightarrow> bool" where
  "same q q' = (\<exists>w. q' = q\<lparr>mq_world := w\<rparr>)"

lemma same_refl [simp]: "same q q"
  by (cases q) (auto simp: same_def)

lemma reflp_same: "reflp same"
  by (simp add: reflp_def)

lemma transp_same: "transp same"
  by (auto simp: transp_def same_def)

lemmas keep_same = keeps_bind [OF transp_same] keeps_still [OF reflp_same] keeps_each [OF reflp_same transp_same]

lemma keeps_in_world: "keeps same (in_world m)"
  by (auto simp: keeps_def same_def in_world_def split: prod.splits)

lemma keeps_Let: "(\<And>x. keeps R (f x)) \<Longrightarrow> keeps R (Let x f)"
  by (simp add: Let_def)

lemma merge_git_same: "keeps same (merge_git h cfg c args)"
  unfolding merge_git_def by (intro keep_same keeps_in_world)

lemma reading_same:
  "keeps same (require_full_oid v)" "keeps same (resolve_commit h cfg ref)" "keeps same (resolve_tree h cfg ref)"
  "keeps same (commit_parents h cfg c)" "keeps same (first_oid_line out)" "keeps same (ref_present h cfg ref)"
  "keeps same (assert_ref_head h cfg)" "keeps same (base_clean h cfg e)" "keeps same (assert_base_clean h cfg)"
  "keeps same (parse_metadata h cfg table c)" "keeps same (validate_ref_name h cfg ref)"
  unfolding require_full_oid_def resolve_commit_def resolve_tree_def resolve_object_def commit_parents_def
    first_oid_line_def ref_present_def assert_ref_head_def assert_base_clean_def base_clean_def parse_metadata_def
    validate_ref_name_def
  by (intro keep_same keeps_Let merge_git_same keeps_in_world)+

lemma messages_same:
  "keeps same (parse_integration_message h cfg c)" "keeps same (parse_conflict_message h cfg c)"
  unfolding parse_integration_message_def parse_conflict_message_def by (intro keep_same reading_same)+

lemma validate_worker_same: "keeps same (validate_worker_result h sha cfg sched r)"
  unfolding validate_worker_result_def by (intro keep_same keeps_Let keeps_in_world reading_same)

lemma gate_same: "keeps same (assert_global_topological_gate sched t S)"
  unfolding assert_global_topological_gate_def by (intro keep_same keeps_if)

lemma validate_candidates_same: "keeps same (validate_candidates h sha cfg sched rs S)"
  by (induction rs arbitrary: S) (auto intro!: keep_same validate_worker_same gate_same)

lemma marker_same: "keeps same (persist_conflict_marker h cfg t b base c head)"
  unfolding persist_conflict_marker_def by (intro keep_same keeps_Let reading_same merge_git_same)

lemma verify_same: "keeps same (verify_integration_commit h cfg c p t)"
  unfolding verify_integration_commit_def by (intro keep_same reading_same merge_git_same)

lemmas same_rules = merge_git_same reading_same messages_same validate_worker_same gate_same validate_candidates_same
  marker_same verify_same keeps_in_world

lemma keeps_sameD: "keeps same m \<Longrightarrow> m q = (r, q') \<Longrightarrow> \<exists>w. q' = q\<lparr>mq_world := w\<rparr>"
  unfolding keeps_def same_def by (metis snd_conv)

section \<open>Where an operation may lead\<close>

text \<open>
  From a state with \<open>P\<close>, the operation raises with the record unchanged, or ends as \<open>Q\<close> says. \<open>P\<close> and \<open>Q\<close> do not
  depend on the machine before the operation.
\<close>

definition leads ::
    "('g merge_queue \<Rightarrow> bool) \<Rightarrow> ('g merge_queue \<Rightarrow> 'a res \<Rightarrow> 'g merge_queue \<Rightarrow> bool) \<Rightarrow> ('g merge_queue, 'a) effect \<Rightarrow> bool" where
  "leads P Q m = (\<forall>q res q'. P q \<longrightarrow> m q = (res, q') \<longrightarrow> (\<exists>e. res = Inl e) \<and> same q q' \<or> Q q res q')"

definition blind :: "('g merge_queue \<Rightarrow> bool) \<Rightarrow> ('g merge_queue \<Rightarrow> 'a res \<Rightarrow> 'g merge_queue \<Rightarrow> bool) \<Rightarrow> bool" where
  "blind P Q = ((\<forall>q w. P q \<longrightarrow> P (q\<lparr>mq_world := w\<rparr>)) \<and> (\<forall>q w res q'. Q (q\<lparr>mq_world := w\<rparr>) res q' \<longrightarrow> Q q res q'))"

lemma leads_bind:
  assumes "blind P Q" "keeps same m" "\<And>x. leads P Q (f x)"
  shows "leads P Q (bind_eff m f)"
  unfolding leads_def
proof (intro allI impI)
  fix q res q' assume P: "P q" and run: "bind_eff m f q = (res, q')"
  obtain r q1 where m: "m q = (r, q1)" by fastforce
  from keeps_sameD [OF assms(2) m] obtain w where q1: "q1 = q\<lparr>mq_world := w\<rparr>" by blast
  show "(\<exists>e. res = Inl e) \<and> same q q' \<or> Q q res q'"
  proof (cases r)
    case (Inl e)
    with run m q1 show ?thesis by (auto simp: bind_eff_def same_def)
  next
    case (Inr x)
    with run m have "f x q1 = (res, q')" by (simp add: bind_eff_def)
    moreover have "P q1" using assms(1) P q1 unfolding blind_def by blast
    ultimately have "(\<exists>e. res = Inl e) \<and> same q1 q' \<or> Q q1 res q'" using assms(3) unfolding leads_def by blast
    with assms(1) q1 show ?thesis unfolding blind_def same_def by fastforce
  qed
qed

lemma leads_check: "(c \<Longrightarrow> leads P Q (f ())) \<Longrightarrow> leads P Q (bind_eff (check c e) f)"
  by (cases c) (auto simp: leads_def bind_eff_def check_def ret_def raise_def)

lemma leads_oid: "(full_oid v \<Longrightarrow> leads P Q (f ())) \<Longrightarrow> leads P Q (bind_eff (require_full_oid v) f)"
  unfolding require_full_oid_def by (rule leads_check)

lemma leads_look: "(\<And>x. leads (\<lambda>q. P q \<and> g q = x) Q (f x)) \<Longrightarrow> leads P Q (bind_eff (look g) f)"
  by (auto simp: leads_def bind_eff_def look_def)

lemma leads_pure: "(\<And>x. m = Inr x \<Longrightarrow> leads P Q (f x)) \<Longrightarrow> leads P Q (bind_eff (pure m) f)"
  by (cases m) (auto simp: leads_def bind_eff_def pure_def)

lemma leads_if: "(c \<Longrightarrow> leads P Q m) \<Longrightarrow> (\<not> c \<Longrightarrow> leads P Q n) \<Longrightarrow> leads P Q (if c then m else n)"
  by simp

lemma leads_Let: "leads P Q (f x) \<Longrightarrow> leads P Q (Let x f)"
  by (simp add: Let_def)

section \<open>Attempts always validate\<close>

lemma full_oid_length: "full_oid s \<Longrightarrow> oid_length s \<and> s \<noteq> []"
  by (auto simp: full_oid_def oid_length_def)

definition outcome_ok :: "failure_report + string \<Rightarrow> bool" where
  "outcome_ok outcome = (case outcome of Inl f \<Rightarrow> fr_type f = MERGE_CONFLICT | Inr c \<Rightarrow> full_oid c)"

lemma attempt_of_valid:
  assumes "text_between 128 t" "text_between 512 branch" "full_oid base" "full_oid commit" "full_oid previous" "outcome_ok outcome"
  shows "MergeQueueAttempt (attempt_of n t branch base commit previous outcome) =
    Inr (attempt_of n t branch base commit previous outcome)"
  using assms full_oid_length by (cases outcome)
    (simp_all add: MergeQueueAttempt_def attempt_of_def validate_outcome_consistency_def outcome_ok_def opt_all_def)

lemma branch_name_length: "text_between 512 (branch_name_for sha t)"
  by (auto simp: text_between_def branch_name_for_def slug_def Let_def)

lemma conflict_failure_total:
  "\<exists>f. merge_conflict_failure t head c ref marker out err = Inr f \<and> fr_type f = MERGE_CONFLICT"
proof -
  have sp: "\<not> is_space (CHR ''G'')" "\<not> is_space (CHR ''t'')" "\<not> is_space (CHR ''i'')" "\<not> is_space (CHR ''c'')" "\<not> is_space (CHR ''g'')"
    by code_simp+
  define raw where "raw = (let joined = lines_text (filter (\<lambda>s. s \<noteq> []) [strip out, strip err]) in
      if CONFLICT_EVIDENCE_LIMIT < length joined
      then take CONFLICT_EVIDENCE_LIMIT joined @ newline @ ''...[truncated]'' else joined)"
  let ?f = "\<lparr>fr_type = MERGE_CONFLICT, fr_source = F_RUNTIME,
         fr_message = ''Git reported a merge conflict while integrating the task commit.'', fr_retryable = False,
         fr_evidence = [''task_id='' @ t, ''integration_head='' @ head, ''task_commit='' @ c,
             ''conflict_ref='' @ ref, ''conflict_marker='' @ marker, ''git_merge_tree_exit_code=1''] @
           (if raw \<noteq> [] then [''git_merge_tree_output='' @ raw] else [])\<rparr>"
  have "merge_conflict_failure t head c ref marker out err = FailureReport ?f"
    by (simp only: merge_conflict_failure_def raw_def Let_def)
  also have "FailureReport ?f = Inr (?f\<lparr>fr_message := strip (fr_message ?f), fr_evidence := map strip (fr_evidence ?f)\<rparr>)"
    by (rule FailureReport_Inr) (auto simp: text_between_def strip_Cons_nonspace sp)
  finally show ?thesis by simp
qed

text \<open>What a validated worker result is known to have.\<close>

definition worker_ok :: "(string \<Rightarrow> string) \<Rightarrow> scheduler \<Rightarrow> worker_task_result \<Rightarrow> bool" where
  "worker_ok sha sched r =
     (require_task sched (wt_task r) = Inr task_schedule_state.SUCCEEDED \<and> text_between 128 (wt_task r) \<and>
      validate_task_id (wt_task r) = Inr (wt_task r) \<and>
      full_oid (text_or_empty (wt_base_commit r)) \<and> full_oid (text_or_empty (wt_commit r)) \<and>
      text_or_empty (wt_branch r) = branch_name_for sha (wt_task r))"

lemma in_world_Inr: "in_world m q = (Inr x, q') \<longleftrightarrow> (\<exists>w. m (mq_world q) = (Inr x, w) \<and> q' = q\<lparr>mq_world := w\<rparr>)"
  by (auto simp: in_world_def split: prod.splits)

lemma record_for_Inr:
  "record_for h sha wm t base w = (Inr r, w') \<Longrightarrow>
   tw_branch_name r = branch_name_for sha t \<and> tw_task_id r = t \<and> text_between 128 t \<and> validate_task_id t = Inr t"
  by (auto simp: record_for_def bind_eff_Inr validate_task_id_def text_between_def split: if_splits)
    (cases t, auto)+

lemma validate_worker_Inr:
  assumes "validate_worker_result h sha cfg sched r q = (Inr u, q')"
  shows "worker_ok sha sched r"
proof -
  let ?base = "text_or_empty (wt_base_commit r)"
  from assms obtain q1 q2 tw where "require_task sched (wt_task r) = Inr task_schedule_state.SUCCEEDED"
      "full_oid ?base" "full_oid (text_or_empty (wt_commit r))"
      "in_world (record_for h sha (mc_worktrees cfg) (wt_task r) (Some ?base)) q1 = (Inr tw, q2)"
      "text_or_empty (wt_branch r) = tw_branch_name tw"
    unfolding validate_worker_result_def Let_def bind_eff_Inr require_full_oid_def check_Inr pure_Inr by blast
  then show ?thesis by (auto simp: worker_ok_def in_world_Inr dest!: record_for_Inr)
qed

lemma leads_worker:
  assumes "blind P Q" "worker_ok sha sched r \<Longrightarrow> leads P Q (f ())"
  shows "leads P Q (bind_eff (validate_worker_result h sha cfg sched r) f)"
proof (cases "worker_ok sha sched r")
  case True
  with assms show ?thesis by (intro leads_bind validate_worker_same) (simp_all add: unit_eq)
next
  case False
  have "(\<exists>e. res = Inl e) \<and> same q q'"
    if run: "bind_eff (validate_worker_result h sha cfg sched r) f q = (res, q')" for q res q'
  proof -
    obtain v q1 where v: "validate_worker_result h sha cfg sched r q = (v, q1)" by fastforce
    with validate_worker_Inr False obtain e where "v = Inl e" by (cases v) blast+
    with run v keeps_sameD [OF validate_worker_same v] show ?thesis by (auto simp: bind_eff_def same_def)
  qed
  then show ?thesis by (auto simp: leads_def)
qed

section \<open>One integration\<close>

definition advanced ::
    "(string \<Rightarrow> string) \<Rightarrow> scheduler \<Rightarrow> worker_task_result \<Rightarrow> 'g merge_queue \<Rightarrow> 'g merge_queue \<Rightarrow> bool" where
  "advanced sha sched r q q' = (worker_ok sha sched r \<and> (\<exists>c w. full_oid c \<and>
     q' = q\<lparr>mq_head := c, mq_integrated := mq_integrated q @ [wt_task r],
       mq_attempts := mq_attempts q @ [attempt_of (length (mq_attempts q)) (wt_task r) (text_or_empty (wt_branch r))
         (text_or_empty (wt_base_commit r)) (text_or_empty (wt_commit r)) (mq_head q) (Inr c)], mq_world := w\<rparr>))"

definition conflicted ::
    "(string \<Rightarrow> string) \<Rightarrow> scheduler \<Rightarrow> worker_task_result \<Rightarrow> 'g merge_queue \<Rightarrow> 'g merge_queue \<Rightarrow> bool" where
  "conflicted sha sched r q q' = (worker_ok sha sched r \<and> (\<exists>f w. fr_type f = MERGE_CONFLICT \<and>
     q' = q\<lparr>mq_stopped := True,
       mq_attempts := mq_attempts q @ [attempt_of (length (mq_attempts q)) (wt_task r) (text_or_empty (wt_branch r))
         (text_or_empty (wt_base_commit r)) (text_or_empty (wt_commit r)) (mq_head q) (Inl f)], mq_world := w\<rparr>))"

definition step_outcome ::
    "(string \<Rightarrow> string) \<Rightarrow> scheduler \<Rightarrow> worker_task_result \<Rightarrow> 'g merge_queue \<Rightarrow> bool res \<Rightarrow> 'g merge_queue \<Rightarrow> bool" where
  "step_outcome sha sched r q res q' =
     (advanced sha sched r q q' \<and> res \<noteq> Inr False \<or> conflicted sha sched r q q' \<and> res \<noteq> Inr True)"

lemma step_outcome_blind: "(\<And>q w. P q \<Longrightarrow> P (q\<lparr>mq_world := w\<rparr>)) \<Longrightarrow> blind P (step_outcome sha sched r)"
  unfolding blind_def step_outcome_def advanced_def conflicted_def by (intro conjI allI impI) (assumption | fastforce)+

lemma append_attempt_run:
  assumes "text_between 128 t" "text_between 512 branch" "full_oid base" "full_oid commit" "full_oid previous" "outcome_ok outcome"
  shows "append_attempt t branch base commit previous outcome q =
    (Inr (), q\<lparr>mq_attempts := mq_attempts q @ [attempt_of (length (mq_attempts q)) t branch base commit previous outcome]\<rparr>)"
  by (simp add: append_attempt_def bind_eff_def look_def pure_def change_def attempt_of_valid [OF assms])

lemma bind_change: "bind_eff (change g) f q = f () (g q)"
  by (simp add: bind_eff_def change_def)

lemma finish_same: "keeps same m \<Longrightarrow> bind_eff m (\<lambda>_. ret b) q = (res, q') \<Longrightarrow> res \<noteq> Inr (\<not> b) \<and> (\<exists>w. q' = q\<lparr>mq_world := w\<rparr>)"
  by (cases "m q") (auto simp: bind_eff_def ret_def dest: keeps_sameD split: sum.splits)

lemma leads_conflict_tail:
  assumes "worker_ok sha sched r" "fr_type f = MERGE_CONFLICT" "full_oid head"
  shows "leads (\<lambda>q. mq_head q = head) (step_outcome sha sched r)
    (bind_eff (append_attempt (wt_task r) (text_or_empty (wt_branch r)) (text_or_empty (wt_base_commit r))
        (text_or_empty (wt_commit r)) head (Inl f)) (\<lambda>_.
      bind_eff (change (\<lambda>q. q\<lparr>mq_stopped := True\<rparr>)) (\<lambda>_.
      bind_eff (assert_ref_head h cfg) (\<lambda>_. bind_eff (assert_base_clean h cfg) (\<lambda>_. ret False)))))"
    (is "leads _ _ (bind_eff ?append ?rest)")
  unfolding leads_def
proof (intro allI impI)
  fix q res q' assume head: "mq_head q = head" and run: "bind_eff ?append ?rest q = (res, q')"
  let ?a = "attempt_of (length (mq_attempts q)) (wt_task r) (text_or_empty (wt_branch r)) (text_or_empty (wt_base_commit r))
    (text_or_empty (wt_commit r)) head (Inl f)"
  let ?q = "q\<lparr>mq_attempts := mq_attempts q @ [?a], mq_stopped := True\<rparr>"
  have "?append q = (Inr (), q\<lparr>mq_attempts := mq_attempts q @ [?a]\<rparr>)"
    using assms branch_name_length by (intro append_attempt_run) (auto simp: worker_ok_def outcome_ok_def)
  with run have "bind_eff (assert_ref_head h cfg) (\<lambda>_. bind_eff (assert_base_clean h cfg) (\<lambda>_. ret False)) ?q = (res, q')"
    by (simp add: bind_eff_def [of ?append] bind_change)
  moreover have "keeps same (bind_eff (assert_ref_head h cfg) (\<lambda>_. assert_base_clean h cfg))"
    by (intro keep_same same_rules)
  ultimately have "res \<noteq> Inr True \<and> (\<exists>w. q' = ?q\<lparr>mq_world := w\<rparr>)"
    using finish_same [of "bind_eff (assert_ref_head h cfg) (\<lambda>_. assert_base_clean h cfg)" False ?q res q']
    by (simp add: bind_eff_def split: prod.splits sum.splits)
  then obtain w where w: "res \<noteq> Inr True" "q' = ?q\<lparr>mq_world := w\<rparr>" by blast
  have "conflicted sha sched r q q'"
    unfolding conflicted_def using assms head w(2) by (intro conjI exI [of _ f] exI [of _ w]) simp_all
  with w(1) have "conflicted sha sched r q q' \<and> res \<noteq> Inr True" by simp
  then show "(\<exists>e. res = Inl e) \<and> same q q' \<or> step_outcome sha sched r q res q'" by (simp add: step_outcome_def)
qed

lemma leads_advance_tail:
  assumes "worker_ok sha sched r" "full_oid c" "full_oid head"
  shows "leads (\<lambda>q. mq_head q = head) (step_outcome sha sched r)
    (bind_eff (change (\<lambda>q. q\<lparr>mq_head := c, mq_integrated := mq_integrated q @ [wt_task r]\<rparr>)) (\<lambda>_.
      bind_eff (append_attempt (wt_task r) (text_or_empty (wt_branch r)) (text_or_empty (wt_base_commit r))
        (text_or_empty (wt_commit r)) head (Inr c)) (\<lambda>_.
      bind_eff (assert_base_clean h cfg) (\<lambda>_. ret True))))"
    (is "leads _ _ (bind_eff _ (\<lambda>_. bind_eff ?append ?rest))")
  unfolding leads_def bind_change
proof (intro allI impI)
  fix q q' :: "'a merge_queue" and res
  assume head: "mq_head q = head"
  let ?q1 = "q\<lparr>mq_head := c, mq_integrated := mq_integrated q @ [wt_task r]\<rparr>"
  assume run: "bind_eff ?append ?rest ?q1 = (res, q')"
  let ?a = "attempt_of (length (mq_attempts q)) (wt_task r) (text_or_empty (wt_branch r)) (text_or_empty (wt_base_commit r))
    (text_or_empty (wt_commit r)) head (Inr c)"
  let ?q = "?q1\<lparr>mq_attempts := mq_attempts q @ [?a]\<rparr>"
  have "?append ?q1 = (Inr (), ?q)"
    using assms branch_name_length append_attempt_run [of "wt_task r" "text_or_empty (wt_branch r)"
      "text_or_empty (wt_base_commit r)" "text_or_empty (wt_commit r)" head "Inr c" ?q1]
    by (auto simp: worker_ok_def outcome_ok_def)
  with run have "bind_eff (assert_base_clean h cfg) (\<lambda>_. ret True) ?q = (res, q')"
    by (simp add: bind_eff_def [of ?append])
  from finish_same [OF reading_same(9) this] obtain w where w: "res \<noteq> Inr False" "q' = ?q\<lparr>mq_world := w\<rparr>"
    by auto
  have "advanced sha sched r q q'"
    unfolding advanced_def using assms head w(2) by (intro conjI exI [of _ c] exI [of _ w]) simp_all
  with w(1) have "advanced sha sched r q q' \<and> res \<noteq> Inr False" by simp
  then show "(\<exists>e. res = Inl e) \<and> same q q' \<or> step_outcome sha sched r q res q'" by (simp add: step_outcome_def)
qed

lemma integrate_one_leads:
  "leads (\<lambda>q. full_oid (mq_head q)) (step_outcome sha sched r) (integrate_one h sha cfg sched r)"
proof -
  have blind: "blind (\<lambda>q. mq_head q = head) (step_outcome sha sched r)"
    "blind (\<lambda>q. full_oid (mq_head q)) (step_outcome sha sched r)"
    "blind (\<lambda>q. full_oid (mq_head q) \<and> mq_head q = head) (step_outcome sha sched r)" for head
    by (rule step_outcome_blind, auto)+
  have conflict: "leads (\<lambda>q. mq_head q = head) (step_outcome sha sched r) (record_conflict h cfg r head merge)"
    if "worker_ok sha sched r" "full_oid head" for head merge
    unfolding record_conflict_def Let_def
  proof (rule leads_bind [OF blind(1) marker_same], rule leads_pure)
    fix marker f assume "merge_conflict_failure (wt_task r) head (text_or_empty (wt_commit r)) (conflict_ref cfg) marker
        (cp_stdout merge) (cp_stderr merge) = Inr f"
    with conflict_failure_total [of "wt_task r" head "text_or_empty (wt_commit r)" "conflict_ref cfg" marker
        "cp_stdout merge" "cp_stderr merge"] have "fr_type f = MERGE_CONFLICT" by auto
    with that show "leads (\<lambda>q. mq_head q = head) (step_outcome sha sched r)
      (bind_eff (append_attempt (wt_task r) (text_or_empty (wt_branch r)) (text_or_empty (wt_base_commit r))
          (text_or_empty (wt_commit r)) head (Inl f)) (\<lambda>_.
        bind_eff (change (\<lambda>q. q\<lparr>mq_stopped := True\<rparr>)) (\<lambda>_.
        bind_eff (assert_ref_head h cfg) (\<lambda>_. bind_eff (assert_base_clean h cfg) (\<lambda>_. ret False)))))"
      by (intro leads_conflict_tail)
  qed
  have clean: "leads (\<lambda>q. mq_head q = head) (step_outcome sha sched r) (advance h cfg r head merge)"
    if "worker_ok sha sched r" "full_oid head" for head merge
    unfolding advance_def Let_def
    by (intro leads_advance_tail that | rule leads_oid leads_check | rule leads_bind [OF blind(1)] same_rules)+
  have weaken: "leads P Q m \<Longrightarrow> (\<And>q. P' q \<Longrightarrow> P q) \<Longrightarrow> leads P' Q m" for P P' Q m
    unfolding leads_def by blast
  show ?thesis
    unfolding integrate_one_def
  proof (rule leads_worker [OF blind(2)], rule leads_bind [OF blind(2) reading_same(7)], rule leads_look,
      rule leads_bind [OF blind(3) merge_git_same])
    fix head merge assume w: "worker_ok sha sched r"
    show "leads (\<lambda>q. full_oid (mq_head q) \<and> mq_head q = head) (step_outcome sha sched r)
      (if cp_returncode merge = 1 then record_conflict h cfg r head merge
       else bind_eff (check (cp_returncode merge = 0)
           (MergeQueueError ''git merge-tree failed before producing a trustworthy integration result''))
         (\<lambda>_. advance h cfg r head merge))"
    proof (cases "full_oid head")
      case True
      have "leads (\<lambda>q. full_oid (mq_head q) \<and> mq_head q = head) (step_outcome sha sched r) (record_conflict h cfg r head merge)"
        "leads (\<lambda>q. full_oid (mq_head q) \<and> mq_head q = head) (step_outcome sha sched r) (advance h cfg r head merge)"
        by (rule weaken [OF conflict [OF w True]] weaken [OF clean [OF w True]], blast)+
      then show ?thesis by (simp add: leads_check)
    next
      case False
      then show ?thesis by (auto simp: leads_def)
    qed
  qed
qed

section \<open>The record of the queue\<close>

text \<open>The heads that a list of integrations passes through.\<close>

fun chain :: "string \<Rightarrow> merge_queue_attempt list \<Rightarrow> string \<Rightarrow> bool" where
  "chain base [] head = (head = base)"
| "chain base (a # as) head = (ma_previous a = base \<and> ma_outcome a = M_INTEGRATED \<and>
     (\<exists>c. ma_integration_commit a = Some c \<and> c \<noteq> [] \<and> chain c as head))"

definition open_conflict :: "'g merge_queue \<Rightarrow> merge_queue_attempt list" where
  "open_conflict q = (if mq_stopped q then [last (mq_attempts q)] else [])"

text \<open>
  The attempts are the integrations, in a chain of commits from the base to the head, and after them the open
  conflict if the queue is stopped. The integrated tasks are distinct and each follows its dependencies.
\<close>

definition queue_inv :: "merge_config \<Rightarrow> task_dag \<Rightarrow> 'g merge_queue \<Rightarrow> bool" where
  "queue_inv cfg g q =
     (full_oid (mq_head q) \<and> distinct (mq_integrated q) \<and>
      map ma_sequence (mq_attempts q) = [0..<length (mq_attempts q)] \<and>
      (\<exists>merges. mq_attempts q = merges @ open_conflict q \<and> map ma_task merges = mq_integrated q \<and>
         chain (run_base cfg) merges (mq_head q)) \<and>
      (mq_stopped q \<longrightarrow> mq_attempts q \<noteq> [] \<and> ma_outcome (last (mq_attempts q)) = M_CONFLICT \<and>
         ma_previous (last (mq_attempts q)) = mq_head q \<and> ma_task (last (mq_attempts q)) \<notin> set (mq_integrated q)) \<and>
      (\<forall>i < length (mq_integrated q). deps_of g (mq_integrated q ! i) \<subseteq> set (take i (mq_integrated q))))"

lemma queue_inv_world [simp]: "queue_inv cfg g (q\<lparr>mq_world := w\<rparr>) = queue_inv cfg g q"
  by (simp add: queue_inv_def open_conflict_def)

lemma chain_append: "chain b (as @ [a]) h \<longleftrightarrow> (\<exists>m. chain b as m \<and> chain m [a] h)"
  by (induction as arbitrary: b) auto

lemma chain_merged: "chain b as h \<Longrightarrow> \<forall>a \<in> set as. ma_outcome a = M_INTEGRATED"
  by (induction as arbitrary: b) auto

lemma chain_fold: "chain b as h \<Longrightarrow> fold_res chain_attempt as b = Inr h"
  by (induction as arbitrary: b) (auto simp: chain_attempt_def merged_def)

lemma scan_steps:
  "ma_outcome a = M_INTEGRATED \<Longrightarrow> ma_task a \<notin> S \<Longrightarrow> scan_attempt a (S, None) = Inr (insert (ma_task a) S, None)"
  "ma_outcome a = M_CONFLICT \<Longrightarrow> ma_task a \<notin> S \<Longrightarrow> scan_attempt a (S, None) = Inr (S, Some a)"
  by (simp_all add: scan_attempt_def)

lemma scan_fold:
  assumes "\<forall>a \<in> set as. ma_outcome a = M_INTEGRATED" "distinct (map ma_task as)" "set (map ma_task as) \<inter> S = {}"
  shows "fold_res scan_attempt as (S, None) = Inr (S \<union> set (map ma_task as), None)"
  using assms
proof (induction as arbitrary: S)
  case (Cons a as)
  then have "fold_res scan_attempt as (insert (ma_task a) S, None) = Inr (insert (ma_task a) S \<union> set (map ma_task as), None)"
    by (intro Cons.IH) auto
  with Cons.prems show ?case by (simp add: scan_steps)
qed simp

text \<open>So the snapshot never fails to validate.\<close>

definition config_ok :: "merge_config \<Rightarrow> bool" where
  "config_ok cfg = (full_oid (run_base cfg) \<and> task_id_pattern (mc_integration_id cfg) \<and> length (mc_integration_id cfg) \<le> 128)"

lemma queue_snapshot_total:
  assumes "queue_inv cfg g q" "config_ok cfg"
  shows "queue_snapshot cfg q = Inr \<lparr>ms_integration_ref = integration_ref cfg, ms_run_base = run_base cfg,
    ms_head = mq_head q, ms_integrated = mq_integrated q, ms_attempts = mq_attempts q, ms_stopped = mq_stopped q\<rparr>"
proof -
  from assms(1) obtain merges where merges: "mq_attempts q = merges @ open_conflict q" "map ma_task merges = mq_integrated q"
      "chain (run_base cfg) merges (mq_head q)" and dist: "distinct (mq_integrated q)"
      "map ma_sequence (mq_attempts q) = [0..<length (mq_attempts q)]" "full_oid (mq_head q)"
    unfolding queue_inv_def by blast
  note integrated = chain_merged [OF merges(3)]
  have scan: "fold_res scan_attempt merges ({}, None) = Inr (set (mq_integrated q), None)"
    using scan_fold [OF integrated, of "{}"] merges(2) dist(1) by simp
  have filt: "filter merged merges = merges" using integrated by (auto simp: merged_def filter_id_conv)
  have base: "text_between 512 (integration_ref cfg)" "oid_length (run_base cfg)" "oid_length (mq_head q)"
    using assms(2) dist(3) full_oid_length by (auto simp: config_ok_def text_between_def integration_ref_def)
  show ?thesis
  proof (cases "mq_stopped q")
    case False
    with merges scan filt base dist chain_fold [OF merges(3)] show ?thesis
      by (simp add: queue_snapshot_def MergeQueueSnapshot_def open_conflict_def)
  next
    case True
    then have "mq_attempts q = merges @ [last (mq_attempts q)]"
      using merges(1) by (simp add: open_conflict_def)
    then obtain c where c: "mq_attempts q = merges @ [c]" by blast
    from assms(1) True have conf: "ma_outcome c = M_CONFLICT" "ma_previous c = mq_head q" "ma_task c \<notin> set (mq_integrated q)"
      by (auto simp: queue_inv_def c)
    have "fold_res scan_attempt (merges @ [c]) ({}, None) = Inr (set (mq_integrated q), Some c)"
      "fold_res chain_attempt (merges @ [c]) (run_base cfg) = Inr (mq_head q)"
      using scan chain_fold [OF merges(3)] conf
      by (simp_all add: fold_res_append scan_steps chain_attempt_def merged_def)
    with True c conf filt base dist merges show ?thesis
      by (simp add: queue_snapshot_def MergeQueueSnapshot_def merged_def)
  qed
qed

section \<open>Recording keeps the invariant\<close>

lemma deps_snoc:
  assumes "\<forall>i < length ts. deps_of g (ts ! i) \<subseteq> set (take i ts)" "deps_of g t \<subseteq> set ts"
  shows "\<forall>i < length (ts @ [t]). deps_of g ((ts @ [t]) ! i) \<subseteq> set (take i (ts @ [t]))"
  using assms by (auto simp: nth_append less_Suc_eq)

lemma chain_snoc:
  "chain b as m \<Longrightarrow> c \<noteq> [] \<Longrightarrow> chain b (as @ [attempt_of n t branch base commit m (Inr c)]) c"
  by (auto simp: chain_append attempt_of_def)

lemma sequence_snoc:
  "map ma_sequence as = [0..<length as] \<Longrightarrow>
   map ma_sequence (as @ [attempt_of (length as) t branch base commit m out]) =
   [0..<length (as @ [attempt_of (length as) t branch base commit m out])]"
  by (simp add: attempt_of_def)

lemma advanced_inv:
  assumes inv: "queue_inv cfg g q" "\<not> mq_stopped q" and adv: "advanced sha sched r q q'"
    and new: "wt_task r \<notin> set (mq_integrated q)" "deps_of g (wt_task r) \<subseteq> set (mq_integrated q)"
  shows "queue_inv cfg g q' \<and> \<not> mq_stopped q'"
proof -
  from adv obtain c w where c: "full_oid c" and q': "q' = q\<lparr>mq_head := c, mq_integrated := mq_integrated q @ [wt_task r],
       mq_attempts := mq_attempts q @ [attempt_of (length (mq_attempts q)) (wt_task r) (text_or_empty (wt_branch r))
         (text_or_empty (wt_base_commit r)) (text_or_empty (wt_commit r)) (mq_head q) (Inr c)], mq_world := w\<rparr>"
    unfolding advanced_def by blast
  from inv have ch: "chain (run_base cfg) (mq_attempts q) (mq_head q)" "map ma_task (mq_attempts q) = mq_integrated q"
    and rest: "distinct (mq_integrated q)" "map ma_sequence (mq_attempts q) = [0..<length (mq_attempts q)]"
      "\<forall>i < length (mq_integrated q). deps_of g (mq_integrated q ! i) \<subseteq> set (take i (mq_integrated q))"
    by (auto simp: queue_inv_def open_conflict_def)
  have "c \<noteq> []" using full_oid_length [OF c] by simp
  with ch(1) have "chain (run_base cfg) (mq_attempts q') (mq_head q')" by (simp add: q' chain_snoc)
  moreover have "map ma_task (mq_attempts q') = mq_integrated q'" using ch(2) by (simp add: q' attempt_of_def)
  moreover have "map ma_sequence (mq_attempts q') = [0..<length (mq_attempts q')]"
    using sequence_snoc [OF rest(2)] by (simp add: q')
  moreover have "\<forall>i < length (mq_integrated q'). deps_of g (mq_integrated q' ! i) \<subseteq> set (take i (mq_integrated q'))"
    using deps_snoc [OF rest(3) new(2)] by (simp add: q')
  ultimately show ?thesis
    using inv(2) new(1) rest(1) c by (auto simp: queue_inv_def open_conflict_def q')
qed

lemma conflict_inv:
  assumes inv: "queue_inv cfg g q" "\<not> mq_stopped q" and new: "t \<notin> set (mq_integrated q)"
    and q': "q' = q\<lparr>mq_stopped := True,
       mq_attempts := mq_attempts q @ [attempt_of (length (mq_attempts q)) t branch base commit (mq_head q) (Inl f)],
       mq_world := w\<rparr>"
  shows "queue_inv cfg g q'"
proof -
  from inv have ch: "chain (run_base cfg) (mq_attempts q) (mq_head q)" "map ma_task (mq_attempts q) = mq_integrated q"
    and rest: "distinct (mq_integrated q)" "map ma_sequence (mq_attempts q) = [0..<length (mq_attempts q)]" "full_oid (mq_head q)"
      "\<forall>i < length (mq_integrated q). deps_of g (mq_integrated q ! i) \<subseteq> set (take i (mq_integrated q))"
    by (auto simp: queue_inv_def open_conflict_def)
  have "map ma_sequence (mq_attempts q') = [0..<length (mq_attempts q')]"
    using sequence_snoc [OF rest(2)] by (simp add: q')
  with ch rest new show ?thesis
    by (auto simp: queue_inv_def open_conflict_def q' attempt_of_def)
qed

section \<open>Whole integrations\<close>

text \<open>What the first pass of \<open>integrate\<close> has established of the candidates, in their order.\<close>

fun cleared :: "(string \<Rightarrow> string) \<Rightarrow> scheduler \<Rightarrow> task_id list \<Rightarrow> worker_task_result list \<Rightarrow> task_id set \<Rightarrow> bool" where
  "cleared sha sched order [] S = True"
| "cleared sha sched order (r # rs) S =
     (worker_ok sha sched r \<and> wt_task r \<notin> S \<and> deps_of (dag sched) (wt_task r) \<subseteq> S \<and>
      (\<forall>e \<in> set (take (index_of order (wt_task r)) order). e \<in> S \<or> states sched e \<in> Some ` TERMINAL_NON_SUCCESS) \<and>
      cleared sha sched order rs (insert (wt_task r) S))"

lemma require_task_Inr: "require_task s t = Inr st \<longleftrightarrow> states s t = Some st"
  by (auto simp: require_task_def split: option.splits)

lemma each_Inr:
  assumes "each f xs q = (Inr u, q')" "x \<in> set xs"
  shows "\<exists>q1 v q2. f x q1 = (Inr v, q2)"
  using assms by (induction xs arbitrary: q) (auto simp: bind_eff_Inr)

lemma gate_Inr:
  assumes "assert_global_topological_gate sched t S q = (Inr u, q')"
    and "e \<in> set (take (index_of (mq_order q) t) (mq_order q))"
  shows "e \<in> S \<or> states sched e \<in> Some ` TERMINAL_NON_SUCCESS"
proof -
  from assms(1) have "each (\<lambda>earlier. if earlier \<in> S then ret ()
       else bind_eff (pure (require_task sched earlier)) (\<lambda>state.
         check (state \<in> TERMINAL_NON_SUCCESS) (MergeQueueError ''cannot integrate before earlier topological task'')))
       (take (index_of (mq_order q) t) (mq_order q)) q = (Inr u, q')"
    by (auto simp: assert_global_topological_gate_def bind_eff_def look_def)
  from each_Inr [OF this assms(2)] show ?thesis
    by (auto simp: bind_eff_Inr require_task_Inr split: if_splits)
qed

lemma validate_candidates_Inr:
  assumes "validate_candidates h sha cfg sched rs S q = (Inr u, q')"
  shows "cleared sha sched (mq_order q) rs S"
  using assms
proof (induction rs arbitrary: S q)
  case (Cons r rs)
  from Cons.prems obtain q1 q2 node where steps:
      "validate_worker_result h sha cfg sched r q = (Inr (), q1)" "wt_task r \<notin> S"
      "dag_node (dag sched) (wt_task r) = Inr node" "set (depends_on node) \<subseteq> S"
      "assert_global_topological_gate sched (wt_task r) S q1 = (Inr (), q2)"
      "validate_candidates h sha cfg sched rs (insert (wt_task r) S) q2 = (Inr u, q')"
    by (auto simp: bind_eff_Inr)
  have order: "mq_order q1 = mq_order q" "mq_order q2 = mq_order q"
    using keeps_sameD [OF validate_worker_same steps(1)] keeps_sameD [OF gate_same steps(5)] by auto
  have "deps_of (dag sched) (wt_task r) \<subseteq> S"
    using steps(3,4) by (auto simp: dag_node_def deps_of_def split: option.splits)
  moreover have "cleared sha sched (mq_order q) rs (insert (wt_task r) S)"
    using Cons.IH [OF steps(6)] order by simp
  ultimately show ?case
    using validate_worker_Inr [OF steps(1)] steps(2) gate_Inr [OF steps(5)] order by auto
qed simp

text \<open>The order of the graph, for a queue that has seen every integration itself.\<close>

definition order_inv :: "scheduler \<Rightarrow> 'g merge_queue \<Rightarrow> bool" where
  "order_inv sched q =
     (set (mq_integrated q) \<subseteq> set (mq_order q) \<and> sorted_wrt (<) (map (index_of (mq_order q)) (mq_integrated q)) \<and>
      (\<forall>t \<in> set (mq_integrated q). states sched t = Some task_schedule_state.SUCCEEDED \<and>
        (\<forall>e \<in> set (take (index_of (mq_order q) t) (mq_order q)).
           e \<in> set (mq_integrated q) \<or> states sched e \<in> Some ` TERMINAL_NON_SUCCESS)))"

lemma order_inv_world [simp]: "order_inv sched (q\<lparr>mq_world := w\<rparr>) = order_inv sched q"
  by (simp add: order_inv_def)

lemma order_inv_snoc:
  assumes inv: "order_inv sched q" and dist: "distinct (mq_order q)" and t: "t \<in> set (mq_order q)" "t \<notin> set (mq_integrated q)"
    and st: "states sched t = Some task_schedule_state.SUCCEEDED"
    and gate: "\<forall>e \<in> set (take (index_of (mq_order q) t) (mq_order q)).
       e \<in> set (mq_integrated q) \<or> states sched e \<in> Some ` TERMINAL_NON_SUCCESS"
    and q': "mq_order q' = mq_order q" "mq_integrated q' = mq_integrated q @ [t]"
  shows "order_inv sched q'"
proof -
  have "index_of (mq_order q) u < index_of (mq_order q) t" if u: "u \<in> set (mq_integrated q)" for u
  proof (rule ccontr)
    assume "\<not> index_of (mq_order q) u < index_of (mq_order q) t"
    moreover have "u \<in> set (mq_order q)" using inv u by (auto simp: order_inv_def)
    moreover have "u \<noteq> t" using u t(2) by auto
    ultimately have "index_of (mq_order q) t < index_of (mq_order q) u" using t(1) index_of_inj by (metis not_less_iff_gr_or_eq)
    then have "t \<in> set (take (index_of (mq_order q) u) (mq_order q))" using t(1) dist by (simp add: in_set_take_index)
    with inv u t(2) have "states sched t \<in> Some ` TERMINAL_NON_SUCCESS" by (auto simp: order_inv_def)
    with st show False by (auto simp: TERMINAL_NON_SUCCESS_def)
  qed
  with inv t(1) st gate show ?thesis by (auto simp: order_inv_def q' sorted_wrt_append)
qed

text \<open>What an integration that the queue made itself records.\<close>

definition attempt_ok :: "(string \<Rightarrow> string) \<Rightarrow> merge_queue_attempt \<Rightarrow> bool" where
  "attempt_ok sha a = (validate_task_id (ma_task a) = Inr (ma_task a) \<and> ma_branch a = branch_name_for sha (ma_task a) \<and>
     full_oid (ma_base a) \<and> full_oid (ma_commit a) \<and> full_oid (ma_previous a) \<and>
     (\<exists>c. full_oid c \<and> a = attempt_of (ma_sequence a) (ma_task a) (ma_branch a) (ma_base a) (ma_commit a) (ma_previous a) (Inr c)))"

definition fields_inv :: "(string \<Rightarrow> string) \<Rightarrow> 'g merge_queue \<Rightarrow> bool" where
  "fields_inv sha q = (\<forall>a \<in> set (mq_attempts q). ma_outcome a = M_INTEGRATED \<longrightarrow> attempt_ok sha a)"

lemma fields_inv_world [simp]: "fields_inv sha (q\<lparr>mq_world := w\<rparr>) = fields_inv sha q"
  by (simp add: fields_inv_def)

lemma advanced_fields: "advanced sha sched r q q' \<Longrightarrow> full_oid (mq_head q) \<Longrightarrow> fields_inv sha q \<Longrightarrow> fields_inv sha q'"
proof -
  assume adv: "advanced sha sched r q q'" and head: "full_oid (mq_head q)" and inv: "fields_inv sha q"
  have "attempt_ok sha a" if a: "a \<in> set (mq_attempts q')" "ma_outcome a = M_INTEGRATED" for a
  proof (cases "a \<in> set (mq_attempts q)")
    case True
    then show ?thesis using inv a(2) by (simp add: fields_inv_def)
  next
    case False
    then show ?thesis using adv a(1) head by (auto simp: advanced_def attempt_ok_def worker_ok_def attempt_of_def)
  qed
  then show ?thesis by (simp add: fields_inv_def)
qed

lemma no_merge_fields:
  assumes inv: "queue_inv cfg g q" and none: "mq_integrated q = []"
  shows "fields_inv sha q"
proof -
  have "a = last (mq_attempts q) \<and> mq_stopped q" if "a \<in> set (mq_attempts q)" for a
    using inv none that unfolding queue_inv_def open_conflict_def
    by (metis append_Nil list.map_disc_iff list.set_cases list.distinct(1) set_ConsD empty_iff list.set(1))
  with inv show ?thesis by (fastforce simp: fields_inv_def queue_inv_def)
qed

text \<open>Everything together, between two calls.\<close>

definition merge_inv :: "merge_config \<Rightarrow> scheduler \<Rightarrow> 'g merge_queue \<Rightarrow> bool" where
  "merge_inv cfg sched q = (queue_inv cfg (dag sched) q \<and> mq_order q = topo (dag sched) \<and>
     set (mq_integrated q) \<subseteq> set (mq_order q))"

lemma merge_inv_world [simp]: "merge_inv cfg sched (q\<lparr>mq_world := w\<rparr>) = merge_inv cfg sched q"
  by (simp add: merge_inv_def)

lemma integrate_one_inv:
  assumes inv: "merge_inv cfg sched q" "\<not> mq_stopped q" "distinct (mq_order q)"
    and clear: "cleared sha sched (mq_order q) (r # rs) (set (mq_integrated q))" "wt_task r \<in> set (mq_order q)"
    and run: "integrate_one h sha cfg sched r q = (res, q')"
  shows "merge_inv cfg sched q' \<and> (order_inv sched q \<longrightarrow> order_inv sched q') \<and>
    (fields_inv sha q \<longrightarrow> fields_inv sha q') \<and> mq_order q' = mq_order q \<and>
    (res = Inr True \<longrightarrow> \<not> mq_stopped q' \<and> mq_integrated q' = mq_integrated q @ [wt_task r])"
proof -
  have head: "full_oid (mq_head q)" using inv(1) by (simp add: merge_inv_def queue_inv_def)
  consider (raised) e where "res = Inl e" "same q q'" | (advanced) "advanced sha sched r q q'" "res \<noteq> Inr False"
    | (conflict) "conflicted sha sched r q q'" "res \<noteq> Inr True"
    using integrate_one_leads [of sha sched r h cfg] head run unfolding leads_def step_outcome_def by blast
  then show ?thesis
  proof cases
    case raised
    then show ?thesis using inv by (auto simp: same_def)
  next
    case advanced
    then have q': "mq_order q' = mq_order q" "mq_integrated q' = mq_integrated q @ [wt_task r]"
      by (auto simp: advanced_def)
    have "queue_inv cfg (dag sched) q' \<and> \<not> mq_stopped q'"
      by (rule advanced_inv [OF _ inv(2) advanced(1)]) (use inv(1) clear in \<open>auto simp: merge_inv_def\<close>)
    moreover have "order_inv sched q'" if "order_inv sched q"
      by (rule order_inv_snoc [OF that inv(3) clear(2) _ _ _ q'])
        (use clear in \<open>auto simp: worker_ok_def require_task_Inr\<close>)
    ultimately show ?thesis using inv(1) clear q' advanced_fields [OF advanced(1) head] by (auto simp: merge_inv_def)
  next
    case conflict
    then obtain f w where q': "q' = q\<lparr>mq_stopped := True,
       mq_attempts := mq_attempts q @ [attempt_of (length (mq_attempts q)) (wt_task r) (text_or_empty (wt_branch r))
         (text_or_empty (wt_base_commit r)) (text_or_empty (wt_commit r)) (mq_head q) (Inl f)], mq_world := w\<rparr>"
      unfolding conflicted_def by blast
    have "queue_inv cfg (dag sched) q'"
      by (rule conflict_inv [OF _ inv(2) _ q']) (use inv(1) clear in \<open>auto simp: merge_inv_def\<close>)
    with inv(1) conflict(2) show ?thesis by (auto simp: merge_inv_def order_inv_def fields_inv_def attempt_of_def q')
  qed
qed

lemma integrate_all_inv:
  assumes "merge_inv cfg sched q" "\<not> mq_stopped q" "distinct (mq_order q)"
    and "cleared sha sched (mq_order q) rs (set (mq_integrated q))" "set (map wt_task rs) \<subseteq> set (mq_order q)"
    and "integrate_all h sha cfg sched rs q = (res, q')"
  shows "merge_inv cfg sched q' \<and> (order_inv sched q \<longrightarrow> order_inv sched q') \<and> (fields_inv sha q \<longrightarrow> fields_inv sha q')"
  using assms
proof (induction rs arbitrary: q)
  case Nil
  then show ?case by (simp add: ret_def)
next
  case (Cons r rs)
  obtain v q1 where one: "integrate_one h sha cfg sched r q = (v, q1)" by fastforce
  have member: "wt_task r \<in> set (mq_order q)" using Cons.prems(5) by simp
  note step = integrate_one_inv [OF Cons.prems(1-4) member one]
  show ?case
  proof (cases "v = Inr True")
    case True
    with Cons.prems(6) one have "integrate_all h sha cfg sched rs q1 = (res, q')" by (simp add: bind_eff_def)
    with step True Cons.prems Cons.IH [of q1] show ?thesis by simp
  next
    case False
    with Cons.prems(6) one have "q' = q1" by (cases v) (auto simp: bind_eff_def ret_def)
    with step show ?thesis by simp
  qed
qed

definition merge_safe :: "(string \<Rightarrow> string) \<Rightarrow> merge_config \<Rightarrow> scheduler \<Rightarrow> bool \<Rightarrow> 'g merge_queue \<Rightarrow> bool" where
  "merge_safe sha cfg sched fresh q = (merge_inv cfg sched q \<and> (fresh \<longrightarrow> order_inv sched q \<and> fields_inv sha q))"

lemma integrate_inv:
  assumes "dag_valid (dag sched)" and inv: "merge_safe sha cfg sched fresh q" and run: "integrate h sha cfg sched rs q = (res, q')"
  shows "merge_safe sha cfg sched fresh q'"
proof -
  have dist: "distinct (topo (dag sched))" using dag.order_distinct [OF assms(1)] .
  define first where "first = (bind_eff (look mq_stopped) (\<lambda>stopped.
     bind_eff (check (\<not> stopped) (MergeQueueError ''merge queue is stopped after an unresolved integration conflict'')) (\<lambda>_.
     bind_eff (base_clean h cfg (MergeQueueError ''base workspace became dirty before integration'')) (\<lambda>_.
     assert_ref_head h cfg))))"
  define second where "second ordered = (bind_eff (look (\<lambda>q. set (mq_integrated q)))
     (validate_candidates h sha cfg sched ordered))" for ordered
  define ordered where "ordered = sort_key (\<lambda>r. index_of (mq_order q) (wt_task r)) rs"
  have keep: "keeps same first" "keeps same (second ordered)"
    unfolding first_def second_def by (intro keep_same same_rules)+
  obtain v q1 where v: "first q = (v, q1)" by fastforce
  obtain w1 where q1: "q1 = q\<lparr>mq_world := w1\<rparr>" using keeps_sameD [OF keep(1) v] by blast
  obtain u q2 where u: "second ordered q1 = (u, q2)" by fastforce
  obtain w2 where q2: "q2 = q\<lparr>mq_world := w2\<rparr>" using keeps_sameD [OF keep(2) u] q1 by auto
  obtain x q3 where x: "integrate_all h sha cfg sched ordered q2 = (x, q3)" by fastforce
  have live: "\<not> mq_stopped q" if "v = Inr ()" using v that by (auto simp: first_def bind_eff_Inr)
  have known: "set (map wt_task ordered) = set (map wt_task rs)" by (simp add: ordered_def)
  have clear: "cleared sha sched (mq_order q) ordered (set (mq_integrated q))" if "u = Inr ()"
  proof -
    have "validate_candidates h sha cfg sched ordered (set (mq_integrated q1)) q1 = (Inr (), q2)"
      using u that by (simp add: second_def bind_eff_def look_def)
    from validate_candidates_Inr [OF this] show ?thesis by (simp add: q1)
  qed
  have "q' = q1 \<or> q' = q2 \<or> v = Inr () \<and> u = Inr () \<and> set (map wt_task rs) \<subseteq> set (mq_order q) \<and> q' = q3"
    using run v u x unfolding integrate_def first_def second_def ordered_def q1
    by (auto simp: bind_eff_def look_def check_def ret_def raise_def pure_def Let_def split: prod.splits sum.splits if_splits)
  moreover have "merge_safe sha cfg sched fresh q3"
    if "v = Inr ()" "u = Inr ()" "set (map wt_task rs) \<subseteq> set (mq_order q)"
  proof -
    from inv have m: "merge_inv cfg sched q" "fresh \<longrightarrow> order_inv sched q \<and> fields_inv sha q" by (simp_all add: merge_safe_def)
    then have "distinct (mq_order q)" using dist by (simp add: merge_inv_def)
    with integrate_all_inv [of cfg sched q2 sha ordered h x q3] m live [OF that(1)] clear [OF that(2)] known that(3) x
    show ?thesis by (simp add: q2 merge_safe_def)
  qed
  ultimately show ?thesis using inv q1 q2 by (auto simp: merge_safe_def)
qed

section \<open>Opening a queue\<close>

text \<open>A history that has been read so far: the record of a queue whose head is the last commit read.\<close>

definition history_inv :: "merge_config \<Rightarrow> scheduler \<Rightarrow> string \<times> int \<Rightarrow> 'g merge_queue \<Rightarrow> bool" where
  "history_inv cfg sched progress q =
     (\<not> mq_stopped q \<and> mq_order q = topo (dag sched) \<and> set (mq_integrated q) \<subseteq> set (mq_order q) \<and>
      distinct (mq_integrated q) \<and> map ma_sequence (mq_attempts q) = [0..<length (mq_attempts q)] \<and>
      map ma_task (mq_attempts q) = mq_integrated q \<and> chain (run_base cfg) (mq_attempts q) (fst progress) \<and>
      (\<forall>i < length (mq_integrated q). deps_of (dag sched) (mq_integrated q ! i) \<subseteq> set (take i (mq_integrated q))))"

lemma history_inv_world [simp]: "history_inv cfg sched p (q\<lparr>mq_world := w\<rparr>) = history_inv cfg sched p q"
  by (simp add: history_inv_def)

definition history_step ::
    "scheduler \<Rightarrow> string \<times> int \<Rightarrow> 'g merge_queue \<Rightarrow> (string \<times> int) res \<Rightarrow> 'g merge_queue \<Rightarrow> bool" where
  "history_step sched progress q res q' = (\<exists>t branch base commit c n w. res = Inr (c, n) \<and> c \<noteq> [] \<and>
     t \<in> set (mq_order q) \<and> t \<notin> set (mq_integrated q) \<and> deps_of (dag sched) t \<subseteq> set (mq_integrated q) \<and>
     q' = q\<lparr>mq_integrated := mq_integrated q @ [t],
       mq_attempts := mq_attempts q @ [attempt_of (length (mq_attempts q)) t branch base commit (fst progress) (Inr c)],
       mq_world := w\<rparr>)"

lemma history_step_inv:
  assumes "history_inv cfg sched progress q" "history_step sched progress q (Inr progress') q'"
  shows "history_inv cfg sched progress' q'"
proof -
  from assms(2) obtain t branch base commit c n w where step: "progress' = (c, n)" "c \<noteq> []"
     "t \<in> set (mq_order q)" "t \<notin> set (mq_integrated q)" "deps_of (dag sched) t \<subseteq> set (mq_integrated q)"
     and q': "q' = q\<lparr>mq_integrated := mq_integrated q @ [t],
       mq_attempts := mq_attempts q @ [attempt_of (length (mq_attempts q)) t branch base commit (fst progress) (Inr c)],
       mq_world := w\<rparr>"
    unfolding history_step_def by blast
  from assms(1) have inv: "chain (run_base cfg) (mq_attempts q) (fst progress)"
      "map ma_sequence (mq_attempts q) = [0..<length (mq_attempts q)]"
      "\<forall>i < length (mq_integrated q). deps_of (dag sched) (mq_integrated q ! i) \<subseteq> set (take i (mq_integrated q))"
    by (auto simp: history_inv_def)
  have "map ma_sequence (mq_attempts q') = [0..<length (mq_attempts q')]"
    using sequence_snoc [OF inv(2)] by (simp add: q')
  moreover have "\<forall>i < length (mq_integrated q'). deps_of (dag sched) (mq_integrated q' ! i) \<subseteq> set (take i (mq_integrated q'))"
    using deps_snoc [OF inv(3) step(5)] by (simp add: q')
  moreover have "chain (run_base cfg) (mq_attempts q') c" using inv(1) step(2) by (simp add: q' chain_snoc)
  ultimately show ?thesis using assms(1) step by (auto simp: history_inv_def q' attempt_of_def)
qed

lemma append_attempt_cases:
  assumes "append_attempt t branch base commit previous out q = (v, q1)"
  shows "(\<exists>e. v = Inl e) \<and> q1 = q \<or> v = Inr () \<and> MergeQueueAttempt (attempt_of (length (mq_attempts q)) t branch base commit previous out)
      = Inr (attempt_of (length (mq_attempts q)) t branch base commit previous out) \<and>
    q1 = q\<lparr>mq_attempts := mq_attempts q @ [attempt_of (length (mq_attempts q)) t branch base commit previous out]\<rparr>"
proof -
  have id: "b = a" if "MergeQueueAttempt a = Inr b" for a b
    using that unfolding MergeQueueAttempt_def validate_outcome_consistency_def Let_def
    by (simp split: if_splits merge_attempt_outcome.splits)
  show ?thesis
    using assms by (cases "MergeQueueAttempt (attempt_of (length (mq_attempts q)) t branch base commit previous out)")
      (auto simp: append_attempt_def bind_eff_def look_def pure_def change_def dest: id)
qed

lemma attempt_commit_nonempty: "MergeQueueAttempt (attempt_of n t branch base commit previous (Inr c)) = Inr a \<Longrightarrow> c \<noteq> []"
  by (auto simp: MergeQueueAttempt_def attempt_of_def oid_length_def opt_all_def split: if_splits)

lemma leads_history_tail:
  assumes "t \<in> set order" "t \<notin> recovered" "deps_of (dag sched) t \<subseteq> recovered"
  shows "leads (\<lambda>q. mq_order q = order \<and> set (mq_integrated q) = recovered) (history_step sched (previous, n))
    (bind_eff (append_attempt t branch base commit previous (Inr c)) (\<lambda>_.
     bind_eff (change (\<lambda>q. q\<lparr>mq_integrated := mq_integrated q @ [t]\<rparr>)) (\<lambda>_. ret (c, m))))"
    (is "leads _ _ (bind_eff ?append ?rest)")
  unfolding leads_def
proof (intro allI impI)
  fix q q' :: "'a merge_queue" and res
  assume P: "mq_order q = order \<and> set (mq_integrated q) = recovered" and run: "bind_eff ?append ?rest q = (res, q')"
  obtain v q1 where v: "?append q = (v, q1)" by fastforce
  from append_attempt_cases [OF v] show "(\<exists>e. res = Inl e) \<and> same q q' \<or> history_step sched (previous, n) q res q'"
  proof (elim disjE conjE exE)
    fix e assume "v = Inl e" "q1 = q"
    with run v show ?thesis by (auto simp: bind_eff_def)
  next
    let ?a = "attempt_of (length (mq_attempts q)) t branch base commit previous (Inr c)"
    assume q1: "v = Inr ()" "MergeQueueAttempt ?a = Inr ?a" "q1 = q\<lparr>mq_attempts := mq_attempts q @ [?a]\<rparr>"
    with run v have "res = Inr (c, m)" "q' = q\<lparr>mq_integrated := mq_integrated q @ [t],
        mq_attempts := mq_attempts q @ [?a], mq_world := mq_world q\<rparr>"
      by (auto simp: bind_eff_def change_def ret_def)
    with P assms attempt_commit_nonempty [OF q1(2)] have "history_step sched (previous, n) q res q'"
      unfolding history_step_def
      by (intro exI [of _ t] exI [of _ branch] exI [of _ base] exI [of _ commit] exI [of _ c] exI [of _ m]
          exI [of _ "mq_world q"]) simp
    then show ?thesis ..
  qed
qed

lemma recover_commit_leads:
  "leads (\<lambda>q. True) (history_step sched progress) (recover_commit h sha cfg sched commit progress)"
proof -
  obtain previous last_index where progress: "progress = (previous, last_index)" by fastforce
  have blind: "blind P (history_step sched (previous, last_index))"
    if "\<And>q w. P q \<Longrightarrow> P (q\<lparr>mq_world := w\<rparr>)" for P :: "'a merge_queue \<Rightarrow> bool"
    using that unfolding blind_def history_step_def by (intro conjI allI impI) (assumption | fastforce)+
  have deps: "deps_of (dag sched) t \<subseteq> S" if "dag_node (dag sched) t = Inr node" "set (depends_on node) \<subseteq> S" for t node S
    using that by (auto simp: dag_node_def deps_of_def split: option.splits)
  have weaken: "leads P Q m \<Longrightarrow> (\<And>q. P' q \<Longrightarrow> P q) \<Longrightarrow> leads P' Q m"
    for P P' :: "'a merge_queue \<Rightarrow> bool" and Q and m :: "('a merge_queue, string \<times> int) effect"
    unfolding leads_def by blast
  show ?thesis
    unfolding progress recover_commit_def prod.case Let_def
    apply (rule leads_bind [OF blind same_rules(5)], simp)
    apply (rule leads_check)
    apply (rule leads_bind [OF blind messages_same(1)], simp)
    apply (rule leads_look, rule leads_check, rule leads_look, rule leads_check, rule leads_check, rule leads_check)
    apply (rule leads_bind [OF blind keeps_in_world], simp)
    apply (rule leads_check)
    apply (rule leads_bind [OF blind same_rules(5)], simp)
    apply (rule leads_check, rule leads_pure, rule leads_check)
    apply (rule leads_bind [OF blind verify_same], simp)
    apply (rule weaken, rule leads_history_tail)
    apply (assumption | rule deps | simp)+
    done
qed

lemma recover_commits_inv:
  "recover_commits h sha cfg sched cs progress q = (Inr reached, q') \<Longrightarrow> history_inv cfg sched progress q \<Longrightarrow>
   history_inv cfg sched (reached, 0) q'"
proof (induction cs arbitrary: progress q)
  case Nil
  then show ?case by (auto simp: history_inv_def)
next
  case (Cons c cs)
  then obtain p1 q1 where one: "recover_commit h sha cfg sched c progress q = (Inr p1, q1)"
    "recover_commits h sha cfg sched cs p1 q1 = (Inr reached, q')" by (auto simp: bind_eff_Inr)
  have "history_step sched progress q (Inr p1) q1"
    using recover_commit_leads [of sched progress h sha cfg c] one(1) unfolding leads_def by blast
  with Cons one show ?case by (blast intro: history_step_inv)
qed

lemma resolve_commit_Inr:
  "resolve_commit h cfg ref q = (Inr c, q') \<Longrightarrow> full_oid c \<and> (\<exists>w. q' = q\<lparr>mq_world := w\<rparr>)"
  by (auto simp: resolve_commit_def resolve_object_def bind_eff_Inr dest: keeps_sameD [OF merge_git_same])

lemma history_start:
  assumes "mq_attempts q = []" "mq_integrated q = []" "\<not> mq_stopped q" "mq_order q = topo (dag sched)"
  shows "history_inv cfg sched (run_base cfg, n) q"
  using assms by (simp add: history_inv_def)

lemma history_inv_same: "same q q' \<Longrightarrow> history_inv cfg sched p q' = history_inv cfg sched p q"
  by (auto simp: same_def)

lemma initialize_queue_inv:
  assumes run: "initialize_or_recover_ref h sha cfg sched q = (Inr head, q')"
    and start: "\<And>n. history_inv cfg sched (run_base cfg, n) q" and base: "full_oid (run_base cfg)"
  shows "history_inv cfg sched (head, 0) q' \<and> full_oid head"
proof -
  obtain code q1 where code: "ref_present h cfg (integration_ref cfg) q = (Inr code, q1)"
    using run unfolding initialize_or_recover_ref_def bind_eff_Inr by blast
  then have q1: "\<And>n. history_inv cfg sched (run_base cfg, n) q1"
    using keeps_sameD [OF reading_same(6) code] start by auto
  show ?thesis
  proof (cases "code = 1")
    case True
    then obtain p where p: "merge_git h cfg False [''update-ref'', integration_ref cfg, run_base cfg, zero_oid (run_base cfg)] q1
        = (Inr p, q')" and head: "head = run_base cfg"
      using run code unfolding initialize_or_recover_ref_def by (auto simp: bind_eff_Inr)
    from keeps_sameD [OF merge_git_same p] q1 base head show ?thesis by auto
  next
    case False
    then obtain q2 p q3 where steps: "resolve_commit h cfg (integration_ref cfg) q1 = (Inr head, q2)"
        "merge_git h cfg False (is_ancestor (run_base cfg) head) q2 = (Inr p, q3)"
        "recover_successful_history h sha cfg sched head q3 = (Inr (), q')"
      using run code unfolding initialize_or_recover_ref_def by (auto simp: bind_eff_Inr)
    have full: "full_oid head" and q2: "\<exists>w. q2 = q1\<lparr>mq_world := w\<rparr>" using resolve_commit_Inr [OF steps(1)] by auto
    with keeps_sameD [OF merge_git_same steps(2)] q1 have q3: "\<And>n. history_inv cfg sched (run_base cfg, n) q3" by auto
    show ?thesis
    proof (cases "head = run_base cfg")
      case True
      with steps(3) q3 full show ?thesis by (simp add: recover_successful_history_def)
    next
      case False
      then obtain out q4 where out: "merge_git h cfg True [''rev-list'', ''--first-parent'', ''--reverse'', run_base cfg @ ''..'' @ head] q3
            = (Inr out, q4)"
          and rec: "recover_commits h sha cfg sched (filter (\<lambda>l. l \<noteq> []) (splitlines (cp_stdout out))) (run_base cfg, -1) q4
            = (Inr head, q')"
        using steps(3) unfolding recover_successful_history_def by (auto simp: bind_eff_Inr)
      from keeps_sameD [OF merge_git_same out] q3 have "history_inv cfg sched (run_base cfg, -1) q4" by auto
      from recover_commits_inv [OF rec this] full show ?thesis by simp
    qed
  qed
qed

text \<open>The marker of an open conflict.\<close>

definition marker_step :: "'g merge_queue \<Rightarrow> unit res \<Rightarrow> 'g merge_queue \<Rightarrow> bool" where
  "marker_step q res q' = (same q q' \<or> (\<exists>t branch base commit f w. t \<notin> set (mq_integrated q) \<and>
     q' = q\<lparr>mq_stopped := True,
       mq_attempts := mq_attempts q @ [attempt_of (length (mq_attempts q)) t branch base commit (mq_head q) (Inl f)],
       mq_world := w\<rparr>))"

lemma leads_marker_tail:
  assumes "t \<notin> integrated"
  shows "leads (\<lambda>q. mq_head q = head \<and> set (mq_integrated q) = integrated) marker_step
    (bind_eff (append_attempt t branch base commit head (Inl f)) (\<lambda>_. change (\<lambda>q. q\<lparr>mq_stopped := True\<rparr>)))"
    (is "leads _ _ (bind_eff ?append ?rest)")
  unfolding leads_def
proof (intro allI impI)
  fix q q' :: "'a merge_queue" and res
  assume P: "mq_head q = head \<and> set (mq_integrated q) = integrated" and run: "bind_eff ?append ?rest q = (res, q')"
  obtain v q1 where v: "?append q = (v, q1)" by fastforce
  from append_attempt_cases [OF v] have "marker_step q res q'"
  proof (elim disjE conjE exE)
    fix e assume "v = Inl e" "q1 = q"
    with run v show ?thesis by (auto simp: bind_eff_def marker_step_def)
  next
    let ?a = "attempt_of (length (mq_attempts q)) t branch base commit head (Inl f)"
    assume q1: "v = Inr ()" "q1 = q\<lparr>mq_attempts := mq_attempts q @ [?a]\<rparr>"
    with run v have "q' = q\<lparr>mq_stopped := True, mq_attempts := mq_attempts q @ [?a], mq_world := mq_world q\<rparr>"
      by (auto simp: bind_eff_def change_def)
    with P assms show ?thesis unfolding marker_step_def
      by (intro disjI2 exI [of _ t] exI [of _ branch] exI [of _ base] exI [of _ commit] exI [of _ f] exI [of _ "mq_world q"]) simp
  qed
  then show "(\<exists>e. res = Inl e) \<and> same q q' \<or> marker_step q res q'" ..
qed

lemma recover_marker_leads: "leads (\<lambda>q. True) marker_step (recover_conflict_marker h sha cfg sched)"
proof -
  have blind: "blind P marker_step"
    if "\<And>q w. P q \<Longrightarrow> P (q\<lparr>mq_world := w\<rparr>)" for P :: "'a merge_queue \<Rightarrow> bool"
    using that unfolding blind_def marker_step_def same_def by (intro conjI allI impI) (assumption | fastforce)+
  have still: "leads P marker_step (ret ())" for P :: "'a merge_queue \<Rightarrow> bool"
    by (auto simp: leads_def ret_def marker_step_def)
  have tail: "leads P marker_step (bind_eff (append_attempt t branch base commit head (Inl f)) (\<lambda>_. change (\<lambda>q. q\<lparr>mq_stopped := True\<rparr>)))"
    if "\<And>q. P q \<Longrightarrow> mq_head q = head \<and> t \<notin> set (mq_integrated q)"
    for P :: "'a merge_queue \<Rightarrow> bool" and t branch base commit head f
  proof -
    have "leads (\<lambda>q. mq_head q = head \<and> set (mq_integrated q) = S) marker_step
        (bind_eff (append_attempt t branch base commit head (Inl f)) (\<lambda>_. change (\<lambda>q. q\<lparr>mq_stopped := True\<rparr>)))" if "t \<notin> S" for S
      by (rule leads_marker_tail [OF that])
    with that show ?thesis unfolding leads_def by blast
  qed
  show ?thesis
    unfolding recover_conflict_marker_def Let_def
    apply (rule leads_bind [OF blind reading_same(6)], simp)
    apply (rule leads_if, rule still)
    apply (rule leads_check)
    apply (rule leads_bind [OF blind reading_same(2)], simp)
    apply (rule leads_look)
    apply (rule leads_bind [OF blind reading_same(4)], simp)
    apply (rule leads_check)
    apply (rule leads_bind [OF blind reading_same(3)], simp)
    apply (rule leads_bind [OF blind reading_same(3)], simp)
    apply (rule leads_check)
    apply (rule leads_bind [OF blind messages_same(2)], simp)
    apply (rule leads_check, rule leads_look, rule leads_check)
    apply (rule leads_bind [OF blind keeps_in_world], simp)
    apply (rule leads_check)
    apply (rule leads_bind [OF blind reading_same(4)], simp)
    apply (rule leads_check, rule leads_pure, rule leads_look, rule leads_check)
    apply (rule leads_bind [OF blind gate_same], simp)
    apply (rule leads_bind [OF blind merge_git_same], simp)
    apply (rule leads_check, rule leads_pure)
    apply (rule tail)
    apply auto
    done
qed

lemma open_inv:
  assumes run: "TopologicalMergeQueue h sha cfg sched w = (Inr q, w')" and valid: "dag_valid (dag sched)"
    and base: "full_oid (run_base cfg)"
  shows "merge_inv cfg sched q \<and> config_ok cfg"
proof -
  let ?q0 = "\<lparr>mq_order = [], mq_attempts = [], mq_integrated = [], mq_stopped = False, mq_head = [], mq_world = w\<rparr>"
  have steps: "open_steps h sha cfg sched ?q0 = (Inr (), q)"
    using run unfolding TopologicalMergeQueue_def by (auto split: prod.splits sum.splits)
  then obtain q1 q2 q3 q4 q5 c head where id: "task_id_pattern (mc_integration_id cfg)" "length (mc_integration_id cfg) \<le> 128"
      and clean: "base_clean h cfg (MergeQueueError ''base workspace must be clean before integration starts'') ?q0 = (Inr (), q1)"
      and rb: "resolve_commit h cfg (run_base cfg) (q1\<lparr>mq_order := topo (dag sched)\<rparr>) = (Inr c, q2)"
      and names: "validate_ref_name h cfg (integration_ref cfg) q2 = (Inr (), q3)"
        "validate_ref_name h cfg (conflict_ref cfg) q3 = (Inr (), q4)"
      and init: "initialize_or_recover_ref h sha cfg sched q4 = (Inr head, q5)"
      and marker: "recover_conflict_marker h sha cfg sched (q5\<lparr>mq_head := head\<rparr>) = (Inr (), q)"
    unfolding open_steps_def by (auto simp: bind_eff_Inr dag_valid_topo(1) [OF valid])
  have "\<exists>w4. q4 = ?q0\<lparr>mq_order := topo (dag sched), mq_world := w4\<rparr>"
    using keeps_sameD [OF reading_same(8) clean] resolve_commit_Inr [OF rb] keeps_sameD [OF reading_same(11) names(1)]
      keeps_sameD [OF reading_same(11) names(2)] by auto
  then have start: "history_inv cfg sched (run_base cfg, n) q4" for n by (auto intro!: history_start)
  have h5: "history_inv cfg sched (head, 0) q5" "full_oid head" using initialize_queue_inv [OF init start base] by auto
  let ?q5 = "q5\<lparr>mq_head := head\<rparr>"
  have inv5: "merge_inv cfg sched ?q5" "\<not> mq_stopped ?q5"
    using h5 by (auto simp: merge_inv_def queue_inv_def history_inv_def open_conflict_def)
  have "marker_step ?q5 (Inr ()) q"
    using recover_marker_leads [of h sha cfg sched] marker unfolding leads_def by blast
  then have "merge_inv cfg sched q"
    unfolding marker_step_def
  proof (elim disjE exE conjE)
    assume "same ?q5 q"
    with inv5 show ?thesis by (auto simp: same_def merge_inv_def)
  next
    fix t branch bs commit f w6
    assume new: "t \<notin> set (mq_integrated ?q5)" and q: "q = ?q5\<lparr>mq_stopped := True,
       mq_attempts := mq_attempts ?q5 @ [attempt_of (length (mq_attempts ?q5)) t branch bs commit (mq_head ?q5) (Inl f)],
       mq_world := w6\<rparr>"
    have "queue_inv cfg (dag sched) q"
      by (rule conflict_inv [OF _ inv5(2) new q]) (use inv5(1) in \<open>simp add: merge_inv_def\<close>)
    with inv5(1) show ?thesis by (auto simp: merge_inv_def q)
  qed
  with id base show ?thesis by (simp add: config_ok_def)
qed

section \<open>The queue beside its scheduler\<close>

text \<open>A terminal state of a task is final.\<close>

definition frozen :: "scheduler \<Rightarrow> scheduler \<Rightarrow> bool" where
  "frozen s s' = (\<forall>t st. states s t = Some st \<longrightarrow> st \<in> TERMINAL_STATES \<longrightarrow> states s' t = Some st)"

lemma frozen_trans: "frozen s t \<Longrightarrow> frozen t u \<Longrightarrow> frozen s u"
  by (simp add: frozen_def)

lemma frozen_refl [simp]: "frozen s s"
  by (simp add: frozen_def)

lemma transition_frozen: "transition s t n d = Inr s' \<Longrightarrow> frozen s s'"
  by (erule transition_Inr) (auto simp: frozen_def TERMINAL_STATES_def)

lemma fold_frozen:
  assumes "fold_res f xs s = Inr s'" and "\<And>x s s'. f x s = Inr s' \<Longrightarrow> frozen s s'"
  shows "frozen s s'"
  by (rule fold_res_invariant [OF assms(1), where P = "frozen s"])
    (use assms(2) frozen_trans in \<open>auto simp: frozen_def\<close>)

lemma sched_step_frozen:
  assumes "sched_step s s'"
  shows "frozen s s'"
  using assms
proof (cases rule: sched_step.cases)
  case (step_start t)
  then show ?thesis by (auto simp: sched_start_def bind_res_eq_Inr dest: transition_frozen)
next
  case (step_succeed t)
  then obtain s1 ready where "frozen s s1"
    and f: "fold_res (move_from PENDING READY (''Dependencies satisfied after '' @ t @ '' succeeded.'')) ready s1 = Inr s'"
    by (auto simp: sched_succeed_def refresh_ready_def bind_res_eq_Inr dest: transition_frozen)
  moreover have "frozen s1 s'"
    by (rule fold_frozen [OF f]) (auto simp: move_from_def split: if_splits dest: transition_frozen)
  ultimately show ?thesis using frozen_trans by blast
next
  case (step_fail t)
  then obtain s1 order B where "frozen s s1" and f: "fold_res (block_task B) order s1 = Inr s'"
    by (auto simp: sched_fail_def bind_res_eq_Inr dest: transition_frozen)
  moreover have "frozen s1 s'"
    by (rule fold_frozen [OF f]) (auto simp: block_task_def split: if_splits dest: transition_frozen)
  ultimately show ?thesis using frozen_trans by blast
qed

text \<open>
  The scheduler moves on, results are integrated, bases are handed out, and other processes do to the repository
  whatever they like.
\<close>

inductive merge_init ::
    "'g host \<Rightarrow> (string \<Rightarrow> string) \<Rightarrow> merge_config \<Rightarrow> bool \<Rightarrow> scheduler \<times> 'g merge_queue \<Rightarrow> bool" for h sha cfg where
  opened: "reachable sched_init sched_step s \<Longrightarrow>
    TaskWorktreeManager h base_root worktree_root frozen_base w0 = (Inr (mc_worktrees cfg), w1) \<Longrightarrow>
    TopologicalMergeQueue h sha cfg s w = (Inr q, w') \<Longrightarrow> fresh \<longrightarrow> mq_integrated q = [] \<Longrightarrow>
    merge_init h sha cfg fresh (s, q)"

inductive merge_step ::
    "'g host \<Rightarrow> (string \<Rightarrow> string) \<Rightarrow> merge_config \<Rightarrow> scheduler \<times> 'g merge_queue \<Rightarrow> scheduler \<times> 'g merge_queue \<Rightarrow> bool"
    for h sha cfg where
  scheduled: "sched_step s s' \<Longrightarrow> merge_step h sha cfg (s, q) (s', q)"
| called: "integrate h sha cfg s results q = (res, q') \<Longrightarrow> merge_step h sha cfg (s, q) (s, q')"
| asked: "base_commit_for h cfg s t q = (base, q') \<Longrightarrow> merge_step h sha cfg (s, q) (s, q')"
| outside: "merge_step h sha cfg (s, q) (s, q\<lparr>mq_world := w\<rparr>)"

definition system_inv :: "(string \<Rightarrow> string) \<Rightarrow> merge_config \<Rightarrow> bool \<Rightarrow> scheduler \<times> 'g merge_queue \<Rightarrow> bool" where
  "system_inv sha cfg fresh x = (sched_inv (fst x) \<and> config_ok cfg \<and> merge_safe sha cfg (fst x) fresh (snd x))"

lemma freeze_base_oid:
  "freeze_base_commit h dir head req w = (Inr c, w') \<Longrightarrow> full_oid head \<Longrightarrow> full_oid c"
  by (auto simp: freeze_base_commit_def Let_def bind_eff_Inr split: option.splits if_splits)

lemma manager_base_oid: "TaskWorktreeManager h dir wroot frozen_base w = (Inr wm, w') \<Longrightarrow> full_oid (wm_base_commit wm)"
  by (auto simp: TaskWorktreeManager_def Let_def bind_eff_Inr dest: freeze_base_oid)

lemma base_commit_for_same: "keeps same (base_commit_for h cfg s t)"
  unfolding base_commit_for_def by (intro keep_same keeps_if same_rules)

lemma frozen_order_inv: "frozen s s' \<Longrightarrow> order_inv s q \<Longrightarrow> order_inv s' q"
proof -
  assume f: "frozen s s'" and inv: "order_inv s q"
  have "states s' t = Some st" if "states s t = Some st" "st \<in> insert task_schedule_state.SUCCEEDED TERMINAL_NON_SUCCESS" for t st
    using f that by (auto simp: frozen_def TERMINAL_STATES_def TERMINAL_NON_SUCCESS_def)
  with inv show "order_inv s' q" unfolding order_inv_def by blast
qed

interpretation merge: transition_system "merge_init h sha cfg fresh" "merge_step h sha cfg" "system_inv sha cfg fresh"
  for h :: "'g host" and sha cfg fresh
proof unfold_locales
  fix x :: "scheduler \<times> 'g merge_queue" assume "merge_init h sha cfg fresh x"
  then show "system_inv sha cfg fresh x"
  proof cases
    case (opened s base_root worktree_root frozen_base w0 w1 w q w')
    then have s: "sched_inv s" by (simp add: sched.reach_inv)
    have "full_oid (run_base cfg)" unfolding run_base_def by (rule manager_base_oid [OF opened(3)])
    with open_inv [OF opened(4)] s have "merge_inv cfg s q" "config_ok cfg" by (simp_all add: sched_inv_def)
    moreover have "fields_inv sha q" if "fresh"
      using no_merge_fields \<open>merge_inv cfg s q\<close> opened(5) that by (auto simp: merge_inv_def)
    ultimately show ?thesis using opened s by (auto simp: system_inv_def merge_safe_def order_inv_def)
  qed
next
  fix x y :: "scheduler \<times> 'g merge_queue" assume inv: "system_inv sha cfg fresh x" and "merge_step h sha cfg x y"
  from this(2) show "system_inv sha cfg fresh y"
  proof cases
    case (scheduled s s' q)
    then have "sched_inv s' \<and> dag s' = dag s" using inv sched_step_inv [of s s'] by (simp add: system_inv_def)
    with inv scheduled frozen_order_inv [OF sched_step_frozen [OF scheduled(3)]] show ?thesis
      by (auto simp: system_inv_def merge_safe_def merge_inv_def)
  next
    case (called s results q res q')
    then show ?thesis using inv integrate_inv [of s sha cfg fresh q h results res q']
      by (simp add: system_inv_def sched_inv_def)
  next
    case (asked s t q base q')
    then show ?thesis using inv keeps_sameD [OF base_commit_for_same asked(3)]
      by (auto simp: system_inv_def merge_safe_def)
  next
    case (outside s q w)
    then show ?thesis using inv by (simp add: system_inv_def merge_safe_def)
  qed
qed

text \<open>C7. The merge queue is sound, for any Git, any interference and any results handed to it. In every reachable
  state, also after an operation that raised and after a recovery from an existing ref: a snapshot can be taken
  (the records form one chain of commits from the frozen base to the head, and the queue is stopped exactly
  when its last attempt is an unresolved conflict), no task is integrated twice, and every task is
  integrated after all its dependencies. A queue that started without history has moreover integrated in the
  topological order, only tasks the scheduler has as SUCCEEDED, and every earlier task it passed over is
  FAILED or BLOCKED.\<close>

theorem merge_queue_sound:
  assumes "reachable (merge_init h sha cfg fresh) (merge_step h sha cfg) (s, q)"
  shows "is_ok (queue_snapshot cfg q) \<and> distinct (mq_integrated q) \<and>
    (\<forall>i < length (mq_integrated q). deps_of (dag s) (mq_integrated q ! i) \<subseteq> set (take i (mq_integrated q))) \<and>
    (fresh \<longrightarrow> sorted_wrt (<) (map (index_of (topo (dag s))) (mq_integrated q)) \<and>
       (\<forall>t \<in> set (mq_integrated q). states s t = Some task_schedule_state.SUCCEEDED \<and>
         (\<forall>e \<in> set (take (index_of (topo (dag s)) t) (topo (dag s))).
            e \<in> set (mq_integrated q) \<or> states s e \<in> {Some task_schedule_state.FAILED, Some task_schedule_state.BLOCKED})))"
proof -
  from merge.reach_inv [OF assms] have inv: "config_ok cfg" "merge_inv cfg s q" "fresh \<longrightarrow> order_inv s q"
    by (simp_all add: system_inv_def merge_safe_def)
  then have "is_ok (queue_snapshot cfg q)" using queue_snapshot_total [of cfg "dag s" q] by (simp add: merge_inv_def)
  moreover have "distinct (mq_integrated q)"
      "\<forall>i < length (mq_integrated q). deps_of (dag s) (mq_integrated q ! i) \<subseteq> set (take i (mq_integrated q))"
    using inv(2) by (simp_all add: merge_inv_def queue_inv_def)
  moreover have "mq_order q = topo (dag s)" using inv(2) by (simp add: merge_inv_def)
  ultimately show ?thesis using inv(3) unfolding order_inv_def TERMINAL_NON_SUCCESS_def by auto
qed

section \<open>A concrete repository\<close>

text \<open>
  A small Git: refs, and commits with a tree, parents and a message. Merges are always clean and give the same tree.
  A commit id is its number, padded to 40 digits.
\<close>

record demo_repository =
  dg_refs :: "(string \<times> string) list"
  dg_commits :: "(string \<times> string \<times> string list \<times> string) list"

definition demo_oid :: "nat \<Rightarrow> string" where
  "demo_oid n = replicate 39 (CHR ''a'') @ [char_of (48 + n)]"

definition demo_tree :: string where
  "demo_tree = replicate 40 (CHR ''e'')"

definition demo_lookup :: "demo_repository \<Rightarrow> string \<Rightarrow> string option" where
  "demo_lookup g name = (case map_of (dg_refs g) name of Some c \<Rightarrow> Some c
     | None \<Rightarrow> if map_of (dg_commits g) name = None then None else Some name)"

definition demo_answer :: "string option \<Rightarrow> process" where
  "demo_answer out = (case out of None \<Rightarrow> Completed 1 [] [] | Some s \<Rightarrow> Completed 0 (s @ newline) [])"

definition demo_update :: "string \<Rightarrow> string \<Rightarrow> string \<Rightarrow> demo_repository \<Rightarrow> process \<times> demo_repository" where
  "demo_update ref new_oid old g =
     (if map_of (dg_refs g) ref = (if old = zero_oid new_oid then None else Some old)
      then (Completed 0 [] [], g\<lparr>dg_refs := (ref, new_oid) # filter (\<lambda>(r, _). r \<noteq> ref) (dg_refs g)\<rparr>)
      else (Completed 1 [] [], g))"

definition demo_git_commit :: "string \<Rightarrow> string list \<Rightarrow> string \<Rightarrow> demo_repository \<Rightarrow> process \<times> demo_repository" where
  "demo_git_commit tree parents message g = (let c = demo_oid (length (dg_commits g)) in
     (demo_answer (Some c), g\<lparr>dg_commits := dg_commits g @ [(c, tree, parents, message)]\<rparr>))"

fun demo_first_parents :: "nat \<Rightarrow> demo_repository \<Rightarrow> string \<Rightarrow> string \<Rightarrow> string list" where
  "demo_first_parents 0 g base c = []"
| "demo_first_parents (Suc n) g base c =
     (if c = base then [] else case map_of (dg_commits g) c of
        Some (_, p # _, _) \<Rightarrow> demo_first_parents n g base p @ [c] | _ \<Rightarrow> [c])"

definition demo_rev_parse :: "demo_repository \<Rightarrow> string \<Rightarrow> string option" where
  "demo_rev_parse g spec =
     (let name = takeWhile (\<lambda>c. c \<noteq> CHR ''^'') spec; kind = drop (length name) spec;
          oid = demo_lookup g (if name = ''HEAD'' then demo_oid 0 else name) in
      if kind = ''^{tree}'' then map_option (\<lambda>c. fst (the (map_of (dg_commits g) c))) oid else oid)"

definition demo_git :: "string list \<Rightarrow> demo_repository \<Rightarrow> process \<times> demo_repository" where
  "demo_git args g =
     (let cmd = args ! 0 in
      if cmd = ''rev-parse'' then (demo_answer (demo_rev_parse g (args ! 2)), g)
      else if cmd = ''show-ref'' then (Completed (if map_of (dg_refs g) (args ! 3) = None then 1 else 0) [] [], g)
      else if cmd = ''update-ref''
      then (if args ! 1 = ''-m'' then demo_update (args ! 3) (args ! 4) (args ! 5) g
            else demo_update (args ! 1) (args ! 2) (args ! 3) g)
      else if cmd = ''commit-tree''
      then (if args ! 4 = ''-m'' then demo_git_commit (args ! 1) [args ! 3] (args ! 5) g
            else demo_git_commit (args ! 1) [args ! 3, args ! 5] (args ! 7) g)
      else if cmd = ''merge-tree'' then (demo_answer (Some demo_tree), g)
      else if cmd = ''rev-list'' \<and> args ! 1 = ''--parents''
      then (demo_answer (map_option (\<lambda>(_, ps, _). join_with '' '' (args ! 4 # ps)) (map_of (dg_commits g) (args ! 4))), g)
      else if cmd = ''rev-list''
      then (demo_answer (Some (lines_text (demo_first_parents (Suc (length (dg_commits g))) g
             (take 40 (args ! 3)) (drop 42 (args ! 3))))), g)
      else if cmd = ''show'' then (demo_answer (map_option (\<lambda>(_, _, m). m) (map_of (dg_commits g) (args ! 3))), g)
      else (Completed 0 [] [], g))"

definition demo_host :: "demo_repository host" where
  "demo_host = \<lparr>run_git = (\<lambda>_. demo_git), h_resolve = (\<lambda>p _. p), h_exists = (\<lambda>_ _. True), h_is_dir = (\<lambda>_ _. True),
     h_is_symlink = (\<lambda>_ _. False), h_mkdir = (\<lambda>_ w. (Inr (), w))\<rparr>"

definition merge_sha :: "string \<Rightarrow> string" where
  "merge_sha s = replicate 64 (CHR ''0'')"

definition demo_branch :: "task_id \<Rightarrow> string" where
  "demo_branch t = branch_name_for merge_sha t"

text \<open>Commit 0 is the base; commits 1 and 2 are those of the tasks \<open>a\<close> and \<open>b\<close>.\<close>

definition demo_repo :: demo_repository where
  "demo_repo = \<lparr>dg_refs = [(''refs/heads/'' @ demo_branch ''a'', demo_oid 1)],
     dg_commits = [(demo_oid 0, demo_tree, [], ''base''), (demo_oid 1, demo_tree, [demo_oid 0], ''a'')]\<rparr>"

definition demo_merge_config :: merge_config where
  "demo_merge_config = \<lparr>mc_worktrees = \<lparr>wm_base_root = ''/r'', wm_root = ''/w'', wm_base_commit = demo_oid 0\<rparr>,
     mc_integration_id = ''x''\<rparr>"

definition demo_worker :: worker_task_result where
  "demo_worker = \<lparr>wt_task = ''a'', wt_state = task_schedule_state.SUCCEEDED, wt_worktree_path = Some (''/w/a-'' @ replicate 12 (CHR ''0'')),
     wt_branch = Some (demo_branch ''a''), wt_base_commit = Some (demo_oid 0), wt_commit = Some (demo_oid 1),
     wt_run_result = None, wt_failures = [], wt_duration_ms = 1\<rparr>"

lemma demo_manager:
  "\<exists>w. TaskWorktreeManager demo_host ''/r'' ''/w'' None demo_repo = (Inr (mc_worktrees demo_merge_config), w)"
proof -
  have "fst (TaskWorktreeManager demo_host ''/r'' ''/w'' None demo_repo) = Inr (mc_worktrees demo_merge_config)"
    by code_simp
  then show ?thesis by (metis prod.collapse)
qed

text \<open>The scheduler of the sample graph after task \<open>a\<close> has succeeded.\<close>

definition demo_a_done :: "scheduler res" where
  "demo_a_done = bind_res (DAGScheduler demo_dag) (\<lambda>s0. bind_res (sched_start s0 ''a'') (\<lambda>s1. sched_succeed s1 ''a''))"

text \<open>The queue of the sample graph at a head, after some integrations, and the repository with its integration ref.\<close>

definition demo_order :: "task_id list" where
  "demo_order = [''a'', ''b'', ''c'', ''d'', ''e'']"

definition demo_world :: "string option \<Rightarrow> (string \<times> string \<times> string list \<times> string) list \<Rightarrow> demo_repository" where
  "demo_world head extra = \<lparr>dg_refs = (case head of None \<Rightarrow> [] | Some c \<Rightarrow> [(''refs/devflow/integration/x'', c)]) @ dg_refs demo_repo,
     dg_commits = dg_commits demo_repo @ extra\<rparr>"

definition demo_merge_commit :: "string \<times> string \<times> string list \<times> string" where
  "demo_merge_commit = (demo_oid 2, demo_tree, [demo_oid 0, demo_oid 1],
     integration_message ''a'' (demo_branch ''a'') (demo_oid 0) (demo_oid 1))"

definition demo_queue ::
    "task_id list \<Rightarrow> string \<Rightarrow> merge_queue_attempt list \<Rightarrow> demo_repository \<Rightarrow> demo_repository merge_queue" where
  "demo_queue order head as w = \<lparr>mq_order = order, mq_attempts = as, mq_integrated = map ma_task as,
     mq_stopped = False, mq_head = head, mq_world = w\<rparr>"

definition demo_attempt :: merge_queue_attempt where
  "demo_attempt = attempt_of 0 ''a'' (demo_branch ''a'') (demo_oid 0) (demo_oid 1) (demo_oid 0) (Inr (demo_oid 2))"

lemma demo_queue_sel [simp]:
  "mq_order (demo_queue order head as w) = order" "mq_head (demo_queue order head as w) = head"
  "mq_attempts (demo_queue order head as w) = as" "mq_integrated (demo_queue order head as w) = map ma_task as"
  "mq_stopped (demo_queue order head as w) = False" "mq_world (demo_queue order head as w) = w"
  "(demo_queue order head as w)\<lparr>mq_world := w'\<rparr> = demo_queue order head as w'"
  "(demo_queue order head as w)\<lparr>mq_order := order'\<rparr> = demo_queue order' head as w"
  "(demo_queue order head as w)\<lparr>mq_head := head'\<rparr> = demo_queue order head' as w"
  by (simp_all add: demo_queue_def)

lemma demo_base_clean:
  "base_clean demo_host demo_merge_config e (demo_queue order head as w) = (Inr (), demo_queue order head as w)"
  by (simp add: base_clean_def in_world_def changed_files_def demo_host_def untracked_def workspace_git_def
      workspace_git_completed_def git_process_def bind_eff_def check_def ret_def demo_git_def split_nul_def demo_queue_def)

lemma demo_oids:
  "strip (demo_oid 2 @ newline) = demo_oid 2" "full_oid (demo_oid 2)" "full_oid (demo_oid 1)" "full_oid (demo_oid 0)"
  "demo_oid 0 \<noteq> []" "demo_oid 1 \<noteq> []" "demo_branch ''a'' \<noteq> []" "text_between 512 (demo_branch ''a'')" "text_between 128 ''a''"
  by code_simp+

lemma demo_open_git:
  "resolve_commit demo_host demo_merge_config (run_base demo_merge_config) (demo_queue demo_order [] [] (demo_world None [])) =
   (Inr (demo_oid 0), demo_queue demo_order [] [] (demo_world None []))"
  "validate_ref_name demo_host demo_merge_config (integration_ref demo_merge_config) (demo_queue demo_order [] [] (demo_world None [])) =
   (Inr (), demo_queue demo_order [] [] (demo_world None []))"
  "validate_ref_name demo_host demo_merge_config (conflict_ref demo_merge_config) (demo_queue demo_order [] [] (demo_world None [])) =
   (Inr (), demo_queue demo_order [] [] (demo_world None []))"
  "initialize_or_recover_ref demo_host merge_sha demo_merge_config s (demo_queue demo_order [] [] (demo_world None [])) =
   (Inr (demo_oid 0), demo_queue demo_order [] [] (demo_world (Some (demo_oid 0)) []))"
  "recover_conflict_marker demo_host merge_sha demo_merge_config s (demo_queue demo_order (demo_oid 0) [] (demo_world (Some (demo_oid 0)) [])) =
   (Inr (), demo_queue demo_order (demo_oid 0) [] (demo_world (Some (demo_oid 0)) []))"
  by code_simp+

lemma demo_opens:
  assumes "dag s = demo_dag"
  shows "TopologicalMergeQueue demo_host merge_sha demo_merge_config s (demo_world None []) =
    (Inr (demo_queue demo_order (demo_oid 0) [] (demo_world (Some (demo_oid 0)) [])), demo_world (Some (demo_oid 0)) [])"
proof -
  have id: "task_id_pattern (mc_integration_id demo_merge_config) \<and> length (mc_integration_id demo_merge_config) \<le> 128"
    by code_simp
  have q0: "\<lparr>mq_order = [], mq_attempts = [], mq_integrated = [], mq_stopped = False, mq_head = [], mq_world = demo_world None []\<rparr> =
      demo_queue [] [] [] (demo_world None [])" by (simp add: demo_queue_def)
  have "open_steps demo_host merge_sha demo_merge_config s (demo_queue [] [] [] (demo_world None [])) =
      (Inr (), demo_queue demo_order (demo_oid 0) [] (demo_world (Some (demo_oid 0)) []))"
    by (simp add: open_steps_def bind_eff_def check_def ret_def pure_def change_def id demo_base_clean assms demo_dag_topo
        demo_open_git flip: demo_order_def)
  then show ?thesis by (simp add: TopologicalMergeQueue_def q0)
qed

abbreviation (input) demo_q :: "demo_repository \<Rightarrow> demo_repository merge_queue" where
  "demo_q w \<equiv> demo_queue demo_order (demo_oid 0) [] w"

lemma demo_worker_git:
  "resolve_commit demo_host demo_merge_config (integration_ref demo_merge_config) (demo_q (demo_world (Some (demo_oid 0)) [])) =
   (Inr (demo_oid 0), demo_q (demo_world (Some (demo_oid 0)) []))"
  "record_for demo_host merge_sha (mc_worktrees demo_merge_config) ''a'' (Some (demo_oid 0)) (demo_world (Some (demo_oid 0)) []) =
   (Inr \<lparr>tw_task_id = ''a'', tw_base_commit = demo_oid 0, tw_branch_name = demo_branch ''a'',
     tw_path = ''/w/a-'' @ replicate 12 (CHR ''0'')\<rparr>, demo_world (Some (demo_oid 0)) [])"
  "resolve_commit demo_host demo_merge_config (''refs/heads/'' @ demo_branch ''a'') (demo_q (demo_world (Some (demo_oid 0)) [])) =
   (Inr (demo_oid 1), demo_q (demo_world (Some (demo_oid 0)) []))"
  "commit_parents demo_host demo_merge_config (demo_oid 1) (demo_q (demo_world (Some (demo_oid 0)) [])) =
   (Inr [demo_oid 0], demo_q (demo_world (Some (demo_oid 0)) []))"
  by code_simp+

lemma demo_merge_git:
  "merge_git demo_host demo_merge_config False (merge_tree (demo_oid 0) (demo_oid 1)) (demo_q (demo_world (Some (demo_oid 0)) [])) =
   (Inr \<lparr>cp_returncode = 0, cp_stdout = demo_tree @ newline, cp_stderr = []\<rparr>, demo_q (demo_world (Some (demo_oid 0)) []))"
  "first_oid_line (demo_tree @ newline) (demo_q (demo_world (Some (demo_oid 0)) [])) =
   (Inr demo_tree, demo_q (demo_world (Some (demo_oid 0)) []))"
  "merge_git demo_host demo_merge_config True [''commit-tree'', demo_tree, ''-p'', demo_oid 0, ''-p'', demo_oid 1, ''-m'',
      integration_message ''a'' (demo_branch ''a'') (demo_oid 0) (demo_oid 1)] (demo_q (demo_world (Some (demo_oid 0)) [])) =
   (Inr \<lparr>cp_returncode = 0, cp_stdout = demo_oid 2 @ newline, cp_stderr = []\<rparr>,
    demo_q (demo_world (Some (demo_oid 0)) [demo_merge_commit]))"
  "merge_git demo_host demo_merge_config False [''update-ref'', ''-m'', ''DevFlow integrate '' @ ''a'',
      integration_ref demo_merge_config, demo_oid 2, demo_oid 0] (demo_q (demo_world (Some (demo_oid 0)) [demo_merge_commit])) =
   (Inr \<lparr>cp_returncode = 0, cp_stdout = [], cp_stderr = []\<rparr>, demo_q (demo_world (Some (demo_oid 2)) [demo_merge_commit]))"
  "resolve_commit demo_host demo_merge_config (integration_ref demo_merge_config) (demo_q (demo_world (Some (demo_oid 2)) [demo_merge_commit])) =
   (Inr (demo_oid 2), demo_q (demo_world (Some (demo_oid 2)) [demo_merge_commit]))"
  "verify_integration_commit demo_host demo_merge_config (demo_oid 2) (demo_oid 0) (demo_oid 1)
      (demo_q (demo_world (Some (demo_oid 2)) [demo_merge_commit])) =
   (Inr (), demo_q (demo_world (Some (demo_oid 2)) [demo_merge_commit]))"
  by code_simp+

lemma demo_worker_fields:
  "wt_task demo_worker = ''a''" "wt_state demo_worker = task_schedule_state.SUCCEEDED"
  "text_or_empty (wt_branch demo_worker) = demo_branch ''a''" "text_or_empty (wt_base_commit demo_worker) = demo_oid 0"
  "text_or_empty (wt_commit demo_worker) = demo_oid 1"
  "text_or_empty (wt_worktree_path demo_worker) = ''/w/a-'' @ replicate 12 (CHR ''0'')"
  by (simp_all add: demo_worker_def text_or_empty_def)

lemma bind_run: "m q = (Inr x, q') \<Longrightarrow> bind_eff m f q = f x q'"
  by (simp add: bind_eff_def)

lemma demo_worker_valid:
  assumes "states s ''a'' = Some task_schedule_state.SUCCEEDED"
  shows "validate_worker_result demo_host merge_sha demo_merge_config s demo_worker (demo_q (demo_world (Some (demo_oid 0)) [])) =
    (Inr (), demo_q (demo_world (Some (demo_oid 0)) []))"
  using assms unfolding validate_worker_result_def Let_def demo_worker_fields
  by (simp add: bind_run check_def ret_def pure_def require_task_def require_full_oid_def in_world_def look_def
      demo_oids demo_worker_git del: One_nat_def replicate.simps append.simps)

lemma demo_integrates:
  assumes "states s ''a'' = Some task_schedule_state.SUCCEEDED" "dag s = demo_dag"
  shows "snd (integrate demo_host merge_sha demo_merge_config s [demo_worker] (demo_q (demo_world (Some (demo_oid 0)) []))) =
    demo_queue demo_order (demo_oid 2) [demo_attempt] (demo_world (Some (demo_oid 2)) [demo_merge_commit])"
proof -
  let ?q = "demo_q (demo_world (Some (demo_oid 0)) [])"
  have head: "assert_ref_head demo_host demo_merge_config ?q = (Inr (), ?q)"
    by (simp add: assert_ref_head_def bind_eff_def look_def check_def ret_def demo_worker_git)
  have node: "\<exists>n. dag_node demo_dag ''a'' = Inr n \<and> depends_on n = []"
    by (simp add: dag_node_def demo_dag_def nodes_by_id_def task_ids_def demo_node_def)
  have gate: "assert_global_topological_gate s ''a'' {} ?q = (Inr (), ?q)"
    by (simp add: assert_global_topological_gate_def bind_eff_def look_def demo_order_def ret_def)
  have append: "append_attempt ''a'' (demo_branch ''a'') (demo_oid 0) (demo_oid 1) (demo_oid 0) (Inr (demo_oid 2))
      ((demo_queue demo_order c [] w)\<lparr>mq_integrated := [] @ [''a'']\<rparr>) = (Inr (), demo_queue demo_order c [demo_attempt] w)" for w c
    by (subst append_attempt_run) (simp_all add: demo_oids outcome_ok_def demo_attempt_def attempt_of_def demo_queue_def del: One_nat_def)
  have "advance demo_host demo_merge_config demo_worker (demo_oid 0)
      \<lparr>cp_returncode = 0, cp_stdout = demo_tree @ newline, cp_stderr = []\<rparr> ?q =
    (Inr True, demo_queue demo_order (demo_oid 2) [demo_attempt] (demo_world (Some (demo_oid 2)) [demo_merge_commit]))"
    unfolding advance_def Let_def demo_worker_fields
    by (simp add: bind_run demo_merge_git demo_oids require_full_oid_def check_def ret_def change_def assert_base_clean_def
        demo_base_clean append del: One_nat_def append.simps)
  then have one: "integrate_one demo_host merge_sha demo_merge_config s demo_worker ?q =
    (Inr True, demo_queue demo_order (demo_oid 2) [demo_attempt] (demo_world (Some (demo_oid 2)) [demo_merge_commit]))"
    using demo_worker_valid [OF assms(1)] head
    by (simp add: integrate_one_def bind_run look_def check_def ret_def demo_worker_fields demo_merge_git del: One_nat_def)
  from node obtain n where n: "dag_node demo_dag ''a'' = Inr n" "depends_on n = []" by blast
  have clear: "validate_candidates demo_host merge_sha demo_merge_config s [demo_worker] {} ?q = (Inr (), ?q)"
    using n by (simp add: bind_run demo_worker_valid [OF assms(1)] demo_worker_fields check_def ret_def pure_def assms(2) gate)
  have merged: "integrate_all demo_host merge_sha demo_merge_config s [demo_worker] ?q =
    (Inr (), demo_queue demo_order (demo_oid 2) [demo_attempt] (demo_world (Some (demo_oid 2)) [demo_merge_commit]))"
    by (simp add: bind_run one ret_def)
  have member: "''a'' \<in> set demo_order" by (simp add: demo_order_def)
  show ?thesis
    using head by (simp add: integrate_def bind_eff_def Let_def look_def check_def ret_def demo_base_clean demo_worker_fields clear merged
        member pure_def del: validate_candidates.simps integrate_all.simps)
qed

lemma demo_a_done_ok:
  obtains s where "demo_a_done = Inr s" "reachable sched_init sched_step s" "dag s = demo_dag"
    "states s ''a'' = Some task_schedule_state.SUCCEEDED"
proof -
  have "(case demo_a_done of Inl _ \<Rightarrow> False
    | Inr s \<Rightarrow> states s ''a'' = Some task_schedule_state.SUCCEEDED)" by code_simp
  then obtain s where s: "demo_a_done = Inr s" "states s ''a'' = Some task_schedule_state.SUCCEEDED"
    by (auto split: sum.splits)
  then obtain s0 s1 where run: "DAGScheduler demo_dag = Inr s0" "sched_start s0 ''a'' = Inr s1" "sched_succeed s1 ''a'' = Inr s"
    by (auto simp: demo_a_done_def bind_res_eq_Inr)
  have init: "sched_init s0" by (rule sched_init.intros [OF demo_dag_TaskDAG run(1)])
  have steps: "sched_step s0 s1" "sched_step s1 s"
    using sched_step.step_start [OF run(2)] sched_step.step_succeed [OF run(3)] .
  have "dag s0 = demo_dag" using DAGScheduler_inv [OF TaskDAG_valid [OF demo_dag_TaskDAG]] run(1) by auto
  moreover have "dag s = dag s0" using step_extends [OF steps(1)] step_extends [OF steps(2)] by (simp add: extends_def)
  moreover have "reachable sched_init sched_step s0" by (rule reach_init) (rule init)
  then have "reachable sched_init sched_step s" by (rule reach_step [OF reach_step]) (fact steps)+
  ultimately show thesis using that s by simp
qed

lemma demo_merge_reachable:
  obtains s where "reachable (merge_init demo_host merge_sha demo_merge_config True) (merge_step demo_host merge_sha demo_merge_config)
      (s, demo_queue demo_order (demo_oid 2) [demo_attempt] (demo_world (Some (demo_oid 2)) [demo_merge_commit]))"
    "states s ''a'' = Some task_schedule_state.SUCCEEDED" "dag s = demo_dag"
proof -
  obtain s where s: "reachable sched_init sched_step s" "dag s = demo_dag" "states s ''a'' = Some task_schedule_state.SUCCEEDED"
    by (rule demo_a_done_ok)
  let ?q = "demo_queue demo_order (demo_oid 0) [] (demo_world (Some (demo_oid 0)) [])"
  obtain w where w: "TaskWorktreeManager demo_host ''/r'' ''/w'' None demo_repo = (Inr (mc_worktrees demo_merge_config), w)"
    using demo_manager by blast
  have "merge_init demo_host merge_sha demo_merge_config True (s, ?q)"
    by (rule merge_init.opened [OF s(1) w demo_opens [OF s(2)]]) simp
  moreover have "merge_step demo_host merge_sha demo_merge_config (s, ?q)
      (s, demo_queue demo_order (demo_oid 2) [demo_attempt] (demo_world (Some (demo_oid 2)) [demo_merge_commit]))"
    by (rule merge_step.called [where results = "[demo_worker]" and
          res = "fst (integrate demo_host merge_sha demo_merge_config s [demo_worker] ?q)"])
      (simp add: prod_eq_iff demo_integrates [OF s(3,2)])
  ultimately have "reachable (merge_init demo_host merge_sha demo_merge_config True) (merge_step demo_host merge_sha demo_merge_config)
      (s, demo_queue demo_order (demo_oid 2) [demo_attempt] (demo_world (Some (demo_oid 2)) [demo_merge_commit]))"
    by (rule reach_step [OF reach_init])
  then show thesis using that s(2,3) by blast
qed

theorem merge_queue_sound_witness:
  "\<exists>s q. mq_integrated q = [''a''] \<and> states (s :: scheduler) ''a'' = Some task_schedule_state.SUCCEEDED \<and>
     is_ok (queue_snapshot demo_merge_config (q :: demo_repository merge_queue)) \<and> distinct (mq_integrated q)"
proof -
  obtain s where s: "reachable (merge_init demo_host merge_sha demo_merge_config True) (merge_step demo_host merge_sha demo_merge_config)
      (s, demo_queue demo_order (demo_oid 2) [demo_attempt] (demo_world (Some (demo_oid 2)) [demo_merge_commit]))"
    "states s ''a'' = Some task_schedule_state.SUCCEEDED" "dag s = demo_dag"
    by (rule demo_merge_reachable)
  let ?q = "demo_queue demo_order (demo_oid 2) [demo_attempt] (demo_world (Some (demo_oid 2)) [demo_merge_commit])"
  have "mq_integrated ?q = [''a'']" by (simp add: demo_attempt_def attempt_of_def)
  moreover have "is_ok (queue_snapshot demo_merge_config ?q) \<and> distinct (mq_integrated ?q)"
    using merge_queue_sound [OF s(1)] by blast
  ultimately show ?thesis using s(2) by (intro exI [of _ s] exI [of _ ?q] conjI) simp_all
qed

end
