(* ===== verification/Merge_Discipline.thy ===== *)
theory Merge_Discipline
  imports Merge_Queue
begin

text \<open>
  The commands the merge queue gives to Git. The host is wrapped so that the state carries the list of all commands run so
  far; every operation then only adds commands that read, that create objects, or that move one of the queue's own
  two refs with the old value to compare with.
\<close>

type_synonym command = "string \<times> string list"

definition logged :: "'g host \<Rightarrow> ('g \<times> command list) host" where
  "logged h = \<lparr>run_git = (\<lambda>dir args (w, past). case run_git h dir args w of (p, w') \<Rightarrow> (p, (w', past @ [(dir, args)]))),
     h_resolve = (\<lambda>p (w, _). h_resolve h p w), h_exists = (\<lambda>p (w, _). h_exists h p w),
     h_is_dir = (\<lambda>p (w, _). h_is_dir h p w), h_is_symlink = (\<lambda>p (w, _). h_is_symlink h p w),
     h_mkdir = (\<lambda>p (w, past). case h_mkdir h p w of (r, w') \<Rightarrow> (r, (w', past)))\<rparr>"

definition permitted :: "merge_config \<Rightarrow> command \<Rightarrow> bool" where
  "permitted cfg c = (fst c = wm_base_root (mc_worktrees cfg) \<and>
     (snd c \<noteq> [] \<and> hd (snd c) \<in> {''rev-parse'', ''rev-list'', ''show'', ''show-ref'', ''check-ref-format'', ''merge-base'',
        ''diff'', ''ls-files'', ''merge-tree'', ''commit-tree''} \<or>
      (\<exists>reason new_oid old. snd c = [''update-ref'', ''-m'', reason, integration_ref cfg, new_oid, old]) \<or>
      snd c = [''update-ref'', integration_ref cfg, run_base cfg, zero_oid (run_base cfg)] \<or>
      (\<exists>marker. snd c = [''update-ref'', conflict_ref cfg, marker, zero_oid marker])))"

section \<open>Operations that add permitted commands only\<close>

definition adds_to :: "merge_config \<Rightarrow> command list \<Rightarrow> command list \<Rightarrow> bool" where
  "adds_to cfg past past' = (\<exists>cmds. past' = past @ cmds \<and> list_all (permitted cfg) cmds)"

lemma adds_to_refl: "adds_to cfg past past"
  by (simp add: adds_to_def)

lemma adds_to_trans: "adds_to cfg a b \<Longrightarrow> adds_to cfg b c \<Longrightarrow> adds_to cfg a c"
  by (auto simp: adds_to_def)

definition on_world :: "merge_config \<Rightarrow> 'g \<times> command list \<Rightarrow> 'g \<times> command list \<Rightarrow> bool" where
  "on_world cfg w w' = adds_to cfg (snd w) (snd w')"

definition on_queue :: "merge_config \<Rightarrow> ('g \<times> command list) merge_queue \<Rightarrow> ('g \<times> command list) merge_queue \<Rightarrow> bool" where
  "on_queue cfg q q' = adds_to cfg (snd (mq_world q)) (snd (mq_world q'))"

lemma reflp_on: "reflp (on_world cfg)" "reflp (on_queue cfg)"
  by (simp_all add: reflp_def on_world_def on_queue_def adds_to_refl)

lemma transp_on: "transp (on_world cfg)" "transp (on_queue cfg)"
  by (auto simp: transp_def on_world_def on_queue_def intro: adds_to_trans)

lemmas keep_world = keeps_bind [OF transp_on(1)] keeps_still [OF reflp_on(1)]
lemmas keep_queue = keeps_bind [OF transp_on(2)] keeps_still [OF reflp_on(2)] keeps_each [OF reflp_on(2) transp_on(2)]

lemma keeps_let: "(\<And>x. keeps R (f x)) \<Longrightarrow> keeps R (Let x f)"
  by (simp add: Let_def)

lemma git_process_adds: "permitted cfg (dir, args) \<Longrightarrow> keeps (on_world cfg) (git_process (logged h) e1 e2 dir args)"
  by (auto simp: keeps_def on_world_def git_process_def logged_def adds_to_def split: prod.splits process.splits)

lemma lifted: "keeps (on_world cfg) m \<Longrightarrow> keeps (on_queue cfg) (in_world m)"
  unfolding keeps_def on_world_def on_queue_def
proof
  fix q :: "('a \<times> command list) merge_queue"
  assume "\<forall>w. adds_to cfg (snd w) (snd (snd (m w)))"
  then have "adds_to cfg (snd (mq_world q)) (snd (snd (m (mq_world q))))" ..
  then show "adds_to cfg (snd (mq_world q)) (snd (mq_world (snd (in_world m q))))"
    by (cases "m (mq_world q)") (simp add: in_world_def)
qed

lemma permitted_reads:
  assumes "cmd \<in> {''rev-parse'', ''rev-list'', ''show'', ''show-ref'', ''check-ref-format'', ''merge-base'',
        ''diff'', ''ls-files'', ''merge-tree'', ''commit-tree''}"
  shows "permitted cfg (wm_base_root (mc_worktrees cfg), cmd # args)"
  using assms by (simp add: permitted_def)

lemma permitted_updates:
  "permitted cfg (wm_base_root (mc_worktrees cfg), [''update-ref'', ''-m'', reason, integration_ref cfg, c, old])"
  "permitted cfg (wm_base_root (mc_worktrees cfg), [''update-ref'', integration_ref cfg, run_base cfg, zero_oid (run_base cfg)])"
  "permitted cfg (wm_base_root (mc_worktrees cfg), [''update-ref'', conflict_ref cfg, marker, zero_oid marker])"
  by (simp_all add: permitted_def)

lemma merge_git_adds:
  "permitted cfg (wm_base_root (mc_worktrees cfg), args) \<Longrightarrow> keeps (on_queue cfg) (merge_git (logged h) cfg c args)"
  unfolding merge_git_def by (intro keep_queue lifted git_process_adds)

lemma changed_files_adds: "keeps (on_world cfg) (changed_files (logged h) (wm_base_root (mc_worktrees cfg)))"
  unfolding changed_files_def workspace_git_def workspace_git_completed_def untracked_def
  by (intro keep_world git_process_adds permitted_reads) simp_all

lemma worktree_git_adds:
  "permitted cfg (dir, args) \<Longrightarrow> keeps (on_world cfg) (worktree_git_at (logged h) c dir args)"
  unfolding worktree_git_at_def by (intro keep_world git_process_adds)

lemma record_for_adds: "keeps (on_world cfg) (record_for (logged h) sha (mc_worktrees cfg) t base)"
  unfolding record_for_def resolve_task_base_def rev_parse_commit_def is_ancestor_def
  by (cases base) (simp_all, (intro keep_world keeps_let worktree_git_adds permitted_reads; simp)+)

lemma change_adds: "(\<And>q. mq_world (f q) = mq_world q) \<Longrightarrow> keeps (on_queue cfg) (change f)"
  by (simp add: keeps_def on_queue_def change_def adds_to_refl)

lemma append_attempt_adds: "keeps (on_queue cfg) (append_attempt t b base c p out)"
  unfolding append_attempt_def by (intro keep_queue change_adds) simp

lemma reading_adds:
  "keeps (on_queue cfg) (require_full_oid v)" "keeps (on_queue cfg) (resolve_commit (logged h) cfg ref)"
  "keeps (on_queue cfg) (resolve_tree (logged h) cfg ref)" "keeps (on_queue cfg) (commit_parents (logged h) cfg c)"
  "keeps (on_queue cfg) (first_oid_line out)" "keeps (on_queue cfg) (ref_present (logged h) cfg ref)"
  "keeps (on_queue cfg) (assert_ref_head (logged h) cfg)" "keeps (on_queue cfg) (base_clean (logged h) cfg e)"
  "keeps (on_queue cfg) (parse_metadata (logged h) cfg table c)" "keeps (on_queue cfg) (validate_ref_name (logged h) cfg ref)"
  unfolding require_full_oid_def resolve_commit_def resolve_tree_def resolve_object_def commit_parents_def
    first_oid_line_def ref_present_def assert_ref_head_def base_clean_def parse_metadata_def validate_ref_name_def
  by ((intro keep_queue keeps_let merge_git_adds lifted changed_files_adds permitted_reads)?; simp)+

section \<open>The operations of the queue\<close>

lemma parsing_adds:
  "keeps (on_queue cfg) (parse_integration_message (logged h) cfg c)" "keeps (on_queue cfg) (parse_conflict_message (logged h) cfg c)"
  unfolding parse_integration_message_def parse_conflict_message_def by (intro keep_queue reading_adds)+

lemma worker_adds: "keeps (on_queue cfg) (validate_worker_result (logged h) sha cfg s r)"
  unfolding validate_worker_result_def
  by (intro keep_queue keeps_let lifted record_for_adds keep_world reading_adds)

lemma gate_adds: "keeps (on_queue cfg) (assert_global_topological_gate s t S)"
  unfolding assert_global_topological_gate_def by (intro keep_queue keeps_if)

lemma verify_adds: "keeps (on_queue cfg) (verify_integration_commit (logged h) cfg c p t)"
  unfolding verify_integration_commit_def merge_tree_def
  by (intro keep_queue reading_adds merge_git_adds permitted_reads) simp

lemma marker_adds: "keeps (on_queue cfg) (persist_conflict_marker (logged h) cfg t b base c head)"
  unfolding persist_conflict_marker_def
  by (intro keep_queue keeps_let reading_adds merge_git_adds permitted_updates permitted_reads) simp

lemma conflict_adds: "keeps (on_queue cfg) (record_conflict (logged h) cfg r head merge)"
  unfolding record_conflict_def assert_base_clean_def
  by (intro keep_queue keeps_let marker_adds append_attempt_adds change_adds reading_adds) simp

lemma advance_adds: "keeps (on_queue cfg) (advance (logged h) cfg r head merge)"
  unfolding advance_def assert_base_clean_def
  by (intro keep_queue keeps_let reading_adds merge_git_adds permitted_updates permitted_reads verify_adds
      append_attempt_adds change_adds) simp_all

lemma integrate_one_adds: "keeps (on_queue cfg) (integrate_one (logged h) sha cfg s r)"
  unfolding integrate_one_def merge_tree_def
  by (intro keep_queue keeps_if worker_adds reading_adds merge_git_adds permitted_reads conflict_adds advance_adds) simp

lemma candidates_adds: "keeps (on_queue cfg) (validate_candidates (logged h) sha cfg s rs S)"
  by (induction rs arbitrary: S) (auto intro!: keep_queue worker_adds gate_adds)

lemma integrate_all_adds: "keeps (on_queue cfg) (integrate_all (logged h) sha cfg s rs)"
  by (induction rs) (auto intro!: keep_queue integrate_one_adds)

lemma integrate_adds: "keeps (on_queue cfg) (integrate (logged h) sha cfg s rs)"
  unfolding integrate_def
  by (intro keep_queue keeps_if keeps_let reading_adds candidates_adds integrate_all_adds)

lemma recover_commit_adds: "keeps (on_queue cfg) (recover_commit (logged h) sha cfg s c p)"
  unfolding recover_commit_def
  by (cases p) (simp, intro keep_queue keeps_let reading_adds parsing_adds lifted record_for_adds verify_adds
      append_attempt_adds change_adds; simp)

lemma recover_commits_adds: "keeps (on_queue cfg) (recover_commits (logged h) sha cfg s cs p)"
  by (induction cs arbitrary: p) (auto intro!: keep_queue recover_commit_adds)

lemma initialize_adds: "keeps (on_queue cfg) (initialize_or_recover_ref (logged h) sha cfg s)"
  unfolding initialize_or_recover_ref_def recover_successful_history_def is_ancestor_def
  by (intro keep_queue keeps_if reading_adds merge_git_adds permitted_updates permitted_reads recover_commits_adds) simp_all

lemma recover_marker_adds: "keeps (on_queue cfg) (recover_conflict_marker (logged h) sha cfg s)"
  unfolding recover_conflict_marker_def merge_tree_def
  by (intro keep_queue keeps_if keeps_let reading_adds parsing_adds lifted record_for_adds gate_adds merge_git_adds
      permitted_reads append_attempt_adds change_adds) simp_all

lemma open_adds: "keeps (on_queue cfg) (open_steps (logged h) sha cfg s)"
  unfolding open_steps_def
  by (intro keep_queue reading_adds initialize_adds recover_marker_adds change_adds) simp_all


end
