(* ===== verification/Workspace_Files.thy ===== *)
theory Workspace_Files
  imports Orchestrator Git_Workspace
begin

text \<open>
  The part of \<open>workspace/git.py\<close> that reads files: the trusted resolution of a repository path, the diff that shows
  untracked files to a reviewer, and the change snapshot that the repair loop compares.

  A \<open>disk\<close> is a machine that also has file contents: \<open>dk_read\<close> is the decoded text of a file before newlines are
  translated (\<open>None\<close> when it is not UTF-8), \<open>dk_bytes\<close> its bytes, \<open>dk_below\<close> what \<open>rglob("*")\<close> finds below
  a directory, each entry as its path parts, and \<open>dk_write\<close> replaces the text of a file. All of them are
  arbitrary functions of the machine's state.
\<close>

record 'g disk =
  dk_host :: "'g host"
  dk_is_file :: "string \<Rightarrow> 'g \<Rightarrow> bool"
  dk_size :: "string \<Rightarrow> 'g \<Rightarrow> nat res"
  dk_read :: "string \<Rightarrow> 'g \<Rightarrow> string option res"
  dk_bytes :: "string \<Rightarrow> 'g \<Rightarrow> string res"
  dk_below :: "string \<Rightarrow> 'g \<Rightarrow> string list list"
  dk_write :: "string \<Rightarrow> string \<Rightarrow> 'g \<Rightarrow> unit res \<times> 'g"

text \<open>A computation that reads the state and may raise.\<close>

definition look_res :: "('s \<Rightarrow> 'a res) \<Rightarrow> ('s, 'a) effect" where
  "look_res f s = (f s, s)"

lemma look_res_Inr [simp]: "look_res f s = (Inr y, s') \<longleftrightarrow> f s = Inr y \<and> s' = s"
  by (auto simp: look_res_def)

text \<open>\<open>Path.read_text(encoding="utf-8")\<close>.\<close>

definition read_text :: "'g disk \<Rightarrow> string \<Rightarrow> ('g, string) effect" where
  "read_text d path = look_res (\<lambda>w. bind_res (dk_read d path w) (\<lambda>text.
     case text of None \<Rightarrow> Inl (UnicodeDecodeError ''invalid UTF-8'') | Some s \<Rightarrow> Inr (universal_newlines s)))"

text \<open>\<open>str.encode("utf-8")\<close> for code points below 256.\<close>

definition utf8_char :: "char \<Rightarrow> string" where
  "utf8_char c = (let n = (of_char c :: nat) in if n < 128 then [c] else [char_of (192 + n div 64), char_of (128 + n mod 64)])"

definition utf8 :: "string \<Rightarrow> string" where
  "utf8 s = concat (map utf8_char s)"

section \<open>Paths\<close>

text \<open>\<open>PurePosixPath(p).parts\<close> of a relative path, and \<open>base / part\<close>.\<close>

definition path_parts :: "string \<Rightarrow> string list" where
  "path_parts p = filter (\<lambda>part. part \<noteq> [] \<and> part \<noteq> ''.'') (split_on (CHR ''/'') p)"

definition path_join :: "string \<Rightarrow> string \<Rightarrow> string" where
  "path_join base part = (if base = ''/'' then base @ part else base @ ''/'' @ part)"

definition link_error :: exn where
  "link_error = ValueError ''repository path resolves outside the trusted path boundary or traverses symbolic links''"

fun walk_parts :: "'g disk \<Rightarrow> string \<Rightarrow> string list \<Rightarrow> ('g, string) effect" where
  "walk_parts d current [] = ret current"
| "walk_parts d current (part # parts) =
     bind_eff (look (h_is_symlink (dk_host d) (path_join current part))) (\<lambda>link.
     bind_eff (check (\<not> link) link_error) (\<lambda>_.
     walk_parts d (path_join current part) parts))"

definition resolve_path :: "'g disk \<Rightarrow> string \<Rightarrow> string \<Rightarrow> ('g, string) effect" where
  "resolve_path d wsp repository_path =
     (let normalized = strip repository_path; parts = path_parts normalized in
      bind_eff (check (normalized \<noteq> []) (ValueError ''repository path must not be empty'')) (\<lambda>_.
      bind_eff (check (CHR 0x5C \<notin> set normalized) (ValueError ''repository path must use POSIX-style '/' separators'')) (\<lambda>_.
      bind_eff (check (\<not> (length normalized \<ge> 2 \<and> normalized ! 1 = CHR '':''))
        (ValueError ''repository path must not contain a Windows drive prefix'')) (\<lambda>_.
      bind_eff (check (hd normalized \<noteq> CHR ''/'') (ValueError ''repository path must be relative'')) (\<lambda>_.
      bind_eff (check (normalized \<noteq> ''.'' \<and> ''..'' \<notin> set parts)
        (ValueError ''repository path must remain inside the workspace'')) (\<lambda>_.
      bind_eff (check (\<not> (parts \<noteq> [] \<and> hd parts = ''.git''))
        (ValueError ''repository path must not access .git internals'')) (\<lambda>_.
      bind_eff (walk_parts d wsp parts) (\<lambda>current.
      bind_eff (look (h_resolve (dk_host d) current)) (\<lambda>candidate.
      bind_eff (check (path_within candidate wsp) (ValueError ''repository path resolves outside the workspace'')) (\<lambda>_.
      ret candidate))))))))))"

section \<open>The diff and the snapshot\<close>

text \<open>\<open>difflib.unified_diff([], lines, fromfile="/dev/null", tofile=f"b/{path}", lineterm="\n")\<close>, joined: one hunk that
  adds every line.\<close>

definition new_file_patch :: "string \<Rightarrow> string \<Rightarrow> string" where
  "new_file_patch repository_path content =
     (let lines = splitlines_keepends content in
      if lines = [] then []
      else ''--- /dev/null'' @ newline @ ''+++ b/'' @ repository_path @ newline @
        ''@@ -0,0 +'' @ (if length lines = 1 then ''1'' else ''1,'' @ dec (length lines)) @ '' @@'' @ newline @
        concat (map (\<lambda>l. CHR ''+'' # l) lines))"

definition rstrip_newlines :: "string \<Rightarrow> string" where
  "rstrip_newlines s = rev (dropWhile (\<lambda>c. c = CHR 0x0A) (rev s))"

text \<open>The loop over the untracked files, which appends to \<open>sections\<close>.\<close>

fun untracked_sections :: "'g disk \<Rightarrow> string \<Rightarrow> string list \<Rightarrow> string list \<Rightarrow> ('g, string list) effect" where
  "untracked_sections d wsp [] sections = ret sections"
| "untracked_sections d wsp (repository_path # rest) sections =
     bind_eff (resolve_path d wsp repository_path) (\<lambda>path.
     bind_eff (look (dk_is_file d path)) (\<lambda>file.
     if \<not> file then untracked_sections d wsp rest sections
     else bind_eff (handle (bind_eff (read_text d path) (\<lambda>content. ret (new_file_patch repository_path content)))
         (\<lambda>e. case e of UnicodeDecodeError _ \<Rightarrow> ret (''Binary untracked file omitted: '' @ repository_path @ newline) | _ \<Rightarrow> raise e))
       (\<lambda>patch. untracked_sections d wsp rest (if patch = [] then sections else sections @ [patch]))))"

definition workspace_unified_diff :: "'g disk \<Rightarrow> string \<Rightarrow> ('g, string) effect" where
  "workspace_unified_diff d wsp =
     bind_eff (workspace_git (dk_host d) True wsp
       [''diff'', ''--no-ext-diff'', ''--no-renames'', ''--unified=3'', ''HEAD'', ''--'']) (\<lambda>tracked_diff.
     bind_eff (workspace_git (dk_host d) True wsp untracked) (\<lambda>out.
     bind_eff (untracked_sections d wsp (sort (split_nul out)) (if tracked_diff = [] then [] else [tracked_diff])) (\<lambda>sections.
     ret (join_with newline (map rstrip_newlines (filter (\<lambda>s. s \<noteq> []) sections)) @ (if sections = [] then [] else newline)))))"

fun hash_files :: "'g disk \<Rightarrow> (string \<Rightarrow> string) \<Rightarrow> string \<Rightarrow> string list \<Rightarrow> ('g, (string \<times> string) list) effect" where
  "hash_files d sha wsp [] = ret []"
| "hash_files d sha wsp (repository_path # rest) =
     bind_eff (resolve_path d wsp repository_path) (\<lambda>path.
     bind_eff (look (dk_is_file d path)) (\<lambda>file.
     bind_eff (if file then bind_eff (look_res (dk_bytes d path)) (\<lambda>bytes. ret (sha bytes)) else ret ''<missing>'') (\<lambda>digest.
     bind_eff (hash_files d sha wsp rest) (\<lambda>hashes.
     ret ((repository_path, digest) # hashes)))))"

definition workspace_change_snapshot :: "'g disk \<Rightarrow> (string \<Rightarrow> string) \<Rightarrow> string \<Rightarrow> ('g, change_snapshot) effect" where
  "workspace_change_snapshot d sha wsp =
     bind_eff (Git_Workspace.changed_files (dk_host d) wsp) (\<lambda>changed.
     bind_eff (hash_files d sha wsp changed) (\<lambda>hashes.
     bind_eff (workspace_unified_diff d wsp) (\<lambda>patch.
     ret \<lparr>cs_changed_files = changed, cs_patch_hash = sha (utf8 patch), cs_file_hashes = hashes\<rparr>)))"

section \<open>What a resolved path is\<close>

text \<open>
  A trusted path: no part climbs or enters \<open>.git\<close>, no directory on the way nor the file itself is a symbolic link, and the
  resolved location is below the root.
\<close>

definition trusted_path :: "'g disk \<Rightarrow> string \<Rightarrow> string \<Rightarrow> string \<Rightarrow> 'g \<Rightarrow> bool" where
  "trusted_path d wsp rel p w =
     (let parts = path_parts rel in
      ''..'' \<notin> set parts \<and> \<not> (parts \<noteq> [] \<and> hd parts = ''.git'') \<and>
      (\<forall>i < length parts. \<not> h_is_symlink (dk_host d) (foldl path_join wsp (take (Suc i) parts)) w) \<and>
      p = h_resolve (dk_host d) (foldl path_join wsp parts) w \<and> path_within p wsp)"

lemma walk_parts_Inr:
  "walk_parts d current parts w = (Inr p, w') \<longleftrightarrow> w' = w \<and> p = foldl path_join current parts \<and>
     (\<forall>i < length parts. \<not> h_is_symlink (dk_host d) (foldl path_join current (take (Suc i) parts)) w)"
  by (induction parts arbitrary: current) (auto simp: bind_eff_Inr All_less_Suc2)

lemma resolve_path_Inr: "resolve_path d wsp rel w = (Inr p, w') \<Longrightarrow> w' = w \<and> trusted_path d wsp (strip rel) p w"
  by (auto simp: resolve_path_def Let_def bind_eff_Inr walk_parts_Inr trusted_path_def)

lemma still_walk: "keeps (=) (walk_parts d current parts)"
  by (induction parts arbitrary: current) (auto intro!: keep_rules)

lemma still_resolve: "keeps (=) (resolve_path d wsp rel)"
  unfolding resolve_path_def Let_def by (intro keep_rules still_walk) simp_all

end
