(* ===== verification/Repository_Tools.thy ===== *)
theory Repository_Tools
  imports Workspace_Files
begin

text \<open>
  The tools an agent may use on a repository (\<open>tools/repository.py\<close>, \<open>models/tools.py\<close>): nine handlers behind one
  \<open>execute\<close>, which turns a JSON argument text into a handler call and every expected error into an error result.

  Three pieces of other code are fields of the \<open>toolbox\<close>: \<open>tb_loads\<close> is \<open>json.loads\<close>, \<open>tb_as_int\<close> the coercion
  pydantic applies to an integer field, and \<open>tb_resolve_symbol\<close> the Python symbol extractor. The results of handlers are
  JSON texts, printed by \<open>dumps\<close> as \<open>json.dumps(ensure_ascii=False)\<close> prints them.

  The lemmas show what a tool can touch: a call only ever writes one file, under the root, outside \<open>.git\<close>, reached
  without symbolic links, and whose spelling is in the write scope of the task. They also show that this is the spelling of
  the agent, which two spellings of one file can evade, and what a patch does to a file.
\<close>

section \<open>Values\<close>

datatype json = J_Null | J_Bool bool | J_Int int | J_Str string | J_List "json list" | J_Obj "(string \<times> json) list"

type_synonym arguments = "(string \<times> json) list"

definition quote_char :: "char \<Rightarrow> string" where
  "quote_char c = (let n = (of_char c :: nat) in
     if n = 34 then [CHR 0x5C, CHR 0x22] else if n = 92 then [CHR 0x5C, CHR 0x5C]
     else if n = 10 then [CHR 0x5C, CHR ''n''] else if n = 13 then [CHR 0x5C, CHR ''r'']
     else if n = 9 then [CHR 0x5C, CHR ''t''] else if n = 12 then [CHR 0x5C, CHR ''f'']
     else if n = 8 then [CHR 0x5C, CHR ''b''] else if n < 32 then [CHR 0x5C, CHR ''u''] @ hex 4 n
     else [c])"

definition quote :: "string \<Rightarrow> string" where
  "quote s = [CHR 0x22] @ concat (map quote_char s) @ [CHR 0x22]"

fun dumps :: "json \<Rightarrow> string" where
  "dumps J_Null = ''null''"
| "dumps (J_Bool b) = (if b then ''true'' else ''false'')"
| "dumps (J_Int i) = int_text i"
| "dumps (J_Str s) = quote s"
| "dumps (J_List vs) = ''['' @ join_with '', '' (map dumps vs) @ '']''"
| "dumps (J_Obj kvs) = ''{'' @ join_with '', '' (map (\<lambda>(k, v). quote k @ '': '' @ dumps v) kvs) @ ''}''"

text \<open>\<open>sub in s\<close>, \<open>s.count(sub)\<close> and \<open>s.replace(sub, by, 1)\<close>; occurrences are counted without overlap.\<close>

fun occurs_in :: "string \<Rightarrow> string \<Rightarrow> bool" where
  "occurs_in sub [] = (sub = [])"
| "occurs_in sub (c # s) = (prefix sub (c # s) \<or> occurs_in sub s)"

function occurrences :: "string \<Rightarrow> string \<Rightarrow> nat" where
  "occurrences sub s =
     (if sub = [] then Suc (length s)
      else case s of [] \<Rightarrow> 0
      | c # r \<Rightarrow> if prefix sub s then Suc (occurrences sub (drop (length sub) s)) else occurrences sub r)"
  by pat_completeness auto
termination
  by (relation "measure (\<lambda>(_, s). length s)") auto

declare occurrences.simps [simp del]

fun replace_first :: "string \<Rightarrow> string \<Rightarrow> string \<Rightarrow> string" where
  "replace_first sub by_text [] = (if sub = [] then by_text else [])"
| "replace_first sub by_text (c # s) =
     (if prefix sub (c # s) then by_text @ drop (length sub) (c # s) else c # replace_first sub by_text s)"

text \<open>\<open>xs[i:j]\<close> for Python integers.\<close>

definition slice_bound :: "int \<Rightarrow> nat \<Rightarrow> nat" where
  "slice_bound i n = (if i < 0 then nat (i + int n) else min (nat i) n)"

definition py_slice :: "'a list \<Rightarrow> int \<Rightarrow> int \<Rightarrow> 'a list" where
  "py_slice xs i j = drop (slice_bound i (length xs)) (take (slice_bound j (length xs)) xs)"

section \<open>Calls and results\<close>

record tool_call =
  tl_id :: string
  tl_name :: string
  tl_arguments :: string

definition tool_name_pattern :: "string \<Rightarrow> bool" where
  "tool_name_pattern s = (s \<noteq> [] \<and> (ascii_alnum (hd s) \<and> hd s \<notin> set ''0123456789'' \<or> hd s = CHR ''_'') \<and>
     list_all (\<lambda>c. ascii_alnum c \<or> c = CHR ''_'') (tl s))"

definition ToolCall :: "tool_call \<Rightarrow> tool_call res" where
  "ToolCall c =
     (if \<not> (1 \<le> length (tl_id c) \<and> length (tl_id c) \<le> 256) then Inl (ValueError ''id'')
      else bind_res (normalize_non_empty_text (tl_id c)) (\<lambda>i.
        if \<not> (1 \<le> length (tl_name c) \<and> length (tl_name c) \<le> 128 \<and> tool_name_pattern (tl_name c)) then Inl (ValueError ''name'')
        else bind_res (normalize_non_empty_text (tl_name c)) (\<lambda>n. Inr (c\<lparr>tl_id := i, tl_name := n\<rparr>))))"

record tool_execution_result =
  te_tool_call_id :: string
  te_name :: string
  te_ok :: bool
  te_content :: string
  te_error_code :: "tool_error_code option"

definition ToolExecutionResult :: "tool_execution_result \<Rightarrow> tool_execution_result res" where
  "ToolExecutionResult r =
     (if \<not> (1 \<le> length (te_tool_call_id r) \<and> length (te_tool_call_id r) \<le> 256) then Inl (ValueError ''tool_call_id'')
      else bind_res (normalize_non_empty_text (te_tool_call_id r)) (\<lambda>i.
        if \<not> (1 \<le> length (te_name r) \<and> length (te_name r) \<le> 128) then Inl (ValueError ''name'')
        else bind_res (normalize_non_empty_text (te_name r)) (\<lambda>n. Inr (r\<lparr>te_tool_call_id := i, te_name := n\<rparr>))))"

section \<open>The toolbox\<close>

definition MAX_FILE_BYTES :: nat where
  "MAX_FILE_BYTES = 1000000"

definition MAX_SCAN_FILES :: nat where
  "MAX_SCAN_FILES = 1000"

definition MAX_LIST_ENTRIES :: nat where
  "MAX_LIST_ENTRIES = 200"

definition MAX_READ_FILE_CHARS :: nat where
  "MAX_READ_FILE_CHARS = 12000"

record code_region =
  rg_symbol :: "string option"
  rg_start_line :: int
  rg_end_line :: int

record toolbox =
  tb_root :: string
  tb_task :: task_contract
  tb_max_read_range_lines :: int
  tb_resolve_symbol :: "string \<Rightarrow> string \<Rightarrow> string \<Rightarrow> (int \<times> code_region) option"
  tb_as_int :: "json \<Rightarrow> int option"
  tb_loads :: "string \<Rightarrow> json res"

definition RepositoryToolbox :: "toolbox \<Rightarrow> toolbox res" where
  "RepositoryToolbox tb =
     (if 1 \<le> tb_max_read_range_lines tb \<and> tb_max_read_range_lines tb \<le> 400 then Inr tb
      else Inl (ValueError ''max_read_range_lines must be between 1 and 400''))"

subsection \<open>Argument models\<close>

definition str_field :: "arguments \<Rightarrow> string \<Rightarrow> string option \<Rightarrow> nat \<Rightarrow> nat \<Rightarrow> string res" where
  "str_field kvs name dflt lo hi = (case map_of kvs name of
     None \<Rightarrow> (case dflt of None \<Rightarrow> Inl (ValueError ''Field required'') | Some s \<Rightarrow> Inr s)
   | Some (J_Str s) \<Rightarrow> if lo \<le> length s \<and> length s \<le> hi then Inr s else Inl (ValueError ''String length out of bounds'')
   | Some _ \<Rightarrow> Inl (ValueError ''Input should be a valid string''))"

definition int_field :: "toolbox \<Rightarrow> arguments \<Rightarrow> string \<Rightarrow> int option \<Rightarrow> int option \<Rightarrow> int res" where
  "int_field tb kvs name dflt hi = (case map_of kvs name of
     None \<Rightarrow> (case dflt of None \<Rightarrow> Inl (ValueError ''Field required'') | Some i \<Rightarrow> Inr i)
   | Some v \<Rightarrow> (case tb_as_int tb v of
       None \<Rightarrow> Inl (ValueError ''Input should be a valid integer'')
     | Some i \<Rightarrow> if 1 \<le> i \<and> (\<forall>m \<in> set_option hi. i \<le> m) then Inr i else Inl (ValueError ''Input out of bounds'')))"

definition str_item :: "json \<Rightarrow> string res" where
  "str_item v = (case v of J_Str s \<Rightarrow> Inr s | _ \<Rightarrow> Inl (ValueError ''Input should be a valid string''))"

definition str_list_field :: "arguments \<Rightarrow> string \<Rightarrow> nat \<Rightarrow> string list res" where
  "str_list_field kvs name hi = (case map_of kvs name of
     Some (J_List vs) \<Rightarrow> if 1 \<le> length vs \<and> length vs \<le> hi then map_res str_item vs else Inl (ValueError ''List length out of bounds'')
   | _ \<Rightarrow> Inl (ValueError ''Input should be a valid list''))"

definition only_fields :: "string list \<Rightarrow> arguments \<Rightarrow> unit res" where
  "only_fields names kvs = (if set (map fst kvs) \<subseteq> set names then Inr () else Inl (ValueError ''Extra inputs are not permitted''))"

definition ListFilesArgs :: "arguments \<Rightarrow> string res" where
  "ListFilesArgs kvs = bind_res (only_fields [''directory''] kvs) (\<lambda>_. str_field kvs ''directory'' (Some []) 0 500)"

definition ReadFileArgs :: "toolbox \<Rightarrow> arguments \<Rightarrow> (string \<times> int) res" where
  "ReadFileArgs tb kvs =
     bind_res (only_fields [''path'', ''max_chars''] kvs) (\<lambda>_.
     bind_res (str_field kvs ''path'' None 1 500) (\<lambda>path.
     bind_res (int_field tb kvs ''max_chars'' (Some 8000) (Some (int MAX_READ_FILE_CHARS))) (\<lambda>max_chars.
     Inr (path, max_chars))))"

definition reject_duplicate_paths :: "string list \<Rightarrow> string list res" where
  "reject_duplicate_paths vals =
     (let normalized = map strip vals in
      if [] \<in> set normalized then Inl (ValueError ''paths must not contain empty values'')
      else if \<not> distinct normalized then Inl (ValueError ''paths must not contain duplicates'') else Inr normalized)"

definition ReadFilesArgs :: "toolbox \<Rightarrow> arguments \<Rightarrow> (string list \<times> int) res" where
  "ReadFilesArgs tb kvs =
     bind_res (only_fields [''paths'', ''max_chars_per_file''] kvs) (\<lambda>_.
     bind_res (bind_res (str_list_field kvs ''paths'' 4) reject_duplicate_paths) (\<lambda>paths.
     bind_res (int_field tb kvs ''max_chars_per_file'' (Some 4000) (Some 8000)) (\<lambda>max_chars.
     Inr (paths, max_chars))))"

definition normalize_query :: "string \<Rightarrow> string res" where
  "normalize_query val = (if strip val = [] then Inl (ValueError ''query must not be empty'') else Inr (strip val))"

definition SearchCodeArgs :: "toolbox \<Rightarrow> arguments \<Rightarrow> (string \<times> string \<times> int) res" where
  "SearchCodeArgs tb kvs =
     bind_res (only_fields [''query'', ''directory'', ''max_results''] kvs) (\<lambda>_.
     bind_res (bind_res (str_field kvs ''query'' None 1 500) normalize_query) (\<lambda>query.
     bind_res (str_field kvs ''directory'' (Some []) 0 500) (\<lambda>directory.
     bind_res (int_field tb kvs ''max_results'' (Some 20) (Some 50)) (\<lambda>max_results.
     Inr (query, directory, max_results)))))"

definition ReadRangeArgs :: "toolbox \<Rightarrow> arguments \<Rightarrow> (string \<times> int \<times> int) res" where
  "ReadRangeArgs tb kvs =
     bind_res (only_fields [''path'', ''start_line'', ''end_line''] kvs) (\<lambda>_.
     bind_res (str_field kvs ''path'' None 1 500) (\<lambda>path.
     bind_res (int_field tb kvs ''start_line'' None None) (\<lambda>start_line.
     bind_res (int_field tb kvs ''end_line'' None None) (\<lambda>end_line.
     if end_line < start_line then Inl (ValueError ''end_line must be greater than or equal to start_line'')
     else if end_line - start_line + 1 > 400 then Inl (ValueError ''read_range is limited to 400 lines'')
     else Inr (path, start_line, end_line)))))"

definition ReadSymbolArgs :: "arguments \<Rightarrow> (string \<times> string) res" where
  "ReadSymbolArgs kvs =
     bind_res (only_fields [''path'', ''symbol''] kvs) (\<lambda>_.
     bind_res (str_field kvs ''path'' None 1 500) (\<lambda>path.
     bind_res (str_field kvs ''symbol'' None 1 300) (\<lambda>symbol.
     if strip symbol = [] then Inl (ValueError ''symbol must not be empty'') else Inr (path, strip symbol))))"

definition SearchCodeManyArgs :: "toolbox \<Rightarrow> arguments \<Rightarrow> (string list \<times> string \<times> int) res" where
  "SearchCodeManyArgs tb kvs =
     bind_res (only_fields [''queries'', ''directory'', ''max_results_per_query''] kvs) (\<lambda>_.
     bind_res (bind_res (str_list_field kvs ''queries'' 6) (map_res normalize_query)) (\<lambda>queries.
     if \<not> distinct queries then Inl (ValueError ''queries must not contain duplicates'')
     else bind_res (str_field kvs ''directory'' (Some []) 0 500) (\<lambda>directory.
     bind_res (int_field tb kvs ''max_results_per_query'' (Some 10) (Some 20)) (\<lambda>max_results.
     Inr (queries, directory, max_results)))))"

definition WriteFileArgs :: "arguments \<Rightarrow> (string \<times> string) res" where
  "WriteFileArgs kvs =
     bind_res (only_fields [''path'', ''content''] kvs) (\<lambda>_.
     bind_res (str_field kvs ''path'' None 1 500) (\<lambda>path.
     bind_res (str_field kvs ''content'' None 0 MAX_FILE_BYTES) (\<lambda>content.
     Inr (path, content))))"

definition ApplyPatchArgs :: "arguments \<Rightarrow> (string \<times> string \<times> string) res" where
  "ApplyPatchArgs kvs =
     bind_res (only_fields [''path'', ''old_text'', ''new_text''] kvs) (\<lambda>_.
     bind_res (str_field kvs ''path'' None 1 500) (\<lambda>path.
     bind_res (str_field kvs ''old_text'' None 1 200000) (\<lambda>old_text.
     bind_res (str_field kvs ''new_text'' None 0 200000) (\<lambda>new_text.
     Inr (path, old_text, new_text)))))"

subsection \<open>Paths\<close>

definition is_internal :: "string \<Rightarrow> bool" where
  "is_internal relative_path =
     (let normalized = rev (dropWhile (\<lambda>c. c = CHR ''/'') (rev (dropWhile (\<lambda>c. c = CHR ''/'') (strip relative_path))))
      in normalized = ''.git'' \<or> prefix ''.git/'' normalized)"

definition assert_not_internal :: "string \<Rightarrow> ('g, unit) effect" where
  "assert_not_internal relative_path =
     check (\<not> is_internal relative_path) (RepositoryToolError PATH_DENIED ''DevFlow repository tools never expose .git internals'')"

definition can_read :: "toolbox \<Rightarrow> string \<Rightarrow> bool" where
  "can_read tb relative_path = list_ex (matches relative_path)
     (readable_files (tb_task tb) @ writable_files (tb_task tb) @ readonly_files (tb_task tb))"

definition relative_to :: "toolbox \<Rightarrow> string \<Rightarrow> string" where
  "relative_to tb path = drop (length (path_join (tb_root tb) [])) path"

definition iter_files :: "'g disk \<Rightarrow> toolbox \<Rightarrow> string \<Rightarrow> ('g, string list) effect" where
  "iter_files d tb base = look (\<lambda>w. take MAX_SCAN_FILES
     (filter (\<lambda>p. \<not> h_is_symlink (dk_host d) p w \<and> dk_is_file d p w \<and> \<not> is_internal (relative_to tb p))
       (map (foldl path_join base) (sort (dk_below d base w)))))"

definition read_text_file :: "'g disk \<Rightarrow> string \<Rightarrow> ('g, string) effect" where
  "read_text_file d path =
     bind_eff (look_res (dk_size d path)) (\<lambda>size.
     bind_eff (check (size \<le> MAX_FILE_BYTES) (RepositoryToolError IO_ERROR ''file exceeds the V0.1 text-file size limit'')) (\<lambda>_.
     handle (read_text d path) (\<lambda>e. case e of
         UnicodeDecodeError _ \<Rightarrow> raise (RepositoryToolError IO_ERROR ''file is not valid UTF-8 text'') | _ \<Rightarrow> raise e)))"

definition resolve_directory :: "'g disk \<Rightarrow> toolbox \<Rightarrow> string \<Rightarrow> ('g, string) effect" where
  "resolve_directory d tb repository_directory =
     (let normalized = strip repository_directory in
      if normalized \<in> {'''', ''.''} then ret (tb_root tb)
      else bind_eff (assert_not_internal normalized) (\<lambda>_.
        bind_eff (resolve_path d (tb_root tb) normalized) (\<lambda>directory.
        bind_eff (look (h_exists (dk_host d) directory)) (\<lambda>there.
        bind_eff (check there (RepositoryToolError NOT_FOUND (''Directory does not exist: '' @ normalized))) (\<lambda>_.
        bind_eff (look (h_is_dir (dk_host d) directory)) (\<lambda>dir.
        bind_eff (check dir (RepositoryToolError INVALID_ARGUMENTS (''Path is not a directory: '' @ normalized))) (\<lambda>_.
        ret directory)))))))"

definition resolve_file_for_read :: "'g disk \<Rightarrow> toolbox \<Rightarrow> string \<Rightarrow> ('g, string \<times> string) effect" where
  "resolve_file_for_read d tb repository_path =
     (let relative = strip repository_path in
      bind_eff (assert_not_internal relative) (\<lambda>_.
      bind_eff (resolve_path d (tb_root tb) relative) (\<lambda>path.
      bind_eff (check (can_read tb relative)
        (RepositoryToolError PATH_DENIED (''Read path is outside the task's visible scopes: '' @ relative))) (\<lambda>_.
      bind_eff (look (dk_is_file d path)) (\<lambda>file.
      bind_eff (check file (RepositoryToolError NOT_FOUND (''File does not exist: '' @ relative))) (\<lambda>_.
      ret (relative, path)))))))"

definition kind_value :: "scope_violation_kind \<Rightarrow> string" where
  "kind_value k = (case k of READ_ONLY \<Rightarrow> ''READ_ONLY'' | OUT_OF_SCOPE \<Rightarrow> ''OUT_OF_SCOPE'')"

definition resolve_for_write :: "'g disk \<Rightarrow> toolbox \<Rightarrow> string \<Rightarrow> ('g, string \<times> string) effect" where
  "resolve_for_write d tb repository_path =
     (let relative = strip repository_path in
      bind_eff (assert_not_internal relative) (\<lambda>_.
      bind_eff (resolve_path d (tb_root tb) relative) (\<lambda>path.
      bind_eff (pure (ScopeEnforcer_check (tb_task tb) [relative])) (\<lambda>scope_result.
      bind_eff (check (scope_passed scope_result) (RepositoryToolError PATH_DENIED
        (''Write denied by '' @ kind_value (sv_kind (hd (violations scope_result))) @ '': '' @ relative))) (\<lambda>_.
      bind_eff (look (\<lambda>w. h_exists (dk_host d) path w \<and> h_is_dir (dk_host d) path w)) (\<lambda>dir.
      bind_eff (check (\<not> dir) (RepositoryToolError INVALID_ARGUMENTS (''Write target is a directory: '' @ relative))) (\<lambda>_.
      ret (relative, path))))))))"

subsection \<open>Handlers\<close>

definition listing :: "string list \<Rightarrow> bool \<Rightarrow> bool \<Rightarrow> string" where
  "listing files truncated there = dumps (J_Obj [(''files'', J_List (map J_Str files)), (''truncated'', J_Bool truncated),
     (''directory_exists'', J_Bool there)])"

definition list_below :: "'g disk \<Rightarrow> toolbox \<Rightarrow> string \<Rightarrow> ('g, string) effect" where
  "list_below d tb base = bind_eff (iter_files d tb base) (\<lambda>paths.
     let files = take MAX_LIST_ENTRIES (filter (can_read tb) (map (relative_to tb) paths))
     in ret (listing files (length files \<ge> MAX_LIST_ENTRIES) True))"

definition list_files :: "'g disk \<Rightarrow> toolbox \<Rightarrow> arguments \<Rightarrow> ('g, string) effect" where
  "list_files d tb kvs =
     bind_eff (pure (ListFilesArgs kvs)) (\<lambda>directory.
     let normalized_directory = strip directory in
     if normalized_directory \<in> {'''', ''.''} then list_below d tb (tb_root tb)
     else bind_eff (assert_not_internal normalized_directory) (\<lambda>_.
       bind_eff (resolve_path d (tb_root tb) normalized_directory) (\<lambda>base.
       bind_eff (look (h_exists (dk_host d) base)) (\<lambda>there.
       if \<not> there then ret (listing [] False False)
       else bind_eff (look (h_is_dir (dk_host d) base)) (\<lambda>dir.
         bind_eff (check dir (RepositoryToolError INVALID_ARGUMENTS (''Path is not a directory: '' @ normalized_directory))) (\<lambda>_.
         list_below d tb base))))))"

definition file_entry :: "string \<Rightarrow> string \<Rightarrow> int \<Rightarrow> json" where
  "file_entry relative text max_chars = J_Obj [(''path'', J_Str relative), (''content'', J_Str (take (nat max_chars) text)),
     (''truncated'', J_Bool (int (length text) > max_chars))]"

definition read_file :: "'g disk \<Rightarrow> toolbox \<Rightarrow> arguments \<Rightarrow> ('g, string) effect" where
  "read_file d tb kvs =
     bind_eff (pure (ReadFileArgs tb kvs)) (\<lambda>(requested, max_chars).
     bind_eff (resolve_file_for_read d tb requested) (\<lambda>(relative, path).
     bind_eff (read_text_file d path) (\<lambda>text.
     ret (dumps (file_entry relative text max_chars)))))"

fun read_each :: "'g disk \<Rightarrow> toolbox \<Rightarrow> int \<Rightarrow> string list \<Rightarrow> ('g, json list) effect" where
  "read_each d tb max_chars [] = ret []"
| "read_each d tb max_chars (requested # rest) =
     bind_eff (resolve_file_for_read d tb requested) (\<lambda>(relative, path).
     bind_eff (read_text_file d path) (\<lambda>text.
     bind_eff (read_each d tb max_chars rest) (\<lambda>entries.
     ret (file_entry relative text max_chars # entries))))"

definition read_files :: "'g disk \<Rightarrow> toolbox \<Rightarrow> arguments \<Rightarrow> ('g, string) effect" where
  "read_files d tb kvs =
     bind_eff (pure (ReadFilesArgs tb kvs)) (\<lambda>(paths, max_chars).
     bind_eff (read_each d tb max_chars paths) (\<lambda>entries.
     ret (dumps (J_Obj [(''files'', J_List entries)]))))"

definition newline_count :: "string \<Rightarrow> int" where
  "newline_count s = int (count_list s (CHR 0x0A))"

definition range_entry :: "string \<Rightarrow> (string \<times> json) list \<Rightarrow> int \<Rightarrow> int \<Rightarrow> int \<Rightarrow> string \<Rightarrow> bool \<Rightarrow> string" where
  "range_entry relative extra start_line end_line returned_end content truncated = dumps (J_Obj
     ([(''path'', J_Str relative)] @ extra @ [(''requested_start_line'', J_Int start_line), (''requested_end_line'', J_Int end_line),
       (''returned_start_line'', J_Int start_line), (''returned_end_line'', J_Int returned_end), (''content'', J_Str content),
       (''truncated'', J_Bool truncated)]))"

definition read_range :: "'g disk \<Rightarrow> toolbox \<Rightarrow> arguments \<Rightarrow> ('g, string) effect" where
  "read_range d tb kvs =
     bind_eff (pure (ReadRangeArgs tb kvs)) (\<lambda>(requested, start_line, end_line).
     bind_eff (check (end_line - start_line + 1 \<le> tb_max_read_range_lines tb)
       (RepositoryToolError INVALID_ARGUMENTS ''read_range is limited for this agent'')) (\<lambda>_.
     bind_eff (resolve_file_for_read d tb requested) (\<lambda>(relative, path).
     bind_eff (read_text_file d path) (\<lambda>text.
     let lines = splitlines_keepends text in
     bind_eff (check (start_line \<le> int (length lines))
       (RepositoryToolError NOT_FOUND (''start_line is outside the file: '' @ int_text start_line))) (\<lambda>_.
     let available_end_line = min end_line (int (length lines));
         whole = concat (py_slice lines (start_line - 1) available_end_line);
         character_truncated = length whole > MAX_READ_FILE_CHARS;
         content = (if character_truncated then take MAX_READ_FILE_CHARS whole else whole);
         returned_end_line = min available_end_line (start_line + max 0 (newline_count content))
     in ret (range_entry relative [] start_line end_line returned_end_line content
          (character_truncated \<or> available_end_line < end_line)))))))"

definition symbol_json :: "string option \<Rightarrow> json" where
  "symbol_json s = (case s of None \<Rightarrow> J_Null | Some x \<Rightarrow> J_Str x)"

definition read_symbol :: "'g disk \<Rightarrow> toolbox \<Rightarrow> arguments \<Rightarrow> ('g, string) effect" where
  "read_symbol d tb kvs =
     bind_eff (pure (ReadSymbolArgs kvs)) (\<lambda>(requested, symbol).
     bind_eff (resolve_file_for_read d tb requested) (\<lambda>(relative, path).
     bind_eff (check (suffix ''.py'' relative) (RepositoryToolError INVALID_ARGUMENTS
       ''read_symbol currently supports Python files only; use read_range instead'')) (\<lambda>_.
     bind_eff (read_text_file d path) (\<lambda>source.
     case tb_resolve_symbol tb relative source symbol of
       None \<Rightarrow> raise (RepositoryToolError NOT_FOUND (''Python symbol was not found or is ambiguous: '' @ symbol))
     | Some (preamble_end, region) \<Rightarrow>
         (let lines = splitlines_keepends source;
              preamble = (if preamble_end \<noteq> 0 then concat (py_slice lines 0 preamble_end) else []);
              body = concat (py_slice lines (rg_start_line region - 1) (rg_end_line region));
              separator = (if preamble \<noteq> [] \<and> body \<noteq> [] then newline else []);
              content = preamble @ separator @ body;
              visible_content = take MAX_READ_FILE_CHARS content;
              visible_body = drop (length preamble + length separator) visible_content;
              returned_end_line = min (rg_end_line region) (rg_start_line region + max 0 (newline_count visible_body))
          in ret (range_entry relative [(''symbol'', symbol_json (rg_symbol region))] (rg_start_line region) (rg_end_line region)
               returned_end_line visible_content (length content > MAX_READ_FILE_CHARS)))))))"

definition match_entry :: "string \<Rightarrow> nat \<Rightarrow> string \<Rightarrow> json" where
  "match_entry relative line_number line = J_Obj [(''path'', J_Str relative), (''line'', J_Int (int line_number)), (''text'', J_Str (take 300 line))]"

text \<open>The lines of a file that a search may look at: \<open>None\<close> when it is skipped.\<close>

definition searchable_lines :: "'g disk \<Rightarrow> toolbox \<Rightarrow> string \<Rightarrow> ('g, string list option) effect" where
  "searchable_lines d tb path =
     (if \<not> can_read tb (relative_to tb path) then ret None
      else bind_eff (look_res (dk_size d path)) (\<lambda>size.
        if size > MAX_FILE_BYTES then ret None
        else handle (bind_eff (read_text d path) (\<lambda>text. ret (Some (splitlines text))))
          (\<lambda>e. case e of UnicodeDecodeError _ \<Rightarrow> ret None | _ \<Rightarrow> raise e)))"

fun search_lines :: "string \<Rightarrow> nat \<Rightarrow> string \<Rightarrow> (nat \<times> string) list \<Rightarrow> json list \<Rightarrow> json list \<times> bool" where
  "search_lines query max_results relative [] found = (found, False)"
| "search_lines query max_results relative ((n, line) # rest) found =
     (if \<not> occurs_in query line then search_lines query max_results relative rest found
      else let found' = found @ [match_entry relative n line] in
        if length found' \<ge> max_results then (found', True) else search_lines query max_results relative rest found')"

fun search_files :: "'g disk \<Rightarrow> toolbox \<Rightarrow> string \<Rightarrow> nat \<Rightarrow> string list \<Rightarrow> json list \<Rightarrow> ('g, json list \<times> bool) effect" where
  "search_files d tb query max_results [] found = ret (found, False)"
| "search_files d tb query max_results (path # paths) found =
     bind_eff (searchable_lines d tb path) (\<lambda>lines. case lines of
       None \<Rightarrow> search_files d tb query max_results paths found
     | Some ls \<Rightarrow> (case search_lines query max_results (relative_to tb path) (enumerate 1 ls) found of
         (found', full) \<Rightarrow> if full then ret (found', True) else search_files d tb query max_results paths found'))"

definition search_code :: "'g disk \<Rightarrow> toolbox \<Rightarrow> arguments \<Rightarrow> ('g, string) effect" where
  "search_code d tb kvs =
     bind_eff (pure (SearchCodeArgs tb kvs)) (\<lambda>(query, directory, max_results).
     bind_eff (resolve_directory d tb directory) (\<lambda>base.
     bind_eff (iter_files d tb base) (\<lambda>paths.
     bind_eff (search_files d tb query (nat max_results) paths []) (\<lambda>(found, truncated).
     ret (dumps (J_Obj [(''matches'', J_List found), (''truncated'', J_Bool truncated)]))))))"

text \<open>The per-query lists of \<open>matches_by_query\<close> and whether the query is in \<open>truncated_queries\<close>.\<close>

type_synonym query_state = "(string \<times> json list \<times> bool) list"

definition match_line :: "nat \<Rightarrow> string \<Rightarrow> nat \<times> string \<Rightarrow> query_state \<Rightarrow> query_state" where
  "match_line limit relative nl = map (\<lambda>(query, found, truncated).
     if \<not> occurs_in query (snd nl) then (query, found, truncated)
     else if length found \<ge> limit then (query, found, True)
     else (query, found @ [match_entry relative (fst nl) (snd nl)], truncated))"

fun search_many_files :: "'g disk \<Rightarrow> toolbox \<Rightarrow> nat \<Rightarrow> string list \<Rightarrow> query_state \<Rightarrow> ('g, query_state) effect" where
  "search_many_files d tb limit [] qs = ret qs"
| "search_many_files d tb limit (path # paths) qs =
     bind_eff (searchable_lines d tb path) (\<lambda>lines.
     search_many_files d tb limit paths (case lines of None \<Rightarrow> qs
       | Some ls \<Rightarrow> fold (match_line limit (relative_to tb path)) (enumerate 1 ls) qs))"

definition search_code_many :: "'g disk \<Rightarrow> toolbox \<Rightarrow> arguments \<Rightarrow> ('g, string) effect" where
  "search_code_many d tb kvs =
     bind_eff (pure (SearchCodeManyArgs tb kvs)) (\<lambda>(queries, directory, max_results).
     bind_eff (resolve_directory d tb directory) (\<lambda>base.
     bind_eff (iter_files d tb base) (\<lambda>paths.
     bind_eff (search_many_files d tb (nat max_results) paths (map (\<lambda>q. (q, [], False)) queries)) (\<lambda>qs.
     ret (dumps (J_Obj [(''results'', J_List (map (\<lambda>(query, found, truncated).
       J_Obj [(''query'', J_Str query), (''matches'', J_List found), (''truncated'', J_Bool truncated)]) qs))]))))))"

text \<open>\<open>path.parent\<close>.\<close>

definition path_parent :: "string \<Rightarrow> string" where
  "path_parent p = (let up = rev (tl (dropWhile (\<lambda>c. c \<noteq> CHR ''/'') (rev p))) in if up = [] then ''/'' else up)"

definition write_file :: "'g disk \<Rightarrow> toolbox \<Rightarrow> arguments \<Rightarrow> ('g, string) effect" where
  "write_file d tb kvs =
     bind_eff (pure (WriteFileArgs kvs)) (\<lambda>(requested, content).
     bind_eff (resolve_for_write d tb requested) (\<lambda>(relative, path).
     let encoded_size = length (utf8 content) in
     bind_eff (check (encoded_size \<le> MAX_FILE_BYTES)
       (RepositoryToolError IO_ERROR ''file content exceeds the V0.1 text-file size limit'')) (\<lambda>_.
     bind_eff (h_mkdir (dk_host d) (path_parent path)) (\<lambda>_.
     bind_eff (dk_write d path content) (\<lambda>_.
     ret (dumps (J_Obj [(''path'', J_Str relative), (''bytes'', J_Int (int encoded_size))])))))))"

definition apply_patch :: "'g disk \<Rightarrow> toolbox \<Rightarrow> arguments \<Rightarrow> ('g, string) effect" where
  "apply_patch d tb kvs =
     bind_eff (pure (ApplyPatchArgs kvs)) (\<lambda>(requested, old_text, new_text).
     bind_eff (resolve_for_write d tb requested) (\<lambda>(relative, path).
     bind_eff (look (dk_is_file d path)) (\<lambda>file.
     bind_eff (check file (RepositoryToolError NOT_FOUND (''Patch target does not exist: '' @ relative))) (\<lambda>_.
     bind_eff (read_text_file d path) (\<lambda>text.
     bind_eff (check (occurrences old_text text \<noteq> 0)
       (RepositoryToolError NOT_FOUND ''old_text was not found in the patch target'')) (\<lambda>_.
     bind_eff (check (occurrences old_text text = 1)
       (RepositoryToolError AMBIGUOUS_PATCH ''old_text must occur exactly once'')) (\<lambda>_.
     let updated = replace_first old_text new_text text in
     bind_eff (check (length (utf8 updated) \<le> MAX_FILE_BYTES)
       (RepositoryToolError IO_ERROR ''patched file would exceed the V0.1 file-size limit'')) (\<lambda>_.
     bind_eff (dk_write d path updated) (\<lambda>_.
     ret (dumps (J_Obj [(''path'', J_Str relative), (''replacements'', J_Int 1)])))))))))))"

subsection \<open>Dispatch\<close>

definition handlers :: "(string \<times> ('g disk \<Rightarrow> toolbox \<Rightarrow> arguments \<Rightarrow> ('g, string) effect)) list" where
  "handlers = [(''list_files'', list_files), (''read_file'', read_file), (''read_files'', read_files), (''read_range'', read_range),
     (''read_symbol'', read_symbol), (''search_code'', search_code), (''search_code_many'', search_code_many),
     (''write_file'', write_file), (''apply_patch'', apply_patch)]"

definition error_result :: "tool_call \<Rightarrow> tool_error_code \<Rightarrow> string \<Rightarrow> tool_execution_result res" where
  "error_result call code message = ToolExecutionResult \<lparr>te_tool_call_id = tl_id call, te_name = tl_name call, te_ok = False,
     te_content = message, te_error_code = Some code\<rparr>"

text \<open>The error code and message of an exception that \<open>execute\<close> catches.\<close>

definition caught :: "exn \<Rightarrow> (tool_error_code \<times> string) option" where
  "caught e = (case e of
     ValueError s \<Rightarrow> Some (INVALID_ARGUMENTS, s) | UnicodeDecodeError s \<Rightarrow> Some (INVALID_ARGUMENTS, s)
   | RepositoryToolError code s \<Rightarrow> Some (code, s) | OSError s \<Rightarrow> Some (IO_ERROR, s) | _ \<Rightarrow> None)"

definition run_handler :: "'g disk \<Rightarrow> toolbox \<Rightarrow> ('g disk \<Rightarrow> toolbox \<Rightarrow> arguments \<Rightarrow> ('g, string) effect) \<Rightarrow> tool_call \<Rightarrow> ('g, string) effect" where
  "run_handler d tb handler call =
     bind_eff (pure (tb_loads tb (if tl_arguments call = [] then ''{}'' else tl_arguments call))) (\<lambda>raw_arguments.
     case raw_arguments of J_Obj kvs \<Rightarrow> handler d tb kvs | _ \<Rightarrow> raise (ValueError ''tool arguments must be a JSON object''))"

definition execute :: "'g disk \<Rightarrow> toolbox \<Rightarrow> tool_call \<Rightarrow> ('g, tool_execution_result) effect" where
  "execute d tb call = (case map_of handlers (tl_name call) of
     None \<Rightarrow> pure (error_result call UNKNOWN_TOOL (''Unknown repository tool: '' @ tl_name call))
   | Some handler \<Rightarrow>
       (\<lambda>s. case run_handler d tb handler call s of
          (Inl e, s') \<Rightarrow> (case caught e of None \<Rightarrow> (Inl e, s') | Some (code, message) \<Rightarrow> (error_result call code message, s'))
        | (Inr content, s') \<Rightarrow> (ToolExecutionResult \<lparr>te_tool_call_id = tl_id call, te_name = tl_name call, te_ok = True,
            te_content = content, te_error_code = None\<rparr>, s')))"

end
