(* ===== verification/Tool_Safety.thy ===== *)
theory Tool_Safety
  imports Repository_Tools
begin

text \<open>
  What the repository tools can do to a workspace. Each handler meets the contract of the locale \<open>repository_tool\<close>: it leaves the
  state alone or changes one allowed file. Seven of the nine only read (\<open>reading_tool\<close>). The theorems lift this to
  \<open>execute\<close>, show that every expected error becomes a result, what a patch does to the text of a file, and that the
  scope check can be evaded by spelling a path differently.
\<close>

section \<open>What a call may change\<close>

definition write_target :: "'g disk \<Rightarrow> toolbox \<Rightarrow> string \<Rightarrow> string \<Rightarrow> 'g \<Rightarrow> bool" where
  "write_target d tb relative path s =
     (trusted_path d (tb_root tb) relative path s \<and> in_write_scope (tb_task tb) relative \<and> \<not> is_internal relative \<and>
      \<not> (h_exists (dk_host d) path s \<and> h_is_dir (dk_host d) path s))"

text \<open>Nothing, or one write target: its parent directory is made, its text is replaced, or both.\<close>

definition confined_change :: "'g disk \<Rightarrow> toolbox \<Rightarrow> 'g \<Rightarrow> 'g \<Rightarrow> bool" where
  "confined_change d tb s s' =
     (s' = s \<or> (\<exists>relative path text. write_target d tb relative path s \<and> length (utf8 text) \<le> MAX_FILE_BYTES \<and>
        (let made = snd (h_mkdir (dk_host d) (path_parent path) s)
         in s' \<in> {made, snd (dk_write d path text made), snd (dk_write d path text s)})))"

lemma confined_refl [simp]: "confined_change d tb s s"
  by (simp add: confined_change_def)

subsection \<open>Reading leaves the state alone\<close>

lemma keeps_look_res [keep_rules]: "reflp R \<Longrightarrow> keeps R (look_res f)"
  by (simp add: keeps_def look_res_def reflpD)

lemma keeps_prod [keep_rules]: "(\<And>a b. keeps R (f a b)) \<Longrightarrow> keeps R (case x of (a, b) \<Rightarrow> f a b)"
  by (cases x) simp

lemma keeps_option [keep_rules]: "keeps R m \<Longrightarrow> (\<And>a. keeps R (f a)) \<Longrightarrow> keeps R (case x of None \<Rightarrow> m | Some a \<Rightarrow> f a)"
  by (cases x) simp_all

lemma keeps_eq [simp]: "reflp (=)" "transp (=)"
  by (simp_all add: reflp_def transp_def)

lemma still_assert: "keeps (=) (assert_not_internal p)"
  unfolding assert_not_internal_def by (intro keep_rules) simp

lemma still_read_text: "keeps (=) (read_text d p)"
  unfolding read_text_def by (intro keep_rules) simp

lemma still_recover: "keeps (=) (n e) \<Longrightarrow> keeps (=) (case e of UnicodeDecodeError s \<Rightarrow> n e | _ \<Rightarrow> raise e)"
  by (cases e) (auto simp: keeps_def raise_def)

lemmas still_rules = keep_rules still_assert still_resolve still_read_text still_recover

lemma still_read_text_file: "keeps (=) (read_text_file d p)"
  unfolding read_text_file_def by (intro still_rules) (simp_all)

lemma still_iter: "keeps (=) (iter_files d tb base)"
  unfolding iter_files_def by (intro still_rules) simp

lemma still_directory: "keeps (=) (resolve_directory d tb dir)"
  unfolding resolve_directory_def Let_def by (intro still_rules) simp_all

lemma still_for_read: "keeps (=) (resolve_file_for_read d tb p)"
  unfolding resolve_file_for_read_def Let_def by (intro still_rules) simp_all

lemma still_searchable: "keeps (=) (searchable_lines d tb p)"
  unfolding searchable_lines_def by (intro still_rules) simp_all

lemmas tool_rules = still_rules still_read_text_file still_iter still_directory still_for_read still_searchable

lemma still_list_below: "keeps (=) (list_below d tb base)"
  unfolding list_below_def Let_def by (intro tool_rules) simp_all

lemma still_read_each: "keeps (=) (read_each d tb n paths)"
  by (induction paths) (auto intro!: tool_rules)

lemma still_search_files: "keeps (=) (search_files d tb query n paths found)"
  by (induction paths arbitrary: found) (auto intro!: tool_rules)

lemma still_search_many: "keeps (=) (search_many_files d tb n paths qs)"
  by (induction paths arbitrary: qs) (auto intro!: tool_rules)

subsection \<open>The contract of a handler\<close>

text \<open>A handler of the toolbox, and one that only reads.\<close>

locale repository_tool =
  fixes handler :: "'g disk \<Rightarrow> toolbox \<Rightarrow> arguments \<Rightarrow> ('g, string) effect"
  assumes confined: "confined_change d tb s (snd (handler d tb kvs s))"
begin

lemma run_confined: "confined_change d tb s (snd (run_handler d tb handler call s))"
proof (cases "tb_loads tb (if tl_arguments call = [] then ''{}'' else tl_arguments call)")
  case (Inr raw)
  with confined show ?thesis by (cases raw) (auto simp: run_handler_def bind_eff_def pure_def raise_def)
qed (simp add: run_handler_def bind_eff_def pure_def)

end

locale reading_tool =
  fixes handler :: "'g disk \<Rightarrow> toolbox \<Rightarrow> arguments \<Rightarrow> ('g, string) effect"
  assumes still: "keeps (=) (handler d tb kvs)"
begin

lemma unchanged: "snd (handler d tb kvs s) = s"
  using still [of d tb kvs] unfolding keeps_def by metis

lemma run_unchanged: "snd (run_handler d tb handler call s) = s"
proof (cases "tb_loads tb (if tl_arguments call = [] then ''{}'' else tl_arguments call)")
  case (Inr raw)
  with unchanged show ?thesis by (cases raw) (auto simp: run_handler_def bind_eff_def pure_def raise_def)
qed (simp add: run_handler_def bind_eff_def pure_def)

end

sublocale reading_tool \<subseteq> repository_tool
  by unfold_locales (simp add: unchanged)

interpretation list_files: reading_tool list_files
  by unfold_locales (unfold list_files_def Let_def, intro tool_rules still_list_below, simp_all)

interpretation read_file: reading_tool read_file
  by unfold_locales (unfold read_file_def, intro tool_rules, simp_all)

interpretation read_files: reading_tool read_files
  by unfold_locales (unfold read_files_def, intro tool_rules still_read_each, simp_all)

interpretation read_range: reading_tool read_range
  by unfold_locales (unfold read_range_def Let_def, intro tool_rules, simp_all)

interpretation read_symbol: reading_tool read_symbol
  by unfold_locales (unfold read_symbol_def Let_def, intro tool_rules, simp_all)

interpretation search_code: reading_tool search_code
  by unfold_locales (unfold search_code_def, intro tool_rules still_search_files, simp_all)

interpretation search_code_many: reading_tool search_code_many
  by unfold_locales (unfold search_code_many_def, intro tool_rules still_search_many, simp_all)

lemma scope_passed_single:
  assumes "ScopeEnforcer_check c [strip f] = Inr r" "scope_passed r"
  shows "in_write_scope c (strip f)"
proof -
  note cases = scope_check_cases [OF assms(1)]
  have "filter (\<lambda>p. \<not> in_write_scope c p) [strip f] = []"
    using cases(3) assms(2) by (simp add: cases(1) scope_passed_def)
  then show ?thesis by (simp split: if_splits)
qed

lemma still_for_write: "keeps (=) (resolve_for_write d tb p)"
  unfolding resolve_for_write_def Let_def by (intro tool_rules) simp_all

lemma resolve_for_write_Inr:
  assumes "resolve_for_write d tb p s = (Inr (relative, path), s')"
  shows "relative = strip p \<and> write_target d tb relative path s"
  using assms scope_passed_single
  by (auto simp: resolve_for_write_def Let_def bind_eff_Inr assert_not_internal_def write_target_def dest!: resolve_path_Inr)

lemma unchanged_run: "keeps (=) m \<Longrightarrow> m s = (r, s') \<Longrightarrow> s' = s"
  unfolding keeps_def by (metis snd_conv)

text \<open>A computation that first reads and then behaves in a confined way.\<close>

lemma confined_bind:
  assumes "keeps (=) m" and "\<And>x. m s = (Inr x, s) \<Longrightarrow> confined_change d tb s (snd (f x s))"
  shows "confined_change d tb s (snd (bind_eff m f s))"
proof -
  obtain r s' where m: "m s = (r, s')" by fastforce
  then have "s' = s" by (rule unchanged_run [OF assms(1)])
  with m assms(2) show ?thesis by (cases r) (auto simp: bind_eff_def)
qed

lemma confined_write:
  assumes "write_target d tb relative path s" "length (utf8 text) \<le> MAX_FILE_BYTES"
  shows "confined_change d tb s (snd (bind_eff (dk_write d path text) (\<lambda>_. ret x) s))"
    and "confined_change d tb s (snd (bind_eff (h_mkdir (dk_host d) (path_parent path)) (\<lambda>_.
      bind_eff (dk_write d path text) (\<lambda>_. ret x)) s))"
proof -
  have end_write: "snd (bind_eff (dk_write d path text) (\<lambda>_. ret x) t) = snd (dk_write d path text t)" for t
    by (auto simp: bind_eff_def ret_def split: prod.splits sum.splits)
  show "confined_change d tb s (snd (bind_eff (dk_write d path text) (\<lambda>_. ret x) s))"
    using assms unfolding confined_change_def end_write Let_def by blast
  obtain r made where made: "h_mkdir (dk_host d) (path_parent path) s = (r, made)" by fastforce
  have "snd (bind_eff (h_mkdir (dk_host d) (path_parent path)) (\<lambda>_. bind_eff (dk_write d path text) (\<lambda>_. ret x)) s)
      \<in> {made, snd (dk_write d path text made)}"
    using made end_write [of made] by (cases r) (auto simp: bind_eff_def)
  with assms made show "confined_change d tb s (snd (bind_eff (h_mkdir (dk_host d) (path_parent path)) (\<lambda>_.
      bind_eff (dk_write d path text) (\<lambda>_. ret x)) s))"
    unfolding confined_change_def Let_def by (metis insert_iff snd_conv)
qed

lemmas confined_steps = confined_bind [OF keeps_still(5) [OF keeps_eq(1)]] confined_bind [OF keeps_still(3) [OF keeps_eq(1)]]
  confined_bind [OF keeps_still(4) [OF keeps_eq(1)]] confined_bind [OF still_for_write] confined_bind [OF still_read_text_file]

interpretation write_file: repository_tool write_file
proof unfold_locales
  fix d :: "'g disk" and tb s kvs
  show "confined_change d tb s (snd (write_file d tb kvs s))"
    unfolding write_file_def Let_def case_prod_beta
    by (intro confined_steps) (auto intro!: confined_write dest!: resolve_for_write_Inr simp del: dumps.simps)
qed

interpretation apply_patch: repository_tool apply_patch
proof unfold_locales
  fix d :: "'g disk" and tb s kvs
  show "confined_change d tb s (snd (apply_patch d tb kvs s))"
    unfolding apply_patch_def Let_def case_prod_beta
    by (intro confined_steps) (auto intro!: confined_write dest!: resolve_for_write_Inr simp del: dumps.simps)
qed

lemma reading_names:
  "map_of handlers name = Some handler \<Longrightarrow> name \<notin> {''write_file'', ''apply_patch''} \<Longrightarrow>
   snd (run_handler d tb handler call s) = s"
  by (auto simp: handlers_def list_files.run_unchanged read_file.run_unchanged read_files.run_unchanged
      read_range.run_unchanged read_symbol.run_unchanged search_code.run_unchanged search_code_many.run_unchanged
      split: if_splits)

lemma handlers_confined:
  "map_of handlers name = Some handler \<Longrightarrow> confined_change d tb s (snd (run_handler d tb handler call s))"
  by (auto simp: handlers_def list_files.run_confined read_file.run_confined read_files.run_confined
      read_range.run_confined read_symbol.run_confined search_code.run_confined search_code_many.run_confined
      write_file.run_confined apply_patch.run_confined split: if_splits)

lemma execute_state:
  "snd (execute d tb call s) = (case map_of handlers (tl_name call) of None \<Rightarrow> s
     | Some handler \<Rightarrow> snd (run_handler d tb handler call s))"
  by (auto simp: execute_def pure_def split: option.splits prod.splits sum.splits)

section \<open>Every expected error becomes a result\<close>

definition raises_caught :: "('s, 'a) effect \<Rightarrow> bool" where
  "raises_caught m = (\<forall>s e. fst (m s) = Inl e \<longrightarrow> caught e \<noteq> None)"

named_theorems caught_rules

lemma caught_bind [caught_rules]:
  assumes "raises_caught m" "\<And>x. raises_caught (f x)"
  shows "raises_caught (bind_eff m f)"
  unfolding raises_caught_def
proof (intro allI impI)
  fix s e assume "fst (bind_eff m f s) = Inl e"
  moreover obtain r t where "m s = (r, t)" by fastforce
  ultimately show "caught e \<noteq> None"
    using assms unfolding raises_caught_def by (cases r) (auto simp: bind_eff_def, metis fst_conv)
qed

lemma caught_check [caught_rules]: "caught e \<noteq> None \<Longrightarrow> raises_caught (check c e)"
  by (auto simp: raises_caught_def check_def ret_def raise_def)

lemma caught_raise [caught_rules]: "caught e \<noteq> None \<Longrightarrow> raises_caught (raise e)"
  by (auto simp: raises_caught_def raise_def)

lemma caught_ret [caught_rules]: "raises_caught (ret x)" "raises_caught (look f)"
  by (auto simp: raises_caught_def ret_def look_def)

lemma caught_pure [caught_rules]: "(\<And>e. m = Inl e \<Longrightarrow> caught e \<noteq> None) \<Longrightarrow> raises_caught (pure m)"
  by (auto simp: raises_caught_def pure_def)

lemma caught_if [caught_rules]: "raises_caught m \<Longrightarrow> raises_caught n \<Longrightarrow> raises_caught (if c then m else n)"
  by simp

lemma caught_prod [caught_rules]: "(\<And>a b. raises_caught (f a b)) \<Longrightarrow> raises_caught (case x of (a, b) \<Rightarrow> f a b)"
  by (cases x) simp

lemma caught_option [caught_rules]:
  "raises_caught m \<Longrightarrow> (\<And>a. raises_caught (f a)) \<Longrightarrow> raises_caught (case x of None \<Rightarrow> m | Some a \<Rightarrow> f a)"
  by (cases x) simp_all

text \<open>A disk whose operations raise nothing but \<open>OSError\<close>.\<close>

definition os_errors_only :: "'g disk \<Rightarrow> bool" where
  "os_errors_only d = (\<forall>p t s e.
     (dk_size d p s = Inl e \<longrightarrow> (\<exists>m. e = OSError m)) \<and> (dk_read d p s = Inl e \<longrightarrow> (\<exists>m. e = OSError m)) \<and>
     (fst (dk_write d p t s) = Inl e \<longrightarrow> (\<exists>m. e = OSError m)) \<and>
     (fst (h_mkdir (dk_host d) p s) = Inl e \<longrightarrow> (\<exists>m. e = OSError m)))"

lemma caught_disk:
  assumes "os_errors_only d"
  shows "raises_caught (look_res (dk_size d p))" "raises_caught (dk_write d p t)" "raises_caught (h_mkdir (dk_host d) p)"
    "raises_caught (read_text d p)"
proof -
  have caught_os: "caught e \<noteq> None" if "\<exists>m. e = OSError m" for e using that by (auto simp: caught_def)
  note laws = assms [unfolded os_errors_only_def, rule_format]
  show "raises_caught (look_res (dk_size d p))"
    unfolding raises_caught_def look_res_def fst_conv using laws caught_os by blast
  show "raises_caught (dk_write d p t)" "raises_caught (h_mkdir (dk_host d) p)"
    unfolding raises_caught_def using laws caught_os by blast+
  have "caught e \<noteq> None" if "fst (read_text d p s) = Inl e" for s e
  proof (cases "dk_read d p s")
    case (Inl x)
    with that have "e = x" by (simp add: read_text_def look_res_def)
    with Inl laws caught_os show ?thesis by blast
  next
    case (Inr x)
    with that show ?thesis by (cases x) (auto simp: read_text_def look_res_def caught_def)
  qed
  then show "raises_caught (read_text d p)" by (simp add: raises_caught_def)
qed

lemma caught_walk: "raises_caught (walk_parts d current parts)"
  by (induction parts arbitrary: current) (auto intro!: caught_rules simp: link_error_def caught_def)

lemma caught_resolve: "raises_caught (resolve_path d wsp p)"
  unfolding resolve_path_def Let_def by (intro caught_rules caught_walk) (simp_all add: caught_def)

lemma caught_handle:
  assumes "raises_caught m" "\<And>s. raises_caught (n s)"
  shows "raises_caught (handle m (\<lambda>e. case e of UnicodeDecodeError s \<Rightarrow> n s | _ \<Rightarrow> raise e))"
  unfolding raises_caught_def
proof (intro allI impI)
  fix s e
  assume run: "fst (handle m (\<lambda>e. case e of UnicodeDecodeError s \<Rightarrow> n s | _ \<Rightarrow> raise e) s) = Inl e"
  obtain r t where m: "m s = (r, t)" by fastforce
  show "caught e \<noteq> None"
  proof (cases r)
    case (Inl x)
    then have "caught x \<noteq> None" using assms(1) m unfolding raises_caught_def by (metis fst_conv)
    then show ?thesis
      using run m Inl assms(2) by (cases x) (auto simp: handle_def raise_def raises_caught_def)
  qed (use run m in \<open>simp add: handle_def\<close>)
qed

text \<open>The argument models raise nothing but a validation error.\<close>

definition value_errors :: "'a res \<Rightarrow> bool" where
  "value_errors m = (\<forall>e. m = Inl e \<longrightarrow> (\<exists>s. e = ValueError s))"

lemma value_bind [caught_rules]: "value_errors m \<Longrightarrow> (\<And>x. value_errors (f x)) \<Longrightarrow> value_errors (bind_res m f)"
  by (cases m) (auto simp: value_errors_def)

lemma value_base [caught_rules]: "value_errors (Inr x)" "value_errors (Inl (ValueError s))"
  by (simp_all add: value_errors_def)

lemma value_if [caught_rules]: "value_errors m \<Longrightarrow> value_errors n \<Longrightarrow> value_errors (if c then m else n)"
  by simp

lemma value_map [caught_rules]: "(\<And>x. value_errors (f x)) \<Longrightarrow> value_errors (map_res f xs)"
  by (induction xs) (auto intro!: value_bind value_base)

lemma value_fields [caught_rules]:
  "value_errors (str_field kvs name dflt lo hi)" "value_errors (int_field tb kvs name d hi')"
  "value_errors (str_item v)" "value_errors (str_list_field kvs name hi)" "value_errors (only_fields names kvs)"
proof -
  show item: "value_errors (str_item v)" for v by (simp add: value_errors_def str_item_def split: json.splits)
  show "value_errors (str_field kvs name dflt lo hi)" "value_errors (int_field tb kvs name d hi')" "value_errors (only_fields names kvs)"
    by (auto simp: value_errors_def str_field_def int_field_def only_fields_def split: option.splits json.splits if_splits)
  have "value_errors (map_res str_item vs)" for vs by (rule value_map) (rule item)
  then show "value_errors (str_list_field kvs name hi)"
    by (auto simp: str_list_field_def value_base split: option.splits json.splits)
qed

lemma value_norms [caught_rules]:
  "value_errors (reject_duplicate_paths vals)" "value_errors (normalize_query q)" "value_errors (normalize_changed_path p)"
  by (auto simp: value_errors_def reject_duplicate_paths_def normalize_query_def normalize_changed_path_def Let_def split: if_splits)

lemmas argument_defs = ListFilesArgs_def ReadFileArgs_def ReadFilesArgs_def SearchCodeArgs_def ReadRangeArgs_def ReadSymbolArgs_def
  SearchCodeManyArgs_def WriteFileArgs_def ApplyPatchArgs_def

lemma value_arguments:
  "value_errors (ListFilesArgs kvs)" "value_errors (ReadFileArgs tb kvs)" "value_errors (ReadFilesArgs tb kvs)"
  "value_errors (SearchCodeArgs tb kvs)" "value_errors (ReadRangeArgs tb kvs)" "value_errors (ReadSymbolArgs kvs)"
  "value_errors (SearchCodeManyArgs tb kvs)" "value_errors (WriteFileArgs kvs)" "value_errors (ApplyPatchArgs kvs)"
  unfolding argument_defs by (intro caught_rules)+

lemma value_scope: "value_errors (ScopeEnforcer_check c files)"
  unfolding ScopeEnforcer_check_def by (intro caught_rules) (simp add: Let_def value_base split: prod.splits)

lemma caught_pure_value: "value_errors m \<Longrightarrow> raises_caught (pure m)"
  by (intro caught_pure) (auto simp: value_errors_def caught_def)

lemmas caught_arguments = value_arguments [THEN caught_pure_value] value_scope [THEN caught_pure_value]

lemmas disk_rules = caught_bind caught_check caught_raise caught_ret caught_if caught_prod caught_option caught_resolve caught_handle
  caught_arguments caught_disk

lemma caught_reading:
  assumes "os_errors_only d"
  shows "raises_caught (assert_not_internal p)" "raises_caught (read_text_file d p)" "raises_caught (iter_files d tb base)"
    "raises_caught (resolve_directory d tb p)" "raises_caught (resolve_file_for_read d tb p)"
    "raises_caught (searchable_lines d tb p)" "raises_caught (list_below d tb base)"
proof -
  show internal: "raises_caught (assert_not_internal p)" for p :: string
    unfolding assert_not_internal_def by (intro disk_rules) (simp add: caught_def)
  show iter: "raises_caught (iter_files d tb base)" unfolding iter_files_def by (intro disk_rules)
  show "raises_caught (read_text_file d p)" "raises_caught (searchable_lines d tb p)"
    unfolding read_text_file_def searchable_lines_def by (intro disk_rules assms; simp add: caught_def)+
  show "raises_caught (resolve_directory d tb p)" "raises_caught (resolve_file_for_read d tb p)"
    unfolding resolve_directory_def resolve_file_for_read_def Let_def by (intro disk_rules internal; simp add: caught_def)+
  show "raises_caught (list_below d tb base)" unfolding list_below_def Let_def by (intro disk_rules iter)
qed

lemma caught_loops:
  assumes "os_errors_only d"
  shows "raises_caught (read_each d tb i paths)" "raises_caught (search_files d tb query n paths found)"
    "raises_caught (search_many_files d tb n paths qs)"
proof -
  note rules = disk_rules caught_reading [OF assms]
  show "raises_caught (read_each d tb i paths)" by (induction paths) (auto intro!: rules)
  show "raises_caught (search_files d tb query n paths found)" by (induction paths arbitrary: found) (auto intro!: rules)
  show "raises_caught (search_many_files d tb n paths qs)" by (induction paths arbitrary: qs) (auto intro!: rules)
qed

lemma caught_for_write: "raises_caught (resolve_for_write d tb p)"
proof -
  have internal: "raises_caught (assert_not_internal p)" for p :: string
    unfolding assert_not_internal_def by (intro disk_rules) (simp add: caught_def)
  show ?thesis unfolding resolve_for_write_def Let_def by (intro disk_rules internal; simp add: caught_def)
qed

lemmas handler_defs = list_files_def read_file_def read_files_def read_range_def read_symbol_def search_code_def
  search_code_many_def write_file_def apply_patch_def

lemma caught_handlers:
  assumes "os_errors_only d" "map_of handlers name = Some handler"
  shows "raises_caught (handler d tb kvs)"
proof -
  note rules = disk_rules caught_reading [OF assms(1)] caught_loops [OF assms(1)] caught_for_write assms(1)
  have "raises_caught (list_files d tb kvs)" "raises_caught (read_file d tb kvs)" "raises_caught (read_files d tb kvs)"
    "raises_caught (read_range d tb kvs)" "raises_caught (read_symbol d tb kvs)" "raises_caught (search_code d tb kvs)"
    "raises_caught (search_code_many d tb kvs)" "raises_caught (write_file d tb kvs)" "raises_caught (apply_patch d tb kvs)"
    unfolding handler_defs Let_def by (intro rules | simp add: caught_def)+
  with assms(2) show ?thesis by (auto simp: handlers_def split: if_splits)
qed

lemma ToolCall_result:
  assumes "ToolCall raw = Inr call"
  shows "ToolExecutionResult \<lparr>te_tool_call_id = tl_id call, te_name = tl_name call, te_ok = b, te_content = c, te_error_code = e\<rparr> =
    Inr \<lparr>te_tool_call_id = tl_id call, te_name = tl_name call, te_ok = b, te_content = c, te_error_code = e\<rparr>"
proof -
  from assms obtain i n where call: "normalize_non_empty_text (tl_id raw) = Inr i" "normalize_non_empty_text (tl_name raw) = Inr n"
      "call = raw\<lparr>tl_id := i, tl_name := n\<rparr>" "length (tl_id raw) \<le> 256" "length (tl_name raw) \<le> 128"
    by (auto simp: ToolCall_def bind_res_eq_Inr split: if_splits)
  then have "i \<noteq> []" "n \<noteq> []" "length i \<le> 256" "length n \<le> 128" "strip i = i" "strip n = n"
    by (auto simp: normalize_non_empty_text_def Let_def split: if_splits intro: order_trans [OF length_strip])
  then show ?thesis using call(3) by (auto simp: ToolExecutionResult_def normalize_non_empty_text_def Suc_le_eq)
qed

section \<open>Patches\<close>

lemma occurs_in_iff: "occurs_in sub s \<longleftrightarrow> (\<exists>a b. s = a @ sub @ b)"
proof (induction s)
  case (Cons c s)
  have "occurs_in sub (c # s) \<longleftrightarrow> (\<exists>b. c # s = sub @ b) \<or> (\<exists>a b. s = a @ sub @ b)"
    using Cons.IH by (simp add: prefix_def)
  also have "\<dots> \<longleftrightarrow> (\<exists>a b. c # s = a @ sub @ b)"
    by (metis append_Cons append_Nil list.exhaust list.inject)
  finally show ?case .
qed simp

lemma occurrences_zero: "sub \<noteq> [] \<Longrightarrow> occurrences sub s = 0 \<longleftrightarrow> \<not> occurs_in sub s"
  by (induction s) (simp_all add: occurrences.simps)

lemma occurrence_here:
  assumes "sub \<noteq> []"
  shows "occurrences sub (sub @ b) = Suc (occurrences sub b)" "replace_first sub new (sub @ b) = new @ b"
proof -
  obtain c r where "sub = c # r" using assms by (cases sub) auto
  then show "occurrences sub (sub @ b) = Suc (occurrences sub b)" "replace_first sub new (sub @ b) = new @ b"
    by (simp_all add: occurrences.simps [of "c # r" "c # r @ b"])
qed

text \<open>The first occurrence, which is the one that is replaced.\<close>

lemma first_occurrence:
  assumes "sub \<noteq> []" "occurrences sub s \<noteq> 0"
  shows "\<exists>a b. s = a @ sub @ b \<and> occurrences sub s = Suc (occurrences sub b) \<and>
    (\<forall>new. replace_first sub new s = a @ new @ b) \<and> (\<forall>i < length a. \<not> prefix sub (drop i s))"
  using assms
proof (induction s)
  case Nil
  then show ?case by (simp add: occurrences.simps)
next
  case (Cons c s)
  show ?case
  proof (cases "prefix sub (c # s)")
    case True
    then obtain b where "c # s = sub @ b" by (auto simp: prefix_def)
    with Cons.prems(1) have "c # s = [] @ sub @ b \<and> occurrences sub (c # s) = Suc (occurrences sub b) \<and>
        (\<forall>new. replace_first sub new (c # s) = [] @ new @ b)"
      using occurrence_here [of sub] by simp
    then show ?thesis by (metis length_0_conv not_less_zero)
  next
    case False
    then have "occurrences sub (c # s) = occurrences sub s" using Cons.prems(1) by (simp add: occurrences.simps [of sub "c # s"])
    with Cons obtain a b where ab: "s = a @ sub @ b" "occurrences sub s = Suc (occurrences sub b)"
        "\<forall>new. replace_first sub new s = a @ new @ b" "\<forall>i < length a. \<not> prefix sub (drop i s)" by auto
    have "\<not> prefix sub (drop i (c # s))" if "i < length (c # a)" for i
      using that False ab(4) by (cases i) auto
    with False ab \<open>occurrences sub (c # s) = occurrences sub s\<close> show ?thesis
      by (intro exI [of _ "c # a"] exI [of _ b]) simp
  qed
qed

lemma read_text_Inr: "read_text d p s = (Inr text, s') \<Longrightarrow> \<exists>raw. dk_read d p s = Inr (Some raw) \<and> text = universal_newlines raw"
  by (auto simp: read_text_def bind_res_eq_Inr split: option.splits)

lemma read_text_file_Inr:
  assumes "read_text_file d p s = (Inr text, s')"
  shows "\<exists>raw. dk_read d p s = Inr (Some raw) \<and> text = universal_newlines raw"
proof -
  let ?recover = "\<lambda>e. case e of UnicodeDecodeError _ \<Rightarrow> raise (RepositoryToolError IO_ERROR ''file is not valid UTF-8 text'') | _ \<Rightarrow> raise e"
  have "handle (read_text d p) ?recover s = (Inr text, s')" using assms by (auto simp: read_text_file_def bind_eff_Inr)
  moreover have "?recover e t \<noteq> (Inr text, s')" for e t by (cases e) (auto simp: raise_def)
  ultimately have "read_text d p s = (Inr text, s')" by (auto simp: handle_def split: prod.splits sum.splits)
  then show ?thesis by (rule read_text_Inr)
qed

lemma patch_steps:
  assumes "apply_patch d tb kvs s = (Inr out, s')"
  shows "\<exists>requested old put path raw. ApplyPatchArgs kvs = Inr (requested, old, put) \<and> write_target d tb (strip requested) path s \<and>
    dk_read d path s = Inr (Some raw) \<and> occurrences old (universal_newlines raw) = Suc 0 \<and>
    dk_write d path (replace_first old put (universal_newlines raw)) s = (Inr (), s')"
proof -
  from assms obtain requested old put relative path s1 body s2 where args: "ApplyPatchArgs kvs = Inr (requested, old, put)"
    and steps: "resolve_for_write d tb requested s = (Inr (relative, path), s1)" "read_text_file d path s1 = (Inr body, s2)"
      "occurrences old body = Suc 0" "dk_write d path (replace_first old put body) s2 = (Inr (), s')"
    by (auto simp: apply_patch_def bind_eff_Inr Let_def)
  then have "s1 = s" "s2 = s" using unchanged_run [OF still_for_write] unchanged_run [OF still_read_text_file] by metis+
  with args steps show ?thesis using resolve_for_write_Inr [OF steps(1)] read_text_file_Inr [OF steps(2)] by auto
qed

lemma apply_patch_Inr:
  assumes "apply_patch d tb kvs s = (Inr out, s')"
  shows "\<exists>requested old put path raw a b. ApplyPatchArgs kvs = Inr (requested, old, put) \<and>
    write_target d tb (strip requested) path s \<and> dk_read d path s = Inr (Some raw) \<and>
    universal_newlines raw = a @ old @ b \<and> \<not> occurs_in old b \<and> (\<forall>i < length a. \<not> prefix old (drop i (a @ old @ b))) \<and>
    dk_write d path (a @ put @ b) s = (Inr (), s')"
proof -
  from assms obtain requested old put path raw where args: "ApplyPatchArgs kvs = Inr (requested, old, put)"
    and path: "write_target d tb (strip requested) path s"
    and raw: "dk_read d path s = Inr (Some raw)" "occurrences old (universal_newlines raw) = Suc 0"
    and out: "dk_write d path (replace_first old put (universal_newlines raw)) s = (Inr (), s')"
    using patch_steps [OF assms] by blast
  have "old \<noteq> []" using args by (auto simp: ApplyPatchArgs_def bind_res_eq_Inr str_field_def split: option.splits json.splits if_splits)
  then obtain a b where ab: "universal_newlines raw = a @ old @ b" "occurrences old b = 0"
      "\<forall>n. replace_first old n (universal_newlines raw) = a @ n @ b" "\<forall>i < length a. \<not> prefix old (drop i (a @ old @ b))"
    using first_occurrence [of old "universal_newlines raw"] raw(2) by (metis Suc_inject nat.simps(3))
  then have "\<not> occurs_in old b" "dk_write d path (a @ put @ b) s = (Inr (), s')"
    using occurrences_zero [OF \<open>old \<noteq> []\<close>] out by auto
  with args path raw(1) ab(1,4) show ?thesis by blast
qed

lemma execute_ok:
  assumes "execute d tb call s = (Inr r, s')" "te_ok r"
  shows "\<exists>handler kvs out. map_of handlers (tl_name call) = Some handler \<and>
    tb_loads tb (if tl_arguments call = [] then ''{}'' else tl_arguments call) = Inr (J_Obj kvs) \<and> handler d tb kvs s = (Inr out, s')"
proof -
  have okay: "te_ok r \<longleftrightarrow> te_ok r'" if "ToolExecutionResult r' = Inr r" for r'
    using that by (auto simp: ToolExecutionResult_def bind_res_eq_Inr split: if_splits)
  from assms obtain handler out where run: "map_of handlers (tl_name call) = Some handler" "run_handler d tb handler call s = (Inr out, s')"
    by (auto simp: execute_def error_result_def pure_def dest!: okay split: option.splits prod.splits sum.splits)
  from run(2) obtain raw where raw: "tb_loads tb (if tl_arguments call = [] then ''{}'' else tl_arguments call) = Inr raw"
      "(case raw of J_Obj kvs \<Rightarrow> handler d tb kvs | _ \<Rightarrow> raise (ValueError ''tool arguments must be a JSON object'')) s = (Inr out, s')"
    by (auto simp: run_handler_def bind_eff_Inr)
  with run(1) show ?thesis by (cases raw) auto
qed

section \<open>A small disk\<close>

text \<open>Files as a map from paths to texts, without directories and links; the calls are those of two spellings of one file.\<close>

definition tool_disk :: "(string \<rightharpoonup> string) disk" where
  "tool_disk = \<lparr>dk_host = \<lparr>run_git = (\<lambda>_ _ w. (Not_Found, w)), h_resolve = (\<lambda>p _. p), h_exists = (\<lambda>p w. w p \<noteq> None),
       h_is_dir = (\<lambda>_ _. False), h_is_symlink = (\<lambda>_ _. False), h_mkdir = (\<lambda>_ w. (Inr (), w))\<rparr>,
     dk_is_file = (\<lambda>p w. w p \<noteq> None), dk_size = (\<lambda>p w. Inr (case w p of None \<Rightarrow> 0 | Some t \<Rightarrow> length (utf8 t))),
     dk_read = (\<lambda>p w. case w p of None \<Rightarrow> Inl (OSError ''no such file'') | Some t \<Rightarrow> Inr (Some t)),
     dk_bytes = (\<lambda>p w. case w p of None \<Rightarrow> Inl (OSError ''no such file'') | Some t \<Rightarrow> Inr (utf8 t)), dk_below = (\<lambda>_ _. []),
     dk_write = (\<lambda>p t w. (Inr (), w(p \<mapsto> t)))\<rparr>"

definition write_arguments :: "string \<Rightarrow> arguments" where
  "write_arguments p = [(''path'', J_Str p), (''content'', J_Str ''new'')]"

definition patch_arguments :: arguments where
  "patch_arguments = [(''path'', J_Str ''src/y''), (''old_text'', J_Str ''a''), (''new_text'', J_Str ''b'')]"

definition tool_call_for :: "string \<Rightarrow> arguments \<Rightarrow> tool_call" where
  "tool_call_for name kvs = \<lparr>tl_id = ''c1'', tl_name = name, tl_arguments = dumps (J_Obj kvs)\<rparr>"

definition demo_tools :: toolbox where
  "demo_tools = \<lparr>tb_root = ''/r'', tb_task = demo_contract, tb_max_read_range_lines = 400, tb_resolve_symbol = (\<lambda>_ _ _. None),
     tb_as_int = (\<lambda>v. case v of J_Int i \<Rightarrow> Some i | _ \<Rightarrow> None),
     tb_loads = (\<lambda>t. case find (\<lambda>kvs. t = dumps (J_Obj kvs)) [write_arguments ''src/x'', write_arguments ''src/./x'', patch_arguments] of
        None \<Rightarrow> Inl (ValueError ''not JSON'') | Some kvs \<Rightarrow> Inr (J_Obj kvs))\<rparr>"

lemma demo_loads:
  "tb_loads demo_tools (dumps (J_Obj (write_arguments ''src/x''))) = Inr (J_Obj (write_arguments ''src/x''))"
  "tb_loads demo_tools (dumps (J_Obj (write_arguments ''src/./x''))) = Inr (J_Obj (write_arguments ''src/./x''))"
  "tb_loads demo_tools (dumps (J_Obj patch_arguments)) = Inr (J_Obj patch_arguments)"
  "dumps (J_Obj kvs) \<noteq> []"
  by (code_simp, code_simp, code_simp, simp)

lemma demo_resolve:
  "resolve_path tool_disk ''/r'' ''src/x'' s = (Inr ''/r/src/x'', s)"
  "resolve_path tool_disk ''/r'' ''src/./x'' s = (Inr ''/r/src/x'', s)"
  "resolve_path tool_disk ''/r'' ''src/y'' s = (Inr ''/r/src/y'', s)"
proof -
  have parts: "path_parts ''src/x'' = [''src'', ''x'']" "path_parts ''src/./x'' = [''src'', ''x'']" "path_parts ''src/y'' = [''src'', ''y'']"
    by code_simp+
  have strips: "strip ''src/x'' = ''src/x''" "strip ''src/./x'' = ''src/./x''" "strip ''src/y'' = ''src/y''" by code_simp+
  show "resolve_path tool_disk ''/r'' ''src/x'' s = (Inr ''/r/src/x'', s)"
    "resolve_path tool_disk ''/r'' ''src/./x'' s = (Inr ''/r/src/x'', s)" "resolve_path tool_disk ''/r'' ''src/y'' s = (Inr ''/r/src/y'', s)"
    by (simp_all add: resolve_path_def strips parts bind_eff_def check_def ret_def look_def path_join_def tool_disk_def path_within_def prefix_def)
qed

lemma demo_scope:
  "ScopeEnforcer_check demo_contract [''src/x''] = Inr \<lparr>scope_check_result.changed_files = [''src/x''], allowed_files = [],
     violations = [\<lparr>sv_path = ''src/x'', sv_kind = READ_ONLY, matched_pattern = Some ''src/x''\<rparr>]\<rparr>"
  "ScopeEnforcer_check demo_contract [''src/./x''] = Inr \<lparr>scope_check_result.changed_files = [''src/./x''], allowed_files = [''src/./x''], violations = []\<rparr>"
  "ScopeEnforcer_check demo_contract [''src/y''] = Inr \<lparr>scope_check_result.changed_files = [''src/y''], allowed_files = [''src/y''], violations = []\<rparr>"
  by code_simp+

lemma demo_tool_texts:
  "strip ''src/x'' = ''src/x''" "strip ''src/./x'' = ''src/./x''" "strip ''src/y'' = ''src/y''"
  "\<not> is_internal ''src/x''" "\<not> is_internal ''src/./x''" "\<not> is_internal ''src/y''"
  "WriteFileArgs (write_arguments ''src/x'') = Inr (''src/x'', ''new'')"
  "WriteFileArgs (write_arguments ''src/./x'') = Inr (''src/./x'', ''new'')"
  "ApplyPatchArgs patch_arguments = Inr (''src/y'', ''a'', ''b'')"
proof -
  show "strip ''src/x'' = ''src/x''" "strip ''src/./x'' = ''src/./x''" "strip ''src/y'' = ''src/y''"
    "\<not> is_internal ''src/x''" "\<not> is_internal ''src/./x''" "\<not> is_internal ''src/y''" by code_simp+
  show "WriteFileArgs (write_arguments ''src/x'') = Inr (''src/x'', ''new'')"
    "WriteFileArgs (write_arguments ''src/./x'') = Inr (''src/./x'', ''new'')"
    "ApplyPatchArgs patch_arguments = Inr (''src/y'', ''a'', ''b'')"
    by (simp_all add: WriteFileArgs_def ApplyPatchArgs_def write_arguments_def patch_arguments_def only_fields_def str_field_def MAX_FILE_BYTES_def)
qed

lemmas tool_run_defs = execute_def handlers_def run_handler_def tool_call_for_def demo_loads write_file_def apply_patch_def demo_tool_texts
  resolve_for_write_def assert_not_internal_def demo_resolve demo_scope scope_passed_def bind_eff_def check_def ret_def raise_def
  look_def pure_def Let_def caught_def error_result_def ToolExecutionResult_def normalize_non_empty_text_def kind_value_def

lemma demo_fields [simp]: "tb_root demo_tools = ''/r''" "tb_task demo_tools = demo_contract"
  "dk_write tool_disk p t w = (Inr (), w(p \<mapsto> t))" "h_mkdir (dk_host tool_disk) p w = (Inr (), w)"
  "h_is_dir (dk_host tool_disk) p w = False" "dk_is_file tool_disk p w = (w p \<noteq> None)"
  by (simp_all add: demo_tools_def tool_disk_def)

text \<open>C5. A tool call changes at most one file, and only where the task may write. Whatever the agent sends, and whether
  the call succeeds or fails, the disk is left as it was, or one directory was made and one file was replaced:
  a file below the root of the workspace, reached without \<open>..\<close>, without symbolic links and outside \<open>.git\<close>, which is no
  directory, whose path as the agent spelled it matches a writable pattern and no read-only pattern of the
  contract, with at most a million bytes. Only \<open>write_file\<close> and \<open>apply_patch\<close> change anything at all.\<close>

theorem tool_calls_confined:
  "confined_change d tb s (snd (execute d tb call s)) \<and>
   (snd (execute d tb call s) \<noteq> s \<longrightarrow> tl_name call \<in> {''write_file'', ''apply_patch''})"
proof (cases "map_of handlers (tl_name call) :: ('a disk \<Rightarrow> toolbox \<Rightarrow> arguments \<Rightarrow> ('a, string) effect) option")
  case None
  then show ?thesis by (simp add: execute_state)
next
  case (Some handler)
  then show ?thesis
    using handlers_confined [OF Some, of d tb s call] reading_names [OF Some, of d tb call s] by (auto simp: execute_state)
qed

theorem tool_calls_confined_witness:
  "snd (execute tool_disk demo_tools (tool_call_for ''write_file'' (write_arguments ''src/./x'')) Map.empty) = [''/r/src/x'' \<mapsto> ''new''] \<and>
   confined_change tool_disk demo_tools Map.empty [''/r/src/x'' \<mapsto> ''new''] \<and>
   tl_name (tool_call_for ''write_file'' (write_arguments ''src/./x'')) \<in> {''write_file'', ''apply_patch''}"
proof -
  have run: "snd (execute tool_disk demo_tools (tool_call_for ''write_file'' (write_arguments ''src/./x'')) Map.empty) = [''/r/src/x'' \<mapsto> ''new'']"
    by (simp add: tool_run_defs utf8_def utf8_char_def MAX_FILE_BYTES_def del: dumps.simps)
  from tool_calls_confined [of tool_disk demo_tools Map.empty "tool_call_for ''write_file'' (write_arguments ''src/./x'')"]
  show ?thesis unfolding run by simp
qed

text \<open>Every expected failure of a tool is reported to the agent as a result. For a validated call, a JSON decoder that raises
  nothing but a decoding error and a disk that raises nothing but \<open>OSError\<close>, \<open>execute\<close> never raises: it
  returns a result for this very call, which carries an error code exactly when it is not a success.\<close>

theorem tool_errors_reported:
  assumes "ToolCall raw = Inr call" "os_errors_only d" "\<And>text. value_errors (tb_loads tb text)"
  shows "\<exists>r. fst (execute d tb call s) = Inr r \<and> te_tool_call_id r = tl_id call \<and> te_name r = tl_name call \<and>
    (te_ok r \<longleftrightarrow> te_error_code r = None)"
proof (cases "map_of handlers (tl_name call) :: ('a disk \<Rightarrow> toolbox \<Rightarrow> arguments \<Rightarrow> ('a, string) effect) option")
  case None
  then show ?thesis by (simp add: execute_def pure_def error_result_def ToolCall_result [OF assms(1)])
next
  case (Some handler)
  have "raises_caught (case v of J_Obj kvs \<Rightarrow> handler d tb kvs | _ \<Rightarrow> raise (ValueError ''tool arguments must be a JSON object''))" for v
    using caught_handlers [OF assms(2) Some] by (cases v) (auto intro!: caught_raise simp: caught_def)
  then have "raises_caught (run_handler d tb handler call)"
    unfolding run_handler_def by (intro caught_bind caught_pure_value assms(3))
  moreover obtain r s' where run: "run_handler d tb handler call s = (r, s')" by fastforce
  ultimately have "caught e \<noteq> None" if "r = Inl e" for e using that unfolding raises_caught_def by (metis fst_conv)
  with Some run show ?thesis
    by (cases r) (auto simp: execute_def error_result_def ToolCall_result [OF assms(1)])
qed

theorem tool_errors_reported_witness:
  "fst (execute tool_disk demo_tools (tool_call_for ''write_file'' (write_arguments ''src/x'')) Map.empty) =
     Inr \<lparr>te_tool_call_id = ''c1'', te_name = ''write_file'', te_ok = False,
       te_content = ''Write denied by READ_ONLY: src/x'', te_error_code = Some PATH_DENIED\<rparr> \<and>
   (\<exists>r. fst (execute tool_disk demo_tools (tool_call_for ''write_file'' (write_arguments ''src/x'')) Map.empty) = Inr r \<and>
      te_tool_call_id r = ''c1'' \<and> (te_ok r \<longleftrightarrow> te_error_code r = None))"
proof -
  let ?call = "tool_call_for ''write_file'' (write_arguments ''src/x'')"
  have "ToolCall ?call = Inr ?call" by code_simp
  moreover have "os_errors_only tool_disk" by (auto simp: os_errors_only_def tool_disk_def split: option.splits)
  moreover have "value_errors (tb_loads demo_tools t)" for t
    by (auto simp: value_errors_def demo_tools_def split: option.splits)
  ultimately have "\<exists>r. fst (execute tool_disk demo_tools ?call Map.empty) = Inr r \<and> te_tool_call_id r = ''c1'' \<and>
      (te_ok r \<longleftrightarrow> te_error_code r = None)"
    using tool_errors_reported [of ?call ?call tool_disk demo_tools Map.empty] by (auto simp: tool_call_for_def)
  moreover have "strip ''c1'' = ''c1''" "strip ''write_file'' = ''write_file''" by code_simp+
  then have "fst (execute tool_disk demo_tools ?call Map.empty) = Inr \<lparr>te_tool_call_id = ''c1'', te_name = ''write_file'', te_ok = False,
       te_content = ''Write denied by READ_ONLY: src/x'', te_error_code = Some PATH_DENIED\<rparr>"
    by (simp add: tool_run_defs del: dumps.simps)
  ultimately show ?thesis by blast
qed

text \<open>C35. A patch replaces one piece of text, and rewrites the line endings of the whole file. When a call of \<open>apply_patch\<close>
  succeeds, the text of the file, read with every \<open>\r\n\<close> and \<open>\r\<close> turned into \<open>\n\<close>, is \<open>a @ old @ b\<close> with no earlier
  occurrence and none in \<open>b\<close>, and the file now reads \<open>a @ put @ b\<close>, in which no carriage return of the
  original is left.\<close>

theorem patch_replaces_one_piece:
  assumes "execute d tb call s = (Inr r, s')" "te_ok r" "tl_name call = ''apply_patch''"
  shows "\<exists>kvs requested old put path raw a b. tb_loads tb (if tl_arguments call = [] then ''{}'' else tl_arguments call) = Inr (J_Obj kvs) \<and>
    ApplyPatchArgs kvs = Inr (requested, old, put) \<and> write_target d tb (strip requested) path s \<and>
    dk_read d path s = Inr (Some raw) \<and> universal_newlines raw = a @ old @ b \<and> \<not> occurs_in old b \<and>
    (\<forall>i < length a. \<not> prefix old (drop i (a @ old @ b))) \<and> CHR 0x0D \<notin> set (a @ b) \<and>
    dk_write d path (a @ put @ b) s = (Inr (), s')"
proof -
  from execute_ok [OF assms(1,2)] assms(3) obtain kvs out where
    kvs: "tb_loads tb (if tl_arguments call = [] then ''{}'' else tl_arguments call) = Inr (J_Obj kvs)"
    and run: "apply_patch d tb kvs s = (Inr out, s')"
    by (auto simp: handlers_def)
  from apply_patch_Inr [OF run] obtain requested old put path raw a b where
    patch: "ApplyPatchArgs kvs = Inr (requested, old, put)" "write_target d tb (strip requested) path s"
      "dk_read d path s = Inr (Some raw)" "universal_newlines raw = a @ old @ b" "\<not> occurs_in old b"
      "\<forall>i < length a. \<not> prefix old (drop i (a @ old @ b))" "dk_write d path (a @ put @ b) s = (Inr (), s')" by blast
  have "CHR 0x0D \<notin> set (a @ b)" using universal_newlines_no_return [of raw] patch(4) by auto
  with kvs patch show ?thesis by blast
qed

theorem patch_replaces_one_piece_witness:
  "\<exists>r. execute tool_disk demo_tools (tool_call_for ''apply_patch'' patch_arguments)
       [''/r/src/y'' \<mapsto> [CHR ''a'', CHR 0x0D, CHR 0x0A, CHR ''c'', CHR 0x0D, CHR 0x0A]] =
     (Inr r, [''/r/src/y'' \<mapsto> [CHR ''b'', CHR 0x0A, CHR ''c'', CHR 0x0A]]) \<and> te_ok r \<and>
   (\<exists>raw a b. universal_newlines raw = a @ ''a'' @ b \<and> CHR 0x0D \<in> set raw \<and> CHR 0x0D \<notin> set (a @ b))"
proof -
  let ?call = "tool_call_for ''apply_patch'' patch_arguments"
  let ?s = "[''/r/src/y'' \<mapsto> [CHR ''a'', CHR 0x0D, CHR 0x0A, CHR ''c'', CHR 0x0D, CHR 0x0A]]"
  have names: "strip ''c1'' = ''c1''" "strip ''apply_patch'' = ''apply_patch''" by code_simp+
  have patch: "occurrences ''a'' [CHR ''a'', CHR 0x0A, CHR ''c'', CHR 0x0A] = 1"
    "universal_newlines [CHR ''a'', CHR 0x0D, CHR 0x0A, CHR ''c'', CHR 0x0D, CHR 0x0A] = [CHR ''a'', CHR 0x0A, CHR ''c'', CHR 0x0A]"
    "replace_first ''a'' ''b'' [CHR ''a'', CHR 0x0A, CHR ''c'', CHR 0x0A] = [CHR ''b'', CHR 0x0A, CHR ''c'', CHR 0x0A]"
    by code_simp+
  have "read_text_file tool_disk ''/r/src/y'' ?s = (Inr [CHR ''a'', CHR 0x0A, CHR ''c'', CHR 0x0A], ?s)"
    using patch(2) by (simp add: read_text_file_def read_text_def tool_disk_def look_res_def bind_eff_def check_def ret_def handle_def
        utf8_def utf8_char_def MAX_FILE_BYTES_def)
  then obtain r where run: "execute tool_disk demo_tools ?call ?s = (Inr r, [''/r/src/y'' \<mapsto> [CHR ''b'', CHR 0x0A, CHR ''c'', CHR 0x0A]])" "te_ok r"
    using patch by (simp add: tool_run_defs names utf8_def utf8_char_def MAX_FILE_BYTES_def del: dumps.simps)
  from patch_replaces_one_piece [OF run(1,2)] obtain kvs requested old put path raw a b where
    "tb_loads demo_tools (dumps (J_Obj patch_arguments)) = Inr (J_Obj kvs)" "ApplyPatchArgs kvs = Inr (requested, old, put)"
    "dk_read tool_disk path ?s = Inr (Some raw)" "universal_newlines raw = a @ old @ b" "CHR 0x0D \<notin> set (a @ b)"
    using demo_loads(4) [of patch_arguments] by (auto simp: tool_call_for_def simp del: dumps.simps)
  then have "universal_newlines raw = a @ ''a'' @ b \<and> CHR 0x0D \<in> set raw \<and> CHR 0x0D \<notin> set (a @ b)"
    using demo_loads(3) demo_tool_texts(9) by (auto simp: tool_disk_def split: option.splits if_splits simp del: dumps.simps)
  with run show ?thesis by blast
qed


text \<open>Occurrences are counted without overlap, so a text that occurs at two overlapping places is taken as unique.\<close>

lemma overlapping_occurrences_count_once:
  "occurrences ''aa'' ''aaa'' = 1 \<and> prefix ''aa'' ''aaa'' \<and> prefix ''aa'' (drop 1 ''aaa'')"
  by code_simp

end
