(* ===== verification/Worker_Wave.thy ===== *)
theory Worker_Wave
  imports Merge_Queue
begin

text \<open>
  One wave of parallel workers (\<open>runtime/worker_coordinator.py\<close>, \<open>models/worker.py\<close>).

  A wave runs the tasks that are ready when it begins, each as an asyncio task, at most \<open>max_concurrency\<close> at a time, with a
  lock around the Git operations. The state of a worker is its place in \<open>execute\<close>, one \<open>phase\<close> per await; a step
  of \<open>worker_step\<close> runs one worker from an await to the next, so that every interleaving the event loop can choose is a
  run of the relation. The runner returns any result for its task or raises anything, the world changes in any way
  between two steps, and the wave can be cancelled at any moment.

  The lemmas show that the scheduler, the workers and the two locks agree in every reachable state, that no worker
  ends with an exception of its own, that the result of a finished wave validates, and that a wave neither
  deadlocks nor runs forever.
\<close>

section \<open>Results of a worker\<close>

fun exn_name :: "exn \<Rightarrow> string" where
  "exn_name (ValueError _) = ''ValueError''"
| "exn_name (KeyError _) = ''KeyError''"
| "exn_name (RuntimeError _) = ''RuntimeError''"
| "exn_name (PersistenceConflictError _) = ''PersistenceConflictError''"
| "exn_name (PersistenceCorruptionError _) = ''PersistenceCorruptionError''"
| "exn_name (TaskLeaseConflictError _) = ''TaskLeaseConflictError''"
| "exn_name (TaskLeaseExpiredError _) = ''TaskLeaseExpiredError''"
| "exn_name (StaleRunTokenError _) = ''StaleRunTokenError''"
| "exn_name (MergeQueueError _) = ''MergeQueueError''"
| "exn_name (RunBudgetExhaustedError _) = ''RunBudgetExhaustedError''"
| "exn_name (PlanningTokenBudgetReservationError _) = ''PlanningTokenBudgetReservationError''"
| "exn_name (TaskDispatchRejectedError _) = ''TaskDispatchRejectedError''"
| "exn_name (TaskDispatchBrokerError _) = ''TaskDispatchBrokerError''"
| "exn_name (WorkPackagePlanError _) = ''WorkPackagePlanError''"
| "exn_name (IntegrityError _) = ''IntegrityError''"
| "exn_name (NoResultFound _) = ''NoResultFound''"
| "exn_name (AssertionError _) = ''AssertionError''"
| "exn_name (WorkspaceGitError _) = ''WorkspaceGitError''"
| "exn_name (TaskWorktreeError _) = ''TaskWorktreeError''"
| "exn_name (TaskWorktreeCollisionError _) = ''TaskWorktreeCollisionError''"
| "exn_name (StaleTaskWorktreeError _) = ''StaleTaskWorktreeError''"
| "exn_name (RepositoryToolError _ _) = ''RepositoryToolError''"
| "exn_name (OSError _) = ''OSError''"
| "exn_name (UnicodeDecodeError _) = ''UnicodeDecodeError''"

definition worker_failure :: "string \<Rightarrow> string list \<Rightarrow> failure_report res" where
  "worker_failure message evidence = FailureReport \<lparr>fr_type = TOOL_FAILURE, fr_source = F_RUNTIME, fr_message = message,
     fr_retryable = False, fr_evidence = evidence\<rparr>"

definition cancelled_failure :: "failure_report res" where
  "cancelled_failure = worker_failure ''Worker task was cancelled before terminal completion.'' [''worker_cancelled=true'']"

definition exception_failure :: "exn \<Rightarrow> failure_report res" where
  "exception_failure e = worker_failure ''Worker execution failed before successful task-branch finalization.''
     [''exception_type='' @ exn_name e]"

definition worker_result ::
    "scheduler \<Rightarrow> task_id \<Rightarrow> int \<Rightarrow> task_worktree_record option \<Rightarrow> single_task_run_result option \<Rightarrow> failure_report list
     \<Rightarrow> string option \<Rightarrow> worker_task_result res" where
  "worker_result s t elapsed r rr failures commit_sha =
     bind_res (require_task s t) (\<lambda>st. WorkerTaskResult
       \<lparr>wt_task = t, wt_state = st, wt_worktree_path = map_option tw_path r, wt_branch = map_option tw_branch_name r,
        wt_base_commit = map_option tw_base_commit r, wt_commit = commit_sha, wt_run_result = rr, wt_failures = failures,
        wt_duration_ms = max 0 elapsed\<rparr>)"

definition fail_if_running :: "scheduler \<Rightarrow> task_id \<Rightarrow> scheduler res" where
  "fail_if_running s t = bind_res (require_task s t) (\<lambda>st. if st = task_schedule_state.RUNNING then sched_fail s t else Inr s)"

section \<open>Workers\<close>

text \<open>
  Where \<open>execute\<close> waits: for the semaphore, for the Git lock before creating the worktree, in \<open>create\<close> and
  \<open>open_workspace\<close> with the lock, in the runner, for the lock before the commit, and in the commit. \<open>Gone\<close> is a worker
  cancelled before it got the semaphore, \<open>Raised\<close> one that ended with an exception.
\<close>

datatype phase =
    Waiting | Wants_Create | Creating | Opening task_worktree_record | Working task_worktree_record
  | Wants_Commit task_worktree_record single_task_run_result | Committing task_worktree_record single_task_run_result
  | Done worker_task_result | Raised exn | Gone

record wave_config =
  wc_manager :: worktree_manager
  wc_scheduled :: "task_id list"
  wc_bases :: "task_id \<rightharpoonup> string option"
  wc_max_concurrency :: nat

record 'g wave =
  wv_scheduler :: scheduler
  wv_world :: 'g
  wv_phase :: "task_id \<Rightarrow> phase"
  wv_slots :: nat
  wv_git_lock :: "task_id option"
  wv_active :: nat
  wv_peak :: nat
  wv_cancelled :: bool

definition goto :: "task_id \<Rightarrow> phase \<Rightarrow> 'g wave \<Rightarrow> 'g wave" where
  "goto t p w = w\<lparr>wv_phase := (wv_phase w)(t := p)\<rparr>"

text \<open>The \<open>finally\<close> block and the exit of the semaphore.\<close>

definition leave :: "task_id \<Rightarrow> worker_task_result res \<Rightarrow> 'g wave \<Rightarrow> 'g wave" where
  "leave t r w = goto t (case r of Inl e \<Rightarrow> Raised e | Inr x \<Rightarrow> Done x)
     (w\<lparr>wv_active := wv_active w - 1, wv_slots := wv_slots w + 1\<rparr>)"

text \<open>The two exception handlers.\<close>

definition abandon ::
    "task_id \<Rightarrow> int \<Rightarrow> task_worktree_record option \<Rightarrow> single_task_run_result option \<Rightarrow> failure_report res \<Rightarrow> 'g wave \<Rightarrow> 'g wave" where
  "abandon t elapsed r rr failure w = (case bind_res failure (\<lambda>f.
       bind_res (fail_if_running (wv_scheduler w) t) (\<lambda>s. Inr (f, s))) of
     Inl e \<Rightarrow> leave t (Inl e) w
   | Inr (f, s) \<Rightarrow> leave t (worker_result s t elapsed r rr [f] None) (w\<lparr>wv_scheduler := s\<rparr>))"

definition free_lock :: "'g wave \<Rightarrow> 'g wave" where
  "free_lock w = w\<lparr>wv_git_lock := None\<rparr>"

definition begin_worker :: "task_id \<Rightarrow> int \<Rightarrow> 'g wave \<Rightarrow> 'g wave" where
  "begin_worker t elapsed w =
     (let w1 = w\<lparr>wv_slots := wv_slots w - 1, wv_active := wv_active w + 1, wv_peak := max (wv_peak w) (wv_active w + 1)\<rparr> in
      case sched_start (wv_scheduler w1) t of
        Inl e \<Rightarrow> abandon t elapsed None None (exception_failure e) w1
      | Inr s \<Rightarrow> (case dag_node (dag s) t of
          Inl e \<Rightarrow> abandon t elapsed None None (exception_failure e) (w1\<lparr>wv_scheduler := s\<rparr>)
        | Inr node \<Rightarrow> goto t Wants_Create (w1\<lparr>wv_scheduler := s\<rparr>)))"

definition lock_git :: "task_id \<Rightarrow> phase \<Rightarrow> 'g wave \<Rightarrow> 'g wave" where
  "lock_git t p w = goto t p (w\<lparr>wv_git_lock := Some t\<rparr>)"

definition create_done :: "'g host \<Rightarrow> (string \<Rightarrow> string) \<Rightarrow> wave_config \<Rightarrow> task_id \<Rightarrow> int \<Rightarrow> 'g wave \<Rightarrow> 'g wave" where
  "create_done h sha wc t elapsed w =
     (case create_worktree h sha (wc_manager wc) t (the (wc_bases wc t)) (wv_world w) of
        (Inl e, g) \<Rightarrow> abandon t elapsed None None (exception_failure e) (free_lock (w\<lparr>wv_world := g\<rparr>))
      | (Inr r, g) \<Rightarrow> goto t (Opening r) (w\<lparr>wv_world := g\<rparr>))"

definition open_done :: "'g host \<Rightarrow> (string \<Rightarrow> string) \<Rightarrow> wave_config \<Rightarrow> task_id \<Rightarrow> int \<Rightarrow> task_worktree_record \<Rightarrow> 'g wave \<Rightarrow> 'g wave" where
  "open_done h sha wc t elapsed r w =
     (case open_workspace h sha (wc_manager wc) t (wv_world w) of
        (Inl e, g) \<Rightarrow> abandon t elapsed (Some r) None (exception_failure e) (free_lock (w\<lparr>wv_world := g\<rparr>))
      | (Inr workspace, g) \<Rightarrow> goto t (Working r) (free_lock (w\<lparr>wv_world := g\<rparr>)))"

definition run_done :: "task_id \<Rightarrow> int \<Rightarrow> task_worktree_record \<Rightarrow> single_task_run_result res \<Rightarrow> 'g wave \<Rightarrow> 'g wave" where
  "run_done t elapsed r outcome w =
     (case outcome of
        Inl e \<Rightarrow> abandon t elapsed (Some r) None (exception_failure e) w
      | Inr rr \<Rightarrow>
          if sr_status rr = T_FAILED then
            (case sched_fail (wv_scheduler w) t of
               Inl e \<Rightarrow> abandon t elapsed (Some r) (Some rr) (exception_failure e) w
             | Inr s \<Rightarrow> (case worker_result s t elapsed (Some r) (Some rr) (sr_failures rr) None of
                 Inl e \<Rightarrow> abandon t elapsed (Some r) (Some rr) (exception_failure e) (w\<lparr>wv_scheduler := s\<rparr>)
               | Inr x \<Rightarrow> leave t (Inr x) (w\<lparr>wv_scheduler := s\<rparr>)))
          else if sr_status rr \<noteq> T_SUCCEEDED then
            abandon t elapsed (Some r) (Some rr) (exception_failure (RuntimeError ''single-task runner returned a non-terminal status'')) w
          else goto t (Wants_Commit r rr) w)"

definition commit_done ::
    "'g host \<Rightarrow> (string \<Rightarrow> string) \<Rightarrow> wave_config \<Rightarrow> task_id \<Rightarrow> int \<Rightarrow> task_worktree_record \<Rightarrow> single_task_run_result \<Rightarrow> 'g wave \<Rightarrow> 'g wave" where
  "commit_done h sha wc t elapsed r rr w =
     (case commit_task_changes h sha (wc_manager wc) t (wv_world w) of
        (Inl e, g) \<Rightarrow> abandon t elapsed (Some r) (Some rr) (exception_failure e) (free_lock (w\<lparr>wv_world := g\<rparr>))
      | (Inr commit_sha, g) \<Rightarrow>
          (let w1 = free_lock (w\<lparr>wv_world := g\<rparr>) in
           case sched_succeed (wv_scheduler w1) t of
             Inl e \<Rightarrow> abandon t elapsed (Some r) (Some rr) (exception_failure e) w1
           | Inr s \<Rightarrow> (case worker_result s t elapsed (Some r) (Some rr) [] (Some commit_sha) of
               Inl e \<Rightarrow> abandon t elapsed (Some r) (Some rr) (exception_failure e) (w1\<lparr>wv_scheduler := s\<rparr>)
             | Inr x \<Rightarrow> leave t (Inr x) (w1\<lparr>wv_scheduler := s\<rparr>))))"

text \<open>\<open>CancelledError\<close> at the await where the worker is.\<close>

definition cancel_worker :: "task_id \<Rightarrow> int \<Rightarrow> 'g wave \<Rightarrow> 'g wave" where
  "cancel_worker t elapsed w = (case wv_phase w t of
     Waiting \<Rightarrow> goto t Gone w
   | Wants_Create \<Rightarrow> abandon t elapsed None None cancelled_failure w
   | Creating \<Rightarrow> abandon t elapsed None None cancelled_failure (free_lock w)
   | Opening r \<Rightarrow> abandon t elapsed (Some r) None cancelled_failure (free_lock w)
   | Working r \<Rightarrow> abandon t elapsed (Some r) None cancelled_failure w
   | Wants_Commit r rr \<Rightarrow> abandon t elapsed (Some r) (Some rr) cancelled_failure w
   | Committing r rr \<Rightarrow> abandon t elapsed (Some r) (Some rr) cancelled_failure (free_lock w)
   | _ \<Rightarrow> w)"

section \<open>The wave\<close>

record parallel_worker_wave_result =
  pw_scheduled :: "task_id list"
  pw_results :: "worker_task_result list"
  pw_next_ready :: "task_id list"
  pw_snapshot :: scheduler_snapshot
  pw_max_concurrency :: int
  pw_peak_concurrency :: int

definition ParallelWorkerWaveResult :: "parallel_worker_wave_result \<Rightarrow> parallel_worker_wave_result res" where
  "ParallelWorkerWaveResult p =
     (if pw_max_concurrency p < 1 then Inl (ValueError ''max_concurrency'')
      else if pw_peak_concurrency p < 0 then Inl (ValueError ''peak_concurrency'')
      else if \<not> distinct (pw_scheduled p) then Inl (ValueError ''scheduled_task_ids must be unique'')
      else if map wt_task (pw_results p) \<noteq> pw_scheduled p
      then Inl (ValueError ''worker results must preserve the deterministic scheduled task order'')
      else if pw_peak_concurrency p > pw_max_concurrency p
      then Inl (ValueError ''peak worker concurrency must not exceed the configured limit'')
      else if pw_scheduled p \<noteq> [] \<and> pw_peak_concurrency p < 1
      then Inl (ValueError ''non-empty worker waves must observe at least one active worker'')
      else Inr p)"

fun resolve_task_bases ::
    "(task_id \<Rightarrow> ('g, string option) effect) option \<Rightarrow> scheduler \<Rightarrow> task_id list \<Rightarrow> ('g, (task_id \<times> string option) list) effect" where
  "resolve_task_bases resolver s [] = ret []"
| "resolve_task_bases resolver s (t # ts) =
     bind_eff (pure (dag_node (dag s) t)) (\<lambda>node.
     bind_eff (case resolver of None \<Rightarrow> ret None | Some f \<Rightarrow> f t) (\<lambda>requested.
     bind_eff (check (\<not> (depends_on node \<noteq> [] \<and> requested = None)) (RuntimeError
       ''dependent READY task requires an integrated descendant base commit before worker execution'')) (\<lambda>_.
     bind_eff (resolve_task_bases resolver s ts) (\<lambda>rest.
     ret ((t, requested) # rest)))))"

definition wave_report :: "scheduler \<Rightarrow> task_id list \<Rightarrow> worker_task_result list \<Rightarrow> nat \<Rightarrow> nat \<Rightarrow> parallel_worker_wave_result res" where
  "wave_report s scheduled results limit peak =
     bind_res (sched_ready_task_ids s) (\<lambda>ready.
     bind_res (snapshot s) (\<lambda>snap.
     ParallelWorkerWaveResult \<lparr>pw_scheduled = scheduled, pw_results = results, pw_next_ready = ready, pw_snapshot = snap,
       pw_max_concurrency = int limit, pw_peak_concurrency = int peak\<rparr>))"

text \<open>What \<open>asyncio.gather\<close> gives when every worker has ended.\<close>

definition worker_outcome :: "phase \<Rightarrow> worker_task_result res" where
  "worker_outcome p = (case p of Done r \<Rightarrow> Inr r | Raised e \<Rightarrow> Inl e | _ \<Rightarrow> Inl (RuntimeError ''CancelledError''))"

definition wave_result :: "wave_config \<Rightarrow> 'g wave \<Rightarrow> parallel_worker_wave_result res" where
  "wave_result wc w =
     bind_res (map_res (\<lambda>t. worker_outcome (wv_phase w t)) (wc_scheduled wc)) (\<lambda>results.
     wave_report (wv_scheduler w) (wc_scheduled wc) results (wc_max_concurrency wc) (wv_peak w))"

definition new_wave :: "wave_config \<Rightarrow> scheduler \<Rightarrow> 'g \<Rightarrow> 'g wave" where
  "new_wave wc s g = \<lparr>wv_scheduler = s, wv_world = g, wv_phase = (\<lambda>_. Waiting), wv_slots = wc_max_concurrency wc,
     wv_git_lock = None, wv_active = 0, wv_peak = 0, wv_cancelled = False\<rparr>"

text \<open>The guard of \<open>run_ready_wave\<close>, on and for its \<open>_wave_active\<close> flag.\<close>

definition claim_wave :: "bool \<Rightarrow> bool res" where
  "claim_wave active = (if active then Inl (RuntimeError ''parallel worker coordinator already has an active READY wave'') else Inr True)"

text \<open>The start of \<open>_run_ready_wave_once\<close>: an empty wave reports at once, any other begins with its tasks and bases.\<close>

definition begin_wave ::
    "worktree_manager \<Rightarrow> (task_id \<Rightarrow> ('g, string option) effect) option \<Rightarrow> nat \<Rightarrow> scheduler
     \<Rightarrow> ('g, parallel_worker_wave_result + wave_config) effect" where
  "begin_wave wm resolver limit s =
     bind_eff (check (1 \<le> limit) (ValueError ''max_concurrency must be at least one'')) (\<lambda>_.
     bind_eff (pure (sched_ready_task_ids s)) (\<lambda>scheduled.
     if scheduled = [] then bind_eff (pure (wave_report s [] [] limit 0)) (\<lambda>p. ret (Inl p))
     else bind_eff (resolve_task_bases resolver s scheduled) (\<lambda>bases.
       ret (Inr \<lparr>wc_manager = wm, wc_scheduled = scheduled, wc_bases = map_of bases, wc_max_concurrency = limit\<rparr>))))"

section \<open>Interleavings\<close>

inductive worker_step :: "'g host \<Rightarrow> (string \<Rightarrow> string) \<Rightarrow> wave_config \<Rightarrow> 'g wave \<Rightarrow> 'g wave \<Rightarrow> bool" for h sha wc where
  acquire: "t \<in> set (wc_scheduled wc) \<Longrightarrow> wv_phase w t = Waiting \<Longrightarrow> 0 < wv_slots w \<Longrightarrow> \<not> wv_cancelled w \<Longrightarrow>
    worker_step h sha wc w (begin_worker t elapsed w)"
| lock_create: "t \<in> set (wc_scheduled wc) \<Longrightarrow> wv_phase w t = Wants_Create \<Longrightarrow> wv_git_lock w = None \<Longrightarrow> \<not> wv_cancelled w \<Longrightarrow>
    worker_step h sha wc w (lock_git t Creating w)"
| created: "t \<in> set (wc_scheduled wc) \<Longrightarrow> wv_phase w t = Creating \<Longrightarrow> \<not> wv_cancelled w \<Longrightarrow>
    worker_step h sha wc w (create_done h sha wc t elapsed w)"
| opened: "t \<in> set (wc_scheduled wc) \<Longrightarrow> wv_phase w t = Opening r \<Longrightarrow> \<not> wv_cancelled w \<Longrightarrow>
    worker_step h sha wc w (open_done h sha wc t elapsed r w)"
| ran: "t \<in> set (wc_scheduled wc) \<Longrightarrow> wv_phase w t = Working r \<Longrightarrow> \<not> wv_cancelled w \<Longrightarrow>
    (\<And>rr. outcome = Inr rr \<Longrightarrow> sr_task rr = t) \<Longrightarrow>
    worker_step h sha wc w (run_done t elapsed r outcome w)"
| lock_commit: "t \<in> set (wc_scheduled wc) \<Longrightarrow> wv_phase w t = Wants_Commit r rr \<Longrightarrow> wv_git_lock w = None \<Longrightarrow> \<not> wv_cancelled w \<Longrightarrow>
    worker_step h sha wc w (lock_git t (Committing r rr) w)"
| committed: "t \<in> set (wc_scheduled wc) \<Longrightarrow> wv_phase w t = Committing r rr \<Longrightarrow> \<not> wv_cancelled w \<Longrightarrow>
    worker_step h sha wc w (commit_done h sha wc t elapsed r rr w)"
| cancel: "\<not> wv_cancelled w \<Longrightarrow> worker_step h sha wc w (w\<lparr>wv_cancelled := True\<rparr>)"
| cancelled: "t \<in> set (wc_scheduled wc) \<Longrightarrow> wv_cancelled w \<Longrightarrow> (\<nexists>x. wv_phase w t = Done x) \<Longrightarrow> (\<nexists>e. wv_phase w t = Raised e) \<Longrightarrow>
    wv_phase w t \<noteq> Gone \<Longrightarrow> worker_step h sha wc w (cancel_worker t elapsed w)"

inductive wave_step :: "'g host \<Rightarrow> (string \<Rightarrow> string) \<Rightarrow> wave_config \<Rightarrow> 'g wave \<Rightarrow> 'g wave \<Rightarrow> bool" for h sha wc where
  worker: "worker_step h sha wc w w' \<Longrightarrow> wave_step h sha wc w w'"
| elsewhere: "wave_step h sha wc w (w\<lparr>wv_world := g\<rparr>)"

inductive wave_init :: "wave_config \<Rightarrow> 'g wave \<Rightarrow> bool" for wc where
  begun: "reachable sched_init sched_step s \<Longrightarrow> begin_wave wm resolver limit s g = (Inr (Inr wc), g') \<Longrightarrow>
    wave_init wc (new_wave wc s g')"

end
