(* ===== verification/Wave_Safety.thy ===== *)
theory Wave_Safety
  imports Worker_Wave
begin

text \<open>
  Safety and progress of a wave of workers. An operation of the scheduler on one task leaves the other tasks of the wave alone
  (\<open>unaffected\<close>), because they are ready, running or finished; on this rests the invariant \<open>wave_inv\<close>, which says how the
  phases of the workers, the scheduler, the semaphore and the Git lock fit together, and that every step keeps it.
\<close>

section \<open>The scheduler under a wave\<close>

text \<open>The scheduler moved on, and every other task that was ready, running or finished is as it was.\<close>

definition unaffected :: "task_id \<Rightarrow> scheduler \<Rightarrow> scheduler \<Rightarrow> bool" where
  "unaffected t s s' = (sched_inv s' \<and> dag s' = dag s \<and>
     (\<forall>u. u \<noteq> t \<longrightarrow> states s u \<notin> {Some PENDING, Some task_schedule_state.BLOCKED, None} \<longrightarrow> states s' u = states s u))"

lemma start_unaffected:
  assumes "sched_inv s" "states s t = Some READY"
  shows "\<exists>s'. sched_start s t = Inr s' \<and> unaffected t s s' \<and> states s' t = Some task_schedule_state.RUNNING"
proof -
  obtain s' where s': "sched_start s t = Inr s'" "sched_inv s'" "dag s' = dag s" using start_inv [OF assms] by blast
  then have "states s' = (states s)(t \<mapsto> task_schedule_state.RUNNING)"
    by (auto simp: sched_start_def bind_res_eq_Inr elim!: transition_Inr)
  with s' show ?thesis by (auto simp: unaffected_def)
qed

lemma refresh_keeps: "refresh_ready d s = Inr s' \<Longrightarrow> states s u \<noteq> Some PENDING \<Longrightarrow> states s' u = states s u"
proof -
  assume "refresh_ready d s = Inr s'" and u: "states s u \<noteq> Some PENDING"
  then obtain ready where fold: "fold_res (move_from PENDING READY d) ready s = Inr s'"
    by (auto simp: refresh_ready_def bind_res_eq_Inr)
  show "states s' u = states s u"
    by (rule fold_res_invariant [OF fold, where P = "\<lambda>x. states x u = states s u"])
      (use u in \<open>auto simp: move_from_def split: if_splits elim!: transition_Inr\<close>)
qed

lemma succeed_unaffected:
  assumes "sched_inv s" "states s t = Some task_schedule_state.RUNNING"
  shows "\<exists>s'. sched_succeed s t = Inr s' \<and> unaffected t s s' \<and> states s' t = Some task_schedule_state.SUCCEEDED"
proof -
  obtain s' where s': "sched_succeed s t = Inr s'" "sched_inv s'" "dag s' = dag s" using succeed_inv [OF assms] by blast
  from s'(1) obtain s1 d where tr: "transition s t task_schedule_state.SUCCEEDED ''Task execution completed successfully.'' = Inr s1"
      and "refresh_ready d s1 = Inr s'"
    by (auto simp: sched_succeed_def bind_res_eq_Inr simp del: append_Cons)
  note keeps = refresh_keeps [OF this(2)]
  have "states s1 = (states s)(t \<mapsto> task_schedule_state.SUCCEEDED)" using tr by (auto elim!: transition_Inr)
  with keeps have "states s' t = Some task_schedule_state.SUCCEEDED"
      "u \<noteq> t \<Longrightarrow> states s u \<noteq> Some PENDING \<Longrightarrow> states s' u = states s u" for u
    by auto
  with s' show ?thesis by (auto simp: unaffected_def)
qed

lemma fail_unaffected:
  assumes inv: "sched_inv s" and run: "states s t = Some task_schedule_state.RUNNING"
  shows "\<exists>s'. sched_fail s t = Inr s' \<and> unaffected t s s' \<and> states s' t = Some task_schedule_state.FAILED"
proof -
  let ?D = "downstream (dag s) (insert t (in_state (states s) task_schedule_state.FAILED))"
  obtain s' where s': "sched_fail s t = Inr s'" "sched_inv s'" "dag s' = dag s"
      "states s' = (\<lambda>u. if u \<in> ?D then Some task_schedule_state.BLOCKED else ((states s)(t \<mapsto> task_schedule_state.FAILED)) u)"
    using fail_inv [OF assms] by blast
  have "core_inv (dag s) (states s)" using inv by (simp add: sched_inv_def)
  moreover have "insert t (in_state (states s) task_schedule_state.FAILED) \<inter> in_state (states s) task_schedule_state.SUCCEEDED = {}"
    using run by auto
  ultimately have inactive: "states s u \<in> {Some PENDING, Some task_schedule_state.BLOCKED}" if "u \<in> ?D" for u
    using that by (rule downstream_inactive)
  have "t \<notin> ?D" using inactive [of t] run by auto
  then have "states s' t = Some task_schedule_state.FAILED" by (simp add: s'(4))
  moreover have "states s' u = states s u" if "u \<noteq> t" "states s u \<notin> {Some PENDING, Some task_schedule_state.BLOCKED, None}" for u
    using inactive [of u] that by (auto simp: s'(4))
  ultimately show ?thesis using s'(1-3) unfolding unaffected_def by blast
qed

section \<open>The ends of a worker\<close>

lemma strip_not_Nil: "c \<in> set s \<Longrightarrow> \<not> is_space c \<Longrightarrow> strip s \<noteq> []"
proof -
  assume c: "c \<in> set s" "\<not> is_space c"
  then obtain a b where "s = a @ c # b" by (meson split_list)
  then have "c \<in> set (dropWhile is_space s)" using c(2) by (induction a arbitrary: s) auto
  then show ?thesis using c(2) by (auto simp: strip_def dropWhile_eq_Nil_conv)
qed

lemma worker_failure_ok:
  assumes "c \<in> set message" "\<not> is_space c" "length message \<le> 4000" "\<And>x. x \<in> set evidence \<Longrightarrow> \<exists>c \<in> set x. \<not> is_space c"
  shows "is_ok (worker_failure message evidence)"
proof -
  have "strip message \<noteq> []" "[] \<notin> strip ` set evidence" using assms strip_not_Nil by (blast, force)
  moreover have "message \<noteq> []" using assms(1) by auto
  ultimately show ?thesis using assms(3) by (simp add: worker_failure_def FailureReport_def Let_def Suc_le_eq)
qed

lemma failures_ok: "is_ok cancelled_failure" "is_ok (exception_failure e)"
  unfolding cancelled_failure_def exception_failure_def
  by (rule worker_failure_ok [where c = "CHR ''e''"]; simp add: is_space_def)+

lemma valid_result:
  assumes "text_between 128 t" "opt_all (\<lambda>x. sr_task x = t) rr"
    and "states s t = Some st" "st \<in> {task_schedule_state.SUCCEEDED, task_schedule_state.FAILED}"
    and "st = task_schedule_state.SUCCEEDED \<Longrightarrow> map_option sr_status rr = Some T_SUCCEEDED \<and> fs = [] \<and> c \<noteq> None \<and> c \<noteq> Some []"
    and "st = task_schedule_state.FAILED \<Longrightarrow> fs \<noteq> [] \<or> map_option sr_status rr = Some T_FAILED"
  shows "\<exists>x. worker_result s t elapsed r rr fs c = Inr x \<and> WorkerTaskResult x = Inr x \<and> wt_task x = t \<and> wt_state x = st"
  using assms by (auto simp: worker_result_def require_task_def WorkerTaskResult_def)

text \<open>A worker that gives up marks its running task as failed and has a valid result.\<close>

lemma abandon_spec:
  assumes "sched_inv (wv_scheduler w)" "states (wv_scheduler w) t = Some task_schedule_state.RUNNING"
    and "opt_all (\<lambda>x. sr_task x = t) rr" "is_ok failure"
  shows "\<exists>x s. abandon t elapsed r rr failure w = leave t (Inr x) (w\<lparr>wv_scheduler := s\<rparr>) \<and> unaffected t (wv_scheduler w) s \<and>
    states s t = Some task_schedule_state.FAILED \<and> WorkerTaskResult x = Inr x \<and> wt_task x = t \<and> wt_state x = task_schedule_state.FAILED"
proof -
  obtain f where f: "failure = Inr f" using assms(4) by (auto simp: is_ok_iff)
  obtain s where s: "sched_fail (wv_scheduler w) t = Inr s" "unaffected t (wv_scheduler w) s"
      "states s t = Some task_schedule_state.FAILED"
    using fail_unaffected [OF assms(1,2)] by blast
  have "text_between 128 t" using sched_inv_id_ok [OF assms(1,2)] by (auto simp: id_ok_def text_between_def)
  then obtain x where "worker_result s t elapsed r rr [f] None = Inr x" "WorkerTaskResult x = Inr x" "wt_task x = t"
      "wt_state x = task_schedule_state.FAILED"
    using valid_result [of t rr s _ "[f]" None elapsed r, OF _ assms(3) s(3)] by auto
  with f s assms(2) show ?thesis by (auto simp: abandon_def fail_if_running_def require_task_def)
qed

section \<open>The invariant\<close>

fun busy :: "phase \<Rightarrow> bool" where
  "busy Waiting = False" | "busy Gone = False" | "busy (Done _) = False" | "busy (Raised _) = False" | "busy _ = True"

fun holds_lock :: "phase \<Rightarrow> bool" where
  "holds_lock Creating = True" | "holds_lock (Opening _) = True" | "holds_lock (Committing _ _) = True" | "holds_lock _ = False"

fun phase_ok :: "scheduler \<Rightarrow> task_id \<Rightarrow> phase \<Rightarrow> bool" where
  "phase_ok s t Waiting = (states s t = Some READY)"
| "phase_ok s t Gone = (states s t = Some READY)"
| "phase_ok s t (Done x) = (wt_task x = t \<and> WorkerTaskResult x = Inr x \<and> states s t = Some (wt_state x))"
| "phase_ok s t (Raised e) = False"
| "phase_ok s t (Wants_Commit r rr) = (states s t = Some task_schedule_state.RUNNING \<and> sr_task rr = t \<and> sr_status rr = T_SUCCEEDED)"
| "phase_ok s t (Committing r rr) = (states s t = Some task_schedule_state.RUNNING \<and> sr_task rr = t \<and> sr_status rr = T_SUCCEEDED)"
| "phase_ok s t _ = (states s t = Some task_schedule_state.RUNNING)"

definition busy_tasks :: "wave_config \<Rightarrow> 'g wave \<Rightarrow> task_id set" where
  "busy_tasks wc w = {t \<in> set (wc_scheduled wc). busy (wv_phase w t)}"

definition wave_inv :: "wave_config \<Rightarrow> 'g wave \<Rightarrow> bool" where
  "wave_inv wc w =
     (sched_inv (wv_scheduler w) \<and> distinct (wc_scheduled wc) \<and> 1 \<le> wc_max_concurrency wc \<and>
      (\<forall>t \<in> set (wc_scheduled wc). phase_ok (wv_scheduler w) t (wv_phase w t)) \<and>
      wv_active w = card (busy_tasks wc w) \<and> wv_slots w + wv_active w = wc_max_concurrency wc \<and>
      wv_active w \<le> wv_peak w \<and> wv_peak w \<le> wc_max_concurrency wc \<and>
      (\<forall>t \<in> set (wc_scheduled wc). holds_lock (wv_phase w t) \<longleftrightarrow> wv_git_lock w = Some t) \<and>
      set_option (wv_git_lock w) \<subseteq> set (wc_scheduled wc) \<and>
      (\<forall>t \<in> set (wc_scheduled wc). \<forall>x. wv_phase w t = Done x \<longrightarrow> 1 \<le> wv_peak w))"

lemma phase_live: "phase_ok s t p \<Longrightarrow> states s t \<notin> {Some PENDING, Some task_schedule_state.BLOCKED, None}"
  by (cases p) (auto simp: WorkerTaskResult_def split: if_splits)

lemma phase_ok_unaffected: "phase_ok s u p \<Longrightarrow> unaffected t s s' \<Longrightarrow> u \<noteq> t \<Longrightarrow> phase_ok s' u p"
  using phase_live [of s u p] by (cases p) (auto simp: unaffected_def)

lemma busy_goto:
  assumes "t \<in> set (wc_scheduled wc)" "wv_phase w' = (wv_phase w)(t := p)"
  shows "card (busy_tasks wc w') + of_bool (busy (wv_phase w t)) = card (busy_tasks wc w) + of_bool (busy p)"
proof -
  let ?rest = "{u \<in> set (wc_scheduled wc). u \<noteq> t \<and> busy (wv_phase w u)}"
  have "busy_tasks wc w = ?rest \<union> (if busy (wv_phase w t) then {t} else {})"
      "busy_tasks wc w' = ?rest \<union> (if busy p then {t} else {})"
    using assms by (auto simp: busy_tasks_def)
  moreover have "finite ?rest" by simp
  ultimately show ?thesis by simp
qed

text \<open>One worker moves to a new place: what has to fit for the invariant to stay.\<close>

lemma wave_move:
  assumes inv: "wave_inv wc w" and t: "t \<in> set (wc_scheduled wc)"
    and sched: "wv_scheduler w' = wv_scheduler w \<or> unaffected t (wv_scheduler w) (wv_scheduler w')"
    and p: "wv_phase w' = (wv_phase w)(t := p)" "phase_ok (wv_scheduler w') t p"
    and active: "wv_active w' + of_bool (busy (wv_phase w t)) = wv_active w + of_bool (busy p)"
    and slots: "wv_slots w' + wv_active w' = wc_max_concurrency wc"
    and peak: "wv_active w' \<le> wv_peak w'" "wv_peak w \<le> wv_peak w'" "wv_peak w' \<le> wc_max_concurrency wc"
    and lock: "wv_git_lock w' = (if holds_lock p then Some t else if holds_lock (wv_phase w t) then None else wv_git_lock w)"
    and free: "holds_lock p \<Longrightarrow> \<not> holds_lock (wv_phase w t) \<Longrightarrow> wv_git_lock w = None"
    and ended: "\<And>x. p = Done x \<Longrightarrow> 1 \<le> wv_peak w'"
  shows "wave_inv wc w'"
proof -
  have "phase_ok (wv_scheduler w') u (wv_phase w' u)" if u: "u \<in> set (wc_scheduled wc)" for u
  proof (cases "u = t")
    case False
    have "phase_ok (wv_scheduler w) u (wv_phase w u)" using inv u by (simp add: wave_inv_def)
    with sched False show ?thesis by (auto simp: p(1) intro: phase_ok_unaffected)
  qed (simp add: p)
  moreover have "sched_inv (wv_scheduler w')" using inv sched by (auto simp: wave_inv_def unaffected_def)
  moreover have "wv_active w' = card (busy_tasks wc w')"
    using inv active busy_goto [OF t p(1)] by (simp add: wave_inv_def)
  moreover have "holds_lock (wv_phase w' u) \<longleftrightarrow> wv_git_lock w' = Some u" if u: "u \<in> set (wc_scheduled wc)" for u
    using inv u t lock free by (auto simp: p(1) wave_inv_def)
  moreover have "set_option (wv_git_lock w') \<subseteq> set (wc_scheduled wc)"
    using inv t by (auto simp: lock wave_inv_def)
  moreover have "1 \<le> wv_peak w'" if "u \<in> set (wc_scheduled wc)" "wv_phase w' u = Done x" for u x
    using inv that ended [of x] peak(2) by (cases "u = t") (auto simp: p(1) wave_inv_def intro: order_trans)
  ultimately show ?thesis using inv slots peak unfolding wave_inv_def by blast
qed

lemma opt_all_simps [simp]: "opt_all P None" "opt_all P (Some x) \<longleftrightarrow> P x"
  by (simp_all add: opt_all_def)

text \<open>The same wave up to the world and a lock that worker \<open>t\<close> gives back.\<close>

definition released :: "task_id \<Rightarrow> 'g wave \<Rightarrow> 'g wave \<Rightarrow> bool" where
  "released t w w1 = (wv_scheduler w1 = wv_scheduler w \<and> wv_phase w1 = wv_phase w \<and> wv_slots w1 = wv_slots w \<and>
     wv_active w1 = wv_active w \<and> wv_peak w1 = wv_peak w \<and>
     wv_git_lock w1 = (if holds_lock (wv_phase w t) then None else wv_git_lock w))"

lemma busy_active: "wave_inv wc w \<Longrightarrow> t \<in> set (wc_scheduled wc) \<Longrightarrow> busy (wv_phase w t) \<Longrightarrow> 1 \<le> wv_active w"
  by (auto simp: wave_inv_def busy_tasks_def Suc_le_eq card_gt_0_iff)

lemma busy_running:
  "wave_inv wc w \<Longrightarrow> t \<in> set (wc_scheduled wc) \<Longrightarrow> busy (wv_phase w t) \<Longrightarrow>
   states (wv_scheduler w) t = Some task_schedule_state.RUNNING"
  by (cases "wv_phase w t") (auto simp: wave_inv_def dest!: bspec [of _ _ t])

lemma leave_inv:
  assumes inv: "wave_inv wc w" and t: "t \<in> set (wc_scheduled wc)" "busy (wv_phase w t)"
    and w1: "released t w w1" and s: "unaffected t (wv_scheduler w) s" "phase_ok s t (Done x)"
  shows "wave_inv wc (leave t (Inr x) (w1\<lparr>wv_scheduler := s\<rparr>))"
proof -
  have "1 \<le> wv_active w" by (rule busy_active [OF inv t])
  moreover have "wv_slots w + wv_active w = wc_max_concurrency wc" "wv_active w \<le> wv_peak w" "wv_peak w \<le> wc_max_concurrency wc"
    using inv by (simp_all add: wave_inv_def)
  ultimately show ?thesis
    using w1 t(2) s by (intro wave_move [OF inv t(1), where p = "Done x"]) (auto simp: leave_def goto_def released_def)
qed

lemma abandon_inv:
  assumes inv: "wave_inv wc w" and t: "t \<in> set (wc_scheduled wc)" "busy (wv_phase w t)"
    and w1: "released t w w1" and rr: "opt_all (\<lambda>x. sr_task x = t) rr" "is_ok failure"
  shows "wave_inv wc (abandon t elapsed r rr failure w1)"
proof -
  have "sched_inv (wv_scheduler w1)" "states (wv_scheduler w1) t = Some task_schedule_state.RUNNING"
    using inv w1 busy_running [OF inv t] by (simp_all add: wave_inv_def released_def)
  from abandon_spec [OF this rr, of elapsed r] obtain x s where
    "abandon t elapsed r rr failure w1 = leave t (Inr x) (w1\<lparr>wv_scheduler := s\<rparr>)" "unaffected t (wv_scheduler w) s"
    "phase_ok s t (Done x)"
    using w1 by (auto simp: released_def)
  with leave_inv [OF inv t w1] show ?thesis by simp
qed

lemma advance_inv:
  assumes "wave_inv wc w" "t \<in> set (wc_scheduled wc)" "busy (wv_phase w t)" "busy p" "phase_ok (wv_scheduler w) t p"
    and "wv_scheduler w1 = wv_scheduler w" "wv_phase w1 = (wv_phase w)(t := p)" "wv_slots w1 = wv_slots w" "wv_active w1 = wv_active w"
      "wv_peak w1 = wv_peak w"
    and "wv_git_lock w1 = (if holds_lock p then Some t else if holds_lock (wv_phase w t) then None else wv_git_lock w)"
    and "holds_lock p \<Longrightarrow> \<not> holds_lock (wv_phase w t) \<Longrightarrow> wv_git_lock w = None"
  shows "wave_inv wc w1"
  by (rule wave_move [OF assms(1,2), where p = p]) (use assms in \<open>auto simp: wave_inv_def\<close>)

subsection \<open>Every step keeps it\<close>

lemma dag_node_known: "t \<in> id_set g \<Longrightarrow> \<exists>n. dag_node g t = Inr n"
proof -
  assume "t \<in> id_set g"
  then have "t \<in> fst ` set (nodes_by_id g)" by (force simp: nodes_by_id_def)
  then obtain n where "map_of (nodes_by_id g) t = Some n" by (metis map_of_eq_None_iff option.exhaust)
  then show ?thesis by (simp add: dag_node_def)
qed

lemma begin_inv:
  assumes inv: "wave_inv wc w" and t: "t \<in> set (wc_scheduled wc)" "wv_phase w t = Waiting" "0 < wv_slots w"
  shows "wave_inv wc (begin_worker t elapsed w)"
proof -
  have si: "sched_inv (wv_scheduler w)" "states (wv_scheduler w) t = Some READY"
    using inv t by (auto simp: wave_inv_def dest!: bspec [of _ _ t])
  obtain s where s: "sched_start (wv_scheduler w) t = Inr s" "unaffected t (wv_scheduler w) s"
      "states s t = Some task_schedule_state.RUNNING"
    using start_unaffected [OF si] by blast
  have "t \<in> id_set (dag s)" using s(2,3) sched_inv_id_ok [of s t] by (auto simp: unaffected_def)
  then obtain node where "dag_node (dag s) t = Inr node" using dag_node_known [of t "dag s"] by blast
  with s have begun: "begin_worker t elapsed w = goto t Wants_Create (w\<lparr>wv_slots := wv_slots w - 1, wv_active := wv_active w + 1,
      wv_peak := max (wv_peak w) (wv_active w + 1), wv_scheduler := s\<rparr>)"
    by (simp add: begin_worker_def)
  have "wv_slots w + wv_active w = wc_max_concurrency wc" "wv_peak w \<le> wc_max_concurrency wc"
    using inv by (simp_all add: wave_inv_def)
  with t s show ?thesis unfolding begun
    by (intro wave_move [OF inv t(1), where p = Wants_Create]) (auto simp: goto_def)
qed

lemma released_now [simp]: "\<not> holds_lock (wv_phase w t) \<Longrightarrow> released t w w"
  by (simp add: released_def)

lemma released_free [simp]: "holds_lock (wv_phase w t) \<Longrightarrow> released t w (free_lock (w\<lparr>wv_world := g\<rparr>))"
    "holds_lock (wv_phase w t) \<Longrightarrow> released t w (free_lock w)"
  by (simp_all add: released_def free_lock_def)

lemma run_done_inv:
  assumes inv: "wave_inv wc w" and t: "t \<in> set (wc_scheduled wc)" "wv_phase w t = Working r"
    and own: "\<And>rr. outcome = Inr rr \<Longrightarrow> sr_task rr = t"
  shows "wave_inv wc (run_done t elapsed r outcome w)"
proof (cases outcome)
  case (Inl e)
  then show ?thesis using t by (auto simp: run_done_def intro!: abandon_inv [OF inv t(1)] failures_ok)
next
  case (Inr rr)
  have busy: "busy (wv_phase w t)" and si: "sched_inv (wv_scheduler w)" "states (wv_scheduler w) t = Some task_schedule_state.RUNNING"
    using t(2) inv busy_running [OF inv t(1)] by (auto simp: wave_inv_def)
  show ?thesis
  proof (cases "sr_status rr = T_FAILED")
    case True
    obtain s where s: "sched_fail (wv_scheduler w) t = Inr s" "unaffected t (wv_scheduler w) s" "states s t = Some task_schedule_state.FAILED"
      using fail_unaffected [OF si] by blast
    have "text_between 128 t" using sched_inv_id_ok [OF si] by (auto simp: id_ok_def text_between_def)
    then obtain x where "worker_result s t elapsed (Some r) (Some rr) (sr_failures rr) None = Inr x" "phase_ok s t (Done x)"
      using valid_result [of t "Some rr" s _ "sr_failures rr" None elapsed "Some r", OF _ _ s(3)] own [OF Inr] True s(3) by auto
    with s(1) True Inr leave_inv [OF inv t(1) busy released_now s(2), of x] t(2) show ?thesis
      by (auto simp: run_done_def)
  next
    case False
    then consider "sr_status rr = T_SUCCEEDED" | "sr_status rr \<noteq> T_SUCCEEDED" "sr_status rr \<noteq> T_FAILED" by blast
    then show ?thesis
    proof cases
      case 1
      then show ?thesis
        by (intro advance_inv [OF inv t(1) busy, where p = "Wants_Commit r rr"])
          (use si(2) own [OF Inr] Inr t(2) in \<open>auto simp: run_done_def goto_def\<close>)
    next
      case 2
      then show ?thesis
        using abandon_inv [OF inv t(1) busy released_now, of "Some rr"] own [OF Inr] Inr t(2) failures_ok(2)
        by (simp add: run_done_def)
    qed
  qed
qed

lemma commit_sha_not_Nil: "commit_task_changes h sha wm t w = (Inr c, w') \<Longrightarrow> c \<noteq> []"
  by (auto simp: commit_task_changes_def Let_def bind_eff_Inr full_oid_def)

lemma commit_done_inv:
  assumes inv: "wave_inv wc w" and t: "t \<in> set (wc_scheduled wc)" "wv_phase w t = Committing r rr"
  shows "wave_inv wc (commit_done h sha wc t elapsed r rr w)"
proof -
  have busy: "busy (wv_phase w t)" "holds_lock (wv_phase w t)" and si: "sched_inv (wv_scheduler w)"
      "states (wv_scheduler w) t = Some task_schedule_state.RUNNING"
    and rr: "sr_task rr = t" "sr_status rr = T_SUCCEEDED"
    using t inv by (auto simp: wave_inv_def dest!: bspec [of _ _ t])
  obtain res g where commit: "commit_task_changes h sha (wc_manager wc) t (wv_world w) = (res, g)" by fastforce
  show ?thesis
  proof (cases res)
    case (Inl e)
    with commit show ?thesis
      using abandon_inv [OF inv t(1) busy(1) released_free(1) [OF busy(2)], of "Some rr" "exception_failure e"] rr(1)
      by (simp add: commit_done_def failures_ok)
  next
    case (Inr c)
    obtain s where s: "sched_succeed (wv_scheduler w) t = Inr s" "unaffected t (wv_scheduler w) s"
        "states s t = Some task_schedule_state.SUCCEEDED"
      using succeed_unaffected [OF si] by blast
    have "text_between 128 t" using sched_inv_id_ok [OF si] by (auto simp: id_ok_def text_between_def)
    then obtain x where "worker_result s t elapsed (Some r) (Some rr) [] (Some c) = Inr x" "phase_ok s t (Done x)"
      using valid_result [of t "Some rr" s _ "[]" "Some c" elapsed "Some r", OF _ _ s(3)] rr s(3)
        commit_sha_not_Nil [OF commit [unfolded Inr]] by auto
    with commit Inr s(1) leave_inv [OF inv t(1) busy(1) released_free(1) [OF busy(2)] s(2), of x] show ?thesis
      by (auto simp: commit_done_def free_lock_def)
  qed
qed

lemma create_done_inv:
  assumes inv: "wave_inv wc w" and t: "t \<in> set (wc_scheduled wc)" "wv_phase w t = Creating"
  shows "wave_inv wc (create_done h sha wc t elapsed w)"
proof -
  obtain res g where run: "create_worktree h sha (wc_manager wc) t (the (wc_bases wc t)) (wv_world w) = (res, g)" by fastforce
  have busy: "busy (wv_phase w t)" "holds_lock (wv_phase w t)" "wv_git_lock w = Some t" "states (wv_scheduler w) t = Some task_schedule_state.RUNNING"
    using t inv by (auto simp: wave_inv_def dest!: bspec [of _ _ t])
  show ?thesis
  proof (cases res)
    case (Inl e)
    with run show ?thesis
      using abandon_inv [OF inv t(1) busy(1) released_free(1) [OF busy(2)], of None] failures_ok(2) by (simp add: create_done_def)
  next
    case (Inr r)
    then show ?thesis
      by (intro advance_inv [OF inv t(1) busy(1), where p = "Opening r"]) (use run busy in \<open>auto simp: create_done_def goto_def\<close>)
  qed
qed

lemma open_done_inv:
  assumes inv: "wave_inv wc w" and t: "t \<in> set (wc_scheduled wc)" "wv_phase w t = Opening r"
  shows "wave_inv wc (open_done h sha wc t elapsed r w)"
proof -
  obtain res g where run: "open_workspace h sha (wc_manager wc) t (wv_world w) = (res, g)" by fastforce
  have busy: "busy (wv_phase w t)" "holds_lock (wv_phase w t)" "states (wv_scheduler w) t = Some task_schedule_state.RUNNING"
    using t inv by (auto simp: wave_inv_def dest!: bspec [of _ _ t])
  show ?thesis
  proof (cases res)
    case (Inl e)
    with run show ?thesis
      using abandon_inv [OF inv t(1) busy(1) released_free(1) [OF busy(2)], of None] failures_ok(2) by (simp add: open_done_def)
  next
    case (Inr r')
    then show ?thesis
      by (intro advance_inv [OF inv t(1) busy(1), where p = "Working r"]) (use run busy in \<open>auto simp: open_done_def goto_def free_lock_def\<close>)
  qed
qed

lemma cancel_worker_inv:
  assumes inv: "wave_inv wc w" and t: "t \<in> set (wc_scheduled wc)"
  shows "wave_inv wc (cancel_worker t elapsed w)"
proof -
  have ok: "phase_ok (wv_scheduler w) t (wv_phase w t)" using inv t by (simp add: wave_inv_def)
  note stop = abandon_inv [OF inv t _ released_now _ failures_ok(1)] abandon_inv [OF inv t _ released_free(2) _ failures_ok(1)]
  show ?thesis
  proof (cases "wv_phase w t")
    case Waiting
    then have "wave_inv wc (goto t Gone w)"
      by (intro wave_move [OF inv t, where p = Gone]) (use ok inv in \<open>auto simp: goto_def wave_inv_def\<close>)
    with Waiting show ?thesis by (simp add: cancel_worker_def)
  qed (use ok inv stop in \<open>auto simp: cancel_worker_def\<close>)
qed

lemma worker_step_inv:
  assumes "worker_step h sha wc w w'" and inv: "wave_inv wc w"
  shows "wave_inv wc w'"
  using assms(1)
proof cases
  case (lock_create t)
  then have "states (wv_scheduler w) t = Some task_schedule_state.RUNNING" using busy_running [OF inv] by auto
  with lock_create show ?thesis
    by (intro advance_inv [OF inv, of t Creating]) (auto simp: lock_git_def goto_def)
next
  case (lock_commit t r rr)
  then have "phase_ok (wv_scheduler w) t (Wants_Commit r rr)" using inv by (auto simp: wave_inv_def dest!: bspec [of _ _ t])
  with lock_commit show ?thesis
    by (intro advance_inv [OF inv, of t "Committing r rr"]) (auto simp: lock_git_def goto_def)
next
  case cancel
  then show ?thesis using inv by (simp add: wave_inv_def busy_tasks_def)
qed (use inv in \<open>auto intro: begin_inv create_done_inv open_done_inv run_done_inv commit_done_inv cancel_worker_inv\<close>)

lemma ready_ids_spec:
  assumes "sched_inv s" "sched_ready_task_ids s = Inr ts"
  shows "distinct ts \<and> (\<forall>t \<in> set ts. states s t = Some READY)"
proof -
  have "dag_valid (dag s)" using assms(1) by (simp add: sched_inv_def)
  from dag_valid_topo(1) [OF this] dag.order_distinct [OF this] assms(2) show ?thesis
    by (auto simp: sched_ready_task_ids_def task_ids_in_state_def)
qed

interpretation wave: transition_system "wave_init wc" "wave_step h sha wc" "wave_inv wc"
  for h :: "'g host" and sha wc
proof unfold_locales
  fix w :: "'g wave" assume "wave_init wc w"
  then show "wave_inv wc w"
  proof cases
    case (begun s wm resolver limit g g')
    then have s: "sched_inv s" by (simp add: sched.reach_inv)
    from begun(3) have "sched_ready_task_ids s = Inr (wc_scheduled wc)" "1 \<le> wc_max_concurrency wc"
      by (auto simp: begin_wave_def bind_eff_Inr split: if_splits)
    with ready_ids_spec [OF s] s show ?thesis
      by (auto simp: begun(1) new_wave_def wave_inv_def busy_tasks_def)
  qed
next
  fix w w' :: "'g wave" assume inv: "wave_inv wc w" and "wave_step h sha wc w w'"
  from this(2) show "wave_inv wc w'"
  proof cases
    case worker
    then show ?thesis using inv by (rule worker_step_inv)
  next
    case (elsewhere g)
    with inv show ?thesis by (simp add: wave_inv_def busy_tasks_def)
  qed
qed

section \<open>Results and progress\<close>

definition worker_ended :: "phase \<Rightarrow> bool" where
  "worker_ended p = (case p of Done _ \<Rightarrow> True | _ \<Rightarrow> False)"

lemma worker_ended_iff: "worker_ended p \<longleftrightarrow> (\<exists>x. p = Done x)"
  by (cases p) (auto simp: worker_ended_def)

lemma wave_result_ok:
  assumes inv: "wave_inv wc w" and "\<forall>t \<in> set (wc_scheduled wc). worker_ended (wv_phase w t)"
  shows "is_ok (wave_result wc w)"
proof -
  let ?r = "\<lambda>t. case wv_phase w t of Done x \<Rightarrow> x"
  have res: "worker_outcome (wv_phase w t) = Inr (?r t) \<and> wt_task (?r t) = t" if "t \<in> set (wc_scheduled wc)" for t
    using inv assms(2) that by (fastforce simp: worker_ended_iff worker_outcome_def wave_inv_def)
  have "map_res (\<lambda>t. worker_outcome (wv_phase w t)) ts = Inr (map ?r ts)" "map (wt_task \<circ> ?r) ts = ts"
    if "set ts \<subseteq> set (wc_scheduled wc)" for ts
    using that res by (induction ts) auto
  from this [of "wc_scheduled wc"] have results: "map_res (\<lambda>t. worker_outcome (wv_phase w t)) (wc_scheduled wc) = Inr (map ?r (wc_scheduled wc))"
      "map wt_task (map ?r (wc_scheduled wc)) = wc_scheduled wc" by simp_all
  have "dag_valid (dag (wv_scheduler w))" using inv by (simp add: wave_inv_def sched_inv_def)
  then obtain ready where "sched_ready_task_ids (wv_scheduler w) = Inr ready"
    using dag_valid_topo(1) by (fastforce simp: sched_ready_task_ids_def task_ids_in_state_def)
  moreover obtain snap where "snapshot (wv_scheduler w) = Inr snap" using snapshot_ok inv by (fastforce simp: wave_inv_def)
  moreover have "1 \<le> wv_peak w" if "wc_scheduled wc \<noteq> []"
    using inv assms(2) that by (auto simp: wave_inv_def worker_ended_iff dest!: hd_in_set)
  ultimately show ?thesis
    using results inv by (auto simp: wave_result_def wave_report_def ParallelWorkerWaveResult_def wave_inv_def)
qed

fun left :: "phase \<Rightarrow> nat" where
  "left Waiting = 7" | "left Wants_Create = 6" | "left Creating = 5" | "left (Opening _) = 4" | "left (Working _) = 3"
| "left (Wants_Commit _ _) = 2" | "left (Committing _ _) = 1" | "left _ = 0"

definition remaining :: "wave_config \<Rightarrow> 'g wave \<Rightarrow> nat" where
  "remaining wc w = (\<Sum>t \<leftarrow> wc_scheduled wc. left (wv_phase w t)) + of_bool (\<not> wv_cancelled w)"

lemma sum_goto:
  assumes "t \<in> set ts" "distinct ts" "left p < left (f t)"
  shows "(\<Sum>u \<leftarrow> ts. left ((f(t := p)) u)) < (\<Sum>u \<leftarrow> ts. left (f u))"
proof -
  have "(\<Sum>u \<in> set ts. left ((f(t := p)) u)) < (\<Sum>u \<in> set ts. left (f u))"
    by (rule sum_strict_mono_ex1) (use assms in auto)
  then show ?thesis using assms(2) by (simp add: sum_list_distinct_conv_sum_set)
qed

definition moved :: "wave_config \<Rightarrow> task_id \<Rightarrow> 'g wave \<Rightarrow> 'g wave \<Rightarrow> bool" where
  "moved wc t w w' = (\<exists>p. wv_phase w' = (wv_phase w)(t := p) \<and> left p < left (wv_phase w t) \<and> wv_cancelled w' = wv_cancelled w)"

lemma moved_remaining: "moved wc t w w' \<Longrightarrow> t \<in> set (wc_scheduled wc) \<Longrightarrow> distinct (wc_scheduled wc) \<Longrightarrow> remaining wc w' < remaining wc w"
  using sum_goto by (auto simp: moved_def remaining_def)

lemma leave_moved: "wv_phase w1 = wv_phase w \<Longrightarrow> wv_cancelled w1 = wv_cancelled w \<Longrightarrow> 0 < left (wv_phase w t) \<Longrightarrow> moved wc t w (leave t r w1)"
  by (cases r) (auto simp: moved_def leave_def goto_def)

lemma abandon_moved: "wv_phase w1 = wv_phase w \<Longrightarrow> wv_cancelled w1 = wv_cancelled w \<Longrightarrow> 0 < left (wv_phase w t) \<Longrightarrow>
   moved wc t w (abandon t elapsed r rr failure w1)"
  by (auto simp: abandon_def intro!: leave_moved split: sum.splits)

lemma goto_moved: "wv_phase w1 = wv_phase w \<Longrightarrow> wv_cancelled w1 = wv_cancelled w \<Longrightarrow> left p < left (wv_phase w t) \<Longrightarrow> moved wc t w (goto t p w1)"
  by (auto simp: moved_def goto_def)

lemmas moved_rules = leave_moved abandon_moved goto_moved

lemma worker_step_remaining:
  assumes "worker_step h sha wc w w'" "distinct (wc_scheduled wc)"
  shows "remaining wc w' < remaining wc w"
  using assms(1)
proof cases
  case (acquire t elapsed)
  then have "moved wc t w w'" by (auto simp: begin_worker_def Let_def intro!: moved_rules split: sum.splits)
  with acquire assms(2) show ?thesis by (blast intro: moved_remaining)
next
  case (lock_create t)
  then have "moved wc t w w'" by (auto simp: lock_git_def intro!: moved_rules)
  with lock_create assms(2) show ?thesis by (blast intro: moved_remaining)
next
  case (created t elapsed)
  then have "moved wc t w w'" by (auto simp: create_done_def free_lock_def intro!: moved_rules split: sum.splits prod.splits)
  with created assms(2) show ?thesis by (blast intro: moved_remaining)
next
  case (opened t r elapsed)
  then have "moved wc t w w'" by (auto simp: open_done_def free_lock_def intro!: moved_rules split: sum.splits prod.splits)
  with opened assms(2) show ?thesis by (blast intro: moved_remaining)
next
  case (ran t r outcome elapsed)
  then have "moved wc t w w'" by (auto simp: run_done_def intro!: moved_rules split: sum.splits)
  with ran assms(2) show ?thesis by (blast intro: moved_remaining)
next
  case (lock_commit t r rr)
  then have "moved wc t w w'" by (auto simp: lock_git_def intro!: moved_rules)
  with lock_commit assms(2) show ?thesis by (blast intro: moved_remaining)
next
  case (committed t r rr elapsed)
  then have "moved wc t w w'" by (auto simp: commit_done_def free_lock_def Let_def intro!: moved_rules split: sum.splits prod.splits)
  with committed assms(2) show ?thesis by (blast intro: moved_remaining)
next
  case cancel
  then show ?thesis by (simp add: remaining_def)
next
  case (cancelled t elapsed)
  then have "moved wc t w w'"
    by (cases "wv_phase w t") (auto simp: cancel_worker_def free_lock_def intro!: moved_rules)
  with cancelled assms(2) show ?thesis by (blast intro: moved_remaining)
qed

lemma wave_can_move:
  assumes inv: "wave_inv wc w" and t: "t \<in> set (wc_scheduled wc)" "0 < left (wv_phase w t)"
  shows "\<exists>w'. worker_step h sha wc w w' \<and> wv_cancelled w' = wv_cancelled w"
proof -
  have steps: "moved wc u w w' \<Longrightarrow> wv_cancelled w' = wv_cancelled w" for u w' by (auto simp: moved_def)
  show ?thesis
  proof (cases "wv_cancelled w")
    case True
    have "worker_step h sha wc w (cancel_worker t 0 w)" by (rule cancelled) (use t True in auto)
    moreover have "moved wc t w (cancel_worker t 0 w)"
      using t(2) by (cases "wv_phase w t") (auto simp: cancel_worker_def free_lock_def intro!: moved_rules)
    ultimately show ?thesis using steps by blast
  next
    case running: False
    have lock: "\<exists>u \<in> set (wc_scheduled wc). holds_lock (wv_phase w u)" if "wv_git_lock w \<noteq> None"
      using inv that by (auto simp: wave_inv_def)
    consider (holder) u where "u \<in> set (wc_scheduled wc)" "holds_lock (wv_phase w u)"
      | (free) u where "u \<in> set (wc_scheduled wc)" "busy (wv_phase w u)" "\<not> holds_lock (wv_phase w u)" "wv_git_lock w = None"
      | (idle) "busy_tasks wc w = {}" "wv_phase w t = Waiting"
    proof (cases "\<exists>u \<in> set (wc_scheduled wc). busy (wv_phase w u)")
      case True
      then show ?thesis using that(1,2) lock by blast
    next
      case False
      then have "busy_tasks wc w = {}" by (auto simp: busy_tasks_def)
      moreover have "wv_phase w t = Waiting" using t False by (cases "wv_phase w t") auto
      ultimately show ?thesis by (rule that(3))
    qed
    then show ?thesis
    proof cases
      case holder
      then consider "wv_phase w u = Creating" | r where "wv_phase w u = Opening r" | r rr where "wv_phase w u = Committing r rr"
        by (cases "wv_phase w u") auto
      then show ?thesis
      proof cases
        case 1
        have "moved wc u w (create_done h sha wc u 0 w)"
          using 1 by (auto simp: create_done_def free_lock_def intro!: moved_rules split: sum.splits prod.splits)
        then show ?thesis using created [OF holder(1) 1 running, of h sha 0] steps by blast
      next
        case 2
        have "moved wc u w (open_done h sha wc u 0 r w)"
          using 2 by (auto simp: open_done_def free_lock_def intro!: moved_rules split: sum.splits prod.splits)
        then show ?thesis using opened [OF holder(1) 2 running, of h sha 0] steps by blast
      next
        case 3
        have "moved wc u w (commit_done h sha wc u 0 r rr w)"
          using 3 by (auto simp: commit_done_def free_lock_def Let_def intro!: moved_rules split: sum.splits prod.splits)
        then show ?thesis using committed [OF holder(1) 3 running, of h sha 0] steps by blast
      qed
    next
      case free
      then consider "wv_phase w u = Wants_Create" | r where "wv_phase w u = Working r" | r rr where "wv_phase w u = Wants_Commit r rr"
        by (cases "wv_phase w u") auto
      then show ?thesis
      proof cases
        case 1
        then show ?thesis using lock_create [OF free(1) 1 free(4) running, of h sha] by (auto simp: lock_git_def goto_def)
      next
        case 2
        have "moved wc u w (run_done u 0 r (Inl (RuntimeError [])) w)" using 2 by (auto simp: run_done_def intro!: moved_rules)
        then show ?thesis using ran [OF free(1) 2 running, of "Inl (RuntimeError [])" h sha 0] steps by blast
      next
        case 3
        then show ?thesis using lock_commit [OF free(1) 3 free(4) running, of h sha] by (auto simp: lock_git_def goto_def)
      qed
    next
      case idle
      then have "0 < wv_slots w" using inv by (auto simp: wave_inv_def)
      moreover have "moved wc t w (begin_worker t 0 w)" using idle(2) by (auto simp: begin_worker_def Let_def intro!: moved_rules split: sum.splits)
      ultimately show ?thesis using acquire [OF t(1) idle(2) _ running, of h sha 0] steps by blast
    qed
  qed
qed

lemma succeeded_result:
  "WorkerTaskResult x = Inr x \<Longrightarrow> wt_state x = task_schedule_state.SUCCEEDED \<Longrightarrow>
   (\<exists>c. wt_commit x = Some c \<and> c \<noteq> []) \<and> map_option sr_status (wt_run_result x) = Some T_SUCCEEDED"
  by (cases "wt_commit x") (auto simp: WorkerTaskResult_def split: if_splits)

lemma phase_report:
  "phase_ok s t p \<Longrightarrow> (case p of
       Raised e \<Rightarrow> False
     | Done x \<Rightarrow> WorkerTaskResult x = Inr x \<and> wt_task x = t \<and> states s t = Some (wt_state x) \<and>
         (wt_state x = task_schedule_state.SUCCEEDED \<longrightarrow>
            (\<exists>c. wt_commit x = Some c \<and> c \<noteq> []) \<and> map_option sr_status (wt_run_result x) = Some T_SUCCEEDED)
     | p \<Rightarrow> states s t = Some (if busy p then task_schedule_state.RUNNING else READY))"
  by (cases p) (auto dest: succeeded_result)


text \<open>C11. A wave never deadlocks and never runs forever. In every reachable state in which some worker has not ended, some worker can
  take its next step, also without a cancellation; and each step of a worker, whichever the event loop
  chooses, brings the wave nearer to its end: at most seven steps per task and one cancellation are left.\<close>

theorem worker_wave_progress:
  assumes "reachable (wave_init wc) (wave_step h sha wc) w"
  shows "(\<forall>t \<in> set (wc_scheduled wc). 0 < left (wv_phase w t) \<longrightarrow> (\<exists>w'. worker_step h sha wc w w' \<and> wv_cancelled w' = wv_cancelled w)) \<and>
    (\<forall>w'. worker_step h sha wc w w' \<longrightarrow> remaining wc w' < remaining wc w) \<and>
    remaining wc w \<le> 7 * length (wc_scheduled wc) + 1"
proof -
  have inv: "wave_inv wc w" by (rule wave.reach_inv [OF assms])
  have "left p \<le> 7" for p by (cases p) auto
  then have "(\<Sum>t \<leftarrow> wc_scheduled wc. left (wv_phase w t)) \<le> (\<Sum>t \<leftarrow> wc_scheduled wc. 7)" by (intro sum_list_mono) simp
  then have "remaining wc w \<le> 7 * length (wc_scheduled wc) + 1" by (simp add: remaining_def sum_list_triv)
  then show ?thesis
    using wave_can_move [OF inv] worker_step_remaining inv by (fastforce simp: wave_inv_def)
qed

section \<open>A cancelled wave\<close>

text \<open>Both ready tasks of the sample graph begin, then the wave is cancelled.\<close>

definition idle_host :: "unit host" where
  "idle_host = \<lparr>run_git = (\<lambda>_ _ w. (Timed_Out, w)), h_resolve = (\<lambda>p _. p), h_exists = (\<lambda>_ _. False), h_is_dir = (\<lambda>_ _. False),
     h_is_symlink = (\<lambda>_ _. False), h_mkdir = (\<lambda>_ w. (Inr (), w))\<rparr>"

definition demo_manager :: worktree_manager where
  "demo_manager = \<lparr>wm_base_root = ''/b'', wm_root = ''/w'', wm_base_commit = replicate 40 (CHR ''a'')\<rparr>"

definition demo_config :: wave_config where
  "demo_config = \<lparr>wc_manager = demo_manager, wc_scheduled = [''a'', ''e''], wc_bases = map_of [(''a'', None), (''e'', None)],
     wc_max_concurrency = 2\<rparr>"

definition demo_both :: "scheduler \<Rightarrow> unit wave" where
  "demo_both s = begin_worker ''e'' 0 (begin_worker ''a'' 0 (new_wave demo_config s ()))"

definition demo_end :: "scheduler \<Rightarrow> unit wave" where
  "demo_end s = cancel_worker ''e'' 9 (cancel_worker ''a'' 7 ((demo_both s)\<lparr>wv_cancelled := True\<rparr>))"

definition demo_check :: "(scheduler \<Rightarrow> bool) \<Rightarrow> bool" where
  "demo_check P = (case DAGScheduler demo_dag of Inl _ \<Rightarrow> False | Inr s \<Rightarrow> P s)"

lemma demo_wave_begins:
  assumes "DAGScheduler demo_dag = Inr s"
  shows "begin_wave demo_manager None 2 s () = (Inr (Inr demo_config), ())"
proof -
  have "demo_check (\<lambda>s. sched_ready_task_ids s = Inr [''a'', ''e''] \<and> dag_node (dag s) ''a'' = Inr (demo_node ''a'' []) \<and>
      dag_node (dag s) ''e'' = Inr (demo_node ''e'' []))"
    by code_simp
  moreover have "depends_on (demo_node t []) = []" for t by (simp add: demo_node_def)
  ultimately show ?thesis using assms
    by (simp add: demo_check_def begin_wave_def bind_eff_def check_def ret_def pure_def demo_config_def)
qed

lemma demo_wave_reachable:
  assumes "DAGScheduler demo_dag = Inr s"
  shows "reachable (wave_init demo_config) (wave_step idle_host id demo_config) (demo_both s)"
    and "reachable (wave_init demo_config) (wave_step idle_host id demo_config) (demo_end s)"
proof -
  let ?step = "wave_step idle_host id demo_config"
  let ?w0 = "new_wave demo_config s ()"
  let ?w1 = "begin_worker ''a'' 0 ?w0"
  let ?w3 = "(demo_both s)\<lparr>wv_cancelled := True\<rparr>"
  have "sched_init s" using demo_dag_TaskDAG assms by (rule sched_init.intros)
  then have r0: "reachable (wave_init demo_config) ?step ?w0"
    using demo_wave_begins [OF assms] by (intro reach_init begun [where g = "()"]) (auto intro: reach_init)
  have facts: "demo_check (\<lambda>s. let w0 = new_wave demo_config s (); w1 = begin_worker ''a'' 0 w0; w2 = demo_both s;
        w3 = cancel_worker ''a'' 7 (w2\<lparr>wv_cancelled := True\<rparr>) in
      wv_slots w1 = 1 \<and> \<not> wv_cancelled w1 \<and> \<not> wv_cancelled w2 \<and> wv_cancelled w3 \<and>
      wv_phase w1 ''e'' = Waiting \<and> wv_phase w2 ''a'' = Wants_Create \<and> wv_phase w3 ''e'' = Wants_Create)"
    by code_simp
  then have f: "wv_slots ?w1 = 1" "\<not> wv_cancelled ?w1" "\<not> wv_cancelled (demo_both s)" "wv_cancelled (cancel_worker ''a'' 7 ?w3)"
      "wv_phase ?w1 ''e'' = Waiting" "wv_phase ?w3 ''a'' = Wants_Create" "wv_phase (cancel_worker ''a'' 7 ?w3) ''e'' = Wants_Create"
    using assms by (simp_all add: demo_check_def Let_def)
  have ids: "''a'' \<in> set (wc_scheduled demo_config)" "''e'' \<in> set (wc_scheduled demo_config)" by (simp_all add: demo_config_def)
  have "worker_step idle_host id demo_config ?w0 ?w1"
    by (rule acquire [OF ids(1)]) (simp_all add: new_wave_def demo_config_def)
  with r0 have r1: "reachable (wave_init demo_config) ?step ?w1" by (blast intro: reach_step worker)
  have "worker_step idle_host id demo_config ?w1 (demo_both s)"
    unfolding demo_both_def by (rule acquire [OF ids(2) f(5) _ f(2)]) (simp add: f(1))
  with r1 show r2: "reachable (wave_init demo_config) ?step (demo_both s)" by (blast intro: reach_step worker)
  have "worker_step idle_host id demo_config (demo_both s) ?w3" by (rule cancel [OF f(3)])
  with r2 have r3: "reachable (wave_init demo_config) ?step ?w3" by (blast intro: reach_step worker)
  have "worker_step idle_host id demo_config ?w3 (cancel_worker ''a'' 7 ?w3)" by (rule cancelled [OF ids(1)]) (simp_all add: f(6) [simplified])
  with r3 have r4: "reachable (wave_init demo_config) ?step (cancel_worker ''a'' 7 ?w3)" by (blast intro: reach_step worker)
  have "worker_step idle_host id demo_config (cancel_worker ''a'' 7 ?w3) (demo_end s)"
    unfolding demo_end_def by (rule cancelled [OF ids(2) f(4)]) (simp_all add: f(7))
  with r4 show "reachable (wave_init demo_config) ?step (demo_end s)" by (blast intro: reach_step worker)
qed

lemma demo_scheduler: "\<exists>s. DAGScheduler demo_dag = Inr s"
proof -
  have "is_ok (DAGScheduler demo_dag)" by code_simp
  then show ?thesis by (simp add: is_ok_iff)
qed


theorem worker_wave_progress_witness:
  "\<exists>s w'. DAGScheduler demo_dag = Inr s \<and> worker_step idle_host id demo_config (demo_both s) w' \<and> \<not> wv_cancelled w' \<and>
     remaining demo_config w' < remaining demo_config (demo_both s)"
proof -
  obtain s where s: "DAGScheduler demo_dag = Inr s" using demo_scheduler by blast
  have "demo_check (\<lambda>s. wv_phase (demo_both s) ''a'' = Wants_Create \<and> \<not> wv_cancelled (demo_both s))" by code_simp
  then have facts: "0 < left (wv_phase (demo_both s) ''a'')" "\<not> wv_cancelled (demo_both s)" using s by (simp_all add: demo_check_def)
  moreover have "''a'' \<in> set (wc_scheduled demo_config)" by (simp add: demo_config_def)
  ultimately obtain w' where "worker_step idle_host id demo_config (demo_both s) w'" "wv_cancelled w' = wv_cancelled (demo_both s)"
    using worker_wave_progress [OF demo_wave_reachable(1) [OF s]] by blast
  then show ?thesis using s facts(2) worker_wave_progress [OF demo_wave_reachable(1) [OF s]] by blast
qed

end
