(* ===== verification/Run_Recovery.thy ===== *)
theory Run_Recovery
  imports Reconciliation
begin

text \<open>
  The read side of recovery: the snapshot of a Run (\<open>persistence/types.py\<close>, \<open>load_run\<close> of
  \<open>persistence/repository.py\<close>) and the classifier that diagnoses every task of it
  (\<open>models/recovery.py\<close>, \<open>runtime/recovery.py\<close>).

  Dictionaries are association lists in insertion order. How pydantic reads a model from JSON is an
  argument: \<open>parse\<close> for a \<open>TaskContract\<close>, \<open>single\<close> and \<open>multi\<close> for the status of the two
  terminal results; the validators of the contract are those of \<open>Task_Contract\<close>. Columns that only the
  product surface shows (repository, display status, creation times) are left out of the records.
\<close>

section \<open>Snapshots of a Run\<close>

record persisted_task =
  pt_task :: task_contract
  pt_sha256 :: digest

abbreviation pt_id :: "persisted_task \<Rightarrow> task_id" where
  "pt_id p \<equiv> tc_task_id (pt_task p)"

record persisted_run_snapshot =
  ps_run :: uuid
  ps_project :: uuid
  ps_base_commit :: string
  ps_status :: persisted_run_status
  ps_tasks :: "persisted_task list"
  ps_evidence :: "evidence_row list"
  ps_terminal_result :: "json option"
  ps_terminal_sha256 :: "digest option"
  ps_finished_at :: "timestamp option"

definition PersistedEvidence :: "evidence_row \<Rightarrow> evidence_row res" where
  "PersistedEvidence e =
     (if ei_id e < 1 then Inl (ValueError ''id'')
      else if \<not> opt_all (\<lambda>t. length t \<le> 128) (ei_task e) then Inl (ValueError ''task_id'')
      else if \<not> text_between 255 (ei_key e) then Inl (ValueError ''evidence_key'')
      else if \<not> opt_all (\<lambda>s. length s \<le> 64) (ei_stage e) then Inl (ValueError ''stage'')
      else if \<not> opt_all (\<lambda>n. 0 \<le> n) (ei_sequence e) then Inl (ValueError ''sequence'')
      else if ei_schema_version e < 1 then Inl (ValueError ''schema_version'')
      else Inr e)"

definition PersistedRunSnapshot :: "persisted_run_snapshot \<Rightarrow> persisted_run_snapshot res" where
  "PersistedRunSnapshot s =
     (if \<not> oid_pattern (ps_base_commit s) then Inl (ValueError ''base_commit'')
      else if ps_tasks s = [] then Inl (ValueError ''tasks'')
      else if \<not> distinct (map pt_id (ps_tasks s))
      then Inl (ValueError ''persisted run tasks must have unique task ids'')
      else if ps_status s = RUNNING then
        if ps_terminal_result s \<noteq> None \<or> ps_terminal_sha256 s \<noteq> None
        then Inl (ValueError ''running persisted runs must not contain terminal result evidence'')
        else if ps_finished_at s \<noteq> None
        then Inl (ValueError ''running persisted runs must not have finished_at'')
        else Inr s
      else if ps_terminal_result s = None \<or> ps_terminal_sha256 s = None
      then Inl (ValueError ''terminal persisted runs require terminal result evidence'')
      else if ps_finished_at s = None
      then Inl (ValueError ''terminal persisted runs require finished_at'')
      else Inr s)"

section \<open>Loading a Run\<close>

definition decode_task ::
    "(json \<Rightarrow> digest) \<Rightarrow> (json \<Rightarrow> task_contract option) \<Rightarrow> task_row \<Rightarrow> persisted_task res" where
  "decode_task sha parse row =
     bind_res (verify_payload_hash sha (tr_contract row) (tr_contract_sha256 row)) (\<lambda>_.
       let invalid = Inl (PersistenceCorruptionError ''persisted task failed TaskContract validation'') in
       case parse (tr_contract row) of
         None \<Rightarrow> invalid
       | Some raw \<Rightarrow> (case TaskContract raw of
             Inl e \<Rightarrow> invalid
           | Inr c \<Rightarrow>
               if tc_task_id c \<noteq> tr_task row
               then Inl (PersistenceCorruptionError ''persisted task id disagrees with contract payload'')
               else Inr \<lparr>pt_task = c, pt_sha256 = tr_contract_sha256 row\<rparr>))"

definition decode_evidence_row :: "(json \<Rightarrow> digest) \<Rightarrow> evidence_row \<Rightarrow> evidence_row res" where
  "decode_evidence_row sha row =
     bind_res (verify_payload_hash sha (payload_json (ei_payload row)) (ei_sha256 row)) (\<lambda>_.
     bind_res (decode_evidence (ei_kind row) (ei_payload row) (ei_schema_version row)) (\<lambda>_.
       PersistedEvidence row))"

definition decode_terminal_result ::
    "(json \<Rightarrow> task_run_state res) \<Rightarrow> (json \<Rightarrow> task_run_state res) \<Rightarrow> json \<Rightarrow> task_run_state res" where
  "decode_terminal_result single multi payload = (case single payload of
     Inr state \<Rightarrow> Inr state
   | Inl _ \<Rightarrow> (case multi payload of
       Inr state \<Rightarrow> Inr state
     | Inl _ \<Rightarrow> Inl (PersistenceCorruptionError ''persisted terminal run result failed both single-task and multi-task typed validation'')))"

definition check_terminal_result ::
    "(json \<Rightarrow> digest) \<Rightarrow> (json \<Rightarrow> task_run_state res) \<Rightarrow> (json \<Rightarrow> task_run_state res) \<Rightarrow> run_row \<Rightarrow> unit res" where
  "check_terminal_result sha single multi run = (case rr_terminal_result run of
     None \<Rightarrow> Inr ()
   | Some payload \<Rightarrow> (case rr_terminal_result_sha256 run of
       None \<Rightarrow> Inl (PersistenceCorruptionError ''terminal result is missing its SHA-256 evidence'')
     | Some digest \<Rightarrow>
         bind_res (verify_payload_hash sha payload digest) (\<lambda>_.
         bind_res (decode_terminal_result single multi payload) (\<lambda>state.
         bind_res (from_task_state state) (\<lambda>status.
           if status \<noteq> rr_status run
           then Inl (PersistenceCorruptionError ''persisted run status disagrees with validated terminal result'')
           else Inr ())))))"

text \<open>The inner join with the project table finds no row when the project is unknown.\<close>

definition load_run ::
    "(json \<Rightarrow> digest) \<Rightarrow> (json \<Rightarrow> task_contract option) \<Rightarrow> (json \<Rightarrow> task_run_state res)
     \<Rightarrow> (json \<Rightarrow> task_run_state res) \<Rightarrow> uuid list \<Rightarrow> uuid \<Rightarrow> 'z evidence_store_scheme
     \<Rightarrow> persisted_run_snapshot res" where
  "load_run sha parse single multi projects rid db =
     (case find_run rid db of
        None \<Rightarrow> Inl (ValueError ''unknown persistence run'')
      | Some run \<Rightarrow>
          if rr_project run \<notin> set projects then Inl (ValueError ''unknown persistence run'')
          else
            bind_res (map_res (decode_task sha parse)
              (sort_key tr_task (filter (\<lambda>t. tr_run t = rid) (st_tasks db)))) (\<lambda>tasks.
            bind_res (map_res (decode_evidence_row sha)
              (sort_key ei_id (filter (\<lambda>e. ei_run e = rid) (st_evidence db)))) (\<lambda>evidence.
            bind_res (check_terminal_result sha single multi run) (\<lambda>_.
              PersistedRunSnapshot
                \<lparr>ps_run = rid, ps_project = rr_project run, ps_base_commit = rr_base_commit run,
                 ps_status = rr_status run, ps_tasks = tasks, ps_evidence = evidence,
                 ps_terminal_result = rr_terminal_result run,
                 ps_terminal_sha256 = rr_terminal_result_sha256 run,
                 ps_finished_at = rr_finished_at run\<rparr>))))"

section \<open>Assessments\<close>

datatype recovery_disposition =
    R_NO_ACTION_RUN_TERMINAL | R_WAIT_ACTIVE_OWNER | R_RESUME_FROM_TERMINAL_EVIDENCE
  | R_REDISPATCH_CANDIDATE_EXPIRED_GENERATION | R_BLOCKED_UNOWNED_DISPATCH_AMBIGUITY
  | R_BLOCKED_RELEASED_EVIDENCE_GAP

record task_recovery_assessment =
  ra_run :: uuid
  ra_task :: task_id
  ra_disposition :: recovery_disposition
  ra_lease_state :: task_lease_state
  ra_generation :: int
  ra_dispatch :: "uuid option"
  ra_observed_at :: timestamp
  ra_worker_status :: "worker_execution_status option"
  ra_worker_evidence :: "int option"
  ra_reason :: string

definition validate_recovery_shape :: "task_recovery_assessment \<Rightarrow> task_recovery_assessment res" where
  "validate_recovery_shape a =
     (if (ra_worker_status a = None) \<noteq> (ra_worker_evidence a = None)
      then Inl (ValueError ''worker execution status and evidence id must either both be present or both be absent'')
      else if ra_lease_state a = UNOWNED \<and> (ra_generation a \<noteq> 0 \<or> ra_dispatch a \<noteq> None)
      then Inl (ValueError ''UNOWNED recovery assessments require generation zero and no dispatch'')
      else if ra_lease_state a \<noteq> UNOWNED \<and> (ra_generation a < 1 \<or> ra_dispatch a = None)
      then Inl (ValueError ''owned recovery assessments require generation and dispatch identity'')
      else (case ra_disposition a of
          R_NO_ACTION_RUN_TERMINAL \<Rightarrow> Inr a
        | R_WAIT_ACTIVE_OWNER \<Rightarrow>
            if ra_lease_state a \<noteq> ACTIVE then Inl (ValueError ''WAIT_ACTIVE_OWNER requires an ACTIVE lease'')
            else Inr a
        | R_RESUME_FROM_TERMINAL_EVIDENCE \<Rightarrow>
            if ra_worker_status a = None
            then Inl (ValueError ''RESUME_FROM_TERMINAL_EVIDENCE requires accepted worker execution evidence'')
            else Inr a
        | R_REDISPATCH_CANDIDATE_EXPIRED_GENERATION \<Rightarrow>
            if ra_lease_state a \<noteq> EXPIRED
            then Inl (ValueError ''REDISPATCH_CANDIDATE_EXPIRED_GENERATION requires an EXPIRED lease'')
            else if ra_worker_status a \<noteq> None
            then Inl (ValueError ''redispatch candidates must not already have terminal worker evidence'')
            else Inr a
        | R_BLOCKED_UNOWNED_DISPATCH_AMBIGUITY \<Rightarrow>
            if ra_lease_state a \<noteq> UNOWNED
            then Inl (ValueError ''unowned dispatch ambiguity requires an UNOWNED lease'')
            else Inr a
        | R_BLOCKED_RELEASED_EVIDENCE_GAP \<Rightarrow>
            if ra_lease_state a \<noteq> RELEASED
            then Inl (ValueError ''released evidence gap requires a RELEASED lease'')
            else if ra_worker_status a \<noteq> None
            then Inl (ValueError ''released evidence gaps must not claim terminal worker evidence'')
            else Inr a))"

definition TaskRecoveryAssessment :: "task_recovery_assessment \<Rightarrow> task_recovery_assessment res" where
  "TaskRecoveryAssessment a =
     (if \<not> text_between 128 (ra_task a) then Inl (ValueError ''task_id'')
      else if ra_generation a < 0 then Inl (ValueError ''lease_generation'')
      else if \<not> opt_all (\<lambda>i. 1 \<le> i) (ra_worker_evidence a) then Inl (ValueError ''worker_execution_evidence_id'')
      else if \<not> text_between 1000 (ra_reason a) then Inl (ValueError ''reason'')
      else validate_recovery_shape a)"

record run_recovery_plan =
  rp_run :: uuid
  rp_status :: persisted_run_status
  rp_observed_at :: timestamp
  rp_tasks :: "task_recovery_assessment list"

definition RunRecoveryPlan :: "run_recovery_plan \<Rightarrow> run_recovery_plan res" where
  "RunRecoveryPlan p =
     (if rp_tasks p = [] then Inl (ValueError ''tasks'')
      else bind_res (map_res (\<lambda>a.
          if ra_run a \<noteq> rp_run p then Inl (ValueError ''recovery plan tasks must belong to the plan Run'')
          else if ra_observed_at a \<noteq> rp_observed_at p
          then Inl (ValueError ''recovery plan tasks must share one observation time'')
          else Inr a) (rp_tasks p)) (\<lambda>_.
        if \<not> distinct (map ra_task (rp_tasks p))
        then Inl (ValueError ''recovery plan tasks must have unique task ids'')
        else Inr p))"

section \<open>The classifier\<close>

text \<open>The loop of \<open>_validate_leases\<close>: the dictionary of leases and the shared observation time.\<close>

definition add_lease ::
    "uuid \<Rightarrow> task_lease_snapshot \<Rightarrow> (task_id \<times> task_lease_snapshot) list \<times> timestamp option
     \<Rightarrow> ((task_id \<times> task_lease_snapshot) list \<times> timestamp option) res" where
  "add_lease rid lease acc = (case acc of (lease_by_task, observed_at) \<Rightarrow>
     if ls_run lease \<noteq> rid
     then Inl (PersistenceCorruptionError ''recovery lease run identity disagrees with persisted Run'')
     else if ls_task lease \<in> fst ` set lease_by_task
     then Inl (PersistenceCorruptionError ''recovery snapshot contains duplicate lease for task'')
     else
       let lease_by_task' = lease_by_task @ [(ls_task lease, lease)] in
       case observed_at of
         None \<Rightarrow> Inr (lease_by_task', Some (ls_observed_at lease))
       | Some t \<Rightarrow>
           if ls_observed_at lease \<noteq> t
           then Inl (PersistenceCorruptionError ''recovery lease snapshots must share one database observation time'')
           else Inr (lease_by_task', Some t))"

definition validate_leases ::
    "uuid \<Rightarrow> task_id list \<Rightarrow> task_lease_snapshot list \<Rightarrow> (task_id \<times> task_lease_snapshot) list res" where
  "validate_leases rid tids leases =
     bind_res (fold_res (add_lease rid) leases ([], None)) (\<lambda>(lease_by_task, _).
       if fst ` set lease_by_task \<noteq> set tids
       then Inl (PersistenceCorruptionError ''recovery lease/task identities disagree'')
       else Inr lease_by_task)"

definition validated_task_scope :: "uuid \<Rightarrow> task_id set \<Rightarrow> evidence_row \<Rightarrow> task_id res" where
  "validated_task_scope rid known e =
     (if ei_run e \<noteq> rid
      then Inl (PersistenceCorruptionError ''persisted evidence disagrees with recovery Run identity'')
      else (case ei_task e of
          None \<Rightarrow> Inl (PersistenceCorruptionError ''worker-side evidence is not bound to a known persisted task'')
        | Some t \<Rightarrow>
            if t \<notin> known
            then Inl (PersistenceCorruptionError ''worker-side evidence is not bound to a known persisted task'')
            else Inr t))"

definition validate_payload_identity :: "uuid \<Rightarrow> evidence_row \<Rightarrow> uuid \<Rightarrow> task_id \<Rightarrow> unit res" where
  "validate_payload_identity rid e payload_run payload_task =
     (if payload_run \<noteq> rid \<or> payload_run \<noteq> ei_run e
      then Inl (PersistenceCorruptionError ''worker-side evidence payload Run identity mismatch'')
      else if Some payload_task \<noteq> ei_task e
      then Inl (PersistenceCorruptionError ''worker-side evidence payload Task identity mismatch'')
      else Inr ())"

text \<open>
  The two nested dictionaries of \<open>_decode_worker_side_evidence\<close>, one \<open>worker_side\<close> per task;
  \<open>side_of\<close> is \<open>get(task_id, {})\<close> on both.
\<close>

type_synonym worker_sides = "(task_id \<times> worker_side) list"

definition side_of :: "worker_sides \<Rightarrow> task_id \<Rightarrow> worker_side" where
  "side_of ws t = (case map_of ws t of None \<Rightarrow> \<lparr>ws_workers = [], ws_dispatches = []\<rparr> | Some s \<Rightarrow> s)"

definition side_row :: "uuid \<Rightarrow> task_id set \<Rightarrow> evidence_row \<Rightarrow> worker_sides \<Rightarrow> worker_sides res" where
  "side_row rid known e ws =
     (if ei_kind e \<notin> {WORKER_EXECUTION, DISPATCH_EVENT} then Inr ws
      else bind_res (validated_task_scope rid known e) (\<lambda>t.
        let s = side_of ws t in
        if ei_kind e = WORKER_EXECUTION then
          (case ei_payload e of
             WorkerPayload p \<Rightarrow>
               bind_res (WorkerExecutionEvidence p) (\<lambda>execution.
               bind_res (validate_payload_identity rid e (we_run execution) (we_task execution)) (\<lambda>_.
                 if we_dispatch execution \<in> fst ` set (ws_workers s)
                 then Inl (PersistenceCorruptionError ''multiple terminal WORKER_EXECUTION evidence rows exist for one dispatch'')
                 else Inr (AList.update t
                   (s\<lparr>ws_workers := ws_workers s @ [(we_dispatch execution, ei_id e, execution)]\<rparr>) ws)))
           | _ \<Rightarrow> Inl (ValueError ''WorkerExecutionEvidence''))
        else
          (case ei_payload e of
             DispatchPayload p \<Rightarrow>
               bind_res (WorkerDispatchEvent p) (\<lambda>dispatch.
               bind_res (validate_payload_identity rid e (wd_run dispatch) (wd_task dispatch)) (\<lambda>_.
                 let phases = phases_of s (wd_dispatch dispatch) in
                 if wd_phase dispatch \<in> fst ` set phases
                 then Inl (PersistenceCorruptionError ''duplicate worker dispatch phase evidence exists for dispatch'')
                 else Inr (AList.update t (s\<lparr>ws_dispatches :=
                   AList.update (wd_dispatch dispatch) (phases @ [(wd_phase dispatch, ei_id e)]) (ws_dispatches s)\<rparr>) ws)))
           | _ \<Rightarrow> Inl (ValueError ''WorkerDispatchEvent''))))"

definition completed_without_worker :: "worker_side \<Rightarrow> bool" where
  "completed_without_worker s = (\<exists>(d, phases) \<in> set (ws_dispatches s).
     COMPLETED \<in> fst ` set phases \<and> d \<notin> fst ` set (ws_workers s))"

definition decode_worker_side_evidence :: "persisted_run_snapshot \<Rightarrow> task_id set \<Rightarrow> worker_sides res" where
  "decode_worker_side_evidence snapshot known =
     bind_res (fold_res (side_row (ps_run snapshot) known) (ps_evidence snapshot) []) (\<lambda>ws.
       if \<exists>(t, s) \<in> set ws. completed_without_worker s
       then Inl (PersistenceCorruptionError ''COMPLETED dispatch evidence exists without terminal WORKER_EXECUTION evidence'')
       else Inr ws)"

definition no_evidence :: "worker_side \<Rightarrow> bool" where
  "no_evidence s = (ws_workers s = [] \<and> ws_dispatches s = [])"

definition validate_unowned_worker_evidence ::
    "(task_id \<times> task_lease_snapshot) list \<Rightarrow> worker_sides \<Rightarrow> unit res" where
  "validate_unowned_worker_evidence lease_by_task ws =
     (if \<exists>(t, lease) \<in> set lease_by_task. ls_state lease = UNOWNED \<and> \<not> no_evidence (side_of ws t)
      then Inl (PersistenceCorruptionError ''UNOWNED task contains worker-side evidence'')
      else Inr ())"

definition assessment ::
    "persisted_run_snapshot \<Rightarrow> task_lease_snapshot \<Rightarrow> recovery_disposition \<Rightarrow> string
     \<Rightarrow> (int \<times> worker_execution_evidence) option \<Rightarrow> task_recovery_assessment res" where
  "assessment snapshot lease disposition reason worker = TaskRecoveryAssessment
     \<lparr>ra_run = ps_run snapshot, ra_task = ls_task lease, ra_disposition = disposition,
      ra_lease_state = ls_state lease, ra_generation = ls_generation lease, ra_dispatch = ls_dispatch lease,
      ra_observed_at = ls_observed_at lease, ra_worker_status = map_option (we_status \<circ> snd) worker,
      ra_worker_evidence = map_option fst worker, ra_reason = reason\<rparr>"

definition classify_task ::
    "persisted_run_snapshot \<Rightarrow> task_lease_snapshot \<Rightarrow> worker_side \<Rightarrow> task_recovery_assessment res" where
  "classify_task snapshot lease s =
     (if ps_status snapshot \<noteq> RUNNING
      then assessment snapshot lease R_NO_ACTION_RUN_TERMINAL
        ''Persisted Run is terminal; recovery must not reopen it.'' None
      else if ls_state lease = UNOWNED then
        if \<not> no_evidence s
        then Inl (PersistenceCorruptionError ''UNOWNED task contains worker-side evidence'')
        else assessment snapshot lease R_BLOCKED_UNOWNED_DISPATCH_AMBIGUITY
          ''Task is UNOWNED, but V1.0 has no durable dispatcher-intent ledger to prove whether a broker message is absent or merely awaiting lease acquisition.'' None
      else (case ls_dispatch lease of
        None \<Rightarrow> Inl (AssertionError ''lease.dispatch_id is not None'')
      | Some d \<Rightarrow>
        let current_worker = map_of (ws_workers s) d in
        if ls_state lease = ACTIVE
        then assessment snapshot lease R_WAIT_ACTIVE_OWNER
          ''Current lease generation is ACTIVE under database time; recovery must not race the live fenced owner.'' current_worker
        else if current_worker \<noteq> None
        then assessment snapshot lease R_RESUME_FROM_TERMINAL_EVIDENCE
          ''Accepted terminal WORKER_EXECUTION evidence already exists for the current dispatch; downstream recovery should resume from that evidence instead of rerunning agent/tool execution.'' current_worker
        else if ls_state lease = EXPIRED
        then assessment snapshot lease R_REDISPATCH_CANDIDATE_EXPIRED_GENERATION
          ''Current generation is EXPIRED and has no terminal WORKER_EXECUTION evidence. This is a redispatch candidate only; mutation still requires fresh locked revalidation.'' None
        else assessment snapshot lease R_BLOCKED_RELEASED_EVIDENCE_GAP
          ''Lease ownership was RELEASED without terminal WORKER_EXECUTION evidence. Released generations are durable ownership history and cannot be silently reacquired by recovery.'' None))"

definition classify ::
    "persisted_run_snapshot \<Rightarrow> task_lease_snapshot list \<Rightarrow> run_recovery_plan res" where
  "classify snapshot leases =
     (let tids = map pt_id (ps_tasks snapshot) in
      bind_res (validate_leases (ps_run snapshot) tids leases) (\<lambda>lease_by_task.
        case lease_by_task of
          [] \<Rightarrow> Inl (RuntimeError ''StopIteration'')
        | (_, first) # _ \<Rightarrow>
            bind_res (decode_worker_side_evidence snapshot (set tids)) (\<lambda>ws.
            bind_res (validate_unowned_worker_evidence lease_by_task ws) (\<lambda>_.
            bind_res (map_res (\<lambda>t. classify_task snapshot (the (map_of lease_by_task t)) (side_of ws t)) tids)
              (\<lambda>assessments. RunRecoveryPlan
                \<lparr>rp_run = ps_run snapshot, rp_status = ps_status snapshot,
                 rp_observed_at = ls_observed_at first, rp_tasks = assessments\<rparr>)))))"

text \<open>\<open>RecoveryInspector.inspect_run\<close>: two reads of the store, then the classifier.\<close>

definition inspect_run ::
    "(uuid \<Rightarrow> 's \<Rightarrow> persisted_run_snapshot res) \<Rightarrow> (uuid \<Rightarrow> 's \<Rightarrow> task_lease_snapshot list res) \<Rightarrow> uuid
     \<Rightarrow> 's \<Rightarrow> 's \<Rightarrow> run_recovery_plan res" where
  "inspect_run run_reader lease_reader rid db db' =
     bind_res (run_reader rid db) (\<lambda>snapshot. bind_res (lease_reader rid db') (classify snapshot))"

section \<open>What the classifier accepts\<close>

lemma add_lease_Inr:
  "add_lease rid l (d, ob) = Inr acc \<longleftrightarrow> ls_run l = rid \<and> ls_task l \<notin> fst ` set d \<and>
     acc = (d @ [(ls_task l, l)], Some (ls_observed_at l)) \<and> (ob = None \<or> ob = Some (ls_observed_at l))"
  by (cases ob) (auto simp: add_lease_def Let_def)

lemma add_lease_fold:
  assumes "fold_res (add_lease rid) leases (d, ob) = Inr (d', ob')" and "distinct (map fst d)"
  shows "d' = d @ map (\<lambda>l. (ls_task l, l)) leases \<and> distinct (map fst d') \<and> (\<forall>l \<in> set leases. ls_run l = rid) \<and>
    (\<forall>t. ob = Some t \<longrightarrow> ob' = Some t) \<and> (\<forall>l \<in> set leases. ob' = Some (ls_observed_at l))"
  using assms
proof (induction leases arbitrary: d ob)
  case Nil
  then show ?case by simp
next
  case (Cons l leases)
  from Cons.prems(1) have l: "ls_run l = rid" "ls_task l \<notin> fst ` set d" "ob = None \<or> ob = Some (ls_observed_at l)"
    and step: "fold_res (add_lease rid) leases (d @ [(ls_task l, l)], Some (ls_observed_at l)) = Inr (d', ob')"
    by (auto simp: bind_res_eq_Inr add_lease_Inr)
  have "distinct (map fst (d @ [(ls_task l, l)]))" using Cons.prems(2) l(2) by simp
  note ih = Cons.IH [OF step this]
  have "d' = d @ map (\<lambda>l. (ls_task l, l)) (l # leases)" using ih by simp
  moreover have "distinct (map fst d')" using ih by blast
  moreover have "\<forall>t. ob = Some t \<longrightarrow> ob' = Some t" using ih l(3) by auto
  ultimately show ?case using ih l(1) by auto
qed

lemma validate_leases_Inr:
  assumes "validate_leases rid tids leases = Inr lbt"
  shows "lbt = map (\<lambda>l. (ls_task l, l)) leases" and "distinct (map ls_task leases)"
    and "ls_task ` set leases = set tids" and "\<forall>l \<in> set leases. ls_run l = rid"
    and "l \<in> set leases \<Longrightarrow> l' \<in> set leases \<Longrightarrow> ls_observed_at l = ls_observed_at l'"
proof -
  from assms obtain ob where f: "fold_res (add_lease rid) leases ([], None) = Inr (lbt, ob)"
    and ids: "fst ` set lbt = set tids"
    by (auto simp: validate_leases_def bind_res_eq_Inr split: if_splits)
  note r = add_lease_fold [OF f]
  show lbt: "lbt = map (\<lambda>l. (ls_task l, l)) leases" using r by simp
  show "distinct (map ls_task leases)" using r by (simp add: lbt o_def)
  show "ls_task ` set leases = set tids" using ids by (simp add: lbt image_image)
  show "\<forall>l \<in> set leases. ls_run l = rid" using r by simp
  show "ls_observed_at l = ls_observed_at l'" if "l \<in> set leases" "l' \<in> set leases"
    using r that by (metis (no_types, lifting) distinct.simps(1) list.simps(8) option.inject)
qed

text \<open>The terminal rows of a task, as the entries the first dictionary gets.\<close>

definition worker_entries :: "task_id \<Rightarrow> evidence_row \<Rightarrow> (uuid \<times> int \<times> worker_execution_evidence) list" where
  "worker_entries t e = (if ei_kind e \<noteq> WORKER_EXECUTION then [] else
     (case ei_payload e of WorkerPayload p \<Rightarrow> if we_task p = t then [(we_dispatch p, ei_id e, p)] else [] | _ \<Rightarrow> []))"

lemma WorkerExecutionEvidence_same: "WorkerExecutionEvidence p = Inr q \<Longrightarrow> q = p"
  by (auto simp: WorkerExecutionEvidence_def split: if_splits)

lemma side_of_update: "side_of (AList.update t s ws) u = (if u = t then s else side_of ws u)"
  by (simp add: side_of_def update_conv')

lemma side_row_cases:
  assumes "side_row rid known e ws = Inr ws'"
  obtains (other) "ei_kind e \<noteq> WORKER_EXECUTION" "ei_kind e \<noteq> DISPATCH_EVENT" "ws' = ws"
  | (worker) p where "ei_kind e = WORKER_EXECUTION" "ei_payload e = WorkerPayload p" "WorkerExecutionEvidence p = Inr p"
      "ei_task e = Some (we_task p)" "we_run p = rid" "we_task p \<in> known"
      "we_dispatch p \<notin> fst ` set (ws_workers (side_of ws (we_task p)))"
      "ws' = AList.update (we_task p) ((side_of ws (we_task p))\<lparr>ws_workers :=
         ws_workers (side_of ws (we_task p)) @ [(we_dispatch p, ei_id e, p)]\<rparr>) ws"
  | (dispatch) t ds where "ei_kind e = DISPATCH_EVENT" "ws' = AList.update t ((side_of ws t)\<lparr>ws_dispatches := ds\<rparr>) ws"
proof (cases "ei_kind e = WORKER_EXECUTION")
  case True
  with assms obtain t where t: "validated_task_scope rid known e = Inr t" by (auto simp: side_row_def bind_res_eq_Inr)
  then have "ei_run e = rid" "ei_task e = Some t" "t \<in> known"
    by (auto simp: validated_task_scope_def split: if_splits option.splits)
  moreover obtain p where p: "ei_payload e = WorkerPayload p" using assms True t
    by (cases "ei_payload e") (auto simp: side_row_def)
  moreover have "WorkerExecutionEvidence p = Inr p" using assms True t p
    by (auto simp: side_row_def Let_def bind_res_eq_Inr dest: WorkerExecutionEvidence_same)
  ultimately show thesis using assms True t
    by (intro worker [of p]) (auto simp: side_row_def Let_def validate_payload_identity_def split: if_splits)
next
  case False
  show thesis
  proof (cases "ei_kind e = DISPATCH_EVENT")
    case True
    with False assms show thesis
      by (cases "ei_payload e") (auto simp: side_row_def Let_def bind_res_eq_Inr intro: dispatch split: if_splits)
  next
    case no: False
    with False assms show thesis by (intro other) (auto simp: side_row_def)
  qed
qed

lemma side_row_workers:
  assumes "side_row rid known e ws = Inr ws'"
  shows "ws_workers (side_of ws' t) = ws_workers (side_of ws t) @ worker_entries t e \<and>
    (distinct (map fst (ws_workers (side_of ws t))) \<longrightarrow> distinct (map fst (ws_workers (side_of ws' t)))) \<and>
    (ei_kind e = WORKER_EXECUTION \<longrightarrow> (\<exists>p. ei_payload e = WorkerPayload p \<and> ei_task e = Some (we_task p) \<and>
      we_run p = rid \<and> we_task p \<in> known \<and> WorkerExecutionEvidence p = Inr p))"
  using assms by (cases rule: side_row_cases) (auto simp: side_of_update worker_entries_def)

lemma side_fold_workers:
  assumes "fold_res (side_row rid known) es ws = Inr ws'" and "distinct (map fst (ws_workers (side_of ws t)))"
  shows "ws_workers (side_of ws' t) = ws_workers (side_of ws t) @ concat (map (worker_entries t) es) \<and>
    distinct (map fst (ws_workers (side_of ws' t))) \<and>
    (\<forall>e \<in> set es. ei_kind e = WORKER_EXECUTION \<longrightarrow> (\<exists>p. ei_payload e = WorkerPayload p \<and> ei_task e = Some (we_task p) \<and>
      we_run p = rid \<and> we_task p \<in> known \<and> WorkerExecutionEvidence p = Inr p))"
  using assms
proof (induction es arbitrary: ws)
  case Nil
  then show ?case by simp
next
  case (Cons e es)
  from Cons.prems(1) obtain ws1 where e: "side_row rid known e ws = Inr ws1"
    and es: "fold_res (side_row rid known) es ws1 = Inr ws'" by (auto simp: bind_res_eq_Inr)
  note r = side_row_workers [OF e, of t]
  then have "distinct (map fst (ws_workers (side_of ws1 t)))" using Cons.prems(2) by blast
  note ih = Cons.IH [OF es this]
  have "ws_workers (side_of ws' t) = ws_workers (side_of ws t) @ concat (map (worker_entries t) (e # es))"
    using ih r by simp
  moreover have "distinct (map fst (ws_workers (side_of ws' t)))" using ih by blast
  ultimately show ?case using ih r by auto
qed

section \<open>The diagnosis of a task\<close>

definition terminal_evidence ::
    "persisted_run_snapshot \<Rightarrow> task_id \<Rightarrow> uuid \<Rightarrow> worker_execution_status \<Rightarrow> int \<Rightarrow> bool" where
  "terminal_evidence snapshot t d st i = (\<exists>e \<in> set (ps_evidence snapshot). ei_kind e = WORKER_EXECUTION \<and>
     ei_task e = Some t \<and> ei_id e = i \<and>
     (\<exists>p. ei_payload e = WorkerPayload p \<and> we_run p = ps_run snapshot \<and> we_task p = t \<and> we_dispatch p = d \<and>
        we_status p = st \<and> WorkerExecutionEvidence p = Inr p))"

text \<open>The specification of a diagnosis: one line per state of the lease.\<close>

definition diagnosis :: "task_lease_state \<Rightarrow> bool \<Rightarrow> recovery_disposition" where
  "diagnosis state executed = (case state of
     UNOWNED \<Rightarrow> R_BLOCKED_UNOWNED_DISPATCH_AMBIGUITY
   | ACTIVE \<Rightarrow> R_WAIT_ACTIVE_OWNER
   | EXPIRED \<Rightarrow> if executed then R_RESUME_FROM_TERMINAL_EVIDENCE else R_REDISPATCH_CANDIDATE_EXPIRED_GENERATION
   | RELEASED \<Rightarrow> if executed then R_RESUME_FROM_TERMINAL_EVIDENCE else R_BLOCKED_RELEASED_EVIDENCE_GAP)"

definition assessed :: "persisted_run_snapshot \<Rightarrow> task_lease_snapshot \<Rightarrow> task_recovery_assessment \<Rightarrow> bool" where
  "assessed snapshot lease a =
     (ra_run a = ps_run snapshot \<and> ra_task a = ls_task lease \<and> ra_lease_state a = ls_state lease \<and>
      ra_generation a = ls_generation lease \<and> ra_dispatch a = ls_dispatch lease \<and>
      ra_observed_at a = ls_observed_at lease \<and> (ra_worker_status a = None) = (ra_worker_evidence a = None) \<and>
      (if ps_status snapshot \<noteq> RUNNING
       then ra_disposition a = R_NO_ACTION_RUN_TERMINAL \<and> ra_worker_status a = None
       else ra_disposition a = diagnosis (ls_state lease) (ra_worker_status a \<noteq> None) \<and>
         (\<forall>st i. (ra_worker_status a = Some st \<and> ra_worker_evidence a = Some i) \<longleftrightarrow>
            (\<exists>d. ls_dispatch lease = Some d \<and> terminal_evidence snapshot (ls_task lease) d st i))))"

lemma assessment_Inr:
  assumes "assessment snapshot lease disposition reason worker = Inr a"
  shows "a = \<lparr>ra_run = ps_run snapshot, ra_task = ls_task lease, ra_disposition = disposition,
      ra_lease_state = ls_state lease, ra_generation = ls_generation lease, ra_dispatch = ls_dispatch lease,
      ra_observed_at = ls_observed_at lease, ra_worker_status = map_option (we_status \<circ> snd) worker,
      ra_worker_evidence = map_option fst worker, ra_reason = reason\<rparr>"
    and "ls_state lease = UNOWNED \<Longrightarrow> ls_dispatch lease = None"
  using assms
  by (auto simp: assessment_def TaskRecoveryAssessment_def validate_recovery_shape_def Let_def
      split: if_splits recovery_disposition.splits)

lemma classify_task_Inr:
  assumes "classify_task snapshot lease s = Inr a"
    and ev: "\<And>d st i. terminal_evidence snapshot (ls_task lease) d st i \<longleftrightarrow>
      (\<exists>p. map_of (ws_workers s) d = Some (i, p) \<and> we_status p = st)"
  shows "assessed snapshot lease a"
proof (cases "ps_status snapshot = RUNNING")
  case False
  then show ?thesis using assms(1) by (auto simp: classify_task_def assessed_def dest!: assessment_Inr(1))
next
  case running: True
  show ?thesis
  proof (cases "ls_state lease = UNOWNED")
    case True
    with running assms(1) have a: "assessment snapshot lease R_BLOCKED_UNOWNED_DISPATCH_AMBIGUITY
        ''Task is UNOWNED, but V1.0 has no durable dispatcher-intent ledger to prove whether a broker message is absent or merely awaiting lease acquisition.'' None = Inr a"
      by (auto simp: classify_task_def split: if_splits)
    show ?thesis using assessment_Inr(1) [OF a] assessment_Inr(2) [OF a True] running True
      by (auto simp: assessed_def diagnosis_def)
  next
    case False
    with running assms(1) obtain d where d: "ls_dispatch lease = Some d"
      by (cases "ls_dispatch lease") (auto simp: classify_task_def)
    with running False assms(1) obtain reason where
      a: "assessment snapshot lease (diagnosis (ls_state lease) (map_of (ws_workers s) d \<noteq> None)) reason
        (map_of (ws_workers s) d) = Inr a"
      by (cases "map_of (ws_workers s) d"; cases "ls_state lease")
         (auto simp: classify_task_def diagnosis_def split del: if_split split: if_splits)
    show ?thesis using assessment_Inr(1) [OF a] running d
      by (auto simp: assessed_def ev)
  qed
qed

lemma side_of_Nil [simp]: "side_of [] t = \<lparr>ws_workers = [], ws_dispatches = []\<rparr>"
  by (simp add: side_of_def)

lemma decoded_terminal_evidence:
  assumes "decode_worker_side_evidence snapshot known = Inr ws"
  shows "terminal_evidence snapshot t d st i \<longleftrightarrow>
    (\<exists>p. map_of (ws_workers (side_of ws t)) d = Some (i, p) \<and> we_status p = st)"
proof -
  from assms have "fold_res (side_row (ps_run snapshot) known) (ps_evidence snapshot) [] = Inr ws"
    by (auto simp: decode_worker_side_evidence_def bind_res_eq_Inr split: if_splits)
  from side_fold_workers [OF this, of t]
  have w: "ws_workers (side_of ws t) = concat (map (worker_entries t) (ps_evidence snapshot))"
    and dist: "distinct (map fst (ws_workers (side_of ws t)))"
    and rows: "\<And>e. e \<in> set (ps_evidence snapshot) \<Longrightarrow> ei_kind e = WORKER_EXECUTION \<Longrightarrow>
      \<exists>p. ei_payload e = WorkerPayload p \<and> ei_task e = Some (we_task p) \<and> we_run p = ps_run snapshot \<and>
        we_task p \<in> known \<and> WorkerExecutionEvidence p = Inr p"
    by auto
  have "map_of (ws_workers (side_of ws t)) d = Some (i, p) \<longleftrightarrow>
      (\<exists>e \<in> set (ps_evidence snapshot). (d, i, p) \<in> set (worker_entries t e))" for p
    by (simp add: map_of_eq_Some_iff [OF dist]) (simp add: w)
  also have "\<dots> p \<longleftrightarrow> (\<exists>e \<in> set (ps_evidence snapshot). ei_kind e = WORKER_EXECUTION \<and> ei_payload e = WorkerPayload p \<and>
      we_task p = t \<and> we_dispatch p = d \<and> ei_id e = i)" for p
    by (rule bex_cong [OF refl]) (auto simp: worker_entries_def split: evidence_payload.splits if_splits)
  finally have entry: "map_of (ws_workers (side_of ws t)) d = Some (i, p) \<longleftrightarrow> (\<exists>e \<in> set (ps_evidence snapshot).
      ei_kind e = WORKER_EXECUTION \<and> ei_payload e = WorkerPayload p \<and> we_task p = t \<and> we_dispatch p = d \<and> ei_id e = i)" for p .
  show ?thesis
  proof
    assume "terminal_evidence snapshot t d st i"
    then show "\<exists>p. map_of (ws_workers (side_of ws t)) d = Some (i, p) \<and> we_status p = st"
      unfolding terminal_evidence_def entry by blast
  next
    assume "\<exists>p. map_of (ws_workers (side_of ws t)) d = Some (i, p) \<and> we_status p = st"
    then obtain p e where "e \<in> set (ps_evidence snapshot)" "ei_kind e = WORKER_EXECUTION" "ei_payload e = WorkerPayload p"
      "we_task p = t" "we_dispatch p = d" "ei_id e = i" "we_status p = st" unfolding entry by blast
    with rows [of e] show "terminal_evidence snapshot t d st i" by (auto simp: terminal_evidence_def)
  qed
qed

lemma RunRecoveryPlan_Inr:
  "RunRecoveryPlan p = Inr q \<Longrightarrow> q = p \<and> distinct (map ra_task (rp_tasks p)) \<and> (\<forall>a \<in> set (rp_tasks p). ra_observed_at a = rp_observed_at p)"
  by (auto simp: RunRecoveryPlan_def bind_res_eq_Inr map_res_Inr_iff list_all2_conv_all_nth in_set_conv_nth split: if_splits)

lemma classify_Inr:
  assumes "classify snapshot leases = Inr plan"
  shows "rp_run plan = ps_run snapshot" and "rp_status plan = ps_status snapshot"
    and "map ra_task (rp_tasks plan) = map pt_id (ps_tasks snapshot)" and "distinct (map ra_task (rp_tasks plan))"
    and "distinct (map ls_task leases)" and "ls_task ` set leases = pt_id ` set (ps_tasks snapshot)"
    and "\<forall>a \<in> set (rp_tasks plan). ra_observed_at a = rp_observed_at plan"
    and "\<forall>a \<in> set (rp_tasks plan). \<exists>lease \<in> set leases. assessed snapshot lease a"
proof -
  let ?ids = "map pt_id (ps_tasks snapshot)" and ?lbt = "map (\<lambda>l. (ls_task l, l)) leases"
  from assms obtain lbt where l: "validate_leases (ps_run snapshot) ?ids leases = Inr lbt"
    by (auto simp: classify_def Let_def bind_res_eq_Inr)
  with assms obtain ws as t where ws: "decode_worker_side_evidence snapshot (set ?ids) = Inr ws"
    and as: "map_res (\<lambda>t. classify_task snapshot (the (map_of lbt t)) (side_of ws t)) ?ids = Inr as"
    and p: "RunRecoveryPlan \<lparr>rp_run = ps_run snapshot, rp_status = ps_status snapshot, rp_observed_at = t, rp_tasks = as\<rparr> = Inr plan"
    by (cases lbt) (auto simp: classify_def Let_def bind_res_eq_Inr)
  note leases = validate_leases_Inr [OF l]
  note plan = RunRecoveryPlan_Inr [OF p]
  show "rp_run plan = ps_run snapshot" "rp_status plan = ps_status snapshot" "distinct (map ra_task (rp_tasks plan))"
    "\<forall>a \<in> set (rp_tasks plan). ra_observed_at a = rp_observed_at plan"
    using plan by auto
  show "distinct (map ls_task leases)" "ls_task ` set leases = pt_id ` set (ps_tasks snapshot)"
    using leases(2,3) by simp_all
  have one: "ra_task a = t \<and> (\<exists>lease \<in> set leases. assessed snapshot lease a)"
    if t: "t \<in> set ?ids" and a: "classify_task snapshot (the (map_of lbt t)) (side_of ws t) = Inr a" for t a
  proof -
    from t have "t \<in> ls_task ` set leases" by (simp only: leases(3))
    then obtain lease where lease: "lease \<in> set leases" "ls_task lease = t" by auto
    then have "map_of lbt t = Some lease"
      using leases(1,2) by (auto simp: map_of_eq_Some_iff o_def)
    with a have "classify_task snapshot lease (side_of ws (ls_task lease)) = Inr a" by (simp add: lease(2))
    then have ok: "assessed snapshot lease a" by (rule classify_task_Inr) (rule decoded_terminal_evidence [OF ws])
    then have "ra_task a = t" by (simp add: assessed_def lease(2))
    with ok lease(1) show ?thesis by blast
  qed
  have all: "list_all2 (\<lambda>t a. ra_task a = t \<and> (\<exists>lease \<in> set leases. assessed snapshot lease a)) ?ids as"
    using as unfolding map_res_Inr_iff by (rule list.rel_mono_strong) (use one in blast)
  show "map ra_task (rp_tasks plan) = ?ids"
    using all plan by (auto simp: list_eq_iff_nth_eq list_all2_conv_all_nth)
  show "\<forall>a \<in> set (rp_tasks plan). \<exists>lease \<in> set leases. assessed snapshot lease a"
    using all plan by (auto simp: list_all2_conv_all_nth in_set_conv_nth)
qed

end
