(* ===== verification/Execution_Base.thy ===== *)
theory Execution_Base
  imports Run_Recovery Merge_Queue
begin

text \<open>
  The commit a queued task starts from (\<open>runtime/execution_base.py\<close>, \<open>TaskExecutionBase\<close> of
  \<open>models/run_reconciliation.py\<close>): the frozen base of the Run for a task without dependencies, and otherwise
  the head of the newest accepted merge-queue snapshot, whose whole history is checked against the graph
  and the worker evidence.

  Two readers are arguments: \<open>parse\<close>, how pydantic reads a \<open>MergeQueueSnapshot\<close> from JSON (the
  validators are those of \<open>Merge_Queue\<close>), and \<open>parents\<close>, the parents Git reports for a commit
  (\<open>ReadOnlyCommitDiffReader.commit_parents\<close>), present when a workspace resolver is configured.
\<close>

section \<open>Persisted graphs\<close>

datatype persisted_dag_source = PERSISTED | IMPLICIT_SINGLE_TASK

record persisted_dag_snapshot =
  pd_run :: uuid
  pd_dag :: task_dag
  pd_sha256 :: digest
  pd_source :: persisted_dag_source

section \<open>Execution bases\<close>

datatype task_execution_base_basis = RUN_BASE | FROM_MERGE_QUEUE_SNAPSHOT

record task_execution_base =
  eb_run :: uuid
  eb_task :: task_id
  eb_commit :: string
  eb_basis :: task_execution_base_basis
  eb_evidence :: "int option"
  eb_evidence_sha256 :: "digest option"
  eb_integration_ref :: "string option"

definition TaskExecutionBase :: "task_execution_base \<Rightarrow> task_execution_base res" where
  "TaskExecutionBase b =
     (if \<not> text_between 128 (eb_task b) then Inl (ValueError ''task_id'')
      else if \<not> oid_pattern (eb_commit b) then Inl (ValueError ''commit_sha'')
      else if \<not> opt_all (\<lambda>i. 1 \<le> i) (eb_evidence b) then Inl (ValueError ''source_evidence_id'')
      else if \<not> opt_all (text_between 512) (eb_integration_ref b) then Inl (ValueError ''integration_ref'')
      else if eb_basis b = RUN_BASE then
        if eb_evidence b \<noteq> None \<or> eb_evidence_sha256 b \<noteq> None \<or> eb_integration_ref b \<noteq> None
        then Inl (ValueError ''RUN_BASE execution bases must not claim merge evidence'')
        else Inr b
      else if eb_evidence b = None \<or> eb_evidence_sha256 b = None \<or> eb_integration_ref b = None
      then Inl (ValueError ''MERGE_QUEUE_SNAPSHOT execution bases require complete provenance'')
      else Inr b)"

text \<open>
  \<open>TaskExecutionBaseUnavailableError\<close> is no corruption: the planner catches it. An operation of
  the resolver ends with that error, with another exception, or with a value.
\<close>

datatype base_error = Unavailable string | Failed_With exn

type_synonym 'a base_res = "base_error + 'a"

definition bind_base :: "'a base_res \<Rightarrow> ('a \<Rightarrow> 'b base_res) \<Rightarrow> 'b base_res" where
  "bind_base m f = (case m of Inl e \<Rightarrow> Inl e | Inr x \<Rightarrow> f x)"

definition lift_base :: "'a res \<Rightarrow> 'a base_res" where
  "lift_base m = (case m of Inl e \<Rightarrow> Inl (Failed_With e) | Inr x \<Rightarrow> Inr x)"

lemma bind_base_Inr: "bind_base m f = Inr y \<longleftrightarrow> (\<exists>x. m = Inr x \<and> f x = Inr y)"
  by (cases m) (simp_all add: bind_base_def)

lemma lift_base_Inr [simp]: "lift_base m = Inr x \<longleftrightarrow> m = Inr x"
  by (cases m) (simp_all add: lift_base_def)

definition require_base_oid :: "string \<Rightarrow> unit res" where
  "require_base_oid s = (if \<not> oid_pattern s
     then Inl (PersistenceCorruptionError ''is not a full lowercase Git object id'') else Inr ())"

section \<open>Successful workers\<close>

type_synonym worker_pairs = "(task_id \<times> string \<times> string) list"

definition worker_pair :: "uuid \<Rightarrow> task_id set \<Rightarrow> evidence_row \<Rightarrow> worker_pairs \<Rightarrow> worker_pairs res" where
  "worker_pair rid known e pairs =
     (if ei_kind e \<noteq> WORKER_EXECUTION then Inr pairs
      else if \<not> (case ei_task e of None \<Rightarrow> False | Some t \<Rightarrow> t \<in> known)
      then Inl (PersistenceCorruptionError ''worker execution evidence is not bound to a known DAG task'')
      else
        let invalid = Inl (PersistenceCorruptionError ''worker execution evidence failed schema validation'') in
        case ei_payload e of
          WorkerPayload p \<Rightarrow> (case WorkerExecutionEvidence p of
              Inl _ \<Rightarrow> invalid
            | Inr execution \<Rightarrow>
                if we_run execution \<noteq> rid \<or> Some (we_task execution) \<noteq> ei_task e
                then Inl (PersistenceCorruptionError ''worker execution evidence has mismatched identity'')
                else if we_status execution \<noteq> W_SUCCEEDED then Inr pairs
                else (case we_commit_sha execution of
                    None \<Rightarrow> Inl (PersistenceCorruptionError ''successful worker evidence lacks task commit'')
                  | Some commit \<Rightarrow>
                      bind_res (require_base_oid (we_base_commit execution)) (\<lambda>_.
                      bind_res (require_base_oid commit) (\<lambda>_.
                        let pair = (we_base_commit execution, commit) in
                        case map_of pairs (we_task execution) of
                          Some existing \<Rightarrow>
                            if existing \<noteq> pair
                            then Inl (PersistenceCorruptionError ''successful worker evidence defines conflicting commits'')
                            else Inr pairs
                        | None \<Rightarrow> Inr (pairs @ [(we_task execution, pair)])))))
        | _ \<Rightarrow> invalid)"

definition successful_worker_pairs :: "persisted_run_snapshot \<Rightarrow> task_id set \<Rightarrow> worker_pairs res" where
  "successful_worker_pairs snap known =
     fold_res (worker_pair (ps_run snap) known) (ps_evidence snap) []"

section \<open>The history of the merge queue\<close>

text \<open>The state of the walk: the tasks integrated, the heads with what they contain, the last index.\<close>

record history_walk =
  hw_integrated :: "task_id set"
  hw_heads :: "(string \<times> task_id set) list"
  hw_last :: int

definition walk_attempt ::
    "task_dag \<Rightarrow> task_id list \<Rightarrow> worker_pairs \<Rightarrow> string \<Rightarrow> merge_queue_attempt \<Rightarrow> history_walk \<Rightarrow> history_walk res" where
  "walk_attempt graph order workers run_base_commit a w =
     bind_res (require_base_oid (ma_base a)) (\<lambda>_.
     bind_res (require_base_oid (ma_commit a)) (\<lambda>_.
     bind_res (require_base_oid (ma_previous a)) (\<lambda>_.
     if ma_task a \<notin> set order
     then Inl (PersistenceCorruptionError ''merge queue snapshot references an unknown DAG task'')
     else if int (index_of order (ma_task a)) \<le> hw_last w
     then Inl (PersistenceCorruptionError ''merge queue snapshot violates deterministic topological task order'')
     else bind_res (dag_node graph (ma_task a)) (\<lambda>node.
       if \<not> set (depends_on node) \<subseteq> hw_integrated w
       then Inl (PersistenceCorruptionError ''merge attempt precedes integrated dependencies'')
       else if map_of workers (ma_task a) \<noteq> Some (ma_base a, ma_commit a)
       then Inl (PersistenceCorruptionError ''merge attempt lacks matching successful worker evidence'')
       else bind_res
         (if depends_on node = [] then
            if ma_base a \<noteq> run_base_commit
            then Inl (PersistenceCorruptionError ''dependency-free task commit must descend from the frozen Run base'')
            else Inr ()
          else (case map_of (hw_heads w) (ma_base a) of
              None \<Rightarrow> Inl (PersistenceCorruptionError ''dependent task base is not a prior integration head containing its dependencies'')
            | Some base_integrated \<Rightarrow>
                if \<not> set (depends_on node) \<subseteq> base_integrated
                then Inl (PersistenceCorruptionError ''dependent task base is not a prior integration head containing its dependencies'')
                else Inr ())) (\<lambda>_.
       let w' = w\<lparr>hw_last := int (index_of order (ma_task a))\<rparr> in
       if ma_outcome a = M_INTEGRATED then
         (case ma_integration_commit a of
            None \<Rightarrow> Inl (PersistenceCorruptionError ''integrated merge attempt lacks integration commit'')
          | Some c \<Rightarrow>
              bind_res (require_base_oid c) (\<lambda>_.
                let integrated = insert (ma_task a) (hw_integrated w) in
                Inr (w'\<lparr>hw_integrated := integrated, hw_heads := AList.update c integrated (hw_heads w)\<rparr>)))
       else Inr w')))))"

definition validate_merge_history ::
    "task_dag \<Rightarrow> task_id list \<Rightarrow> worker_pairs \<Rightarrow> string \<Rightarrow> merge_queue_snapshot \<Rightarrow> unit res" where
  "validate_merge_history graph order workers run_base_commit ms =
     bind_res (fold_res (walk_attempt graph order workers run_base_commit) (ms_attempts ms)
       \<lparr>hw_integrated = {}, hw_heads = [(run_base_commit, {})], hw_last = -1\<rparr>) (\<lambda>_. Inr ())"

definition MAX_MERGE_ATTEMPTS :: nat where
  "MAX_MERGE_ATTEMPTS = 1024"

definition merge_snapshot_of ::
    "(json \<Rightarrow> merge_queue_snapshot option) \<Rightarrow> evidence_payload \<Rightarrow> merge_queue_snapshot res" where
  "merge_snapshot_of parse payload = (case parse (payload_json payload) of
     None \<Rightarrow> Inl (ValueError ''MergeQueueSnapshot'')
   | Some raw \<Rightarrow> bind_res (map_res MergeQueueAttempt (ms_attempts raw)) (\<lambda>_. MergeQueueSnapshot raw))"

definition decode_merge_row ::
    "(json \<Rightarrow> merge_queue_snapshot option) \<Rightarrow> persisted_run_snapshot \<Rightarrow> task_dag \<Rightarrow> task_id list \<Rightarrow> worker_pairs
     \<Rightarrow> evidence_row \<Rightarrow> (evidence_row \<times> merge_queue_snapshot) res" where
  "decode_merge_row parse snap graph order workers e = (case merge_snapshot_of parse (ei_payload e) of
     Inl _ \<Rightarrow> Inl (PersistenceCorruptionError ''merge queue evidence failed schema validation'')
   | Inr ms \<Rightarrow>
       if ms_run_base ms \<noteq> ps_base_commit snap
       then Inl (PersistenceCorruptionError ''merge queue snapshot does not match the persisted Run base'')
       else if MAX_MERGE_ATTEMPTS < length (ms_attempts ms)
       then Inl (PersistenceCorruptionError ''merge queue evidence exceeds bounded attempt scan'')
       else bind_res (validate_merge_history graph order workers (ps_base_commit snap) ms) (\<lambda>_. Inr (e, ms)))"

text \<open>The second loop: each snapshot against the one before it.\<close>

fun extends_history :: "merge_queue_snapshot \<Rightarrow> merge_queue_snapshot list \<Rightarrow> unit res" where
  "extends_history previous [] = Inr ()"
| "extends_history previous (current # rest) =
     (if ms_integration_ref current \<noteq> ms_integration_ref previous
      then Inl (PersistenceCorruptionError ''one Run contains conflicting integration-ref histories'')
      else if length (ms_attempts current) < length (ms_attempts previous)
      then Inl (PersistenceCorruptionError ''merge queue snapshot history regressed'')
      else if take (length (ms_attempts previous)) (ms_attempts current) \<noteq> ms_attempts previous
      then Inl (PersistenceCorruptionError ''merge queue snapshot history diverged'')
      else if length (ms_attempts current) = length (ms_attempts previous) \<and> current \<noteq> previous
      then Inl (PersistenceCorruptionError ''merge queue snapshot changed without extending its attempt history'')
      else if ms_stopped previous \<and> current \<noteq> previous
      then Inl (PersistenceCorruptionError ''merge queue history advanced after an unresolved terminal conflict'')
      else extends_history current rest)"

definition validated_merge_snapshots ::
    "(json \<Rightarrow> merge_queue_snapshot option) \<Rightarrow> persisted_run_snapshot \<Rightarrow> task_dag \<Rightarrow> worker_pairs
     \<Rightarrow> (evidence_row \<times> merge_queue_snapshot) list res" where
  "validated_merge_snapshots parse snap graph workers =
     bind_res (topological_order graph) (\<lambda>order.
     bind_res (map_res (decode_merge_row parse snap graph order workers)
       (filter (\<lambda>e. ei_kind e = MERGE_QUEUE_SNAPSHOT) (ps_evidence snap))) (\<lambda>decoded.
     bind_res (case map snd decoded of [] \<Rightarrow> Inr () | first # rest \<Rightarrow> extends_history first rest) (\<lambda>_.
       Inr decoded)))"

section \<open>Resolving a base\<close>

definition select_base ::
    "(json \<Rightarrow> merge_queue_snapshot option) \<Rightarrow> persisted_run_snapshot \<Rightarrow> persisted_dag_snapshot \<Rightarrow> task_id
     \<Rightarrow> (task_execution_base \<times> merge_queue_snapshot option) base_res" where
  "select_base parse snap persisted_dag tid = (case dag_node (pd_dag persisted_dag) tid of
     Inl _ \<Rightarrow> Inl (Failed_With (ValueError ''task does not belong to run''))
   | Inr node \<Rightarrow>
       if depends_on node = [] then
         bind_base (lift_base (require_base_oid (ps_base_commit snap))) (\<lambda>_.
         bind_base (lift_base (TaskExecutionBase
           \<lparr>eb_run = ps_run snap, eb_task = tid, eb_commit = ps_base_commit snap, eb_basis = RUN_BASE,
            eb_evidence = None, eb_evidence_sha256 = None, eb_integration_ref = None\<rparr>)) (\<lambda>b. Inr (b, None)))
       else
         bind_base (lift_base (successful_worker_pairs snap (id_set (pd_dag persisted_dag)))) (\<lambda>workers.
         bind_base (lift_base (validated_merge_snapshots parse snap (pd_dag persisted_dag) workers)) (\<lambda>snapshots.
           if snapshots = [] then Inl (Unavailable ''dependent task has no accepted integration history'')
           else (case last snapshots of (evidence, latest) \<Rightarrow>
             if ms_stopped latest
             then Inl (Unavailable ''integration queue is stopped by unresolved conflict; downstream dispatch is blocked'')
             else if \<not> set (depends_on node) \<subseteq> set (ms_integrated latest)
             then Inl (Unavailable ''dependent task is waiting for integrated dependencies'')
             else
               bind_base (lift_base (require_base_oid (ms_head latest))) (\<lambda>_.
               bind_base (lift_base (TaskExecutionBase
                 \<lparr>eb_run = ps_run snap, eb_task = tid, eb_commit = ms_head latest,
                  eb_basis = FROM_MERGE_QUEUE_SNAPSHOT, eb_evidence = Some (ei_id evidence),
                  eb_evidence_sha256 = Some (ei_sha256 evidence),
                  eb_integration_ref = Some (ms_integration_ref latest)\<rparr>)) (\<lambda>b. Inr (b, Some latest)))))))"

definition verify_attempt :: "(string \<Rightarrow> string list res) \<Rightarrow> merge_queue_attempt \<Rightarrow> unit res" where
  "verify_attempt parents a =
     bind_res (parents (ma_commit a)) (\<lambda>task_parents.
       if task_parents \<noteq> [ma_base a]
       then Inl (PersistenceCorruptionError ''persisted task commit no longer matches its evidence-bound task base'')
       else if ma_outcome a \<noteq> M_INTEGRATED then Inr ()
       else (case ma_integration_commit a of
           None \<Rightarrow> Inl (AssertionError ''attempt.integration_commit is not None'')
         | Some c \<Rightarrow> bind_res (parents c) (\<lambda>integration_parents.
             if integration_parents \<noteq> [ma_previous a, ma_commit a]
             then Inl (PersistenceCorruptionError ''persisted integration commit no longer matches its parent evidence'')
             else Inr ())))"

definition verify_git ::
    "(string \<Rightarrow> string list res) \<Rightarrow> string \<Rightarrow> merge_queue_snapshot option \<Rightarrow> string \<Rightarrow> unit res" where
  "verify_git parents run_base_commit ms selected =
     bind_res (parents run_base_commit) (\<lambda>_.
     bind_res (case ms of None \<Rightarrow> Inr []
       | Some s \<Rightarrow> map_res (verify_attempt parents) (ms_attempts s)) (\<lambda>_.
     bind_res (parents selected) (\<lambda>_. Inr ())))"

text \<open>
  \<open>resolve\<close>. A failed Git read (\<open>ValueError\<close>, \<open>WorkspaceGitError\<close>, and \<open>CommitDiffError\<close>, which the model
  also writes \<open>WorkspaceGitError\<close>) is reported as a corruption; \<open>PersistenceCorruptionError\<close> passes.
\<close>

definition resolve_base ::
    "(json \<Rightarrow> merge_queue_snapshot option) \<Rightarrow> (uuid \<Rightarrow> persisted_dag_snapshot res) \<Rightarrow> (string \<Rightarrow> string list res) option
     \<Rightarrow> persisted_run_snapshot \<Rightarrow> task_id \<Rightarrow> task_execution_base base_res" where
  "resolve_base parse load_dag workspace snap tid =
     bind_base (lift_base (load_dag (ps_run snap))) (\<lambda>persisted_dag.
       if pd_run persisted_dag \<noteq> ps_run snap
       then Inl (Failed_With (PersistenceCorruptionError ''execution-base DAG Run identity mismatch''))
       else bind_base (select_base parse snap persisted_dag tid) (\<lambda>(base, ms).
         case workspace of
           None \<Rightarrow> Inr base
         | Some parents \<Rightarrow> (case verify_git parents (ps_base_commit snap) ms (eb_commit base) of
             Inr _ \<Rightarrow> Inr base
           | Inl e \<Rightarrow> Inl (Failed_With (case e of
               ValueError _ \<Rightarrow> PersistenceCorruptionError ''execution-base evidence cannot be reproduced from managed Git''
             | WorkspaceGitError _ \<Rightarrow> PersistenceCorruptionError ''execution-base evidence cannot be reproduced from managed Git''
             | _ \<Rightarrow> e)))))"

section \<open>What an accepted history shows\<close>

definition worker_commit :: "persisted_run_snapshot \<Rightarrow> task_id \<Rightarrow> string \<Rightarrow> string \<Rightarrow> bool" where
  "worker_commit snap t base commit = (\<exists>e \<in> set (ps_evidence snap). ei_kind e = WORKER_EXECUTION \<and> ei_task e = Some t \<and>
     (\<exists>p. ei_payload e = WorkerPayload p \<and> WorkerExecutionEvidence p = Inr p \<and> we_run p = ps_run snap \<and> we_task p = t \<and>
        we_status p = W_SUCCEEDED \<and> we_base_commit p = base \<and> we_commit_sha p = Some commit))"

lemma worker_pair_Inr:
  assumes "worker_pair rid known e pairs = Inr pairs'" and "(t, b, c) \<in> set pairs'"
  shows "(t, b, c) \<in> set pairs \<or> (ei_kind e = WORKER_EXECUTION \<and> ei_task e = Some t \<and>
     (\<exists>p. ei_payload e = WorkerPayload p \<and> WorkerExecutionEvidence p = Inr p \<and> we_run p = rid \<and> we_task p = t \<and>
        we_status p = W_SUCCEEDED \<and> we_base_commit p = b \<and> we_commit_sha p = Some c))"
proof (cases "\<exists>p. ei_payload e = WorkerPayload p \<and> WorkerExecutionEvidence p = Inr p")
  case True
  then obtain p where "ei_payload e = WorkerPayload p" "WorkerExecutionEvidence p = Inr p" by blast
  with assms show ?thesis
    by (auto simp: worker_pair_def bind_res_eq_Inr Let_def split: if_splits option.splits)
next
  case False
  then have "worker_pair rid known e pairs = Inr pairs' \<Longrightarrow> pairs' = pairs"
    by (auto simp: worker_pair_def Let_def dest: WorkerExecutionEvidence_same
        split: if_splits evidence_payload.splits sum.splits)
  with assms show ?thesis by simp
qed

lemma successful_pairs_fold:
  assumes "fold_res (worker_pair rid known) es pairs = Inr pairs'" and "(t, b, c) \<in> set pairs'"
  shows "(t, b, c) \<in> set pairs \<or> (\<exists>e \<in> set es. ei_kind e = WORKER_EXECUTION \<and> ei_task e = Some t \<and>
     (\<exists>p. ei_payload e = WorkerPayload p \<and> WorkerExecutionEvidence p = Inr p \<and> we_run p = rid \<and> we_task p = t \<and>
        we_status p = W_SUCCEEDED \<and> we_base_commit p = b \<and> we_commit_sha p = Some c))"
  using assms
proof (induction es arbitrary: pairs)
  case Nil
  then show ?case by simp
next
  case (Cons e es)
  from Cons.prems(1) obtain p1 where e: "worker_pair rid known e pairs = Inr p1"
    and es: "fold_res (worker_pair rid known) es p1 = Inr pairs'" by (auto simp: bind_res_eq_Inr)
  from Cons.IH [OF es Cons.prems(2)] show ?case
  proof
    assume "(t, b, c) \<in> set p1"
    from worker_pair_Inr [OF e this] show ?thesis by auto
  qed auto
qed

lemma successful_pairs_commit:
  assumes "successful_worker_pairs snap known = Inr pairs" and "map_of pairs t = Some (b, c)"
  shows "worker_commit snap t b c"
  using successful_pairs_fold [OF assms(1) [unfolded successful_worker_pairs_def] map_of_SomeD [OF assms(2)]]
  by (simp add: worker_commit_def)

definition integrated_in :: "merge_queue_attempt list \<Rightarrow> task_id set" where
  "integrated_in as = ma_task ` {a \<in> set as. ma_outcome a = M_INTEGRATED}"

text \<open>A head is the commit of an earlier attempt and is recorded with what was integrated up to it.\<close>

definition walk_inv :: "task_id list \<Rightarrow> merge_queue_attempt list \<Rightarrow> history_walk \<Rightarrow> bool" where
  "walk_inv order as w = (hw_integrated w = integrated_in as \<and>
     (\<forall>h S. map_of (hw_heads w) h = Some S \<longrightarrow> S = {} \<or>
        (\<exists>i < length as. ma_integration_commit (as ! i) = Some h \<and> S = integrated_in (take (Suc i) as))) \<and>
     (\<forall>a \<in> set as. int (index_of order (ma_task a)) \<le> hw_last w) \<and>
     sorted_wrt (<) (map (\<lambda>a. index_of order (ma_task a)) as))"

definition attempt_backed :: "task_dag \<Rightarrow> worker_pairs \<Rightarrow> string \<Rightarrow> merge_queue_attempt list \<Rightarrow> merge_queue_attempt \<Rightarrow> bool" where
  "attempt_backed graph workers run_base_commit as a =
     (map_of workers (ma_task a) = Some (ma_base a, ma_commit a) \<and>
      (if deps_of graph (ma_task a) = {} then ma_base a = run_base_commit
       else \<exists>i < length as. ma_integration_commit (as ! i) = Some (ma_base a) \<and>
         deps_of graph (ma_task a) \<subseteq> integrated_in (take (Suc i) as)))"

lemma integrated_in_snoc:
  "integrated_in (as @ [a]) = (if ma_outcome a = M_INTEGRATED then insert (ma_task a) (integrated_in as) else integrated_in as)"
  by (auto simp: integrated_in_def)

lemma walk_attempt_Inr:
  assumes "walk_attempt graph order workers rb a w = Inr w'" and "walk_inv order as w"
  shows "walk_inv order (as @ [a]) w'" and "attempt_backed graph workers rb as a"
proof -
  from assms(1) obtain node where node: "dag_node graph (ma_task a) = Inr node"
    and idx: "hw_last w < int (index_of order (ma_task a))"
    and pair: "map_of workers (ma_task a) = Some (ma_base a, ma_commit a)"
    and rb: "depends_on node = [] \<Longrightarrow> ma_base a = rb"
    and base: "depends_on node \<noteq> [] \<Longrightarrow> \<exists>S. map_of (hw_heads w) (ma_base a) = Some S \<and> set (depends_on node) \<subseteq> S"
    and w': "w' = w\<lparr>hw_last := int (index_of order (ma_task a))\<rparr> \<and> ma_outcome a \<noteq> M_INTEGRATED \<or>
      (\<exists>c. ma_outcome a = M_INTEGRATED \<and> ma_integration_commit a = Some c \<and>
         w' = w\<lparr>hw_last := int (index_of order (ma_task a)),
           hw_integrated := insert (ma_task a) (hw_integrated w),
           hw_heads := AList.update c (insert (ma_task a) (hw_integrated w)) (hw_heads w)\<rparr>)"
    unfolding walk_attempt_def bind_res_eq_Inr Let_def
    by (auto simp: bind_res_eq_Inr Let_def split: if_splits option.splits)
  from assms(2) have int: "hw_integrated w = integrated_in as"
    and heads: "\<And>h S. map_of (hw_heads w) h = Some S \<Longrightarrow> S = {} \<or>
        (\<exists>i < length as. ma_integration_commit (as ! i) = Some h \<and> S = integrated_in (take (Suc i) as))"
    and lst: "\<And>b. b \<in> set as \<Longrightarrow> int (index_of order (ma_task b)) \<le> hw_last w"
    and srt: "sorted_wrt (<) (map (\<lambda>a. index_of order (ma_task a)) as)"
    unfolding walk_inv_def by blast+
  have d: "deps_of graph (ma_task a) = set (depends_on node)"
    using node by (auto simp: dag_node_def deps_of_def split: option.splits)
  have "\<exists>i < length as. ma_integration_commit (as ! i) = Some (ma_base a) \<and>
      set (depends_on node) \<subseteq> integrated_in (take (Suc i) as)" if nonempty: "depends_on node \<noteq> []"
  proof -
    from base [OF nonempty] obtain S where S: "map_of (hw_heads w) (ma_base a) = Some S" "set (depends_on node) \<subseteq> S" by blast
    with nonempty have "S \<noteq> {}" by auto
    with heads [OF S(1)] S(2) show ?thesis by blast
  qed
  then show "attempt_backed graph workers rb as a"
    using pair rb by (cases "depends_on node") (simp_all add: attempt_backed_def d)
  have "sorted_wrt (<) (map (\<lambda>a. index_of order (ma_task a)) (as @ [a]))"
    using srt lst idx by (fastforce simp: sorted_wrt_append)
  moreover have "int (index_of order (ma_task b)) \<le> hw_last w'" if "b \<in> set (as @ [a])" for b
  proof -
    have "hw_last w' = int (index_of order (ma_task a))" using w' by auto
    then show ?thesis using that lst [of b] idx by auto
  qed
  moreover have "hw_integrated w' = integrated_in (as @ [a])" 
    using w' by (elim disjE exE conjE) (simp_all add: integrated_in_snoc int)
  moreover have "S = {} \<or> (\<exists>i < length (as @ [a]). ma_integration_commit ((as @ [a]) ! i) = Some h \<and>
      S = integrated_in (take (Suc i) (as @ [a])))" if S: "map_of (hw_heads w') h = Some S" for h S
  proof (cases "map_of (hw_heads w) h = Some S")
    case True
    from heads [OF this] show ?thesis
    proof
      assume "\<exists>i < length as. ma_integration_commit (as ! i) = Some h \<and> S = integrated_in (take (Suc i) as)"
      then obtain i where "i < length as" "ma_integration_commit (as ! i) = Some h" "S = integrated_in (take (Suc i) as)" by blast
      then show ?thesis by (intro disjI2 exI [of _ i]) (simp add: nth_append)
    qed simp
  next
    case False
    with S w' have "ma_integration_commit a = Some h" "ma_outcome a = M_INTEGRATED" "S = insert (ma_task a) (hw_integrated w)"
      by (auto simp: update_conv' split: if_splits)
    then show ?thesis by (intro disjI2 exI [of _ "length as"]) (simp add: integrated_in_snoc int)
  qed
  ultimately show "walk_inv order (as @ [a]) w'" unfolding walk_inv_def by blast
qed

lemma walk_fold:
  assumes "fold_res (walk_attempt graph order workers rb) as w = Inr w'" and "walk_inv order done w"
  shows "walk_inv order (done @ as) w' \<and>
    (\<forall>i < length as. attempt_backed graph workers rb (done @ take i as) (as ! i))"
  using assms
proof (induction as arbitrary: "done" w)
  case Nil
  then show ?case by simp
next
  case (Cons a as)
  from Cons.prems(1) obtain w1 where a: "walk_attempt graph order workers rb a w = Inr w1"
    and as: "fold_res (walk_attempt graph order workers rb) as w1 = Inr w'" by (auto simp: bind_res_eq_Inr)
  note step = walk_attempt_Inr [OF a Cons.prems(2)]
  have "attempt_backed graph workers rb (done @ take i (a # as)) ((a # as) ! i)" if "i < length (a # as)" for i
    using that step(2) Cons.IH [OF as step(1)] by (cases i) auto
  with Cons.IH [OF as step(1)] show ?case by simp
qed

lemma validate_merge_history_Inr:
  assumes "validate_merge_history graph order workers rb ms = Inr u"
  shows "sorted_wrt (<) (map (\<lambda>a. index_of order (ma_task a)) (ms_attempts ms))"
    and "\<forall>i < length (ms_attempts ms). attempt_backed graph workers rb (take i (ms_attempts ms)) (ms_attempts ms ! i)"
proof -
  let ?w = "\<lparr>hw_integrated = {}, hw_heads = [(rb, {})], hw_last = -1\<rparr>"
  from assms obtain w' where f: "fold_res (walk_attempt graph order workers rb) (ms_attempts ms) ?w = Inr w'"
    by (auto simp: validate_merge_history_def bind_res_eq_Inr)
  have "walk_inv order [] ?w" by (simp add: walk_inv_def integrated_in_def)
  from walk_fold [OF f this] show "sorted_wrt (<) (map (\<lambda>a. index_of order (ma_task a)) (ms_attempts ms))"
    "\<forall>i < length (ms_attempts ms). attempt_backed graph workers rb (take i (ms_attempts ms)) (ms_attempts ms ! i)"
    by (simp_all add: walk_inv_def)
qed

section \<open>The selected base\<close>

lemma MergeQueueSnapshot_same: "MergeQueueSnapshot s = Inr s' \<Longrightarrow> s' = s \<and> map ma_task (filter merged (ms_attempts s)) = ms_integrated s"
  by (auto simp: MergeQueueSnapshot_def bind_res_eq_Inr split: if_splits)

lemma merge_snapshot_integrated:
  assumes "merge_snapshot_of parse payload = Inr ms"
  shows "map ma_task (filter merged (ms_attempts ms)) = ms_integrated ms"
  using assms by (auto simp: merge_snapshot_of_def bind_res_eq_Inr dest!: MergeQueueSnapshot_same split: option.splits)

lemma decode_merge_row_Inr:
  assumes "decode_merge_row parse snap graph order workers e = Inr (e', ms)"
  shows "e' = e" and "merge_snapshot_of parse (ei_payload e) = Inr ms" and "ms_run_base ms = ps_base_commit snap"
    and "length (ms_attempts ms) \<le> MAX_MERGE_ATTEMPTS"
    and "validate_merge_history graph order workers (ps_base_commit snap) ms = Inr ()"
  using assms by (auto simp: decode_merge_row_def bind_res_eq_Inr split: sum.splits if_splits)

lemma validated_snapshots_Inr:
  assumes "validated_merge_snapshots parse snap graph workers = Inr decoded" and "topological_order graph = Inr order"
    and "decoded \<noteq> []" and "last decoded = (e, ms)"
  shows "filter (\<lambda>e. ei_kind e = MERGE_QUEUE_SNAPSHOT) (ps_evidence snap) \<noteq> []"
    and "e = last (filter (\<lambda>e. ei_kind e = MERGE_QUEUE_SNAPSHOT) (ps_evidence snap))"
    and "decode_merge_row parse snap graph order workers e = Inr (e, ms)"
proof -
  let ?rows = "filter (\<lambda>e. ei_kind e = MERGE_QUEUE_SNAPSHOT) (ps_evidence snap)"
  from assms(1,2) have "map_res (decode_merge_row parse snap graph order workers) ?rows = Inr decoded"
    by (auto simp: validated_merge_snapshots_def bind_res_eq_Inr)
  then have rel: "list_all2 (\<lambda>r d. decode_merge_row parse snap graph order workers r = Inr d) ?rows decoded"
    by (simp add: map_res_Inr_iff)
  then show ne: "?rows \<noteq> []" using assms(3) by auto
  have "length ?rows = length decoded" using rel by (rule list_all2_lengthD)
  then have "decode_merge_row parse snap graph order workers (last ?rows) = Inr (last decoded)"
    using rel ne assms(3) by (simp add: list_all2_conv_all_nth last_conv_nth)
  with assms(4) decode_merge_row_Inr(1) [of parse snap graph order workers "last ?rows" e ms]
  show "e = last ?rows" "decode_merge_row parse snap graph order workers e = Inr (e, ms)" by auto
qed

lemma TaskExecutionBase_same: "TaskExecutionBase b = Inr b' \<Longrightarrow> b' = b"
  by (auto simp: TaskExecutionBase_def split: if_splits)

text \<open>What the base of a dependent task rests on: the newest snapshot of the queue, accepted in full.\<close>

definition rests_on ::
    "(json \<Rightarrow> merge_queue_snapshot option) \<Rightarrow> persisted_run_snapshot \<Rightarrow> task_dag \<Rightarrow> task_id \<Rightarrow> string
     \<Rightarrow> merge_queue_snapshot \<Rightarrow> bool" where
  "rests_on parse snap graph t commit ms =
     (merge_snapshot_of parse (ei_payload (last (filter (\<lambda>e. ei_kind e = MERGE_QUEUE_SNAPSHOT) (ps_evidence snap)))) = Inr ms \<and>
      ms_run_base ms = ps_base_commit snap \<and> commit = ms_head ms \<and> \<not> ms_stopped ms \<and>
      deps_of graph t \<subseteq> set (ms_integrated ms) \<and>
      sorted_wrt (<) (map (\<lambda>a. index_of (topo graph) (ma_task a)) (ms_attempts ms)) \<and>
      (\<forall>i < length (ms_attempts ms). let a = ms_attempts ms ! i in
         worker_commit snap (ma_task a) (ma_base a) (ma_commit a) \<and>
         (if deps_of graph (ma_task a) = {} then ma_base a = ps_base_commit snap
          else \<exists>j < i. ma_integration_commit (ms_attempts ms ! j) = Some (ma_base a) \<and>
            deps_of graph (ma_task a) \<subseteq> integrated_in (take (Suc j) (ms_attempts ms)))))"

lemma select_base_Inr:
  assumes "dag_valid (pd_dag persisted)" and "select_base parse snap persisted t = Inr (b, found)"
  shows "eb_run b = ps_run snap" and "eb_task b = t" and "t \<in> id_set (pd_dag persisted)"
    and "deps_of (pd_dag persisted) t = {} \<Longrightarrow> eb_commit b = ps_base_commit snap \<and> eb_basis b = RUN_BASE \<and> found = None"
    and "deps_of (pd_dag persisted) t \<noteq> {} \<Longrightarrow> eb_basis b = FROM_MERGE_QUEUE_SNAPSHOT \<and>
      (\<exists>ms. found = Some ms \<and> rests_on parse snap (pd_dag persisted) t (eb_commit b) ms)"
proof -
  let ?g = "pd_dag persisted"
  from assms(2) obtain node where node: "dag_node ?g t = Inr node"
    by (auto simp: select_base_def split: sum.splits)
  have d: "deps_of ?g t = set (depends_on node)"
    using node by (auto simp: dag_node_def deps_of_def split: option.splits)
  have "distinct (task_ids ?g)" using dag_valid_wf [OF assms(1)] by (simp add: dag_wf_def)
  then show "t \<in> id_set ?g" using node
    by (auto simp: dag_node_def task_ids_def nodes_by_id_distinct dest!: map_of_SomeD split: option.splits)
  show "eb_run b = ps_run snap" "eb_task b = t"
    using assms(2) by (auto simp: select_base_def node bind_base_Inr dest!: TaskExecutionBase_same split: if_splits prod.splits)
  show "eb_commit b = ps_base_commit snap \<and> eb_basis b = RUN_BASE \<and> found = None" if "deps_of ?g t = {}"
    using assms(2) that by (auto simp: d select_base_def node bind_base_Inr dest!: TaskExecutionBase_same)
  assume deps: "deps_of ?g t \<noteq> {}"
  from assms(2) deps obtain workers decoded e ms where w: "successful_worker_pairs snap (id_set ?g) = Inr workers"
    and dec: "validated_merge_snapshots parse snap ?g workers = Inr decoded" "decoded \<noteq> []" "last decoded = (e, ms)"
    and ms: "\<not> ms_stopped ms" "set (depends_on node) \<subseteq> set (ms_integrated ms)" "found = Some ms"
    and b: "eb_commit b = ms_head ms" "eb_basis b = FROM_MERGE_QUEUE_SNAPSHOT"
    by (auto simp: d select_base_def node bind_base_Inr dest!: TaskExecutionBase_same split: if_splits prod.splits)
  note v = validated_snapshots_Inr [OF dec(1) dag_valid_topo(1) [OF assms(1)] dec(2,3)]
  note row = decode_merge_row_Inr [OF v(3)]
  note hist = validate_merge_history_Inr [OF row(5)]
  have "rests_on parse snap ?g t (eb_commit b) ms"
    unfolding rests_on_def Let_def
  proof (intro conjI allI impI)
    fix i assume i: "i < length (ms_attempts ms)"
    let ?a = "ms_attempts ms ! i"
    from hist(2) i have bk: "attempt_backed ?g workers (ps_base_commit snap) (take i (ms_attempts ms)) ?a" by blast
    show "worker_commit snap (ma_task ?a) (ma_base ?a) (ma_commit ?a)"
      using bk successful_pairs_commit [OF w] by (simp add: attempt_backed_def)
    show "if deps_of ?g (ma_task ?a) = {} then ma_base ?a = ps_base_commit snap
          else \<exists>j < i. ma_integration_commit (ms_attempts ms ! j) = Some (ma_base ?a) \<and>
            deps_of ?g (ma_task ?a) \<subseteq> integrated_in (take (Suc j) (ms_attempts ms))"
      using bk i by (auto simp: attempt_backed_def min_def take_take split: if_splits)
  qed (use row ms b hist(1) v(2) d in simp_all)
  with ms b show "eb_basis b = FROM_MERGE_QUEUE_SNAPSHOT \<and>
      (\<exists>ms. found = Some ms \<and> rests_on parse snap ?g t (eb_commit b) ms)" by blast
qed

lemma verify_git_Inr:
  assumes "verify_git parents rb (Some ms) commit = Inr u" and "a \<in> set (ms_attempts ms)"
  shows "parents (ma_commit a) = Inr [ma_base a] \<and>
    (ma_outcome a = M_INTEGRATED \<longrightarrow> (\<exists>c. ma_integration_commit a = Some c \<and> parents c = Inr [ma_previous a, ma_commit a]))"
proof -
  from assms(1) obtain us where "map_res (verify_attempt parents) (ms_attempts ms) = Inr us"
    by (auto simp: verify_git_def bind_res_eq_Inr)
  with assms(2) have "\<exists>u. verify_attempt parents a = Inr u"
    by (auto simp: map_res_Inr_iff list_all2_conv_all_nth in_set_conv_nth)
  then show ?thesis by (auto simp: verify_attempt_def bind_res_eq_Inr split: if_splits option.splits)
qed

section \<open>Property\<close>

text \<open>C26. A queued task starts from a commit that accepted evidence defines. A task without dependencies gets
  the frozen base of the Run. A dependent task gets the head of the newest merge-queue snapshot: the queue is not stopped,
  it has integrated every dependency of the task, its attempts follow the topological order, each merges the commit of
  an accepted successful worker, and that worker itself started from the Run base or from an earlier integration
  commit that already contained its dependencies. With a workspace configured, Git reports the same parents
  for every task commit and integration commit of the history.\<close>

theorem execution_base_sound:
  assumes "TaskDAG raw = Inr (pd_dag persisted)" and "load_dag (ps_run snap) = Inr persisted"
    and "resolve_base parse load_dag workspace snap t = Inr b"
  shows "eb_run b = ps_run snap \<and> eb_task b = t \<and> t \<in> id_set (pd_dag persisted) \<and>
    (if deps_of (pd_dag persisted) t = {} then eb_commit b = ps_base_commit snap
     else \<exists>ms. rests_on parse snap (pd_dag persisted) t (eb_commit b) ms \<and>
       (\<forall>parents. workspace = Some parents \<longrightarrow> (\<forall>a \<in> set (ms_attempts ms).
          parents (ma_commit a) = Inr [ma_base a] \<and> (ma_outcome a = M_INTEGRATED \<longrightarrow>
            (\<exists>c. ma_integration_commit a = Some c \<and> parents c = Inr [ma_previous a, ma_commit a])))))"
proof -
  from assms(2,3) obtain b' found where sel: "select_base parse snap persisted t = Inr (b', found)"
    by (auto simp: resolve_base_def bind_base_Inr split: if_splits)
  with assms(2,3) have "b' = b \<and> (\<forall>parents. workspace = Some parents \<longrightarrow>
      (\<exists>u. verify_git parents (ps_base_commit snap) found (eb_commit b) = Inr u))"
    by (cases workspace; cases "verify_git (the workspace) (ps_base_commit snap) found (eb_commit b')")
       (auto simp: resolve_base_def bind_base_def lift_base_def split: if_splits)
  with sel have sel: "select_base parse snap persisted t = Inr (b, found)"
    and git: "\<And>parents. workspace = Some parents \<Longrightarrow> \<exists>u. verify_git parents (ps_base_commit snap) found (eb_commit b) = Inr u"
    by auto
  note s = select_base_Inr [OF TaskDAG_valid [OF assms(1)] sel]
  show ?thesis
  proof (cases "deps_of (pd_dag persisted) t = {}")
    case True
    with s(1-4) show ?thesis by simp
  next
    case False
    from s(5) [OF this] obtain ms where ms: "found = Some ms" "rests_on parse snap (pd_dag persisted) t (eb_commit b) ms" by blast
    then have "\<forall>parents. workspace = Some parents \<longrightarrow> (\<forall>a \<in> set (ms_attempts ms).
          parents (ma_commit a) = Inr [ma_base a] \<and> (ma_outcome a = M_INTEGRATED \<longrightarrow>
            (\<exists>c. ma_integration_commit a = Some c \<and> parents c = Inr [ma_previous a, ma_commit a])))"
      using git verify_git_Inr by blast
    with False s(1-3) ms(2) show ?thesis by auto
  qed
qed

text \<open>Task \<open>a\<close> has run and is merged; task \<open>b\<close> depends on it.\<close>

definition oid_of :: "char \<Rightarrow> string" where
  "oid_of c = replicate 40 c"

definition demo_pair :: persisted_dag_snapshot where
  "demo_pair = \<lparr>pd_run = 7, pd_dag = \<lparr>tasks = [demo_node ''a'' [], demo_node ''b'' [''a'']]\<rparr>, pd_sha256 = 0, pd_source = PERSISTED\<rparr>"

definition demo_execution :: "task_id \<Rightarrow> uuid \<Rightarrow> worker_execution_evidence" where
  "demo_execution t d = \<lparr>we_dispatch = d, we_run = 7, we_task = t, we_status = W_SUCCEEDED, we_base_commit = oid_of CHR ''0'',
     we_branch_name = None, we_commit_sha = Some (oid_of CHR ''1''), we_checkpoint = None, we_continuation = None,
     we_run_result = Some \<lparr>rs_task = t, rs_status = T_SUCCEEDED, rs_dump = JNull\<rparr>, we_failures = [], we_duration_ms = 3\<rparr>"

definition demo_row :: "int \<Rightarrow> task_id option \<Rightarrow> evidence_payload \<Rightarrow> evidence_row" where
  "demo_row i t p = \<lparr>ei_id = i, ei_run = 7, ei_task = t, ei_key = ''k'', ei_kind = payload_kind p, ei_stage = None,
     ei_sequence = None, ei_schema_version = 1, ei_payload = p, ei_sha256 = 0\<rparr>"

definition demo_queue :: merge_queue_snapshot where
  "demo_queue = \<lparr>ms_integration_ref = ''refs/devflow/integration/r'', ms_run_base = oid_of CHR ''0'', ms_head = oid_of CHR ''2'',
     ms_integrated = [''a''], ms_attempts = [\<lparr>ma_sequence = 0, ma_task = ''a'', ma_branch = ''devflow/a'', ma_base = oid_of CHR ''0'',
       ma_commit = oid_of CHR ''1'', ma_previous = oid_of CHR ''0'', ma_outcome = M_INTEGRATED,
       ma_integration_commit = Some (oid_of CHR ''2''), ma_failure = None, ma_conflict_marker = None,
       ma_conflict_fingerprint = None, ma_policy_fingerprint = None, ma_human_decision = None\<rparr>], ms_stopped = False\<rparr>"

definition demo_snapshot :: "task_id list \<Rightarrow> evidence_row list \<Rightarrow> persisted_run_snapshot" where
  "demo_snapshot ts es = \<lparr>ps_run = 7, ps_project = 1, ps_base_commit = oid_of CHR ''0'', ps_status = persisted_run_status.RUNNING,
     ps_tasks = map (\<lambda>t. \<lparr>pt_task = demo_contract\<lparr>tc_task_id := t\<rparr>, pt_sha256 = 0\<rparr>) ts, ps_evidence = es,
     ps_terminal_result = None, ps_terminal_sha256 = None, ps_finished_at = None\<rparr>"

definition demo_merged :: persisted_run_snapshot where
  "demo_merged = demo_snapshot [''a'', ''b''] [demo_row 1 (Some ''a'') (WorkerPayload (demo_execution ''a'' 5)),
     demo_row 2 None (ModelPayload MERGE_QUEUE_SNAPSHOT JNull)]"

definition demo_parents :: "string \<Rightarrow> string list res" where
  "demo_parents c = Inr (if c = oid_of CHR ''1'' then [oid_of CHR ''0'']
     else if c = oid_of CHR ''2'' then [oid_of CHR ''0'', oid_of CHR ''1''] else [])"

definition demo_base :: task_execution_base where
  "demo_base = \<lparr>eb_run = 7, eb_task = ''b'', eb_commit = oid_of CHR ''2'', eb_basis = FROM_MERGE_QUEUE_SNAPSHOT,
     eb_evidence = Some 2, eb_evidence_sha256 = Some 0, eb_integration_ref = Some ''refs/devflow/integration/r''\<rparr>"

theorem execution_base_sound_witness:
  "resolve_base (\<lambda>_. Some demo_queue) (\<lambda>_. Inr demo_pair) (Some demo_parents) demo_merged ''b'' = Inr demo_base \<and>
   (\<exists>ms. rests_on (\<lambda>_. Some demo_queue) demo_merged (pd_dag demo_pair) ''b'' (oid_of CHR ''2'') ms)"
proof -
  have r: "resolve_base (\<lambda>_. Some demo_queue) (\<lambda>_. Inr demo_pair) (Some demo_parents) demo_merged ''b'' = Inr demo_base"
    by code_simp
  have g: "TaskDAG [demo_node ''a'' [], demo_node ''b'' [''a'']] = Inr (pd_dag demo_pair)" by code_simp
  have d: "deps_of (pd_dag demo_pair) ''b'' \<noteq> {}" by code_simp
  have c: "eb_commit demo_base = oid_of CHR ''2''" by code_simp
  from execution_base_sound [OF g refl r] d c r show ?thesis by auto
qed

end
