(* ===== verification/Run_Reconciler.thy ===== *)
theory Run_Reconciler
  imports Execution_Base "HOL-Library.Product_Lexorder"
begin

text \<open>
  Recovery of a whole Run (\<open>models/run_reconciliation.py\<close>, \<open>runtime/run_reconciler.py\<close>): the planner places
  every task of the persisted graph on the scheduling frontier, and the reconciler hands the tasks it admits
  to the recovery of single tasks.

  The collaborators the constructor receives are arguments: what the three readers returned, the resolver of
  execution bases, the gate of the interface contracts and the task reconciler, an operation on the state
  \<open>'s\<close> that may raise. \<open>Execution_Base.resolve_base\<close> and \<open>Reconciliation.reconcile\<close> are the
  implementations the program composes.
\<close>

section \<open>The frontier\<close>

datatype dag_task_frontier_state =
    F_RUN_TERMINAL | F_SUCCEEDED | F_FAILED | F_BLOCKED_UPSTREAM_FAILURE | F_WAIT_DEPENDENCIES
  | F_WAIT_ACTIVE_OWNER | F_BLOCKED_RECOVERY_GAP | F_WAIT_INTEGRATION_BASE | F_RECONCILE_CANDIDATE

record dag_task_reconciliation_record =
  dr_run :: uuid
  dr_task :: task_id
  dr_depends_on :: "task_id list"
  dr_index :: nat
  dr_state :: dag_task_frontier_state
  dr_lease_state :: task_lease_state
  dr_generation :: int
  dr_dispatch :: "uuid option"
  dr_worker_status :: "worker_execution_status option"
  dr_worker_evidence :: "int option"
  dr_base :: "task_execution_base option"
  dr_reason :: string

definition validate_record :: "dag_task_reconciliation_record \<Rightarrow> dag_task_reconciliation_record res" where
  "validate_record r =
     (if (dr_worker_status r = None) \<noteq> (dr_worker_evidence r = None)
      then Inl (ValueError ''worker terminal status and evidence id must appear together'')
      else if \<not> opt_all (\<lambda>b. eb_run b = dr_run r \<and> eb_task b = dr_task r) (dr_base r)
      then Inl (ValueError ''execution-base identity must match the frontier task'')
      else if dr_state r = F_SUCCEEDED \<and> dr_worker_status r \<noteq> Some W_SUCCEEDED
      then Inl (ValueError ''SUCCEEDED frontier tasks require successful worker evidence'')
      else if dr_state r = F_FAILED \<and> dr_worker_status r \<noteq> Some W_FAILED
      then Inl (ValueError ''FAILED frontier tasks require failed worker evidence'')
      else if dr_state r = F_RECONCILE_CANDIDATE \<and> dr_base r = None
      then Inl (ValueError ''reconcile candidates require an evidence-bound execution base'')
      else if dr_state r = F_RECONCILE_CANDIDATE \<and> dr_worker_status r \<noteq> None
      then Inl (ValueError ''reconcile candidates must not already be terminal'')
      else Inr r)"

definition DAGTaskReconciliationRecord ::
    "dag_task_reconciliation_record \<Rightarrow> dag_task_reconciliation_record res" where
  "DAGTaskReconciliationRecord r =
     (if \<not> text_between 128 (dr_task r) then Inl (ValueError ''task_id'')
      else if dr_generation r < 0 then Inl (ValueError ''lease_generation'')
      else if \<not> opt_all (\<lambda>i. 1 \<le> i) (dr_worker_evidence r) then Inl (ValueError ''worker_execution_evidence_id'')
      else if \<not> text_between 1200 (dr_reason r) then Inl (ValueError ''reason'')
      else validate_record r)"

record dag_run_reconciliation_plan =
  dp_run :: uuid
  dp_status :: persisted_run_status
  dp_sha256 :: digest
  dp_source :: persisted_dag_source
  dp_observed_at :: timestamp
  dp_order :: "task_id list"
  dp_completed :: "task_id list"
  dp_failed :: "task_id list"
  dp_blocked :: "task_id list"
  dp_ready :: "task_id list"
  dp_reconcile :: "task_id list"
  dp_tasks :: "dag_task_reconciliation_record list"

definition check_named_ids :: "task_id set \<Rightarrow> task_id list \<Rightarrow> unit res" where
  "check_named_ids known ids =
     (if \<not> distinct ids then Inl (ValueError ''task ids must be unique'')
      else if \<not> set ids \<subseteq> known then Inl (ValueError ''task ids are not present in the DAG'')
      else Inr ())"

definition DAGRunReconciliationPlan :: "dag_run_reconciliation_plan \<Rightarrow> dag_run_reconciliation_plan res" where
  "DAGRunReconciliationPlan p =
     (if dp_order p = [] then Inl (ValueError ''topological_order'')
      else if dp_tasks p = [] then Inl (ValueError ''tasks'')
      else if \<not> distinct (dp_order p) then Inl (ValueError ''topological_order must contain unique task ids'')
      else if map dr_task (dp_tasks p) \<noteq> dp_order p
      then Inl (ValueError ''frontier task records must follow the complete topological order'')
      else if \<exists>r \<in> set (dp_tasks p). dr_run r \<noteq> dp_run p
      then Inl (ValueError ''frontier task records must belong to the plan Run'')
      else bind_res (map_res (check_named_ids (set (dp_order p)))
          [dp_completed p, dp_failed p, dp_blocked p, dp_ready p, dp_reconcile p]) (\<lambda>_.
        if set (dp_completed p) \<inter> set (dp_failed p) \<noteq> {}
        then Inl (ValueError ''completed and failed task ids must not overlap'')
        else if \<not> set (dp_reconcile p) \<subseteq> set (dp_ready p)
        then Inl (ValueError ''only DAG-ready tasks may become reconciliation candidates'')
        else Inr p))"

section \<open>The planner\<close>

definition validate_identity ::
    "persisted_run_snapshot \<Rightarrow> persisted_dag_snapshot \<Rightarrow> run_recovery_plan \<Rightarrow> unit res" where
  "validate_identity snap persisted recovery =
     (if pd_run persisted \<noteq> ps_run snap \<or> rp_run recovery \<noteq> ps_run snap
      then Inl (PersistenceCorruptionError ''DAG reconciliation Run identities disagree'')
      else if rp_status recovery \<noteq> ps_status snap
      then Inl (PersistenceCorruptionError ''recovery plan Run status disagrees with persisted Run'')
      else if set (map pt_id (ps_tasks snap)) \<noteq> id_set (pd_dag persisted) \<or>
              set (map pt_id (ps_tasks snap)) \<noteq> ra_task ` set (rp_tasks recovery)
      then Inl (PersistenceCorruptionError ''persisted Run, DAG, and recovery task identities must match exactly'')
      else Inr ())"

definition assessment_of :: "run_recovery_plan \<Rightarrow> task_id \<Rightarrow> task_recovery_assessment option" where
  "assessment_of recovery t = find (\<lambda>a. ra_task a = t) (rp_tasks recovery)"

definition tasks_with_status :: "worker_execution_status \<Rightarrow> run_recovery_plan \<Rightarrow> task_id set" where
  "tasks_with_status s recovery = ra_task ` {a \<in> set (rp_tasks recovery). ra_worker_status a = Some s}"

text \<open>What the graph queries are asked with: the completed, failed, blocked and ready ids.\<close>

record frontier_sets =
  fs_completed :: "task_id set"
  fs_failed :: "task_id set"
  fs_blocked :: "task_id set"
  fs_ready :: "task_id set"

definition frontier_sets_of :: "task_dag \<Rightarrow> run_recovery_plan \<Rightarrow> frontier_sets res" where
  "frontier_sets_of graph recovery =
     (let completed = tasks_with_status W_SUCCEEDED recovery; failed = tasks_with_status W_FAILED recovery in
      case bind_res (blocked_task_ids graph failed) (\<lambda>blocked.
           bind_res (dag_ready_task_ids graph completed failed) (\<lambda>ready.
             Inr \<lparr>fs_completed = completed, fs_failed = failed, fs_blocked = set blocked, fs_ready = set ready\<rparr>)) of
        Inl (ValueError _) \<Rightarrow> Inl (PersistenceCorruptionError ''persisted DAG terminal evidence is inconsistent'')
      | r \<Rightarrow> r)"

definition advanced_blocked :: "frontier_sets \<Rightarrow> run_recovery_plan \<Rightarrow> task_id set" where
  "advanced_blocked fs recovery = {t \<in> fs_blocked fs. case assessment_of recovery t of
     None \<Rightarrow> False | Some a \<Rightarrow> ra_worker_status a \<noteq> None \<or> ra_lease_state a \<noteq> task_lease_state.UNOWNED}"

definition frontier_of ::
    "(persisted_run_snapshot \<Rightarrow> task_id \<Rightarrow> task_execution_base base_res) \<Rightarrow> persisted_run_snapshot \<Rightarrow> frontier_sets
     \<Rightarrow> task_recovery_assessment \<Rightarrow> (dag_task_frontier_state \<times> string \<times> task_execution_base option) res" where
  "frontier_of resolver snap fs a =
     (let t = ra_task a in
      if ps_status snap \<noteq> persisted_run_status.RUNNING
      then Inr (F_RUN_TERMINAL, ''Persisted Run is terminal; DAG reconciliation cannot reopen it.'', None)
      else if t \<in> fs_completed fs
      then Inr (F_SUCCEEDED, ''Accepted successful WORKER_EXECUTION evidence is terminal task truth; reconciliation must not rerun it.'', None)
      else if t \<in> fs_failed fs
      then Inr (F_FAILED, ''Accepted failed WORKER_EXECUTION evidence is terminal task truth; recovery does not relabel semantic/runtime failure as crash retry.'', None)
      else if t \<in> fs_blocked fs
      then Inr (F_BLOCKED_UPSTREAM_FAILURE, ''Validated DAG dependencies place this task downstream of failed work.'', None)
      else if t \<notin> fs_ready fs
      then Inr (F_WAIT_DEPENDENCIES, ''One or more validated DAG dependencies lack successful terminal evidence.'', None)
      else (case ra_lease_state a of
          task_lease_state.ACTIVE \<Rightarrow>
            if ra_disposition a \<noteq> R_WAIT_ACTIVE_OWNER
            then Inl (PersistenceCorruptionError ''ACTIVE task has inconsistent recovery disposition'')
            else Inr (F_WAIT_ACTIVE_OWNER, ''Task is DAG-ready but its current fenced generation is still ACTIVE under database time.'', None)
        | task_lease_state.RELEASED \<Rightarrow>
            if ra_disposition a \<noteq> R_BLOCKED_RELEASED_EVIDENCE_GAP
            then Inl (PersistenceCorruptionError ''RELEASED task has inconsistent recovery disposition'')
            else Inr (F_BLOCKED_RECOVERY_GAP, ''Released ownership lacks terminal worker evidence; DAG recovery cannot silently reacquire it.'', None)
        | _ \<Rightarrow> (case resolver snap t of
              Inl (Unavailable reason) \<Rightarrow> Inr (F_WAIT_INTEGRATION_BASE, reason, None)
            | Inl (Failed_With e) \<Rightarrow> Inl e
            | Inr base \<Rightarrow> Inr (F_RECONCILE_CANDIDATE, ''DAG dependencies and execution base are accepted; Step 5.3 must freshly revalidate ownership and dispatch history before any broker publication.'', Some base))))"

definition frontier_record ::
    "(persisted_run_snapshot \<Rightarrow> task_id \<Rightarrow> task_execution_base base_res) \<Rightarrow> persisted_run_snapshot \<Rightarrow> task_dag
     \<Rightarrow> run_recovery_plan \<Rightarrow> frontier_sets \<Rightarrow> nat \<times> task_id \<Rightarrow> dag_task_reconciliation_record res" where
  "frontier_record resolver snap graph recovery fs it = (case it of (i, t) \<Rightarrow>
     (case assessment_of recovery t of
        None \<Rightarrow> Inl (KeyError t)
      | Some a \<Rightarrow> bind_res (dag_node graph t) (\<lambda>node.
          bind_res (frontier_of resolver snap fs a) (\<lambda>(state, reason, base).
            DAGTaskReconciliationRecord
              \<lparr>dr_run = ps_run snap, dr_task = t, dr_depends_on = depends_on node, dr_index = i, dr_state = state,
               dr_lease_state = ra_lease_state a, dr_generation = ra_generation a, dr_dispatch = ra_dispatch a,
               dr_worker_status = ra_worker_status a, dr_worker_evidence = ra_worker_evidence a, dr_base = base,
               dr_reason = reason\<rparr>))))"

text \<open>\<open>reconcile_task_ids\<close> collects exactly the ids whose record became a candidate.\<close>

definition candidates_of :: "dag_task_reconciliation_record list \<Rightarrow> task_id list" where
  "candidates_of rs = map dr_task (filter (\<lambda>r. dr_state r = F_RECONCILE_CANDIDATE) rs)"

definition build_plan ::
    "(persisted_run_snapshot \<Rightarrow> task_id \<Rightarrow> task_execution_base base_res) \<Rightarrow> persisted_run_snapshot
     \<Rightarrow> persisted_dag_snapshot \<Rightarrow> run_recovery_plan \<Rightarrow> dag_run_reconciliation_plan res" where
  "build_plan resolver snap persisted recovery =
     bind_res (validate_identity snap persisted recovery) (\<lambda>_.
     bind_res (topological_order (pd_dag persisted)) (\<lambda>order.
     bind_res (frontier_sets_of (pd_dag persisted) recovery) (\<lambda>fs.
       if ps_status snap = persisted_run_status.RUNNING \<and> advanced_blocked fs recovery \<noteq> {}
       then Inl (PersistenceCorruptionError ''tasks downstream of accepted failure already contain execution ownership'')
       else bind_res (map_res (frontier_record resolver snap (pd_dag persisted) recovery fs) (enumerate 0 order)) (\<lambda>records.
         DAGRunReconciliationPlan
           \<lparr>dp_run = ps_run snap, dp_status = ps_status snap, dp_sha256 = pd_sha256 persisted,
            dp_source = pd_source persisted, dp_observed_at = rp_observed_at recovery, dp_order = order,
            dp_completed = filter (\<lambda>t. t \<in> fs_completed fs) order,
            dp_failed = filter (\<lambda>t. t \<in> fs_failed fs) order,
            dp_blocked = filter (\<lambda>t. t \<in> fs_blocked fs) order,
            dp_ready = filter (\<lambda>t. t \<in> fs_ready fs) order,
            dp_reconcile = candidates_of records, dp_tasks = records\<rparr>))))"

section \<open>Admission\<close>

definition active_tasks :: "task_lease_snapshot list \<Rightarrow> nat" where
  "active_tasks leases = length (filter (\<lambda>l. ls_state l = task_lease_state.ACTIVE) leases)"

definition available_slots :: "nat option \<Rightarrow> task_lease_snapshot list \<Rightarrow> task_id list \<Rightarrow> nat" where
  "available_slots limit leases candidates = (case limit of
     None \<Rightarrow> length candidates | Some m \<Rightarrow> m - active_tasks leases)"

definition node_at :: "task_dag \<Rightarrow> task_id \<Rightarrow> task_node" where
  "node_at graph t = the (map_of (nodes_by_id graph) t)"

definition complexity_rank :: "planning_complexity option \<Rightarrow> nat" where
  "complexity_rank c = (case c of Some planning_complexity.LOW \<Rightarrow> 1 | Some planning_complexity.MEDIUM \<Rightarrow> 2 | Some planning_complexity.HIGH \<Rightarrow> 3 | None \<Rightarrow> 2)"

definition admission_key :: "task_dag \<Rightarrow> task_id \<Rightarrow> nat \<times> nat" where
  "admission_key graph t =
     (if execution_mode (node_at graph t) = WORKFLOW then 0 else complexity_rank (complexity (node_at graph t)),
      index_of (topo graph) t)"

definition is_high :: "task_dag \<Rightarrow> task_id \<Rightarrow> bool" where
  "is_high graph t = (complexity (node_at graph t) = Some planning_complexity.HIGH)"

fun limit_high :: "task_dag \<Rightarrow> bool \<Rightarrow> task_id list \<Rightarrow> task_id list" where
  "limit_high graph high_seen [] = []"
| "limit_high graph high_seen (t # ts) =
     (if is_high graph t then
        if high_seen then limit_high graph high_seen ts else t # limit_high graph True ts
      else t # limit_high graph high_seen ts)"

definition active_high :: "task_dag \<Rightarrow> task_lease_snapshot list \<Rightarrow> bool" where
  "active_high graph leases = (\<exists>l \<in> set leases. ls_state l = task_lease_state.ACTIVE \<and> is_high graph (ls_task l))"

definition order_candidates :: "task_dag \<Rightarrow> task_lease_snapshot list \<Rightarrow> task_id list \<Rightarrow> task_id list" where
  "order_candidates graph leases candidates =
     (let sorted_candidates = sort_key (admission_key graph) candidates in
      if active_high graph leases then filter (\<lambda>t. \<not> is_high graph t) sorted_candidates
      else limit_high graph False sorted_candidates)"

text \<open>The loop over an operation of the collaborators: it stops at the first exception.\<close>

fun each_task :: "(task_id \<Rightarrow> 's \<Rightarrow> 'a res \<times> 's) \<Rightarrow> task_id list \<Rightarrow> 's \<Rightarrow> 'a list res \<times> 's" where
  "each_task f [] s = (Inr [], s)"
| "each_task f (t # ts) s = (case f t s of
     (Inl e, s') \<Rightarrow> (Inl e, s')
   | (Inr x, s') \<Rightarrow> (case each_task f ts s' of
       (Inl e, s'') \<Rightarrow> (Inl e, s'')
     | (Inr xs, s'') \<Rightarrow> (Inr (x # xs), s'')))"

definition contract_gate ::
    "(task_id \<Rightarrow> 's \<Rightarrow> bool res \<times> 's) option \<Rightarrow> task_id list \<Rightarrow> 's \<Rightarrow> task_id list res \<times> 's" where
  "contract_gate registry candidates s = (case registry of
     None \<Rightarrow> (Inr candidates, s)
   | Some gate_for_task \<Rightarrow> (case each_task gate_for_task candidates s of
       (Inl e, s') \<Rightarrow> (Inl e, s')
     | (Inr allowed, s') \<Rightarrow> (Inr (map fst (filter snd (zip candidates allowed))), s')))"

section \<open>The reconciler\<close>

record dag_run_reconciliation_outcome =
  do_plan :: dag_run_reconciliation_plan
  do_outcomes :: "task_reconciliation_outcome list"

definition DAGRunReconciliationOutcome ::
    "dag_run_reconciliation_outcome \<Rightarrow> dag_run_reconciliation_outcome res" where
  "DAGRunReconciliationOutcome r =
     (if map (rd_task \<circ> ro_decision) (do_outcomes r) \<noteq> dp_reconcile (do_plan r)
      then Inl (ValueError ''successful DAG reconciliation must return one Step 5.3 outcome per candidate'')
      else Inr r)"

text \<open>The constructor's check of its limit.\<close>

definition DAGRunReconciler :: "int option \<Rightarrow> nat option res" where
  "DAGRunReconciler max_concurrent_tasks = (case max_concurrent_tasks of
     None \<Rightarrow> Inr None
   | Some m \<Rightarrow>
       if m < 1 then Inl (ValueError ''max_concurrent_tasks must be at least one when configured'')
       else Inr (Some (nat m)))"

definition reconcile_run ::
    "nat option \<Rightarrow> (task_id \<Rightarrow> 's \<Rightarrow> bool res \<times> 's) option \<Rightarrow> (task_id \<Rightarrow> 's \<Rightarrow> task_reconciliation_outcome res \<times> 's)
     \<Rightarrow> (persisted_run_snapshot \<Rightarrow> task_id \<Rightarrow> task_execution_base base_res)
     \<Rightarrow> persisted_run_snapshot res \<Rightarrow> persisted_dag_snapshot res \<Rightarrow> task_lease_snapshot list res \<Rightarrow> 's
     \<Rightarrow> dag_run_reconciliation_outcome res \<times> 's" where
  "reconcile_run limit registry task_reconciler resolver run_read dag_read lease_read s =
     (case bind_res run_read (\<lambda>snap. bind_res dag_read (\<lambda>persisted. bind_res lease_read (\<lambda>leases.
           bind_res (classify snap leases) (\<lambda>recovery.
           bind_res (build_plan resolver snap persisted recovery) (\<lambda>plan.
             Inr (pd_dag persisted, leases, plan)))))) of
        Inl e \<Rightarrow> (Inl e, s)
      | Inr (graph, leases, plan) \<Rightarrow>
          (let slots = available_slots limit leases (dp_reconcile plan) in
           case contract_gate registry (order_candidates graph leases (dp_reconcile plan)) s of
             (Inl e, s1) \<Rightarrow> (Inl e, s1)
           | (Inr candidates, s1) \<Rightarrow> (case each_task task_reconciler (take slots candidates) s1 of
               (Inl e, s2) \<Rightarrow> (Inl e, s2)
             | (Inr outcomes, s2) \<Rightarrow>
                 (DAGRunReconciliationOutcome \<lparr>do_plan = plan, do_outcomes = outcomes\<rparr>, s2))))"

end
