(* ===== verification/Run_Reconciler_Safety.thy ===== *)
theory Run_Reconciler_Safety
  imports Run_Reconciler
begin

text \<open>
  What the recovery of a Run guarantees: the diagnosis of a task is a function of its lease and its accepted
  evidence, the frontier holds exactly the tasks that may run, a dependent task starts from an integration
  head that contains its dependencies, and admission respects the limits. The last property records that the
  validator of the outcome rejects every admission that leaves a candidate for later.
\<close>

section \<open>Tasks with accepted evidence\<close>

definition accepted :: "persisted_run_snapshot \<Rightarrow> task_lease_snapshot list \<Rightarrow> worker_execution_status \<Rightarrow> task_id set" where
  "accepted snap leases st = {t. \<exists>lease \<in> set leases. ls_task lease = t \<and>
     (\<exists>d i. ls_dispatch lease = Some d \<and> terminal_evidence snap t d st i)}"

definition claimable :: "task_lease_snapshot list \<Rightarrow> task_id set" where
  "claimable leases = ls_task ` {l \<in> set leases. ls_state l \<in> {task_lease_state.UNOWNED, task_lease_state.EXPIRED}}"

lemma status_accepted:
  assumes "classify snap leases = Inr recovery" and "ps_status snap = persisted_run_status.RUNNING"
  shows "tasks_with_status st recovery = accepted snap leases st"
proof -
  note c = classify_Inr [OF assms(1)]
  have one: "ra_worker_status a = Some st \<longleftrightarrow> (\<exists>d i. ls_dispatch l = Some d \<and> terminal_evidence snap (ls_task l) d st i)"
    if "assessed snap l a" for a l
  proof -
    from that assms(2) have both: "(ra_worker_status a = None) = (ra_worker_evidence a = None)"
      and ev: "\<And>st i. (ra_worker_status a = Some st \<and> ra_worker_evidence a = Some i) \<longleftrightarrow>
        (\<exists>d. ls_dispatch l = Some d \<and> terminal_evidence snap (ls_task l) d st i)"
      by (simp_all add: assessed_def)
    from both have "ra_worker_status a = Some st \<longleftrightarrow> (\<exists>i. ra_worker_status a = Some st \<and> ra_worker_evidence a = Some i)" by auto
    then show ?thesis unfolding ev by blast
  qed
  have lease: "l = l'" if "l \<in> set leases" "l' \<in> set leases" "ls_task l = ls_task l'" for l l'
    using that c(5) by (auto simp: distinct_map inj_on_def)
  have same: "ra_task a = ls_task l" if "assessed snap l a" for a l using that by (simp add: assessed_def)
  show ?thesis
  proof (intro equalityI subsetI)
    fix t assume "t \<in> tasks_with_status st recovery"
    then obtain a where a: "a \<in> set (rp_tasks recovery)" "ra_task a = t" "ra_worker_status a = Some st"
      by (auto simp: tasks_with_status_def)
    with c(8) obtain l where l: "l \<in> set leases" "assessed snap l a" by blast
    with a one [OF l(2)] same [OF l(2)] show "t \<in> accepted snap leases st" by (auto simp: accepted_def)
  next
    fix t assume "t \<in> accepted snap leases st"
    then obtain l d i where l: "l \<in> set leases" "ls_task l = t" "ls_dispatch l = Some d" "terminal_evidence snap t d st i"
      by (auto simp: accepted_def)
    then have "t \<in> pt_id ` set (ps_tasks snap)" using c(6) by blast
    then have "t \<in> ra_task ` set (rp_tasks recovery)" by (metis c(3) set_map)
    then obtain a where a: "a \<in> set (rp_tasks recovery)" "ra_task a = t" by blast
    with c(8) obtain l' where l': "l' \<in> set leases" "assessed snap l' a" by blast
    with same [OF l'(2)] a(2) l(1,2) have "l' = l" by (intro lease) simp_all
    with one [OF l'(2)] l have "ra_worker_status a = Some st" by auto
    with a show "t \<in> tasks_with_status st recovery" by (auto simp: tasks_with_status_def)
  qed
qed

lemma assessment_of_lease:
  assumes "classify snap leases = Inr recovery" and "assessment_of recovery t = Some a"
  shows "a \<in> set (rp_tasks recovery)" and "ra_task a = t"
    and "ra_lease_state a \<in> {task_lease_state.UNOWNED, task_lease_state.EXPIRED} \<longleftrightarrow> t \<in> claimable leases"
proof -
  note c = classify_Inr [OF assms(1)]
  show a: "a \<in> set (rp_tasks recovery)" "ra_task a = t"
    using assms(2) by (auto simp: assessment_of_def find_Some_iff)
  with c(8) obtain l where l: "l \<in> set leases" "assessed snap l a" by blast
  have "l' = l" if "l' \<in> set leases" "ls_task l' = ls_task l" for l'
    using that l(1) c(5) by (auto simp: distinct_map inj_on_def)
  then show "ra_lease_state a \<in> {task_lease_state.UNOWNED, task_lease_state.EXPIRED} \<longleftrightarrow> t \<in> claimable leases"
    using l a(2) by (auto simp: claimable_def assessed_def)
qed

section \<open>The frontier\<close>

definition base_ready :: "(persisted_run_snapshot \<Rightarrow> task_id \<Rightarrow> task_execution_base base_res) \<Rightarrow> persisted_run_snapshot \<Rightarrow> task_id \<Rightarrow> bool" where
  "base_ready resolver snap t = (case resolver snap t of Inr _ \<Rightarrow> True | Inl _ \<Rightarrow> False)"

lemma frontier_of_candidate:
  assumes "frontier_of resolver snap fs a = Inr (state, reason, base)"
  shows "state = F_RECONCILE_CANDIDATE \<longleftrightarrow> ps_status snap = persisted_run_status.RUNNING \<and>
    ra_task a \<notin> fs_completed fs \<union> fs_failed fs \<union> fs_blocked fs \<and> ra_task a \<in> fs_ready fs \<and>
    ra_lease_state a \<in> {task_lease_state.UNOWNED, task_lease_state.EXPIRED} \<and> base_ready resolver snap (ra_task a)"
  using assms
  by (auto simp: frontier_of_def Let_def base_ready_def
      split: if_splits task_lease_state.splits sum.splits base_error.splits)

lemma frontier_record_Inr:
  assumes "frontier_record resolver snap graph recovery fs (i, t) = Inr r"
  obtains a state reason base where "assessment_of recovery t = Some a"
    "frontier_of resolver snap fs a = Inr (state, reason, base)" "dr_task r = t" "dr_state r = state" "dr_base r = base"
    "dr_index r = i" "state = F_RECONCILE_CANDIDATE \<Longrightarrow> \<exists>b. base = Some b \<and> eb_run b = ps_run snap \<and> eb_task b = t"
proof -
  from assms obtain a where a: "assessment_of recovery t = Some a"
    by (cases "assessment_of recovery t") (simp_all add: frontier_record_def)
  with assms obtain node f where "dag_node graph t = Inr node" and f: "frontier_of resolver snap fs a = Inr f"
    by (auto simp: frontier_record_def bind_res_eq_Inr)
  moreover obtain state reason base where "f = (state, reason, base)" by (cases f)
  ultimately have f: "frontier_of resolver snap fs a = Inr (state, reason, base)"
    and r: "DAGTaskReconciliationRecord
              \<lparr>dr_run = ps_run snap, dr_task = t, dr_depends_on = depends_on node, dr_index = i, dr_state = state,
               dr_lease_state = ra_lease_state a, dr_generation = ra_generation a, dr_dispatch = ra_dispatch a,
               dr_worker_status = ra_worker_status a, dr_worker_evidence = ra_worker_evidence a, dr_base = base,
               dr_reason = reason\<rparr> = Inr r"
    using assms a by (simp_all add: frontier_record_def)
  show thesis
    by (rule that [OF a f]) (use r in \<open>auto simp: DAGTaskReconciliationRecord_def validate_record_def opt_all_def
        split: if_splits option.splits\<close>)
qed

lemma candidates_of_filter:
  assumes "list_all2 (\<lambda>(i, t) r. dr_task r = t \<and> (dr_state r = F_RECONCILE_CANDIDATE \<longleftrightarrow> P t)) (enumerate n ts) rs"
  shows "candidates_of rs = filter P ts"
  using assms
proof (induction ts arbitrary: n rs)
  case Nil
  then show ?case by (simp add: candidates_of_def)
next
  case (Cons t ts)
  then obtain r rs' where "rs = r # rs'" "dr_task r = t" "dr_state r = F_RECONCILE_CANDIDATE \<longleftrightarrow> P t"
    "list_all2 (\<lambda>(i, t) r. dr_task r = t \<and> (dr_state r = F_RECONCILE_CANDIDATE \<longleftrightarrow> P t)) (enumerate (Suc n) ts) rs'"
    by (auto simp: list_all2_Cons1)
  with Cons.IH [of "Suc n" rs'] show ?case by (simp add: candidates_of_def)
qed

lemma frontier_sets_Inr:
  assumes "dag_valid graph" and "frontier_sets_of graph recovery = Inr fs"
    and "tasks_with_status W_SUCCEEDED recovery = C" and "tasks_with_status W_FAILED recovery = F"
  shows "fs_completed fs = C" and "fs_failed fs = F" and "fs_blocked fs = downstream graph F - F"
    and "fs_ready fs = {t \<in> id_set graph. t \<notin> C \<union> F \<and> deps_of graph t \<subseteq> C}"
    and "C \<inter> F = {}" and "C \<inter> downstream graph F = {}"
proof -
  from assms(2) obtain blocked ready where b: "blocked_task_ids graph F = Inr blocked"
    and r: "dag_ready_task_ids graph C F = Inr ready"
    and fs: "fs = \<lparr>fs_completed = C, fs_failed = F, fs_blocked = set blocked, fs_ready = set ready\<rparr>"
    unfolding frontier_sets_of_def Let_def assms(3,4) by (auto simp: bind_res_def split: sum.splits exn.splits)
  have F: "F \<subseteq> id_set graph" using b
    by (auto simp: blocked_task_ids_def validate_runtime_ids_def split: if_splits)
  have C: "C \<subseteq> id_set graph" using r
    by (auto simp: dag_ready_task_ids_def validate_runtime_ids_def split: if_splits)
  note order = dag_valid_topo(3) [OF assms(1)]
  have blocked: "set blocked = downstream graph F - F"
    using b blocked_task_ids_valid [OF assms(1) F] order downstream_subset [of graph F] by auto
  from r b C F show cf: "C \<inter> F = {}"
    by (auto simp: dag_ready_task_ids_def bind_res_eq_Inr split: if_splits)
  have "C \<inter> set blocked = {}" using r by (simp add: dag_ready_task_ids_def bind_res_eq_Inr b split: if_splits)
  then show cd: "C \<inter> downstream graph F = {}" using blocked cf by blast
  have "ready = filter (\<lambda>t. t \<notin> C \<union> F \<and> deps_of graph t \<subseteq> C) (topo graph)"
    using r unfolding dag_ready_task_ids_valid [OF assms(1) C F cf cd] by (rule sum.inject(2) [THEN iffD1, symmetric])
  then have "set ready = {t \<in> id_set graph. t \<notin> C \<union> F \<and> deps_of graph t \<subseteq> C}"
    by (simp only: set_filter order)
  with fs blocked show "fs_completed fs = C" "fs_failed fs = F" "fs_blocked fs = downstream graph F - F"
    "fs_ready fs = {t \<in> id_set graph. t \<notin> C \<union> F \<and> deps_of graph t \<subseteq> C}" by simp_all
qed

lemma DAGRunReconciliationPlan_same: "DAGRunReconciliationPlan p = Inr q \<Longrightarrow> q = p"
  by (auto simp: DAGRunReconciliationPlan_def bind_res_eq_Inr split: if_splits)

lemma build_plan_Inr:
  assumes "dag_valid (pd_dag persisted)" and "classify snap leases = Inr recovery"
    and "build_plan resolver snap persisted recovery = Inr plan"
  shows "dp_order plan = topo (pd_dag persisted)" and "map dr_task (dp_tasks plan) = topo (pd_dag persisted)"
    and "ps_status snap = persisted_run_status.RUNNING \<Longrightarrow> dp_reconcile plan =
      filter (\<lambda>t. t \<notin> accepted snap leases W_SUCCEEDED \<union> accepted snap leases W_FAILED \<and>
        deps_of (pd_dag persisted) t \<subseteq> accepted snap leases W_SUCCEEDED \<and> t \<in> claimable leases \<and>
        base_ready resolver snap t) (topo (pd_dag persisted))"
    and "ps_status snap \<noteq> persisted_run_status.RUNNING \<Longrightarrow> dp_reconcile plan = []"
    and "ps_status snap = persisted_run_status.RUNNING \<Longrightarrow>
      accepted snap leases W_SUCCEEDED \<inter> downstream (pd_dag persisted) (accepted snap leases W_FAILED) = {}"
proof -
  let ?g = "pd_dag persisted" and ?C = "accepted snap leases W_SUCCEEDED" and ?F = "accepted snap leases W_FAILED"
  from assms(3) obtain order fs rs where o: "topological_order ?g = Inr order"
    and fs: "frontier_sets_of ?g recovery = Inr fs"
    and rs: "map_res (frontier_record resolver snap ?g recovery fs) (enumerate 0 order) = Inr rs"
    and p: "DAGRunReconciliationPlan
           \<lparr>dp_run = ps_run snap, dp_status = ps_status snap, dp_sha256 = pd_sha256 persisted,
            dp_source = pd_source persisted, dp_observed_at = rp_observed_at recovery, dp_order = order,
            dp_completed = filter (\<lambda>t. t \<in> fs_completed fs) order,
            dp_failed = filter (\<lambda>t. t \<in> fs_failed fs) order,
            dp_blocked = filter (\<lambda>t. t \<in> fs_blocked fs) order,
            dp_ready = filter (\<lambda>t. t \<in> fs_ready fs) order,
            dp_reconcile = candidates_of rs, dp_tasks = rs\<rparr> = Inr plan"
    by (auto simp: build_plan_def bind_res_eq_Inr split: if_splits)
  have order: "order = topo ?g" using o dag_valid_topo(1) [OF assms(1)] by simp
  note plan = DAGRunReconciliationPlan_same [OF p]
  show "dp_order plan = topo ?g" by (simp add: plan order)
  from p show "map dr_task (dp_tasks plan) = topo ?g"
    by (auto simp: plan order DAGRunReconciliationPlan_def split: if_splits)
  define P where "P t = (ps_status snap = persisted_run_status.RUNNING \<and>
    t \<notin> fs_completed fs \<union> fs_failed fs \<union> fs_blocked fs \<and> t \<in> fs_ready fs \<and> t \<in> claimable leases \<and>
    base_ready resolver snap t)" for t
  have "dr_task r = t \<and> (dr_state r = F_RECONCILE_CANDIDATE \<longleftrightarrow> P t)"
    if "frontier_record resolver snap ?g recovery fs (i, t) = Inr r" for i t r
    using that
  proof (cases rule: frontier_record_Inr)
    case (1 a state reason base)
    from assessment_of_lease [OF assms(2) 1(1)] frontier_of_candidate [OF 1(2)] 1(3,4) show ?thesis
      by (simp add: P_def)
  qed
  then have "list_all2 (\<lambda>(i, t) r. dr_task r = t \<and> (dr_state r = F_RECONCILE_CANDIDATE \<longleftrightarrow> P t)) (enumerate 0 order) rs"
    using rs unfolding map_res_Inr_iff by (elim list.rel_mono_strong) auto
  then have cand: "dp_reconcile plan = filter P (topo ?g)" by (simp add: plan order candidates_of_filter)
  show "dp_reconcile plan = []" if "ps_status snap \<noteq> persisted_run_status.RUNNING"
    using that by (simp add: cand P_def)
  {
    assume running: "ps_status snap = persisted_run_status.RUNNING"
    note sets = frontier_sets_Inr [OF assms(1) fs status_accepted [OF assms(2) running] status_accepted [OF assms(2) running]]
    show "?C \<inter> downstream ?g ?F = {}" by (rule sets(6))
    have "t \<notin> downstream ?g ?F" if "deps_of ?g t \<subseteq> ?C" for t
      using that sets(5,6) downstream_step [of t ?g ?F] by blast
    then show "dp_reconcile plan = filter (\<lambda>t. t \<notin> ?C \<union> ?F \<and> deps_of ?g t \<subseteq> ?C \<and> t \<in> claimable leases \<and>
        base_ready resolver snap t) (topo ?g)"
      unfolding cand by (intro filter_cong) (auto simp: P_def running sets(1-4) dag_valid_topo(3) [OF assms(1)])
  }
qed

lemma accepted_disjoint:
  assumes "classify snap leases = Inr recovery" and "ps_status snap = persisted_run_status.RUNNING"
  shows "accepted snap leases W_SUCCEEDED \<inter> accepted snap leases W_FAILED = {}"
proof -
  have inj: "inj_on ra_task (set (rp_tasks recovery))" using classify_Inr(4) [OF assms(1)] by (simp add: distinct_map)
  have False if "a \<in> set (rp_tasks recovery)" "b \<in> set (rp_tasks recovery)" "ra_task a = ra_task b"
    "ra_worker_status a = Some W_SUCCEEDED" "ra_worker_status b = Some W_FAILED" for a b
    using inj_onD [OF inj that(3,1,2)] that(4,5) by simp
  then have "tasks_with_status W_SUCCEEDED recovery \<inter> tasks_with_status W_FAILED recovery = {}"
    unfolding tasks_with_status_def by blast
  then show ?thesis by (simp add: status_accepted [OF assms])
qed

section \<open>Admission\<close>

lemma subseq_sorted_wrt: "subseq xs ys \<Longrightarrow> sorted_wrt R ys \<Longrightarrow> sorted_wrt R xs"
  by (induction rule: list_emb.induct) (auto dest: list_emb_set)

lemma subseq_distinct: "subseq xs ys \<Longrightarrow> distinct ys \<Longrightarrow> distinct xs"
  by (induction rule: list_emb.induct) (auto dest: list_emb_set)

lemma subseq_set: "subseq xs ys \<Longrightarrow> set xs \<subseteq> set ys"
  by (auto dest: list_emb_set)

lemma limit_high_subseq: "subseq (limit_high g seen ts) ts"
  by (induction ts arbitrary: seen) auto

lemma limit_high_one: "length (filter (is_high g) (limit_high g seen ts)) \<le> (if seen then 0 else 1)"
proof (induction ts arbitrary: seen)
  case (Cons t ts)
  then show ?case using Cons.IH [of True] Cons.IH [of False] by (cases seen) auto
qed simp

lemma order_candidates_facts:
  assumes "distinct cs"
  shows "distinct (order_candidates g leases cs)" and "set (order_candidates g leases cs) \<subseteq> set cs"
    and "sorted_wrt (\<lambda>t u. admission_key g t \<le> admission_key g u) (order_candidates g leases cs)"
    and "length (filter (is_high g) (order_candidates g leases cs)) \<le> (if active_high g leases then 0 else 1)"
proof -
  let ?s = "sort_key (admission_key g) cs"
  have sub: "subseq (order_candidates g leases cs) ?s"
    by (simp add: order_candidates_def Let_def limit_high_subseq)
  show "distinct (order_candidates g leases cs)" using subseq_distinct [OF sub] assms by simp
  show "set (order_candidates g leases cs) \<subseteq> set cs" using subseq_set [OF sub] by simp
  have "sorted (map (admission_key g) ?s)" by simp
  then have "sorted_wrt (\<lambda>t u. admission_key g t \<le> admission_key g u) ?s" by (simp add: sorted_wrt_map)
  then show "sorted_wrt (\<lambda>t u. admission_key g t \<le> admission_key g u) (order_candidates g leases cs)"
    by (rule subseq_sorted_wrt [OF sub])
  show "length (filter (is_high g) (order_candidates g leases cs)) \<le> (if active_high g leases then 0 else 1)"
    using limit_high_one [of g False ?s] by (auto simp: order_candidates_def Let_def)
qed

lemma each_task_length: "each_task f ts s = (Inr xs, s') \<Longrightarrow> length xs = length ts"
  by (induction ts arbitrary: s xs s') (auto split: prod.splits sum.splits)

lemma filter_zip_subseq: "subseq (map fst (filter snd (zip ts bs))) ts"
  by (induction ts arbitrary: bs) (auto split: list.splits simp: zip_Cons1)

lemma contract_gate_subseq:
  "contract_gate registry cs s = (Inr ts, s') \<Longrightarrow> subseq ts cs"
  by (auto simp: contract_gate_def filter_zip_subseq split: option.splits prod.splits sum.splits)

lemma subseq_take: "subseq (take n xs) xs"
  by (metis append_take_drop_id prefix_imp_subseq prefixI)

lemma plan_candidates_distinct:
  "DAGRunReconciliationPlan p = Inr q \<Longrightarrow> distinct (dp_reconcile q)"
  by (auto simp: DAGRunReconciliationPlan_def bind_res_eq_Inr check_named_ids_def split: if_splits)

lemma build_plan_distinct:
  "build_plan resolver snap persisted recovery = Inr plan \<Longrightarrow> distinct (dp_reconcile plan)"
  by (auto simp: build_plan_def bind_res_eq_Inr dest: plan_candidates_distinct split: if_splits)

text \<open>Collaborators that answer for the task they are asked about.\<close>

lemma each_task_total:
  assumes "\<And>t s. \<exists>x s'. f t s = (Inr x, s') \<and> g x = t"
  obtains xs s' where "each_task f ts s = (Inr xs, s')" and "map g xs = ts"
proof -
  have "\<exists>xs s'. each_task f ts s = (Inr xs, s') \<and> map g xs = ts"
  proof (induction ts arbitrary: s)
    case Nil
    then show ?case by simp
  next
    case (Cons t ts)
    obtain x s1 where x: "f t s = (Inr x, s1)" "g x = t" using assms by blast
    obtain xs s2 where "each_task f ts s1 = (Inr xs, s2)" "map g xs = ts" using Cons by blast
    with x show ?case by auto
  qed
  with that show thesis by blast
qed

lemma reconcile_run_steps:
  assumes "classify snap leases = Inr recovery" and "build_plan resolver snap persisted recovery = Inr plan"
    and "contract_gate registry (order_candidates (pd_dag persisted) leases (dp_reconcile plan)) s = (Inr allowed, s1)"
  shows "reconcile_run limit registry f resolver (Inr snap) (Inr persisted) (Inr leases) s =
    (case each_task f (take (available_slots limit leases (dp_reconcile plan)) allowed) s1 of
       (Inl e, s2) \<Rightarrow> (Inl e, s2)
     | (Inr outcomes, s2) \<Rightarrow> (DAGRunReconciliationOutcome \<lparr>do_plan = plan, do_outcomes = outcomes\<rparr>, s2))"
  using assms by (simp add: reconcile_run_def Let_def)

section \<open>A Run in recovery\<close>

text \<open>
  Of five tasks \<open>a\<close> has succeeded, \<open>c\<close> has an expired lease, \<open>d\<close> waits for the integration of \<open>a\<close>
  and the others were never started.
\<close>

definition demo_frontier :: persisted_dag_snapshot where
  "demo_frontier = demo_pair\<lparr>pd_dag := \<lparr>tasks = [demo_node ''a'' [], demo_node ''b'' [], demo_node ''c'' [],
     demo_node ''d'' [''a''], demo_node ''e'' []]\<rparr>\<rparr>"

definition demo_lease :: "task_id \<Rightarrow> task_lease_state \<Rightarrow> uuid \<Rightarrow> task_lease_snapshot" where
  "demo_lease t st d = \<lparr>ls_run = 7, ls_task = t, ls_state = st, ls_generation = (if st = task_lease_state.UNOWNED then 0 else 1),
     ls_owner = None, ls_dispatch = (if st = task_lease_state.UNOWNED then None else Some d), ls_acquired_at = None,
     ls_heartbeat_at = None, ls_until = None, ls_released_at = None, ls_observed_at = 100\<rparr>"

definition demo_leases :: "task_lease_snapshot list" where
  "demo_leases = [demo_lease ''a'' task_lease_state.RELEASED 5, demo_lease ''b'' task_lease_state.UNOWNED 0,
     demo_lease ''c'' task_lease_state.EXPIRED 6, demo_lease ''d'' task_lease_state.UNOWNED 0, demo_lease ''e'' task_lease_state.UNOWNED 0]"

definition demo_started :: persisted_run_snapshot where
  "demo_started = demo_snapshot [''a'', ''b'', ''c'', ''d'', ''e'']
     [demo_row 1 (Some ''a'') (WorkerPayload (demo_execution ''a'' 5))]"

definition demo_resolver :: "persisted_run_snapshot \<Rightarrow> task_id \<Rightarrow> task_execution_base base_res" where
  "demo_resolver = resolve_base (\<lambda>_. None) (\<lambda>_. Inr demo_frontier) None"

definition demo_recovery :: run_recovery_plan where
  "demo_recovery = projr (classify demo_started demo_leases)"

definition demo_plan :: dag_run_reconciliation_plan where
  "demo_plan = projr (build_plan demo_resolver demo_started demo_frontier demo_recovery)"

lemma demo_classify: "classify demo_started demo_leases = Inr demo_recovery"
  by code_simp

lemma demo_build: "build_plan demo_resolver demo_started demo_frontier demo_recovery = Inr demo_plan"
  by code_simp

lemma demo_candidates: "dp_reconcile demo_plan = [''b'', ''c'', ''e'']"
  by code_simp

lemma demo_frontier_TaskDAG: "TaskDAG (tasks (pd_dag demo_frontier)) = Inr (pd_dag demo_frontier)"
  by code_simp

lemma demo_running: "ps_status demo_started = persisted_run_status.RUNNING"
  by code_simp

section \<open>Properties\<close>

text \<open>C29. The diagnosis of a Run. When the classifier accepts a snapshot and its leases it assesses every task of the
  snapshot once, in order and at one observation time. The assessment names the state, generation and
  dispatch of that task's lease; in a RUNNING Run it carries a worker status exactly when a validated terminal row exists for
  the dispatch of that lease, and its disposition is the one the state of the lease and the existence of that row
  determine: an expired or released generation with terminal evidence is resumed and never rerun.\<close>

theorem recovery_diagnosis_correct:
  assumes "classify snap leases = Inr recovery"
  shows "map ra_task (rp_tasks recovery) = map pt_id (ps_tasks snap) \<and> distinct (map ra_task (rp_tasks recovery)) \<and>
    (\<forall>a \<in> set (rp_tasks recovery). ra_observed_at a = rp_observed_at recovery \<and>
       (\<exists>lease \<in> set leases. assessed snap lease a))"
  using classify_Inr [OF assms] by blast

theorem recovery_diagnosis_correct_witness:
  "map ra_task (rp_tasks demo_recovery) = [''a'', ''b'', ''c'', ''d'', ''e''] \<and>
   (\<exists>lease \<in> set demo_leases. assessed demo_started lease (hd (rp_tasks demo_recovery))) \<and>
   map ra_disposition (rp_tasks demo_recovery) = [R_RESUME_FROM_TERMINAL_EVIDENCE, R_BLOCKED_UNOWNED_DISPATCH_AMBIGUITY,
     R_REDISPATCH_CANDIDATE_EXPIRED_GENERATION, R_BLOCKED_UNOWNED_DISPATCH_AMBIGUITY, R_BLOCKED_UNOWNED_DISPATCH_AMBIGUITY]"
proof -
  have "map ra_disposition (rp_tasks demo_recovery) = [R_RESUME_FROM_TERMINAL_EVIDENCE, R_BLOCKED_UNOWNED_DISPATCH_AMBIGUITY,
     R_REDISPATCH_CANDIDATE_EXPIRED_GENERATION, R_BLOCKED_UNOWNED_DISPATCH_AMBIGUITY, R_BLOCKED_UNOWNED_DISPATCH_AMBIGUITY]"
    by code_simp
  moreover have "map pt_id (ps_tasks demo_started) = [''a'', ''b'', ''c'', ''d'', ''e'']" by code_simp
  moreover have "rp_tasks demo_recovery \<noteq> []" by code_simp
  ultimately show ?thesis using recovery_diagnosis_correct [OF demo_classify] by auto
qed

text \<open>C25. The frontier is exact. In a RUNNING Run the candidates of the plan are, in topological order, precisely the tasks
  that have no accepted terminal evidence, whose dependencies all have accepted successful evidence, whose lease is unowned
  or expired and whose execution base is available; no candidate is downstream of an accepted failure. In a terminal Run there
  is no candidate. The plan has one record per task, in topological order.\<close>

theorem reconciliation_frontier_exact:
  assumes "TaskDAG raw = Inr (pd_dag persisted)" and "classify snap leases = Inr recovery"
    and "build_plan resolver snap persisted recovery = Inr plan"
  shows "map dr_task (dp_tasks plan) = topo (pd_dag persisted) \<and>
    dp_reconcile plan = (if ps_status snap = persisted_run_status.RUNNING
      then filter (\<lambda>t. t \<notin> accepted snap leases W_SUCCEEDED \<union> accepted snap leases W_FAILED \<and>
        deps_of (pd_dag persisted) t \<subseteq> accepted snap leases W_SUCCEEDED \<and> t \<in> claimable leases \<and>
        base_ready resolver snap t) (topo (pd_dag persisted)) else []) \<and>
    (ps_status snap = persisted_run_status.RUNNING \<longrightarrow>
      set (dp_reconcile plan) \<inter> downstream (pd_dag persisted) (accepted snap leases W_FAILED) = {})"
proof -
  note p = build_plan_Inr [OF TaskDAG_valid [OF assms(1)] assms(2,3)]
  show ?thesis
  proof (cases "ps_status snap = persisted_run_status.RUNNING")
    case True
    have "t \<notin> downstream (pd_dag persisted) (accepted snap leases W_FAILED)" if "t \<in> set (dp_reconcile plan)" for t
    proof -
      from that have deps: "deps_of (pd_dag persisted) t \<subseteq> accepted snap leases W_SUCCEEDED" by (simp add: p(3) [OF True])
      have "accepted snap leases W_SUCCEEDED \<inter> accepted snap leases W_FAILED = {}"
        by (rule accepted_disjoint [OF assms(2) True])
      with deps p(5) [OF True] show ?thesis using downstream_step [of t "pd_dag persisted" "accepted snap leases W_FAILED"] by blast
    qed
    with True p(2,3) show ?thesis by auto
  next
    case False
    with p(2,4) show ?thesis by simp
  qed
qed

theorem reconciliation_frontier_exact_witness:
  "dp_reconcile demo_plan = [''b'', ''c'', ''e''] \<and>
   [''b'', ''c'', ''e''] = filter (\<lambda>t. t \<notin> accepted demo_started demo_leases W_SUCCEEDED \<union> accepted demo_started demo_leases W_FAILED \<and>
     deps_of (pd_dag demo_frontier) t \<subseteq> accepted demo_started demo_leases W_SUCCEEDED \<and> t \<in> claimable demo_leases \<and>
     base_ready demo_resolver demo_started t) (topo (pd_dag demo_frontier))"
  using reconciliation_frontier_exact [OF demo_frontier_TaskDAG demo_classify demo_build] demo_candidates demo_running by simp

text \<open>C28. Admission respects its limits. Whatever the gate of the interface contracts lets pass, the tasks handed to the task
  reconciler are distinct candidates of the plan in the order of their complexity; together with the active leases they stay
  within \<open>max_concurrent_tasks\<close> (unless the leases alone exceed it, when none is admitted); at most one of them is a HIGH package,
  and none while a HIGH package is active.\<close>

theorem admission_respects_limits:
  assumes "classify snap leases = Inr recovery" and "build_plan resolver snap persisted recovery = Inr plan"
    and "contract_gate registry (order_candidates (pd_dag persisted) leases (dp_reconcile plan)) s = (Inr allowed, s1)"
  shows "\<exists>ts. distinct ts \<and> set ts \<subseteq> set (dp_reconcile plan) \<and>
    sorted_wrt (\<lambda>t u. admission_key (pd_dag persisted) t \<le> admission_key (pd_dag persisted) u) ts \<and>
    (\<forall>m. limit = Some m \<longrightarrow> length ts + active_tasks leases \<le> max m (active_tasks leases)) \<and>
    length (filter (is_high (pd_dag persisted)) ts) \<le> (if active_high (pd_dag persisted) leases then 0 else 1) \<and>
    reconcile_run limit registry f resolver (Inr snap) (Inr persisted) (Inr leases) s =
      (case each_task f ts s1 of
         (Inl e, s2) \<Rightarrow> (Inl e, s2)
       | (Inr outcomes, s2) \<Rightarrow> (DAGRunReconciliationOutcome \<lparr>do_plan = plan, do_outcomes = outcomes\<rparr>, s2))"
proof -
  let ?g = "pd_dag persisted" and ?o = "order_candidates (pd_dag persisted) leases (dp_reconcile plan)"
  let ?ts = "take (available_slots limit leases (dp_reconcile plan)) allowed"
  note o = order_candidates_facts [OF build_plan_distinct [OF assms(2)], of ?g leases]
  have sub: "subseq ?ts ?o" using contract_gate_subseq [OF assms(3)] subseq_take subseq_order.trans by blast
  have "length ?ts + active_tasks leases \<le> max m (active_tasks leases)" if "limit = Some m" for m
    using that by (simp add: available_slots_def)
  moreover have "length (filter (is_high ?g) ?ts) \<le> (if active_high ?g leases then 0 else 1)"
    using o(4) list_emb_length [OF subseq_filter [OF sub, of "is_high ?g"]] by linarith
  moreover have "set ?ts \<subseteq> set (dp_reconcile plan)" using subseq_set [OF sub] o(2) by blast
  ultimately show ?thesis
    using subseq_distinct [OF sub o(1)] subseq_sorted_wrt [OF sub o(3)] reconcile_run_steps [OF assms, of limit f]
    by (intro exI [of _ ?ts]) simp
qed

definition demo_outcome :: "task_id \<Rightarrow> task_reconciliation_outcome" where
  "demo_outcome t = \<lparr>ro_decision = \<lparr>rd_run = 7, rd_task = t, rd_observed_at = 100, rd_action = WAIT_EXISTING_DISPATCH,
     rd_reason = ''r'', rd_generation = 0, rd_current_dispatch = None, rd_worker_evidence = None, rd_attempt = None,
     rd_publish_allowed = False, rd_recovery_attempt = False\<rparr>, ro_receipt = None\<rparr>"

definition demo_call :: "task_id \<Rightarrow> task_id list \<Rightarrow> task_reconciliation_outcome res \<times> task_id list" where
  "demo_call t calls = (Inr (demo_outcome t), calls @ [t])"

theorem admission_respects_limits_witness:
  "\<exists>ts. set ts \<subseteq> {''b'', ''c'', ''e''} \<and> length ts + active_tasks demo_leases \<le> 2 \<and>
   reconcile_run (Some 2) None demo_call demo_resolver (Inr demo_started) (Inr demo_frontier) (Inr demo_leases) [] =
      (case each_task demo_call ts [] of
         (Inl e, s2) \<Rightarrow> (Inl e, s2)
       | (Inr outcomes, s2) \<Rightarrow> (DAGRunReconciliationOutcome \<lparr>do_plan = demo_plan, do_outcomes = outcomes\<rparr>, s2))"
proof -
  have g: "contract_gate None (order_candidates (pd_dag demo_frontier) demo_leases (dp_reconcile demo_plan)) ([] :: task_id list) =
      (Inr (order_candidates (pd_dag demo_frontier) demo_leases (dp_reconcile demo_plan)), [])"
    by (simp add: contract_gate_def)
  have a: "active_tasks demo_leases = 0" by code_simp
  have c: "set (dp_reconcile demo_plan) = {''b'', ''c'', ''e''}" by (simp add: demo_candidates)
  show ?thesis
    using admission_respects_limits [OF demo_classify demo_build g, of "Some 2" demo_call] unfolding c a by auto
qed



end
