(* ===== verification/Dag_Store.thy ===== *)
theory Dag_Store
  imports Execution_Base
begin

text \<open>
  The persisted task graph (\<open>persistence/dag.py\<close>): the graph is normalized, its nodes become columns of the
  task rows and its digest a column of the Run; \<open>load_dag\<close> rebuilds the graph from the rows and checks the digest.

  The columns \<open>runs.dag_sha256\<close>, \<open>tasks.depends_on\<close> and \<open>tasks.node_metadata\<close> extend the evidence store, keyed by the
  primary key of their row. How pydantic reads a contract and the metadata of a node from JSON is an argument; that reading
  what \<open>model_dump\<close> wrote gives the value back is a hypothesis of the round trip.
\<close>

section \<open>Columns\<close>

record dag_store = evidence_store +
  dc_sha256 :: "uuid \<Rightarrow> digest option"
  dc_depends_on :: "uuid \<times> task_id \<Rightarrow> task_id list option"
  dc_metadata :: "uuid \<times> task_id \<Rightarrow> json option"

section \<open>Payloads\<close>

definition json_strings :: "string list \<Rightarrow> json" where
  "json_strings xs = JArr (map JStr xs)"

fun mode_value :: "workflow_execution_mode \<Rightarrow> string" where
  "mode_value WORKFLOW = ''WORKFLOW''"
| "mode_value AGENT = ''AGENT''"
| "mode_value HYBRID = ''HYBRID''"

fun complexity_value :: "planning_complexity \<Rightarrow> string" where
  "complexity_value planning_complexity.LOW = ''LOW''"
| "complexity_value planning_complexity.MEDIUM = ''MEDIUM''"
| "complexity_value planning_complexity.HIGH = ''HIGH''"

definition allocation_json :: "task_budget_allocation \<Rightarrow> json" where
  "allocation_json a = JObj [(''package_id'', JStr (tba_package_id a)),
     (''recommended_token_budget'', JInt (recommended_token_budget a))]"

definition complexity_assessment_json :: "planning_complexity_assessment \<Rightarrow> json" where
  "complexity_assessment_json a = JObj [(''package_id'', JStr (pca_package_id a)),
     (''complexity'', JStr (complexity_value (pca_complexity a))), (''score'', JInt (score a)),
     (''reasons'', json_strings (reasons a))]"

definition file_digest_json :: "file_digest \<Rightarrow> json" where
  "file_digest_json f = JObj [(''path'', JStr (fd_path f)), (''source_sha256'', JStr (fd_sha256 f))]"

definition continuation_json :: "continuation_state \<Rightarrow> json" where
  "continuation_json c = JObj [(''summary_version'', JStr (cn_summary_version c)),
     (''repository_head'', JStr (cn_repository_head c)), (''read_files'', JArr (map file_digest_json (cn_read_files c))),
     (''changed_files'', json_strings (cn_changed_files c)),
     (''changed_file_hashes'', JArr (map file_digest_json (cn_changed_file_hashes c))),
     (''completed_summary'', JStr (cn_completed_summary c)), (''remaining_summary'', JStr (cn_remaining_summary c)),
     (''verification_summary'', JStr (cn_verification_summary c)), (''failure_summary'', JStr (cn_failure_summary c))]"

definition resume_context_json :: "task_resume_context \<Rightarrow> json" where
  "resume_context_json r = JObj [(''source_run_id'', JStr (uuid_text (source_run_id r))),
     (''checkpoint_commit_sha'', JStr (checkpoint_commit_sha r)),
     (''strategy'', JStr (case strategy r of CONTINUE_DEVELOPMENT \<Rightarrow> ''CONTINUE_DEVELOPMENT'' | VERIFY_THEN_REPAIR \<Rightarrow> ''VERIFY_THEN_REPAIR'')),
     (''context_state'', json_option continuation_json (context_state r)), (''verification_summary'', JStr (verification_summary r)),
     (''failure_summary'', JStr (failure_summary r)), (''remaining_summary'', JStr (remaining_summary r))]"

definition metadata_payload :: "task_node \<Rightarrow> attributes" where
  "metadata_payload n =
     [(''execution_mode'', JStr (mode_value (execution_mode n))), (''produces'', json_strings (produces n)),
      (''consumes'', json_strings (consumes n)),
      (''complexity'', json_option (JStr \<circ> complexity_value) (complexity n)),
      (''budget_allocation'', json_option allocation_json (budget_allocation n)),
      (''complexity_assessment'', json_option complexity_assessment_json (complexity_assessment n)),
      (''resume_context'', json_option resume_context_json (resume_context n))]"

definition node_metadata :: "task_node \<Rightarrow> json option" where
  "node_metadata n = (if \<exists>(k, v) \<in> set (metadata_payload n). v \<notin> {JNull, JArr [], JStr ''AGENT''}
     then Some (JObj (metadata_payload n)) else None)"

text \<open>\<open>model_dump(mode="json")\<close> of a node and of a graph.\<close>

definition node_json :: "task_node \<Rightarrow> json" where
  "node_json n = JObj ([(''task'', contract_json (task n)), (''depends_on'', json_strings (depends_on n))] @ metadata_payload n)"

definition dag_json :: "task_dag \<Rightarrow> json" where
  "dag_json graph = JObj [(''tasks'', JArr (map node_json (tasks graph)))]"

section \<open>Normalization\<close>

definition normalized_node :: "task_node \<Rightarrow> task_node" where
  "normalized_node n = n\<lparr>depends_on := sort (depends_on n)\<rparr>"

definition normalize_task_dag :: "task_dag \<Rightarrow> task_dag res" where
  "normalize_task_dag graph =
     bind_res (topological_order graph) (\<lambda>order.
     bind_res (map_res (dag_node graph) order) (\<lambda>nodes. TaskDAG (map normalized_node nodes)))"

section \<open>Starting a Run\<close>

definition start_dag_run ::
    "(json \<Rightarrow> digest) \<Rightarrow> uuid list \<Rightarrow> uuid \<Rightarrow> task_dag \<Rightarrow> string \<Rightarrow> uuid
     \<Rightarrow> 'z dag_store_scheme \<Rightarrow> exn + ('z dag_store_scheme \<times> uuid)" where
  "start_dag_run sha projects project_id graph base_commit rid db =
     (let commit = map lower_char (strip base_commit) in
      if \<not> oid_pattern commit
      then Inl (ValueError ''base_commit must be a 40-64 character lowercase Git object id'')
      else bind_res (normalize_task_dag graph) (\<lambda>normalized.
        let digest = sha (dag_json normalized) in
        bind_res (topological_order normalized) (\<lambda>order.
        bind_res (map_res (dag_node normalized) order) (\<lambda>nodes.
        integrity_conflict
          (if project_id \<notin> set projects then Inl (ValueError ''unknown persistence project'')
           else if rid \<in> rr_id ` set (st_runs db) then Inl (IntegrityError ''runs_pkey'')
           else
             let new_run = \<lparr>rr_id = rid, rr_project = project_id, rr_base_commit = commit, rr_status = persisted_run_status.RUNNING,
                        rr_event_sequence = 0, rr_terminal_result = None,
                        rr_terminal_result_sha256 = None, rr_finished_at = None\<rparr>;
                 db1 = db\<lparr>st_runs := st_runs db @ [new_run],
                          st_tasks := st_tasks db @ map (new_task_row sha rid \<circ> task) nodes,
                          dc_sha256 := (dc_sha256 db)(rid := Some digest),
                          dc_depends_on := (\<lambda>k. if fst k = rid then map_of (map (\<lambda>n. (node_id n, depends_on n)) nodes) (snd k)
                            else dc_depends_on db k),
                          dc_metadata := (\<lambda>k. if fst k = rid then Option.bind (map_of (map (\<lambda>n. (node_id n, node_metadata n)) nodes) (snd k)) id
                            else dc_metadata db k)\<rparr>
             in bind_res (RuntimeEventDraft
                  \<lparr>ed_key = ''run:started'', ed_kind = RUN_STARTED, ed_source = SRC_PERSISTENCE,
                   ed_level = INFO, ed_task = None, ed_dispatch = None, ed_generation = None,
                   ed_message = ''Persisted run started.'',
                   ed_attributes = [(''project_id'', JStr (uuid_text project_id)),
                     (''base_commit'', JStr commit), (''task_count'', JInt (int (length (tasks normalized)))),
                     (''dag_sha256'', JStr (digest_text digest))]\<rparr>)
                (\<lambda>draft. bind_res (append_runtime_event sha new_run draft db1) (\<lambda>(db2, event).
                   Inr (db2, rid))))))))"

section \<open>Loading a graph\<close>

text \<open>What the metadata column holds of a node: every field but the contract and the dependencies.\<close>

type_synonym node_fields = "workflow_execution_mode \<times> string list \<times> string list \<times> planning_complexity option \<times>
  task_budget_allocation option \<times> planning_complexity_assessment option \<times> task_resume_context option"

definition node_fields :: "task_node \<Rightarrow> node_fields" where
  "node_fields n = (execution_mode n, produces n, consumes n, complexity n, budget_allocation n,
     complexity_assessment n, resume_context n)"

definition node_of :: "task_contract \<Rightarrow> task_id list \<Rightarrow> node_fields \<Rightarrow> task_node" where
  "node_of c deps fs = (case fs of (mode, ps, cs, cx, ba, ca, rc) \<Rightarrow>
     \<lparr>task = c, depends_on = deps, execution_mode = mode, produces = ps, consumes = cs, complexity = cx,
      budget_allocation = ba, complexity_assessment = ca, resume_context = rc\<rparr>)"

definition decode_node_metadata ::
    "(json \<Rightarrow> node_fields option) \<Rightarrow> json option \<Rightarrow> node_fields res" where
  "decode_node_metadata parse_meta column = (case column of
     None \<Rightarrow> Inr (AGENT, [], [], None, None, None, None)
   | Some payload \<Rightarrow> (case parse_meta payload of
       None \<Rightarrow> Inl (ValueError ''TaskNode'') | Some fs \<Rightarrow> Inr fs))"

definition decode_node ::
    "(json \<Rightarrow> digest) \<Rightarrow> (json \<Rightarrow> task_contract option) \<Rightarrow> (json \<Rightarrow> node_fields option) \<Rightarrow> 'z dag_store_scheme
     \<Rightarrow> task_row \<Rightarrow> task_node res" where
  "decode_node sha parse parse_meta db row =
     bind_res (decode_task sha parse row) (\<lambda>p.
     bind_res (decode_node_metadata parse_meta (dc_metadata db (task_key row))) (\<lambda>fs.
       Inr (node_of (pt_task p) (case dc_depends_on db (task_key row) of None \<Rightarrow> [] | Some ds \<Rightarrow> ds) fs)))"

definition LEGACY_KEYS :: "string list" where
  "LEGACY_KEYS = [''execution_mode'', ''produces'', ''consumes'', ''complexity'', ''budget_allocation'', ''complexity_assessment'']"

definition legacy_node_json :: "task_node \<Rightarrow> json" where
  "legacy_node_json n = (case node_json n of
     JObj kvs \<Rightarrow> JObj (filter (\<lambda>(k, v). k \<notin> set LEGACY_KEYS) kvs) | j \<Rightarrow> j)"

definition legacy_payload :: "task_dag \<Rightarrow> json" where
  "legacy_payload graph = JObj [(''tasks'', JArr (map legacy_node_json (tasks graph)))]"

definition value_error_is_corruption :: "'a res \<Rightarrow> 'a res" where
  "value_error_is_corruption m = (case m of
     Inl (ValueError s) \<Rightarrow> Inl (PersistenceCorruptionError ''persisted Run DAG failed TaskDAG validation'')
   | _ \<Rightarrow> m)"

definition decode_persisted_dag ::
    "(json \<Rightarrow> digest) \<Rightarrow> (json \<Rightarrow> task_contract option) \<Rightarrow> (json \<Rightarrow> node_fields option) \<Rightarrow> task_row list \<Rightarrow> digest
     \<Rightarrow> 'z dag_store_scheme \<Rightarrow> task_dag res" where
  "decode_persisted_dag sha parse parse_meta rows digest db =
     (if \<exists>row \<in> set rows. dc_depends_on db (task_key row) = None
      then Inl (PersistenceCorruptionError ''Run DAG integrity hash exists but one or more dependency rows are missing'')
      else bind_res (value_error_is_corruption
        (bind_res (map_res (decode_node sha parse parse_meta db) rows) TaskDAG)) (\<lambda>graph.
      bind_res (normalize_task_dag graph) (\<lambda>normalized.
        if sha (dag_json normalized) = digest then Inr normalized
        else if \<exists>row \<in> set rows. dc_metadata db (task_key row) \<noteq> None
        then Inl (PersistenceCorruptionError ''payload hash mismatch'')
        else if sha (legacy_payload normalized) = digest then Inr normalized
        else Inl (PersistenceCorruptionError ''payload hash mismatch''))))"

definition load_dag ::
    "(json \<Rightarrow> digest) \<Rightarrow> (json \<Rightarrow> task_contract option) \<Rightarrow> (json \<Rightarrow> node_fields option) \<Rightarrow> uuid
     \<Rightarrow> 'z dag_store_scheme \<Rightarrow> persisted_dag_snapshot res" where
  "load_dag sha parse parse_meta rid db = (case find_run rid db of
     None \<Rightarrow> Inl (ValueError ''unknown persistence run'')
   | Some owner \<Rightarrow>
       let rows = sort_key tr_task (filter (\<lambda>t. tr_run t = rid) (st_tasks db)) in
       if rows = [] then Inl (PersistenceCorruptionError ''persisted Run contains no tasks'')
       else (case dc_sha256 db rid of
         None \<Rightarrow>
           if length rows \<noteq> 1
           then Inl (RuntimeError ''authoritative DAG topology is unavailable for this historical multi-task Run'')
           else if dc_depends_on db (task_key (hd rows)) \<noteq> None
           then Inl (PersistenceCorruptionError ''task dependency rows exist without the Run DAG integrity hash'')
           else bind_res (decode_task sha parse (hd rows)) (\<lambda>p.
             bind_res (TaskDAG [node_of (pt_task p) [] (AGENT, [], [], None, None, None, None)]) (\<lambda>graph.
             bind_res (normalize_task_dag graph) (\<lambda>normalized.
               Inr \<lparr>pd_run = rid, pd_dag = normalized, pd_sha256 = sha (dag_json normalized), pd_source = IMPLICIT_SINGLE_TASK\<rparr>)))
       | Some digest \<Rightarrow> bind_res (decode_persisted_dag sha parse parse_meta rows digest db) (\<lambda>graph.
           Inr \<lparr>pd_run = rid, pd_dag = graph, pd_sha256 = digest, pd_source = PERSISTED\<rparr>)))"

section \<open>Freezing the graph of an older Run\<close>

definition validate_task_identity :: "(json \<Rightarrow> digest) \<Rightarrow> task_row list \<Rightarrow> task_dag \<Rightarrow> unit res" where
  "validate_task_identity sha rows graph =
     (if map tr_task rows \<noteq> sort (task_ids graph)
      then Inl (PersistenceConflictError ''proposed DAG task ids must exactly match the persisted Run tasks'')
      else bind_res (map_res (\<lambda>row. bind_res (dag_node graph (tr_task row)) (\<lambda>node.
          if sha (contract_json (task node)) \<noteq> tr_contract_sha256 row
          then Inl (PersistenceConflictError ''proposed DAG task contract differs from persisted task'')
          else Inr ())) rows) (\<lambda>_. Inr ()))"

definition persist_dag ::
    "(json \<Rightarrow> digest) \<Rightarrow> (json \<Rightarrow> task_contract option) \<Rightarrow> (json \<Rightarrow> node_fields option) \<Rightarrow> uuid \<Rightarrow> task_dag
     \<Rightarrow> 'z dag_store_scheme \<Rightarrow> exn + ('z dag_store_scheme \<times> persisted_dag_snapshot)" where
  "persist_dag sha parse parse_meta rid graph db =
     bind_res (normalize_task_dag graph) (\<lambda>normalized.
     let digest = sha (dag_json normalized) in
     bind_res (locked_run rid db) (\<lambda>owner.
       let rows = sort_key tr_task (filter (\<lambda>t. tr_run t = rid) (st_tasks db)) in
       bind_res (validate_task_identity sha rows normalized) (\<lambda>_.
         case dc_sha256 db rid of
           Some stored \<Rightarrow> bind_res (decode_persisted_dag sha parse parse_meta rows stored db) (\<lambda>existing.
             if sha (dag_json existing) \<noteq> digest
             then Inl (PersistenceConflictError ''persisted Run DAG is immutable and differs from the proposed topology'')
             else Inr (db, \<lparr>pd_run = rid, pd_dag = existing, pd_sha256 = stored, pd_source = PERSISTED\<rparr>))
         | None \<Rightarrow>
             if \<exists>row \<in> set rows. dc_depends_on db (task_key row) \<noteq> None
             then Inl (PersistenceCorruptionError ''task dependency rows exist without the Run DAG integrity hash'')
             else if rr_status owner \<noteq> persisted_run_status.RUNNING
             then Inl (PersistenceConflictError ''authoritative DAG topology cannot be added after a Run is terminal'')
             else
               let column = (\<lambda>t. map_of (nodes_by_id normalized) t) in
               Inr (db\<lparr>dc_sha256 := (dc_sha256 db)(rid := Some digest),
                   dc_depends_on := (\<lambda>k. if k \<in> task_key ` set rows then map_option depends_on (column (snd k)) else dc_depends_on db k),
                   dc_metadata := (\<lambda>k. if k \<in> task_key ` set rows then Option.bind (column (snd k)) node_metadata else dc_metadata db k)\<rparr>,
                 \<lparr>pd_run = rid, pd_dag = normalized, pd_sha256 = digest, pd_source = PERSISTED\<rparr>))))"

section \<open>Nodes that validation leaves alone\<close>

definition node_ok :: "task_node \<Rightarrow> bool" where
  "node_ok n = (TaskNode n = Inr n)"

lemma map_res_fixed: "map_res f xs = Inr xs \<longleftrightarrow> (\<forall>x \<in> set xs. f x = Inr x)"
  by (simp add: map_res_Inr_iff list_all2_same)

lemma validate_dependencies_fixed:
  "validate_dependencies ds = Inr ds \<longleftrightarrow> distinct ds \<and> (\<forall>d \<in> set ds. validate_dependency d = Inr d)"
proof
  assume "validate_dependencies ds = Inr ds"
  then show "distinct ds \<and> (\<forall>d \<in> set ds. validate_dependency d = Inr d)"
    by (auto simp: validate_dependencies_def bind_res_eq_Inr map_res_fixed split: if_splits)
next
  assume "distinct ds \<and> (\<forall>d \<in> set ds. validate_dependency d = Inr d)"
  then show "validate_dependencies ds = Inr ds"
    by (simp add: validate_dependencies_def map_res_fixed [THEN iffD2])
qed

lemma TaskBudgetAllocation_same: "TaskBudgetAllocation a = Inr b \<Longrightarrow> b = a"
  by (auto simp: TaskBudgetAllocation_def split: if_splits)

lemma PlanningComplexityAssessment_same: "PlanningComplexityAssessment a = Inr b \<Longrightarrow> b = a"
  by (auto simp: PlanningComplexityAssessment_def split: if_splits)

lemma validate_optional_same:
  "validate_optional f v = Inr w \<Longrightarrow> (\<And>x y. f x = Inr y \<Longrightarrow> y = x) \<Longrightarrow> w = v"
  by (cases v) (auto simp: validate_optional_def bind_res_eq_Inr)

lemma TaskNode_Inr:
  assumes "TaskNode raw = Inr n"
  shows "n = raw\<lparr>task := task n, depends_on := depends_on n\<rparr>" and "TaskContract (task raw) = Inr (task n)"
    and "validate_dependencies (depends_on raw) = Inr (depends_on n)" and "length (produces raw) \<le> 16"
    and "length (consumes raw) \<le> 16"
    and "validate_optional TaskBudgetAllocation (budget_allocation raw) = Inr (budget_allocation raw)"
    and "validate_optional PlanningComplexityAssessment (complexity_assessment raw) = Inr (complexity_assessment raw)"
    and "node_id n \<notin> set (depends_on n)" and "validate_work_package_metadata n = Inr n"
proof -
  from assms obtain c ds ba ca where c: "TaskContract (task raw) = Inr c" "validate_dependencies (depends_on raw) = Inr ds"
      "length (produces raw) \<le> 16" "length (consumes raw) \<le> 16"
      "validate_optional TaskBudgetAllocation (budget_allocation raw) = Inr ba"
      "validate_optional PlanningComplexityAssessment (complexity_assessment raw) = Inr ca"
    and v: "bind_res (reject_self_dependency (raw\<lparr>task := c, depends_on := ds, budget_allocation := ba,
         complexity_assessment := ca\<rparr>)) validate_work_package_metadata = Inr n"
    by (auto simp: TaskNode_def bind_res_eq_Inr split: if_splits)
  have ba: "ba = budget_allocation raw" by (rule validate_optional_same [OF c(5) TaskBudgetAllocation_same])
  have ca: "ca = complexity_assessment raw" by (rule validate_optional_same [OF c(6) PlanningComplexityAssessment_same])
  let ?n = "raw\<lparr>task := c, depends_on := ds\<rparr>"
  have r: "raw\<lparr>task := c, depends_on := ds, budget_allocation := ba, complexity_assessment := ca\<rparr> = ?n" by (simp add: ba ca)
  have w: "tc_task_id c \<notin> set ds" "validate_work_package_metadata ?n = Inr n"
    using v unfolding r by (auto simp: reject_self_dependency_def split: if_splits)
  then have n: "n = ?n" by (auto simp: validate_work_package_metadata_def split: if_splits)
  show "n = raw\<lparr>task := task n, depends_on := depends_on n\<rparr>" "TaskContract (task raw) = Inr (task n)"
    "validate_dependencies (depends_on raw) = Inr (depends_on n)" "node_id n \<notin> set (depends_on n)"
    using c w by (simp_all add: n)
  show "validate_work_package_metadata n = Inr n" using w(2) by (simp only: n [symmetric])
  show "length (produces raw) \<le> 16" "length (consumes raw) \<le> 16"
    "validate_optional TaskBudgetAllocation (budget_allocation raw) = Inr (budget_allocation raw)"
    "validate_optional PlanningComplexityAssessment (complexity_assessment raw) = Inr (complexity_assessment raw)"
    using c ba ca by simp_all
qed

lemma node_ok_iff:
  "node_ok n \<longleftrightarrow> TaskContract (task n) = Inr (task n) \<and> validate_dependencies (depends_on n) = Inr (depends_on n) \<and>
     length (produces n) \<le> 16 \<and> length (consumes n) \<le> 16 \<and>
     validate_optional TaskBudgetAllocation (budget_allocation n) = Inr (budget_allocation n) \<and>
     validate_optional PlanningComplexityAssessment (complexity_assessment n) = Inr (complexity_assessment n) \<and>
     node_id n \<notin> set (depends_on n) \<and> validate_work_package_metadata n = Inr n" (is "_ \<longleftrightarrow> ?ok")
proof
  assume "node_ok n"
  then show ?ok using TaskNode_Inr [of n n] by (simp add: node_ok_def)
next
  assume ?ok
  then show "node_ok n" by (simp add: node_ok_def TaskNode_def reject_self_dependency_def)
qed

lemma TaskNode_ok:
  assumes "TaskNode raw = Inr n"
  shows "node_ok n"
proof -
  note t = TaskNode_Inr [OF assms]
  have "produces n = produces raw" "consumes n = consumes raw" "budget_allocation n = budget_allocation raw"
    "complexity_assessment n = complexity_assessment raw" by (subst t(1), simp)+
  with t(2-9) TaskContract_idem [OF t(2)] validate_dependencies_idem [OF t(3)] show ?thesis by (simp add: node_ok_iff)
qed

lemma normalized_node_ok: "node_ok n \<Longrightarrow> node_ok (normalized_node n)"
  by (auto simp: node_ok_iff normalized_node_def validate_dependencies_fixed validate_work_package_metadata_def
      split: if_splits option.splits)
section \<open>Graphs with the same nodes\<close>

lemma normalized_node_simps [simp]:
  "task (normalized_node n) = task n" "set (depends_on (normalized_node n)) = set (depends_on n)"
  "distinct (depends_on (normalized_node n)) = distinct (depends_on n)"
  "normalized_node (normalized_node n) = normalized_node n" "node_fields (normalized_node n) = node_fields n"
  "node_metadata (normalized_node n) = node_metadata n"
  by (simp_all add: normalized_node_def node_fields_def node_metadata_def metadata_payload_def sort_key_id_if_sorted)

lemma TaskDAG_nodes_ok:
  assumes "TaskDAG raw = Inr g" and "n \<in> set (tasks g)"
  shows "node_ok n"
proof -
  from assms(1) have "map_res TaskNode raw = Inr (tasks g)"
    by (auto simp: TaskDAG_def bind_res_eq_Inr dest!: validate_graph_Inr split: if_splits)
  with assms(2) obtain m where "TaskNode m = Inr n"
    by (auto simp: map_res_Inr_iff list_all2_conv_all_nth in_set_conv_nth)
  then show ?thesis by (rule TaskNode_ok)
qed

lemma node_ok_distinct: "node_ok n \<Longrightarrow> distinct (depends_on n)"
  by (simp add: node_ok_iff validate_dependencies_fixed)

text \<open>A listing of the nodes of \<open>g\<close>, each as it is in \<open>g\<close> or with its dependencies reordered.\<close>

definition relists :: "task_node list \<Rightarrow> task_dag \<Rightarrow> bool" where
  "relists ns g = (distinct (map node_id ns) \<and> (\<forall>n \<in> set ns. node_ok n) \<and>
     normalized_node ` set ns = normalized_node ` set (tasks g))"

lemma relists_ids: "relists ns g \<Longrightarrow> node_id ` set ns = id_set g"
proof -
  assume r: "relists ns g"
  have "node_id ` set ns = node_id ` normalized_node ` set ns" by (simp add: image_image)
  also have "\<dots> = node_id ` normalized_node ` set (tasks g)" using r by (simp add: relists_def)
  also have "\<dots> = id_set g" by (simp add: image_image task_ids_def)
  finally show ?thesis .
qed

lemma relists_node:
  assumes "relists ns g" and "n \<in> set ns"
  obtains m where "m \<in> set (tasks g)" and "normalized_node n = normalized_node m"
    and "node_id m = node_id n" and "set (depends_on m) = set (depends_on n)" and "node_fields m = node_fields n"
    and "task m = task n"
proof -
  from assms obtain m where m: "m \<in> set (tasks g)" "normalized_node n = normalized_node m"
    unfolding relists_def by blast
  then show thesis using that by (metis normalized_node_simps(1,2,5))
qed

lemma relists_graph:
  assumes "dag_wf g" and "relists ns g"
  shows "dag_wf \<lparr>tasks = ns\<rparr>" and "id_set \<lparr>tasks = ns\<rparr> = id_set g" and "deps_of \<lparr>tasks = ns\<rparr> = deps_of g"
    and "topological_order \<lparr>tasks = ns\<rparr> = topological_order g"
proof -
  let ?h = "\<lparr>tasks = ns\<rparr>"
  show ids: "id_set ?h = id_set g" using relists_ids [OF assms(2)] by (simp add: task_ids_def)
  show wf: "dag_wf ?h" unfolding dag_wf_def
  proof (intro conjI ballI)
    show "distinct (task_ids ?h)" using assms(2) by (simp add: relists_def task_ids_def)
    fix n assume n: "n \<in> set (tasks ?h)"
    then show "distinct (depends_on n)" using assms(2) node_ok_distinct by (simp add: relists_def)
    from n obtain m where "m \<in> set (tasks g)" "set (depends_on m) = set (depends_on n)"
      using relists_node [OF assms(2)] by (metis task_dag.select_convs(1))
    then show "set (depends_on n) \<subseteq> id_set ?h" using assms(1) ids unfolding dag_wf_def by blast
  qed
  show deps: "deps_of ?h = deps_of g"
  proof
    fix t show "deps_of ?h t = deps_of g t"
    proof (cases "t \<in> id_set g")
      case True
      then obtain n where n: "n \<in> set ns" "node_id n = t" using relists_ids [OF assms(2)] by (metis imageE)
      then obtain m where "m \<in> set (tasks g)" "node_id m = t" "set (depends_on m) = set (depends_on n)"
        using relists_node [OF assms(2) n(1)] by metis
      then show ?thesis using dag_wf_node(2) [OF wf, of n] dag_wf_node(2) [OF assms(1), of m] n by simp
    next
      case False
      then show ?thesis using deps_of_outside ids by metis
    qed
  qed
  show "topological_order ?h = topological_order g"
    by (rule topological_order_deterministic [OF wf assms(1) ids deps])
qed

lemma relists_TaskDAG:
  assumes "dag_valid g" and "relists ns g"
  shows "TaskDAG ns = Inr \<lparr>tasks = ns\<rparr>"
proof -
  note g = relists_graph [OF dag_valid_wf [OF assms(1)] assms(2)]
  have "ns \<noteq> []" using relists_ids [OF assms(2)] assms(1) by (auto simp: dag_valid_def task_ids_def)
  moreover have "map_res TaskNode ns = Inr ns" using assms(2) by (simp add: map_res_fixed relists_def node_ok_def)
  moreover have "validate_graph \<lparr>tasks = ns\<rparr> = Inr \<lparr>tasks = ns\<rparr>"
    using g(1) g(4) dag_valid_topo(1) [OF assms(1)] by (auto simp: validate_graph_def dag_wf_def)
  ultimately show ?thesis by (simp add: TaskDAG_def)
qed

definition normal_form :: "task_dag \<Rightarrow> task_dag" where
  "normal_form g = \<lparr>tasks = map (\<lambda>t. normalized_node (the (map_of (nodes_by_id g) t))) (topo g)\<rparr>"

lemma node_at_id:
  assumes "dag_wf g" and "t \<in> id_set g"
  shows "the (map_of (nodes_by_id g) t) \<in> set (tasks g)" and "node_id (the (map_of (nodes_by_id g) t)) = t"
    and "dag_node g t = Inr (the (map_of (nodes_by_id g) t))"
proof -
  from assms(2) obtain n where n: "n \<in> set (tasks g)" "node_id n = t" by (auto simp: id_set_node)
  then have "map_of (nodes_by_id g) t = Some n" using dag_wf_node(1) [OF assms(1)] by blast
  with n show "the (map_of (nodes_by_id g) t) \<in> set (tasks g)" "node_id (the (map_of (nodes_by_id g) t)) = t"
    "dag_node g t = Inr (the (map_of (nodes_by_id g) t))" by (simp_all add: dag_node_def)
qed

lemma normal_form_relists:
  assumes "TaskDAG raw = Inr g"
  shows "relists (tasks (normal_form g)) g"
proof -
  have wf: "dag_wf g" and v: "dag_valid g" using TaskDAG_valid [OF assms] dag_valid_wf by blast+
  note topo = dag_valid_topo(3) [OF v] dag.order_distinct [OF v]
  have ids: "map node_id (tasks (normal_form g)) = topo g"
    unfolding normal_form_def using node_at_id(2) [OF wf] topo(1) by (auto simp: o_def intro: map_idI)
  have ok: "\<forall>n \<in> set (tasks (normal_form g)). node_ok n"
    using node_at_id(1) [OF wf] topo(1) TaskDAG_nodes_ok [OF assms] normalized_node_ok by (auto simp: normal_form_def)
  have all: "(\<lambda>t. the (map_of (nodes_by_id g) t)) ` set (topo g) = set (tasks g)"
  proof (intro equalityI subsetI)
    fix n assume n: "n \<in> set (tasks g)"
    then have "node_id n \<in> set (topo g)" using topo(1) by (auto simp: id_set_node)
    moreover have "n = the (map_of (nodes_by_id g) (node_id n))" using dag_wf_node(1) [OF wf n] by simp
    ultimately show "n \<in> (\<lambda>t. the (map_of (nodes_by_id g) t)) ` set (topo g)" by blast
  qed (use node_at_id(1) [OF wf] topo(1) in auto)
  have "normalized_node ` set (tasks (normal_form g)) = normalized_node ` set (tasks g)"
    by (simp add: normal_form_def image_image flip: all)
  with ids ok topo(2) show ?thesis by (simp add: relists_def)
qed

lemma relists_normalize:
  assumes "TaskDAG raw = Inr g" and "relists ns g"
  shows "normalize_task_dag \<lparr>tasks = ns\<rparr> = Inr (normal_form g)"
proof -
  let ?h = "\<lparr>tasks = ns\<rparr>"
  have v: "dag_valid g" and wf: "dag_wf g" using TaskDAG_valid [OF assms(1)] dag_valid_wf by blast+
  note h = relists_graph [OF wf assms(2)]
  have node: "dag_node ?h t = Inr (the (map_of (nodes_by_id ?h) t))" if "t \<in> set (topo g)" for t
    using that dag_valid_topo(3) [OF v] h(2) by (intro node_at_id(3) [OF h(1)]) simp
  have same: "normalized_node (the (map_of (nodes_by_id ?h) t)) = normalized_node (the (map_of (nodes_by_id g) t))"
    if t: "t \<in> set (topo g)" for t
  proof -
    let ?n = "the (map_of (nodes_by_id ?h) t)"
    have id: "t \<in> id_set ?h" using t dag_valid_topo(3) [OF v] h(2) by simp
    from node_at_id(1,2) [OF h(1) id] obtain m where "m \<in> set (tasks g)" "normalized_node ?n = normalized_node m" "node_id m = t"
      using relists_node [OF assms(2)] by (metis task_dag.select_convs(1))
    then show ?thesis using dag_wf_node(1) [OF wf, of m] by simp
  qed
  have "map_res (dag_node ?h) (topo g) = Inr (map (\<lambda>t. the (map_of (nodes_by_id ?h) t)) (topo g))"
    using node by (simp add: map_res_Inr_iff list_all2_map2 list_all2_same)
  then have "normalize_task_dag ?h = TaskDAG (tasks (normal_form g))"
    using same h(4) dag_valid_topo(1) [OF v] by (simp add: normalize_task_dag_def normal_form_def cong: map_cong)
  also have "\<dots> = Inr (normal_form g)" using relists_TaskDAG [OF v normal_form_relists [OF assms(1)]] by (simp add: normal_form_def)
  finally show ?thesis .
qed

lemma relists_self: "TaskDAG raw = Inr g \<Longrightarrow> relists (tasks g) g"
  using TaskDAG_nodes_ok dag_valid_wf [OF TaskDAG_valid]
  by (auto simp: relists_def dag_wf_def task_ids_def)

lemma normalize_valid: "TaskDAG raw = Inr g \<Longrightarrow> normalize_task_dag g = Inr (normal_form g)"
  using relists_normalize [OF _ relists_self] by (metis task_dag.surjective unit.exhaust)
section \<open>Reading back\<close>

lemma map_insort_key: "insort_key f (g x) (map g xs) = map g (insort_key (f \<circ> g) x xs)"
  by (induction xs) auto

lemma sort_key_map: "sort_key f (map g xs) = map g (sort_key (f \<circ> g) xs)"
  by (induction xs) (simp_all add: map_insort_key o_def)

lemma no_metadata_fields:
  assumes "node_metadata n = None"
  shows "node_fields n = (AGENT, [], [], None, None, None, None)"
proof -
  have "complexity_value c \<noteq> ''AGENT''" for c by (cases c) simp_all
  then have "execution_mode n = AGENT" "produces n = []" "consumes n = []" "complexity n = None"
    "budget_allocation n = None" "complexity_assessment n = None" "resume_context n = None"
    using assms
    by (cases "execution_mode n"; auto simp: node_metadata_def metadata_payload_def json_strings_def json_option_def
        allocation_json_def complexity_assessment_json_def resume_context_json_def split: if_splits option.splits)+
  then show ?thesis by (simp add: node_fields_def)
qed

lemma node_of_fields: "node_of (task n) (depends_on n) (node_fields n) = n"
  by (simp add: node_of_def node_fields_def)

text \<open>A reader that gives back what \<open>model_dump\<close> wrote, on the nodes of a graph.\<close>

definition reads_back ::
    "(json \<Rightarrow> task_contract option) \<Rightarrow> (json \<Rightarrow> node_fields option) \<Rightarrow> task_dag \<Rightarrow> bool" where
  "reads_back parse parse_meta g = (\<forall>n \<in> set (tasks g). parse (contract_json (task n)) = Some (task n) \<and>
     parse_meta (JObj (metadata_payload n)) = Some (node_fields n))"

lemma decode_node_Inr:
  assumes "node_ok n" and "parse (contract_json (task n)) = Some (task n)"
    and "parse_meta (JObj (metadata_payload n)) = Some (node_fields n)"
    and "tr_task row = node_id n" and "tr_contract row = contract_json (task n)"
    and "tr_contract_sha256 row = sha (contract_json (task n))"
    and "dc_depends_on db (task_key row) = Some (depends_on n)" and "dc_metadata db (task_key row) = node_metadata n"
  shows "decode_node sha parse parse_meta db row = Inr n"
proof -
  have "decode_task sha parse row = Inr \<lparr>pt_task = task n, pt_sha256 = tr_contract_sha256 row\<rparr>"
    using assms by (simp add: decode_task_def verify_payload_hash_def node_ok_iff)
  moreover have "decode_node_metadata parse_meta (node_metadata n) = Inr (node_fields n)"
    using assms(3) no_metadata_fields [of n]
    by (cases "node_metadata n") (auto simp: decode_node_metadata_def node_metadata_def split: if_splits)
  ultimately show ?thesis by (simp add: decode_node_def assms(7,8) node_of_fields)
qed

definition dag_columns ::
    "uuid \<Rightarrow> 'z dag_store_scheme \<Rightarrow> digest option \<times> (task_id \<times> json \<times> digest) list \<times>
       (task_id \<Rightarrow> task_id list option) \<times> (task_id \<Rightarrow> json option)" where
  "dag_columns rid db = (dc_sha256 db rid,
     map (\<lambda>r. (tr_task r, tr_contract r, tr_contract_sha256 r)) (sort_key tr_task (filter (\<lambda>t. tr_run t = rid) (st_tasks db))),
     \<lambda>t. dc_depends_on db (rid, t), \<lambda>t. dc_metadata db (rid, t))"

text \<open>The columns a graph is stored as, its nodes in the order of their ids.\<close>

definition stored_as :: "(json \<Rightarrow> digest) \<Rightarrow> uuid \<Rightarrow> digest \<Rightarrow> task_node list \<Rightarrow> 'z dag_store_scheme \<Rightarrow> bool" where
  "stored_as sha rid d ns db = (case dag_columns rid db of (digest, rows, deps, meta) \<Rightarrow>
     digest = Some d \<and>
     rows = map (\<lambda>n. (node_id n, contract_json (task n), sha (contract_json (task n)))) ns \<and>
     (\<forall>n \<in> set ns. deps (node_id n) = Some (depends_on n) \<and> meta (node_id n) = node_metadata n))"

lemma stored_nodes:
  assumes "TaskDAG raw = Inr g" and "relists ns g" and "stored_as sha rid d ns db" and "reads_back parse parse_meta g"
  defines "rows \<equiv> sort_key tr_task (filter (\<lambda>t. tr_run t = rid) (st_tasks db))"
  shows "dc_sha256 db rid = Some d" and "rows \<noteq> []" and "map_res (decode_node sha parse parse_meta db) rows = Inr ns"
    and "\<not> (\<exists>r \<in> set rows. dc_depends_on db (task_key r) = None)"
    and "(\<exists>r \<in> set rows. dc_metadata db (task_key r) \<noteq> None) \<longleftrightarrow> (\<exists>n \<in> set ns. node_metadata n \<noteq> None)"
proof -
  let ?rows = "sort_key tr_task (filter (\<lambda>t. tr_run t = rid) (st_tasks db))"
  have v: "dag_valid g" by (rule TaskDAG_valid [OF assms(1)])
  from assms(3) show "dc_sha256 db rid = Some d" by (simp add: stored_as_def dag_columns_def)
  from assms(3) have rows: "map (\<lambda>r. (tr_task r, tr_contract r, tr_contract_sha256 r)) ?rows =
      map (\<lambda>n. (node_id n, contract_json (task n), sha (contract_json (task n)))) ns"
    and cols: "\<And>n. n \<in> set ns \<Longrightarrow> dc_depends_on db (rid, node_id n) = Some (depends_on n) \<and>
      dc_metadata db (rid, node_id n) = node_metadata n"
    by (simp_all add: stored_as_def dag_columns_def)
  have "length (map (\<lambda>r. (tr_task r, tr_contract r, tr_contract_sha256 r)) ?rows) = length ns" unfolding rows by simp
  then have len: "length ?rows = length ns" by simp
  have row: "tr_task (?rows ! i) = node_id (ns ! i)" "tr_contract (?rows ! i) = contract_json (task (ns ! i))"
    "tr_contract_sha256 (?rows ! i) = sha (contract_json (task (ns ! i)))" "tr_run (?rows ! i) = rid"
    if "i < length ns" for i
  proof -
    have "map (\<lambda>r. (tr_task r, tr_contract r, tr_contract_sha256 r)) ?rows ! i =
      map (\<lambda>n. (node_id n, contract_json (task n), sha (contract_json (task n)))) ns ! i" by (simp only: rows)
    then show "tr_task (?rows ! i) = node_id (ns ! i)" "tr_contract (?rows ! i) = contract_json (task (ns ! i))"
      "tr_contract_sha256 (?rows ! i) = sha (contract_json (task (ns ! i)))" using that len by auto
    have "?rows ! i \<in> set ?rows" using that len by (intro nth_mem) simp
    then show "tr_run (?rows ! i) = rid" by simp
  qed
  have read: "parse (contract_json (task n)) = Some (task n) \<and> parse_meta (JObj (metadata_payload n)) = Some (node_fields n)"
    if n: "n \<in> set ns" for n
  proof -
    from n obtain m where m: "m \<in> set (tasks g)" "task m = task n" "node_fields m = node_fields n"
      using relists_node [OF assms(2)] by metis
    then have "metadata_payload m = metadata_payload n" by (simp add: metadata_payload_def node_fields_def)
    with m assms(4) show ?thesis unfolding reads_back_def by metis
  qed
  have "decode_node sha parse parse_meta db (?rows ! i) = Inr (ns ! i)" if i: "i < length ns" for i
  proof (rule decode_node_Inr)
    show "node_ok (ns ! i)" using assms(2) i by (simp add: relists_def)
    show "dc_depends_on db (task_key (?rows ! i)) = Some (depends_on (ns ! i))" "dc_metadata db (task_key (?rows ! i)) = node_metadata (ns ! i)"
      using cols [of "ns ! i"] row [OF i] i by (simp_all add: task_key_def)
  qed (use read [of "ns ! i"] row [OF i] i in simp_all)
  then show "map_res (decode_node sha parse parse_meta db) rows = Inr ns"
    using len by (simp add: map_res_Inr_iff list_all2_conv_all_nth rows_def)
  have key: "task_key (?rows ! i) = (rid, node_id (ns ! i))" if "i < length ns" for i
    using row [OF that] by (simp add: task_key_def)
  have "map task_key ?rows = map (\<lambda>n. (rid, node_id n)) ns"
    by (rule nth_equalityI) (use len key in simp_all)
  from arg_cong [where f = set, OF this] have keys: "task_key ` set ?rows = (\<lambda>n. (rid, node_id n)) ` set ns"
    by (simp only: set_map)
  have ex: "(\<exists>r \<in> set ?rows. P (task_key r)) \<longleftrightarrow> (\<exists>n \<in> set ns. P (rid, node_id n))" for P
    using keys by (metis (no_types, lifting) image_iff)
  show "\<not> (\<exists>r \<in> set rows. dc_depends_on db (task_key r) = None)"
    "(\<exists>r \<in> set rows. dc_metadata db (task_key r) \<noteq> None) \<longleftrightarrow> (\<exists>n \<in> set ns. node_metadata n \<noteq> None)"
    unfolding rows_def ex [where P = "\<lambda>k. dc_depends_on db k = None"] ex [where P = "\<lambda>k. dc_metadata db k \<noteq> None"]
    using cols by auto
  have "ns \<noteq> []" using relists_ids [OF assms(2)] v by (auto simp: dag_valid_def task_ids_def)
  then show "rows \<noteq> []" unfolding rows_def using len by (metis length_0_conv)
qed

lemma load_stored:
  assumes "TaskDAG raw = Inr g" and "relists ns g" and "stored_as sha rid (sha (dag_json (normal_form g))) ns db"
    and "find_run rid db \<noteq> None" and "reads_back parse parse_meta g"
  shows "load_dag sha parse parse_meta rid db =
    Inr \<lparr>pd_run = rid, pd_dag = normal_form g, pd_sha256 = sha (dag_json (normal_form g)), pd_source = PERSISTED\<rparr>"
proof -
  let ?rows = "sort_key tr_task (filter (\<lambda>t. tr_run t = rid) (st_tasks db))"
  note st = stored_nodes [OF assms(1-3,5)]
  have "decode_persisted_dag sha parse parse_meta ?rows (sha (dag_json (normal_form g))) db = Inr (normal_form g)"
    unfolding decode_persisted_dag_def if_not_P [OF st(4)] st(3)
    by (simp add: relists_TaskDAG [OF TaskDAG_valid [OF assms(1)] assms(2)] relists_normalize [OF assms(1,2)] value_error_is_corruption_def)
  then show ?thesis using assms(4) st(1,2) by (auto simp: load_dag_def Let_def)
qed
lemma normal_form_nodes:
  assumes "TaskDAG raw = Inr g"
  shows "topological_order (normal_form g) = Inr (topo g)"
    and "map_res (dag_node (normal_form g)) (topo g) = Inr (tasks (normal_form g))"
    and "map node_id (tasks (normal_form g)) = topo g"
proof -
  have v: "dag_valid g" by (rule TaskDAG_valid [OF assms])
  note r = relists_graph [OF dag_valid_wf [OF v] normal_form_relists [OF assms]]
  have N: "\<lparr>tasks = tasks (normal_form g)\<rparr> = normal_form g" by (simp add: normal_form_def)
  show "topological_order (normal_form g) = Inr (topo g)" using r(4) dag_valid_topo(1) [OF v] by (simp add: N)
  show ids: "map node_id (tasks (normal_form g)) = topo g"
    using node_at_id(2) [OF dag_valid_wf [OF v]] dag_valid_topo(3) [OF v] unfolding normal_form_def
    by (auto simp: o_def intro: map_idI)
  have "dag_node (normal_form g) (node_id n) = Inr n" if "n \<in> set (tasks (normal_form g))" for n
    using dag_wf_node(1) [OF r(1) [unfolded N] that] by (simp add: dag_node_def)
  then have "map_res (dag_node (normal_form g)) (map node_id (tasks (normal_form g))) = Inr (tasks (normal_form g))"
    by (simp add: map_res_Inr_iff list_all2_map1 list_all2_same)
  then show "map_res (dag_node (normal_form g)) (topo g) = Inr (tasks (normal_form g))" by (simp only: ids)
qed

lemma integrity_conflict_Inr: "integrity_conflict m = Inr x \<longleftrightarrow> m = Inr x"
  by (auto simp: integrity_conflict_def split: sum.splits exn.splits)

lemma dag_columns_beyond:
  assumes "st_tasks db' = st_tasks db" and "evidence_store.more db' = evidence_store.more db"
  shows "dag_columns rid db' = dag_columns rid db"
  using assms by (cases db; cases db') (simp add: dag_columns_def)

lemma start_dag_run_stored:
  assumes "TaskDAG raw = Inr g" and "start_dag_run sha projects pid g commit rid db = Inr (db', u)"
    and "distinct (map rr_id (st_runs db))" and "\<forall>r \<in> set (st_tasks db). tr_run r \<in> rr_id ` set (st_runs db)"
  shows "stored_as sha rid (sha (dag_json (normal_form g))) (sort_key node_id (tasks (normal_form g))) db'" and "find_run rid db' \<noteq> None"
proof -
  let ?ns = "tasks (normal_form g)"
  note nf = normalize_valid [OF assms(1)] normal_form_nodes [OF assms(1)]
  define new_run where "new_run = \<lparr>rr_id = rid, rr_project = pid, rr_base_commit = map lower_char (strip commit),
     rr_status = persisted_run_status.RUNNING, rr_event_sequence = 0, rr_terminal_result = None,
     rr_terminal_result_sha256 = None, rr_finished_at = None\<rparr>"
  define db1 where "db1 = db\<lparr>st_runs := st_runs db @ [new_run], st_tasks := st_tasks db @ map (new_task_row sha rid \<circ> task) ?ns,
       dc_sha256 := (dc_sha256 db)(rid := Some (sha (dag_json (normal_form g)))),
       dc_depends_on := (\<lambda>k. if fst k = rid then map_of (map (\<lambda>n. (node_id n, depends_on n)) ?ns) (snd k) else dc_depends_on db k),
       dc_metadata := (\<lambda>k. if fst k = rid then Option.bind (map_of (map (\<lambda>n. (node_id n, node_metadata n)) ?ns) (snd k)) id
          else dc_metadata db k)\<rparr>"
  have new: "rr_id new_run = rid" by (simp add: new_run_def)
  from assms(2) obtain draft e where fresh: "rid \<notin> rr_id ` set (st_runs db)"
    and app: "append_runtime_event sha new_run draft db1 = Inr (db', e)"
    unfolding start_dag_run_def Let_def nf(1) bind_res_Inr nf(2,3) new_run_def [symmetric] db1_def [symmetric]
    by (auto simp: integrity_conflict_Inr bind_res_eq_Inr split: if_splits)
  have d: "distinct (map rr_id (st_runs db1))" using assms(3) fresh new by (simp add: db1_def)
  have found: "find_run (rr_id new_run) db1 = Some new_run" using d by (subst find_run_iff) (simp_all add: db1_def)
  note frame = append_frame [OF app found d] append_beyond [OF app found d]
  from frame(1) have "map rr_id (st_runs db') = map rr_id (st_runs db1)" by blast
  then have "rid \<in> set (map rr_id (st_runs db'))" using new by (simp add: db1_def)
  then show "find_run rid db' \<noteq> None" by (auto simp: find_run_def find_None_iff)
  have cols: "dag_columns rid db' = dag_columns rid db1" using frame(2) by (intro dag_columns_beyond) simp_all
  have old: "filter (\<lambda>t. tr_run t = rid) (st_tasks db) = []" using assms(4) fresh by (auto simp: filter_empty_conv)
  have rows: "filter (\<lambda>t. tr_run t = rid) (st_tasks db1) = map (new_task_row sha rid \<circ> task) ?ns"
    using old by (simp add: db1_def new_task_row_def filter_map o_def)
  have dist: "distinct (map node_id ?ns)" using normal_form_relists [OF assms(1)] by (simp add: relists_def)
  have look: "map_of (map (\<lambda>n. (node_id n, f n)) ?ns) (node_id n) = Some (f n)" if "n \<in> set ?ns" for f :: "task_node \<Rightarrow> 'x" and n
    using dist that by (intro map_of_is_SomeI) (auto simp: o_def)
  show "stored_as sha rid (sha (dag_json (normal_form g))) (sort_key node_id ?ns) db'"
    unfolding stored_as_def cols
    by (simp add: dag_columns_def rows sort_key_map) (simp add: db1_def look new_task_row_def o_def)
qed

lemma relists_sort: "relists ns g \<Longrightarrow> relists (sort_key f ns) g"
  unfolding relists_def
  by (simp add: distinct_map)

section \<open>Properties\<close>

text \<open>Starting a Run with a validated graph returns, in every store whose log is sound.\<close>

lemma start_dag_run_returns:
  assumes "TaskDAG raw = Inr g" and small: "length (tasks g) < 10 ^ 4" and pid: "pid \<in> set projects"
    and commit: "oid_pattern (map lower_char (strip commit))" and fresh: "rid \<notin> rr_id ` set (st_runs db)"
    and log: "Runtime_Events.log_inv sha db"
  shows "\<exists>db'. start_dag_run sha projects pid g commit rid db = Inr (db', rid)"
proof -
  let ?ns = "tasks (normal_form g)"
  note nf = normalize_valid [OF assms(1)] normal_form_nodes [OF assms(1)]
  define c where "c = map lower_char (strip commit)"
  define new_run where "new_run = \<lparr>rr_id = rid, rr_project = pid, rr_base_commit = c,
     rr_status = persisted_run_status.RUNNING, rr_event_sequence = 0, rr_terminal_result = None,
     rr_terminal_result_sha256 = None, rr_finished_at = None\<rparr>"
  define db1 where "db1 = db\<lparr>st_runs := st_runs db @ [new_run], st_tasks := st_tasks db @ map (new_task_row sha rid \<circ> task) ?ns,
       dc_sha256 := (dc_sha256 db)(rid := Some (sha (dag_json (normal_form g)))),
       dc_depends_on := (\<lambda>k. if fst k = rid then map_of (map (\<lambda>n. (node_id n, depends_on n)) ?ns) (snd k) else dc_depends_on db k),
       dc_metadata := (\<lambda>k. if fst k = rid then Option.bind (map_of (map (\<lambda>n. (node_id n, node_metadata n)) ?ns) (snd k)) id
          else dc_metadata db k)\<rparr>"
  define draft where "draft = \<lparr>ed_key = ''run:started'', ed_kind = RUN_STARTED, ed_source = SRC_PERSISTENCE,
     ed_level = INFO, ed_task = None, ed_dispatch = None, ed_generation = None, ed_message = ''Persisted run started.'',
     ed_attributes = [(''project_id'', JStr (uuid_text pid)), (''base_commit'', JStr c), (''task_count'', JInt (int (length ?ns))),
       (''dag_sha256'', JStr (digest_text (sha (dag_json (normal_form g)))))]\<rparr>"
  have r: "relists ?ns g" by (rule normal_form_relists [OF assms(1)])
  have "distinct (task_ids g)" using dag_valid_wf [OF TaskDAG_valid [OF assms(1)]] by (simp add: dag_wf_def)
  then have "card (id_set g) = length (tasks g)" by (subst distinct_card) (simp_all add: task_ids_def)
  moreover have "card (set (map node_id ?ns)) = length ?ns" using r by (subst distinct_card) (simp_all add: relists_def)
  ultimately have "length ?ns = length (tasks g)" using relists_ids [OF r] by simp
  then have dec: "length (dec (length ?ns)) \<le> 4" using small by (intro length_dec) simp_all
  have draft: "RuntimeEventDraft draft = Inr draft"
  proof (rule draft_ok)
    have "length c \<le> 64" using commit by (simp add: c_def oid_pattern_def)
    then show "entries_size (ed_attributes draft) \<le> 16382"
      using dec str_size_le [of "uuid_text pid" 36] str_size_le [of c 64] str_size_le [of "digest_text (sha (dag_json (normal_form g)))" 64]
        str_size_le [of "''project_id''" 10] str_size_le [of "''base_commit''" 11] str_size_le [of "''task_count''" 10]
        str_size_le [of "''dag_sha256''" 10]
      by (simp add: draft_def)
    have "\<not> sensitive_key ''dag_sha256''" by code_simp
    then show "\<forall>k \<in> set (entry_keys (ed_attributes draft)). \<not> sensitive_key k" by (simp add: draft_def harmless_keys)
  qed (simp_all add: draft_def text_between_def opt_all_def)
  have new: "rr_id new_run = rid" "rr_event_sequence new_run = 0" by (simp_all add: new_run_def)
  have no_events: "ev_run e \<noteq> rid" if "e \<in> set (st_events db)" for e using that log fresh by (auto simp: Runtime_Events.log_inv_def)
  then have "filter (\<lambda>e. ev_run e = rid) (st_events db) = []" by (simp add: filter_empty_conv)
  then have log1: "Runtime_Events.log_inv sha db1"
    using log fresh new unfolding Runtime_Events.log_inv_def by (auto simp: db1_def run_log_def)
  have found: "find_run (rr_id new_run) db1 = Some new_run"
    using log1 by (subst find_run_iff) (simp_all add: db1_def Runtime_Events.log_inv_def)
  obtain db' e where app: "append_runtime_event sha new_run draft db1 = Inr (db', e)"
    using append_fresh_ok [OF log1 found draft] no_events new by (auto simp: db1_def draft_def opt_all_def)
  show ?thesis
    unfolding start_dag_run_def Let_def c_def [symmetric] nf(1) bind_res_Inr nf(2,3) new_run_def [symmetric] db1_def [symmetric]
      draft_def [symmetric]
    using commit pid fresh draft app by (simp add: c_def integrity_conflict_def)
qed

definition demo_graph :: task_dag where
  "demo_graph = \<lparr>tasks = [(demo_node ''b'' [''a''])\<lparr>produces := [''api'']\<rparr>, demo_node ''a'' []]\<rparr>"

definition reader_of :: "task_dag \<Rightarrow> json \<Rightarrow> task_contract option" where
  "reader_of g = map_of (map (\<lambda>n. (contract_json (task n), task n)) (tasks g))"

definition meta_reader_of :: "task_dag \<Rightarrow> json \<Rightarrow> node_fields option" where
  "meta_reader_of g = map_of (map (\<lambda>n. (JObj (metadata_payload n), node_fields n)) (tasks g))"

text \<open>A hash of the demos: the number of keys of the first node.\<close>

definition key_count :: "json \<Rightarrow> digest" where
  "key_count j = (case j of JObj [(k, JArr (JObj kvs # js))] \<Rightarrow> of_nat (length kvs) | _ \<Rightarrow> 0)"

definition demo_tables :: dag_store where
  "demo_tables = \<lparr>st_runs = [], st_tasks = [], st_events = [], st_evidence = [],
     dc_sha256 = (\<lambda>_. None), dc_depends_on = (\<lambda>_. None), dc_metadata = (\<lambda>_. None)\<rparr>"

definition demo_stored :: "dag_store \<times> uuid" where
  "demo_stored = projr (start_dag_run key_count [3] 3 demo_graph (oid_of CHR ''0'') 7 demo_tables)"


section \<open>Graphs stored before nodes had metadata\<close>

text \<open>What was hashed of a graph whose nodes had a contract and dependencies only.\<close>

definition original_payload :: "task_dag \<Rightarrow> json" where
  "original_payload graph = JObj [(''tasks'', JArr (map (\<lambda>n. JObj [(''task'', contract_json (task n)),
     (''depends_on'', json_strings (depends_on n))]) (tasks graph)))]"

lemma legacy_node_keys:
  "legacy_node_json n = JObj [(''task'', contract_json (task n)), (''depends_on'', json_strings (depends_on n)),
     (''resume_context'', json_option resume_context_json (resume_context n))]"
  by (simp add: legacy_node_json_def node_json_def metadata_payload_def LEGACY_KEYS_def)

lemma payloads_differ:
  assumes "tasks h \<noteq> []"
  shows "legacy_payload h \<noteq> original_payload h" and "dag_json h \<noteq> original_payload h"
  using assms
  by (cases "tasks h"; simp add: legacy_payload_def original_payload_def dag_json_def legacy_node_keys node_json_def metadata_payload_def)+

text \<open>C31. The compatibility path for graphs stored before migration 0013 never accepts one. Such a graph was hashed
  without node metadata; the reader rebuilds that payload by dropping six of the seven metadata keys and keeps
  \<open>resume_context\<close>. So for every Run whose rows hold a valid graph without metadata and whose digest is that of the original
  payload, and a hash that does not collide on the three payloads, \<open>load_dag\<close> reports corruption.\<close>

theorem legacy_graph_rejected:
  assumes "TaskDAG raw = Inr g" and "normalize_task_dag g = Inr h"
    and "stored_as sha rid (sha (original_payload h)) (sort_key node_id (tasks h)) db"
    and "\<forall>n \<in> set (tasks h). node_metadata n = None"
    and "find_run rid db \<noteq> None" and "reads_back parse parse_meta g"
    and "inj_on sha {dag_json h, legacy_payload h, original_payload h}"
  shows "load_dag sha parse parse_meta rid db = Inl (PersistenceCorruptionError ''payload hash mismatch'')"
proof -
  let ?rows = "sort_key tr_task (filter (\<lambda>t. tr_run t = rid) (st_tasks db))"
  let ?ns = "sort_key node_id (tasks h)"
  have h: "h = normal_form g" using assms(2) normalize_valid [OF assms(1)] by simp
  have r: "relists ?ns g" unfolding h by (rule relists_sort [OF normal_form_relists [OF assms(1)]])
  note st = stored_nodes [OF assms(1) r assms(3,6)]
  have no_meta: "\<not> (\<exists>r \<in> set ?rows. dc_metadata db (task_key r) \<noteq> None)" unfolding st(5) using assms(4) by simp
  have "task_ids g \<noteq> []" using TaskDAG_valid [OF assms(1)] by (auto simp: dag_valid_def task_ids_def)
  then have ne: "tasks h \<noteq> []" using relists_ids [OF r] by (auto simp: task_ids_def)
  have "sha (dag_json h) \<noteq> sha (original_payload h)" "sha (legacy_payload h) \<noteq> sha (original_payload h)"
    using assms(7) payloads_differ [OF ne] by (auto simp: inj_on_def)
  then have "decode_persisted_dag sha parse parse_meta ?rows (sha (original_payload h)) db =
      Inl (PersistenceCorruptionError ''payload hash mismatch'')"
    unfolding decode_persisted_dag_def if_not_P [OF st(4)] if_not_P [OF no_meta] st(3)
    by (simp add: relists_TaskDAG [OF TaskDAG_valid [OF assms(1)] r] relists_normalize [OF assms(1) r] h [symmetric]
        value_error_is_corruption_def)
  then show ?thesis using assms(5) st(1,2) by (auto simp: load_dag_def Let_def)
qed

definition demo_legacy :: dag_store where
  "demo_legacy = demo_tables\<lparr>
     st_runs := [\<lparr>rr_id = 7, rr_project = 3, rr_base_commit = oid_of CHR ''0'', rr_status = persisted_run_status.RUNNING,
       rr_event_sequence = 0, rr_terminal_result = None, rr_terminal_result_sha256 = None, rr_finished_at = None\<rparr>],
     st_tasks := map (new_task_row key_count 7 \<circ> task) (tasks (pd_dag demo_pair)),
     dc_sha256 := (\<lambda>_. Some (key_count (original_payload (pd_dag demo_pair)))),
     dc_depends_on := (\<lambda>k. map_of (map (\<lambda>n. (node_id n, depends_on n)) (tasks (pd_dag demo_pair))) (snd k))\<rparr>"

theorem legacy_graph_rejected_witness:
  "load_dag key_count (reader_of (pd_dag demo_pair)) (meta_reader_of (pd_dag demo_pair)) 7 demo_legacy =
     Inl (PersistenceCorruptionError ''payload hash mismatch'')"
proof (rule legacy_graph_rejected)
  show "TaskDAG (tasks (pd_dag demo_pair)) = Inr (pd_dag demo_pair)" by code_simp
  show "normalize_task_dag (pd_dag demo_pair) = Inr (pd_dag demo_pair)" by code_simp
  show "stored_as key_count 7 (key_count (original_payload (pd_dag demo_pair))) (sort_key node_id (tasks (pd_dag demo_pair))) demo_legacy"
    by code_simp
  show "\<forall>n \<in> set (tasks (pd_dag demo_pair)). node_metadata n = None" by code_simp
  show "find_run 7 demo_legacy \<noteq> None" by code_simp
  show "reads_back (reader_of (pd_dag demo_pair)) (meta_reader_of (pd_dag demo_pair)) (pd_dag demo_pair)" by code_simp
  have "key_count (dag_json (pd_dag demo_pair)) \<noteq> key_count (legacy_payload (pd_dag demo_pair))"
    "key_count (dag_json (pd_dag demo_pair)) \<noteq> key_count (original_payload (pd_dag demo_pair))"
    "key_count (legacy_payload (pd_dag demo_pair)) \<noteq> key_count (original_payload (pd_dag demo_pair))"
    by code_simp+
  then show "inj_on key_count {dag_json (pd_dag demo_pair), legacy_payload (pd_dag demo_pair), original_payload (pd_dag demo_pair)}"
    by (auto simp: inj_on_def)
qed

end
