(* ===== verification/Work_Packages.thy ===== *)
theory Work_Packages
  imports Dag_Store
begin

text \<open>
  Planning (\<open>models/work_package.py\<close>, \<open>planning/work_packages.py\<close>, \<open>planning/complexity.py\<close>): a proposal of work packages is
  validated and converted into a task graph, whose edges are derived from the interfaces the packages produce and consume.

  The delivery layers are found by searching for whole words, ignoring case. The Chinese alternatives of the patterns can
  only match code points above 255, which a \<open>char\<close> does not have; the word characters are those of Python's
  \<open>re\<close> among the first 256 code points. Both errors of the conversion, \<open>WorkPackagePlanError\<close> and pydantic's
  \<open>ValidationError\<close>, are \<open>ValueError\<close>s; they are kept apart because only the first is the documented way to reject a plan.
\<close>

section \<open>Data\<close>

record work_package =
  wp_id :: task_id
  wp_objective :: string
  wp_deliverable :: string
  owned_paths :: "string list"
  readable_paths :: "string list"
  wp_produces :: "string list"
  wp_consumes :: "string list"
  wp_acceptance_criteria :: "string list"
  wp_verification_commands :: "string list"
  estimated_complexity :: planning_complexity
  wp_token_budget :: int

record interface_contract =
  interface_id :: string
  producer_package_id :: task_id
  consumer_package_ids :: "task_id list"

datatype work_package_routing_mode = SINGLE | MULTI

record work_package_routing_audit =
  routing_mode :: work_package_routing_mode
  routing_reasons :: "string list"
  routing_layers :: "string list"
  package_count :: int

record work_package_planning_result =
  wr_dag :: task_dag
  wr_interface_contracts :: "interface_contract list"
  wr_budget_allocations :: "task_budget_allocation list"
  wr_complexity_assessments :: "planning_complexity_assessment list"
  wr_routing_audit :: work_package_routing_audit

datatype plan_error = WorkPackagePlanError string | PlanValidation exn

type_synonym 'a plan_res = "plan_error + 'a"

definition bind_plan :: "'a plan_res \<Rightarrow> ('a \<Rightarrow> 'b plan_res) \<Rightarrow> 'b plan_res" where
  "bind_plan m f = (case m of Inl e \<Rightarrow> Inl e | Inr x \<Rightarrow> f x)"

definition validated :: "'a res \<Rightarrow> 'a plan_res" where
  "validated m = (case m of Inl e \<Rightarrow> Inl (PlanValidation e) | Inr x \<Rightarrow> Inr x)"

section \<open>Validation of a proposal\<close>

definition normalize_paths :: "string list \<Rightarrow> string list res" where
  "normalize_paths values = bind_res (map_res normalize_scope_pattern values) (\<lambda>normalized.
     if \<not> distinct normalized then Inl (ValueError ''work package paths must not contain duplicates'') else Inr normalized)"

definition normalize_items :: "string list \<Rightarrow> string list res" where
  "normalize_items values = bind_res (map_res normalize_non_empty_text values) (\<lambda>normalized.
     if \<not> distinct normalized then Inl (ValueError ''work package declarations must not contain duplicates'') else Inr normalized)"

definition validate_boundaries :: "work_package \<Rightarrow> work_package res" where
  "validate_boundaries p =
     (if set (owned_paths p) \<inter> set (readable_paths p) \<noteq> {}
      then Inl (ValueError ''owned_paths and readable_paths must not overlap'')
      else if estimated_complexity p = planning_complexity.LOW \<and> wp_token_budget p > 4000
      then Inl (ValueError ''LOW work packages may not request more than 4000 tokens'')
      else Inr p)"

definition between :: "nat \<Rightarrow> nat \<Rightarrow> 'a list \<Rightarrow> bool" where
  "between a b xs = (a \<le> length xs \<and> length xs \<le> b)"

definition WorkPackage :: "work_package \<Rightarrow> work_package res" where
  "WorkPackage raw =
     (if \<not> package_id_ok (wp_id raw) then Inl (ValueError ''package_id'')
      else if \<not> between 1 1500 (wp_objective raw) then Inl (ValueError ''objective'')
      else if \<not> between 1 256 (wp_deliverable raw) then Inl (ValueError ''deliverable'')
      else if \<not> between 1 5 (owned_paths raw) then Inl (ValueError ''owned_paths'')
      else if \<not> between 0 32 (readable_paths raw) then Inl (ValueError ''readable_paths'')
      else if \<not> between 1 16 (wp_produces raw) then Inl (ValueError ''produces'')
      else if \<not> between 0 16 (wp_consumes raw) then Inl (ValueError ''consumes'')
      else if \<not> between 1 4 (wp_acceptance_criteria raw) then Inl (ValueError ''acceptance_criteria'')
      else if \<not> between 1 3 (wp_verification_commands raw) then Inl (ValueError ''verification_commands'')
      else if \<not> (1000 \<le> wp_token_budget raw \<and> wp_token_budget raw \<le> 20000) then Inl (ValueError ''recommended_token_budget'')
      else
        bind_res (normalize_non_empty_text (wp_objective raw)) (\<lambda>obj.
        bind_res (normalize_non_empty_text (wp_deliverable raw)) (\<lambda>del.
        bind_res (normalize_paths (owned_paths raw)) (\<lambda>owned.
        bind_res (normalize_paths (readable_paths raw)) (\<lambda>rd.
        bind_res (normalize_items (wp_produces raw)) (\<lambda>prod.
        bind_res (normalize_items (wp_consumes raw)) (\<lambda>cons.
        bind_res (normalize_items (wp_acceptance_criteria raw)) (\<lambda>ac.
        bind_res (normalize_items (wp_verification_commands raw)) (\<lambda>vc.
          validate_boundaries (raw\<lparr>wp_objective := obj, wp_deliverable := del, owned_paths := owned, readable_paths := rd,
            wp_produces := prod, wp_consumes := cons, wp_acceptance_criteria := ac, wp_verification_commands := vc\<rparr>))))))))))"

text \<open>A plan is its tuple of packages.\<close>

definition validate_unique_packages_and_interfaces :: "work_package list \<Rightarrow> work_package list res" where
  "validate_unique_packages_and_interfaces packages =
     (if \<not> distinct (map wp_id packages) then Inl (ValueError ''work package ids must be unique'')
      else if \<not> distinct (concat (map wp_produces packages))
      then Inl (ValueError ''each produced interface must have exactly one producer'')
      else Inr packages)"

definition WorkPackagePlan :: "work_package list \<Rightarrow> work_package list res" where
  "WorkPackagePlan raw =
     (if \<not> between 1 16 raw then Inl (ValueError ''packages'')
      else bind_res (map_res WorkPackage raw) validate_unique_packages_and_interfaces)"

section \<open>Delivery layers\<close>

definition word_char :: "char \<Rightarrow> bool" where
  "word_char c = (let n = (of_char c :: nat) in
     ascii_alnum c \<or> c = CHR ''_'' \<or> n \<in> {0xAA, 0xB2, 0xB3, 0xB5, 0xB9, 0xBA, 0xBC, 0xBD, 0xBE} \<or>
     0xC0 \<le> n \<and> n \<noteq> 0xD7 \<and> n \<noteq> 0xF7)"

text \<open>A word that starts here and ends at a word boundary.\<close>

definition word_at :: "string \<Rightarrow> string \<Rightarrow> bool" where
  "word_at w s = (map lower_char (take (length w) s) = w \<and>
     (case drop (length w) s of [] \<Rightarrow> True | c # _ \<Rightarrow> \<not> word_char c))"

text \<open>\<open>re.search\<close> of \<open>\b(w1|w2|...)\b\<close>, with whether the previous character is a word character.\<close>

fun search_words :: "string list \<Rightarrow> bool \<Rightarrow> string \<Rightarrow> bool" where
  "search_words ws inside [] = False"
| "search_words ws inside (c # s) =
     (\<not> inside \<and> list_ex (\<lambda>w. word_at w (c # s)) ws \<or> search_words ws (word_char c) s)"

definition DELIVERY_LAYERS :: "(string \<times> string list) list" where
  "DELIVERY_LAYERS =
     [(''ui'', [''ui'', ''frontend'', ''react'', ''vue'', ''html'', ''css'']),
      (''data'', [''database'', ''storage'', ''model'', ''schema'']),
      (''algorithm'', [''ai'', ''algorithm'', ''search'', ''heuristic'']),
      (''interface'', [''api'', ''endpoint'', ''route'', ''server''])]"

definition layers_in :: "string \<Rightarrow> string list" where
  "layers_in s = map fst (filter (\<lambda>(name, ws). search_words ws False s) DELIVERY_LAYERS)"

definition delivery_layers :: "string \<Rightarrow> string list" where
  "delivery_layers requirement = layers_in (strip requirement)"

definition deliverable_text :: "work_package \<Rightarrow> string" where
  "deliverable_text p = wp_objective p @ [CHR 0x0A] @ wp_deliverable p"

definition validate_single_deliverable :: "work_package \<Rightarrow> unit plan_res" where
  "validate_single_deliverable p =
     (if length (layers_in (deliverable_text p)) \<ge> 2
      then Inl (WorkPackagePlanError ''combines multiple delivery layers; split it into one primary deliverable per work package.'')
      else Inr ())"

section \<open>Conversion\<close>

text \<open>\<open>produced_by\<close>, in the order of insertion; a plan has one producer for each interface.\<close>

definition produced_by :: "work_package list \<Rightarrow> (string \<times> task_id) list" where
  "produced_by packages = concat (map (\<lambda>p. map (\<lambda>i. (i, wp_id p)) (wp_produces p)) packages)"

definition repository_interface :: "string \<Rightarrow> bool" where
  "repository_interface i = (take 11 i = ''repository:'')"

fun check_consumes :: "(string \<times> task_id) list \<Rightarrow> task_id \<Rightarrow> string list \<Rightarrow> unit plan_res" where
  "check_consumes made pid [] = Inr ()"
| "check_consumes made pid (i # is) =
     (if repository_interface i then check_consumes made pid is
      else (case map_of made i of
        None \<Rightarrow> Inl (WorkPackagePlanError ''consumes undeclared interface'')
      | Some producer \<Rightarrow>
          if producer = pid then Inl (WorkPackagePlanError ''cannot consume its own produced interface'')
          else check_consumes made pid is))"

fun check_packages :: "(string \<times> task_id) list \<Rightarrow> work_package list \<Rightarrow> unit plan_res" where
  "check_packages made [] = Inr ()"
| "check_packages made (p # ps) =
     bind_plan (validate_single_deliverable p) (\<lambda>_.
     bind_plan (check_consumes made (wp_id p) (wp_consumes p)) (\<lambda>_. check_packages made ps))"

definition declared_weight :: "planning_complexity \<Rightarrow> int" where
  "declared_weight c = (case c of planning_complexity.LOW \<Rightarrow> 5 | planning_complexity.MEDIUM \<Rightarrow> 20 | planning_complexity.HIGH \<Rightarrow> 40)"

definition package_score :: "work_package \<Rightarrow> int" where
  "package_score p = int (length (owned_paths p)) * 5 + int (length (wp_consumes p)) * 4 +
     int (length (wp_verification_commands p)) * 3 + declared_weight (estimated_complexity p)"

definition package_assessment :: "work_package \<Rightarrow> planning_complexity_assessment res" where
  "package_assessment p = PlanningComplexityAssessment
     \<lparr>pca_package_id = wp_id p, pca_complexity = estimated_complexity p, score = package_score p,
      reasons = [''owned_paths='' @ dec (length (owned_paths p)), ''consumes='' @ dec (length (wp_consumes p)),
        ''verification_commands='' @ dec (length (wp_verification_commands p)),
        ''declared_complexity='' @ complexity_value (estimated_complexity p)]\<rparr>"

definition package_allocation :: "work_package \<Rightarrow> task_budget_allocation res" where
  "package_allocation p = TaskBudgetAllocation \<lparr>tba_package_id = wp_id p, recommended_token_budget = wp_token_budget p\<rparr>"

definition package_dependencies :: "(string \<times> task_id) list \<Rightarrow> work_package \<Rightarrow> task_id list" where
  "package_dependencies made p = sorted_list_of_set (set (List.map_filter (map_of made) (wp_consumes p)))"

definition package_node ::
    "(string \<times> task_id) list \<Rightarrow> work_package \<times> planning_complexity_assessment \<Rightarrow> task_node res" where
  "package_node made pa = (case pa of (p, a) \<Rightarrow>
     bind_res (package_allocation p) (\<lambda>ba.
     TaskNode \<lparr>task = \<lparr>tc_task_id = wp_id p, objective = wp_objective p, readable_files = readable_paths p,
        writable_files = owned_paths p, readonly_files = [], acceptance_criteria = wp_acceptance_criteria p,
        verification_commands = wp_verification_commands p,
        max_retries = (if estimated_complexity p \<noteq> planning_complexity.LOW then 2 else 1)\<rparr>,
      depends_on = package_dependencies made p, execution_mode = AGENT, produces = wp_produces p,
      consumes = wp_consumes p, complexity = Some (estimated_complexity p), budget_allocation = Some ba,
      complexity_assessment = Some a, resume_context = None\<rparr>))"

definition InterfaceContract :: "interface_contract \<Rightarrow> interface_contract res" where
  "InterfaceContract c =
     (if \<not> between 1 256 (interface_id c) then Inl (ValueError ''interface_id'')
      else if \<not> package_id_ok (producer_package_id c) then Inl (ValueError ''producer_package_id'')
      else Inr c)"

definition interface_of :: "work_package list \<Rightarrow> string \<times> task_id \<Rightarrow> interface_contract res" where
  "interface_of packages entry = InterfaceContract
     \<lparr>interface_id = fst entry, producer_package_id = snd entry,
      consumer_package_ids = map wp_id (filter (\<lambda>p. fst entry \<in> set (wp_consumes p)) packages)\<rparr>"

section \<open>Routing audit\<close>

definition WorkPackageRoutingAudit :: "work_package_routing_audit \<Rightarrow> work_package_routing_audit res" where
  "WorkPackageRoutingAudit a =
     (if \<not> between 1 8 (routing_reasons a) then Inl (ValueError ''reasons'')
      else if \<not> between 0 4 (routing_layers a) then Inl (ValueError ''delivery_layers'')
      else if \<not> (1 \<le> package_count a \<and> package_count a \<le> 32) then Inl (ValueError ''package_count'')
      else Inr a)"

fun join :: "string \<Rightarrow> string list \<Rightarrow> string" where
  "join sep [] = []"
| "join sep [x] = x"
| "join sep (x # y # xs) = x @ sep @ join sep (y # xs)"

fun overlaps :: "string list list \<Rightarrow> nat" where
  "overlaps [] = 0"
| "overlaps (left # rest) = length (filter (\<lambda>right. set left \<inter> set right \<noteq> {}) rest) + overlaps rest"

definition routing_audit :: "work_package list \<Rightarrow> string list \<Rightarrow> work_package_routing_audit res" where
  "routing_audit packages layers =
     (let owned_roots = remdups (map (\<lambda>path. hd (split_on CHR ''/'' path))
            (filter (\<lambda>path. CHR ''/'' \<in> set path) (concat (map owned_paths packages))));
          dependencies = sum_list (map (length \<circ> wp_consumes) packages);
          verification_sets = remdups (map (sort \<circ> wp_verification_commands) packages);
          parallel_packages = length (filter (\<lambda>p. wp_consumes p = []) packages);
          overlap = overlaps (map readable_paths packages);
          single = (length packages = 1)
      in WorkPackageRoutingAudit
        \<lparr>routing_mode = (if single then SINGLE else MULTI),
         routing_reasons =
           [''delivery_layers='' @ (if layers = [] then ''none'' else join '','' layers),
            ''owned_path_roots='' @ dec (length owned_roots),
            ''declared_interface_dependencies='' @ dec dependencies,
            ''independent_verification_sets='' @ dec (length verification_sets),
            ''parallel_candidates='' @ dec parallel_packages @ ''; readable_overlap='' @ dec overlap,
            (if single then ''one bounded ownership/interface boundary; kept as a single package''
             else ''Planner declared independent ownership/interface boundaries'')],
         routing_layers = layers, package_count = int (length packages)\<rparr>)"

definition plan_graph :: "task_node list \<Rightarrow> task_dag plan_res" where
  "plan_graph nodes = (case TaskDAG nodes of
     Inl (ValueError s) \<Rightarrow> Inl (WorkPackagePlanError s) | Inl e \<Rightarrow> Inl (PlanValidation e) | Inr g \<Rightarrow> Inr g)"

definition validate_and_convert ::
    "bool \<Rightarrow> work_package list \<Rightarrow> string \<Rightarrow> int \<Rightarrow> work_package_planning_result plan_res" where
  "validate_and_convert adaptive packages requirement max_tasks =
     (if int (length packages) > max_tasks then Inl (WorkPackagePlanError ''WorkPackagePlan contains too many packages'')
      else if \<not> adaptive \<and> length (strip requirement) > 180 \<and> length packages < 3
      then Inl (WorkPackagePlanError ''Legacy routing requires a long requirement to be split into at least three packages.'')
      else
        let made = produced_by packages in
        bind_plan (check_packages made packages) (\<lambda>_.
        bind_plan (validated (map_res package_assessment packages)) (\<lambda>assessments.
        bind_plan (validated (map_res (package_node made) (zip packages assessments))) (\<lambda>nodes.
        bind_plan (plan_graph nodes) (\<lambda>graph.
        bind_plan (validated (map_res (interface_of packages) (sort_key fst made))) (\<lambda>contracts.
        bind_plan (validated (map_res package_allocation packages)) (\<lambda>allocations.
        bind_plan (validated (routing_audit packages (delivery_layers requirement))) (\<lambda>audit.
          Inr \<lparr>wr_dag = graph, wr_interface_contracts = contracts, wr_budget_allocations = allocations,
            wr_complexity_assessments = assessments, wr_routing_audit = audit\<rparr>))))))))"

section \<open>Complexity of a task\<close>

record task_complexity =
  tx_task_id :: task_id
  tx_score :: nat
  tx_reasons :: "string list"

definition oversized :: "task_complexity \<Rightarrow> bool" where
  "oversized x = (tx_score x \<ge> 6)"

text \<open>One signal of the assessment: what it adds to the score and the reason it gives.\<close>

definition signal :: "nat \<Rightarrow> string \<Rightarrow> nat \<times> string list \<Rightarrow> nat \<times> string list" where
  "signal k reason acc = (fst acc + k, snd acc @ [reason])"

definition assess_task_complexity :: "task_contract \<Rightarrow> task_complexity" where
  "assess_task_complexity t =
     (let writable_count = length (writable_files t);
          broad_scopes = length (filter (\<lambda>path. CHR ''*'' \<in> set path) (writable_files t));
          criteria = length (acceptance_criteria t);
          a1 = (if length (objective t) > 900 then signal 2 ''objective is longer than 900 characters'' (0, [])
                else if length (objective t) > 450 then signal 1 ''objective is longer than 450 characters'' (0, []) else (0, []));
          owns = ''owns '' @ dec writable_count @ '' writable scopes'';
          a2 = (if writable_count > 4 then signal 3 owns a1 else if writable_count > 2 then signal 1 owns a1 else a1);
          a3 = (if broad_scopes \<noteq> 0 then signal (min 2 broad_scopes) ''writable scope uses broad glob patterns'' a2 else a2);
          has = ''contains '' @ dec criteria @ '' acceptance criteria'';
          a4 = (if criteria > 4 then signal 2 has a3 else if criteria > 2 then signal 1 has a3 else a3);
          a5 = (if length (verification_commands t) > 3
                then signal 1 (''requires '' @ dec (length (verification_commands t)) @ '' verification commands'') a4 else a4)
      in \<lparr>tx_task_id = tc_task_id t, tx_score = fst a5, tx_reasons = snd a5\<rparr>)"

definition assess_dag_complexity :: "task_dag \<Rightarrow> task_complexity list" where
  "assess_dag_complexity graph = map (assess_task_complexity \<circ> task) (tasks graph)"

definition oversized_tasks :: "task_complexity list \<Rightarrow> task_complexity list" where
  "oversized_tasks report = filter oversized report"

definition acceptable :: "task_complexity list \<Rightarrow> bool" where
  "acceptable report = (oversized_tasks report = [])"

section \<open>Lemmas\<close>

lemma bind_plan_simps [simp]: "bind_plan (Inl e) f = Inl e" "bind_plan (Inr x) f = f x"
  by (simp_all add: bind_plan_def)

lemma bind_plan_eq_Inr: "bind_plan m f = Inr y \<longleftrightarrow> (\<exists>x. m = Inr x \<and> f x = Inr y)"
  by (cases m) simp_all

lemma validated_Inr [simp]: "validated m = Inr x \<longleftrightarrow> m = Inr x"
  by (cases m) (simp_all add: validated_def)

lemma task_id_pattern_chars: "task_id_pattern s \<Longrightarrow> c \<in> set s \<Longrightarrow> \<not> is_space c"
proof -
  assume s: "task_id_pattern s" "c \<in> set s"
  have alnum: "ascii_alnum d \<Longrightarrow> \<not> is_space d" for d by (auto simp: ascii_alnum_def is_space_def Let_def)
  have "\<not> is_space CHR ''.''" "\<not> is_space CHR ''_''" "\<not> is_space CHR ''-''" by code_simp+
  then have punct: "d \<in> set ''._-'' \<Longrightarrow> \<not> is_space d" for d by auto
  from s have "c = hd s \<and> ascii_alnum (hd s) \<or> ascii_alnum c \<or> c \<in> set ''._-''"
    by (cases s) (auto simp: task_id_pattern_def list_all_iff simp del: list.set dest!: set_ConsD)
  then show ?thesis using alnum punct by blast
qed

lemma package_id_dependency: "package_id_ok s \<Longrightarrow> validate_dependency s = Inr s"
proof -
  assume ok: "package_id_ok s"
  then have p: "task_id_pattern s" and ne: "s \<noteq> []" by (auto simp: package_id_ok_def task_id_pattern_def)
  have "strip s = s" using task_id_pattern_chars [OF p] ne by (intro strip_id) auto
  with ok ne p show ?thesis by (simp add: validate_dependency_def package_id_ok_def)
qed

subsection \<open>Plans\<close>

lemma WorkPackage_Inr:
  assumes "WorkPackage raw = Inr p"
  shows "package_id_ok (wp_id p)"
proof -
  have b: "validate_boundaries q = Inr p \<Longrightarrow> p = q" for q by (simp add: validate_boundaries_def split: if_splits)
  from assms have "package_id_ok (wp_id raw)" and "\<exists>q. validate_boundaries q = Inr p \<and> wp_id q = wp_id raw"
    unfolding WorkPackage_def by (simp_all add: bind_res_eq_Inr split: if_split_asm) (elim exE conjE, rule exI, rule conjI, assumption, simp)
  then show ?thesis by (metis b)
qed

lemma WorkPackagePlan_Inr:
  assumes "WorkPackagePlan raw = Inr ps"
  shows "between 1 16 ps" and "\<And>p. p \<in> set ps \<Longrightarrow> package_id_ok (wp_id p)"
    and "distinct (map wp_id ps)" and "distinct (concat (map wp_produces ps))"
proof -
  from assms obtain qs where q: "map_res WorkPackage raw = Inr qs" "validate_unique_packages_and_interfaces qs = Inr ps"
    and b: "between 1 16 raw"
    by (auto simp: WorkPackagePlan_def bind_res_eq_Inr split: if_splits)
  from q(2) have ps: "qs = ps" and d: "distinct (map wp_id ps)" "distinct (concat (map wp_produces ps))"
    by (auto simp: validate_unique_packages_and_interfaces_def split: if_splits)
  from d show "distinct (map wp_id ps)" "distinct (concat (map wp_produces ps))" .
  show "between 1 16 ps" using b map_res_length [OF q(1)] by (simp add: between_def ps)
  show "package_id_ok (wp_id p)" if "p \<in> set ps" for p
    using q(1) that WorkPackage_Inr by (auto simp: ps map_res_Inr_iff list_all2_conv_all_nth in_set_conv_nth)
qed

lemma produced_keys: "map fst (produced_by ps) = concat (map wp_produces ps)"
  by (simp add: produced_by_def map_concat o_def)

lemma produced_iff:
  assumes "distinct (concat (map wp_produces ps))"
  shows "map_of (produced_by ps) i = Some q \<longleftrightarrow> (\<exists>p \<in> set ps. wp_id p = q \<and> i \<in> set (wp_produces p))"
proof -
  have "distinct (map fst (produced_by ps))" using assms by (simp add: produced_keys)
  then have "map_of (produced_by ps) i = Some q \<longleftrightarrow> (i, q) \<in> set (produced_by ps)" by (simp add: eq_commute)
  then show ?thesis by (auto simp: produced_by_def)
qed

lemma check_consumes_Inr:
  "check_consumes made pid is = Inr () \<longleftrightarrow>
     (\<forall>i \<in> set is. repository_interface i \<or> (\<exists>q. map_of made i = Some q \<and> q \<noteq> pid))"
  by (induction made pid "is" rule: check_consumes.induct) (auto split: option.splits)

lemma check_packages_Inr:
  "check_packages made ps = Inr () \<longleftrightarrow>
     (\<forall>p \<in> set ps. length (layers_in (deliverable_text p)) \<le> 1 \<and> check_consumes made (wp_id p) (wp_consumes p) = Inr ())"
  by (induction made ps rule: check_packages.induct) (auto simp: bind_plan_eq_Inr validate_single_deliverable_def)

lemma package_dependencies_set:
  assumes "distinct (concat (map wp_produces ps))"
  shows "set (package_dependencies (produced_by ps) p) = {wp_id q | q. q \<in> set ps \<and> set (wp_produces q) \<inter> set (wp_consumes p) \<noteq> {}}"
proof -
  have "set (package_dependencies (produced_by ps) p) = {q. \<exists>i \<in> set (wp_consumes p). map_of (produced_by ps) i = Some q}"
    by (force simp: package_dependencies_def List.map_filter_def)
  then show ?thesis by (auto simp: produced_iff [OF assms])
qed

lemma package_node_Inr:
  assumes "package_node made (p, a) = Inr n" and "\<And>d. d \<in> set (package_dependencies made p) \<Longrightarrow> package_id_ok d"
  shows "node_ok n" and "node_id n = wp_id p" and "depends_on n = package_dependencies made p"
    and "complexity_assessment n = Some a"
proof -
  from assms(1) obtain raw where raw: "TaskNode raw = Inr n" and id: "tc_task_id (task raw) = wp_id p"
    and deps: "depends_on raw = package_dependencies made p" and ca: "complexity_assessment raw = Some a"
    by (auto simp: package_node_def bind_res_eq_Inr)
  note t = TaskNode_Inr [OF raw]
  show "node_ok n" by (rule TaskNode_ok [OF raw])
  show "node_id n = wp_id p" using TaskContract_cases(4) [OF t(2)] id by simp
  have "validate_dependencies (depends_on raw) = Inr (depends_on raw)"
    using assms(2) package_id_dependency by (auto simp: validate_dependencies_fixed deps) (simp add: package_dependencies_def)
  then show "depends_on n = package_dependencies made p" using t(3) deps by simp
  show "complexity_assessment n = Some a" using ca by (subst t(1)) simp
qed

lemma TaskDAG_fixed:
  assumes "TaskDAG ns = Inr g" and "\<And>n. n \<in> set ns \<Longrightarrow> node_ok n"
  shows "g = \<lparr>tasks = ns\<rparr>"
proof -
  have "map_res TaskNode ns = Inr ns" using assms(2) by (simp add: map_res_fixed node_ok_def)
  then show ?thesis using assms(1) by (auto simp: TaskDAG_def dest: validate_graph_Inr split: if_splits)
qed
subsection \<open>Conversions\<close>

lemma list_all2_member: "list_all2 P xs ys \<Longrightarrow> y \<in> set ys \<Longrightarrow> \<exists>x \<in> set xs. P x y"
  by (induction rule: list_all2_induct) auto

lemma plan_graph_Inr: "plan_graph ns = Inr g \<longleftrightarrow> TaskDAG ns = Inr g"
  by (auto simp: plan_graph_def split: sum.splits exn.splits)

lemma InterfaceContract_same: "InterfaceContract c = Inr d \<Longrightarrow> d = c"
  by (auto simp: InterfaceContract_def split: if_splits)

lemma convert_Inr:
  assumes "WorkPackagePlan raw = Inr ps" and "validate_and_convert adaptive ps requirement k = Inr r"
  shows "int (length ps) \<le> k" and "check_packages (produced_by ps) ps = Inr ()"
    and "TaskDAG (tasks (wr_dag r)) = Inr (wr_dag r)"
    and "list_all2 (\<lambda>p n. node_id n = wp_id p \<and> depends_on n = package_dependencies (produced_by ps) p) ps (tasks (wr_dag r))"
    and "list_all2 (\<lambda>e c. interface_id c = fst e \<and> producer_package_id c = snd e \<and>
      consumer_package_ids c = map wp_id (filter (\<lambda>p. fst e \<in> set (wp_consumes p)) ps)) (sort_key fst (produced_by ps)) (wr_interface_contracts r)"
    and "map_res package_assessment ps = Inr (wr_complexity_assessments r)"
proof -
  let ?made = "produced_by ps"
  note plan = WorkPackagePlan_Inr [OF assms(1)]
  from assms(2) obtain as ns cs where len: "int (length ps) \<le> k" and chk: "check_packages ?made ps = Inr ()"
    and as: "map_res package_assessment ps = Inr as" and ns: "map_res (package_node ?made) (zip ps as) = Inr ns"
    and g: "TaskDAG ns = Inr (wr_dag r)" and cs: "map_res (interface_of ps) (sort_key fst ?made) = Inr cs"
    and r: "wr_complexity_assessments r = as" "wr_interface_contracts r = cs"
    unfolding validate_and_convert_def Let_def
    by (auto simp: bind_plan_eq_Inr plan_graph_Inr split: if_splits)
  have dep: "package_id_ok d" if "d \<in> set (package_dependencies ?made p)" for d p
    using that plan(2) by (auto simp: package_dependencies_set [OF plan(4)])
  have "list_all2 (\<lambda>pa n. package_node ?made pa = Inr n) (zip ps as) ns" using ns by (simp add: map_res_Inr_iff)
  then have nodes: "list_all2 (\<lambda>p n. node_ok n \<and> node_id n = wp_id p \<and> depends_on n = package_dependencies ?made p) ps ns"
    using map_res_length [OF as] package_node_Inr(1-3) [OF _ dep] by (auto simp: list_all2_conv_all_nth)
  have "node_ok n" if "n \<in> set ns" for n using nodes that by (auto simp: list_all2_conv_all_nth in_set_conv_nth)
  then have dag: "wr_dag r = \<lparr>tasks = ns\<rparr>" by (rule TaskDAG_fixed [OF g])
  show "int (length ps) \<le> k" "check_packages ?made ps = Inr ()" by (rule len, rule chk)
  show "TaskDAG (tasks (wr_dag r)) = Inr (wr_dag r)" using g by (simp add: dag)
  show "list_all2 (\<lambda>p n. node_id n = wp_id p \<and> depends_on n = package_dependencies ?made p) ps (tasks (wr_dag r))"
    using list_all2_mono [OF nodes] by (simp add: dag)
  have "list_all2 (\<lambda>e c. interface_of ps e = Inr c) (sort_key fst ?made) cs" using cs by (simp add: map_res_Inr_iff)
  then show "list_all2 (\<lambda>e c. interface_id c = fst e \<and> producer_package_id c = snd e \<and>
      consumer_package_ids c = map wp_id (filter (\<lambda>p. fst e \<in> set (wp_consumes p)) ps)) (sort_key fst ?made) (wr_interface_contracts r)"
    unfolding r by (rule list_all2_mono) (auto simp: interface_of_def dest!: InterfaceContract_same)
  show "map_res package_assessment ps = Inr (wr_complexity_assessments r)" using as r by simp
qed

section \<open>Properties\<close>

text \<open>C15. A converted plan is executable and says what the proposal said. The graph is a valid task graph within the limit, with
  one task for each package in the order of the plan; a task depends on exactly the packages that produce an interface it
  consumes. Every consumed interface is an existing one of the repository or is produced by another package, which comes before
  its consumer in the topological order. There is one interface contract for each produced interface, in the order of the ids,
  with its producer and its consumers, and no package spans two delivery layers.\<close>

theorem work_package_plan_correct:
  assumes "WorkPackagePlan raw = Inr ps" and "validate_and_convert adaptive ps requirement k = Inr r"
  shows "TaskDAG (tasks (wr_dag r)) = Inr (wr_dag r) \<and> task_ids (wr_dag r) = map wp_id ps \<and> int (length ps) \<le> k \<and>
    (\<forall>p \<in> set ps. length (layers_in (deliverable_text p)) \<le> 1 \<and>
       deps_of (wr_dag r) (wp_id p) = {wp_id q | q. q \<in> set ps \<and> set (wp_produces q) \<inter> set (wp_consumes p) \<noteq> {}} \<and>
       (\<forall>i \<in> set (wp_consumes p). repository_interface i \<or> (\<exists>q \<in> set ps. i \<in> set (wp_produces q) \<and>
          index_of (topo (wr_dag r)) (wp_id q) < index_of (topo (wr_dag r)) (wp_id p)))) \<and>
    map interface_id (wr_interface_contracts r) = sort (concat (map wp_produces ps)) \<and>
    (\<forall>c \<in> set (wr_interface_contracts r). \<exists>p \<in> set ps. interface_id c \<in> set (wp_produces p) \<and>
       producer_package_id c = wp_id p \<and>
       consumer_package_ids c = map wp_id (filter (\<lambda>q. interface_id c \<in> set (wp_consumes q)) ps))"
proof -
  note plan = WorkPackagePlan_Inr [OF assms(1)] and conv = convert_Inr [OF assms]
  let ?g = "wr_dag r" and ?made = "produced_by ps"
  have v: "dag_valid ?g" by (rule TaskDAG_valid [OF conv(3)])
  have nodes: "length (tasks ?g) = length ps" "\<And>i. i < length ps \<Longrightarrow> node_id (tasks ?g ! i) = wp_id (ps ! i) \<and>
      depends_on (tasks ?g ! i) = package_dependencies ?made (ps ! i)"
    using conv(4) by (auto simp: list_all2_conv_all_nth)
  have ids: "task_ids ?g = map wp_id ps" unfolding task_ids_def by (rule nth_equalityI) (use nodes in simp_all)
  have deps: "deps_of ?g (wp_id p) = {wp_id q | q. q \<in> set ps \<and> set (wp_produces q) \<inter> set (wp_consumes p) \<noteq> {}}"
    if "p \<in> set ps" for p
  proof -
    from that obtain i where i: "i < length ps" "p = ps ! i" by (auto simp: in_set_conv_nth)
    then have "deps_of ?g (wp_id p) = set (package_dependencies ?made p)"
      using dag_wf_node(2) [OF dag_valid_wf [OF v], of "tasks ?g ! i"] nodes by simp
    then show ?thesis by (simp add: package_dependencies_set [OF plan(4)])
  qed
  have before: "repository_interface i \<or> (\<exists>q \<in> set ps. i \<in> set (wp_produces q) \<and>
      index_of (topo ?g) (wp_id q) < index_of (topo ?g) (wp_id p))" if p: "p \<in> set ps" and i: "i \<in> set (wp_consumes p)" for p i
  proof (cases "repository_interface i")
    case False
    then obtain q where q: "q \<in> set ps" "i \<in> set (wp_produces q)"
      using conv(2) p i by (auto simp: check_packages_Inr check_consumes_Inr produced_iff [OF plan(4)])
    then have "wp_id q \<in> deps_of ?g (wp_id p)" using i by (auto simp: deps [OF p])
    then have "index_of (topo ?g) (wp_id q) < index_of (topo ?g) (wp_id p)"
      using p by (intro dag.order_index [OF v]) (simp_all add: ids)
    with q show ?thesis by blast
  qed simp
  have names: "map interface_id (wr_interface_contracts r) = sort (concat (map wp_produces ps))"
  proof -
    have "map interface_id (wr_interface_contracts r) = map fst (sort_key fst ?made)"
      using conv(5) by (auto simp: list_all2_conv_all_nth intro!: nth_equalityI)
    also have "\<dots> = sort (map fst ?made)" using sort_key_map [of id fst ?made] by (simp add: o_def id_def)
    finally show ?thesis by (simp add: produced_keys)
  qed
  have contracts: "\<exists>p \<in> set ps. interface_id c \<in> set (wp_produces p) \<and> producer_package_id c = wp_id p \<and>
      consumer_package_ids c = map wp_id (filter (\<lambda>q. interface_id c \<in> set (wp_consumes q)) ps)"
    if "c \<in> set (wr_interface_contracts r)" for c
  proof -
    from that conv(5) obtain e where e: "e \<in> set ?made" "interface_id c = fst e" "producer_package_id c = snd e"
      "consumer_package_ids c = map wp_id (filter (\<lambda>p. fst e \<in> set (wp_consumes p)) ps)"
      by (fastforce dest: list_all2_member)
    then show ?thesis by (auto simp: produced_by_def)
  qed
  show ?thesis using conv(1-3) ids deps before names contracts by (simp add: check_packages_Inr)
qed
text \<open>Three packages: two independent ones and a consumer of both, listed first.\<close>

definition demo_package :: "task_id \<Rightarrow> string list \<Rightarrow> string list \<Rightarrow> work_package" where
  "demo_package t made used = \<lparr>wp_id = t, wp_objective = ''do '' @ t, wp_deliverable = t,
     owned_paths = [t], readable_paths = [], wp_produces = made, wp_consumes = used,
     wp_acceptance_criteria = [''ok''], wp_verification_commands = [''pytest''],
     estimated_complexity = planning_complexity.MEDIUM, wp_token_budget = 6000\<rparr>"

definition demo_packages :: "work_package list" where
  "demo_packages = [demo_package ''p'' [''V''] [''G'', ''repository:c''],
     demo_package ''c'' [''G''] []]"

definition demo_result :: work_package_planning_result where
  "demo_result = projr (validate_and_convert True demo_packages ''x'' 8)"

theorem work_package_plan_correct_witness:
  "WorkPackagePlan demo_packages = Inr demo_packages \<and>
   validate_and_convert True demo_packages ''x'' 8 = Inr demo_result \<and>
   deps_of (wr_dag demo_result) ''p'' = {''c''} \<and>
   map interface_id (wr_interface_contracts demo_result) = [''G'', ''V'']"
proof -
  have p: "WorkPackagePlan demo_packages = Inr demo_packages" by code_simp
  have "\<not> isl (validate_and_convert True demo_packages ''x'' 8)" by code_simp
  then have r: "validate_and_convert True demo_packages ''x'' 8 = Inr demo_result" by (simp add: demo_result_def)
  have d: "{wp_id q | q. q \<in> set demo_packages \<and> set (wp_produces q) \<inter> set (wp_consumes (hd demo_packages)) \<noteq> {}} = {''c''}"
    by (force simp: demo_packages_def demo_package_def)
  have h: "hd demo_packages \<in> set demo_packages" "wp_id (hd demo_packages) = ''p''"
    by (simp_all add: demo_packages_def demo_package_def)
  have n: "sort (concat (map wp_produces demo_packages)) = [''G'', ''V'']" by code_simp
  note c = work_package_plan_correct [OF p r]
  from c h(1) have "deps_of (wr_dag demo_result) (wp_id (hd demo_packages)) =
    {wp_id q | q. q \<in> set demo_packages \<and> set (wp_produces q) \<inter> set (wp_consumes (hd demo_packages)) \<noteq> {}}" by blast
  then have "deps_of (wr_dag demo_result) ''p'' = {''c''}" unfolding d h(2) .
  moreover from c n have "map interface_id (wr_interface_contracts demo_result) = [''G'', ''V'']" by simp
  ultimately show ?thesis using p r by blast
qed

text \<open>C32. A package within every declared bound may be impossible to plan. The assessment of a package adds 5 for each owned path, 4
  for each consumed interface, 3 for each command and up to 40 for its complexity, at most 138, and is then validated against
  a maximum of 100: a plan with a package above it is rejected whatever else it says, and not by \<open>WorkPackagePlanError\<close>.\<close>

theorem wide_package_rejected:
  assumes "WorkPackagePlan raw = Inr ps" and "p \<in> set ps" and "100 < package_score p"
  shows "(\<exists>e. validate_and_convert adaptive ps requirement k = Inl e) \<and>
    (check_packages (produced_by ps) ps = Inr () \<and> int (length ps) \<le> k \<and> adaptive \<longrightarrow>
      (\<exists>m. validate_and_convert adaptive ps requirement k = Inl (PlanValidation (ValueError m))))"
proof -
  have errors: "package_assessment q = Inl e \<Longrightarrow> \<exists>m. e = ValueError m" for q e
    by (auto simp: package_assessment_def PlanningComplexityAssessment_def split: if_splits)
  have bad: "\<exists>e. package_assessment p = Inl e" using assms(3) by (auto simp: package_assessment_def PlanningComplexityAssessment_def)
  have "\<exists>m. map_res package_assessment qs = Inl (ValueError m)" if "p \<in> set qs" for qs
    using that bad errors by (induction qs) (fastforce simp: bind_res_def split: sum.splits)+
  then obtain m where m: "map_res package_assessment ps = Inl (ValueError m)" using assms(2) by blast
  have "validate_and_convert adaptive ps requirement k \<noteq> Inr r" for r
    using convert_Inr(6) [OF assms(1), of adaptive requirement k r] m by auto
  then have "\<exists>e. validate_and_convert adaptive ps requirement k = Inl e"
    by (cases "validate_and_convert adaptive ps requirement k") auto
  then show ?thesis using m by (simp add: validate_and_convert_def Let_def validated_def)
qed

definition demo_wide :: work_package where
  "demo_wide = (demo_package ''wide'' [''w''] (map (\<lambda>c. ''repository:'' @ [c]) ''abcdefg''))\<lparr>
     owned_paths := map (\<lambda>c. ''src/'' @ [c]) ''abcde'', wp_verification_commands := [''a'', ''b'', ''c''],
     estimated_complexity := planning_complexity.HIGH\<rparr>"

theorem wide_package_rejected_witness:
  "WorkPackagePlan [demo_wide] = Inr [demo_wide] \<and> package_score demo_wide = 102 \<and>
   (\<exists>m. validate_and_convert True [demo_wide] ''work'' 8 = Inl (PlanValidation (ValueError m)))"
proof -
  have p: "WorkPackagePlan [demo_wide] = Inr [demo_wide]" by code_simp
  have s: "package_score demo_wide = 102" by code_simp
  have c: "check_packages (produced_by [demo_wide]) [demo_wide] = Inr ()" by code_simp
  from wide_package_rejected [OF p, of demo_wide True "''work''" 8] p s c show ?thesis by simp
qed

end
