(* ===== verification/Spec2Isabelle.thy ===== *)
theory Spec2Isabelle
  imports Dag_Scheduler Planning_Budget Dispatch_Safety Orchestrator_Safety Merge_Safety Merge_Discipline Tool_Safety Wave_Safety Run_Reconciler_Safety Model_Agents
begin

text \<open>
  DevFlow: a verification development for the backend of a multi-agent coding platform (\<open>src/backend/app\<close>).

  \<^bold>\<open>The program.\<close> A development requirement becomes a set of work packages (a planner agent), these become a graph of
  tasks, and each task has a contract that says which files it may write and how it is verified. A Run persists the graph in
  PostgreSQL. Ready tasks are dispatched to workers through a broker; a worker takes a lease on its task, develops in a Git
  worktree of its own, and hands over evidence behind a fencing token. Within one task an orchestrator loops over develop,
  verify, review and repair. Finished tasks are merged by a queue in topological order. Token budgets bound what the agents may
  spend. After a crash the leases, the dispatch ledger and the evidence decide what each task needs and from which commit
  it starts.

  \<^bold>\<open>The theories\<close>, in the order of the data flow. Paths are under \<open>src/backend/app\<close>.

  \<^item> \<open>DevFlow_Prelude\<close>: exceptions as values, the result monad, Python string operations, and the locale
    \<open>transition_system\<close> (reachable states satisfy an invariant that every step keeps).
  \<^item> \<open>Task_Contract\<close> (\<open>models/task.py\<close>, \<open>workspace/scope.py\<close>): contracts and the write-scope gate. Globs match segment by segment;
    the gate passes exactly the changed files inside the writable and outside the read-only scope.
  \<^item> \<open>Task_Dag\<close> (\<open>models/dag.py\<close>): the graph, its validators, Kahn's order, readiness and blocking. The locale \<open>dag_order\<close> states what
    a valid graph promises its clients; the order is the greedy one and exists exactly when the graph has no cycle.
  \<^item> \<open>Dag_Scheduler\<close> (\<open>runtime/scheduler.py\<close>): the in-memory scheduler. No task starts before its dependencies, a failure blocks
    exactly what depends on it, and an unfinished schedule can always go on.
  \<^item> \<open>Work_Packages\<close> (\<open>models/work_package.py\<close>, \<open>planning/\<close>): validation of a proposal and its conversion into a graph whose edges are
    the declared interfaces.
  \<^item> \<open>Model_Agents\<close> (\<open>agents/planner.py\<close>, \<open>agents/dag_planner.py\<close>, \<open>agents/reviewer.py\<close>): the agents that ask a model for one answer.
    The locale \<open>schema_repair\<close> bounds their calls and says what they accept; it is interpreted on all three.
  \<^item> \<open>Reservation_Ledger\<close>, \<open>Token_Budget\<close>, \<open>Planning_Budget\<close> (\<open>persistence/token_budget.py\<close>, \<open>persistence/planning_budget.py\<close>): the locale
    \<open>reservation_ledger\<close> derives from the moves of an account that it is never overspent; both stores are interpretations.
  \<^item> \<open>Runtime_Events\<close>, \<open>Task_Lease\<close>, \<open>Evidence_Store\<close>, \<open>Store_Safety\<close> (\<open>persistence/events.py\<close>, \<open>persistence/leases.py\<close>, \<open>persistence/fencing.py\<close>,
    \<open>persistence/repository.py\<close>): the store as a step relation of its transactions. Evidence is written only behind the current token, the
    store refines an abstract lease protocol, the log is contiguous, and a finalized Run does not change.
  \<^item> \<open>Dispatch_Ledger\<close>, \<open>Reconciliation\<close>, \<open>Dispatch_Safety\<close> (\<open>persistence/dispatch.py\<close>, \<open>dispatch/durable.py\<close>, \<open>persistence/reconciliation.py\<close>,
    \<open>runtime/reconciler.py\<close>): dispatchers, reconcilers and workers interleaved on one store. A dispatch is published at most once, and a
    recovery is prepared exactly when it is due.
  \<^item> \<open>Run_Recovery\<close>, \<open>Execution_Base\<close>, \<open>Run_Reconciler\<close>, \<open>Run_Reconciler_Safety\<close> (\<open>runtime/recovery.py\<close>, \<open>runtime/execution_base.py\<close>,
    \<open>runtime/run_reconciler.py\<close>): recovery of a whole Run: the diagnosis of every task, the frontier, the base commit that
    contains the dependencies, and admission within the limits.
  \<^item> \<open>Dag_Store\<close> (\<open>persistence/dag.py\<close>): the graph in its columns. What is stored is read back in normal form.
  \<^item> \<open>Task_Run\<close>, \<open>Failure_Evidence\<close>, \<open>Orchestrator\<close>, \<open>Orchestrator_Safety\<close> (\<open>runtime/state_machine.py\<close>, \<open>runtime/failure_classifier.py\<close>,
    \<open>runtime/orchestrator.py\<close>): the loop of one task ends within its repair budget and succeeds only on a passed verification that a review
    accepted.
  \<^item> \<open>Git_Workspace\<close>, \<open>Workspace_Files\<close>, \<open>Repository_Tools\<close>, \<open>Tool_Safety\<close> (\<open>workspace/git.py\<close>, \<open>workspace/worktree.py\<close>, \<open>tools/repository.py\<close>):
    worktrees, trusted paths and the nine tools. The locales \<open>repository_tool\<close> and \<open>reading_tool\<close> are the contract of a handler; no call
    changes a file outside the write scope.
  \<^item> \<open>Merge_Queue\<close>, \<open>Merge_Safety\<close>, \<open>Merge_Discipline\<close> (\<open>runtime/merge_queue.py\<close>): tasks are merged once, after their dependencies, for any
    behaviour of Git, and the queue moves only its own refs, by compare and swap.
  \<^item> \<open>Worker_Wave\<close>, \<open>Wave_Safety\<close> (\<open>runtime/worker_coordinator.py\<close>): one wave of parallel workers, every await an interleaving point.

  \<^bold>\<open>How code is modelled.\<close> A class with state is a \<open>record\<close>, an enumeration a \<open>datatype\<close>, a method a function on the record. A raise is an
  \<open>Inl\<close>. A transaction that locks its rows is one step; a coroutine is a step between two awaits. Pydantic models are records with
  a constructor function of the same name as the class that validates and normalizes.

  \<^bold>\<open>Parameters.\<close> What is not in the repository is an argument of the definitions: SHA-256 (an arbitrary function of the payload, except
  where a theorem names a collision it excludes), the database clock and fresh identifiers (with a log of those already
  used), the outcome of a broker publication, Git and the file system (a host that may change between two commands), the JSON
  and pydantic readers, the commit parents Git reports, model providers, and the task runner of a worker. Theorems hold for all of
  them, or name the documented behaviour they use.

  \<^bold>\<open>Bounds.\<close> Every loop of the model is structural or has a termination proof; the orchestrator's fuel is its repair budget plus one, and
  \<open>orchestrator_terminates\<close> shows that it is enough. Strings are lists of the first 256 code points. The lease generation is assumed below its
  32-bit column where a theorem says so, and dates lie before the year 10000.

  \<^bold>\<open>Not modelled.\<close> The HTTP service and its projections (\<open>api/\<close>), model providers, the process entry points of the workers, the
  command sandbox and project profiles (\<open>verification/\<close>), context selection, traces, metrics and the benchmark, publication to GitHub, credentials and
  migrations are input and output, presentation or heuristics around the components above. The borrowing code behind unconditional returns of
  the Run budget cannot be reached. The repair of integration conflicts, the human gate, development sessions and the product controller are
  further components on the same stores; they are left for later.
\<close>

end
